(* ===== verification/Prelude.thy ===== *)
theory Prelude
  imports Main "HOL-Library.Word" "HOL-Library.Sublist" "HOL-Library.AList"
begin

text \<open>
  Shared vocabulary of the development: machine integers, clock readings and results as the
  Rust sources use them, the functions of the Rust standard library on strings and integers that
  several components call, hash maps, and the locales that state contracts shared by components.
\<close>

section \<open>Collections of rewrite rules\<close>

named_theorems rust_simps \<open>definitions of the Rust standard-library functions\<close>
named_theorems hm_simps \<open>look-up laws of hash maps\<close>

section \<open>Types\<close>

type_synonym u16 = "16 word"
type_synonym u32 = "32 word"
type_synonym u64 = "64 word"

text \<open>\<open>std::time::Instant\<close>: nanoseconds on the monotonic clock.\<close>

type_synonym instant = nat

text \<open>\<open>Result<T, E>\<close>: \<open>Inl\<close> is \<open>Err\<close>, \<open>Inr\<close> is \<open>Ok\<close>.\<close>

type_synonym ('e, 'a) result = "'e + 'a"

abbreviation Err :: "'e \<Rightarrow> ('e, 'a) result" where "Err \<equiv> Inl"
abbreviation Ok :: "'a \<Rightarrow> ('e, 'a) result" where "Ok \<equiv> Inr"

fun is_ok :: "('e, 'a) result \<Rightarrow> bool" where
  "is_ok (Inl _) = False"
| "is_ok (Inr _) = True"

text \<open>The \<open>?\<close> operator.\<close>

fun try_then :: "('e, 'a) result \<Rightarrow> ('a \<Rightarrow> ('e, 'b) result) \<Rightarrow> ('e, 'b) result" where
  "try_then (Inl e) f = Inl e"
| "try_then (Inr x) f = f x"

definition unwrap_or :: "'a option \<Rightarrow> 'a \<Rightarrow> 'a" where
  [rust_simps]: "unwrap_or o' d = (case o' of None \<Rightarrow> d | Some x \<Rightarrow> x)"

lemma unwrap_or_simps [simp]:
  "unwrap_or None d = d"
  "unwrap_or (Some x) d = x"
  by (simp_all add: unwrap_or_def)

lemma is_ok_iff: "is_ok r \<longleftrightarrow> (\<exists>x. r = Inr x)"
  by (cases r) auto

lemma try_then_Ok_iff: "try_then r f = Inr y \<longleftrightarrow> (\<exists>x. r = Inr x \<and> f x = Inr y)"
  by (cases r) auto

fun collect_results :: "('e, 'a) result list \<Rightarrow> ('e, 'a list) result" where
  "collect_results [] = Ok []"
| "collect_results (x # xs) = try_then x (\<lambda>y. try_then (collect_results xs) (\<lambda>ys. Ok (y # ys)))"

lemma collect_results_Ok_iff: "collect_results rs = Inr xs \<longleftrightarrow> rs = map Inr xs"
  by (induction rs arbitrary: xs) (auto simp: try_then_Ok_iff Cons_eq_map_conv)

text \<open>\<open>map_err\<close>.\<close>

fun err_as :: "('e \<Rightarrow> 'f) \<Rightarrow> ('e, 'a) result \<Rightarrow> ('f, 'a) result" where
  "err_as f (Inl e) = Inl (f e)"
| "err_as f (Inr x) = Inr x"

lemma err_as_Ok_iff [simp]: "err_as f x = Inr y \<longleftrightarrow> x = Inr y"
  by (cases x) auto

lemma try_then_Err_iff:
  "try_then r f = Inl e \<longleftrightarrow> r = Inl e \<or> (\<exists>x. r = Inr x \<and> f x = Inl e)"
  by (cases r) auto

section \<open>Durations\<close>

definition nanos_per_sec :: nat where
  "nanos_per_sec = 1000000000"

text \<open>\<open>Instant::duration_since\<close> saturates to zero, as natural subtraction does.\<close>

definition duration_since :: "instant \<Rightarrow> instant \<Rightarrow> nat" where
  [rust_simps]: "duration_since later earlier = later - earlier"

definition as_secs :: "nat \<Rightarrow> nat" where
  [rust_simps]: "as_secs d = d div nanos_per_sec"

definition from_secs :: "nat \<Rightarrow> nat" where
  [rust_simps]: "from_secs s = s * nanos_per_sec"

lemma nanos_per_sec_pos [simp]: "0 < nanos_per_sec"
  by (simp add: nanos_per_sec_def)

lemma as_secs_ge_iff: "s \<le> as_secs d \<longleftrightarrow> from_secs s \<le> d"
  unfolding as_secs_def from_secs_def
  by (simp add: less_eq_div_iff_mult_less_eq)

lemma as_secs_mono: "d \<le> d' \<Longrightarrow> as_secs d \<le> as_secs d'"
  by (simp add: as_secs_def div_le_mono)

section \<open>Integers\<close>

definition saturating_sub :: "'a::len word \<Rightarrow> 'a word \<Rightarrow> 'a word" where
  [rust_simps]: "saturating_sub a b = (if b \<le> a then a - b else 0)"

lemma unat_saturating_sub: "unat (saturating_sub a b) = unat a - unat b"
  by (simp add: saturating_sub_def unat_sub word_le_nat_alt)

text \<open>\<open>u64::checked_mul\<close>, with an equation that computes on integers.\<close>

definition checked_mul :: "u64 \<Rightarrow> u64 \<Rightarrow> u64 option" where
  "checked_mul a b = (if unat a * unat b < 2 ^ 64 then Some (a * b) else None)"

lemma checked_mul_Some: "checked_mul a b = Some r \<longleftrightarrow> unat a * unat b < 2 ^ 64 \<and> r = a * b"
  by (auto simp: checked_mul_def)

lemma unat_mult_no_wrap: "unat a * unat b < 2 ^ 64 \<Longrightarrow> unat (a * b) = unat a * unat b" for a b :: u64
  by (simp add: unat_word_ariths)

lemma checked_mul_code [code]:
  "checked_mul a b = (if uint a * uint b < 18446744073709551616 then Some (a * b) else None)"
proof -
  have "(unat a * unat b < 2 ^ 64) = (int (unat a * unat b) < int (2 ^ 64))" by (simp only: of_nat_less_iff)
  also have "\<dots> = (uint a * uint b < 18446744073709551616)" by simp
  finally show ?thesis by (simp add: checked_mul_def)
qed

lemma unat_Suc_no_wrap:
  fixes a b :: "'a::len word"
  assumes "a < b"
  shows "unat (a + 1) = Suc (unat a)"
proof -
  have "Suc (unat a) < 2 ^ LENGTH('a)"
    using assms less_le_trans [OF _ Suc_leI [OF unsigned_less [of b, where 'a = nat]]]
    by (simp add: word_less_nat_alt)
  then show ?thesis
    by (simp add: unat_word_ariths)
qed

lemma word_Suc_le:
  fixes a b :: "'a::len word"
  assumes "a < b"
  shows "a + 1 \<le> b"
  using assms unat_Suc_no_wrap [OF assms] by (simp add: word_le_nat_alt word_less_nat_alt)

lemma unat_ucast_widen:
  fixes w :: "'a::len word"
  assumes "LENGTH('a) \<le> LENGTH('b::len)"
  shows "unat (ucast w :: 'b word) = unat w"
proof -
  have "unat w < 2 ^ LENGTH('b)"
    using unsigned_less [of w, where 'a = nat] assms
    by (meson less_le_trans one_le_numeral power_increasing)
  then show ?thesis
    by (simp add: unsigned_ucast_eq take_bit_nat_eq_self)
qed

section \<open>Strings\<close>

text \<open>
  \<open>str\<close> and \<open>String\<close> are lists of bytes; \<open>len\<close> counts bytes. The functions that classify
  characters (white space) are given for ASCII text.
\<close>

definition starts_with :: "string \<Rightarrow> string \<Rightarrow> bool" where
  [rust_simps]: "starts_with s p = prefix p s"

definition ends_with :: "string \<Rightarrow> string \<Rightarrow> bool" where
  [rust_simps]: "ends_with s p = suffix p s"

definition contains_char :: "string \<Rightarrow> char \<Rightarrow> bool" where
  [rust_simps]: "contains_char s c = (c \<in> set s)"

text \<open>\<open>trim_start_matches\<close> removes the pattern as often as it occurs in front.\<close>

function trim_start_matches :: "string \<Rightarrow> string \<Rightarrow> string" where
  "trim_start_matches p s =
     (if p \<noteq> [] \<and> prefix p s then trim_start_matches p (drop (length p) s) else s)"
  by pat_completeness auto
termination
proof (relation "measure (\<lambda>(p, s). length s)")
  fix p s :: string
  assume "p \<noteq> [] \<and> prefix p s"
  then have "0 < length p" and "length p \<le> length s"
    by (auto dest: prefix_length_le)
  then have "length s - length p < length s"
    by linarith
  then show "((p, drop (length p) s), p, s) \<in> measure (\<lambda>(p, s). length s)"
    by simp
qed simp

declare trim_start_matches.simps [simp del]

fun str_split :: "char \<Rightarrow> string \<Rightarrow> string list" where
  "str_split c [] = [[]]"
| "str_split c (x # xs) =
     (if x = c then [] # str_split c xs
      else (case str_split c xs of [] \<Rightarrow> [[x]] | w # ws \<Rightarrow> (x # w) # ws))"

definition is_whitespace :: "char \<Rightarrow> bool" where
  [rust_simps]: "is_whitespace c = (c \<in> {CHR '' '', CHR 0x09, CHR 0x0A, CHR 0x0B, CHR 0x0C, CHR 0x0D})"

definition str_trim :: "string \<Rightarrow> string" where
  "str_trim s = rev (dropWhile is_whitespace (rev (dropWhile is_whitespace s)))"

fun split_whitespace_aux :: "string \<Rightarrow> string \<Rightarrow> string list" where
  "split_whitespace_aux acc [] = (if acc = [] then [] else [rev acc])"
| "split_whitespace_aux acc (x # xs) =
     (if is_whitespace x
      then (if acc = [] then split_whitespace_aux [] xs else rev acc # split_whitespace_aux [] xs)
      else split_whitespace_aux (x # acc) xs)"

definition split_whitespace :: "string \<Rightarrow> string list" where
  "split_whitespace s = split_whitespace_aux [] s"

fun str_join :: "string \<Rightarrow> string list \<Rightarrow> string" where
  "str_join sep [] = []"
| "str_join sep [x] = x"
| "str_join sep (x # y # ys) = x @ sep @ str_join sep (y # ys)"

text \<open>Substring test, trimming of one character, ASCII case.\<close>

fun contains_str :: "string \<Rightarrow> string \<Rightarrow> bool" where
  "contains_str [] p = (p = [])"
| "contains_str (c # cs) p = (prefix p (c # cs) \<or> contains_str cs p)"

definition trim_start_char :: "char \<Rightarrow> string \<Rightarrow> string" where
  "trim_start_char c s = dropWhile (\<lambda>x. x = c) s"

definition trim_end_char :: "char \<Rightarrow> string \<Rightarrow> string" where
  "trim_end_char c s = rev (dropWhile (\<lambda>x. x = c) (rev s))"

definition to_ascii_lowercase :: "string \<Rightarrow> string" where
  "to_ascii_lowercase s = map (\<lambda>c. let n = (of_char c :: nat) in
     if 65 \<le> n \<and> n \<le> 90 then char_of (n + 32) else c) s"

definition eq_ignore_ascii_case :: "string \<Rightarrow> string \<Rightarrow> bool" where
  "eq_ignore_ascii_case s t = (to_ascii_lowercase s = to_ascii_lowercase t)"

definition is_ascii_hexdigit :: "char \<Rightarrow> bool" where
  "is_ascii_hexdigit c = (let n = (of_char c :: nat) in
     (48 \<le> n \<and> n \<le> 57) \<or> (65 \<le> n \<and> n \<le> 70) \<or> (97 \<le> n \<and> n \<le> 102))"

definition strip_prefix :: "string \<Rightarrow> string \<Rightarrow> string option" where
  "strip_prefix p s = (if prefix p s then Some (drop (length p) s) else None)"

text \<open>\<open>str::parse\<close> for unsigned integers below \<open>bound\<close> (an optional plus sign, then digits) and for \<open>bool\<close>.\<close>

fun parse_digits :: "nat \<Rightarrow> string \<Rightarrow> nat option" where
  "parse_digits acc [] = Some acc"
| "parse_digits acc (c # cs) = (let n = (of_char c :: nat) in
     if 48 \<le> n \<and> n \<le> 57 then parse_digits (acc * 10 + (n - 48)) cs else None)"

definition parse_uint :: "nat \<Rightarrow> string \<Rightarrow> nat option" where
  "parse_uint bound s =
     (let ds = (case s of [] \<Rightarrow> [] | c # cs \<Rightarrow> if c = CHR ''+'' then cs else s)
      in if ds = [] then None
         else (case parse_digits 0 ds of None \<Rightarrow> None | Some v \<Rightarrow> if v < bound then Some v else None))"

definition parse_u16 :: "string \<Rightarrow> u16 option" where
  "parse_u16 s = map_option of_nat (parse_uint (2 ^ 16) s)"

definition parse_u32 :: "string \<Rightarrow> u32 option" where
  "parse_u32 s = map_option of_nat (parse_uint (2 ^ 32) s)"

definition parse_bool :: "string \<Rightarrow> bool option" where
  "parse_bool s = (if s = ''true'' then Some True else if s = ''false'' then Some False else None)"

text \<open>\<open>to_string\<close> of an unsigned integer.\<close>

definition is_ascii_digit :: "char \<Rightarrow> bool" where
  "is_ascii_digit c = (let n = (of_char c :: nat) in 48 \<le> n \<and> n \<le> 57)"

fun show_nat :: "nat \<Rightarrow> string" where
  "show_nat n = (if n < 10 then [char_of (48 + n)] else show_nat (n div 10) @ [char_of (48 + n mod 10)])"

declare show_nat.simps [simp del]

lemma is_ascii_digit_char: "(d :: nat) < 10 \<Longrightarrow> is_ascii_digit (char_of (48 + d))"
  by (simp add: is_ascii_digit_def)

lemma show_nat_digits: "list_all is_ascii_digit (show_nat n)"
proof (induction n rule: show_nat.induct)
  case (1 n)
  then show ?case
    by (subst show_nat.simps) (simp add: is_ascii_digit_char)
qed

lemma show_nat_nonempty [simp]: "show_nat n \<noteq> []"
  by (subst show_nat.simps) simp

lemma parse_digits_append:
  "parse_digits acc (xs @ ys) = (case parse_digits acc xs of None \<Rightarrow> None | Some a \<Rightarrow> parse_digits a ys)"
  by (induction xs arbitrary: acc) (auto simp: Let_def)

lemma parse_digits_show_nat: "parse_digits 0 (show_nat n) = Some n"
proof (induction n rule: show_nat.induct)
  case (1 n)
  moreover have "n mod 10 \<le> 9" by linarith
  ultimately show ?case
    by (subst show_nat.simps) (simp add: parse_digits_append)
qed

lemma parse_uint_show_nat:
  assumes "n < bound"
  shows "parse_uint bound (show_nat n) = Some n"
proof -
  obtain c cs where cs: "show_nat n = c # cs"
    by (meson neq_Nil_conv show_nat_nonempty)
  with show_nat_digits [of n] have "is_ascii_digit c"
    by simp
  then have "c \<noteq> CHR ''+''"
    by (auto simp: is_ascii_digit_def)
  with assms cs show ?thesis
    using parse_digits_show_nat [of n] by (simp add: parse_uint_def)
qed

lemma str_split_nonempty [simp]: "str_split c s \<noteq> []"
  by (induction s) (auto split: list.splits)

lemma str_split_no_sep: "c \<notin> set s \<Longrightarrow> str_split c s = [s]"
  by (induction s) auto

lemma str_split_append_sep: "c \<notin> set s \<Longrightarrow> str_split c (s @ c # t) = s # str_split c t"
  by (induction s) auto

lemma str_split_join:
  assumes "ps \<noteq> []" and "\<forall>p\<in>set ps. c \<notin> set p"
  shows "str_split c (str_join [c] ps) = ps"
  using assms
proof (induction "[c]" ps rule: str_join.induct)
  case (2 x)
  then show ?case by (simp add: str_split_no_sep)
next
  case (3 x y ys)
  then show ?case by (simp add: str_split_append_sep)
qed simp

lemma to_ascii_lowercase_idem [simp]: "to_ascii_lowercase (to_ascii_lowercase s) = to_ascii_lowercase s"
  by (auto simp: to_ascii_lowercase_def Let_def)

lemma to_ascii_lowercase_append: "to_ascii_lowercase (s @ t) = to_ascii_lowercase s @ to_ascii_lowercase t"
  by (simp add: to_ascii_lowercase_def)

lemma trim_start_matches_no_prefix: "\<not> prefix p s \<Longrightarrow> trim_start_matches p s = s"
  by (simp add: trim_start_matches.simps)

lemma trim_start_matches_fixpoint:
  "p \<noteq> [] \<Longrightarrow> \<not> prefix p (trim_start_matches p s)"
proof (induction p s rule: trim_start_matches.induct)
  case (1 p s)
  then show ?case
    by (cases "prefix p s") (simp_all add: trim_start_matches.simps [of p s])
qed

lemma trim_start_matches_append:
  "p \<noteq> [] \<Longrightarrow> trim_start_matches p (p @ s) = trim_start_matches p s"
  by (simp add: trim_start_matches.simps [of p "p @ s"])

text \<open>\<open>split_once\<close> at the first and \<open>rsplit_once\<close> at the last occurrence of a character.\<close>

fun split_once :: "char \<Rightarrow> string \<Rightarrow> (string \<times> string) option" where
  "split_once c [] = None"
| "split_once c (x # xs) =
     (if x = c then Some ([], xs) else map_option (\<lambda>(a, b). (x # a, b)) (split_once c xs))"

definition rsplit_once :: "char \<Rightarrow> string \<Rightarrow> (string \<times> string) option" where
  "rsplit_once c s = map_option (\<lambda>(b, a). (rev a, rev b)) (split_once c (rev s))"

lemma split_once_append: "c \<notin> set p \<Longrightarrow> split_once c (p @ c # q) = Some (p, q)"
  by (induction p) auto

lemma split_once_None: "c \<notin> set s \<Longrightarrow> split_once c s = None"
  by (induction s) auto

lemma split_once_SomeD: "split_once c s = Some (p, q) \<Longrightarrow> s = p @ c # q \<and> c \<notin> set p"
  by (induction s arbitrary: p) (auto split: if_splits)

lemma rsplit_once_append: "c \<notin> set q \<Longrightarrow> rsplit_once c (p @ c # q) = Some (p, q)"
  using split_once_append [of c "rev q" "rev p"] by (simp add: rsplit_once_def)

lemma rsplit_once_None: "c \<notin> set s \<Longrightarrow> rsplit_once c s = None"
  by (simp add: rsplit_once_def split_once_None)

lemma rsplit_once_SomeD:
  assumes "rsplit_once c s = Some (p, q)"
  shows "s = p @ c # q \<and> c \<notin> set q"
proof -
  from assms obtain a b where "split_once c (rev s) = Some (b, a)" "p = rev a" "q = rev b"
    by (auto simp: rsplit_once_def)
  with split_once_SomeD [of c "rev s" b a] show ?thesis
    by (metis append.assoc append_Cons append_Nil rev.simps(2) rev_append rev_rev_ident set_rev)
qed

section \<open>Hash maps\<close>

text \<open>
  \<open>HashMap\<close> and \<open>DashMap\<close>: association lists with distinct keys. The list order stands for the
  unspecified iteration order.
\<close>

type_synonym ('k, 'v) hmap = "('k \<times> 'v) list"

definition hm_wf :: "('k, 'v) hmap \<Rightarrow> bool" where
  "hm_wf m = distinct (map fst m)"

definition hm_get :: "('k, 'v) hmap \<Rightarrow> 'k \<Rightarrow> 'v option" where
  "hm_get m k = map_of m k"

definition hm_insert :: "'k \<Rightarrow> 'v \<Rightarrow> ('k, 'v) hmap \<Rightarrow> ('k, 'v) hmap" where
  "hm_insert k v m = AList.update k v m"

definition hm_remove :: "'k \<Rightarrow> ('k, 'v) hmap \<Rightarrow> ('k, 'v) hmap" where
  "hm_remove k m = AList.delete k m"

definition hm_retain :: "('k \<Rightarrow> 'v \<Rightarrow> bool) \<Rightarrow> ('k, 'v) hmap \<Rightarrow> ('k, 'v) hmap" where
  "hm_retain P m = filter (\<lambda>(k, v). P k v) m"

text \<open>\<open>entry(k).or_insert_with(d)\<close>: the value the entry holds afterwards.\<close>

definition hm_or_insert :: "('k, 'v) hmap \<Rightarrow> 'k \<Rightarrow> 'v \<Rightarrow> 'v" where
  "hm_or_insert m k d = (case hm_get m k of None \<Rightarrow> d | Some v \<Rightarrow> v)"

text \<open>The laws a client of a keyed table relies on.\<close>

locale keyed_table =
  fixes wf :: "'m \<Rightarrow> bool"
    and empty :: 'm
    and get :: "'m \<Rightarrow> 'k \<Rightarrow> 'v option"
    and insert :: "'k \<Rightarrow> 'v \<Rightarrow> 'm \<Rightarrow> 'm"
    and remove :: "'k \<Rightarrow> 'm \<Rightarrow> 'm"
    and retain :: "('k \<Rightarrow> 'v \<Rightarrow> bool) \<Rightarrow> 'm \<Rightarrow> 'm"
  assumes wf_empty: "wf empty"
    and wf_insert: "wf m \<Longrightarrow> wf (insert k v m)"
    and wf_remove: "wf m \<Longrightarrow> wf (remove k m)"
    and wf_retain: "wf m \<Longrightarrow> wf (retain P m)"
    and get_empty: "get empty k = None"
    and get_insert: "get (insert k v m) k' = (if k' = k then Some v else get m k')"
    and get_remove: "get (remove k m) k' = (if k' = k then None else get m k')"
    and get_retain: "wf m \<Longrightarrow> get (retain P m) k =
      (case get m k of None \<Rightarrow> None | Some v \<Rightarrow> if P k v then Some v else None)"
begin

lemma get_insert_same: "get (insert k v m) k = Some v"
  by (simp add: get_insert)

lemma get_insert_other: "k' \<noteq> k \<Longrightarrow> get (insert k v m) k' = get m k'"
  by (simp add: get_insert)

lemma retain_all:
  assumes "wf m" and "\<And>k v. get m k = Some v \<Longrightarrow> P k v"
  shows "get (retain P m) k = get m k"
  using assms by (auto simp: get_retain split: option.splits)

lemma retain_none:
  assumes "wf m" and "\<And>v. \<not> P k v"
  shows "get (retain P m) k = None"
  using assms by (auto simp: get_retain split: option.splits)

end

lemma hm_get_retain:
  assumes "hm_wf m"
  shows "hm_get (hm_retain P m) k =
    (case hm_get m k of None \<Rightarrow> None | Some v \<Rightarrow> if P k v then Some v else None)"
  using assms unfolding hm_wf_def hm_get_def hm_retain_def
proof (induction m)
  case Nil
  then show ?case by simp
next
  case (Cons kv m)
  obtain k0 v0 where kv: "kv = (k0, v0)" by force
  from Cons.prems kv have "map_of m k0 = None"
    by (auto simp: map_of_eq_None_iff)
  with Cons kv show ?case
    by (auto split: option.splits)
qed

interpretation hm: keyed_table hm_wf "[]" hm_get hm_insert hm_remove hm_retain
proof unfold_locales
  fix m :: "('k, 'v) hmap" and P
  assume "hm_wf m"
  then show "hm_wf (hm_retain P m)"
    unfolding hm_wf_def hm_retain_def by (rule distinct_map_filter)
qed (simp_all add: hm_wf_def hm_get_def hm_insert_def hm_remove_def distinct_update
      distinct_delete update_conv' delete_conv' hm_get_retain [unfolded hm_wf_def hm_get_def])

declare hm.wf_empty [simp] hm.wf_insert [simp] hm.wf_remove [simp] hm.wf_retain [simp]
  hm.get_empty [hm_simps, simp] hm.get_insert [hm_simps, simp] hm.get_remove [hm_simps, simp]
  hm.get_retain [hm_simps]

lemma hm_or_insert_present: "hm_get m k = Some v \<Longrightarrow> hm_or_insert m k d = v"
  by (simp add: hm_or_insert_def)

lemma hm_or_insert_absent: "hm_get m k = None \<Longrightarrow> hm_or_insert m k d = d"
  by (simp add: hm_or_insert_def)

lemma hm_get_set: "hm_get m k = Some v \<Longrightarrow> (k, v) \<in> set m"
  by (simp add: hm_get_def map_of_SomeD)

lemma hm_get_iff_set: "hm_wf m \<Longrightarrow> hm_get m k = Some v \<longleftrightarrow> (k, v) \<in> set m"
  by (simp add: hm_get_def hm_wf_def)

lemma hm_get_map_values: "hm_get (map (\<lambda>(k, v). (k, f v)) m) k = map_option f (hm_get m k)"
  by (simp add: hm_get_def map_of_map)

lemma hm_wf_map_values: "hm_wf (map (\<lambda>(k, v). (k, f v)) m) = hm_wf m"
  by (simp add: hm_wf_def case_prod_unfold comp_def)

lemma length_filter_split: "length xs - length (filter P xs) = length (filter (\<lambda>x. \<not> P x) xs)"
  by (induction xs) (auto simp: Suc_diff_le)

section \<open>Machines driven by a sequence of calls\<close>

text \<open>
  A component whose operations are called one after the other: an invariant that every call keeps
  holds after any sequence of calls, and an observation no call changes is the same at the end.
\<close>

locale call_machine =
  fixes step :: "'e \<Rightarrow> 's \<Rightarrow> 's"
    and inv :: "'s \<Rightarrow> bool"
  assumes step_inv: "inv s \<Longrightarrow> inv (step e s)"
begin

lemma run_inv: "inv s \<Longrightarrow> inv (fold step es s)"
  by (induction es arbitrary: s) (auto intro: step_inv)

lemma run_mono:
  fixes m :: "'s \<Rightarrow> 'n::preorder"
  assumes "\<And>e s. inv s \<Longrightarrow> m s \<le> m (step e s)" and "inv s"
  shows "m s \<le> m (fold step es s)"
  using assms(2)
proof (induction es arbitrary: s)
  case (Cons e es)
  then have "m (step e s) \<le> m (fold step es (step e s))"
    by (simp add: step_inv)
  with assms(1) [OF Cons.prems] show ?case
    by (auto intro: order_trans)
qed simp

end

end
