(* ===== verification/App_Types.thy ===== *)
theory App_Types
  imports Prelude
begin

text \<open>
  The shared data of the platform (\<open>crates/common/src/types.rs\<close>): application identifiers with
  their validation and accessors, routes, resource limits, cluster node records and the per-app
  configuration.
\<close>

section \<open>Application identifiers\<close>

datatype app_id = AppId string

text \<open>\<open>AppId::new_validate\<close>: the error messages are kept as the source has them.\<close>

definition app_id_new_validate :: "string \<Rightarrow> (string, app_id) result" where
  "app_id_new_validate s =
     (if s = [] then Err ''AppId cannot be empty''
      else if contains_char s (CHR '' '') \<or> contains_char s (CHR 0x0A) \<or> contains_char s (CHR 0x09)
      then Err ''AppId cannot contain whitespace''
      else if contains_char s (CHR ''>'') \<or> contains_char s (CHR ''*'')
      then Err ''AppId cannot contain > or * (invalid in NATS subjects)''
      else Ok (AppId s))"

text \<open>\<open>AppId::new\<close> and \<open>AppId::new_namespaced\<close> panic where validation fails: \<open>None\<close> is the panic.\<close>

definition app_id_new :: "string \<Rightarrow> string \<Rightarrow> app_id option" where
  "app_id_new name version =
     (case app_id_new_validate (name @ '':'' @ version) of Inl _ \<Rightarrow> None | Inr a \<Rightarrow> Some a)"

definition app_id_new_namespaced :: "string \<Rightarrow> string \<Rightarrow> string \<Rightarrow> app_id option" where
  "app_id_new_namespaced namespace name version =
     (case app_id_new_validate (namespace @ ''/'' @ name @ '':'' @ version) of
        Inl _ \<Rightarrow> None | Inr a \<Rightarrow> Some a)"

primrec app_id_as_str :: "app_id \<Rightarrow> string" where
  "app_id_as_str (AppId s) = s"

text \<open>\<open>split('/').next().unwrap_or(..)\<close> and \<open>split('/').nth(1).unwrap_or(..)\<close>.\<close>

definition app_id_namespace :: "app_id \<Rightarrow> string" where
  "app_id_namespace a =
     (if contains_char (app_id_as_str a) (CHR ''/'')
      then (case str_split (CHR ''/'') (app_id_as_str a) of [] \<Rightarrow> ''default'' | w # _ \<Rightarrow> w)
      else ''default'')"

definition app_id_bare_name :: "app_id \<Rightarrow> string" where
  "app_id_bare_name a =
     (if contains_char (app_id_as_str a) (CHR ''/'')
      then (case str_split (CHR ''/'') (app_id_as_str a) of _ # w # _ \<Rightarrow> w | _ \<Rightarrow> app_id_as_str a)
      else app_id_as_str a)"

definition app_id_bare_app_name :: "app_id \<Rightarrow> string" where
  "app_id_bare_app_name a =
     (case str_split (CHR '':'') (app_id_bare_name a) of [] \<Rightarrow> app_id_bare_name a | w # _ \<Rightarrow> w)"

section \<open>Routes\<close>

record route =
  route_host :: string
  route_app_id :: app_id
  route_path_prefix :: string
  route_strip_prefix :: bool
  route_created_at :: u64
  route_updated_at :: u64

section \<open>Resource limits\<close>

datatype fuel_quota = FuelQuota u64

datatype memory_pages = MemoryPages u32

text \<open>\<open>self.0 as u64 * 65536\<close>: the widening cast, then a multiplication at 64 bits.\<close>

primrec memory_pages_to_bytes :: "memory_pages \<Rightarrow> u64" where
  "memory_pages_to_bytes (MemoryPages n) = ucast n * 65536"

record extended_limits =
  xl_max_open_fds :: u32
  xl_max_fs_write_bytes :: u64
  xl_max_net_egress_bytes :: u64
  xl_max_outbound_connections :: u32
  xl_max_table_elements :: u32

definition extended_limits_default :: extended_limits where
  "extended_limits_default = \<lparr> xl_max_open_fds = 64, xl_max_fs_write_bytes = 50 * 1024 * 1024,
     xl_max_net_egress_bytes = 10 * 1024 * 1024, xl_max_outbound_connections = 16,
     xl_max_table_elements = 10000 \<rparr>"

record extended_limits_config =
  xlc_max_open_fds :: "u32 option"
  xlc_max_fs_write_bytes :: "u64 option"
  xlc_max_net_egress_bytes :: "u64 option"
  xlc_max_outbound_connections :: "u32 option"
  xlc_max_table_elements :: "u32 option"

definition to_limits :: "extended_limits_config \<Rightarrow> extended_limits" where
  "to_limits c = \<lparr>
     xl_max_open_fds = unwrap_or (xlc_max_open_fds c) (xl_max_open_fds extended_limits_default),
     xl_max_fs_write_bytes =
       unwrap_or (xlc_max_fs_write_bytes c) (xl_max_fs_write_bytes extended_limits_default),
     xl_max_net_egress_bytes =
       unwrap_or (xlc_max_net_egress_bytes c) (xl_max_net_egress_bytes extended_limits_default),
     xl_max_outbound_connections =
       unwrap_or (xlc_max_outbound_connections c) (xl_max_outbound_connections extended_limits_default),
     xl_max_table_elements =
       unwrap_or (xlc_max_table_elements c) (xl_max_table_elements extended_limits_default) \<rparr>"

section \<open>Facts about identifiers\<close>

lemma app_id_new_validate_Ok_iff:
  "app_id_new_validate s = Inr a \<longleftrightarrow>
     a = AppId s \<and> s \<noteq> [] \<and>
     set s \<inter> {CHR '' '', CHR 0x0A, CHR 0x09, CHR ''>'', CHR ''*''} = {}"
  unfolding app_id_new_validate_def contains_char_def by auto

lemma app_id_namespace_qualified:
  "CHR ''/'' \<notin> set ns \<Longrightarrow> app_id_namespace (AppId (ns @ ''/'' @ rest)) = ns"
  by (simp add: app_id_namespace_def contains_char_def str_split_append_sep)

lemma app_id_bare_name_qualified:
  assumes "CHR ''/'' \<notin> set ns" and "CHR ''/'' \<notin> set rest"
  shows "app_id_bare_name (AppId (ns @ ''/'' @ rest)) = rest"
  using assms
  by (simp add: app_id_bare_name_def contains_char_def str_split_append_sep str_split_no_sep)

lemma app_id_unqualified:
  assumes "CHR ''/'' \<notin> set s"
  shows "app_id_namespace (AppId s) = ''default''" and "app_id_bare_name (AppId s) = s"
  using assms by (simp_all add: app_id_namespace_def app_id_bare_name_def contains_char_def)

lemma app_id_bare_app_name_versioned:
  assumes "app_id_bare_name a = name @ '':'' @ version" and "CHR '':'' \<notin> set name"
  shows "app_id_bare_app_name a = name"
  using assms by (simp add: app_id_bare_app_name_def str_split_append_sep)

lemma memory_pages_to_bytes_exact:
  "unat (memory_pages_to_bytes (MemoryPages n)) = unat n * 65536"
proof -
  have "unat n < 2 ^ 32"
    using unsigned_less [of n, where 'a = nat] by simp
  then have "unat n * 65536 < 2 ^ 64"
    by simp
  then show ?thesis
    by (simp add: unat_word_ariths unat_ucast_widen)
qed

end
