(* ===== verification/Router.thy ===== *)
theory Router
  imports App_Types
begin

text \<open>
  The host router of the proxy (\<open>crates/proxy/src/router/mod.rs\<close>): a table from hosts to route
  entries kept sorted by decreasing prefix length, with upsert, removal, bulk load and
  longest-prefix resolution. The abstract specification is a map from (host, prefix) pairs to
  targets in which a request looks up the prefixes of its path from the longest to the shortest.
\<close>

section \<open>State and operations\<close>

record resolved_route =
  resolved_app_id :: app_id
  resolved_strip_prefix :: bool
  resolved_matched_prefix :: string

record route_entry =
  entry_app_id :: app_id
  entry_path_prefix :: string
  entry_strip_prefix :: bool

type_synonym host_router = "(string, route_entry list) hmap"

text \<open>An empty prefix stands for the root path.\<close>

definition normalise_prefix :: "string \<Rightarrow> string" where
  "normalise_prefix p = (if p = [] then ''/'' else p)"

text \<open>\<open>entries.sort_by_key(|entry| Reverse(entry.path_prefix.len()))\<close>, a stable sort.\<close>

definition sort_entries :: "route_entry list \<Rightarrow> route_entry list" where
  "sort_entries es = sort_key (\<lambda>e. - int (length (entry_path_prefix e))) es"

definition add_route :: "host_router \<Rightarrow> string \<Rightarrow> string \<Rightarrow> app_id \<Rightarrow> bool \<Rightarrow> host_router" where
  "add_route routes host path_prefix app strip =
     (let pfx = normalise_prefix path_prefix;
          entries = hm_or_insert routes host [];
          entries1 = filter (\<lambda>e. entry_path_prefix e \<noteq> pfx) entries;
          entries2 = entries1 @ [\<lparr> entry_app_id = app, entry_path_prefix = pfx,
                                   entry_strip_prefix = strip \<rparr>]
      in hm_insert host (sort_entries entries2) routes)"

definition remove_route :: "host_router \<Rightarrow> string \<Rightarrow> string \<Rightarrow> host_router" where
  "remove_route routes host path_prefix =
     (case hm_get routes host of
        None \<Rightarrow> routes
      | Some entries \<Rightarrow>
          (let entries1 = filter (\<lambda>e. entry_path_prefix e \<noteq> path_prefix) entries
           in if entries1 = [] then hm_remove host routes else hm_insert host entries1 routes))"

definition remove_host :: "host_router \<Rightarrow> string \<Rightarrow> host_router" where
  "remove_host routes host = hm_remove host routes"

fun resolve_candidates :: "host_router \<Rightarrow> string \<Rightarrow> string list \<Rightarrow> resolved_route option" where
  "resolve_candidates routes path [] = None"
| "resolve_candidates routes path (h # hs) =
     (case hm_get routes h of
        None \<Rightarrow> resolve_candidates routes path hs
      | Some entries \<Rightarrow>
          (case find (\<lambda>e. starts_with path (entry_path_prefix e)) entries of
             None \<Rightarrow> resolve_candidates routes path hs
           | Some e \<Rightarrow> Some \<lparr> resolved_app_id = entry_app_id e,
                             resolved_strip_prefix = entry_strip_prefix e,
                             resolved_matched_prefix = entry_path_prefix e \<rparr>))"

definition resolve :: "host_router \<Rightarrow> string \<Rightarrow> string \<Rightarrow> resolved_route option" where
  "resolve routes host path =
     resolve_candidates routes path [host, trim_start_matches ''www.'' host]"

text \<open>
  \<open>load_routes_from_store\<close>: the argument is the result of \<open>store.list_routes()\<close>. On success the
  table is cleared and refilled; on failure it stays as it was.
\<close>

definition load_push :: "route \<Rightarrow> host_router \<Rightarrow> host_router" where
  "load_push r m =
     hm_insert (route_host r)
       (hm_or_insert m (route_host r) [] @
          [\<lparr> entry_app_id = route_app_id r, entry_path_prefix = normalise_prefix (route_path_prefix r),
             entry_strip_prefix = route_strip_prefix r \<rparr>]) m"

definition load_routes_from_store :: "('e, route list) result \<Rightarrow> host_router \<Rightarrow> host_router" where
  "load_routes_from_store listed routes =
     (case listed of
        Inl _ \<Rightarrow> routes
      | Inr rs \<Rightarrow> map (\<lambda>(h, es). (h, sort_entries es)) (fold load_push rs []))"

text \<open>\<open>list_routes\<close>: one JSON object per entry, with host, path_prefix, app_id and strip_prefix.\<close>

definition list_routes :: "host_router \<Rightarrow> (string \<times> string \<times> string \<times> bool) list" where
  "list_routes routes =
     concat (map (\<lambda>(host, entries).
       map (\<lambda>e. (host, entry_path_prefix e, app_id_as_str (entry_app_id e), entry_strip_prefix e))
         entries) routes)"

section \<open>Specification\<close>

type_synonym route_spec = "string \<times> string \<Rightarrow> (app_id \<times> bool) option"

fun spec_match :: "route_spec \<Rightarrow> string \<Rightarrow> string \<Rightarrow> nat \<Rightarrow> resolved_route option" where
  "spec_match t h path n =
     (case t (h, take n path) of
        Some (a, s) \<Rightarrow> Some \<lparr> resolved_app_id = a, resolved_strip_prefix = s,
                             resolved_matched_prefix = take n path \<rparr>
      | None \<Rightarrow> (case n of 0 \<Rightarrow> None | Suc k \<Rightarrow> spec_match t h path k))"

definition spec_host :: "route_spec \<Rightarrow> string \<Rightarrow> string \<Rightarrow> resolved_route option" where
  "spec_host t h path = spec_match t h path (length path)"

definition spec_resolve :: "route_spec \<Rightarrow> string \<Rightarrow> string \<Rightarrow> resolved_route option" where
  "spec_resolve t host path =
     (case spec_host t host path of
        Some r \<Rightarrow> Some r
      | None \<Rightarrow> spec_host t (trim_start_matches ''www.'' host) path)"

definition entry_target :: "route_entry \<Rightarrow> app_id \<times> bool" where
  "entry_target e = (entry_app_id e, entry_strip_prefix e)"

definition entries_spec :: "route_entry list \<Rightarrow> string \<Rightarrow> (app_id \<times> bool) option" where
  "entries_spec es p = map_option entry_target (find (\<lambda>e. entry_path_prefix e = p) es)"

definition router_spec :: "host_router \<Rightarrow> route_spec" where
  "router_spec routes = (\<lambda>(h, p). entries_spec (hm_or_insert routes h []) p)"

definition longest_first :: "route_entry list \<Rightarrow> bool" where
  "longest_first es =
     sorted_wrt (\<lambda>a b. length (entry_path_prefix b) \<le> length (entry_path_prefix a)) es"

definition router_wf :: "host_router \<Rightarrow> bool" where
  "router_wf routes = (hm_wf routes \<and> (\<forall>h es. hm_get routes h = Some es \<longrightarrow> longest_first es))"

declare spec_match.simps [simp del]

section \<open>Sorting and searching entries\<close>

lemma find_as_filter: "find P xs = (case filter P xs of [] \<Rightarrow> None | x # _ \<Rightarrow> Some x)"
  by (induction xs) auto

lemma longest_first_sort_entries: "longest_first (sort_entries es)"
proof -
  have "sorted (map (\<lambda>e. - int (length (entry_path_prefix e))) (sort_entries es))"
    by (simp add: sort_entries_def)
  then show ?thesis
    by (simp add: longest_first_def sorted_map)
qed

lemma filter_prefix_sort_entries:
  "filter (\<lambda>e. entry_path_prefix e = p) (sort_entries es) = filter (\<lambda>e. entry_path_prefix e = p) es"
proof -
  let ?key = "\<lambda>e. - int (length (entry_path_prefix e))"
  have split: "filter (\<lambda>e. entry_path_prefix e = p) xs =
      filter (\<lambda>e. entry_path_prefix e = p) (filter (\<lambda>e. ?key e = - int (length p)) xs)" for xs
    by (auto intro!: filter_cong)
  show ?thesis
    by (subst (1 2) split) (simp only: sort_entries_def sort_key_stable)
qed

lemma entries_spec_sort [simp]: "entries_spec (sort_entries es) p = entries_spec es p"
  by (simp add: entries_spec_def find_as_filter filter_prefix_sort_entries)

lemma entries_spec_append:
  "entries_spec (es @ fs) p = (case entries_spec es p of None \<Rightarrow> entries_spec fs p | Some x \<Rightarrow> Some x)"
  by (induction es) (auto simp: entries_spec_def)

lemma entries_spec_filter:
  "entries_spec (filter (\<lambda>e. entry_path_prefix e \<noteq> q) es) p =
     (if p = q then None else entries_spec es p)"
  by (induction es) (auto simp: entries_spec_def)

lemma entries_spec_single:
  "entries_spec [e] p = (if entry_path_prefix e = p then Some (entry_target e) else None)"
  by (simp add: entries_spec_def)

lemma entries_spec_Nil [simp]: "entries_spec [] p = None"
  by (simp add: entries_spec_def)

lemma longest_first_filter: "longest_first es \<Longrightarrow> longest_first (filter P es)"
  by (simp add: longest_first_def sorted_wrt_filter)

section \<open>Longest match\<close>

lemma spec_match_skip:
  assumes "\<And>k. m < k \<Longrightarrow> k \<le> n \<Longrightarrow> t (h, take k path) = None" and "m \<le> n"
  shows "spec_match t h path n = spec_match t h path m"
  using assms
proof (induction n)
  case 0
  then show ?case by simp
next
  case (Suc n)
  show ?case
  proof (cases "m = Suc n")
    case False
    with Suc.prems have "t (h, take (Suc n) path) = None" and "m \<le> n"
      by auto
    with Suc show ?thesis
      by (simp add: spec_match.simps [of t h path "Suc n"])
  qed simp
qed

lemma spec_match_None_iff:
  "spec_match t h path n = None \<longleftrightarrow> (\<forall>k\<le>n. t (h, take k path) = None)"
proof (induction n)
  case 0
  then show ?case by (auto simp: spec_match.simps split: option.splits)
next
  case (Suc n)
  then show ?case
    by (auto simp: spec_match.simps [of t h path "Suc n"] le_Suc_eq split: option.splits)
qed

lemma spec_match_cong:
  assumes "\<And>k. k \<le> n \<Longrightarrow> t (h, take k path) = t' (h', take k path)"
  shows "spec_match t h path n = spec_match t' h' path n"
  using assms
  by (induction n) (simp_all add: spec_match.simps split: option.splits)

text \<open>The first matching entry of a sorted list is the longest registered prefix of the path.\<close>

lemma find_is_longest:
  assumes "longest_first es"
  shows "map_option (\<lambda>e. \<lparr> resolved_app_id = entry_app_id e,
            resolved_strip_prefix = entry_strip_prefix e,
            resolved_matched_prefix = entry_path_prefix e \<rparr>)
          (find (\<lambda>e. starts_with path (entry_path_prefix e)) es) =
         spec_host (\<lambda>(h, p). entries_spec es p) h path"
  using assms
proof (induction es)
  case Nil
  show ?case
    by (simp add: spec_host_def spec_match_None_iff eq_commute [of None])
next
  case (Cons e es)
  let ?p = "entry_path_prefix e"
  let ?t = "\<lambda>(h :: string, p). entries_spec (e # es) p"
  show ?case
  proof (cases "prefix ?p path")
    case True
    then have take: "take (length ?p) path = ?p" and len: "length ?p \<le> length path"
      by (auto simp: prefix_def)
    have none: "?t (h, take k path) = None" if "length ?p < k" "k \<le> length path" for k
      using that Cons.prems
      by (auto simp: entries_spec_def longest_first_def find_None_iff)
    have "spec_match ?t h path (length path) = spec_match ?t h path (length ?p)"
      by (rule spec_match_skip) (use none len in auto)
    also have "\<dots> = Some \<lparr> resolved_app_id = entry_app_id e,
        resolved_strip_prefix = entry_strip_prefix e, resolved_matched_prefix = ?p \<rparr>"
      by (subst spec_match.simps) (simp add: take entries_spec_def entry_target_def)
    finally show ?thesis
      using True by (simp add: spec_host_def starts_with_def)
  next
    case False
    then have "?t (h, take k path) = entries_spec es (take k path)" for k
      by (auto simp: entries_spec_def take_is_prefix)
    then have "spec_match ?t h path (length path) =
        spec_match (\<lambda>(h, p). entries_spec es p) h path (length path)"
      by (intro spec_match_cong) simp
    with False Cons show ?thesis
      by (simp add: spec_host_def starts_with_def longest_first_def)
  qed
qed

lemma spec_host_cong:
  "(\<And>p. t (h, p) = t' (h', p)) \<Longrightarrow> spec_host t h path = spec_host t' h' path"
  unfolding spec_host_def by (rule spec_match_cong) simp

lemma resolve_candidates_Cons_spec:
  assumes "router_wf routes"
  shows "resolve_candidates routes path (h # hs) =
    (case spec_host (router_spec routes) h path of
       Some r \<Rightarrow> Some r | None \<Rightarrow> resolve_candidates routes path hs)"
proof -
  let ?es = "hm_or_insert routes h []"
  have "longest_first ?es"
    using assms by (auto simp: router_wf_def hm_or_insert_def longest_first_def split: option.splits)
  note longest = find_is_longest [OF this, of path h, symmetric]
  have "spec_host (router_spec routes) h path = spec_host (\<lambda>(h, p). entries_spec ?es p) h path"
    by (rule spec_host_cong) (simp add: router_spec_def)
  with longest have "spec_host (router_spec routes) h path =
      map_option (\<lambda>e. \<lparr> resolved_app_id = entry_app_id e,
            resolved_strip_prefix = entry_strip_prefix e,
            resolved_matched_prefix = entry_path_prefix e \<rparr>)
          (find (\<lambda>e. starts_with path (entry_path_prefix e)) ?es)"
    by simp
  then show ?thesis
    by (auto simp: hm_or_insert_def split: option.splits)
qed

section \<open>The operations on the specification\<close>

lemma router_wf_empty: "router_wf []"
  by (simp add: router_wf_def)

lemma router_wf_add_route: "router_wf routes \<Longrightarrow> router_wf (add_route routes host p a s)"
  by (auto simp: router_wf_def add_route_def Let_def longest_first_sort_entries)

lemma router_wf_remove_route: "router_wf routes \<Longrightarrow> router_wf (remove_route routes host p)"
  by (auto simp: router_wf_def remove_route_def Let_def longest_first_filter split: option.splits)

lemma router_wf_remove_host: "router_wf routes \<Longrightarrow> router_wf (remove_host routes host)"
  by (auto simp: router_wf_def remove_host_def)

lemma router_spec_add_route:
  "router_spec (add_route routes host p a s) =
     (router_spec routes)((host, normalise_prefix p) \<mapsto> (a, s))"
proof (rule ext, clarify)
  fix h q
  show "router_spec (add_route routes host p a s) (h, q) =
      ((router_spec routes)((host, normalise_prefix p) \<mapsto> (a, s))) (h, q)"
    by (auto simp: router_spec_def add_route_def Let_def hm_or_insert_def entries_spec_append
        entries_spec_filter entries_spec_single entry_target_def split: option.splits)
qed

lemma router_spec_remove_route:
  "router_spec (remove_route routes host p) = (router_spec routes)((host, p) := None)"
proof (rule ext, clarify)
  fix h q
  show "router_spec (remove_route routes host p) (h, q) =
      ((router_spec routes)((host, p) := None)) (h, q)"
  proof (cases "hm_get routes host")
    case None
    then show ?thesis
      by (auto simp: remove_route_def router_spec_def hm_or_insert_def)
  next
    case (Some es)
    have "entries_spec es q = None" if "filter (\<lambda>e. entry_path_prefix e \<noteq> p) es = []" "q \<noteq> p"
      using entries_spec_filter [of p es q] that by simp
    with Some show ?thesis
      by (auto simp: remove_route_def router_spec_def hm_or_insert_def Let_def entries_spec_filter)
  qed
qed

lemma router_spec_remove_host:
  "router_spec (remove_host routes host) = (\<lambda>(h, p). if h = host then None else router_spec routes (h, p))"
  by (auto simp: remove_host_def router_spec_def hm_or_insert_def)

section \<open>Bulk load\<close>

definition entry_of_route :: "route \<Rightarrow> route_entry" where
  "entry_of_route r = \<lparr> entry_app_id = route_app_id r,
     entry_path_prefix = normalise_prefix (route_path_prefix r),
     entry_strip_prefix = route_strip_prefix r \<rparr>"

lemma hm_wf_fold_load_push: "hm_wf m \<Longrightarrow> hm_wf (fold load_push rs m)"
  by (induction rs arbitrary: m) (simp_all add: load_push_def)

lemma fold_load_push_entries:
  "hm_or_insert (fold load_push rs m) h [] =
     hm_or_insert m h [] @ map entry_of_route (filter (\<lambda>r. route_host r = h) rs)"
  by (induction rs arbitrary: m)
    (simp_all add: load_push_def hm_or_insert_def entry_of_route_def)

lemma hm_or_insert_map_values:
  "f [] = [] \<Longrightarrow> hm_or_insert (map (\<lambda>(k, v). (k, f v)) m) k [] = f (hm_or_insert m k [])"
  by (simp add: hm_or_insert_def hm_get_map_values split: option.splits)

lemma router_wf_load: "router_wf routes \<Longrightarrow> router_wf (load_routes_from_store listed routes)"
  by (auto simp: router_wf_def load_routes_from_store_def hm_wf_map_values hm_wf_fold_load_push
      hm_get_map_values longest_first_sort_entries split: sum.splits)

lemma router_spec_load:
  "router_spec (load_routes_from_store (Inr rs) routes) (h, p) =
     map_option (\<lambda>r. (route_app_id r, route_strip_prefix r))
       (find (\<lambda>r. route_host r = h \<and> normalise_prefix (route_path_prefix r) = p) rs)"
proof -
  have "sort_entries [] = []"
    by (simp add: sort_entries_def)
  then have "router_spec (load_routes_from_store (Inr rs) routes) (h, p) =
      entries_spec (map entry_of_route (filter (\<lambda>r. route_host r = h) rs)) p"
    by (simp add: router_spec_def load_routes_from_store_def hm_or_insert_map_values
        fold_load_push_entries) (simp add: hm_or_insert_def)
  also have "\<dots> = map_option (\<lambda>r. (route_app_id r, route_strip_prefix r))
       (find (\<lambda>r. route_host r = h \<and> normalise_prefix (route_path_prefix r) = p) rs)"
    by (induction rs) (auto simp: entries_spec_def entry_of_route_def entry_target_def)
  finally show ?thesis .
qed

lemma resolve_spec: "router_wf routes \<Longrightarrow> resolve routes host path = spec_resolve (router_spec routes) host path"
  by (simp add: resolve_def spec_resolve_def resolve_candidates_Cons_spec del: resolve_candidates.simps(2)
      split: option.splits)

section \<open>The interface the control plane uses\<close>

locale routing_table =
  fixes wf :: "'r \<Rightarrow> bool"
    and spec :: "'r \<Rightarrow> route_spec"
    and add :: "'r \<Rightarrow> string \<Rightarrow> string \<Rightarrow> app_id \<Rightarrow> bool \<Rightarrow> 'r"
    and remove :: "'r \<Rightarrow> string \<Rightarrow> string \<Rightarrow> 'r"
    and lookup :: "'r \<Rightarrow> string \<Rightarrow> string \<Rightarrow> resolved_route option"
  assumes wf_add: "wf r \<Longrightarrow> wf (add r h p a s)"
    and wf_remove: "wf r \<Longrightarrow> wf (remove r h p)"
    and spec_add: "spec (add r h p a s) = (spec r)((h, normalise_prefix p) \<mapsto> (a, s))"
    and spec_remove: "spec (remove r h p) = (spec r)((h, p) := None)"
    and lookup_spec: "wf r \<Longrightarrow> lookup r h path = spec_resolve (spec r) h path"
begin

text \<open>An added route serves the paths below its prefix, unless a longer prefix is registered.\<close>

lemma lookup_after_add:
  assumes "wf r" and "prefix (normalise_prefix p) path"
    and "\<And>q. prefix q path \<Longrightarrow> length (normalise_prefix p) < length q \<Longrightarrow> spec r (h, q) = None"
  shows "lookup (add r h p a s) h path =
    Some \<lparr> resolved_app_id = a, resolved_strip_prefix = s,
           resolved_matched_prefix = normalise_prefix p \<rparr>"
proof -
  let ?p = "normalise_prefix p" and ?t = "spec (add r h p a s)"
  from assms(2) have take: "take (length ?p) path = ?p" and len: "length ?p \<le> length path"
    by (auto simp: prefix_def)
  have "?t (h, take k path) = None" if "length ?p < k" "k \<le> length path" for k
  proof -
    have longer: "length ?p < length (take k path)"
      using that by simp
    then have "take k path \<noteq> ?p"
      by (metis less_irrefl)
    with longer show ?thesis
      using assms(3) [OF take_is_prefix] by (simp add: spec_add)
  qed
  then have "spec_match ?t h path (length path) = spec_match ?t h path (length ?p)"
    using len by (intro spec_match_skip) auto
  also have "\<dots> = Some \<lparr> resolved_app_id = a, resolved_strip_prefix = s, resolved_matched_prefix = ?p \<rparr>"
    by (subst spec_match.simps) (simp add: take spec_add)
  finally have "spec_host ?t h path =
      Some \<lparr> resolved_app_id = a, resolved_strip_prefix = s, resolved_matched_prefix = ?p \<rparr>"
    by (simp add: spec_host_def)
  with assms(1) show ?thesis
    by (simp add: lookup_spec wf_add spec_resolve_def)
qed

text \<open>Changes to a host are invisible to requests that neither name it nor reach it through www.\<close>

lemma spec_resolve_frame:
  assumes "\<And>p. t (host, p) = t' (host, p)"
    and "\<And>p. t (trim_start_matches ''www.'' host, p) = t' (trim_start_matches ''www.'' host, p)"
  shows "spec_resolve t host path = spec_resolve t' host path"
proof -
  have "spec_host t host path = spec_host t' host path"
    by (rule spec_host_cong) (rule assms(1))
  moreover have "spec_host t (trim_start_matches ''www.'' host) path =
      spec_host t' (trim_start_matches ''www.'' host) path"
    by (rule spec_host_cong) (rule assms(2))
  ultimately show ?thesis
    by (simp add: spec_resolve_def split: option.split)
qed

lemma lookup_add_frame:
  assumes "wf r" and "host \<noteq> h" and "trim_start_matches ''www.'' host \<noteq> h"
  shows "lookup (add r h p a s) host path = lookup r host path"
  using assms by (simp add: lookup_spec wf_add spec_add) (rule spec_resolve_frame; simp)

lemma lookup_remove_frame:
  assumes "wf r" and "host \<noteq> h" and "trim_start_matches ''www.'' host \<noteq> h"
  shows "lookup (remove r h p) host path = lookup r host path"
  using assms by (simp add: lookup_spec wf_remove spec_remove) (rule spec_resolve_frame; simp)

text \<open>A prefix that is not registered can be removed without any effect on resolution.\<close>

lemma lookup_remove_absent:
  assumes "wf r" and "spec r (h, p) = None"
  shows "lookup (remove r h p) host path = lookup r host path"
proof -
  have "spec (remove r h p) = spec r"
    using assms(2) by (auto simp: spec_remove)
  with assms(1) show ?thesis
    by (simp add: lookup_spec wf_remove)
qed

end

interpretation hr: routing_table router_wf router_spec add_route remove_route resolve
  by unfold_locales
    (simp_all add: router_wf_add_route router_wf_remove_route router_spec_add_route
      router_spec_remove_route resolve_spec)

section \<open>Properties\<close>

text \<open>
  (C1) Longest-prefix resolution: on a router whose entries are sorted, the loop that returns the
  first matching entry returns what the specification returns, the target of the longest
  registered prefix of the path for the host, and, when the host has none, for the host without
  its leading \<open>www.\<close>.
\<close>

theorem resolve_refines_spec:
  assumes "router_wf routes"
  shows "resolve routes host path = spec_resolve (router_spec routes) host path"
  using assms by (rule resolve_spec)

theorem resolve_refines_spec_witness:
  "router_wf (add_route (add_route [] ''a'' ''/v1'' (AppId ''x'') False) ''a'' [] (AppId ''y'') True) \<and>
   resolve (add_route (add_route [] ''a'' ''/v1'' (AppId ''x'') False) ''a'' [] (AppId ''y'') True)
     ''www.a'' ''/v1/u'' =
   spec_resolve (router_spec
     (add_route (add_route [] ''a'' ''/v1'' (AppId ''x'') False) ''a'' [] (AppId ''y'') True))
     ''www.a'' ''/v1/u''"
proof -
  have wf: "router_wf (add_route (add_route [] ''a'' ''/v1'' (AppId ''x'') False) ''a'' [] (AppId ''y'') True)"
    by (intro router_wf_add_route router_wf_empty)
  show ?thesis using wf resolve_refines_spec [OF wf, of "''www.a''" "''/v1/u''"] by simp
qed

text \<open>
  (C12) Every operation that changes the router keeps its entries sorted and acts on the registered
  (host, prefix) pairs as the specification says: \<open>add_route\<close> is an upsert under the normalised
  prefix, \<open>remove_route\<close> removes the literal prefix, \<open>remove_host\<close> removes every prefix of the host,
  and loading a list from storage registers, for each pair, its first route in the list.
\<close>

theorem router_operations_refine:
  assumes "router_wf routes"
  shows "router_wf (add_route routes host p a s) \<and>
     router_spec (add_route routes host p a s) =
       (router_spec routes)((host, normalise_prefix p) \<mapsto> (a, s)) \<and>
     router_wf (remove_route routes host p) \<and>
     router_spec (remove_route routes host p) = (router_spec routes)((host, p) := None) \<and>
     router_wf (remove_host routes host) \<and>
     router_spec (remove_host routes host) =
       (\<lambda>(h, q). if h = host then None else router_spec routes (h, q)) \<and>
     router_wf (load_routes_from_store (Inr rs) routes) \<and>
     router_spec (load_routes_from_store (Inr rs) routes) (h, q) =
       map_option (\<lambda>r. (route_app_id r, route_strip_prefix r))
         (find (\<lambda>r. route_host r = h \<and> normalise_prefix (route_path_prefix r) = q) rs)"
  using assms
  by (simp add: router_wf_add_route router_spec_add_route router_wf_remove_route
      router_spec_remove_route router_wf_remove_host router_spec_remove_host router_wf_load
      router_spec_load)

theorem router_operations_refine_witness:
  "router_wf [] \<and>
   router_spec (add_route [] ''h'' [] (AppId ''x'') True) (''h'', ''/'') = Some (AppId ''x'', True)"
  using router_wf_empty
    router_operations_refine [OF router_wf_empty, of "''h''" "[]" "AppId ''x''" True "[]" "''h''" "''/''"]
  by (metis (no_types, lifting) fun_upd_same normalise_prefix_def)

end
