(* ===== verification/Route_Store.thy ===== *)
theory Route_Store
  imports Router
begin

text \<open>
  Persistence of routes (\<open>crates/storage/src/routes.rs\<close>), the control-plane handlers that change
  them (\<open>crates/node/src/handlers/cluster_runtime.rs\<close>) and the route repointing of a hot swap
  (\<open>crates/supervisor/src/deployment.rs\<close>). The database \<open>redb\<close> and the serialiser \<open>serde_json\<close> are
  parameters of the operations; \<open>redb_contract\<close> and \<open>serde_contract\<close> state the documented
  behaviour the code relies on: a transaction acts on the key-value view of its table and a
  serialised value reads back.
\<close>

section \<open>Parameters\<close>

record 't redb =
  rd_begin_write :: "'t \<Rightarrow> (string, 't) result"
  rd_begin_read :: "'t \<Rightarrow> (string, 't) result"
  rd_open_table :: "'t \<Rightarrow> (string, 't) result"
  rd_insert :: "string \<Rightarrow> string \<Rightarrow> 't \<Rightarrow> (string, 't) result"
  rd_remove :: "string \<Rightarrow> 't \<Rightarrow> (string, 't) result"
  rd_get :: "string \<Rightarrow> 't \<Rightarrow> (string, string option) result"
  rd_entries :: "'t \<Rightarrow> (string, (string, string \<times> string) result list) result"
  rd_commit :: "'t \<Rightarrow> (string, 't) result"

record 'a serde =
  sd_to_string :: "'a \<Rightarrow> (string, string) result"
  sd_from_str :: "string \<Rightarrow> (string, 'a) result"

definition redb_contract :: "'t redb \<Rightarrow> ('t \<Rightarrow> string \<Rightarrow> string option) \<Rightarrow> bool" where
  "redb_contract db view \<longleftrightarrow>
     (\<forall>t t'. rd_begin_write db t = Inr t' \<longrightarrow> view t' = view t) \<and>
     (\<forall>t t'. rd_begin_read db t = Inr t' \<longrightarrow> view t' = view t) \<and>
     (\<forall>t t'. rd_open_table db t = Inr t' \<longrightarrow> view t' = view t) \<and>
     (\<forall>k v t t'. rd_insert db k v t = Inr t' \<longrightarrow> view t' = (view t)(k \<mapsto> v)) \<and>
     (\<forall>k t t'. rd_remove db k t = Inr t' \<longrightarrow> view t' = (view t)(k := None)) \<and>
     (\<forall>k t r. rd_get db k t = Inr r \<longrightarrow> r = view t k) \<and>
     (\<forall>t es. rd_entries db t = Inr es \<longrightarrow>
        (\<exists>kvs. map_of kvs = view t \<and> distinct (map fst kvs) \<and>
               list_all2 (\<lambda>e kv. case e of Inl _ \<Rightarrow> True | Inr x \<Rightarrow> x = kv) es kvs)) \<and>
     (\<forall>t t'. rd_commit db t = Inr t' \<longrightarrow> view t' = view t)"

text \<open>
  An iteration yields one result per entry. A loop that propagates the error of an entry needs them
  all (\<open>rd_iter\<close>); one that skips it with a warning goes on with the readable ones.
\<close>

definition rd_iter :: "'t redb \<Rightarrow> 't \<Rightarrow> (string, (string \<times> string) list) result" where
  "rd_iter db t = try_then (rd_entries db t) collect_results"

definition rd_readable :: "'t redb \<Rightarrow> 't \<Rightarrow> (string, (string \<times> string) list) result" where
  "rd_readable db t =
     try_then (rd_entries db t) (\<lambda>es. Ok (List.map_filter (case_sum (\<lambda>_. None) Some) es))"

lemma redb_iter:
  assumes "redb_contract db view" and "rd_iter db t = Inr kvs"
  shows "map_of kvs = view t" and "distinct (map fst kvs)"
proof -
  have "rd_entries db t = Inr (map Inr kvs)"
    using assms(2) by (auto simp: rd_iter_def try_then_Ok_iff collect_results_Ok_iff)
  then obtain kvs' where "map_of kvs' = view t" "distinct (map fst kvs')"
      "list_all2 (\<lambda>e kv. case e of Inl _ \<Rightarrow> True | Inr x \<Rightarrow> x = kv) (map Inr kvs :: (string, string \<times> string) result list) kvs'"
    using assms(1) unfolding redb_contract_def by metis
  moreover from this(3) have "kvs = kvs'"
    by (simp add: list_all2_map1 list.rel_eq)
  ultimately show "map_of kvs = view t" "distinct (map fst kvs)" by auto
qed

lemma readable_subseq:
  assumes "list_all2 (\<lambda>e kv. case e of Inl _ \<Rightarrow> True | Inr x \<Rightarrow> x = kv) es kvs"
  shows "subseq (List.map_filter (case_sum (\<lambda>_. None) Some) es) kvs"
  using assms by (induction rule: list_all2_induct) (auto split: sum.splits)

lemma redb_readable:
  assumes "redb_contract db view" and "rd_readable db t = Inr kvs"
  shows "map_of kvs \<subseteq>\<^sub>m view t" and "distinct (map fst kvs)"
proof -
  obtain es where ent: "rd_entries db t = Inr es" "kvs = List.map_filter (case_sum (\<lambda>_. None) Some) es"
    using assms(2) by (auto simp: rd_readable_def try_then_Ok_iff)
  obtain kvs' where es: "list_all2 (\<lambda>e kv. case e of Inl _ \<Rightarrow> True | Inr x \<Rightarrow> x = kv) es kvs'"
      "map_of kvs' = view t" "distinct (map fst kvs')"
    using assms(1) ent(1) unfolding redb_contract_def by metis
  from readable_subseq [OF es(1)] have sub: "subseq kvs kvs'"
    by (simp add: ent(2))
  then have d: "distinct (map fst kvs)"
    using es(3) subseq_map [of kvs kvs' fst] by (metis distinct_nthsI subseq_conv_nths)
  moreover have "set kvs \<subseteq> set kvs'"
    using sub by (metis subseq_conv_nths set_nths_subset)
  ultimately show "map_of kvs \<subseteq>\<^sub>m view t" "distinct (map fst kvs)"
    using es(2,3) by (auto simp: map_le_def dom_map_of_conv_image_fst) (metis map_of_eq_Some_iff subsetD)
qed

lemma rd_iter_readable: "rd_iter db t = Inr kvs \<Longrightarrow> rd_readable db t = Inr kvs"
  by (auto simp: rd_iter_def rd_readable_def try_then_Ok_iff collect_results_Ok_iff)
    (simp add: List.map_filter_def comp_def)

text \<open>A database on which no operation fails.\<close>

definition redb_total :: "'t redb \<Rightarrow> bool" where
  "redb_total db \<longleftrightarrow>
     (\<forall>t. \<exists>t'. rd_begin_write db t = Inr t') \<and> (\<forall>t. \<exists>t'. rd_begin_read db t = Inr t') \<and>
     (\<forall>t. \<exists>t'. rd_open_table db t = Inr t') \<and> (\<forall>k v t. \<exists>t'. rd_insert db k v t = Inr t') \<and>
     (\<forall>k t. \<exists>t'. rd_remove db k t = Inr t') \<and> (\<forall>k t. \<exists>r. rd_get db k t = Inr r) \<and>
     (\<forall>t. \<exists>kvs. rd_iter db t = Inr kvs) \<and> (\<forall>t. \<exists>t'. rd_commit db t = Inr t')"

definition serde_contract :: "'a serde \<Rightarrow> bool" where
  "serde_contract js \<longleftrightarrow> (\<forall>x s. sd_to_string js x = Inr s \<longrightarrow> sd_from_str js s = Inr x)"

section \<open>The routes table\<close>

text \<open>
  \<open>PlatformError::storage_source\<close> wraps the message. A write operation returns the committed table;
  on an error the transaction is dropped and the table stays as it was.
\<close>

datatype storage_error = Storage string

fun storage_source :: "(string, 'a) result \<Rightarrow> (storage_error, 'a) result" where
  "storage_source (Inl e) = Inl (Storage e)"
| "storage_source (Inr x) = Inr x"

definition save_route :: "'t redb \<Rightarrow> route serde \<Rightarrow> route \<Rightarrow> 't \<Rightarrow> (storage_error, 't) result" where
  "save_route db js r t =
     try_then (storage_source (sd_to_string js r)) (\<lambda>json.
     try_then (storage_source (rd_begin_write db t)) (\<lambda>tx.
     try_then (storage_source (rd_open_table db tx)) (\<lambda>table.
     try_then (storage_source (rd_insert db (route_host r) json table)) (\<lambda>tx'.
     storage_source (rd_commit db tx')))))"

definition delete_route :: "'t redb \<Rightarrow> string \<Rightarrow> 't \<Rightarrow> (storage_error, 't) result" where
  "delete_route db host t =
     try_then (storage_source (rd_begin_write db t)) (\<lambda>tx.
     try_then (storage_source (rd_open_table db tx)) (\<lambda>table.
     try_then (storage_source (rd_remove db host table)) (\<lambda>tx'.
     storage_source (rd_commit db tx'))))"

fun parse_entries :: "route serde \<Rightarrow> (string \<times> string) list \<Rightarrow> (storage_error, route list) result" where
  "parse_entries js [] = Inr []"
| "parse_entries js ((k, v) # kvs) =
     try_then (storage_source (sd_from_str js v)) (\<lambda>r.
     try_then (parse_entries js kvs) (\<lambda>rs. Inr (r # rs)))"

definition store_list_routes :: "'t redb \<Rightarrow> route serde \<Rightarrow> 't \<Rightarrow> (storage_error, route list) result" where
  "store_list_routes db js t =
     try_then (storage_source (rd_begin_read db t)) (\<lambda>tx.
     try_then (storage_source (rd_open_table db tx)) (\<lambda>table.
     try_then (storage_source (rd_iter db table)) (\<lambda>kvs. parse_entries js kvs)))"

definition load_route :: "'t redb \<Rightarrow> route serde \<Rightarrow> string \<Rightarrow> 't \<Rightarrow> (storage_error, route option) result" where
  "load_route db js host t =
     try_then (storage_source (rd_begin_read db t)) (\<lambda>tx.
     try_then (storage_source (rd_open_table db tx)) (\<lambda>table.
     try_then (storage_source (rd_get db host table)) (\<lambda>found.
       case found of
         None \<Rightarrow> Inr None
       | Some v \<Rightarrow> try_then (storage_source (sd_from_str js v)) (\<lambda>r. Inr (Some r)))))"

text \<open>The result is the new table and whether the route was written.\<close>

definition save_route_if_newer ::
  "'t redb \<Rightarrow> route serde \<Rightarrow> route \<Rightarrow> 't \<Rightarrow> (storage_error, 't \<times> bool) result" where
  "save_route_if_newer db js r t =
     try_then (load_route db js (route_host r) t) (\<lambda>existing.
       let write = try_then (save_route db js r t) (\<lambda>t'. Inr (t', True))
       in case existing of
            Some e \<Rightarrow> if route_updated_at r \<le> route_updated_at e then Inr (t, False) else write
          | None \<Rightarrow> write)"

section \<open>Control-plane handlers\<close>

text \<open>
  The state a handler changes: the router, the routes table and the DNS webhook calls made
  (\<open>notify_route_change\<close> with its action, host and app id). \<open>webhook\<close> says whether a webhook is
  configured. A failed handler returns the error with the state it has reached.
\<close>

record 't cluster =
  cl_router :: host_router
  cl_table :: 't
  cl_notified :: "(string \<times> string \<times> string) list"

definition notify_route_change ::
  "bool \<Rightarrow> string \<Rightarrow> string \<Rightarrow> string \<Rightarrow> 't cluster \<Rightarrow> 't cluster" where
  "notify_route_change webhook act host app c =
     (if webhook then c\<lparr> cl_notified := cl_notified c @ [(act, host, app)] \<rparr> else c)"

definition handle_route_add ::
  "'t redb \<Rightarrow> route serde \<Rightarrow> bool \<Rightarrow> route \<Rightarrow> 't cluster \<Rightarrow>
     (storage_error, unit) result \<times> 't cluster" where
  "handle_route_add db js webhook r c =
     (case save_route db js r (cl_table c) of
        Inl e \<Rightarrow> (Inl e, c)
      | Inr t \<Rightarrow>
          (let c1 = c\<lparr> cl_table := t,
                       cl_router := add_route (cl_router c) (route_host r) (route_path_prefix r)
                                      (route_app_id r) (route_strip_prefix r) \<rparr>
           in (Inr (), notify_route_change webhook ''add'' (route_host r)
                         (app_id_as_str (route_app_id r)) c1)))"

definition handle_route_remove ::
  "'t redb \<Rightarrow> route serde \<Rightarrow> bool \<Rightarrow> string \<Rightarrow> 't cluster \<Rightarrow>
     (storage_error, unit) result \<times> 't cluster" where
  "handle_route_remove db js webhook host c =
     (let existing = (case load_route db js host (cl_table c) of Inl _ \<Rightarrow> None | Inr o' \<Rightarrow> o');
          path_prefix = (case existing of None \<Rightarrow> [] | Some r \<Rightarrow> route_path_prefix r)
      in case delete_route db host (cl_table c) of
           Inl e \<Rightarrow> (Inl e, c)
         | Inr t \<Rightarrow>
             (let c1 = c\<lparr> cl_table := t, cl_router := remove_route (cl_router c) host path_prefix \<rparr>
              in (Inr (), case existing of
                    None \<Rightarrow> c1
                  | Some r \<Rightarrow> notify_route_change webhook ''remove'' host
                                (app_id_as_str (route_app_id r)) c1)))"

text \<open>Node start: \<open>main.rs\<close> fills an empty router from the store.\<close>

definition restart_router :: "'t redb \<Rightarrow> route serde \<Rightarrow> 't \<Rightarrow> host_router" where
  "restart_router db js t = load_routes_from_store (store_list_routes db js t) []"

section \<open>Route repointing of a hot swap\<close>

text \<open>One iteration of the loop of \<open>update_routes_for_swap\<close>; a failed save is logged and skipped.\<close>

definition swap_route ::
  "'t redb \<Rightarrow> route serde \<Rightarrow> app_id \<Rightarrow> u64 \<Rightarrow> route \<Rightarrow> 't cluster \<Rightarrow> 't cluster" where
  "swap_route db js new now r c =
     (let router' = add_route (cl_router c) (route_host r) (route_path_prefix r) new (route_strip_prefix r);
          updated = \<lparr> route_host = route_host r, route_app_id = new,
                      route_path_prefix = route_path_prefix r,
                      route_strip_prefix = route_strip_prefix r,
                      route_created_at = route_created_at r, route_updated_at = now \<rparr>
      in case save_route db js updated (cl_table c) of
           Inl _ \<Rightarrow> c\<lparr> cl_router := router' \<rparr>
         | Inr t \<Rightarrow> c\<lparr> cl_router := router', cl_table := t \<rparr>)"

definition update_routes_for_swap ::
  "'t redb \<Rightarrow> route serde \<Rightarrow> app_id \<Rightarrow> app_id \<Rightarrow> u64 \<Rightarrow> 't cluster \<Rightarrow> 't cluster" where
  "update_routes_for_swap db js old new now c =
     (case store_list_routes db js (cl_table c) of
        Inl _ \<Rightarrow> c
      | Inr routes \<Rightarrow>
          (let matching = filter (\<lambda>r. route_app_id r = old) routes
           in if matching = [] then c else fold (swap_route db js new now) matching c))"

section \<open>What the table operations do to the view\<close>

text \<open>The routes a table holds, by host, as the serialiser reads them.\<close>

definition stored :: "route serde \<Rightarrow> ('t \<Rightarrow> string \<Rightarrow> string option) \<Rightarrow> 't \<Rightarrow> string \<Rightarrow> route option" where
  "stored js view t host =
     (case view t host of None \<Rightarrow> None
      | Some v \<Rightarrow> (case sd_from_str js v of Inl _ \<Rightarrow> None | Inr r \<Rightarrow> Some r))"

lemma storage_source_Ok_iff [simp]: "storage_source x = Inr y \<longleftrightarrow> x = Inr y"
  by (cases x) auto

lemma save_route_view:
  assumes "redb_contract db view" and "save_route db js r t = Inr t'"
  obtains json where "sd_to_string js r = Inr json" and "view t' = (view t)(route_host r \<mapsto> json)"
proof -
  from assms(2) obtain json tx table tx' where
    "sd_to_string js r = Inr json" "rd_begin_write db t = Inr tx" "rd_open_table db tx = Inr table"
    "rd_insert db (route_host r) json table = Inr tx'" "rd_commit db tx' = Inr t'"
    by (auto simp: save_route_def try_then_Ok_iff)
  moreover from this assms(1) have "view t' = (view t)(route_host r \<mapsto> json)"
    unfolding redb_contract_def by metis
  ultimately show ?thesis
    using that by blast
qed

lemma save_route_stored:
  assumes "redb_contract db view" and "serde_contract js" and "save_route db js r t = Inr t'"
  shows "stored js view t' = (stored js view t)(route_host r \<mapsto> r)"
proof -
  obtain json where "sd_to_string js r = Inr json" and "view t' = (view t)(route_host r \<mapsto> json)"
    using assms(1,3) by (rule save_route_view)
  with assms(2) show ?thesis
    by (auto simp: stored_def serde_contract_def)
qed

lemma delete_route_stored:
  assumes "redb_contract db view" and "delete_route db host t = Inr t'"
  shows "stored js view t' = (stored js view t)(host := None)"
proof -
  from assms(2) obtain tx table tx' where
    "rd_begin_write db t = Inr tx" "rd_open_table db tx = Inr table"
    "rd_remove db host table = Inr tx'" "rd_commit db tx' = Inr t'"
    by (auto simp: delete_route_def try_then_Ok_iff)
  with assms(1) have "view t' = (view t)(host := None)"
    unfolding redb_contract_def by metis
  then show ?thesis
    by (auto simp: stored_def)
qed

lemma load_route_stored:
  assumes "redb_contract db view" and "load_route db js host t = Inr r"
  shows "r = stored js view t host"
proof -
  from assms(2) obtain tx table found where
    steps: "rd_begin_read db t = Inr tx" "rd_open_table db tx = Inr table"
      "rd_get db host table = Inr found"
    and last: "(case found of None \<Rightarrow> Inr None
       | Some v \<Rightarrow> try_then (storage_source (sd_from_str js v)) (\<lambda>r. Inr (Some r))) = Inr r"
    by (auto simp: load_route_def try_then_Ok_iff)
  from steps assms(1) have "found = view t host"
    unfolding redb_contract_def by metis
  with last show ?thesis
    by (auto simp: stored_def try_then_Ok_iff split: option.splits sum.splits)
qed

lemma parse_entries_find:
  assumes "parse_entries js kvs = Inr rs" and "distinct (map fst kvs)"
    and "\<And>k v r. (k, v) \<in> set kvs \<Longrightarrow> sd_from_str js v = Inr r \<Longrightarrow> route_host r = k"
  shows "find (\<lambda>r. route_host r = h) rs =
     (case map_of kvs h of None \<Rightarrow> None
      | Some v \<Rightarrow> (case sd_from_str js v of Inl _ \<Rightarrow> None | Inr r \<Rightarrow> Some r))"
  using assms
proof (induction kvs arbitrary: rs)
  case Nil
  then show ?case by simp
next
  case (Cons kv kvs)
  obtain k v where kv: "kv = (k, v)" by force
  from Cons.prems(1) kv obtain r rs' where
    r: "sd_from_str js v = Inr r" and rs': "parse_entries js kvs = Inr rs'" and rs: "rs = r # rs'"
    by (auto simp: try_then_Ok_iff)
  from Cons.prems(3) [of k v r] kv r have "route_host r = k"
    by simp
  moreover from Cons.prems rs' have "find (\<lambda>r. route_host r = h) rs' =
     (case map_of kvs h of None \<Rightarrow> None
      | Some v \<Rightarrow> (case sd_from_str js v of Inl _ \<Rightarrow> None | Inr r \<Rightarrow> Some r))"
    by (intro Cons.IH) auto
  ultimately show ?case
    using kv r rs by auto
qed

text \<open>Every stored route is filed under its host.\<close>

definition table_ok :: "route serde \<Rightarrow> ('t \<Rightarrow> string \<Rightarrow> string option) \<Rightarrow> 't \<Rightarrow> bool" where
  "table_ok js view t \<longleftrightarrow> (\<forall>h r. stored js view t h = Some r \<longrightarrow> route_host r = h)"

lemma table_ok_save_route:
  assumes "redb_contract db view" "serde_contract js" "save_route db js r t = Inr t'" "table_ok js view t"
  shows "table_ok js view t'"
  using assms(4) by (auto simp: table_ok_def save_route_stored [OF assms(1-3)])

lemma table_ok_delete_route:
  assumes "redb_contract db view" "delete_route db host t = Inr t'" "table_ok js view t"
  shows "table_ok js view t'"
  using assms(3) by (auto simp: table_ok_def delete_route_stored [OF assms(1,2)])

lemma store_list_routes_find:
  assumes "redb_contract db view" "table_ok js view t" "store_list_routes db js t = Inr rs"
  shows "find (\<lambda>r. route_host r = h) rs = stored js view t h"
    and "distinct (map route_host rs)"
proof -
  from assms(3) obtain tx table kvs where
    steps: "rd_begin_read db t = Inr tx" "rd_open_table db tx = Inr table" "rd_iter db table = Inr kvs"
    and parse: "parse_entries js kvs = Inr rs"
    by (auto simp: store_list_routes_def try_then_Ok_iff)
  from steps(1,2) assms(1) have "view table = view t"
    unfolding redb_contract_def by metis
  with redb_iter [OF assms(1) steps(3)] have kvs: "map_of kvs = view t" and dist: "distinct (map fst kvs)"
    by simp_all
  have host: "route_host r = k" if "(k, v) \<in> set kvs" "sd_from_str js v = Inr r" for k v r
  proof -
    have "view t k = Some v"
      using that(1) dist by (simp flip: kvs)
    with that(2) assms(2) show ?thesis
      by (simp add: table_ok_def stored_def)
  qed
  show "find (\<lambda>r. route_host r = h) rs = stored js view t h"
    using parse_entries_find [OF parse dist host] by (simp add: stored_def flip: kvs)
  have "map route_host rs = map fst kvs"
    using parse host
  proof (induction kvs arbitrary: rs)
    case (Cons kv kvs)
    obtain k v where kv: "kv = (k, v)" by force
    from Cons.prems(1) kv obtain r rs' where
      "sd_from_str js v = Inr r" "parse_entries js kvs = Inr rs'" "rs = r # rs'"
      by (auto simp: try_then_Ok_iff)
    moreover from this have "map route_host rs' = map fst kvs"
      using Cons.prems(2) by (intro Cons.IH) auto
    ultimately show ?case
      using kv Cons.prems(2) [of k v r] by simp
  qed simp
  with dist show "distinct (map route_host rs)"
    by simp
qed

lemma find_by_key:
  assumes "distinct (map f xs)"
  shows "find (\<lambda>x. f x = k) xs = Some x \<longleftrightarrow> x \<in> set xs \<and> f x = k"
  using assms by (induction xs) (auto simp: image_iff)

lemma find_over_filter: "find P (filter Q xs) = find (\<lambda>x. P x \<and> Q x) xs"
  by (induction xs) auto

lemma find_key_absent:
  assumes "k \<notin> f ` set xs"
  shows "find (\<lambda>x. f x = k) xs = None" and "find (\<lambda>x. f x = k \<and> P x) xs = None"
  using assms by (auto simp: find_None_iff)

lemma find_by_key_and:
  assumes "distinct (map f xs)"
  shows "find (\<lambda>x. f x = k \<and> P x) xs =
    (case find (\<lambda>x. f x = k) xs of None \<Rightarrow> None | Some x \<Rightarrow> if P x then Some x else None)"
  using assms
proof (induction xs)
  case (Cons x xs)
  then show ?case
    by (cases "f x = k") (auto simp: find_key_absent)
qed simp

lemma store_list_routes_set:
  assumes "redb_contract db view" "table_ok js view t" "store_list_routes db js t = Inr rs"
  shows "r \<in> set rs \<longleftrightarrow> stored js view t (route_host r) = Some r"
  using find_by_key [OF store_list_routes_find(2) [OF assms], of "route_host r" r]
  by (simp add: store_list_routes_find(1) [OF assms])

text \<open>What the router knows after a restart: one route per host.\<close>

lemma restart_router_spec:
  assumes "redb_contract db view" "table_ok js view t" "store_list_routes db js t = Inr rs"
  shows "router_spec (restart_router db js t) (h, p) =
    (case stored js view t h of
       None \<Rightarrow> None
     | Some r \<Rightarrow> if normalise_prefix (route_path_prefix r) = p
                 then Some (route_app_id r, route_strip_prefix r) else None)"
  by (simp add: restart_router_def assms(3) router_spec_load
      find_by_key_and [OF store_list_routes_find(2) [OF assms]] store_list_routes_find(1) [OF assms]
      split: option.splits)

section \<open>What the handlers do\<close>

lemma notify_route_change_frame [simp]:
  "cl_router (notify_route_change w a h x c) = cl_router c"
  "cl_table (notify_route_change w a h x c) = cl_table c"
  by (simp_all add: notify_route_change_def)

lemma handle_route_add_Ok:
  assumes "handle_route_add db js w r c = (Inr (), c')"
  shows "save_route db js r (cl_table c) = Inr (cl_table c')"
    and "cl_router c' = add_route (cl_router c) (route_host r) (route_path_prefix r)
           (route_app_id r) (route_strip_prefix r)"
  using assms by (auto simp: handle_route_add_def Let_def split: sum.splits)

lemma handle_route_remove_Ok:
  assumes "handle_route_remove db js w host c = (Inr (), c')"
  shows "delete_route db host (cl_table c) = Inr (cl_table c')"
    and "cl_router c' = remove_route (cl_router c) host
           (case load_route db js host (cl_table c) of Inr (Some r) \<Rightarrow> route_path_prefix r | _ \<Rightarrow> [])"
  using assms by (auto simp: handle_route_remove_def Let_def split: sum.splits option.splits)

lemma swap_route_router:
  "cl_router (swap_route db js new now r c) =
     add_route (cl_router c) (route_host r) (route_path_prefix r) new (route_strip_prefix r)"
  by (simp add: swap_route_def Let_def split: sum.splits)

lemma fold_swap_route_router_spec:
  assumes "distinct (map route_host rs)"
  shows "router_spec (cl_router (fold (swap_route db js new now) rs c)) (h, p) =
    (case find (\<lambda>r. route_host r = h) rs of
       None \<Rightarrow> router_spec (cl_router c) (h, p)
     | Some r \<Rightarrow> if normalise_prefix (route_path_prefix r) = p then Some (new, route_strip_prefix r)
                 else router_spec (cl_router c) (h, p))"
  using assms
proof (induction rs arbitrary: c)
  case (Cons r rs)
  show ?case
  proof (cases "route_host r = h")
    case True
    with Cons.prems have "h \<notin> route_host ` set rs"
      by auto
    with True Cons show ?thesis
      by (simp add: find_key_absent swap_route_router router_spec_add_route)
  next
    case False
    with Cons show ?thesis
      by (simp add: swap_route_router router_spec_add_route split: option.splits)
  qed
qed simp

lemma update_routes_for_swap_spec:
  assumes "redb_contract db view" "table_ok js view (cl_table c)"
    "store_list_routes db js (cl_table c) = Inr rs"
  shows "router_spec (cl_router (update_routes_for_swap db js old new now c)) (h, p) =
    (case stored js view (cl_table c) h of
       Some r \<Rightarrow> if route_app_id r = old \<and> normalise_prefix (route_path_prefix r) = p
                 then Some (new, route_strip_prefix r) else router_spec (cl_router c) (h, p)
     | None \<Rightarrow> router_spec (cl_router c) (h, p))"
proof -
  let ?m = "filter (\<lambda>r. route_app_id r = old) rs"
  note dist = store_list_routes_find(2) [OF assms]
  have find_m: "find (\<lambda>r. route_host r = h) ?m =
      (case stored js view (cl_table c) h of None \<Rightarrow> None
       | Some r \<Rightarrow> if route_app_id r = old then Some r else None)"
    by (simp add: find_over_filter find_by_key_and [OF dist] store_list_routes_find(1) [OF assms])
  have dist_m: "distinct (map route_host ?m)"
    using dist by (rule distinct_map_filter)
  have "router_spec (cl_router (fold (swap_route db js new now) ?m c)) (h, p) =
    (case stored js view (cl_table c) h of
       Some r \<Rightarrow> if route_app_id r = old \<and> normalise_prefix (route_path_prefix r) = p
                 then Some (new, route_strip_prefix r) else router_spec (cl_router c) (h, p)
     | None \<Rightarrow> router_spec (cl_router c) (h, p))"
    by (simp add: fold_swap_route_router_spec [OF dist_m] find_m split: option.splits)
  moreover have "update_routes_for_swap db js old new now c = fold (swap_route db js new now) ?m c"
    by (simp add: update_routes_for_swap_def assms(3) Let_def)
  ultimately show ?thesis
    by simp
qed

lemma save_route_if_newer_cases:
  assumes "redb_contract db view" "serde_contract js" "save_route_if_newer db js r t = Inr (t', wrote)"
  shows "wrote = (case stored js view t (route_host r) of
           None \<Rightarrow> True | Some e \<Rightarrow> route_updated_at e < route_updated_at r)"
    and "stored js view t' = (if wrote then (stored js view t)(route_host r \<mapsto> r) else stored js view t)"
proof -
  from assms(3) obtain existing where load: "load_route db js (route_host r) t = Inr existing"
    by (auto simp: save_route_if_newer_def try_then_Ok_iff)
  have existing: "existing = stored js view t (route_host r)"
    using assms(1) load by (rule load_route_stored)
  have save: "stored js view u = (stored js view t)(route_host r \<mapsto> r)"
    if "save_route db js r t = Inr u" for u
    using assms(1,2) that by (rule save_route_stored)
  show "wrote = (case stored js view t (route_host r) of
           None \<Rightarrow> True | Some e \<Rightarrow> route_updated_at e < route_updated_at r)"
    using assms(3) load existing
    by (auto simp: save_route_if_newer_def Let_def try_then_Ok_iff split: option.splits if_splits)
  show "stored js view t' = (if wrote then (stored js view t)(route_host r \<mapsto> r) else stored js view t)"
    using assms(3) load save
    by (auto simp: save_route_if_newer_def Let_def try_then_Ok_iff split: option.splits if_splits)
qed

section \<open>A database and a serialiser that meet the contracts\<close>

definition mem_redb :: "(string, string) hmap redb" where
  "mem_redb = \<lparr> rd_begin_write = Inr, rd_begin_read = Inr, rd_open_table = Inr,
     rd_insert = (\<lambda>k v t. Inr (hm_insert k v t)), rd_remove = (\<lambda>k t. Inr (hm_remove k t)),
     rd_get = (\<lambda>k t. Inr (hm_get t k)),
     rd_entries = (\<lambda>t. Inr (map Inr (AList.clearjunk t))), rd_commit = Inr \<rparr>"

definition list_serde :: "'a list \<Rightarrow> 'a serde" where
  "list_serde xs = \<lparr>
     sd_to_string = (\<lambda>x. case find (\<lambda>i. xs ! i = x) [0..<length xs] of
        None \<Rightarrow> Inl ''unsupported value'' | Some i \<Rightarrow> Inr (replicate i (CHR ''#''))),
     sd_from_str = (\<lambda>s. if length s < length xs then Inr (xs ! length s) else Inl ''bad value'') \<rparr>"

lemma mem_redb_total: "redb_total mem_redb"
  by (auto simp: redb_total_def rd_iter_def mem_redb_def collect_results_Ok_iff)

lemma mem_redb_contract: "redb_contract mem_redb hm_get"
  unfolding redb_contract_def mem_redb_def
  by (auto simp: hm_get_def fun_eq_iff list_all2_map1 list.rel_eq map_of_clearjunk distinct_clearjunk)
    (auto simp: hm_insert_def hm_remove_def update_conv' delete_conv')

lemma list_serde_contract: "serde_contract (list_serde xs)"
  unfolding serde_contract_def list_serde_def
  by (auto simp: find_Some_iff split: option.splits)

lemmas mem_eval = handle_route_add_def handle_route_remove_def save_route_def delete_route_def
  load_route_def store_list_routes_def mem_redb_def list_serde_def notify_route_change_def
  rd_iter_def hm_insert_def hm_remove_def hm_get_def hm_wf_def Let_def

section \<open>Properties\<close>

text \<open>
  (C29) A route that the control plane has accepted survives a restart: after a successful
  \<open>handle_route_add\<close>, a router filled from the store resolves the route's host and prefix to
  its app; the stored routes of other hosts are untouched.
\<close>

theorem route_survives_restart:
  assumes "redb_contract db view" "serde_contract js" "table_ok js view (cl_table c)"
    and "handle_route_add db js w r c = (Inr (), c')"
    and "store_list_routes db js (cl_table c') = Inr rs"
  shows "router_spec (restart_router db js (cl_table c'))
           (route_host r, normalise_prefix (route_path_prefix r)) =
           Some (route_app_id r, route_strip_prefix r) \<and>
         table_ok js view (cl_table c') \<and>
         (\<forall>h. h \<noteq> route_host r \<longrightarrow> stored js view (cl_table c') h = stored js view (cl_table c) h)"
proof -
  note save = handle_route_add_Ok(1) [OF assms(4)]
  note stored' = save_route_stored [OF assms(1,2) save]
  have ok: "table_ok js view (cl_table c')"
    using assms(1,2) save assms(3) by (rule table_ok_save_route)
  with restart_router_spec [OF assms(1) ok assms(5)] stored' show ?thesis
    by simp
qed

definition w_route1 :: route where
  "w_route1 = \<lparr> route_host = ''h'', route_app_id = AppId ''a'', route_path_prefix = ''/v1'',
     route_strip_prefix = False, route_created_at = 1, route_updated_at = 1 \<rparr>"

definition w_route2 :: route where
  "w_route2 = \<lparr> route_host = ''h'', route_app_id = AppId ''b'', route_path_prefix = ''/v2'',
     route_strip_prefix = True, route_created_at = 2, route_updated_at = 2 \<rparr>"

definition w_route0 :: route where
  "w_route0 = \<lparr> route_host = ''h'', route_app_id = AppId ''c'', route_path_prefix = [],
     route_strip_prefix = False, route_created_at = 3, route_updated_at = 3 \<rparr>"

definition w_serde :: "route serde" where
  "w_serde = list_serde [w_route0, w_route1, w_route2]"

definition w_empty :: "(string, string) hmap cluster" where
  "w_empty = \<lparr> cl_router = [], cl_table = [], cl_notified = [] \<rparr>"

definition w_one :: "route \<Rightarrow> string \<Rightarrow> (string, string) hmap cluster" where
  "w_one r json = \<lparr> cl_router = add_route [] (route_host r) (route_path_prefix r) (route_app_id r)
     (route_strip_prefix r), cl_table = [(route_host r, json)], cl_notified = [] \<rparr>"

lemma w_table_ok_empty: "table_ok w_serde hm_get (cl_table w_empty)"
  by (simp add: table_ok_def stored_def w_empty_def)

lemma w_add: 
  "handle_route_add mem_redb w_serde False w_route0 w_empty = (Inr (), w_one w_route0 [])"
  "handle_route_add mem_redb w_serde False w_route1 w_empty = (Inr (), w_one w_route1 ''#'')"
  by (simp_all add: mem_eval w_serde_def w_route0_def w_route1_def w_route2_def w_empty_def w_one_def
      upt_rec)

theorem route_survives_restart_witness:
  "router_spec (restart_router mem_redb w_serde (cl_table (w_one w_route1 ''#''))) (''h'', ''/v1'') =
     Some (AppId ''a'', False)"
proof -
  have "store_list_routes mem_redb w_serde (cl_table (w_one w_route1 ''#'')) = Inr [w_route1]"
    by (simp add: mem_eval w_serde_def w_one_def)
  from route_survives_restart [OF mem_redb_contract list_serde_contract [of "[w_route0, w_route1, w_route2]",
      folded w_serde_def] w_table_ok_empty w_add(2) this]
  show ?thesis
    by (simp add: w_route1_def normalise_prefix_def)
qed

text \<open>
  The routes table is keyed by the host alone, so it holds one route per host while the router
  holds one per (host, prefix): after two accepted routes of one host with different prefixes the
  router serves both, and a router filled from the store after a restart has lost the first.
\<close>

theorem restart_loses_shadowed_prefix:
  assumes "redb_contract db view" "serde_contract js" "table_ok js view (cl_table c)"
    and "handle_route_add db js w r1 c = (Inr (), c1)"
    and "handle_route_add db js w r2 c1 = (Inr (), c2)"
    and "route_host r1 = route_host r2"
    and "normalise_prefix (route_path_prefix r1) \<noteq> normalise_prefix (route_path_prefix r2)"
    and "store_list_routes db js (cl_table c2) = Inr rs"
  shows "router_spec (cl_router c2) (route_host r1, normalise_prefix (route_path_prefix r1)) =
           Some (route_app_id r1, route_strip_prefix r1) \<and>
         router_spec (restart_router db js (cl_table c2))
           (route_host r1, normalise_prefix (route_path_prefix r1)) = None"
proof -
  note save1 = handle_route_add_Ok(1) [OF assms(4)] and save2 = handle_route_add_Ok(1) [OF assms(5)]
  have ok: "table_ok js view (cl_table c2)"
    by (rule table_ok_save_route [OF assms(1,2) save2 table_ok_save_route [OF assms(1,2) save1 assms(3)]])
  have "stored js view (cl_table c2) (route_host r1) = Some r2"
    by (simp add: save_route_stored [OF assms(1,2) save2] assms(6))
  with restart_router_spec [OF assms(1) ok assms(8)] assms(6,7) show ?thesis
    by (auto simp: handle_route_add_Ok(2) [OF assms(4)] handle_route_add_Ok(2) [OF assms(5)]
        router_spec_add_route)
qed

definition w_two :: "(string, string) hmap cluster" where
  "w_two = \<lparr> cl_router = add_route (cl_router (w_one w_route1 ''#'')) ''h'' ''/v2'' (AppId ''b'') True,
     cl_table = [(''h'', ''##'')], cl_notified = [] \<rparr>"

lemma w_add_second:
  "handle_route_add mem_redb w_serde False w_route2 (w_one w_route1 ''#'') = (Inr (), w_two)"
  by (simp add: mem_eval w_serde_def w_route0_def w_route1_def w_route2_def w_two_def w_one_def upt_rec)

lemmas w_serde_contract = list_serde_contract [of "[w_route0, w_route1, w_route2]", folded w_serde_def]

theorem restart_loses_shadowed_prefix_witness:
  "router_spec (cl_router w_two) (''h'', ''/v1'') = Some (AppId ''a'', False) \<and>
   router_spec (restart_router mem_redb w_serde (cl_table w_two)) (''h'', ''/v1'') = None"
proof -
  have "store_list_routes mem_redb w_serde (cl_table w_two) = Inr [w_route2]"
    by (simp add: mem_eval w_serde_def w_two_def)
  from restart_loses_shadowed_prefix [OF mem_redb_contract w_serde_contract w_table_ok_empty w_add(2)
      w_add_second _ _ this]
  show ?thesis
    by (simp add: w_route1_def w_route2_def normalise_prefix_def)
qed

text \<open>
  Removing a route that was added with an empty prefix does not remove it from the router: the
  router files it under the root path, and \<open>handle_route_remove\<close> asks the router to remove the
  empty prefix, so the router still resolves the removed route (here for a path below no longer
  registered prefix) although the store no longer has it.
\<close>

theorem removed_default_route_still_resolves:
  assumes "redb_contract db view" "router_wf (cl_router c)" "route_path_prefix r = []"
    and "serde_contract js"
    and "handle_route_add db js w r c = (Inr (), c1)"
    and "handle_route_remove db js w (route_host r) c1 = (Inr (), c2)"
    and "prefix ''/'' path"
    and "\<And>q. prefix q path \<Longrightarrow> 1 < length q \<Longrightarrow> router_spec (cl_router c) (route_host r, q) = None"
  shows "stored js view (cl_table c2) (route_host r) = None \<and>
    map_option resolved_app_id (resolve (cl_router c2) (route_host r) path) = Some (route_app_id r)"
proof -
  note save = handle_route_add_Ok [OF assms(5)] and del = handle_route_remove_Ok [OF assms(6)]
  have root: "normalise_prefix (route_path_prefix r) = ''/''"
    by (simp add: assms(3) normalise_prefix_def)
  have "x = Some r" if "load_route db js (route_host r) (cl_table c1) = Inr x" for x
    using load_route_stored [OF assms(1) that] save_route_stored [OF assms(1,4) save(1)] by simp
  then have "cl_router c2 = remove_route (cl_router c1) (route_host r) []"
    using del(2) assms(3) by (auto split: sum.splits option.splits)
  moreover have "cl_router c1 = add_route (cl_router c) (route_host r) (route_path_prefix r)
      (route_app_id r) (route_strip_prefix r)"
    by (rule save(2))
  ultimately have spec2: "router_spec (cl_router c2) =
      ((router_spec (cl_router c))((route_host r, ''/'') \<mapsto> (route_app_id r, route_strip_prefix r)))
        ((route_host r, []) := None)" and wf2: "router_wf (cl_router c2)"
    by (simp_all add: router_spec_remove_route router_spec_add_route root router_wf_remove_route
        router_wf_add_route assms(2))
  have "router_spec (cl_router c2) (route_host r, take k path) = None"
    if "1 < k" "k \<le> length path" for k
  proof -
    have "length (take k path) \<noteq> length ''/''"
      using that by simp
    then have "take k path \<noteq> ''/''"
      by metis
    then show ?thesis
      using assms(8) [OF take_is_prefix, of k] that by (auto simp: spec2)
  qed
  then have "spec_match (router_spec (cl_router c2)) (route_host r) path (length path) =
      spec_match (router_spec (cl_router c2)) (route_host r) path 1"
    using assms(7) by (intro spec_match_skip) (auto simp: prefix_def)
  moreover have "take (Suc 0) path = ''/''" and "path \<noteq> []"
    using assms(7) by (auto simp: prefix_def)
  then have "spec_match (router_spec (cl_router c2)) (route_host r) path 1 =
      Some \<lparr> resolved_app_id = route_app_id r, resolved_strip_prefix = route_strip_prefix r,
             resolved_matched_prefix = ''/'' \<rparr>"
    by (subst spec_match.simps) (simp add: spec2)
  ultimately have "spec_host (router_spec (cl_router c2)) (route_host r) path =
      Some \<lparr> resolved_app_id = route_app_id r, resolved_strip_prefix = route_strip_prefix r,
             resolved_matched_prefix = ''/'' \<rparr>"
    by (simp add: spec_host_def)
  then have "resolve (cl_router c2) (route_host r) path =
      Some \<lparr> resolved_app_id = route_app_id r, resolved_strip_prefix = route_strip_prefix r,
             resolved_matched_prefix = ''/'' \<rparr>"
    by (simp add: resolve_spec [OF wf2] spec_resolve_def)
  then show ?thesis
    using delete_route_stored [OF assms(1) del(1), of js] by simp
qed

definition w_removed :: "(string, string) hmap cluster" where
  "w_removed = \<lparr> cl_router = cl_router (w_one w_route0 []), cl_table = [], cl_notified = [] \<rparr>"

lemma w_remove:
  "handle_route_remove mem_redb w_serde False ''h'' (w_one w_route0 []) = (Inr (), w_removed)"
  by (simp add: mem_eval w_serde_def w_route0_def w_one_def w_removed_def remove_route_def add_route_def
      normalise_prefix_def sort_entries_def hm_or_insert_def)

theorem removed_default_route_still_resolves_witness:
  "stored w_serde hm_get (cl_table w_removed) ''h'' = None \<and>
   map_option resolved_app_id (resolve (cl_router w_removed) ''h'' ''/x'') = Some (AppId ''c'')"
proof -
  have none: "router_spec (cl_router w_empty) k = None" for k
    by (cases k) (simp add: router_spec_def w_empty_def hm_or_insert_def)
  show ?thesis
    using removed_default_route_still_resolves [OF mem_redb_contract _ _ w_serde_contract w_add(1), of w_removed "''/x''"]
      w_remove none
    by (simp add: w_route0_def w_empty_def router_wf_empty)
qed

text \<open>
  Removing a route with a non-empty prefix is complete: the store no longer has the host, the
  router no longer has the prefix, and every other (host, prefix) pair of the router and every other
  stored host is untouched.
\<close>

theorem route_remove_complete:
  assumes "redb_contract db view"
    and "load_route db js host (cl_table c) = Inr (Some r)" "route_path_prefix r \<noteq> []"
    and "handle_route_remove db js w host c = (Inr (), c')"
  shows "stored js view (cl_table c') = (stored js view (cl_table c))(host := None) \<and>
     router_spec (cl_router c') =
       (router_spec (cl_router c))((host, normalise_prefix (route_path_prefix r)) := None)"
  using delete_route_stored [OF assms(1) handle_route_remove_Ok(1) [OF assms(4)]]
    handle_route_remove_Ok(2) [OF assms(4)] assms(2,3)
  by (simp add: router_spec_remove_route normalise_prefix_def)

theorem route_remove_complete_witness:
  "router_spec (cl_router (snd (handle_route_remove mem_redb w_serde False ''h'' (w_one w_route1 ''#''))))
     (''h'', ''/v1'') = None"
proof -
  have load: "load_route mem_redb w_serde ''h'' (cl_table (w_one w_route1 ''#'')) = Inr (Some w_route1)"
    by (simp add: mem_eval w_serde_def w_one_def w_route1_def)
  have "handle_route_remove mem_redb w_serde False ''h'' (w_one w_route1 ''#'') =
      (Inr (), snd (handle_route_remove mem_redb w_serde False ''h'' (w_one w_route1 ''#'')))"
    by (simp add: mem_eval w_serde_def w_one_def w_route1_def)
  from route_remove_complete [OF mem_redb_contract load _ this]
  show ?thesis
    by (simp add: w_route1_def normalise_prefix_def)
qed

text \<open>
  A hot swap repoints exactly the stored routes of the old app: for every (host, prefix) the
  router afterwards has the new app if the host's stored route belongs to the old app and has this
  prefix, and otherwise what it had before. In particular a prefix of the old app that the store
  has lost keeps pointing at the old app.
\<close>

theorem hot_swap_repoints_stored_routes:
  assumes "redb_contract db view" "table_ok js view (cl_table c)"
    and "store_list_routes db js (cl_table c) = Inr rs"
  shows "router_spec (cl_router (update_routes_for_swap db js old new now c)) (h, p) =
    (case stored js view (cl_table c) h of
       Some r \<Rightarrow> if route_app_id r = old \<and> normalise_prefix (route_path_prefix r) = p
                 then Some (new, route_strip_prefix r) else router_spec (cl_router c) (h, p)
     | None \<Rightarrow> router_spec (cl_router c) (h, p))"
  using assms by (rule update_routes_for_swap_spec)

theorem hot_swap_repoints_stored_routes_witness:
  "router_spec (cl_router (update_routes_for_swap mem_redb w_serde (AppId ''b'') (AppId ''n'') 9 w_two))
     (''h'', ''/v2'') = Some (AppId ''n'', True) \<and>
   router_spec (cl_router (update_routes_for_swap mem_redb w_serde (AppId ''b'') (AppId ''n'') 9 w_two))
     (''h'', ''/v1'') = Some (AppId ''a'', False)"
proof -
  have list: "store_list_routes mem_redb w_serde (cl_table w_two) = Inr [w_route2]"
    by (simp add: mem_eval w_serde_def w_two_def)
  have ok: "table_ok w_serde hm_get (cl_table w_two)"
    by (auto simp: table_ok_def stored_def w_two_def w_serde_def list_serde_def hm_get_def w_route2_def
        split: if_splits)
  have "stored w_serde hm_get (cl_table w_two) ''h'' = Some w_route2"
    by (simp add: stored_def w_two_def w_serde_def list_serde_def hm_get_def)
  then show ?thesis
    using hot_swap_repoints_stored_routes [OF mem_redb_contract ok list, of "AppId ''b''" "AppId ''n''" 9 "''h''" "''/v1''"]
      hot_swap_repoints_stored_routes [OF mem_redb_contract ok list, of "AppId ''b''" "AppId ''n''" 9 "''h''" "''/v2''"]
    by (simp add: w_route2_def w_two_def w_one_def w_route1_def normalise_prefix_def router_spec_add_route)
qed

text \<open>
  \<open>save_route_if_newer\<close> is a last-writer-wins register per host: it writes exactly when the
  host has no stored route or an older one, it then stores the given route, and otherwise it leaves
  the table's routes as they are; the stored time stamp of a host never decreases.
\<close>

theorem save_route_if_newer_keeps_newest:
  assumes "redb_contract db view" "serde_contract js"
    and "save_route_if_newer db js r t = Inr (t', wrote)"
  shows "wrote = (case stored js view t (route_host r) of
           None \<Rightarrow> True | Some e \<Rightarrow> route_updated_at e < route_updated_at r) \<and>
    stored js view t' = (if wrote then (stored js view t)(route_host r \<mapsto> r) else stored js view t) \<and>
    (\<forall>h e. stored js view t h = Some e \<longrightarrow>
       (\<exists>e'. stored js view t' h = Some e' \<and> route_updated_at e \<le> route_updated_at e'))"
proof -
  note cases = save_route_if_newer_cases [OF assms]
  from cases have "\<exists>e'. stored js view t' h = Some e' \<and> route_updated_at e \<le> route_updated_at e'"
    if "stored js view t h = Some e" for h e
    using that by (cases "h = route_host r") (auto split: option.splits)
  with cases show ?thesis
    by blast
qed

theorem save_route_if_newer_keeps_newest_witness:
  "stored w_serde hm_get [(''h'', ''##'')] ''h'' = Some w_route2 \<and>
   save_route_if_newer mem_redb w_serde w_route1 [(''h'', ''##'')] = Inr ([(''h'', ''##'')], False)"
proof -
  have eval: "save_route_if_newer mem_redb w_serde w_route1 [(''h'', ''##'')] = Inr ([(''h'', ''##'')], False)"
    by (simp add: save_route_if_newer_def mem_eval w_serde_def w_route1_def w_route2_def)
  have "stored w_serde hm_get [(''h'', ''##'')] ''h'' = Some w_route2"
    by (simp add: stored_def w_serde_def list_serde_def hm_get_def)
  with eval show ?thesis
    using save_route_if_newer_keeps_newest [OF mem_redb_contract w_serde_contract eval] by simp
qed

end
