(* ===== verification/Circuit_Breaker.thy ===== *)
theory Circuit_Breaker
  imports Prelude
begin

text \<open>
  The circuit breaker of the API gateway (\<open>crates/proxy/src/gateway/circuit_breaker.rs\<close>): one
  circuit per upstream app with the states closed, open and half-open. Each operation takes the
  clock readings it makes, in the order it makes them.
\<close>

section \<open>State and operations\<close>

datatype circuit_state = Closed | Open | HalfOpen

record circuit =
  ci_state :: circuit_state
  ci_consecutive_failures :: u32
  ci_last_failure_at :: "instant option"
  ci_last_state_change :: instant

record cb_manager =
  cb_circuits :: "(string, circuit) hmap"
  cb_failure_threshold :: u32
  cb_reset_timeout_secs :: u32

definition cb_new :: cb_manager where
  "cb_new = \<lparr> cb_circuits = [], cb_failure_threshold = 5, cb_reset_timeout_secs = 30 \<rparr>"

text \<open>The circuit that \<open>or_insert_with\<close> creates for an app without one.\<close>

definition circuit_new :: "instant \<Rightarrow> circuit" where
  "circuit_new now = \<lparr> ci_state = Closed, ci_consecutive_failures = 0, ci_last_failure_at = None,
     ci_last_state_change = now \<rparr>"

definition cb_entry :: "cb_manager \<Rightarrow> string \<Rightarrow> instant \<Rightarrow> circuit" where
  "cb_entry m app now = hm_or_insert (cb_circuits m) app (circuit_new now)"

definition cb_store :: "cb_manager \<Rightarrow> string \<Rightarrow> circuit \<Rightarrow> cb_manager" where
  "cb_store m app c = m\<lparr> cb_circuits := hm_insert app c (cb_circuits m) \<rparr>"

text \<open>\<open>is_circuit_open\<close>: readings for the new entry, for \<open>elapsed\<close> and for the state change.\<close>

definition circuit_check :: "u32 \<Rightarrow> instant \<Rightarrow> instant \<Rightarrow> circuit \<Rightarrow> bool \<times> circuit" where
  "circuit_check timeout t_elapsed t_change c =
     (case ci_state c of
        Closed \<Rightarrow> (False, c)
      | Open \<Rightarrow>
          if as_secs (duration_since t_elapsed (ci_last_state_change c)) \<ge> unat timeout
          then (False, c\<lparr> ci_state := HalfOpen, ci_last_state_change := t_change \<rparr>)
          else (True, c)
      | HalfOpen \<Rightarrow> (False, c))"

definition is_circuit_open ::
  "cb_manager \<Rightarrow> string \<Rightarrow> instant \<Rightarrow> instant \<Rightarrow> instant \<Rightarrow> bool \<times> cb_manager" where
  "is_circuit_open m app t_new t_elapsed t_change =
     (let (rejected, c) = circuit_check (cb_reset_timeout_secs m) t_elapsed t_change (cb_entry m app t_new)
      in (rejected, cb_store m app c))"

definition circuit_success :: "instant \<Rightarrow> circuit \<Rightarrow> circuit" where
  "circuit_success t_change c =
     (if ci_state c = HalfOpen
      then c\<lparr> ci_state := Closed, ci_consecutive_failures := 0, ci_last_state_change := t_change \<rparr>
      else c\<lparr> ci_consecutive_failures := 0 \<rparr>)"

definition cb_record_success :: "cb_manager \<Rightarrow> string \<Rightarrow> instant \<Rightarrow> instant \<Rightarrow> cb_manager" where
  "cb_record_success m app t_new t_change =
     cb_store m app (circuit_success t_change (cb_entry m app t_new))"

text \<open>The counter is a \<open>u32\<close>; the addition wraps, as in a release build.\<close>

definition circuit_failure :: "u32 \<Rightarrow> instant \<Rightarrow> instant \<Rightarrow> circuit \<Rightarrow> circuit" where
  "circuit_failure threshold t_failure t_change c0 =
     (let c = c0\<lparr> ci_consecutive_failures := ci_consecutive_failures c0 + 1,
                  ci_last_failure_at := Some t_failure \<rparr>
      in case ci_state c of
           Closed \<Rightarrow>
             if ci_consecutive_failures c \<ge> threshold
             then c\<lparr> ci_state := Open, ci_last_state_change := t_change \<rparr>
             else c
         | HalfOpen \<Rightarrow> c\<lparr> ci_state := Open, ci_last_state_change := t_change \<rparr>
         | Open \<Rightarrow> c)"

definition cb_record_failure :: "cb_manager \<Rightarrow> string \<Rightarrow> instant \<Rightarrow> instant \<Rightarrow> instant \<Rightarrow> cb_manager" where
  "cb_record_failure m app t_new t_failure t_change =
     cb_store m app (circuit_failure (cb_failure_threshold m) t_failure t_change (cb_entry m app t_new))"

definition open_circuit_count :: "cb_manager \<Rightarrow> int" where
  "open_circuit_count m = int (length (filter (\<lambda>(app, c). ci_state c = Open) (cb_circuits m)))"

definition prune_removed_apps :: "cb_manager \<Rightarrow> string list \<Rightarrow> int \<times> cb_manager" where
  "prune_removed_apps m active =
     (let before = length (cb_circuits m);
          m' = m\<lparr> cb_circuits := hm_retain (\<lambda>app _. app \<in> set active) (cb_circuits m) \<rparr>
      in (int (before - length (cb_circuits m')), m'))"

definition set_last_state_change :: "cb_manager \<Rightarrow> string \<Rightarrow> instant \<Rightarrow> instant \<Rightarrow> cb_manager" where
  "set_last_state_change m app t_new t =
     cb_store m app ((cb_entry m app t_new)\<lparr> ci_last_state_change := t \<rparr>)"

text \<open>The calls the gateway makes, in sequence.\<close>

datatype cb_call =
    CheckOpen string instant instant instant
  | RecordSuccess string instant instant
  | RecordFailure string instant instant instant
  | PruneApps "string list"

fun cb_step :: "cb_call \<Rightarrow> cb_manager \<Rightarrow> cb_manager" where
  "cb_step (CheckOpen app t0 t1 t2) m = snd (is_circuit_open m app t0 t1 t2)"
| "cb_step (RecordSuccess app t0 t1) m = cb_record_success m app t0 t1"
| "cb_step (RecordFailure app t0 t1 t2) m = cb_record_failure m app t0 t1 t2"
| "cb_step (PruneApps active) m = snd (prune_removed_apps m active)"

section \<open>Invariant\<close>

text \<open>
  A closed circuit has fewer failures than the threshold (so its counter never wraps), and an open
  one has seen a failure.
\<close>

definition circuit_inv :: "u32 \<Rightarrow> circuit \<Rightarrow> bool" where
  "circuit_inv threshold c \<longleftrightarrow>
     (ci_state c = Closed \<longrightarrow> ci_consecutive_failures c < threshold) \<and>
     (ci_state c \<noteq> Closed \<longrightarrow> ci_last_failure_at c \<noteq> None)"

definition cb_inv :: "cb_manager \<Rightarrow> bool" where
  "cb_inv m \<longleftrightarrow> hm_wf (cb_circuits m) \<and> 0 < cb_failure_threshold m \<and>
     (\<forall>app c. hm_get (cb_circuits m) app = Some c \<longrightarrow> circuit_inv (cb_failure_threshold m) c)"

lemma circuit_inv_new: "0 < th \<Longrightarrow> circuit_inv th (circuit_new t)"
  by (simp add: circuit_inv_def circuit_new_def)

lemma circuit_inv_check: "circuit_inv th c \<Longrightarrow> circuit_inv th (snd (circuit_check to t1 t2 c))"
  by (cases "ci_state c") (auto simp: circuit_inv_def circuit_check_def)

lemma circuit_inv_success: "0 < th \<Longrightarrow> circuit_inv th c \<Longrightarrow> circuit_inv th (circuit_success t c)"
  by (auto simp: circuit_inv_def circuit_success_def)

lemma circuit_inv_failure: "circuit_inv th c \<Longrightarrow> circuit_inv th (circuit_failure th t1 t2 c)"
  by (cases "ci_state c") (auto simp: circuit_inv_def circuit_failure_def Let_def)

lemma cb_inv_entry: "cb_inv m \<Longrightarrow> circuit_inv (cb_failure_threshold m) (cb_entry m app t)"
  by (auto simp: cb_inv_def cb_entry_def hm_or_insert_def circuit_inv_new split: option.splits)

lemma cb_inv_store:
  "cb_inv m \<Longrightarrow> circuit_inv (cb_failure_threshold m) c \<Longrightarrow> cb_inv (cb_store m app c)"
  by (auto simp: cb_inv_def cb_store_def)

lemma cb_inv_prune: "cb_inv m \<Longrightarrow> cb_inv (snd (prune_removed_apps m active))"
  by (auto simp: cb_inv_def prune_removed_apps_def Let_def hm_simps split: option.splits if_splits)

lemma cb_step_inv: "cb_inv m \<Longrightarrow> cb_inv (cb_step e m)"
proof (cases e)
  case (CheckOpen app t0 t1 t2)
  assume "cb_inv m"
  with CheckOpen show ?thesis
    by (auto simp: is_circuit_open_def Let_def case_prod_unfold
        intro!: cb_inv_store circuit_inv_check cb_inv_entry)
next
  case (RecordSuccess app t0 t1)
  assume inv: "cb_inv m"
  then have "0 < cb_failure_threshold m"
    by (simp add: cb_inv_def)
  with inv RecordSuccess show ?thesis
    by (auto simp: cb_record_success_def intro!: cb_inv_store circuit_inv_success cb_inv_entry)
next
  case (RecordFailure app t0 t1 t2)
  assume "cb_inv m"
  with RecordFailure show ?thesis
    by (auto simp: cb_record_failure_def intro!: cb_inv_store circuit_inv_failure cb_inv_entry)
next
  case (PruneApps active)
  assume "cb_inv m"
  with PruneApps show ?thesis
    by (simp add: cb_inv_prune)
qed

interpretation cbm: call_machine cb_step cb_inv
  by unfold_locales (rule cb_step_inv)

lemma cb_inv_new: "cb_inv cb_new"
  by (simp add: cb_inv_def cb_new_def)

section \<open>One circuit under a sequence of outcomes\<close>

datatype outcome = Succeeded | Failed

fun circuit_outcome :: "u32 \<Rightarrow> outcome \<times> instant \<times> instant \<Rightarrow> circuit \<Rightarrow> circuit" where
  "circuit_outcome th (Succeeded, t1, t2) c = circuit_success t2 c"
| "circuit_outcome th (Failed, t1, t2) c = circuit_failure th t1 t2 c"

fun trips :: "nat \<Rightarrow> nat \<Rightarrow> outcome list \<Rightarrow> bool" where
  "trips n k [] = False"
| "trips n k (Failed # os) = (n \<le> Suc k \<or> trips n (Suc k) os)"
| "trips n k (Succeeded # os) = trips n 0 os"

lemma prefix_replicate_Cons:
  "0 < n \<Longrightarrow> prefix (replicate n x) (y # ys) \<longleftrightarrow> x = y \<and> prefix (replicate (n - 1) x) ys"
  by (cases n) auto

lemma sublist_replicate_Cons:
  "0 < n \<Longrightarrow> sublist (replicate n x) (y # ys) \<longleftrightarrow>
     (x = y \<and> prefix (replicate (n - 1) x) ys) \<or> sublist (replicate n x) ys"
  by (cases n) (auto simp: sublist_Cons_right)

lemma prefix_replicate_mono:
  "m \<le> n \<Longrightarrow> prefix (replicate n x) ys \<Longrightarrow> prefix (replicate m x) ys"
  by (metis le_add_diff_inverse prefix_order.trans prefixI replicate_add)

text \<open>From \<open>k\<close> failures, the outcomes that complete a run of \<open>n\<close> failures.\<close>

lemma trips_iff:
  assumes "k < n"
  shows "trips n k os \<longleftrightarrow> prefix (replicate (n - k) Failed) os \<or> sublist (replicate n Failed) os"
  using assms
proof (induction n k os rule: trips.induct)
  case (1 n k)
  then show ?case by auto
next
  case (2 n k os)
  show ?case
  proof (cases "n \<le> Suc k")
    case True
    with 2 have "n - k = 1"
      by simp
    with True show ?thesis by simp
  next
    case False
    have "n - Suc k \<le> n - 1"
      by simp
    with False 2 prefix_replicate_mono [OF this, of Failed os] show ?thesis
      by (auto simp: prefix_replicate_Cons sublist_replicate_Cons)
  qed
next
  case (3 n k os)
  then show ?case
    using prefix_imp_sublist [of "replicate n Failed" os]
    by (auto simp: prefix_replicate_Cons sublist_replicate_Cons)
qed

lemma circuit_outcomes_open:
  assumes "ci_state c = Open"
  shows "ci_state (fold (circuit_outcome th) os c) = Open"
proof -
  have "ci_state (circuit_outcome th e c) = Open" if "ci_state c = Open" for e c
    using that by (cases e; cases "fst e") (auto simp: circuit_success_def circuit_failure_def Let_def)
  then show ?thesis
    using assms by (induction os arbitrary: c) auto
qed

lemma circuit_outcomes_trip:
  assumes "circuit_inv th c" and "ci_state c = Closed"
  shows "ci_state (fold (circuit_outcome th) os c) =
    (if trips (unat th) (unat (ci_consecutive_failures c)) (map fst os) then Open else Closed)"
  using assms
proof (induction os arbitrary: c)
  case Nil
  then show ?case by simp
next
  case (Cons e os)
  obtain t1 t2 where e: "e = (Succeeded, t1, t2) \<or> e = (Failed, t1, t2)"
    by (metis outcome.exhaust prod.collapse)
  from Cons.prems have lt: "ci_consecutive_failures c < th"
    by (simp add: circuit_inv_def)
  then have pos: "0 < th" and suc: "unat (ci_consecutive_failures c + 1) = Suc (unat (ci_consecutive_failures c))"
    by (auto simp: unat_Suc_no_wrap word_less_nat_alt)
  from e show ?case
  proof
    assume e: "e = (Succeeded, t1, t2)"
    with Cons.prems have "ci_state (circuit_outcome th e c) = Closed"
      and "ci_consecutive_failures (circuit_outcome th e c) = 0"
      by (simp_all add: circuit_success_def)
    moreover from Cons.prems pos e have "circuit_inv th (circuit_outcome th e c)"
      by (simp add: circuit_inv_success)
    ultimately show ?thesis
      using Cons.IH [of "circuit_outcome th e c"] e by simp
  next
    assume e: "e = (Failed, t1, t2)"
    show ?thesis
    proof (cases "th \<le> ci_consecutive_failures c + 1")
      case True
      with Cons.prems e have "ci_state (circuit_outcome th e c) = Open"
        by (simp add: circuit_failure_def Let_def)
      with True e suc show ?thesis
        by (simp add: circuit_outcomes_open word_le_nat_alt)
    next
      case False
      with Cons.prems e have "ci_state (circuit_outcome th e c) = Closed"
        and "ci_consecutive_failures (circuit_outcome th e c) = ci_consecutive_failures c + 1"
        by (simp_all add: circuit_failure_def Let_def)
      moreover from Cons.prems e have "circuit_inv th (circuit_outcome th e c)"
        by (simp add: circuit_inv_failure)
      ultimately show ?thesis
        using Cons.IH [of "circuit_outcome th e c"] e suc False by (simp add: word_le_nat_alt)
    qed
  qed
qed

section \<open>An open circuit until its timeout\<close>

text \<open>Calls about one app whose checks are made before the timeout has passed.\<close>

fun early :: "string \<Rightarrow> instant \<Rightarrow> nat \<Rightarrow> cb_call \<Rightarrow> bool" where
  "early app since secs (CheckOpen a t0 t1 t2) =
     (a = app \<longrightarrow> since \<le> t1 \<and> t1 < since + from_secs secs)"
| "early app since secs (RecordSuccess a t0 t1) = True"
| "early app since secs (RecordFailure a t0 t1 t2) = True"
| "early app since secs (PruneApps active) = (app \<in> set active)"

definition open_since :: "cb_manager \<Rightarrow> string \<Rightarrow> instant \<Rightarrow> bool" where
  "open_since m app t \<longleftrightarrow> (\<exists>c. hm_get (cb_circuits m) app = Some c \<and> ci_state c = Open \<and>
     ci_last_state_change c = t)"

lemma not_yet_elapsed:
  assumes "since \<le> t" "t < since + from_secs s"
  shows "\<not> s \<le> as_secs (duration_since t since)"
  using assms by (auto simp: as_secs_ge_iff duration_since_def from_secs_def)

lemma cb_step_open_since:
  assumes "hm_wf (cb_circuits m)" "open_since m app t"
    and "early app t (unat (cb_reset_timeout_secs m)) e"
  shows "open_since (cb_step e m) app t"
  using assms
  by (cases e)
    (auto simp: open_since_def is_circuit_open_def cb_record_success_def cb_record_failure_def
      cb_store_def cb_entry_def hm_or_insert_def Let_def circuit_check_def not_yet_elapsed
      circuit_success_def circuit_failure_def prune_removed_apps_def hm_simps
      split: option.splits circuit_state.splits)

lemma cb_step_timeout [simp]: "cb_reset_timeout_secs (cb_step e m) = cb_reset_timeout_secs m"
  by (cases e)
    (simp_all add: is_circuit_open_def cb_record_success_def cb_record_failure_def cb_store_def
      prune_removed_apps_def Let_def case_prod_unfold)

lemma cb_step_wf: "hm_wf (cb_circuits m) \<Longrightarrow> hm_wf (cb_circuits (cb_step e m))"
  by (cases e)
    (simp_all add: is_circuit_open_def cb_record_success_def cb_record_failure_def cb_store_def
      prune_removed_apps_def Let_def case_prod_unfold)

lemma run_open_since:
  assumes "hm_wf (cb_circuits m)" "open_since m app t"
    and "list_all (early app t (unat (cb_reset_timeout_secs m))) es"
  shows "open_since (fold cb_step es m) app t \<and>
    cb_reset_timeout_secs (fold cb_step es m) = cb_reset_timeout_secs m"
  using assms
proof (induction es arbitrary: m)
  case (Cons e es)
  have "open_since (cb_step e m) app t"
    using Cons.prems by (intro cb_step_open_since) auto
  then show ?case
    using Cons.IH [of "cb_step e m"] Cons.prems cb_step_wf [of m e] by simp
qed simp

fun touches :: "string \<Rightarrow> cb_call \<Rightarrow> bool" where
  "touches app (CheckOpen a t0 t1 t2) = (a = app)"
| "touches app (RecordSuccess a t0 t1) = (a = app)"
| "touches app (RecordFailure a t0 t1 t2) = (a = app)"
| "touches app (PruneApps active) = (app \<notin> set active)"

lemma cb_step_frame:
  assumes "hm_wf (cb_circuits m)" "\<not> touches app e"
  shows "hm_get (cb_circuits (cb_step e m)) app = hm_get (cb_circuits m) app"
  using assms
  by (cases e)
    (auto simp: is_circuit_open_def cb_record_success_def cb_record_failure_def cb_store_def
      prune_removed_apps_def Let_def case_prod_unfold hm_simps split: option.splits)

section \<open>Properties\<close>

text \<open>
  (C4) A closed circuit opens exactly on a run of consecutive failures: after any sequence of
  recorded outcomes starting from a fresh circuit, the circuit is open if and only if the sequence
  contains as many failures in a row as the threshold; otherwise it is closed.
\<close>

theorem circuit_opens_iff_run_of_failures:
  assumes "0 < threshold"
  shows "ci_state (fold (circuit_outcome threshold) os (circuit_new t)) =
    (if sublist (replicate (unat threshold) Failed) (map fst os) then Open else Closed)"
proof -
  have "prefix (replicate (unat threshold) Failed) (map fst os) \<Longrightarrow>
      sublist (replicate (unat threshold) Failed) (map fst os)"
    by (rule prefix_imp_sublist)
  moreover have "0 < unat threshold"
    using assms by (simp add: word_less_nat_alt)
  ultimately show ?thesis
    using circuit_outcomes_trip [OF circuit_inv_new [OF assms], of t os]
      trips_iff [of 0 "unat threshold" "map fst os"]
    by (auto simp: circuit_new_def)
qed

theorem circuit_opens_iff_run_of_failures_witness:
  "ci_state (fold (circuit_outcome 2) [(Failed, 1, 1), (Succeeded, 2, 2), (Failed, 3, 3), (Failed, 4, 4)]
     (circuit_new 0)) = Open"
proof -
  let ?os = "[(Failed, 1, 1), (Succeeded, 2, 2), (Failed, 3, 3), (Failed, 4, 4)] :: (outcome \<times> instant \<times> instant) list"
  have two: "unat (2 :: u32) = 2" and pos: "0 < (2 :: u32)"
    by simp_all
  have "replicate 2 Failed = [Failed, Failed]"
    by (simp add: numeral_2_eq_2)
  then have "sublist (replicate (unat (2 :: u32)) Failed) (map fst ?os)"
    unfolding two by (simp add: sublist_code)
  then show ?thesis
    using circuit_opens_iff_run_of_failures [OF pos, of ?os 0] by simp
qed

text \<open>
  An open circuit rejects every request until its timeout: whatever is recorded, checked or
  pruned in between (the app staying active), as long as the checks of this app are made within
  the reset timeout of the last state change, the next such check rejects and the circuit stays open.
\<close>

theorem open_circuit_rejects_until_timeout:
  assumes "cb_inv m" "open_since m app since"
    and "list_all (early app since (unat (cb_reset_timeout_secs m))) es"
    and "since \<le> t1" "t1 < since + from_secs (unat (cb_reset_timeout_secs m))"
  shows "fst (is_circuit_open (fold cb_step es m) app t0 t1 t2) \<and>
    open_since (snd (is_circuit_open (fold cb_step es m) app t0 t1 t2)) app since"
proof -
  let ?m = "fold cb_step es m"
  have run: "open_since ?m app since" "cb_reset_timeout_secs ?m = cb_reset_timeout_secs m"
    using run_open_since [OF _ assms(2,3)] assms(1) by (auto simp: cb_inv_def)
  then obtain c where c: "hm_get (cb_circuits ?m) app = Some c" "ci_state c = Open"
    "ci_last_state_change c = since"
    by (auto simp: open_since_def)
  then have "circuit_check (cb_reset_timeout_secs ?m) t1 t2 c = (True, c)"
    using not_yet_elapsed [OF assms(4,5)] run(2) by (simp add: circuit_check_def)
  with c show ?thesis
    by (simp add: is_circuit_open_def cb_entry_def hm_or_insert_def cb_store_def open_since_def)
qed

definition w_circuit :: "circuit_state \<Rightarrow> circuit" where
  "w_circuit st = \<lparr> ci_state = st, ci_consecutive_failures = 5, ci_last_failure_at = Some 0,
     ci_last_state_change = 0 \<rparr>"

definition w_manager :: "circuit_state \<Rightarrow> cb_manager" where
  "w_manager st = \<lparr> cb_circuits = [(''a'', w_circuit st)], cb_failure_threshold = 5,
     cb_reset_timeout_secs = 30 \<rparr>"

lemma w_manager_get [simp]: "hm_get (cb_circuits (w_manager st)) ''a'' = Some (w_circuit st)"
  by (simp add: w_manager_def hm_get_def)

lemma w_manager_inv: "cb_inv (w_manager Open)"
  by (auto simp: cb_inv_def w_manager_def w_circuit_def hm_wf_def hm_get_def circuit_inv_def split: if_splits)

theorem open_circuit_rejects_until_timeout_witness:
  "fst (is_circuit_open (fold cb_step [RecordSuccess ''a'' 1 1, CheckOpen ''a'' 5 5 5] (w_manager Open))
     ''a'' 9 9 9)"
proof -
  have since: "open_since (w_manager Open) ''a'' 0"
    by (simp add: open_since_def) (simp add: w_circuit_def)
  have to: "cb_reset_timeout_secs (w_manager Open) = 30"
    by (simp add: w_manager_def)
  then show ?thesis
    using open_circuit_rejects_until_timeout [OF w_manager_inv since,
        of "[RecordSuccess ''a'' 1 1, CheckOpen ''a'' 5 5 5]" 9 9 9]
    by (simp add: to from_secs_def nanos_per_sec_def del: cb_step.simps)
qed

text \<open>
  (C35) Recovery: once the reset timeout of an open circuit has passed, the next check admits the
  request and half-opens the circuit; a success then closes it with a cleared failure count, and a
  failure opens it again from that moment.
\<close>

theorem open_circuit_recovers:
  assumes "hm_get (cb_circuits m) app = Some c" "ci_state c = Open"
    and "ci_last_state_change c + from_secs (unat (cb_reset_timeout_secs m)) \<le> t1"
    and "is_circuit_open m app t0 t1 t2 = (rejected, m')"
  shows "\<not> rejected \<and> map_option ci_state (hm_get (cb_circuits m') app) = Some HalfOpen \<and>
    (\<exists>d. hm_get (cb_circuits (cb_record_success m' app s0 s1)) app = Some d \<and> ci_state d = Closed \<and>
       ci_consecutive_failures d = 0 \<and> ci_last_state_change d = s1) \<and>
    open_since (cb_record_failure m' app f0 f1 f2) app f2"
proof -
  let ?c = "c\<lparr> ci_state := HalfOpen, ci_last_state_change := t2 \<rparr>"
  from assms(3) have "unat (cb_reset_timeout_secs m) \<le> as_secs (duration_since t1 (ci_last_state_change c))"
    by (auto simp: as_secs_ge_iff duration_since_def)
  with assms(1,2,4) have "\<not> rejected" and m': "m' = cb_store m app ?c"
    by (auto simp: is_circuit_open_def cb_entry_def hm_or_insert_def circuit_check_def)
  then show ?thesis
    by (simp add: cb_record_success_def cb_record_failure_def cb_store_def cb_entry_def hm_or_insert_def
        circuit_success_def circuit_failure_def open_since_def Let_def)
qed

theorem open_circuit_recovers_witness:
  "\<exists>m'. is_circuit_open (w_manager Open) ''a'' 0 (30 * 1000000000) 7 = (False, m') \<and>
     open_since (cb_record_failure m' ''a'' 8 8 8) ''a'' 8"
proof -
  obtain rejected m' where eq: "is_circuit_open (w_manager Open) ''a'' 0 (30 * 1000000000) 7 = (rejected, m')"
    by force
  have "ci_state (w_circuit Open) = Open"
    and "ci_last_state_change (w_circuit Open) + from_secs (unat (cb_reset_timeout_secs (w_manager Open)))
      \<le> 30 * 1000000000"
    by (simp_all add: w_circuit_def w_manager_def from_secs_def nanos_per_sec_def)
  from open_circuit_recovers [OF w_manager_get this eq, of 0 0 8 8 8] eq show ?thesis
    by auto
qed

text \<open>
  The half-open state admits every request until an outcome is recorded: any number of checks
  in a row is admitted, although the state is documented as letting a single probe through.
\<close>

theorem half_open_admits_every_check:
  assumes "hm_get (cb_circuits m) app = Some c" "ci_state c = HalfOpen"
  shows "\<not> fst (is_circuit_open (fold (\<lambda>(t0, t1, t2). cb_step (CheckOpen app t0 t1 t2)) ts m) app u0 u1 u2)"
proof -
  have keep: "hm_get (cb_circuits (cb_step (CheckOpen app t0 t1 t2) m)) app = Some c"
    if "hm_get (cb_circuits m) app = Some c" for m t0 t1 t2
    using that assms(2)
    by (simp add: is_circuit_open_def cb_entry_def hm_or_insert_def circuit_check_def cb_store_def)
  have "hm_get (cb_circuits (fold (\<lambda>(t0, t1, t2). cb_step (CheckOpen app t0 t1 t2)) ts m)) app = Some c"
    using assms(1) by (induction ts arbitrary: m) (auto simp: keep simp del: cb_step.simps)
  with assms(2) show ?thesis
    by (simp add: is_circuit_open_def cb_entry_def hm_or_insert_def circuit_check_def)
qed

theorem half_open_admits_every_check_witness:
  "\<not> fst (is_circuit_open (fold (\<lambda>(t0, t1, t2). cb_step (CheckOpen ''a'' t0 t1 t2)) [(1, 1, 1), (2, 2, 2)]
     (w_manager HalfOpen)) ''a'' 3 3 3)"
proof -
  have "ci_state (w_circuit HalfOpen) = HalfOpen"
    by (simp add: w_circuit_def)
  then show ?thesis
    by (rule half_open_admits_every_check [OF w_manager_get])
qed

text \<open>
  Circuits are independent, and the manager's invariant holds after any sequence of calls: a
  sequence that neither names an app nor prunes it leaves its circuit as it was, and in every
  reachable manager a closed circuit has fewer failures than the threshold.
\<close>

theorem circuits_independent:
  assumes "cb_inv m" "list_all (\<lambda>e. \<not> touches app e) es"
  shows "hm_get (cb_circuits (fold cb_step es m)) app = hm_get (cb_circuits m) app \<and>
    cb_inv (fold cb_step es m)"
proof
  show "cb_inv (fold cb_step es m)"
    using assms(1) by (rule cbm.run_inv)
  show "hm_get (cb_circuits (fold cb_step es m)) app = hm_get (cb_circuits m) app"
    using assms
  proof (induction es arbitrary: m)
    case (Cons e es)
    then have "hm_get (cb_circuits (cb_step e m)) app = hm_get (cb_circuits m) app"
      by (intro cb_step_frame) (auto simp: cb_inv_def)
    with Cons cb_step_inv show ?case
      by simp
  qed simp
qed

theorem circuits_independent_witness:
  "hm_get (cb_circuits (fold cb_step [RecordFailure ''b'' 1 1 1, PruneApps [''a'', ''b'']] (w_manager Open)))
     ''a'' = hm_get (cb_circuits (w_manager Open)) ''a''"
proof -
  have "list_all (\<lambda>e. \<not> touches ''a'' e) [RecordFailure ''b'' 1 1 1, PruneApps [''a'', ''b'']]"
    by simp
  from circuits_independent [OF w_manager_inv this] show ?thesis
    by blast
qed

end
