(* ===== verification/Policy.thy ===== *)
theory Policy
  imports Prelude
begin

text \<open>
  WASI policies (\<open>crates/common/src/policy.rs\<close>): the operator-facing configuration, its resolution
  into the policy of an instance with validation, and the predefined profiles. Parsing of CIDR
  strings belongs to the crate \<open>ipnet\<close> and is the parameter \<open>parse\<close>.
\<close>

section \<open>Policies and their configuration\<close>

record network_policy =
  np_allow_outbound_tcp :: bool
  np_allow_outbound_udp :: bool
  np_allow_dns :: bool
  np_allowed_cidrs :: "string list"
  np_denied_cidrs :: "string list"
  np_max_outbound_connections :: u32
  np_max_egress_bytes :: u64
  np_allowed_bind_ports :: "u16 list"
  np_allow_inbound :: bool

definition network_policy_default :: network_policy where
  "network_policy_default = \<lparr> np_allow_outbound_tcp = True, np_allow_outbound_udp = False,
     np_allow_dns = True, np_allowed_cidrs = [], np_denied_cidrs = [],
     np_max_outbound_connections = 100, np_max_egress_bytes = 0, np_allowed_bind_ports = [],
     np_allow_inbound = True \<rparr>"

record filesystem_policy =
  fp_max_open_fds :: u32
  fp_max_fs_write_bytes :: u64
  fp_max_fs_read_bytes :: u64
  fp_allow_file_create :: bool
  fp_allow_file_delete :: bool
  fp_allowed_paths :: "string list"

definition filesystem_policy_default :: filesystem_policy where
  "filesystem_policy_default = \<lparr> fp_max_open_fds = 64, fp_max_fs_write_bytes = 0,
     fp_max_fs_read_bytes = 0, fp_allow_file_create = False, fp_allow_file_delete = False,
     fp_allowed_paths = [] \<rparr>"

record instance_policy =
  ip_network :: network_policy
  ip_filesystem :: filesystem_policy

record network_policy_config =
  npc_allow_outbound_tcp :: "bool option"
  npc_allow_outbound_udp :: "bool option"
  npc_allow_dns :: "bool option"
  npc_allowed_cidrs :: "string list option"
  npc_denied_cidrs :: "string list option"
  npc_max_outbound_connections :: "u32 option"
  npc_max_egress_bytes :: "u64 option"
  npc_allow_inbound :: "bool option"

record filesystem_policy_config =
  fpc_max_open_fds :: "u32 option"
  fpc_max_fs_write_bytes :: "u64 option"
  fpc_max_fs_read_bytes :: "u64 option"
  fpc_allow_file_create :: "bool option"
  fpc_allow_file_delete :: "bool option"
  fpc_allowed_paths :: "string list option"

record policy_config =
  pc_network :: "network_policy_config option"
  pc_filesystem :: "filesystem_policy_config option"

text \<open>The messages \<open>resolve\<close> fails with, one constructor each.\<close>

datatype policy_error =
    InvalidCidr string
  | ZeroOutboundConnections
  | ZeroOpenFds
  | EmptyAllowedPath
  | RelativeAllowedPath string
  | WriteLimitWithoutWritablePath

section \<open>Validation\<close>

fun validate_cidrs :: "(string \<Rightarrow> 'net option) \<Rightarrow> string list \<Rightarrow> (policy_error, unit) result" where
  "validate_cidrs parse [] = Ok ()"
| "validate_cidrs parse (c # cs) =
     (if parse c = None then Err (InvalidCidr c) else validate_cidrs parse cs)"

text \<open>\<open>Path::is_absolute\<close> on Unix.\<close>

definition path_is_absolute :: "string \<Rightarrow> bool" where
  "path_is_absolute p = starts_with p ''/''"

fun validate_paths :: "string list \<Rightarrow> (policy_error, unit) result" where
  "validate_paths [] = Ok ()"
| "validate_paths (p # ps) =
     (if str_trim p = [] then Err EmptyAllowedPath
      else if \<not> path_is_absolute (str_trim p) then Err (RelativeAllowedPath p)
      else validate_paths ps)"

definition validate_filesystem_policy :: "filesystem_policy \<Rightarrow> (policy_error, unit) result" where
  "validate_filesystem_policy f =
     try_then (validate_paths (fp_allowed_paths f)) (\<lambda>_.
       let has_writable_preopen = fp_allowed_paths f \<noteq> [] \<and>
             (fp_allow_file_create f \<or> fp_allow_file_delete f)
       in if fp_max_fs_write_bytes f > 0 \<and> \<not> has_writable_preopen
          then Err WriteLimitWithoutWritablePath else Ok ())"

section \<open>Resolution\<close>

definition validate_optional_cidrs ::
  "(string \<Rightarrow> 'net option) \<Rightarrow> string list option \<Rightarrow> (policy_error, unit) result" where
  "validate_optional_cidrs parse cs = (case cs of None \<Rightarrow> Ok () | Some l \<Rightarrow> validate_cidrs parse l)"

definition resolve_network ::
  "(string \<Rightarrow> 'net option) \<Rightarrow> network_policy_config option \<Rightarrow> u16 \<Rightarrow> (policy_error, network_policy) result" where
  "resolve_network parse cfg assigned_port =
     (let d = network_policy_default in
      case cfg of
        None \<Rightarrow> Ok (d\<lparr> np_allowed_bind_ports := [assigned_port] \<rparr>)
      | Some c \<Rightarrow>
          try_then (validate_optional_cidrs parse (npc_allowed_cidrs c)) (\<lambda>_.
          try_then (validate_optional_cidrs parse (npc_denied_cidrs c)) (\<lambda>_.
          if npc_max_outbound_connections c = Some 0 then Err ZeroOutboundConnections
          else Ok \<lparr>
            np_allow_outbound_tcp = unwrap_or (npc_allow_outbound_tcp c) (np_allow_outbound_tcp d),
            np_allow_outbound_udp = unwrap_or (npc_allow_outbound_udp c) (np_allow_outbound_udp d),
            np_allow_dns = unwrap_or (npc_allow_dns c) (np_allow_dns d),
            np_allowed_cidrs = unwrap_or (npc_allowed_cidrs c) (np_allowed_cidrs d),
            np_denied_cidrs = unwrap_or (npc_denied_cidrs c) (np_denied_cidrs d),
            np_max_outbound_connections =
              unwrap_or (npc_max_outbound_connections c) (np_max_outbound_connections d),
            np_max_egress_bytes = unwrap_or (npc_max_egress_bytes c) (np_max_egress_bytes d),
            np_allowed_bind_ports = [assigned_port],
            np_allow_inbound = unwrap_or (npc_allow_inbound c) (np_allow_inbound d) \<rparr>)))"

definition resolve_filesystem ::
  "filesystem_policy_config option \<Rightarrow> (policy_error, filesystem_policy) result" where
  "resolve_filesystem cfg =
     (let d = filesystem_policy_default in
      case cfg of
        None \<Rightarrow> try_then (validate_filesystem_policy d) (\<lambda>_. Ok d)
      | Some c \<Rightarrow>
          if fpc_max_open_fds c = Some 0 then Err ZeroOpenFds
          else
            (let f = \<lparr>
               fp_max_open_fds = unwrap_or (fpc_max_open_fds c) (fp_max_open_fds d),
               fp_max_fs_write_bytes = unwrap_or (fpc_max_fs_write_bytes c) (fp_max_fs_write_bytes d),
               fp_max_fs_read_bytes = unwrap_or (fpc_max_fs_read_bytes c) (fp_max_fs_read_bytes d),
               fp_allow_file_create = unwrap_or (fpc_allow_file_create c) (fp_allow_file_create d),
               fp_allow_file_delete = unwrap_or (fpc_allow_file_delete c) (fp_allow_file_delete d),
               fp_allowed_paths = unwrap_or (fpc_allowed_paths c) (fp_allowed_paths d) \<rparr>
             in try_then (validate_filesystem_policy f) (\<lambda>_. Ok f)))"

definition policy_resolve ::
  "(string \<Rightarrow> 'net option) \<Rightarrow> policy_config \<Rightarrow> u16 \<Rightarrow> (policy_error, instance_policy) result" where
  "policy_resolve parse cfg assigned_port =
     try_then (resolve_network parse (pc_network cfg) assigned_port) (\<lambda>n.
     try_then (resolve_filesystem (pc_filesystem cfg)) (\<lambda>f.
     Ok \<lparr> ip_network = n, ip_filesystem = f \<rparr>))"

section \<open>Profiles\<close>

datatype policy_profile = HttpApi | BackgroundWorker | StaticSite | DatabaseProxy | Unrestricted

fun to_config :: "policy_profile \<Rightarrow> policy_config" where
  "to_config HttpApi = \<lparr>
     pc_network = Some \<lparr> npc_allow_outbound_tcp = Some True, npc_allow_outbound_udp = Some False,
       npc_allow_dns = Some True, npc_allowed_cidrs = None, npc_denied_cidrs = None,
       npc_max_outbound_connections = Some 100, npc_max_egress_bytes = Some 0,
       npc_allow_inbound = Some True \<rparr>,
     pc_filesystem = Some \<lparr> fpc_max_open_fds = Some 64, fpc_max_fs_write_bytes = Some 0,
       fpc_max_fs_read_bytes = Some 0, fpc_allow_file_create = Some False,
       fpc_allow_file_delete = Some False, fpc_allowed_paths = Some [] \<rparr> \<rparr>"
| "to_config BackgroundWorker = \<lparr>
     pc_network = Some \<lparr> npc_allow_outbound_tcp = Some True, npc_allow_outbound_udp = Some False,
       npc_allow_dns = Some True, npc_allowed_cidrs = None, npc_denied_cidrs = None,
       npc_max_outbound_connections = Some 50, npc_max_egress_bytes = Some 0,
       npc_allow_inbound = Some False \<rparr>,
     pc_filesystem = Some \<lparr> fpc_max_open_fds = Some 32, fpc_max_fs_write_bytes = Some 0,
       fpc_max_fs_read_bytes = Some 0, fpc_allow_file_create = Some False,
       fpc_allow_file_delete = Some False, fpc_allowed_paths = Some [] \<rparr> \<rparr>"
| "to_config StaticSite = \<lparr>
     pc_network = Some \<lparr> npc_allow_outbound_tcp = Some False, npc_allow_outbound_udp = Some False,
       npc_allow_dns = Some False, npc_allowed_cidrs = None, npc_denied_cidrs = None,
       npc_max_outbound_connections = Some 1, npc_max_egress_bytes = Some 0,
       npc_allow_inbound = Some True \<rparr>,
     pc_filesystem = Some \<lparr> fpc_max_open_fds = Some 32, fpc_max_fs_write_bytes = Some 0,
       fpc_max_fs_read_bytes = Some (100 * 1024 * 1024), fpc_allow_file_create = Some False,
       fpc_allow_file_delete = Some False, fpc_allowed_paths = Some [''/static''] \<rparr> \<rparr>"
| "to_config DatabaseProxy = \<lparr>
     pc_network = Some \<lparr> npc_allow_outbound_tcp = Some True, npc_allow_outbound_udp = Some False,
       npc_allow_dns = Some True,
       npc_allowed_cidrs = Some [''10.0.0.0/8'', ''172.16.0.0/12'', ''192.168.0.0/16''],
       npc_denied_cidrs = None,
       npc_max_outbound_connections = Some 200, npc_max_egress_bytes = Some 0,
       npc_allow_inbound = Some True \<rparr>,
     pc_filesystem = Some \<lparr> fpc_max_open_fds = Some 128, fpc_max_fs_write_bytes = Some 0,
       fpc_max_fs_read_bytes = Some 0, fpc_allow_file_create = Some False,
       fpc_allow_file_delete = Some False, fpc_allowed_paths = Some [] \<rparr> \<rparr>"
| "to_config Unrestricted = \<lparr>
     pc_network = Some \<lparr> npc_allow_outbound_tcp = Some True, npc_allow_outbound_udp = Some True,
       npc_allow_dns = Some True, npc_allowed_cidrs = None, npc_denied_cidrs = None,
       npc_max_outbound_connections = None, npc_max_egress_bytes = Some 0,
       npc_allow_inbound = Some True \<rparr>,
     pc_filesystem = Some \<lparr> fpc_max_open_fds = None, fpc_max_fs_write_bytes = Some 0,
       fpc_max_fs_read_bytes = Some 0, fpc_allow_file_create = Some True,
       fpc_allow_file_delete = Some True, fpc_allowed_paths = Some [''/''] \<rparr> \<rparr>"

section \<open>What resolution guarantees\<close>

definition path_ok :: "string \<Rightarrow> bool" where
  "path_ok p \<longleftrightarrow> str_trim p \<noteq> [] \<and> path_is_absolute (str_trim p)"

definition filesystem_policy_ok :: "filesystem_policy \<Rightarrow> bool" where
  "filesystem_policy_ok f \<longleftrightarrow> 0 < fp_max_open_fds f \<and> list_all path_ok (fp_allowed_paths f) \<and>
     (0 < fp_max_fs_write_bytes f \<longrightarrow>
        fp_allowed_paths f \<noteq> [] \<and> (fp_allow_file_create f \<or> fp_allow_file_delete f))"

definition network_policy_ok :: "(string \<Rightarrow> 'net option) \<Rightarrow> u16 \<Rightarrow> network_policy \<Rightarrow> bool" where
  "network_policy_ok parse port n \<longleftrightarrow> np_allowed_bind_ports n = [port] \<and>
     0 < np_max_outbound_connections n \<and>
     list_all (\<lambda>c. parse c \<noteq> None) (np_allowed_cidrs n) \<and>
     list_all (\<lambda>c. parse c \<noteq> None) (np_denied_cidrs n)"

definition instance_policy_ok :: "(string \<Rightarrow> 'net option) \<Rightarrow> u16 \<Rightarrow> instance_policy \<Rightarrow> bool" where
  "instance_policy_ok parse port p \<longleftrightarrow>
     network_policy_ok parse port (ip_network p) \<and> filesystem_policy_ok (ip_filesystem p)"

text \<open>The policy a configuration asks for: its own values, and the defaults where it has none.\<close>

definition requested_network :: "network_policy_config option \<Rightarrow> u16 \<Rightarrow> network_policy" where
  "requested_network cfg port =
     (case cfg of None \<Rightarrow> network_policy_default\<lparr> np_allowed_bind_ports := [port] \<rparr>
      | Some c \<Rightarrow> \<lparr>
          np_allow_outbound_tcp = unwrap_or (npc_allow_outbound_tcp c) True,
          np_allow_outbound_udp = unwrap_or (npc_allow_outbound_udp c) False,
          np_allow_dns = unwrap_or (npc_allow_dns c) True,
          np_allowed_cidrs = unwrap_or (npc_allowed_cidrs c) [],
          np_denied_cidrs = unwrap_or (npc_denied_cidrs c) [],
          np_max_outbound_connections = unwrap_or (npc_max_outbound_connections c) 100,
          np_max_egress_bytes = unwrap_or (npc_max_egress_bytes c) 0,
          np_allowed_bind_ports = [port],
          np_allow_inbound = unwrap_or (npc_allow_inbound c) True \<rparr>)"

definition requested_filesystem :: "filesystem_policy_config option \<Rightarrow> filesystem_policy" where
  "requested_filesystem cfg =
     (case cfg of None \<Rightarrow> filesystem_policy_default
      | Some c \<Rightarrow> \<lparr>
          fp_max_open_fds = unwrap_or (fpc_max_open_fds c) 64,
          fp_max_fs_write_bytes = unwrap_or (fpc_max_fs_write_bytes c) 0,
          fp_max_fs_read_bytes = unwrap_or (fpc_max_fs_read_bytes c) 0,
          fp_allow_file_create = unwrap_or (fpc_allow_file_create c) False,
          fp_allow_file_delete = unwrap_or (fpc_allow_file_delete c) False,
          fp_allowed_paths = unwrap_or (fpc_allowed_paths c) [] \<rparr>)"

lemma unit_result_cases: "(r :: ('e, unit) result) = Inr () \<or> (\<exists>e. r = Inl e)"
  by (cases r) auto

lemma validate_cidrs_Ok_iff: "validate_cidrs parse cs = Inr () \<longleftrightarrow> list_all (\<lambda>c. parse c \<noteq> None) cs"
  by (induction cs) auto

lemma validate_paths_Ok_iff: "validate_paths ps = Inr () \<longleftrightarrow> list_all path_ok ps"
  by (induction ps) (auto simp: path_ok_def)

lemma validate_filesystem_policy_Ok_iff:
  "0 < fp_max_open_fds f \<Longrightarrow> validate_filesystem_policy f = Inr () \<longleftrightarrow> filesystem_policy_ok f"
  by (auto simp: validate_filesystem_policy_def filesystem_policy_ok_def try_then_Ok_iff
      validate_paths_Ok_iff Let_def)

lemma word_gt_0_iff: "(0 :: 'a::len word) < w \<longleftrightarrow> w \<noteq> 0"
  by (simp add: word_gt_0)

lemma resolve_network_Ok_iff:
  "resolve_network parse cfg port = Inr n \<longleftrightarrow>
     n = requested_network cfg port \<and> network_policy_ok parse port n"
proof (cases cfg)
  case None
  then show ?thesis
    by (auto simp: resolve_network_def requested_network_def network_policy_ok_def
        network_policy_default_def)
next
  case (Some c)
  have cidrs: "validate_optional_cidrs parse o' = Inr u \<longleftrightarrow> list_all (\<lambda>c. parse c \<noteq> None) (unwrap_or o' [])"
    for o' :: "string list option" and u
    by (cases u) (auto simp: validate_optional_cidrs_def validate_cidrs_Ok_iff split: option.splits)
  have limit: "0 < unwrap_or (npc_max_outbound_connections c) 100 \<longleftrightarrow>
      npc_max_outbound_connections c \<noteq> Some 0"
    by (cases "npc_max_outbound_connections c") (auto simp: word_gt_0_iff)
  show ?thesis
    by (auto simp: Some resolve_network_def requested_network_def network_policy_ok_def Let_def
        network_policy_default_def try_then_Ok_iff cidrs limit split: if_splits)
qed

lemma resolve_filesystem_Ok_iff:
  "resolve_filesystem cfg = Inr f \<longleftrightarrow> f = requested_filesystem cfg \<and> filesystem_policy_ok f"
proof (cases cfg)
  case None
  then show ?thesis
    by (auto simp: resolve_filesystem_def requested_filesystem_def try_then_Ok_iff Let_def
        validate_filesystem_policy_Ok_iff filesystem_policy_default_def)
next
  case (Some c)
  let ?f = "requested_filesystem (Some c)"
  have limit: "0 < fp_max_open_fds ?f \<longleftrightarrow> fpc_max_open_fds c \<noteq> Some 0"
    by (cases "fpc_max_open_fds c") (auto simp: requested_filesystem_def word_gt_0_iff)
  have "resolve_filesystem cfg = (if fpc_max_open_fds c = Some 0 then Inl ZeroOpenFds
      else try_then (validate_filesystem_policy ?f) (\<lambda>_. Inr ?f))"
    by (simp add: Some resolve_filesystem_def requested_filesystem_def filesystem_policy_default_def
        Let_def)
  then show ?thesis
    using limit Some
    by (auto simp: try_then_Ok_iff validate_filesystem_policy_Ok_iff filesystem_policy_ok_def)
qed

section \<open>Properties\<close>

text \<open>
  (C6) Resolution is exact: \<open>PolicyConfig::resolve\<close> succeeds if and only if the policy the
  configuration asks for (its own values, the platform defaults elsewhere, the assigned port as the
  only bind port) is well-formed, and then returns precisely that policy. Well-formed means: every CIDR parses,
  the connection and the descriptor limit are positive, every preopen path is absolute once surrounding white space is
  removed, and a write limit comes with a path and a right to create or delete files. The paths of the
  policy are those of the configuration, white space included.
\<close>

theorem policy_resolve_exact:
  "policy_resolve parse cfg port = Inr p \<longleftrightarrow>
     p = \<lparr> ip_network = requested_network (pc_network cfg) port,
           ip_filesystem = requested_filesystem (pc_filesystem cfg) \<rparr> \<and>
     instance_policy_ok parse port p"
  by (auto simp: policy_resolve_def try_then_Ok_iff resolve_network_Ok_iff resolve_filesystem_Ok_iff
      instance_policy_ok_def)

text \<open>
  The test of a preopen path is on the trimmed path and the policy keeps the path as written, so a policy
  can resolve with a path that is relative.
\<close>

theorem untrimmed_path_resolves:
  "\<exists>p. policy_resolve (parse :: string \<Rightarrow> 'net option) \<lparr> pc_network = None, pc_filesystem = Some \<lparr> fpc_max_open_fds = None,
       fpc_max_fs_write_bytes = None, fpc_max_fs_read_bytes = None, fpc_allow_file_create = None,
       fpc_allow_file_delete = None, fpc_allowed_paths = Some ['' /tmp''] \<rparr> \<rparr> 8080 = Inr p \<and>
     fp_allowed_paths (ip_filesystem p) = ['' /tmp''] \<and> \<not> path_is_absolute '' /tmp''"
proof -
  have "path_ok '' /tmp''" "\<not> path_is_absolute '' /tmp''"
    by (simp_all add: path_ok_def str_trim_def is_whitespace_def path_is_absolute_def starts_with_def)
  then show ?thesis
    by (simp add: policy_resolve_def try_then_Ok_iff resolve_network_Ok_iff resolve_filesystem_Ok_iff
        network_policy_ok_def filesystem_policy_ok_def requested_network_def requested_filesystem_def network_policy_default_def)
qed

text \<open>
  Every predefined profile resolves, for any CIDR parser that accepts the three private ranges
  the database profile names; the static-site profile has neither outbound network nor DNS and
  cannot write, only the unrestricted profile may create files, and the background worker is the
  only one that refuses inbound connections.
\<close>

theorem profiles_resolve:
  assumes "list_all (\<lambda>c. parse c \<noteq> None) [''10.0.0.0/8'', ''172.16.0.0/12'', ''192.168.0.0/16'']"
  shows "\<exists>p. policy_resolve parse (to_config prof) port = Inr p \<and>
    (np_allow_outbound_tcp (ip_network p) \<longleftrightarrow> prof \<noteq> StaticSite) \<and>
    (np_allow_outbound_udp (ip_network p) \<longleftrightarrow> prof = Unrestricted) \<and>
    (np_allow_dns (ip_network p) \<longleftrightarrow> prof \<noteq> StaticSite) \<and>
    (np_allow_inbound (ip_network p) \<longleftrightarrow> prof \<noteq> BackgroundWorker) \<and>
    (fp_allow_file_create (ip_filesystem p) \<longleftrightarrow> prof = Unrestricted) \<and>
    (np_allowed_cidrs (ip_network p) \<noteq> [] \<longleftrightarrow> prof = DatabaseProxy)"
proof -
  have trim: "str_trim ''/static'' = ''/static''" "str_trim ''/'' = ''/''"
    by (simp_all add: str_trim_def is_whitespace_def)
  have "instance_policy_ok parse port
      \<lparr> ip_network = requested_network (pc_network (to_config prof)) port,
        ip_filesystem = requested_filesystem (pc_filesystem (to_config prof)) \<rparr>"
    using assms
    by (cases prof)
      (simp_all add: instance_policy_ok_def network_policy_ok_def filesystem_policy_ok_def
        requested_network_def requested_filesystem_def path_ok_def trim path_is_absolute_def
        starts_with_def)
  then have "policy_resolve parse (to_config prof) port = Inr
      \<lparr> ip_network = requested_network (pc_network (to_config prof)) port,
        ip_filesystem = requested_filesystem (pc_filesystem (to_config prof)) \<rparr>"
    by (auto simp: policy_resolve_def try_then_Ok_iff resolve_network_Ok_iff resolve_filesystem_Ok_iff
        instance_policy_ok_def)
  then show ?thesis
    by (cases prof) (simp_all add: requested_network_def requested_filesystem_def)
qed

theorem profiles_resolve_witness:
  "\<exists>p. policy_resolve (\<lambda>s. if s = [] then None else Some s) (to_config DatabaseProxy) 8080 = Inr p \<and>
     np_allowed_cidrs (ip_network p) \<noteq> []"
  using profiles_resolve [of "\<lambda>s. if s = [] then None else Some s" DatabaseProxy 8080] by auto

end
