(* ===== verification/Net_Addr.thy ===== *)
theory Net_Addr
  imports Prelude
begin

text \<open>
  Internet addresses as the sources use them from the Rust standard library: \<open>std::net::IpAddr\<close>, its
  parser (the IPv4 and IPv6 readers of \<open>core::net\<close>, which look at the input from the left and put
  back what a failed attempt has read) and the loopback test.
\<close>

section \<open>Addresses and their parser\<close>

datatype ip_addr = V4 "32 word" | V6 "128 word"

definition is_loopback :: "ip_addr \<Rightarrow> bool" where
  "is_loopback a = (case a of V4 w \<Rightarrow> w div 2 ^ 24 = 127 | V6 w \<Rightarrow> w = 1)"

text \<open>\<open>char::to_digit\<close> for the radixes 10 and 16.\<close>

definition to_digit :: "nat \<Rightarrow> char \<Rightarrow> nat option" where
  "to_digit radix c =
     (let n = (of_char c :: nat);
          d = (if 48 \<le> n \<and> n \<le> 57 then Some (n - 48)
               else if 97 \<le> n \<and> n \<le> 102 then Some (n - 87)
               else if 65 \<le> n \<and> n \<le> 70 then Some (n - 55) else None)
      in case d of None \<Rightarrow> None | Some k \<Rightarrow> if k < radix then Some k else None)"

text \<open>The digits at the front: their value, their number, and the rest.\<close>

fun read_digits :: "nat \<Rightarrow> nat \<Rightarrow> nat \<Rightarrow> string \<Rightarrow> nat \<times> nat \<times> string" where
  "read_digits radix acc n [] = (acc, n, [])"
| "read_digits radix acc n (c # cs) =
     (case to_digit radix c of None \<Rightarrow> (acc, n, c # cs)
      | Some d \<Rightarrow> read_digits radix (acc * radix + d) (Suc n) cs)"

definition read_number :: "nat \<Rightarrow> nat \<Rightarrow> bool \<Rightarrow> nat \<Rightarrow> string \<Rightarrow> (nat \<times> string) option" where
  "read_number radix max_digits allow_zero_prefix bound s =
     (case read_digits radix 0 0 s of (v, n, rest) \<Rightarrow>
        if n > max_digits \<or> n = 0 then None
        else if \<not> allow_zero_prefix \<and> starts_with s ''0'' \<and> n > 1 then None
        else if v < bound then Some (v, rest) else None)"

text \<open>\<open>read_separator\<close>: every item but the first is preceded by the separator.\<close>

definition read_separator :: "char \<Rightarrow> nat \<Rightarrow> (string \<Rightarrow> ('a \<times> string) option) \<Rightarrow> string \<Rightarrow> ('a \<times> string) option" where
  "read_separator sep i p s =
     (if i = 0 then p s
      else (case s of [] \<Rightarrow> None | c # cs \<Rightarrow> if c = sep then p cs else None))"

definition read_octet :: "nat \<Rightarrow> string \<Rightarrow> (nat \<times> string) option" where
  "read_octet i = read_separator CHR ''.'' i (read_number 10 3 False 256)"

definition read_ipv4_addr :: "string \<Rightarrow> (32 word \<times> string) option" where
  "read_ipv4_addr s =
     (case read_octet 0 s of None \<Rightarrow> None | Some (a, s1) \<Rightarrow>
      case read_octet 1 s1 of None \<Rightarrow> None | Some (b, s2) \<Rightarrow>
      case read_octet 2 s2 of None \<Rightarrow> None | Some (c, s3) \<Rightarrow>
      case read_octet 3 s3 of None \<Rightarrow> None | Some (d, s4) \<Rightarrow>
        Some (of_nat (((a * 256 + b) * 256 + c) * 256 + d), s4))"

text \<open>
  Groups of an IPv6 address from position \<open>i\<close> up to \<open>limit\<close>: the groups read, whether they end in an
  embedded IPv4 address, and the rest.
\<close>

function read_groups :: "nat \<Rightarrow> nat \<Rightarrow> string \<Rightarrow> nat list \<times> bool \<times> string" where
  "read_groups limit i s =
     (if limit \<le> i then ([], False, s)
      else (case (if Suc i < limit then read_separator CHR '':'' i read_ipv4_addr s else None) of
          Some (w, rest) \<Rightarrow> ([unat (w div 2 ^ 16), unat (w mod 2 ^ 16)], True, rest)
        | None \<Rightarrow>
            (case read_separator CHR '':'' i (read_number 16 4 True 65536) s of
               None \<Rightarrow> ([], False, s)
             | Some (g, rest) \<Rightarrow>
                 (case read_groups limit (Suc i) rest of (gs, v4, r) \<Rightarrow> (g # gs, v4, r)))))"
  by pat_completeness auto
termination
  by (relation "measure (\<lambda>(limit, i, s). limit - i)") auto

definition ipv6_of_groups :: "nat list \<Rightarrow> 128 word" where
  "ipv6_of_groups gs = of_nat (foldl (\<lambda>acc g. acc * 65536 + g) 0 gs)"

definition read_ipv6_addr :: "string \<Rightarrow> (128 word \<times> string) option" where
  "read_ipv6_addr s =
     (case read_groups 8 0 s of (head, head_v4, rest) \<Rightarrow>
        if length head = 8 then Some (ipv6_of_groups head, rest)
        else if head_v4 then None
        else if \<not> starts_with rest ''::'' then None
        else (case read_groups (8 - (length head + 1)) 0 (drop 2 rest) of (tail, _, rest') \<Rightarrow>
          Some (ipv6_of_groups (head @ replicate (8 - length head - length tail) 0 @ tail), rest')))"

definition parse_ip :: "string \<Rightarrow> ip_addr option" where
  "parse_ip s =
     (case read_ipv4_addr s of
        Some (w, rest) \<Rightarrow> if rest = [] then Some (V4 w) else None
      | None \<Rightarrow> (case read_ipv6_addr s of
            Some (w, rest) \<Rightarrow> if rest = [] then Some (V6 w) else None
          | None \<Rightarrow> None))"

section \<open>Printing and round trip\<close>

text \<open>\<open>Display\<close> of an IPv4 address.\<close>

definition digit_char :: "nat \<Rightarrow> char" where
  "digit_char d = char_of (48 + d)"

definition show_octet :: "nat \<Rightarrow> string" where
  "show_octet n =
     (if n < 10 then [digit_char n]
      else if n < 100 then [digit_char (n div 10), digit_char (n mod 10)]
      else [digit_char (n div 100), digit_char (n div 10 mod 10), digit_char (n mod 10)])"

definition show_ipv4 :: "32 word \<Rightarrow> string" where
  "show_ipv4 w = str_join ''.'' (map (\<lambda>k. show_octet (unat w div 256 ^ k mod 256)) [3, 2, 1, 0])"

lemma to_digit_digit_char: "d < 10 \<Longrightarrow> to_digit 10 (digit_char d) = Some d"
  by (simp add: to_digit_def digit_char_def)

lemma to_digit_dot: "to_digit 10 CHR ''.'' = None"
  by (simp add: to_digit_def)

lemma digit_char_zero: "d < 10 \<Longrightarrow> digit_char d = CHR ''0'' \<longleftrightarrow> d = 0"
proof
  assume "d < 10" and "digit_char d = CHR ''0''"
  then have "to_digit 10 CHR ''0'' = Some d"
    using to_digit_digit_char by metis
  then show "d = 0"
    by (simp add: to_digit_def)
qed (simp add: digit_char_def char_of_eq_iff)

lemma digit_char_nonzero: "d < 10 \<Longrightarrow> d \<noteq> 0 \<Longrightarrow> CHR ''0'' \<noteq> digit_char d"
  using digit_char_zero [of d] by auto

definition ends_number :: "string \<Rightarrow> bool" where
  "ends_number rest \<longleftrightarrow> rest = [] \<or> hd rest = CHR ''.''"

lemma read_digits_stop: "ends_number rest \<Longrightarrow> read_digits 10 acc n rest = (acc, n, rest)"
  by (cases rest) (auto simp: ends_number_def to_digit_dot)

lemma read_number_show_octet:
  assumes "n < 256" and "ends_number rest"
  shows "read_number 10 3 False 256 (show_octet n @ rest) = Some (n, rest)"
proof -
  consider "n < 10" | "10 \<le> n" "n < 100" | "100 \<le> n" by linarith
  then show ?thesis
  proof cases
    case 1
    then show ?thesis
      by (simp add: read_number_def show_octet_def to_digit_digit_char read_digits_stop assms)
  next
    case 2
    then have "n div 10 < 10" "n mod 10 < 10" "n div 10 \<noteq> 0" by auto
    with 2 assms show ?thesis
      by (simp add: read_number_def show_octet_def to_digit_digit_char read_digits_stop
          starts_with_def digit_char_nonzero)
  next
    case 3
    then have "n div 100 < 10" "n div 10 mod 10 < 10" "n mod 10 < 10" "n div 100 \<noteq> 0"
      using assms(1) by auto
    moreover have "(n div 100 * 10 + n div 10 mod 10) * 10 + n mod 10 = n"
      using div_mult_mod_eq [of n 10] div_mult_mod_eq [of "n div 10" 10]
      by (simp add: div_mult2_eq [symmetric])
    ultimately show ?thesis
      using 3 assms
      by (simp add: read_number_def show_octet_def to_digit_digit_char read_digits_stop
          starts_with_def digit_char_nonzero)
  qed
qed

lemma read_octet_show:
  "n < 256 \<Longrightarrow> ends_number rest \<Longrightarrow> read_octet 0 (show_octet n @ rest) = Some (n, rest)"
  "n < 256 \<Longrightarrow> ends_number rest \<Longrightarrow> 0 < i \<Longrightarrow>
     read_octet i (CHR ''.'' # show_octet n @ rest) = Some (n, rest)"
  by (simp_all add: read_octet_def read_separator_def read_number_show_octet)

lemma octets_sum:
  fixes w :: nat
  assumes "w < 4294967296"
  shows "((w div 16777216 mod 256 * 256 + w div 65536 mod 256) * 256 + w div 256 mod 256) * 256 +
    w mod 256 = w"
proof -
  have "w div 16777216 mod 256 = w div 16777216"
    using assms by (simp add: less_mult_imp_div_less)
  moreover have "w div 16777216 * 256 + w div 65536 mod 256 = w div 65536"
    using div_mult_mod_eq [of "w div 65536" 256] by (simp add: div_mult2_eq [symmetric])
  moreover have "w div 65536 * 256 + w div 256 mod 256 = w div 256"
    using div_mult_mod_eq [of "w div 256" 256] by (simp add: div_mult2_eq [symmetric])
  ultimately show ?thesis
    by (metis div_mult_mod_eq)
qed

lemma parse_show_ipv4: "parse_ip (show_ipv4 w) = Some (V4 w)"
proof -
  let ?n = "unat w"
  have n: "?n < 4294967296"
    using unsigned_less [of w, where 'a = nat] by simp
  have last: "read_octet 3 (CHR ''.'' # show_octet (?n mod 256)) = Some (?n mod 256, [])"
    using read_octet_show(2) [of "?n mod 256" "[]" 3] by (simp add: ends_number_def)
  have "read_ipv4_addr (show_ipv4 w) = Some (of_nat (((?n div 16777216 mod 256 * 256 +
      ?n div 65536 mod 256) * 256 + ?n div 256 mod 256) * 256 + ?n mod 256), [])"
    by (simp add: read_ipv4_addr_def show_ipv4_def read_octet_show ends_number_def last
        del: of_nat_add of_nat_mult)
  then show ?thesis
    unfolding octets_sum [OF n] by (simp add: parse_ip_def)
qed

end
