(* ===== verification/Policy_Tracker.thy ===== *)
theory Policy_Tracker
  imports Policy Net_Addr
begin

text \<open>
  Enforcement of an instance policy (\<open>crates/runtime/src/policy_tracker\<close>): the counters, the
  reasons a check is denied, and every check and record operation of \<open>PolicyEnforcer\<close>. An operation
  is a function from the enforcer to its answer and the enforcer with updated counters; the
  compare-exchange loops appear here as the single atomic update they perform when they succeed, and
  theory \<open>Policy_Concurrency\<close> shows that interleaved loops do perform it. Values and networks of
  the crate \<open>ipnet\<close> are the type \<open>'net\<close> with the parameters \<open>net_parse\<close> and \<open>net_contains\<close>.
\<close>

section \<open>Counters, denials, enforcer\<close>

record policy_counters =
  outbound_connections_active :: u32
  outbound_connections_total :: u64
  egress_bytes :: u64
  dns_lookups_total :: u64
  inbound_connections_active :: u32
  current_memory_bytes :: u64
  memory_bytes_peak :: u64
  current_table_elements :: u32
  table_elements_peak :: u32
  open_fds :: u32
  open_fds_peak :: u32
  fd_open_total :: u64
  fs_write_bytes :: u64
  fs_read_bytes :: u64
  file_creates_total :: u64
  file_deletes_total :: u64
  connection_denied_total :: u64
  egress_denied_total :: u64
  fd_denied_total :: u64
  fs_write_denied_total :: u64
  bind_denied_total :: u64
  dns_denied_total :: u64
  memory_growth_denied_total :: u64
  table_growth_denied_total :: u64

definition policy_counters_new :: policy_counters where
  "policy_counters_new = \<lparr>
     outbound_connections_active = 0, outbound_connections_total = 0, egress_bytes = 0,
     dns_lookups_total = 0, inbound_connections_active = 0, current_memory_bytes = 0,
     memory_bytes_peak = 0, current_table_elements = 0, table_elements_peak = 0, open_fds = 0,
     open_fds_peak = 0, fd_open_total = 0, fs_write_bytes = 0, fs_read_bytes = 0,
     file_creates_total = 0, file_deletes_total = 0, connection_denied_total = 0,
     egress_denied_total = 0, fd_denied_total = 0, fs_write_denied_total = 0,
     bind_denied_total = 0, dns_denied_total = 0, memory_growth_denied_total = 0,
     table_growth_denied_total = 0 \<rparr>"

text \<open>The destination of a denial is kept as an address; the source prints it.\<close>

datatype policy_denied =
    NetworkDisabled string
  | DestinationDenied ip_addr string
  | ConnectionLimitExceeded u32 u32
  | EgressLimitExceeded u64 u64 u64
  | DnsDisabled
  | BindDenied u16 "u16 list"
  | FdLimitExceeded u32 u32
  | FsWriteLimitExceeded u64 u64 u64
  | FileCreateDenied
  | FileDeleteDenied

record 'net policy_enforcer =
  policy :: instance_policy
  counters :: policy_counters
  local_outbound_connections_active :: u32
  allowed_cidrs_parsed :: "'net list"
  denied_cidrs_parsed :: "'net list"

abbreviation network_of :: "'net policy_enforcer \<Rightarrow> network_policy" where
  "network_of e \<equiv> ip_network (policy e)"

abbreviation filesystem_of :: "'net policy_enforcer \<Rightarrow> filesystem_policy" where
  "filesystem_of e \<equiv> ip_filesystem (policy e)"

definition upd_counters :: "(policy_counters \<Rightarrow> policy_counters) \<Rightarrow> 'net policy_enforcer \<Rightarrow> 'net policy_enforcer" where
  "upd_counters f e = e\<lparr> counters := f (counters e) \<rparr>"

definition parse_cidrs :: "(string \<Rightarrow> 'net option) \<Rightarrow> string list \<Rightarrow> 'net list" where
  "parse_cidrs net_parse cidrs = List.map_filter net_parse cidrs"

definition with_counters ::
  "(string \<Rightarrow> 'net option) \<Rightarrow> instance_policy \<Rightarrow> policy_counters \<Rightarrow> 'net policy_enforcer" where
  "with_counters net_parse pol cs = \<lparr> policy = pol, counters = cs,
     local_outbound_connections_active = 0,
     allowed_cidrs_parsed = parse_cidrs net_parse (np_allowed_cidrs (ip_network pol)),
     denied_cidrs_parsed = parse_cidrs net_parse (np_denied_cidrs (ip_network pol)) \<rparr>"

definition policy_enforcer_new :: "(string \<Rightarrow> 'net option) \<Rightarrow> instance_policy \<Rightarrow> 'net policy_enforcer" where
  "policy_enforcer_new net_parse pol = with_counters net_parse pol policy_counters_new"

definition update_peak :: "'a::len word \<Rightarrow> 'a word \<Rightarrow> 'a word" where
  "update_peak peak candidate = (if candidate \<le> peak then peak else candidate)"

definition reset_active_counters :: "'net policy_enforcer \<Rightarrow> 'net policy_enforcer" where
  "reset_active_counters e = upd_counters (\<lambda>c. c\<lparr> outbound_connections_active := 0,
     inbound_connections_active := 0, open_fds := 0 \<rparr>) (e\<lparr> local_outbound_connections_active := 0 \<rparr>)"

definition release_tracked_outbound_connections :: "'net policy_enforcer \<Rightarrow> 'net policy_enforcer" where
  "release_tracked_outbound_connections e =
     (let owned = local_outbound_connections_active e;
          e = e\<lparr> local_outbound_connections_active := 0 \<rparr>
      in if owned = 0 then e
         else upd_counters (\<lambda>c. c\<lparr> outbound_connections_active :=
                saturating_sub (outbound_connections_active c) owned \<rparr>) e)"

definition ip_in_cidrs :: "('net \<Rightarrow> ip_addr \<Rightarrow> bool) \<Rightarrow> ip_addr \<Rightarrow> 'net list \<Rightarrow> bool" where
  "ip_in_cidrs net_contains ip cidrs = list_ex (\<lambda>n. net_contains n ip) cidrs"

section \<open>Network checks\<close>

type_synonym 'net answer = "(policy_denied, unit) result \<times> 'net policy_enforcer"

definition deny_connection :: "policy_denied \<Rightarrow> 'net policy_enforcer \<Rightarrow> 'net answer" where
  "deny_connection d e = (Err d, upd_counters (\<lambda>c. c\<lparr> connection_denied_total :=
     connection_denied_total c + 1 \<rparr>) e)"

text \<open>The reservation loop: deny at the limit, otherwise take one slot.\<close>

definition reserve_slot :: "u32 \<Rightarrow> u32 \<Rightarrow> u32 option" where
  "reserve_slot limit current = (if limit \<le> current then None else Some (current + 1))"

definition check_outbound_tcp_connect ::
  "('net \<Rightarrow> ip_addr \<Rightarrow> bool) \<Rightarrow> ip_addr \<Rightarrow> 'net policy_enforcer \<Rightarrow> 'net answer" where
  "check_outbound_tcp_connect net_contains dest_ip e =
     (if \<not> np_allow_outbound_tcp (network_of e) then deny_connection (NetworkDisabled ''tcp'') e
      else if ip_in_cidrs net_contains dest_ip (denied_cidrs_parsed e)
        then deny_connection (DestinationDenied dest_ip ''destination in denied_cidrs'') e
      else if allowed_cidrs_parsed e \<noteq> [] \<and>
              \<not> ip_in_cidrs net_contains dest_ip (allowed_cidrs_parsed e)
        then deny_connection (DestinationDenied dest_ip ''destination not in allowed_cidrs'') e
      else
        (let limit = np_max_outbound_connections (network_of e);
             current = outbound_connections_active (counters e)
         in case reserve_slot limit current of
              None \<Rightarrow> deny_connection (ConnectionLimitExceeded current limit) e
            | Some v \<Rightarrow> (Ok (), upd_counters (\<lambda>c. c\<lparr> outbound_connections_active := v \<rparr>)
                (e\<lparr> local_outbound_connections_active :=
                     local_outbound_connections_active e + 1 \<rparr>))))"

definition record_outbound_connect :: "'net policy_enforcer \<Rightarrow> 'net policy_enforcer" where
  "record_outbound_connect e = upd_counters (\<lambda>c. c\<lparr> outbound_connections_total :=
     outbound_connections_total c + 1 \<rparr>) e"

definition record_outbound_disconnect :: "'net policy_enforcer \<Rightarrow> 'net policy_enforcer" where
  "record_outbound_disconnect e =
     (let local_prev = local_outbound_connections_active e;
          e = e\<lparr> local_outbound_connections_active := local_prev - 1 \<rparr>
      in if local_prev = 0 then e\<lparr> local_outbound_connections_active := 0 \<rparr>
         else
           (let prev = outbound_connections_active (counters e);
                e = upd_counters (\<lambda>c. c\<lparr> outbound_connections_active := prev - 1 \<rparr>) e
            in if prev = 0 then upd_counters (\<lambda>c. c\<lparr> outbound_connections_active := 0 \<rparr>) e
               else e))"

definition check_egress :: "u64 \<Rightarrow> 'net policy_enforcer \<Rightarrow> 'net answer" where
  "check_egress additional_bytes e =
     (let limit = np_max_egress_bytes (network_of e); current = egress_bytes (counters e)
      in if limit = 0 then (Ok (), e)
         else if current + additional_bytes > limit
         then (Err (EgressLimitExceeded current additional_bytes limit),
               upd_counters (\<lambda>c. c\<lparr> egress_denied_total := egress_denied_total c + 1 \<rparr>) e)
         else (Ok (), e))"

definition record_egress :: "u64 \<Rightarrow> 'net policy_enforcer \<Rightarrow> 'net policy_enforcer" where
  "record_egress bytes e = upd_counters (\<lambda>c. c\<lparr> egress_bytes := egress_bytes c + bytes \<rparr>) e"

text \<open>One pass of the byte-quota loops: deny when the new total is above the limit.\<close>

definition add_bytes :: "u64 \<Rightarrow> u64 \<Rightarrow> u64 \<Rightarrow> u64 option" where
  "add_bytes limit bytes current =
     (let new_val = current + bytes in if new_val > limit then None else Some new_val)"

definition check_and_record_egress :: "u64 \<Rightarrow> 'net policy_enforcer \<Rightarrow> 'net answer" where
  "check_and_record_egress bytes e =
     (let limit = np_max_egress_bytes (network_of e); current = egress_bytes (counters e)
      in if limit = 0
         then (Ok (), upd_counters (\<lambda>c. c\<lparr> egress_bytes := egress_bytes c + bytes \<rparr>) e)
         else (case add_bytes limit bytes current of
                 None \<Rightarrow> (Err (EgressLimitExceeded current bytes limit),
                   upd_counters (\<lambda>c. c\<lparr> egress_denied_total := egress_denied_total c + 1 \<rparr>) e)
               | Some v \<Rightarrow> (Ok (), upd_counters (\<lambda>c. c\<lparr> egress_bytes := v \<rparr>) e)))"

definition check_dns_lookup :: "'net policy_enforcer \<Rightarrow> 'net answer" where
  "check_dns_lookup e =
     (if \<not> np_allow_dns (network_of e)
      then (Err DnsDisabled, upd_counters (\<lambda>c. c\<lparr> dns_denied_total := dns_denied_total c + 1 \<rparr>) e)
      else (Ok (), upd_counters (\<lambda>c. c\<lparr> dns_lookups_total := dns_lookups_total c + 1 \<rparr>) e))"

definition deny_bind :: "policy_denied \<Rightarrow> 'net policy_enforcer \<Rightarrow> 'net answer" where
  "deny_bind d e = (Err d, upd_counters (\<lambda>c. c\<lparr> bind_denied_total := bind_denied_total c + 1 \<rparr>) e)"

definition check_bind :: "u16 \<Rightarrow> 'net policy_enforcer \<Rightarrow> 'net answer" where
  "check_bind port e =
     (if List.member (np_allowed_bind_ports (network_of e)) port then (Ok (), e)
      else deny_bind (BindDenied port (np_allowed_bind_ports (network_of e))) e)"

definition check_tcp_bind :: "u16 \<Rightarrow> 'net policy_enforcer \<Rightarrow> 'net answer" where
  "check_tcp_bind port e =
     (if \<not> np_allow_inbound (network_of e) then deny_bind (NetworkDisabled ''tcp_bind'') e
      else check_bind port e)"

section \<open>Filesystem checks\<close>

definition check_fd_open :: "'net policy_enforcer \<Rightarrow> 'net answer" where
  "check_fd_open e =
     (let limit = fp_max_open_fds (filesystem_of e); current = open_fds (counters e)
      in case reserve_slot limit current of
           None \<Rightarrow> (Err (FdLimitExceeded current limit),
             upd_counters (\<lambda>c. c\<lparr> fd_denied_total := fd_denied_total c + 1 \<rparr>) e)
         | Some v \<Rightarrow> (Ok (), upd_counters (\<lambda>c. c\<lparr> open_fds := v,
             open_fds_peak := update_peak (open_fds_peak c) v \<rparr>) e))"

definition record_fd_open :: "'net policy_enforcer \<Rightarrow> 'net policy_enforcer" where
  "record_fd_open e = upd_counters (\<lambda>c. c\<lparr> fd_open_total := fd_open_total c + 1 \<rparr>) e"

definition record_fd_close :: "'net policy_enforcer \<Rightarrow> 'net policy_enforcer" where
  "record_fd_close e =
     (let prev = open_fds (counters e);
          e = upd_counters (\<lambda>c. c\<lparr> open_fds := prev - 1 \<rparr>) e
      in if prev = 0 then upd_counters (\<lambda>c. c\<lparr> open_fds := 0 \<rparr>) e else e)"

definition check_fs_write :: "u64 \<Rightarrow> 'net policy_enforcer \<Rightarrow> 'net answer" where
  "check_fs_write additional_bytes e =
     (let limit = fp_max_fs_write_bytes (filesystem_of e); current = fs_write_bytes (counters e)
      in if limit = 0 then (Ok (), e)
         else if current + additional_bytes > limit
         then (Err (FsWriteLimitExceeded current additional_bytes limit),
               upd_counters (\<lambda>c. c\<lparr> fs_write_denied_total := fs_write_denied_total c + 1 \<rparr>) e)
         else (Ok (), e))"

definition record_fs_write :: "u64 \<Rightarrow> 'net policy_enforcer \<Rightarrow> 'net policy_enforcer" where
  "record_fs_write bytes e = upd_counters (\<lambda>c. c\<lparr> fs_write_bytes := fs_write_bytes c + bytes \<rparr>) e"

definition check_and_record_fs_write :: "u64 \<Rightarrow> 'net policy_enforcer \<Rightarrow> 'net answer" where
  "check_and_record_fs_write bytes e =
     (let limit = fp_max_fs_write_bytes (filesystem_of e); current = fs_write_bytes (counters e)
      in if limit = 0
         then (Ok (), upd_counters (\<lambda>c. c\<lparr> fs_write_bytes := fs_write_bytes c + bytes \<rparr>) e)
         else (case add_bytes limit bytes current of
                 None \<Rightarrow> (Err (FsWriteLimitExceeded current bytes limit),
                   upd_counters (\<lambda>c. c\<lparr> fs_write_denied_total := fs_write_denied_total c + 1 \<rparr>) e)
               | Some v \<Rightarrow> (Ok (), upd_counters (\<lambda>c. c\<lparr> fs_write_bytes := v \<rparr>) e)))"

definition check_file_create :: "'net policy_enforcer \<Rightarrow> 'net answer" where
  "check_file_create e =
     (if \<not> fp_allow_file_create (filesystem_of e) then (Err FileCreateDenied, e)
      else (Ok (), upd_counters (\<lambda>c. c\<lparr> file_creates_total := file_creates_total c + 1 \<rparr>) e))"

definition check_file_delete :: "'net policy_enforcer \<Rightarrow> 'net answer" where
  "check_file_delete e =
     (if \<not> fp_allow_file_delete (filesystem_of e) then (Err FileDeleteDenied, e)
      else (Ok (), upd_counters (\<lambda>c. c\<lparr> file_deletes_total := file_deletes_total c + 1 \<rparr>) e))"

section \<open>Contracts\<close>

text \<open>
  A byte quota answers a request and counts the granted bytes; a slot pool hands out and takes back
  slots. The calls below drive either through a sequence of requests.
\<close>

definition egress_request :: "u64 \<Rightarrow> 'net policy_enforcer \<Rightarrow> bool \<times> 'net policy_enforcer" where
  "egress_request b e = (case check_and_record_egress b e of (r, e') \<Rightarrow> (is_ok r, e'))"

definition fs_write_request :: "u64 \<Rightarrow> 'net policy_enforcer \<Rightarrow> bool \<times> 'net policy_enforcer" where
  "fs_write_request b e = (case check_and_record_fs_write b e of (r, e') \<Rightarrow> (is_ok r, e'))"

fun quota_run :: "(u64 \<Rightarrow> 's \<Rightarrow> bool \<times> 's) \<Rightarrow> u64 list \<Rightarrow> 's \<Rightarrow> nat \<times> 's" where
  "quota_run request [] s = (0, s)"
| "quota_run request (b # bs) s =
     (case request b s of (granted, s1) \<Rightarrow>
      case quota_run request bs s1 of (n, s2) \<Rightarrow> ((if granted then unat b else 0) + n, s2))"

definition fd_reserve :: "'net policy_enforcer \<Rightarrow> bool \<times> 'net policy_enforcer" where
  "fd_reserve e = (case check_fd_open e of (r, e') \<Rightarrow> (is_ok r, e'))"

definition connection_reserve ::
  "('net \<Rightarrow> ip_addr \<Rightarrow> bool) \<Rightarrow> ip_addr \<Rightarrow> 'net policy_enforcer \<Rightarrow> bool \<times> 'net policy_enforcer" where
  "connection_reserve net_contains ip e =
     (case check_outbound_tcp_connect net_contains ip e of (r, e') \<Rightarrow> (is_ok r, e'))"

datatype slot_event = Reserve | Release

fun pool_run ::
  "('s \<Rightarrow> bool \<times> 's) \<Rightarrow> ('s \<Rightarrow> 's) \<Rightarrow> slot_event list \<Rightarrow> 's \<Rightarrow> bool list \<times> 's" where
  "pool_run reserve release [] s = ([], s)"
| "pool_run reserve release (Reserve # es) s =
     (case reserve s of (granted, s1) \<Rightarrow>
      case pool_run reserve release es s1 of (gs, s2) \<Rightarrow> (granted # gs, s2))"
| "pool_run reserve release (Release # es) s = pool_run reserve release es (release s)"

text \<open>The abstract counter both pools promise to be.\<close>

fun slots_run :: "nat \<Rightarrow> slot_event list \<Rightarrow> nat \<Rightarrow> bool list \<times> nat" where
  "slots_run cap [] n = ([], n)"
| "slots_run cap (Reserve # es) n =
     (case slots_run cap es (if n < cap then Suc n else n) of (gs, m) \<Rightarrow> ((n < cap) # gs, m))"
| "slots_run cap (Release # es) n = slots_run cap es (n - 1)"

lemma slots_run_bound: "n \<le> cap \<Longrightarrow> snd (slots_run cap es n) \<le> cap"
  by (induction cap es n rule: slots_run.induct) (auto split: prod.splits)

locale byte_quota =
  fixes request :: "u64 \<Rightarrow> 's \<Rightarrow> bool \<times> 's"
    and used :: "'s \<Rightarrow> u64"
    and limit :: "'s \<Rightarrow> u64"
  assumes granted_iff: "limit s \<noteq> 0 \<Longrightarrow> fst (request b s) \<longleftrightarrow> used s + b \<le> limit s"
    and used_request: "used (snd (request b s)) = (if fst (request b s) then used s + b else used s)"
    and limit_request: "limit (snd (request b s)) = limit s"
begin

lemma request_no_wrap:
  assumes "limit s \<noteq> 0" and "used s \<le> limit s" and "unat (limit s) + unat b < 2 ^ 64"
  shows "fst (request b s) \<longleftrightarrow> unat (used s) + unat b \<le> unat (limit s)"
    and "unat (used (snd (request b s))) =
      unat (used s) + (if fst (request b s) then unat b else 0)"
    and "used (snd (request b s)) \<le> limit (snd (request b s))"
proof -
  have sum: "unat (used s + b) = unat (used s) + unat b"
    using assms(2,3) by (simp add: unat_word_ariths word_le_nat_alt)
  with assms show "fst (request b s) \<longleftrightarrow> unat (used s) + unat b \<le> unat (limit s)"
    and "unat (used (snd (request b s))) = unat (used s) + (if fst (request b s) then unat b else 0)"
    and "used (snd (request b s)) \<le> limit (snd (request b s))"
    by (simp_all add: granted_iff used_request limit_request word_le_nat_alt)
qed

lemma run_within_limit:
  assumes "limit s \<noteq> 0" and "used s \<le> limit s"
    and "list_all (\<lambda>b. unat (limit s) + unat b < 2 ^ 64) bs"
  shows "unat (used (snd (quota_run request bs s))) =
           unat (used s) + fst (quota_run request bs s) \<and>
         used (snd (quota_run request bs s)) \<le> limit s \<and>
         limit (snd (quota_run request bs s)) = limit s"
  using assms
proof (induction bs arbitrary: s)
  case (Cons b bs)
  let ?s = "snd (request b s)"
  note step = request_no_wrap [of s b] limit_request [of b s]
  have "unat (used (snd (quota_run request bs ?s))) = unat (used ?s) + fst (quota_run request bs ?s) \<and>
         used (snd (quota_run request bs ?s)) \<le> limit ?s \<and>
         limit (snd (quota_run request bs ?s)) = limit ?s"
    using Cons.prems step by (intro Cons.IH) simp_all
  with Cons.prems step show ?case
    by (simp add: case_prod_unfold)
qed simp

end

locale slot_pool =
  fixes reserve :: "'s \<Rightarrow> bool \<times> 's"
    and release :: "'s \<Rightarrow> 's"
    and active :: "'s \<Rightarrow> nat"
    and cap :: "'s \<Rightarrow> nat"
    and inv :: "'s \<Rightarrow> bool"
  assumes reserve_iff: "inv s \<Longrightarrow> fst (reserve s) \<longleftrightarrow> active s < cap s"
    and reserve_active: "inv s \<Longrightarrow>
      active (snd (reserve s)) = (if fst (reserve s) then Suc (active s) else active s)"
    and reserve_keeps: "inv s \<Longrightarrow> inv (snd (reserve s)) \<and> cap (snd (reserve s)) = cap s"
    and release_active: "inv s \<Longrightarrow> active (release s) = active s - 1"
    and release_keeps: "inv s \<Longrightarrow> inv (release s) \<and> cap (release s) = cap s"
begin

lemma run_refines:
  assumes "inv s"
  shows "slots_run (cap s) es (active s) =
      (fst (pool_run reserve release es s), active (snd (pool_run reserve release es s))) \<and>
    cap (snd (pool_run reserve release es s)) = cap s"
  using assms
proof (induction es arbitrary: s)
  case (Cons ev es)
  show ?case
  proof (cases ev)
    case Reserve
    let ?s = "snd (reserve s)"
    from Cons.IH [of ?s] reserve_keeps [OF Cons.prems]
    have "slots_run (cap s) es (active ?s) =
        (fst (pool_run reserve release es ?s), active (snd (pool_run reserve release es ?s)))"
      and "cap (snd (pool_run reserve release es ?s)) = cap s"
      by simp_all
    then show ?thesis
      using reserve_iff [OF Cons.prems] reserve_active [OF Cons.prems] Reserve
      by (auto simp: case_prod_unfold)
  next
    case Release
    with Cons.IH [of "release s"] release_keeps [OF Cons.prems] release_active [OF Cons.prems]
    show ?thesis by simp
  qed
qed simp

lemma run_bound:
  assumes "inv s" and "active s \<le> cap s"
  shows "active (snd (pool_run reserve release es s)) \<le> cap s"
  using run_refines [OF assms(1), of es] slots_run_bound [OF assms(2), of es] by simp

end

section \<open>The enforcer keeps the contracts\<close>

lemma upd_counters_simps [simp]:
  "policy (upd_counters f e) = policy e"
  "counters (upd_counters f e) = f (counters e)"
  "local_outbound_connections_active (upd_counters f e) = local_outbound_connections_active e"
  "allowed_cidrs_parsed (upd_counters f e) = allowed_cidrs_parsed e"
  "denied_cidrs_parsed (upd_counters f e) = denied_cidrs_parsed e"
  by (simp_all add: upd_counters_def)

lemma unat_minus_one: "w \<noteq> 0 \<Longrightarrow> unat (w - 1) = unat w - 1" for w :: "'a::len word"
  using unat_sub [of 1 w] by (simp add: word_le_nat_alt unat_gt_0 Suc_le_eq)

lemma reserve_slot_cases:
  "reserve_slot limit current = None \<longleftrightarrow> limit \<le> current"
  "reserve_slot limit current = Some v \<longleftrightarrow> current < limit \<and> v = current + 1"
  by (auto simp: reserve_slot_def)

interpretation egress: byte_quota egress_request "\<lambda>e. egress_bytes (counters e)"
  "\<lambda>e. np_max_egress_bytes (network_of e)"
  by unfold_locales
    (auto simp: egress_request_def check_and_record_egress_def add_bytes_def Let_def not_less)

interpretation fs_write: byte_quota fs_write_request "\<lambda>e. fs_write_bytes (counters e)"
  "\<lambda>e. fp_max_fs_write_bytes (filesystem_of e)"
  by unfold_locales
    (auto simp: fs_write_request_def check_and_record_fs_write_def add_bytes_def Let_def not_less)

interpretation fd: slot_pool fd_reserve record_fd_close "\<lambda>e. unat (open_fds (counters e))"
  "\<lambda>e. unat (fp_max_open_fds (filesystem_of e))" "\<lambda>e. True"
  by unfold_locales
    (auto simp: fd_reserve_def check_fd_open_def record_fd_close_def reserve_slot_def Let_def
      word_le_nat_alt unat_minus_one not_le
      intro: unat_Suc_no_wrap [OF iffD2 [OF word_less_nat_alt]])

text \<open>The destinations a policy admits, and an enforcer whose counters no other store shares.\<close>

definition destination_allowed :: "('net \<Rightarrow> ip_addr \<Rightarrow> bool) \<Rightarrow> ip_addr \<Rightarrow> 'net policy_enforcer \<Rightarrow> bool" where
  "destination_allowed net_contains ip e \<longleftrightarrow> np_allow_outbound_tcp (network_of e) \<and>
     \<not> ip_in_cidrs net_contains ip (denied_cidrs_parsed e) \<and>
     (allowed_cidrs_parsed e = [] \<or> ip_in_cidrs net_contains ip (allowed_cidrs_parsed e))"

definition sole_store :: "'net policy_enforcer \<Rightarrow> bool" where
  "sole_store e \<longleftrightarrow> local_outbound_connections_active e = outbound_connections_active (counters e)"

lemma check_connect_allowed:
  "destination_allowed net_contains ip e \<Longrightarrow> check_outbound_tcp_connect net_contains ip e =
     (if outbound_connections_active (counters e) < np_max_outbound_connections (network_of e)
      then (Inr (), upd_counters (\<lambda>c. c\<lparr> outbound_connections_active :=
             outbound_connections_active c + 1 \<rparr>)
           (e\<lparr> local_outbound_connections_active := local_outbound_connections_active e + 1 \<rparr>))
      else deny_connection (ConnectionLimitExceeded (outbound_connections_active (counters e))
             (np_max_outbound_connections (network_of e))) e)"
  by (auto simp: check_outbound_tcp_connect_def destination_allowed_def reserve_slot_def Let_def
      upd_counters_def)

lemma check_connect_refused:
  "\<not> destination_allowed net_contains ip e \<Longrightarrow>
     \<exists>d. check_outbound_tcp_connect net_contains ip e = deny_connection d e"
  by (auto simp: check_outbound_tcp_connect_def destination_allowed_def)

interpretation connection: slot_pool "connection_reserve net_contains ip" record_outbound_disconnect
  "\<lambda>e. unat (outbound_connections_active (counters e))"
  "\<lambda>e. unat (np_max_outbound_connections (network_of e))"
  "\<lambda>e. destination_allowed net_contains ip e \<and> sole_store e"
  by unfold_locales
    (auto simp: connection_reserve_def check_connect_allowed deny_connection_def sole_store_def
      record_outbound_disconnect_def destination_allowed_def Let_def word_less_nat_alt unat_minus_one
      intro: unat_Suc_no_wrap [OF iffD2 [OF word_less_nat_alt]])

lemma parse_cidrs_valid:
  assumes "list_all (\<lambda>c. net_parse c \<noteq> None) cs"
  shows "ip_in_cidrs net_contains ip (parse_cidrs net_parse cs) \<longleftrightarrow>
           (\<exists>c \<in> set cs. \<exists>n. net_parse c = Some n \<and> net_contains n ip)"
    and "parse_cidrs net_parse cs = [] \<longleftrightarrow> cs = []"
  using assms
  by (induction cs) (auto simp: ip_in_cidrs_def parse_cidrs_def List.map_filter_simps)

section \<open>Properties\<close>

text \<open>
  (C7) For an enforcer created from a policy that resolution accepted, an outbound TCP connection
  is granted exactly when outbound TCP is allowed, no denied CIDR string of the policy contains the
  destination, the allow list is empty or one of its CIDR strings contains the destination, and fewer
  than the maximum of connections are active: dropping unparsable CIDRs never turns a non-empty
  allow list into an empty one. A grant takes one slot of the shared and of the store's own counter
  without wrap-around; a denial changes nothing but the denial counter.
\<close>

theorem outbound_connect_decision:
  fixes e :: "'net policy_enforcer"
  assumes resolved: "policy_resolve net_parse cfg port = Inr p"
    and e: "e = (with_counters net_parse p cs)\<lparr> local_outbound_connections_active := l \<rparr>"
    and n: "n = ip_network p"
  shows "(is_ok (fst (check_outbound_tcp_connect net_contains ip e)) \<longleftrightarrow>
      np_allow_outbound_tcp n \<and>
      (\<forall>c \<in> set (np_denied_cidrs n). \<forall>m. net_parse c = Some m \<longrightarrow> \<not> net_contains m ip) \<and>
      (np_allowed_cidrs n = [] \<or>
        (\<exists>c \<in> set (np_allowed_cidrs n). \<exists>m. net_parse c = Some m \<and> net_contains m ip)) \<and>
      outbound_connections_active cs < np_max_outbound_connections n) \<and>
    (if is_ok (fst (check_outbound_tcp_connect net_contains ip e))
     then snd (check_outbound_tcp_connect net_contains ip e) =
            e\<lparr> counters := cs\<lparr> outbound_connections_active := outbound_connections_active cs + 1 \<rparr>,
               local_outbound_connections_active := l + 1 \<rparr> \<and>
          unat (outbound_connections_active cs + 1) = Suc (unat (outbound_connections_active cs))
     else snd (check_outbound_tcp_connect net_contains ip e) =
            e\<lparr> counters := cs\<lparr> connection_denied_total := connection_denied_total cs + 1 \<rparr> \<rparr>)"
proof -
  from resolved have "network_policy_ok net_parse port n"
    by (auto simp: policy_resolve_def try_then_Ok_iff resolve_network_Ok_iff n)
  then have valid: "list_all (\<lambda>c. net_parse c \<noteq> None) (np_allowed_cidrs n)"
      "list_all (\<lambda>c. net_parse c \<noteq> None) (np_denied_cidrs n)"
    by (simp_all add: network_policy_ok_def)
  have allowed: "destination_allowed net_contains ip e \<longleftrightarrow> np_allow_outbound_tcp n \<and>
      (\<forall>c \<in> set (np_denied_cidrs n). \<forall>m. net_parse c = Some m \<longrightarrow> \<not> net_contains m ip) \<and>
      (np_allowed_cidrs n = [] \<or>
        (\<exists>c \<in> set (np_allowed_cidrs n). \<exists>m. net_parse c = Some m \<and> net_contains m ip))"
    using parse_cidrs_valid [OF valid(1)] parse_cidrs_valid [OF valid(2)] n
    by (auto simp: destination_allowed_def e with_counters_def)
  have sel: "counters e = cs" "network_of e = n" "local_outbound_connections_active e = l"
    by (simp_all add: e with_counters_def n)
  show ?thesis
  proof (cases "destination_allowed net_contains ip e")
    case True
    then show ?thesis
      using iffD1 [OF allowed True]
      by (simp add: check_connect_allowed sel deny_connection_def upd_counters_def unat_Suc_no_wrap)
  next
    case False
    then obtain d where "check_outbound_tcp_connect net_contains ip e = deny_connection d e"
      using check_connect_refused by blast
    with False [unfolded allowed] show ?thesis
      by (auto simp: sel deny_connection_def upd_counters_def)
  qed
qed

text \<open>A parser and a containment test for witnesses: a network is named by its one address.\<close>

definition single_parse :: "string \<Rightarrow> ip_addr option" where
  "single_parse s = (if s = ''10.0.0.1/32'' then Some (V4 0x0A000001) else None)"

definition w_policy_config :: policy_config where
  "w_policy_config = \<lparr> pc_network = Some \<lparr> npc_allow_outbound_tcp = None,
     npc_allow_outbound_udp = None, npc_allow_dns = None,
     npc_allowed_cidrs = Some [''10.0.0.1/32''], npc_denied_cidrs = None,
     npc_max_outbound_connections = Some 2, npc_max_egress_bytes = Some 100,
     npc_allow_inbound = None \<rparr>, pc_filesystem = None \<rparr>"

definition w_policy :: instance_policy where
  "w_policy = \<lparr> ip_network = \<lparr> np_allow_outbound_tcp = True, np_allow_outbound_udp = False,
     np_allow_dns = True, np_allowed_cidrs = [''10.0.0.1/32''], np_denied_cidrs = [],
     np_max_outbound_connections = 2, np_max_egress_bytes = 100, np_allowed_bind_ports = [8080],
     np_allow_inbound = True \<rparr>, ip_filesystem = filesystem_policy_default \<rparr>"

lemma w_policy_resolved: "policy_resolve single_parse w_policy_config 8080 = Inr w_policy"
  by (simp add: policy_resolve_def resolve_network_def w_policy_config_def w_policy_def
      validate_optional_cidrs_def single_parse_def network_policy_default_def
      resolve_filesystem_def Let_def validate_filesystem_policy_def filesystem_policy_default_def)

definition w_enforcer :: "ip_addr policy_enforcer" where
  "w_enforcer = policy_enforcer_new single_parse w_policy"

theorem outbound_connect_decision_witness:
  "is_ok (fst (check_outbound_tcp_connect (=) (V4 0x0A000001) w_enforcer)) \<and>
   \<not> is_ok (fst (check_outbound_tcp_connect (=) (V4 0x0A000002) w_enforcer))"
proof -
  have e: "w_enforcer = (with_counters single_parse w_policy policy_counters_new)
      \<lparr> local_outbound_connections_active := 0 \<rparr>"
    by (simp add: w_enforcer_def policy_enforcer_new_def with_counters_def)
  have "is_ok (fst (check_outbound_tcp_connect (=) (V4 0x0A000001) w_enforcer))"
    using outbound_connect_decision [OF w_policy_resolved e refl, of "(=)" "V4 0x0A000001"]
    by (simp add: w_policy_def single_parse_def policy_counters_new_def)
  moreover have "\<not> is_ok (fst (check_outbound_tcp_connect (=) (V4 0x0A000002) w_enforcer))"
    using outbound_connect_decision [OF w_policy_resolved e refl, of "(=)" "V4 0x0A000002"]
    by (simp add: w_policy_def single_parse_def policy_counters_new_def)
  ultimately show ?thesis by blast
qed

text \<open>
  (C32) Byte quotas. If the egress limit is not zero, the counter starts within it and no single request is so large
  that limit plus request exceeds the 64-bit range, then over any sequence of \<open>check_and_record_egress\<close> calls the
  counter grows by exactly the bytes granted and never passes the limit. The same holds, with its own limit and
  whatever the egress limit is, of \<open>check_and_record_fs_write\<close>. A limit of zero, the default for writes, grants every
  request.
\<close>

theorem byte_quotas_hold:
  fixes e :: "'net policy_enforcer"
  shows "(np_max_egress_bytes (network_of e) \<noteq> 0 \<and>
      egress_bytes (counters e) \<le> np_max_egress_bytes (network_of e) \<and>
      list_all (\<lambda>b. unat (np_max_egress_bytes (network_of e)) + unat b < 2 ^ 64) bs \<longrightarrow>
      (case quota_run egress_request bs e of (granted, e') \<Rightarrow>
        unat (egress_bytes (counters e')) = unat (egress_bytes (counters e)) + granted \<and>
        egress_bytes (counters e') \<le> np_max_egress_bytes (network_of e))) \<and>
    (fp_max_fs_write_bytes (filesystem_of e) \<noteq> 0 \<and>
      fs_write_bytes (counters e) \<le> fp_max_fs_write_bytes (filesystem_of e) \<and>
      list_all (\<lambda>b. unat (fp_max_fs_write_bytes (filesystem_of e)) + unat b < 2 ^ 64) bs \<longrightarrow>
      (case quota_run fs_write_request bs e of (granted, e') \<Rightarrow>
        unat (fs_write_bytes (counters e')) = unat (fs_write_bytes (counters e)) + granted \<and>
        fs_write_bytes (counters e') \<le> fp_max_fs_write_bytes (filesystem_of e))) \<and>
    (np_max_egress_bytes (network_of e) = 0 \<longrightarrow> fst (egress_request b e)) \<and>
    (fp_max_fs_write_bytes (filesystem_of e) = 0 \<longrightarrow> fst (fs_write_request b e))"
  using egress.run_within_limit [of e bs] fs_write.run_within_limit [of e bs]
  by (auto simp: case_prod_unfold egress_request_def check_and_record_egress_def fs_write_request_def
      check_and_record_fs_write_def)

definition w_quota_enforcer :: "ip_addr policy_enforcer" where
  "w_quota_enforcer = w_enforcer\<lparr> policy := w_policy\<lparr> ip_filesystem :=
     filesystem_policy_default\<lparr> fp_max_fs_write_bytes := 10 \<rparr> \<rparr> \<rparr>"

theorem byte_quotas_hold_witness:
  "egress_bytes (counters (snd (quota_run egress_request [60, 50, 40] w_quota_enforcer))) \<le> 100 \<and>
   fs_write_bytes (counters (snd (quota_run fs_write_request [11, 4] w_quota_enforcer))) \<le> 10 \<and>
   fst (fs_write_request 11 w_enforcer)"
proof -
  have q: "np_max_egress_bytes (network_of w_quota_enforcer) = 100"
    "fp_max_fs_write_bytes (filesystem_of w_quota_enforcer) = 10"
    "egress_bytes (counters w_quota_enforcer) = 0" "fs_write_bytes (counters w_quota_enforcer) = 0"
    "fp_max_fs_write_bytes (filesystem_of w_enforcer) = 0"
    by (simp_all add: w_quota_enforcer_def w_enforcer_def policy_enforcer_new_def with_counters_def w_policy_def
        policy_counters_new_def filesystem_policy_default_def)
  show ?thesis
    using byte_quotas_hold [of w_quota_enforcer "[60, 50, 40]" 0] byte_quotas_hold [of w_quota_enforcer "[11, 4]" 0]
      byte_quotas_hold [of w_enforcer "[]" 11] q
    by (simp add: case_prod_unfold del: quota_run.simps)
qed

text \<open>
  The quota addition wraps: a request that carries the 64-bit sum past its range, to a value
  not above the limit, is granted by both \<open>check_and_record_egress\<close> and the deprecated
  \<open>check_egress\<close>, and the recorded total of the former goes down although more than the limit has
  been requested.
\<close>

theorem egress_quota_wraps:
  fixes e :: "'net policy_enforcer"
  assumes "np_max_egress_bytes (network_of e) \<noteq> 0"
    and "2 ^ 64 \<le> unat (egress_bytes (counters e)) + unat bytes"
    and "unat (egress_bytes (counters e)) + unat bytes - 2 ^ 64
           \<le> unat (np_max_egress_bytes (network_of e))"
  shows "is_ok (fst (check_and_record_egress bytes e)) \<and> is_ok (fst (check_egress bytes e)) \<and>
    egress_bytes (counters (snd (check_and_record_egress bytes e))) < egress_bytes (counters e)"
proof -
  let ?u = "egress_bytes (counters e)"
  have "unat ?u < 2 ^ 64" "unat bytes < 2 ^ 64"
    using unsigned_less [of ?u, where 'a = nat] unsigned_less [of bytes, where 'a = nat] by simp_all
  then have "(unat ?u + unat bytes) mod 2 ^ 64 = unat ?u + unat bytes - 2 ^ 64"
    using assms(2) by (subst le_mod_geq) auto
  then have sum: "unat (?u + bytes) = unat ?u + unat bytes - 2 ^ 64"
    by (simp add: unat_word_ariths)
  then have "?u + bytes \<le> np_max_egress_bytes (network_of e)"
    using assms(3) by (simp add: word_le_nat_alt)
  moreover have "?u + bytes < ?u"
    using sum \<open>unat bytes < 2 ^ 64\<close> assms(2) by (simp add: word_less_nat_alt)
  ultimately show ?thesis
    using assms(1) by (simp add: check_and_record_egress_def check_egress_def add_bytes_def Let_def
        not_less [symmetric])
qed

theorem egress_quota_wraps_witness:
  "is_ok (fst (check_and_record_egress (- 60) (record_egress 90 w_enforcer))) \<and>
   egress_bytes (counters (snd (check_and_record_egress (- 60) (record_egress 90 w_enforcer)))) < 90"
  using egress_quota_wraps [of "record_egress 90 w_enforcer" "- 60"]
  by (simp add: w_enforcer_def policy_enforcer_new_def with_counters_def w_policy_def
      policy_counters_new_def record_egress_def)

text \<open>
  (C31) Descriptors and connections are slot pools: any sequence of \<open>check_fd_open\<close> and
  \<open>record_fd_close\<close>, and, for an admitted destination and counters of a single store, any sequence
  of \<open>check_outbound_tcp_connect\<close> and \<open>record_outbound_disconnect\<close>, answers exactly as a counter
  with the policy's capacity that releases never take below zero.
\<close>

theorem slot_pools_refine_counter:
  fixes e :: "'net policy_enforcer"
  shows "slots_run (unat (fp_max_open_fds (filesystem_of e))) es (unat (open_fds (counters e))) =
      (fst (pool_run fd_reserve record_fd_close es e),
       unat (open_fds (counters (snd (pool_run fd_reserve record_fd_close es e))))) \<and>
    (destination_allowed net_contains ip e \<and> sole_store e \<longrightarrow>
     slots_run (unat (np_max_outbound_connections (network_of e))) es
        (unat (outbound_connections_active (counters e))) =
      (fst (pool_run (connection_reserve net_contains ip) record_outbound_disconnect es e),
       unat (outbound_connections_active (counters
         (snd (pool_run (connection_reserve net_contains ip) record_outbound_disconnect es e))))))"
  using fd.run_refines [of e es] connection.run_refines [of net_contains ip e es] by simp

theorem slot_pools_refine_counter_witness:
  "fst (pool_run (connection_reserve (=) (V4 0x0A000001)) record_outbound_disconnect
     [Reserve, Reserve, Reserve, Release, Reserve] w_enforcer) = [True, True, False, True]"
  using slot_pools_refine_counter [of w_enforcer "[Reserve, Reserve, Reserve, Release, Reserve]" "(=)"
      "V4 0x0A000001"]
  by (simp add: w_enforcer_def policy_enforcer_new_def with_counters_def w_policy_def
      policy_counters_new_def destination_allowed_def sole_store_def ip_in_cidrs_def parse_cidrs_def
      List.map_filter_simps single_parse_def)

end
