(* ===== verification/Policy_Concurrency.thy ===== *)
theory Policy_Concurrency
  imports Policy_Tracker
begin

text \<open>
  Interleavings of the enforcer's atomic operations. The counters are shared by the stores of an
  application, so the compare-exchange loops of \<open>network.rs\<close>, \<open>filesystem.rs\<close> and \<open>core.rs\<close> are
  taken apart into their loads, exchanges and local updates, and every interleaving is considered.
  The calls of one store run one after the other (a store is borrowed exclusively while it runs);
  the stores interleave freely. All loads and exchanges on one atomic cell are totally ordered.
\<close>

section \<open>Compare-exchange loops on one cell\<close>

text \<open>
  A loop loads the cell, computes the new value or gives up, and tries the exchange, starting over
  when the cell no longer has the loaded value.
\<close>

datatype 'a cas_pc = CasLoad | CasTry 'a | CasDone | CasDenied 'a

inductive cas_step :: "('a \<Rightarrow> 'a option) \<Rightarrow> 'a \<times> 'a cas_pc \<Rightarrow> 'a \<times> 'a cas_pc \<Rightarrow> bool"
  for f :: "'a \<Rightarrow> 'a option" where
  load: "f v = Some v' \<Longrightarrow> cas_step f (v, CasLoad) (v, CasTry v)"
| deny: "f v = None \<Longrightarrow> cas_step f (v, CasLoad) (v, CasDenied v)"
| exchange: "f v = Some v' \<Longrightarrow> cas_step f (v, CasTry v) (v', CasDone)"
| retry: "v \<noteq> w \<Longrightarrow> cas_step f (v, CasTry w) (v, CasLoad)"

inductive_cases cas_stepE: "cas_step f (v, pc) (v', pc')"

text \<open>Several loops, the \<open>i\<close>-th with the update \<open>fs ! i\<close>, on one cell.\<close>

inductive cas_sys :: "('a \<Rightarrow> 'a option) list \<Rightarrow> 'a \<times> 'a cas_pc list \<Rightarrow> 'a \<times> 'a cas_pc list \<Rightarrow> bool"
  for fs :: "('a \<Rightarrow> 'a option) list" where
  step: "\<lbrakk>i < length fs; i < length pcs; cas_step (fs ! i) (v, pcs ! i) (v', pc')\<rbrakk>
     \<Longrightarrow> cas_sys fs (v, pcs) (v', pcs[i := pc'])"

text \<open>The sequential meaning: the updates of the listed callers, one after the other.\<close>

fun apply_in_order :: "('a \<Rightarrow> 'a option) list \<Rightarrow> nat list \<Rightarrow> 'a \<Rightarrow> 'a option" where
  "apply_in_order fs [] v = Some v"
| "apply_in_order fs (i # is) v =
     (case (fs ! i) v of None \<Rightarrow> None | Some v' \<Rightarrow> apply_in_order fs is v')"

lemma apply_in_order_append:
  "apply_in_order fs (is @ [i]) v =
     (case apply_in_order fs is v of None \<Rightarrow> None | Some w \<Rightarrow> (fs ! i) w)"
  by (induction "is" arbitrary: v) (auto split: option.splits)

definition linearised :: "('a \<Rightarrow> 'a option) list \<Rightarrow> 'a \<Rightarrow> 'a \<times> 'a cas_pc list \<Rightarrow> nat list \<Rightarrow> bool" where
  "linearised fs v0 s order \<longleftrightarrow> length (snd s) = length fs \<and> distinct order \<and>
     set order = {i. i < length fs \<and> snd s ! i = CasDone} \<and>
     apply_in_order fs order v0 = Some (fst s)"

lemma linearised_step:
  assumes "linearised fs v0 s order" and "cas_sys fs s s'"
  shows "\<exists>order'. linearised fs v0 s' order'"
  using assms(2)
proof cases
  case (step i pcs v v' pc')
  from step(4,5) have pc: "pcs ! i \<noteq> CasDone"
    by (auto elim: cas_stepE)
  show ?thesis
  proof (cases "pc' = CasDone")
    case True
    with step(5) have new: "(fs ! i) v = Some v'"
      by (auto elim: cas_stepE)
    have "linearised fs v0 s' (order @ [i])"
      using assms(1) pc new step True
      by (auto simp: linearised_def apply_in_order_append nth_list_update)
    then show ?thesis ..
  next
    case False
    with step(5) have "v' = v"
      by (auto elim: cas_stepE)
    then have "linearised fs v0 s' order"
      using assms(1) pc step False by (auto simp: linearised_def nth_list_update)
    then show ?thesis ..
  qed
qed

lemma linearised_start: "linearised fs v0 (v0, replicate (length fs) CasLoad) []"
  by (auto simp: linearised_def)

lemma reachable_linearised:
  assumes "(cas_sys fs)\<^sup>*\<^sup>* (v0, replicate (length fs) CasLoad) s"
  shows "\<exists>order. linearised fs v0 s order"
  using assms
proof (induction rule: rtranclp_induct)
  case base
  show ?case by (rule exI, rule linearised_start)
next
  case (step y z)
  then obtain order where "linearised fs v0 y order" by (elim exE)
  then show ?case using step(2) by (rule linearised_step)
qed

text \<open>Undisturbed, a loop ends after at most two steps.\<close>

lemma cas_alone:
  "f v = Some v' \<Longrightarrow> (cas_step f)\<^sup>*\<^sup>* (v, CasLoad) (v', CasDone)"
  "f v = None \<Longrightarrow> (cas_step f)\<^sup>*\<^sup>* (v, CasLoad) (v, CasDenied v)"
  by (meson cas_step.intros converse_rtranclp_into_rtranclp r_into_rtranclp)+

section \<open>Stores sharing the connection counter\<close>

text \<open>
  The life of one store in \<open>compose_socket_addr_check\<close> and in its teardown: the reservation loop of
  \<open>check_outbound_tcp_connect\<close>, the increment of the store's own counter that follows it, the wait
  for the extra check, the two halves of \<open>record_outbound_disconnect\<close> after a refusal, and the two
  halves of \<open>release_tracked_outbound_connections\<close> when the store is dropped, which may also happen
  while it waits.
\<close>

datatype store_pc =
    Idle
  | Reserving "u32 cas_pc"
  | Waiting
  | LocalReset
  | SharedSub
  | SharedReset
  | Releasing u32
  | Dropped

record store_thread =
  st_local :: u32
  st_pc :: store_pc

inductive store_step :: "u32 \<Rightarrow> u32 \<times> store_thread \<Rightarrow> u32 \<times> store_thread \<Rightarrow> bool"
  for limit :: u32 where
  connect: "store_step limit (v, \<lparr>st_local = l, st_pc = Idle\<rparr>)
     (v, \<lparr>st_local = l, st_pc = Reserving CasLoad\<rparr>)"
| reserving: "cas_step (reserve_slot limit) (v, pc) (v', pc') \<Longrightarrow>
     store_step limit (v, \<lparr>st_local = l, st_pc = Reserving pc\<rparr>)
     (v', \<lparr>st_local = l, st_pc = Reserving pc'\<rparr>)"
| denied: "store_step limit (v, \<lparr>st_local = l, st_pc = Reserving (CasDenied w)\<rparr>)
     (v, \<lparr>st_local = l, st_pc = Idle\<rparr>)"
| local_add: "store_step limit (v, \<lparr>st_local = l, st_pc = Reserving CasDone\<rparr>)
     (v, \<lparr>st_local = l + 1, st_pc = Waiting\<rparr>)"
| extra_ok: "store_step limit (v, \<lparr>st_local = l, st_pc = Waiting\<rparr>)
     (v, \<lparr>st_local = l, st_pc = Idle\<rparr>)"
| extra_refused: "store_step limit (v, \<lparr>st_local = l, st_pc = Waiting\<rparr>)
     (v, \<lparr>st_local = l - 1, st_pc = if l = 0 then LocalReset else SharedSub\<rparr>)"
| local_reset: "store_step limit (v, \<lparr>st_local = l, st_pc = LocalReset\<rparr>)
     (v, \<lparr>st_local = 0, st_pc = Idle\<rparr>)"
| shared_sub: "store_step limit (v, \<lparr>st_local = l, st_pc = SharedSub\<rparr>)
     (v - 1, \<lparr>st_local = l, st_pc = if v = 0 then SharedReset else Idle\<rparr>)"
| shared_reset: "store_step limit (v, \<lparr>st_local = l, st_pc = SharedReset\<rparr>)
     (0, \<lparr>st_local = l, st_pc = Idle\<rparr>)"
| drop: "pc = Idle \<or> pc = Waiting \<Longrightarrow> store_step limit (v, \<lparr>st_local = l, st_pc = pc\<rparr>)
     (v, \<lparr>st_local = 0, st_pc = if l = 0 then Dropped else Releasing l\<rparr>)"
| release: "store_step limit (v, \<lparr>st_local = l, st_pc = Releasing owned\<rparr>)
     (saturating_sub v owned, \<lparr>st_local = l, st_pc = Dropped\<rparr>)"

text \<open>New stores may appear at any time; every existing one may take a step.\<close>

inductive app_step :: "u32 \<Rightarrow> u32 \<times> store_thread list \<Rightarrow> u32 \<times> store_thread list \<Rightarrow> bool"
  for limit :: u32 where
  spawn: "app_step limit (v, ts) (v, ts @ [\<lparr>st_local = 0, st_pc = Idle\<rparr>])"
| step: "i < length ts \<Longrightarrow> store_step limit (v, ts ! i) (v', t') \<Longrightarrow>
     app_step limit (v, ts) (v', ts[i := t'])"

text \<open>Slots a store accounts for, including those of an operation in progress.\<close>

fun in_flight :: "store_pc \<Rightarrow> nat" where
  "in_flight (Reserving CasDone) = 1"
| "in_flight SharedSub = 1"
| "in_flight (Releasing owned) = unat owned"
| "in_flight _ = 0"

definition slots_of :: "store_thread \<Rightarrow> nat" where
  "slots_of t = unat (st_local t) + in_flight (st_pc t)"

fun pc_ok :: "store_thread \<Rightarrow> bool" where
  "pc_ok t = (st_pc t \<notin> {LocalReset, SharedReset} \<and>
     (st_pc t = Waiting \<longrightarrow> st_local t \<noteq> 0) \<and>
     ((\<exists>owned. st_pc t = Releasing owned) \<longrightarrow> st_local t = 0) \<and> (st_pc t = Dropped \<longrightarrow> st_local t = 0))"

definition app_inv :: "u32 \<Rightarrow> u32 \<times> store_thread list \<Rightarrow> bool" where
  "app_inv limit s \<longleftrightarrow> fst s \<le> limit \<and> unat (fst s) = sum_list (map slots_of (snd s)) \<and>
     (\<forall>t \<in> set (snd s). pc_ok t)"

lemma unat_plus_one: "Suc (unat w) < 2 ^ LENGTH('a) \<Longrightarrow> unat (w + 1) = Suc (unat w)"
  for w :: "'a::len word"
  by (simp add: unat_word_ariths)

text \<open>
  One step of a store changes the shared counter by as much as the store's account, given that the
  counter covers the account and is at most the limit.
\<close>

lemma store_step_account:
  assumes "store_step limit (v, t) (v', t')" and "pc_ok t" and "slots_of t \<le> unat v" and "v \<le> limit"
  shows "pc_ok t' \<and> v' \<le> limit \<and> unat v' + slots_of t = unat v + slots_of t'"
  using assms(1)
proof cases
  case (reserving pc pc' l)
  from reserving(3) show ?thesis
    using assms(4) reserving(1,2)
    by (cases rule: cas_stepE)
      (auto simp: slots_of_def reserve_slot_cases unat_Suc_no_wrap word_Suc_le)
next
  case (local_add l)
  have "Suc (unat l) < 2 ^ LENGTH(32)"
    using assms(3,4) local_add unsigned_less [of limit, where 'a = nat]
    by (simp add: slots_of_def word_le_nat_alt)
  then have "unat (l + 1) = Suc (unat l)"
    by (rule unat_plus_one)
  with assms local_add show ?thesis
    by (auto simp: slots_of_def)
next
  case (extra_refused l)
  with assms show ?thesis
    by (simp add: slots_of_def unat_minus_one unat_gt_0 Suc_le_eq)
next
  case (shared_sub l)
  with assms(3) have "v \<noteq> 0"
    by (auto simp: slots_of_def)
  then have "v - 1 \<le> v" and "unat (v - 1) + 1 = unat v"
    by (simp_all add: word_le_nat_alt unat_minus_one unat_gt_0 Suc_le_eq)
  with assms shared_sub \<open>v \<noteq> 0\<close> show ?thesis
    by (auto simp: slots_of_def)
next
  case (release l owned)
  then have "unat owned \<le> unat v" and "l = 0"
    using assms by (auto simp: slots_of_def)
  with assms release show ?thesis
    by (auto simp: slots_of_def unat_saturating_sub word_le_nat_alt)
qed (use assms in \<open>auto simp: slots_of_def\<close>)

lemma sum_list_update_nat:
  fixes ns :: "nat list"
  shows "i < length ns \<Longrightarrow> sum_list (ns[i := n]) + ns ! i = sum_list ns + n"
  by (induction ns arbitrary: i) (auto split: nat.splits)

lemma app_step_inv:
  assumes "app_inv limit s" and "app_step limit s s'"
  shows "app_inv limit s'"
  using assms(2)
proof cases
  case (spawn v ts)
  with assms(1) show ?thesis
    by (auto simp: app_inv_def slots_of_def)
next
  case (step i ts v v' t')
  let ?t = "ts ! i"
  from assms(1) step(1) have v: "v \<le> limit" "unat v = sum_list (map slots_of ts)"
      and ok: "\<forall>t \<in> set ts. pc_ok t"
    by (simp_all add: app_inv_def)
  have "slots_of ?t \<le> unat v"
    unfolding v(2) using member_le_sum_list [of "slots_of ?t" "map slots_of ts"] step(3) by auto
  with store_step_account [OF step(4)] ok step(3) v(1)
  have acc: "pc_ok t'" "v' \<le> limit" "unat v' + slots_of ?t = unat v + slots_of t'"
    by auto
  have "unat v' = sum_list (map slots_of (ts[i := t']))"
    using acc(3) v(2) sum_list_update_nat [of i "map slots_of ts" "slots_of t'"] step(3)
    by (simp add: map_update)
  moreover have "\<forall>t \<in> set (ts[i := t']). pc_ok t"
    using ok acc(1) set_update_subset_insert [of ts i t'] by auto
  ultimately show ?thesis
    using acc(2) step(2) by (simp add: app_inv_def)
qed

lemma app_reachable_inv: "(app_step limit)\<^sup>*\<^sup>* s s' \<Longrightarrow> app_inv limit s \<Longrightarrow> app_inv limit s'"
  by (induction rule: rtranclp_induct) (auto intro: app_step_inv)

lemma apply_add_bytes:
  assumes "apply_in_order (map (add_bytes limit) bs) order v0 = Some v" and "v0 \<le> limit"
    and "\<forall>i \<in> set order. i < length bs \<and> unat limit + unat (bs ! i) < 2 ^ 64"
  shows "unat v = unat v0 + (\<Sum>i\<leftarrow>order. unat (bs ! i)) \<and> v \<le> limit"
  using assms
proof (induction order arbitrary: v0)
  case (Cons i order)
  let ?w = "v0 + bs ! i"
  have "unat limit + unat (bs ! i) < 2 ^ 64" and i: "i < length bs"
    using Cons.prems(3) by simp_all
  then have sum: "unat ?w = unat v0 + unat (bs ! i)"
    using Cons.prems(2) by (simp add: unat_word_ariths word_le_nat_alt)
  have "add_bytes limit (bs ! i) v0 = (if ?w \<le> limit then Some ?w else None)"
    by (simp add: add_bytes_def Let_def not_less [symmetric])
  with Cons.prems(1) i
  have "?w \<le> limit" and "apply_in_order (map (add_bytes limit) bs) order ?w = Some v"
    by (simp_all split: if_splits)
  then have "unat v = unat ?w + (\<Sum>i\<leftarrow>order. unat (bs ! i)) \<and> v \<le> limit"
    using Cons.prems(3) by (intro Cons.IH) simp_all
  with sum show ?case by simp
qed simp

section \<open>Properties\<close>


lemma app_step_pair:
  "store_step limit (v, a) (v', a') \<Longrightarrow> app_step limit (v, [a, b]) (v', [a', b])"
  "store_step limit (v, b) (v', b') \<Longrightarrow> app_step limit (v, [a, b]) (v', [a, b'])"
  using app_step.step [of 0 "[a, b]" limit v v' a'] app_step.step [of 1 "[a, b]" limit v v' b']
  by simp_all

lemma w_interleaving:
  "(app_step 1)\<^sup>*\<^sup>* (0, []) (1, [\<lparr>st_local = 1, st_pc = Waiting\<rparr>,
     \<lparr>st_local = 0, st_pc = Reserving CasLoad\<rparr>])"
proof -
  let ?t = "\<lambda>l pc. \<lparr>st_local = l, st_pc = pc\<rparr>"
  have load: "cas_step (reserve_slot 1) (0, CasLoad) (0, CasTry 0)"
    by (rule cas_step.load [of _ _ 1]) (simp add: reserve_slot_def)
  have exchange: "cas_step (reserve_slot 1) (0, CasTry 0) (1, CasDone)"
    by (rule cas_step.exchange) (simp add: reserve_slot_def)
  have retry: "cas_step (reserve_slot 1) (1, CasTry 0) (1, CasLoad)"
    by (rule cas_step.retry) simp
  have s1: "app_step 1 (0, []) (0, [?t 0 Idle])"
    using app_step.spawn [of 1 0 "[]"] by simp
  have s2: "app_step 1 (0, [?t 0 Idle]) (0, [?t 0 Idle, ?t 0 Idle])"
    using app_step.spawn [of 1 0 "[?t 0 Idle]"] by simp
  note s3 = app_step_pair(1) [OF store_step.connect]
  note s4 = app_step_pair(2) [OF store_step.connect]
  note s5 = app_step_pair(1) [OF store_step.reserving [OF load]]
  note s6 = app_step_pair(2) [OF store_step.reserving [OF load]]
  note s7 = app_step_pair(1) [OF store_step.reserving [OF exchange]]
  note s8 = app_step_pair(2) [OF store_step.reserving [OF retry]]
  have s9: "app_step 1 (1, [?t 0 (Reserving CasDone), b]) (1, [?t 1 Waiting, b])" for b
    using app_step_pair(1) [OF store_step.local_add [of 1 1 0], of b] by simp
  note trans = rtranclp.rtrancl_into_rtrancl [where r = "app_step 1"]
  show ?thesis
    by (rule trans [OF trans [OF trans [OF trans [OF trans [OF trans [OF trans [OF trans [OF trans
      [OF rtranclp.rtrancl_refl s1] s2] s3] s4] s5] s6] s7] s8] s9])
qed


text \<open>
  (C13) Byte quotas under concurrency: when any number of callers run the loop of
  \<open>check_and_record_egress\<close> (or \<open>check_and_record_fs_write\<close>) at once against a non-zero limit, every
  reachable state is explained by performing the updates of the callers that finished, one after
  the other in some order, and an undisturbed caller finishes, granted or denied. If moreover the start value is
  within the limit and no request can wrap around 64 bits, the counter is the start value plus exactly the
  bytes of the callers that finished, and at most the limit.
\<close>

theorem concurrent_byte_quota:
  assumes "(cas_sys (map (add_bytes limit) bs))\<^sup>*\<^sup>* (v0, replicate (length bs) CasLoad) (v, pcs)"
  shows "(\<exists>order. distinct order \<and> set order = {i. i < length bs \<and> pcs ! i = CasDone} \<and>
      apply_in_order (map (add_bytes limit) bs) order v0 = Some v) \<and>
    (\<forall>b w. \<exists>w' pc'. (cas_step (add_bytes limit b))\<^sup>*\<^sup>* (w, CasLoad) (w', pc') \<and>
      (pc' = CasDone \<or> pc' = CasDenied w)) \<and>
    (v0 \<le> limit \<and> (\<forall>b \<in> set bs. unat limit + unat b < 2 ^ 64) \<longrightarrow>
      unat v = unat v0 + (\<Sum>i | i < length bs \<and> pcs ! i = CasDone. unat (bs ! i)) \<and> v \<le> limit)"
proof -
  obtain order where "linearised (map (add_bytes limit) bs) v0 (v, pcs) order"
    using reachable_linearised [of "map (add_bytes limit) bs" v0 "(v, pcs)"] assms by auto
  then have order: "distinct order" "set order = {i. i < length bs \<and> pcs ! i = CasDone}"
      "apply_in_order (map (add_bytes limit) bs) order v0 = Some v"
    by (simp_all add: linearised_def)
  have "unat v = unat v0 + (\<Sum>i\<leftarrow>order. unat (bs ! i)) \<and> v \<le> limit"
    if "v0 \<le> limit" "\<forall>b \<in> set bs. unat limit + unat b < 2 ^ 64"
    by (rule apply_add_bytes [OF order(3) that(1)]) (use order(2) that(2) in auto)
  moreover have "(\<Sum>i\<leftarrow>order. unat (bs ! i)) = (\<Sum>i \<in> set order. unat (bs ! i))"
    using order(1) by (simp add: sum_list_distinct_conv_sum_set)
  moreover have "\<exists>w' pc'. (cas_step (add_bytes limit b))\<^sup>*\<^sup>* (w, CasLoad) (w', pc') \<and>
      (pc' = CasDone \<or> pc' = CasDenied w)" for b w
    using cas_alone [of "add_bytes limit b" w] by (cases "add_bytes limit b w") blast+
  ultimately show ?thesis
    using order by auto
qed

theorem concurrent_byte_quota_witness:
  "unat (7 :: u64) = unat (3 :: u64) + (\<Sum>i | i < length [4 :: u64, 5] \<and>
      [CasDone :: u64 cas_pc, CasDenied 7] ! i = CasDone. unat ([4 :: u64, 5] ! i))"
proof -
  let ?fs = "map (add_bytes 10) [4, 5]"
  have s1: "cas_sys ?fs (3, [CasLoad, CasLoad]) (3, [CasTry 3, CasLoad])"
    using cas_sys.step [of 0 ?fs "[CasLoad, CasLoad]" 3 3 "CasTry 3"]
    by (simp add: cas_step.load [of _ _ 7] add_bytes_def)
  have s2: "cas_sys ?fs (3, [CasTry 3, CasLoad]) (7, [CasDone, CasLoad])"
    using cas_sys.step [of 0 ?fs "[CasTry 3, CasLoad]" 3 7 CasDone]
    by (simp add: cas_step.exchange add_bytes_def)
  have s3: "cas_sys ?fs (7, [CasDone, CasLoad]) (7, [CasDone, CasDenied 7])"
    using cas_sys.step [of 1 ?fs "[CasDone, CasLoad]" 7 7 "CasDenied 7"]
    by (simp add: cas_step.deny add_bytes_def)
  have "(cas_sys ?fs)\<^sup>*\<^sup>* (3, replicate (length [4 :: u64, 5]) CasLoad) (7, [CasDone, CasDenied 7])"
    using s1 s2 s3 by (simp add: converse_rtranclp_into_rtranclp numeral_2_eq_2)
  from concurrent_byte_quota [OF this] show ?thesis
    by simp
qed

end
