(* ===== verification/Socket_Policy.thy ===== *)
theory Socket_Policy
  imports Policy_Tracker
begin

text \<open>
  The socket address checks of a store (\<open>crates/runtime/src/executor/socket_policy.rs\<close>): the
  snapshot of the network policy, and the check composed of the enforcer, the snapshot and an
  optional extra check supplied by the platform, which is the parameter \<open>extra\<close>.
\<close>

section \<open>Snapshot check\<close>

datatype socket_addr_use = TcpBind | TcpListen | TcpAccept | TcpConnect | UdpBind | UdpSend | UdpReceive

record socket_addr =
  sa_ip :: ip_addr
  sa_port :: u16

record 'net socket_policy_check =
  spc_allow_inbound :: bool
  spc_allow_outbound_tcp :: bool
  spc_allow_outbound_udp :: bool
  spc_allowed_bind_ports :: "u16 set"
  spc_allowed_cidrs :: "'net list"
  spc_denied_cidrs :: "'net list"

definition socket_parse_cidrs :: "(string \<Rightarrow> 'net option) \<Rightarrow> string list \<Rightarrow> 'net list" where
  "socket_parse_cidrs net_parse cidrs = List.map_filter net_parse cidrs"

definition from_instance_policy ::
  "(string \<Rightarrow> 'net option) \<Rightarrow> instance_policy \<Rightarrow> 'net socket_policy_check" where
  "from_instance_policy net_parse p = \<lparr>
     spc_allow_inbound = np_allow_inbound (ip_network p),
     spc_allow_outbound_tcp = np_allow_outbound_tcp (ip_network p),
     spc_allow_outbound_udp = np_allow_outbound_udp (ip_network p),
     spc_allowed_bind_ports = set (np_allowed_bind_ports (ip_network p)),
     spc_allowed_cidrs = socket_parse_cidrs net_parse (np_allowed_cidrs (ip_network p)),
     spc_denied_cidrs = socket_parse_cidrs net_parse (np_denied_cidrs (ip_network p)) \<rparr>"

definition outbound_ip_allowed ::
  "('net \<Rightarrow> ip_addr \<Rightarrow> bool) \<Rightarrow> 'net socket_policy_check \<Rightarrow> ip_addr \<Rightarrow> (string, unit) result" where
  "outbound_ip_allowed net_contains s ip =
     (if list_ex (\<lambda>n. net_contains n ip) (spc_denied_cidrs s) then Err ''destination in denied_cidrs''
      else if spc_allowed_cidrs s \<noteq> [] \<and> \<not> list_ex (\<lambda>n. net_contains n ip) (spc_allowed_cidrs s)
      then Err ''destination not in allowed_cidrs''
      else Ok ())"

definition socket_check ::
  "('net \<Rightarrow> ip_addr \<Rightarrow> bool) \<Rightarrow> 'net socket_policy_check \<Rightarrow> socket_addr \<Rightarrow> socket_addr_use
    \<Rightarrow> (string, unit) result" where
  "socket_check net_contains s addr use_type =
     (if use_type \<in> {TcpBind, TcpListen} then
        (if \<not> spc_allow_inbound s then Err ''inbound tcp bind disabled''
         else if sa_port addr \<notin> spc_allowed_bind_ports s then Err ''bind port not allowed''
         else Ok ())
      else if use_type = TcpAccept then
        (if \<not> spc_allow_inbound s then Err ''inbound tcp accept disabled'' else Ok ())
      else if use_type = TcpConnect then
        (if \<not> spc_allow_outbound_tcp s then Err ''outbound tcp disabled''
         else outbound_ip_allowed net_contains s (sa_ip addr))
      else
        (if \<not> spc_allow_outbound_udp s then Err ''outbound udp disabled''
         else outbound_ip_allowed net_contains s (sa_ip addr)))"

section \<open>Composed check\<close>

text \<open>The first stage answers whether to go on, and whether a slot has been reserved.\<close>

definition policy_stage ::
  "('net \<Rightarrow> ip_addr \<Rightarrow> bool) \<Rightarrow> 'net socket_policy_check \<Rightarrow> socket_addr \<Rightarrow> socket_addr_use
    \<Rightarrow> 'net policy_enforcer \<Rightarrow> bool option \<times> 'net policy_enforcer" where
  "policy_stage net_contains s addr use_type e =
     (if use_type \<in> {TcpBind, TcpListen} then
        (case check_tcp_bind (sa_port addr) e of
           (Inr _, e') \<Rightarrow> (Some False, e') | (Inl _, e') \<Rightarrow> (None, e'))
      else if use_type = TcpConnect then
        (case check_outbound_tcp_connect net_contains (sa_ip addr) e of
           (Inr _, e') \<Rightarrow> (Some True, e') | (Inl _, e') \<Rightarrow> (None, e'))
      else (if is_ok (socket_check net_contains s addr use_type) then Some False else None, e))"

definition compose_socket_addr_check ::
  "('net \<Rightarrow> ip_addr \<Rightarrow> bool) \<Rightarrow> 'net socket_policy_check
    \<Rightarrow> (socket_addr \<Rightarrow> socket_addr_use \<Rightarrow> bool) option
    \<Rightarrow> socket_addr \<Rightarrow> socket_addr_use \<Rightarrow> 'net policy_enforcer \<Rightarrow> bool \<times> 'net policy_enforcer" where
  "compose_socket_addr_check net_contains s extra addr use_type e =
     (case policy_stage net_contains s addr use_type e of
        (None, e) \<Rightarrow> (False, e)
      | (Some reserved_outbound_slot, e) \<Rightarrow>
          (let extra_allowed = (case extra of None \<Rightarrow> True | Some check \<Rightarrow> check addr use_type)
           in if \<not> extra_allowed
              then (False, if reserved_outbound_slot then record_outbound_disconnect e else e)
              else (True, if reserved_outbound_slot then record_outbound_connect e else e)))"

section \<open>The enforcer and the snapshot of one policy\<close>

text \<open>An enforcer built from a policy, at any later time.\<close>

definition enforces :: "(string \<Rightarrow> 'net option) \<Rightarrow> instance_policy \<Rightarrow> 'net policy_enforcer \<Rightarrow> bool" where
  "enforces net_parse p e \<longleftrightarrow> policy e = p \<and>
     allowed_cidrs_parsed e = parse_cidrs net_parse (np_allowed_cidrs (ip_network p)) \<and>
     denied_cidrs_parsed e = parse_cidrs net_parse (np_denied_cidrs (ip_network p))"

text \<open>Slots of other stores are never counted as this store's own.\<close>

definition slots_consistent :: "'net policy_enforcer \<Rightarrow> bool" where
  "slots_consistent e \<longleftrightarrow>
     local_outbound_connections_active e \<le> outbound_connections_active (counters e) \<and>
     outbound_connections_active (counters e) \<le> np_max_outbound_connections (network_of e)"

definition slot_free :: "'net policy_enforcer \<Rightarrow> bool" where
  "slot_free e \<longleftrightarrow>
     outbound_connections_active (counters e) < np_max_outbound_connections (network_of e)"

lemma snapshot_connect_iff:
  assumes "enforces net_parse p e"
  shows "is_ok (socket_check net_contains (from_instance_policy net_parse p) addr TcpConnect) \<longleftrightarrow>
    destination_allowed net_contains (sa_ip addr) e"
  using assms
  by (auto simp: enforces_def socket_check_def from_instance_policy_def outbound_ip_allowed_def
      destination_allowed_def socket_parse_cidrs_def parse_cidrs_def ip_in_cidrs_def is_ok_iff)

lemma snapshot_bind_iff:
  assumes "enforces net_parse p e" and "use_type \<in> {TcpBind, TcpListen}"
  shows "is_ok (socket_check net_contains (from_instance_policy net_parse p) addr use_type) \<longleftrightarrow>
    is_ok (fst (check_tcp_bind (sa_port addr) e))"
  using assms
  by (auto simp: enforces_def socket_check_def from_instance_policy_def check_tcp_bind_def
      check_bind_def deny_bind_def is_ok_iff)

lemma connect_ok_iff:
  "is_ok (fst (check_outbound_tcp_connect net_contains ip e)) \<longleftrightarrow>
     destination_allowed net_contains ip e \<and> slot_free e"
  using check_connect_refused [of net_contains ip e]
  by (cases "destination_allowed net_contains ip e")
    (auto simp: check_connect_allowed deny_connection_def slot_free_def)

text \<open>Connections the composed check grants over a sequence of checks of one store.\<close>

fun socket_run ::
  "('net \<Rightarrow> ip_addr \<Rightarrow> bool) \<Rightarrow> 'net socket_policy_check
    \<Rightarrow> (socket_addr \<Rightarrow> socket_addr_use \<Rightarrow> bool) option
    \<Rightarrow> (socket_addr \<times> socket_addr_use) list \<Rightarrow> 'net policy_enforcer \<Rightarrow> nat \<times> 'net policy_enforcer" where
  "socket_run net_contains s extra [] e = (0, e)"
| "socket_run net_contains s extra ((addr, use_type) # rs) e =
     (case compose_socket_addr_check net_contains s extra addr use_type e of (granted, e1) \<Rightarrow>
      case socket_run net_contains s extra rs e1 of (n, e2) \<Rightarrow>
        ((if granted \<and> use_type = TcpConnect then Suc n else n), e2))"

lemma unat_add_one_minus_one: "(w + 1) - 1 = (w :: 'a::len word)"
  by simp

lemma compose_slots:
  assumes "slots_consistent e"
  shows "slots_consistent (snd (compose_socket_addr_check net_contains s extra addr use_type e)) \<and>
    policy (snd (compose_socket_addr_check net_contains s extra addr use_type e)) = policy e \<and>
    unat (outbound_connections_active
      (counters (snd (compose_socket_addr_check net_contains s extra addr use_type e)))) =
      unat (outbound_connections_active (counters e)) +
      (if fst (compose_socket_addr_check net_contains s extra addr use_type e) \<and>
          use_type = TcpConnect then 1 else 0)"
proof (cases "use_type = TcpConnect")
  case False
  then show ?thesis
    using assms
    by (auto simp: compose_socket_addr_check_def policy_stage_def check_tcp_bind_def check_bind_def
        deny_bind_def slots_consistent_def split: option.splits)
next
  case True
  show ?thesis
  proof (cases "destination_allowed net_contains (sa_ip addr) e \<and> slot_free e")
    case free: True
    let ?a = "outbound_connections_active (counters e)" and ?l = "local_outbound_connections_active e"
    have a: "?a < np_max_outbound_connections (network_of e)"
      using free by (simp add: slot_free_def)
    then have up: "unat (?a + 1) = Suc (unat ?a)" "?a + 1 \<le> np_max_outbound_connections (network_of e)"
      by (rule unat_Suc_no_wrap, rule word_Suc_le)
    have "?l < np_max_outbound_connections (network_of e)"
      using assms a by (auto simp: slots_consistent_def)
    then have "unat (?l + 1) = Suc (unat ?l)"
      by (rule unat_Suc_no_wrap)
    then have l: "?l + 1 \<le> ?a + 1" "?l + 1 \<noteq> 0" "?a + 1 \<noteq> 0"
      using up(1) assms by (auto simp: slots_consistent_def word_le_nat_alt unat_eq_zero
          simp flip: unat_0_iff)
    show ?thesis
      using free a up l assms True
      by (auto simp: compose_socket_addr_check_def policy_stage_def check_connect_allowed
          record_outbound_connect_def record_outbound_disconnect_def Let_def slots_consistent_def
          split: option.splits)
  next
    case full: False
    then have "\<exists>d. check_outbound_tcp_connect net_contains (sa_ip addr) e = deny_connection d e"
      using check_connect_refused [of net_contains "sa_ip addr" e]
      by (cases "destination_allowed net_contains (sa_ip addr) e")
        (auto simp: check_connect_allowed slot_free_def)
    then show ?thesis
      using assms True
      by (auto simp: compose_socket_addr_check_def policy_stage_def deny_connection_def
          slots_consistent_def)
  qed
qed

lemma socket_run_slots:
  assumes "slots_consistent e"
  shows "unat (outbound_connections_active (counters (snd (socket_run net_contains s extra rs e)))) =
      unat (outbound_connections_active (counters e)) + fst (socket_run net_contains s extra rs e) \<and>
    slots_consistent (snd (socket_run net_contains s extra rs e)) \<and>
    policy (snd (socket_run net_contains s extra rs e)) = policy e"
  using assms
proof (induction rs arbitrary: e)
  case (Cons r rs)
  obtain addr use_type where r: "r = (addr, use_type)" by force
  let ?e = "snd (compose_socket_addr_check net_contains s extra addr use_type e)"
  note step = compose_slots [OF Cons.prems, of net_contains s extra addr use_type]
  from Cons.IH [of ?e] step show ?case
    by (cases "use_type = TcpConnect") (simp_all add: r case_prod_unfold)
qed simp

section \<open>Properties\<close>

text \<open>
  (C14) The composed socket check of a store admits an operation exactly when the snapshot of the
  policy admits it, a connection slot is free if the operation is an outbound connection, and the
  extra check, if there is one, agrees: the enforcer and the snapshot, two implementations of the
  same policy, never disagree.
\<close>

theorem socket_check_decision:
  assumes "enforces net_parse p e"
  shows "fst (compose_socket_addr_check net_contains (from_instance_policy net_parse p) extra
      addr use_type e) \<longleftrightarrow>
    is_ok (socket_check net_contains (from_instance_policy net_parse p) addr use_type) \<and>
    (use_type = TcpConnect \<longrightarrow> slot_free e) \<and>
    (case extra of None \<Rightarrow> True | Some check \<Rightarrow> check addr use_type)"
proof -
  let ?s = "from_instance_policy net_parse p"
  have compose: "fst (compose_socket_addr_check net_contains ?s extra addr use_type e) \<longleftrightarrow>
      fst (policy_stage net_contains ?s addr use_type e) \<noteq> None \<and>
      (case extra of None \<Rightarrow> True | Some check \<Rightarrow> check addr use_type)"
    by (auto simp: compose_socket_addr_check_def Let_def split: option.splits prod.splits)
  have "fst (policy_stage net_contains ?s addr use_type e) \<noteq> None \<longleftrightarrow>
      is_ok (socket_check net_contains ?s addr use_type) \<and> (use_type = TcpConnect \<longrightarrow> slot_free e)"
  proof (cases "use_type = TcpConnect")
    case True
    then show ?thesis
      using connect_ok_iff [of net_contains "sa_ip addr" e] snapshot_connect_iff [OF assms]
      by (auto simp: policy_stage_def is_ok_iff split: prod.splits sum.splits)
  next
    case False
    then show ?thesis
      using snapshot_bind_iff [OF assms, of use_type net_contains addr]
      by (auto simp: policy_stage_def is_ok_iff split: prod.splits sum.splits)
  qed
  with compose show ?thesis by blast
qed

theorem socket_check_decision_witness:
  "fst (compose_socket_addr_check (=) (from_instance_policy single_parse w_policy) None
     \<lparr>sa_ip = V4 0x0A000001, sa_port = 443\<rparr> TcpConnect w_enforcer)"
proof -
  have "enforces single_parse w_policy w_enforcer"
    by (simp add: enforces_def w_enforcer_def policy_enforcer_new_def with_counters_def)
  from socket_check_decision [OF this, of "(=)" None] show ?thesis
    by (simp add: socket_check_def from_instance_policy_def outbound_ip_allowed_def
        socket_parse_cidrs_def List.map_filter_simps single_parse_def w_policy_def slot_free_def
        w_enforcer_def policy_enforcer_new_def with_counters_def policy_counters_new_def)
qed

text \<open>
  Closing a connection gives no slot back: over the whole life of a store, whatever socket
  checks it makes, every connection granted keeps its slot, so that the number of connections ever
  granted, and not only the number open at once, is bounded by what the limit leaves free at the
  start; once they are used up every further connection is denied.
\<close>

theorem connection_limit_is_cumulative:
  assumes "slots_consistent e"
  shows "unat (outbound_connections_active (counters e)) +
      fst (socket_run net_contains s extra rs e)
        \<le> unat (np_max_outbound_connections (network_of e)) \<and>
    (unat (outbound_connections_active (counters e)) + fst (socket_run net_contains s extra rs e)
        = unat (np_max_outbound_connections (network_of e)) \<longrightarrow>
      \<not> fst (compose_socket_addr_check net_contains s extra addr TcpConnect
        (snd (socket_run net_contains s extra rs e))))"
proof -
  let ?e = "snd (socket_run net_contains s extra rs e)"
  note run = socket_run_slots [OF assms, of net_contains s extra rs]
  have bound: "unat (outbound_connections_active (counters ?e)) \<le> unat (np_max_outbound_connections (network_of ?e))"
    using run by (auto simp: slots_consistent_def word_le_nat_alt)
  have "fst (compose_socket_addr_check net_contains s extra addr TcpConnect ?e) \<longrightarrow> slot_free ?e"
    using connect_ok_iff [of net_contains "sa_ip addr" ?e]
    by (auto simp: compose_socket_addr_check_def policy_stage_def is_ok_iff
        split: prod.splits sum.splits)
  with run bound show ?thesis
    unfolding slot_free_def word_less_nat_alt by (metis less_irrefl_nat)
qed

theorem connection_limit_is_cumulative_witness:
  "fst (socket_run (=) (from_instance_policy single_parse w_policy) None
     (replicate 5 (\<lparr>sa_ip = V4 0x0A000001, sa_port = 443\<rparr>, TcpConnect)) w_enforcer) \<le> 2"
  using connection_limit_is_cumulative [of w_enforcer "(=)" "from_instance_policy single_parse w_policy"
      None "replicate 5 (\<lparr>sa_ip = V4 0x0A000001, sa_port = 443\<rparr>, TcpConnect)"]
  by (simp add: slots_consistent_def w_enforcer_def policy_enforcer_new_def with_counters_def
      policy_counters_new_def w_policy_def)

end
