(* ===== verification/Memory_Limiter.thy ===== *)
theory Memory_Limiter
  imports Policy_Tracker App_Types
begin

text \<open>
  The resource limiter of a store (\<open>crates/runtime/src/limits.rs\<close>), which wasmtime asks before a
  linear memory or a table grows. \<open>usize\<close> has 64 bits. The counters the limiter shares with the
  enforcer and with the other stores of the instance are passed in and out of each call.
\<close>

section \<open>Limiter\<close>

definition EPOCH_DEADLINE_TICKS :: u64 where
  "EPOCH_DEADLINE_TICKS = 3000"

record memory_limiter =
  max_memory :: u64
  memory_used :: u64
  ml_max_table_elements :: u32
  table_elements :: u32
  ml_policy_counters :: "policy_counters option"

definition memory_limiter_new ::
  "memory_pages \<Rightarrow> extended_limits \<Rightarrow> policy_counters option \<Rightarrow> memory_limiter" where
  "memory_limiter_new limit ext pc = \<lparr> max_memory = memory_pages_to_bytes limit, memory_used = 0,
     ml_max_table_elements = xl_max_table_elements ext, table_elements = 0,
     ml_policy_counters = pc \<rparr>"

definition record_counters :: "(policy_counters \<Rightarrow> policy_counters) \<Rightarrow> memory_limiter \<Rightarrow> memory_limiter" where
  "record_counters f m = m\<lparr> ml_policy_counters := map_option f (ml_policy_counters m) \<rparr>"

definition record_memory_growth_denied :: "memory_limiter \<Rightarrow> memory_limiter" where
  "record_memory_growth_denied = record_counters (\<lambda>c. c\<lparr> memory_growth_denied_total :=
     memory_growth_denied_total c + 1 \<rparr>)"

definition record_table_growth_denied :: "memory_limiter \<Rightarrow> memory_limiter" where
  "record_table_growth_denied = record_counters (\<lambda>c. c\<lparr> table_growth_denied_total :=
     table_growth_denied_total c + 1 \<rparr>)"

definition record_memory_growth :: "u64 \<Rightarrow> memory_limiter \<Rightarrow> memory_limiter" where
  "record_memory_growth desired = record_counters (\<lambda>c. c\<lparr> current_memory_bytes := desired,
     memory_bytes_peak := update_peak (memory_bytes_peak c) desired \<rparr>)"

definition record_table_growth :: "u32 \<Rightarrow> memory_limiter \<Rightarrow> memory_limiter" where
  "record_table_growth desired = record_counters (\<lambda>c. c\<lparr> current_table_elements := desired,
     table_elements_peak := update_peak (table_elements_peak c) desired \<rparr>)"

definition memory_growing :: "u64 \<Rightarrow> memory_limiter \<Rightarrow> bool \<times> memory_limiter" where
  "memory_growing desired m =
     (if desired > max_memory m then (False, record_memory_growth_denied m)
      else (True, record_memory_growth desired (m\<lparr> memory_used := desired \<rparr>)))"

definition table_growing :: "u64 \<Rightarrow> memory_limiter \<Rightarrow> bool \<times> memory_limiter" where
  "table_growing desired' m =
     (let desired = (ucast desired' :: u32)
      in if desired > ml_max_table_elements m then (False, record_table_growth_denied m)
         else (True, record_table_growth desired (m\<lparr> table_elements := desired \<rparr>)))"

section \<open>The stores of an instance\<close>

text \<open>
  Every request of a \<open>wasi:http\<close> instance runs in a store of its own (\<open>build_store_state\<close> in
  \<open>crates/runtime/src/executor.rs\<close>): each store has its limiter, all of them built from the same configuration, and
  they share the instance's counters. wasmtime asks the limiter of a store for each memory and each table of that store.
  The sizes granted to the memories are kept beside, by store and memory.
\<close>

datatype growth = GrowMemory nat u64 | GrowTable u64

record instance_memories =
  im_limiters :: "nat \<Rightarrow> memory_limiter"
  im_counters :: policy_counters
  im_sizes :: "nat \<times> nat \<Rightarrow> u64"

definition instance_memories_new :: "memory_pages \<Rightarrow> extended_limits \<Rightarrow> instance_memories" where
  "instance_memories_new limit ext = \<lparr> im_limiters = (\<lambda>_. memory_limiter_new limit ext (Some policy_counters_new)),
     im_counters = policy_counters_new, im_sizes = (\<lambda>_. 0) \<rparr>"

definition shared_limiter :: "nat \<Rightarrow> instance_memories \<Rightarrow> memory_limiter" where
  "shared_limiter store a = (im_limiters a store)\<lparr> ml_policy_counters := Some (im_counters a) \<rparr>"

definition put_limiter :: "nat \<Rightarrow> memory_limiter \<Rightarrow> instance_memories \<Rightarrow> instance_memories" where
  "put_limiter store m a = a\<lparr> im_limiters := (im_limiters a)(store := m),
     im_counters := (case ml_policy_counters m of Some c \<Rightarrow> c | None \<Rightarrow> im_counters a) \<rparr>"

fun grow :: "nat \<times> growth \<Rightarrow> instance_memories \<Rightarrow> instance_memories" where
  "grow (store, GrowMemory k d) a =
     (let (granted, m) = memory_growing d (shared_limiter store a); a' = put_limiter store m a
      in if granted then a'\<lparr> im_sizes := (im_sizes a')((store, k) := d) \<rparr> else a')"
| "grow (store, GrowTable d) a = put_limiter store (snd (table_growing d (shared_limiter store a))) a"

text \<open>The sizes asked for that are within a limit in bytes, and the requests beyond it.\<close>

fun sizes_within :: "nat \<Rightarrow> (nat \<times> growth) list \<Rightarrow> u64 list" where
  "sizes_within limit [] = []"
| "sizes_within limit ((_, GrowMemory _ d) # rs) = (if unat d \<le> limit then [d] else []) @ sizes_within limit rs"
| "sizes_within limit ((_, GrowTable _) # rs) = sizes_within limit rs"

fun sizes_beyond :: "nat \<Rightarrow> (nat \<times> growth) list \<Rightarrow> nat" where
  "sizes_beyond limit [] = 0"
| "sizes_beyond limit ((_, GrowMemory _ d) # rs) = (if unat d \<le> limit then 0 else 1) + sizes_beyond limit rs"
| "sizes_beyond limit ((_, GrowTable _) # rs) = sizes_beyond limit rs"

section \<open>Invariant\<close>

definition memories_inv :: "u64 \<Rightarrow> instance_memories \<Rightarrow> bool" where
  "memories_inv limit a \<longleftrightarrow> (\<forall>i. max_memory (im_limiters a i) = limit) \<and>
     (\<forall>i k. im_sizes a (i, k) \<le> memory_bytes_peak (im_counters a)) \<and> memory_bytes_peak (im_counters a) \<le> limit"

lemmas limiter_defs = memory_growing_def table_growing_def record_memory_growth_denied_def
  record_table_growth_denied_def record_memory_growth_def record_table_growth_def record_counters_def

lemma update_peak_bounds:
  "candidate \<le> update_peak peak candidate"
  "peak \<le> update_peak peak candidate"
  "peak \<le> b \<Longrightarrow> candidate \<le> b \<Longrightarrow> update_peak peak candidate \<le> b"
  by (auto simp: update_peak_def)

lemma memory_growing_iff: "fst (memory_growing d m) \<longleftrightarrow> d \<le> max_memory m"
  by (auto simp: memory_growing_def)

lemma memory_growing_granted:
  "d \<le> max_memory m \<Longrightarrow> memory_growing d m = (True, record_memory_growth d (m\<lparr> memory_used := d \<rparr>))"
  "\<not> d \<le> max_memory m \<Longrightarrow> memory_growing d m = (False, record_memory_growth_denied m)"
  by (simp_all add: memory_growing_def)

lemma grow_memory_counters:
  assumes "max_memory (im_limiters a i) = limit"
  shows "im_counters (grow (i, GrowMemory k d) a) =
      (if d \<le> limit then (im_counters a)\<lparr> current_memory_bytes := d,
           memory_bytes_peak := update_peak (memory_bytes_peak (im_counters a)) d \<rparr>
       else (im_counters a)\<lparr> memory_growth_denied_total := memory_growth_denied_total (im_counters a) + 1 \<rparr>)"
    and "im_sizes (grow (i, GrowMemory k d) a) = (if d \<le> limit then (im_sizes a)((i, k) := d) else im_sizes a)"
    and "max_memory (im_limiters (grow (i, GrowMemory k d) a) j) = max_memory (im_limiters a j)"
  using assms by (auto simp: limiter_defs shared_limiter_def put_limiter_def not_less)

lemma grow_table_counters:
  "current_memory_bytes (im_counters (grow (i, GrowTable d) a)) = current_memory_bytes (im_counters a)"
  "memory_bytes_peak (im_counters (grow (i, GrowTable d) a)) = memory_bytes_peak (im_counters a)"
  "memory_growth_denied_total (im_counters (grow (i, GrowTable d) a)) = memory_growth_denied_total (im_counters a)"
  "im_sizes (grow (i, GrowTable d) a) = im_sizes a"
  "max_memory (im_limiters (grow (i, GrowTable d) a) j) = max_memory (im_limiters a j)"
  by (simp_all add: limiter_defs shared_limiter_def put_limiter_def Let_def)

lemma grow_inv:
  assumes "memories_inv limit a"
  shows "memories_inv limit (grow r a)"
proof (cases r)
  case (Pair i g)
  show ?thesis
  proof (cases g)
    case (GrowMemory k d)
    have "max_memory (im_limiters a i) = limit"
      using assms by (simp add: memories_inv_def)
    note grown = grow_memory_counters [OF this]
    have "im_sizes a (j, l) \<le> update_peak (memory_bytes_peak (im_counters a)) d" for j l
      using assms by (simp add: memories_inv_def order_trans [OF _ update_peak_bounds(2)])
    then show ?thesis
      using assms unfolding Pair GrowMemory memories_inv_def grown by (simp add: update_peak_bounds)
  next
    case (GrowTable d)
    with assms Pair show ?thesis
      unfolding memories_inv_def Pair GrowTable grow_table_counters by simp
  qed
qed

interpretation memories: call_machine grow "memories_inv limit" for limit
  by unfold_locales (rule grow_inv)

lemma update_peak_max: "update_peak p d = max p d"
  by (auto simp: update_peak_def max_def)

lemma grow_run_counters:
  assumes "memories_inv limit a"
  shows "current_memory_bytes (im_counters (fold grow rs a)) =
      last (current_memory_bytes (im_counters a) # sizes_within (unat limit) rs) \<and>
    memory_bytes_peak (im_counters (fold grow rs a)) =
      fold max (sizes_within (unat limit) rs) (memory_bytes_peak (im_counters a)) \<and>
    memory_growth_denied_total (im_counters (fold grow rs a)) =
      memory_growth_denied_total (im_counters a) + of_nat (sizes_beyond (unat limit) rs)"
  using assms
proof (induction rs arbitrary: a)
  case (Cons r rs)
  note IH = Cons.IH [OF grow_inv [OF Cons.prems, of r]]
  have lim: "max_memory (im_limiters a i) = limit" for i
    using Cons.prems by (simp add: memories_inv_def)
  obtain i g where r: "r = (i, g)"
    by fastforce
  show ?case
  proof (cases g)
    case (GrowMemory k d)
    show ?thesis
      using IH unfolding r GrowMemory fold_Cons comp_apply grow_memory_counters [OF lim]
      by (auto simp: word_le_nat_alt update_peak_max max.commute)
  next
    case (GrowTable d)
    show ?thesis
      using IH unfolding r GrowTable fold_Cons comp_apply grow_table_counters by simp
  qed
qed simp

section \<open>Properties\<close>

text \<open>
  (C28) No linear memory of an instance exceeds the configured limit in pages. For any number of stores of one instance,
  each with any number of memories, and any order of their growth requests on the counters the stores share: every
  memory has been granted at most 64 KiB per page of the limit, computed without overflow; a request is refused if and
  only if it asks for more. The shared counters then show the size of the last request granted to any of them, the
  largest size granted, and the number of refusals (modulo \<open>2 ^ 64\<close>). The limit is one of each memory, not of their
  sum.
\<close>

theorem memory_limit_holds:
  "let limit = unat n * 65536; a = fold grow rs (instance_memories_new (MemoryPages n) ext) in
    (\<forall>i k. unat (im_sizes a (i, k)) \<le> limit) \<and>
    (\<forall>i d. fst (memory_growing d (shared_limiter i a)) \<longleftrightarrow> unat d \<le> limit) \<and>
    current_memory_bytes (im_counters a) = last (0 # sizes_within limit rs) \<and>
    memory_bytes_peak (im_counters a) = fold max (sizes_within limit rs) 0 \<and>
    memory_growth_denied_total (im_counters a) = of_nat (sizes_beyond limit rs)"
proof -
  let ?a = "instance_memories_new (MemoryPages n) ext" and ?l = "memory_pages_to_bytes (MemoryPages n)"
  have start: "memories_inv ?l ?a"
    by (simp add: memories_inv_def instance_memories_new_def memory_limiter_new_def policy_counters_new_def)
  then have inv: "memories_inv ?l (fold grow rs ?a)"
    by (rule memories.run_inv)
  have "unat (im_sizes (fold grow rs ?a) (i, k)) \<le> unat n * 65536" for i k
  proof -
    have "im_sizes (fold grow rs ?a) (i, k) \<le> ?l"
      using inv by (simp add: memories_inv_def order_trans [where y = "memory_bytes_peak (im_counters (fold grow rs ?a))"])
    then show ?thesis
      unfolding word_le_nat_alt memory_pages_to_bytes_exact .
  qed
  moreover have "fst (memory_growing d (shared_limiter i (fold grow rs ?a))) \<longleftrightarrow> unat d \<le> unat n * 65536" for i d
  proof -
    have "max_memory (shared_limiter i (fold grow rs ?a)) = ?l"
      using inv by (simp add: memories_inv_def shared_limiter_def)
    then show ?thesis
      by (simp only: memory_growing_iff word_le_nat_alt memory_pages_to_bytes_exact)
  qed
  moreover have "current_memory_bytes (im_counters ?a) = 0" "memory_bytes_peak (im_counters ?a) = 0"
      "memory_growth_denied_total (im_counters ?a) = 0"
    by (simp_all add: instance_memories_new_def policy_counters_new_def)
  ultimately show ?thesis
    using grow_run_counters [OF start, of rs] unfolding Let_def memory_pages_to_bytes_exact by simp
qed

text \<open>
  Table growth is checked on the low 32 bits only: a table request is granted if and only if
  its remainder modulo \<open>2 ^ 32\<close> is within the limit, so that a request for exactly \<open>2 ^ 32\<close> elements
  is granted under every limit, and the limiter then believes the table to be empty.
\<close>

theorem table_limit_truncates:
  "(fst (table_growing d m) \<longleftrightarrow> unat d mod 2 ^ 32 \<le> unat (ml_max_table_elements m)) \<and>
   fst (table_growing (2 ^ 32) m) \<and> table_elements (snd (table_growing (2 ^ 32) m)) = 0"
proof -
  have low: "unat (ucast w :: u32) = unat w mod 2 ^ 32" for w :: u64
    by (simp add: unsigned_ucast_eq take_bit_eq_mod)
  have zero: "(ucast (2 ^ 32 :: u64) :: u32) = 0"
    by simp
  show ?thesis
    using zero low [of d]
    by (simp add: limiter_defs Let_def linorder_not_less [symmetric] word_less_nat_alt)
qed

end
