(* ===== verification/Float64.thy ===== *)
theory Float64
  imports Complex_Main "HOL-Library.Log_Nat" Prelude
begin

text \<open>
  The arithmetic of \<open>f64\<close> as the rate limiters and the configuration use it: finite values are
  rational numbers, every operation rounds to the nearest value with a 53-bit significand (ties to
  even, subnormal numbers included), and values beyond the range become infinite. \<open>NaN\<close> compares
  false with everything.
\<close>

section \<open>Rounding\<close>

definition round_half_even :: "rat \<Rightarrow> int" where
  "round_half_even m =
     (let f = \<lfloor>m\<rfloor>; d = m - of_int f
      in if d < 1 / 2 then f else if d > 1 / 2 then f + 1 else if even f then f else f + 1)"

text \<open>The exponent of the leading bit of a positive number.\<close>

definition flog2 :: "rat \<Rightarrow> int" where
  "flog2 x =
     (case quotient_of x of (a, b) \<Rightarrow>
        let e = bitlen a - bitlen b in if power_int 2 e \<le> x then e else e - 1)"

definition ulp_exponent :: "rat \<Rightarrow> int" where
  "ulp_exponent x = max (flog2 x - 52) (- 1074)"

text \<open>The nearest value of unbounded range to a number that is not negative.\<close>

definition rnd :: "rat \<Rightarrow> rat" where
  "rnd x = (if x = 0 then 0 else
     (let k = power_int 2 (ulp_exponent x) in of_int (round_half_even (x / k)) * k))"

lemma round_half_even_floor: "\<lfloor>m\<rfloor> \<le> round_half_even m" "round_half_even m \<le> \<lfloor>m\<rfloor> + 1"
  by (simp_all add: round_half_even_def Let_def)

lemma round_half_even_int [simp]: "round_half_even (of_int n) = n"
  by (simp add: round_half_even_def)

lemma round_half_even_zero [simp]: "round_half_even 0 = 0"
  using round_half_even_int [of 0] by (simp only: of_int_0)

lemma round_half_even_error: "\<bar>of_int (round_half_even m) - m\<bar> \<le> 1 / 2"
proof -
  have "of_int \<lfloor>m\<rfloor> \<le> m" "m < of_int \<lfloor>m\<rfloor> + 1"
    by linarith+
  then show ?thesis
    by (auto simp: round_half_even_def Let_def abs_le_iff)
qed

lemma round_half_even_mono:
  assumes "m \<le> n"
  shows "round_half_even m \<le> round_half_even n"
proof (cases "\<lfloor>m\<rfloor> = \<lfloor>n\<rfloor>")
  case True
  with assms show ?thesis
    by (auto simp: round_half_even_def Let_def)
next
  case False
  with assms have "\<lfloor>m\<rfloor> + 1 \<le> \<lfloor>n\<rfloor>"
    using floor_mono [OF assms] by linarith
  then show ?thesis
    using round_half_even_floor [of m] round_half_even_floor [of n] by linarith
qed

lemma bitlen_bounds_rat:
  assumes "0 < a"
  shows "power_int 2 (bitlen a - 1) \<le> (of_int a :: rat)" "(of_int a :: rat) < power_int 2 (bitlen a)"
proof -
  define n where "n = nat (bitlen a)"
  have b: "bitlen a = int n" "0 < n"
    using bitlen_ge_iff_power [of 1 a] assms by (auto simp: n_def bitlen_nonneg)
  have "2 ^ (n - 1) \<le> a" "a < 2 ^ n"
    using bitlen_bounds [OF assms] b by (simp_all add: nat_diff_distrib)
  then have "(2 :: rat) ^ (n - 1) \<le> of_int a" "of_int a < (2 :: rat) ^ n"
    by (metis of_int_le_iff of_int_numeral of_int_power, metis of_int_less_iff of_int_numeral of_int_power)
  then show "power_int 2 (bitlen a - 1) \<le> (of_int a :: rat)" "(of_int a :: rat) < power_int 2 (bitlen a)"
    using b by (auto simp: power_int_def nat_diff_distrib)
qed

lemma flog2_bounds:
  assumes "0 < x"
  shows "power_int 2 (flog2 x) \<le> x" "x < power_int 2 (flog2 x + 1)"
proof -
  obtain a b where q: "quotient_of x = (a, b)" by force
  then have b: "0 < b" and x: "x = of_int a / of_int b"
    by (auto dest: quotient_of_denom_pos quotient_of_div)
  with assms have a: "0 < a"
    by (simp add: zero_less_divide_iff)
  let ?e = "bitlen a - bitlen b"
  note ba = bitlen_bounds_rat [OF a] and bb = bitlen_bounds_rat [OF b]
  have "power_int 2 (?e - 1) = power_int 2 (bitlen a - 1) / (power_int 2 (bitlen b) :: rat)"
    by (simp add: power_int_diff)
  also have "\<dots> < x"
    unfolding x using ba(1) bb(2) b a
    by (intro frac_less2) auto
  finally have low: "power_int 2 (?e - 1) < x" .
  have "x < power_int 2 (bitlen a) / (power_int 2 (bitlen b - 1) :: rat)"
    unfolding x using ba(2) bb(1) b a by (intro frac_less) auto
  also have "\<dots> = power_int 2 (?e + 1)"
    by (simp add: power_int_diff power_int_add)
  finally have high: "x < power_int 2 (?e + 1)" .
  show "power_int 2 (flog2 x) \<le> x" "x < power_int 2 (flog2 x + 1)"
    using low high by (auto simp: flog2_def q Let_def)
qed

lemma flog2_mono:
  assumes "0 < x" and "x \<le> y"
  shows "flog2 x \<le> flog2 y"
proof (rule ccontr)
  assume "\<not> flog2 x \<le> flog2 y"
  then have "flog2 y + 1 \<le> flog2 x" by linarith
  then have "power_int (2 :: rat) (flog2 y + 1) \<le> power_int 2 (flog2 x)"
    by (intro power_int_increasing) auto
  with flog2_bounds [of x] flog2_bounds [of y] assms show False
    by linarith
qed

lemma power2_pos [simp]: "0 < power_int (2 :: rat) k"
  by simp

lemma power2_shift: "power_int (2 :: rat) (k + int n) = 2 ^ n * power_int 2 k"
  by (simp add: power_int_add)

lemma power2_le_exponent: "power_int (2 :: rat) m \<le> power_int 2 n \<Longrightarrow> m \<le> n"
  using power_int_strict_increasing [of n m "2 :: rat"] by force

lemma power2_quotient: "u \<le> k \<Longrightarrow> power_int (2 :: rat) k / power_int 2 u = 2 ^ nat (k - u)"
  using power2_shift [of u "nat (k - u)"] by simp

text \<open>The values of the format, range aside.\<close>

definition rep :: "rat \<Rightarrow> bool" where
  "rep x \<longleftrightarrow> (\<exists>n k. \<bar>n\<bar> \<le> 2 ^ 53 \<and> - 1074 \<le> k \<and> x = of_int n * power_int 2 k)"

lemma rnd_zero [simp]: "rnd 0 = 0"
  by (simp add: rnd_def)

lemma rnd_pos_eq:
  "0 < x \<Longrightarrow> rnd x = of_int (round_half_even (x / power_int 2 (ulp_exponent x))) * power_int 2 (ulp_exponent x)"
  by (simp add: rnd_def Let_def)

lemma significand_bounds:
  assumes "0 < x"
  shows "x / power_int 2 (ulp_exponent x) < 2 ^ 53"
    and "ulp_exponent x = flog2 x - 52 \<Longrightarrow> 2 ^ 52 \<le> x / power_int 2 (ulp_exponent x)"
proof -
  let ?k = "power_int (2 :: rat) (ulp_exponent x)"
  have "power_int (2 :: rat) (flog2 x + 1) = 2 ^ 53 * power_int 2 (flog2 x - 52)"
    using power2_shift [of "flog2 x - 52" 53] by (simp add: add.commute)
  also have "\<dots> \<le> 2 ^ 53 * ?k"
    by (simp add: ulp_exponent_def power_int_increasing)
  finally have "x < 2 ^ 53 * ?k"
    using flog2_bounds(2) [OF assms] by linarith
  then show "x / ?k < 2 ^ 53"
    by (simp add: divide_less_eq)
  assume k: "ulp_exponent x = flog2 x - 52"
  have "power_int (2 :: rat) (flog2 x) = 2 ^ 52 * power_int 2 (flog2 x - 52)"
    using power2_shift [of "flog2 x - 52" 52] by simp
  with k flog2_bounds(1) [OF assms] show "2 ^ 52 \<le> x / ?k"
    by (simp add: le_divide_eq)
qed

lemma rnd_significand:
  assumes "0 < x"
  shows "0 \<le> round_half_even (x / power_int 2 (ulp_exponent x))"
    and "round_half_even (x / power_int 2 (ulp_exponent x)) \<le> 2 ^ 53"
proof -
  let ?m = "x / power_int 2 (ulp_exponent x)"
  have "0 \<le> ?m"
    using assms by (intro divide_nonneg_nonneg) auto
  then have "round_half_even 0 \<le> round_half_even ?m"
    by (rule round_half_even_mono)
  then show "0 \<le> round_half_even ?m"
    by (simp only: round_half_even_zero)
  have "round_half_even ?m \<le> round_half_even (of_int (2 ^ 53))"
    using significand_bounds(1) [OF assms]
    by (intro round_half_even_mono) (simp only: of_int_power of_int_numeral less_imp_le)
  then show "round_half_even ?m \<le> 2 ^ 53"
    by (simp only: round_half_even_int)
qed

lemma rnd_rep: "0 \<le> x \<Longrightarrow> rep (rnd x)"
proof (cases "x = 0")
  case True
  then show ?thesis by (auto simp: rep_def intro!: exI [of _ 0])
next
  case False
  assume "0 \<le> x"
  with False have "0 < x" by simp
  have "- 1074 \<le> ulp_exponent x" by (simp add: ulp_exponent_def)
  with rnd_significand [OF \<open>0 < x\<close>] rnd_pos_eq [OF \<open>0 < x\<close>] show ?thesis
    unfolding rep_def by (metis abs_of_nonneg)
qed

lemma rnd_nonneg: "0 \<le> x \<Longrightarrow> 0 \<le> rnd x"
  using rnd_significand(1) [of x] rnd_pos_eq [of x] by (cases "x = 0") auto

lemma rnd_fixpoint:
  assumes "rep x" and "0 \<le> x"
  shows "rnd x = x"
proof (cases "x = 0")
  case False
  with assms have x: "0 < x" by simp
  from assms obtain n k where n: "\<bar>n\<bar> \<le> 2 ^ 53" and k: "- 1074 \<le> k" and xe: "x = of_int n * power_int 2 k"
    by (auto simp: rep_def)
  let ?u = "ulp_exponent x"
  have "\<exists>m. x / power_int 2 ?u = of_int m"
  proof (cases "?u \<le> k")
    case True
    then have "x / power_int 2 ?u = of_int n * 2 ^ nat (k - ?u)"
      unfolding power2_quotient [OF True, symmetric] by (metis times_divide_eq_right xe)
    then have "x / power_int 2 ?u = of_int (n * 2 ^ nat (k - ?u))"
      by (simp only: of_int_mult of_int_power of_int_numeral)
    then show ?thesis by blast
  next
    case False
    with k have u: "?u = flog2 x - 52" by (auto simp: ulp_exponent_def)
    have "power_int (2 :: rat) (flog2 x) \<le> 2 ^ 53 * power_int 2 k"
    proof -
      have "of_int n \<le> (2 ^ 53 :: rat)"
        using n by (metis abs_le_D1 of_int_le_iff of_int_numeral of_int_power)
      then have "x \<le> 2 ^ 53 * power_int 2 k"
        unfolding xe by (intro mult_right_mono) auto
      with flog2_bounds(1) [OF x] show ?thesis by linarith
    qed
    also have "\<dots> = power_int 2 (k + 53)"
      using power2_shift [of k 53] by simp
    finally have "flog2 x \<le> k + 53"
      by (rule power2_le_exponent)
    with False u have "?u = k + 1" and e: "flog2 x = k + 53" by auto
    have "power_int (2 :: rat) (k + 53) \<le> x"
      using flog2_bounds(1) [OF x] e by simp
    then have "2 ^ 53 \<le> (of_int n :: rat)"
      unfolding power2_shift [of k 53, simplified] by (subst (asm) xe) simp
    then have "2 ^ 53 \<le> n"
      by (metis of_int_le_iff of_int_numeral of_int_power)
    with n have "n = 2 ^ 53" by simp
    then have "x / power_int 2 ?u = of_int (2 ^ 52)"
      using \<open>?u = k + 1\<close> by (simp add: xe power_int_add)
    then show ?thesis by blast
  qed
  then show ?thesis
    using rnd_pos_eq [OF x] by (metis nonzero_eq_divide_eq power2_pos less_irrefl round_half_even_int)
qed simp

lemma rnd_error:
  assumes "0 < x"
  shows "\<bar>rnd x - x\<bar> \<le> power_int 2 (ulp_exponent x) / 2"
proof -
  let ?k = "power_int (2 :: rat) (ulp_exponent x)"
  have "rnd x - x = (of_int (round_half_even (x / ?k)) - x / ?k) * ?k"
    by (simp add: rnd_pos_eq [OF assms] left_diff_distrib)
  also have "\<bar>\<dots>\<bar> \<le> 1 / 2 * ?k"
    unfolding abs_mult using round_half_even_error [of "x / ?k"] by (intro mult_mono) auto
  finally show ?thesis by simp
qed

text \<open>The relative error on numbers that are not subnormal.\<close>

definition unit_roundoff :: rat where
  "unit_roundoff = 1 / 2 ^ 53"

lemma rnd_relative_error:
  assumes "x = 0 \<or> power_int 2 (- 1022) \<le> x"
  shows "\<bar>rnd x - x\<bar> \<le> unit_roundoff * x"
proof (cases "x = 0")
  case False
  with assms have x: "power_int 2 (- 1022) \<le> x" by simp
  then have pos: "0 < x" using power2_pos [of "- 1022"] by linarith
  have "- 1022 \<le> flog2 x"
  proof (rule ccontr)
    assume "\<not> - 1022 \<le> flog2 x"
    then have "power_int (2 :: rat) (flog2 x + 1) \<le> power_int 2 (- 1022)"
      by (intro power_int_increasing) auto
    with flog2_bounds(2) [OF pos] x show False by linarith
  qed
  then have "ulp_exponent x = flog2 x - 52"
    by (simp add: ulp_exponent_def)
  then have "power_int 2 (ulp_exponent x) / 2 = unit_roundoff * power_int 2 (flog2 x)"
    using power2_shift [of "flog2 x - 52" 52] by (simp add: unit_roundoff_def)
  also have "\<dots> \<le> unit_roundoff * x"
    using flog2_bounds(1) [OF pos] by (intro mult_left_mono) (auto simp: unit_roundoff_def)
  finally show ?thesis
    using rnd_error [OF pos] by linarith
qed simp

lemma rnd_mono:
  assumes "0 \<le> x" and "x \<le> y"
  shows "rnd x \<le> rnd y"
proof (cases "x = 0")
  case True
  with assms rnd_nonneg [of y] show ?thesis by simp
next
  case False
  with assms have x: "0 < x" and y: "0 < y" by auto
  have u: "ulp_exponent x \<le> ulp_exponent y"
    using flog2_mono [OF x assms(2)] by (simp add: ulp_exponent_def)
  show ?thesis
  proof (cases "ulp_exponent x = ulp_exponent y")
    case True
    have "round_half_even (x / power_int 2 (ulp_exponent y)) \<le> round_half_even (y / power_int 2 (ulp_exponent y))"
      using assms(2) by (intro round_half_even_mono divide_right_mono) auto
    then show ?thesis
      unfolding rnd_pos_eq [OF x] rnd_pos_eq [OF y] True by (intro mult_right_mono) auto
  next
    case False
    with u have lt: "ulp_exponent x < ulp_exponent y" by simp
    then have uy: "ulp_exponent y = flog2 y - 52"
      by (auto simp: ulp_exponent_def)
    have "rnd x \<le> 2 ^ 53 * power_int 2 (ulp_exponent x)"
    proof -
      have "of_int (round_half_even (x / power_int 2 (ulp_exponent x))) \<le> (2 ^ 53 :: rat)"
        using rnd_significand(2) [OF x] by (metis of_int_le_iff of_int_numeral of_int_power)
      then show ?thesis
        unfolding rnd_pos_eq [OF x] by (intro mult_right_mono) auto
    qed
    also have "\<dots> = 2 ^ 52 * power_int 2 (ulp_exponent x + 1)"
      by (simp add: power_int_add)
    also have "\<dots> \<le> 2 ^ 52 * power_int 2 (ulp_exponent y)"
      using lt by (intro mult_left_mono power_int_increasing) auto
    also have "\<dots> \<le> rnd y"
    proof -
      have "round_half_even (of_int (2 ^ 52)) \<le> round_half_even (y / power_int 2 (ulp_exponent y))"
        using significand_bounds(2) [OF y uy] by (intro round_half_even_mono) simp
      then have "(2 ^ 52 :: rat) \<le> of_int (round_half_even (y / power_int 2 (ulp_exponent y)))"
        by (metis of_int_le_iff of_int_numeral of_int_power round_half_even_int)
      then show ?thesis
        unfolding rnd_pos_eq [OF y] by (intro mult_right_mono) auto
    qed
    finally show ?thesis .
  qed
qed

text \<open>Whole numbers up to \<open>2 ^ 53\<close> are values, and taking one away from a value of at least one is exact.\<close>

lemma rep_int: "\<bar>n\<bar> \<le> 2 ^ 53 \<Longrightarrow> rep (of_int n)"
  unfolding rep_def by (rule exI [of _ n], rule exI [of _ 0]) simp

lemma rep_minus_one:
  assumes "rep x" and "1 \<le> x" and "x \<le> 2 ^ 53"
  shows "rep (x - 1)"
proof -
  from assms(1) obtain n k where n: "\<bar>n\<bar> \<le> 2 ^ 53" and k: "- 1074 \<le> k" and xe: "x = of_int n * power_int 2 k"
    by (auto simp only: rep_def)
  show ?thesis
  proof (cases "k \<le> 0")
    case True
    define p :: int where "p = 2 ^ nat (- k)"
    have one: "(1 :: rat) = of_int p * power_int 2 k"
      using True power2_shift [of k "nat (- k)"] by (simp add: p_def)
    then have "(of_int p :: rat) * power_int 2 k \<le> of_int n * power_int 2 k"
      using assms(2) xe by simp
    then have "p \<le> n"
      by (metis mult_le_cancel_right_pos of_int_le_iff power2_pos)
    moreover have "0 \<le> p" by (simp add: p_def)
    ultimately have "\<bar>n - p\<bar> \<le> 2 ^ 53"
      using n by linarith
    moreover have "x - 1 = of_int (n - p) * power_int 2 k"
      by (subst one) (simp only: xe left_diff_distrib of_int_diff)
    ultimately show ?thesis
      using k unfolding rep_def by blast
  next
    case False
    define m where "m = n * 2 ^ nat k"
    have m: "x = of_int m"
      using False by (simp add: xe m_def power_int_def)
    have "1 \<le> m" and "m \<le> 2 ^ 53"
      using assms(2,3) unfolding m by (simp, metis of_int_le_iff of_int_numeral of_int_power)
    then have "\<bar>m - 1\<bar> \<le> 2 ^ 53" by linarith
    then have "rep (of_int (m - 1))" by (rule rep_int)
    then show ?thesis by (simp add: m)
  qed
qed

section \<open>Values and comparisons\<close>

datatype f64 = F64 rat | PosInf | NegInf | NaN

fun f64_le :: "f64 \<Rightarrow> f64 \<Rightarrow> bool" where
  "f64_le NaN _ = False"
| "f64_le _ NaN = False"
| "f64_le NegInf _ = True"
| "f64_le _ NegInf = False"
| "f64_le _ PosInf = True"
| "f64_le PosInf _ = False"
| "f64_le (F64 x) (F64 y) = (x \<le> y)"

definition f64_gt :: "f64 \<Rightarrow> f64 \<Rightarrow> bool" where
  "f64_gt x y = (x \<noteq> NaN \<and> y \<noteq> NaN \<and> \<not> f64_le x y)"

section \<open>Durations in seconds\<close>

text \<open>
  \<open>Duration::as_secs_f64\<close> of a duration in nanoseconds. The numbers involved are far from both ends
  of the range, so that \<open>rnd\<close> is the whole of the rounding.
\<close>

definition as_secs_f64 :: "nat \<Rightarrow> rat" where
  "as_secs_f64 d = rnd (rnd (of_nat (d div nanos_per_sec)) +
     rnd (of_nat (d mod nanos_per_sec) / of_nat nanos_per_sec))"

lemma unit_roundoff_pos: "0 < unit_roundoff"
  by (simp add: unit_roundoff_def)

lemma rep_power2: "- 1074 \<le> k \<Longrightarrow> rep (power_int 2 k)"
  unfolding rep_def by (rule exI [of _ 1], rule exI [of _ k]) simp

lemma rnd_ge_power2:
  assumes "- 1074 \<le> k" and "power_int 2 k \<le> x"
  shows "power_int 2 k \<le> rnd x"
  using rnd_mono [OF _ assms(2)] rnd_fixpoint [OF rep_power2 [OF assms(1)]] by simp

lemma rnd_upper:
  assumes "x = 0 \<or> power_int 2 (- 1022) \<le> x"
  shows "rnd x \<le> (1 + unit_roundoff) * x"
proof -
  have "rnd x - x \<le> unit_roundoff * x"
    using rnd_relative_error [OF assms] by linarith
  then show ?thesis
    by (simp add: distrib_right)
qed

lemma as_secs_f64_nonneg: "0 \<le> as_secs_f64 d"
  unfolding as_secs_f64_def by (intro rnd_nonneg add_nonneg_nonneg) auto

lemma as_secs_f64_ge:
  assumes "n * nanos_per_sec \<le> d" and "n \<le> 2 ^ 53"
  shows "of_nat n \<le> as_secs_f64 d"
proof -
  have n: "rep (of_nat n)"
    using rep_int [of "int n"] assms(2) by (metis abs_of_nat of_int_of_nat_eq of_nat_le_iff
        of_nat_numeral of_nat_power)
  have "n \<le> d div nanos_per_sec"
    using assms(1) by (simp add: less_eq_div_iff_mult_less_eq)
  then have "rnd (of_nat n) \<le> rnd (of_nat (d div nanos_per_sec))"
    by (intro rnd_mono) auto
  then have "of_nat n \<le> rnd (of_nat (d div nanos_per_sec))"
    using rnd_fixpoint [OF n] by simp
  moreover have "0 \<le> rnd (of_nat (d mod nanos_per_sec) / of_nat nanos_per_sec)"
    by (intro rnd_nonneg) auto
  ultimately have "rnd (of_nat n) \<le> as_secs_f64 d"
    unfolding as_secs_f64_def by (intro rnd_mono) linarith+
  then show ?thesis
    using rnd_fixpoint [OF n] by simp
qed

lemma power2_tiny:
  "power_int (2 :: rat) (- 1022) \<le> power_int 2 (- 30)"
  "power_int (2 :: rat) (- 1022) \<le> power_int 2 (- 94)"
  "power_int (2 :: rat) (- 1022) \<le> 1"
  by (simp_all add: power_int_increasing power_int_le_one)

lemma as_secs_f64_upper:
  "as_secs_f64 d \<le> (1 + unit_roundoff) ^ 2 * (of_nat d / of_nat nanos_per_sec)"
  and as_secs_f64_zero_or: "as_secs_f64 d = 0 \<or> power_int 2 (- 30) \<le> as_secs_f64 d"
proof -
  let ?s = "of_nat (d div nanos_per_sec) :: rat"
  let ?f = "of_nat (d mod nanos_per_sec) / of_nat nanos_per_sec :: rat"
  have s: "?s = 0 \<or> 1 \<le> ?s"
    by (cases "d div nanos_per_sec") auto
  have small: "power_int (2 :: rat) (- 30) \<le> 1 / of_nat nanos_per_sec"
    by (simp add: power_int_def nanos_per_sec_def power_divide)
  have f: "?f = 0 \<or> power_int 2 (- 30) \<le> ?f"
  proof (cases "d mod nanos_per_sec")
    case (Suc k)
    have "1 / of_nat nanos_per_sec \<le> ?f"
      unfolding Suc by (intro divide_right_mono) auto
    with small show ?thesis by linarith
  qed simp
  have one: "power_int (2 :: rat) (- 30) \<le> 1"
    by (simp add: power_int_le_one)
  have rs: "rnd ?s = 0 \<or> power_int 2 (- 30) \<le> rnd ?s"
    using s one rnd_ge_power2 [of "- 30" ?s] by fastforce
  have rf: "rnd ?f = 0 \<or> power_int 2 (- 30) \<le> rnd ?f"
    using f rnd_ge_power2 [of "- 30" ?f] by fastforce
  have nonneg: "0 \<le> rnd ?s" "0 \<le> rnd ?f"
    by (simp_all add: rnd_nonneg)
  have sum: "rnd ?s + rnd ?f = 0 \<or> power_int 2 (- 30) \<le> rnd ?s + rnd ?f"
    using rs rf nonneg by linarith
  show "as_secs_f64 d = 0 \<or> power_int 2 (- 30) \<le> as_secs_f64 d"
    using sum rnd_ge_power2 [of "- 30" "rnd ?s + rnd ?f"] unfolding as_secs_f64_def by fastforce
  have "rnd ?s \<le> (1 + unit_roundoff) * ?s"
    using s power2_tiny(3) by (intro rnd_upper) linarith
  moreover have "rnd ?f \<le> (1 + unit_roundoff) * ?f"
    using f power2_tiny(1) by (intro rnd_upper) linarith
  ultimately have "rnd ?s + rnd ?f \<le> (1 + unit_roundoff) * (?s + ?f)"
    unfolding distrib_left by linarith
  also have "?s + ?f = of_nat d / of_nat nanos_per_sec"
  proof -
    have "of_nat d = ?s * of_nat nanos_per_sec + of_nat (d mod nanos_per_sec)"
      by (metis div_mult_mod_eq of_nat_add of_nat_mult)
    then show ?thesis
      by (simp add: add_divide_distrib)
  qed
  finally have *: "rnd ?s + rnd ?f \<le> (1 + unit_roundoff) * (of_nat d / of_nat nanos_per_sec)" .
  have "as_secs_f64 d \<le> (1 + unit_roundoff) * (rnd ?s + rnd ?f)"
    unfolding as_secs_f64_def using sum power2_tiny(1) by (intro rnd_upper) linarith
  also have "\<dots> \<le> (1 + unit_roundoff) * ((1 + unit_roundoff) * (of_nat d / of_nat nanos_per_sec))"
    using * unit_roundoff_pos by (intro mult_left_mono) auto
  finally show "as_secs_f64 d \<le> (1 + unit_roundoff) ^ 2 * (of_nat d / of_nat nanos_per_sec)"
    by (simp only: power2_eq_square mult.assoc)
qed

end
