(* ===== verification/Token_Bucket.thy ===== *)
theory Token_Bucket
  imports Float64
begin

text \<open>
  The contract shared by the platform's token buckets (\<open>proxy/src/rate_limiter.rs\<close>,
  \<open>proxy/src/auth_middleware/rate_limit.rs\<close>, \<open>proxy/src/gateway/distributed_limiter.rs\<close>): how a
  bucket refills and pays, stated over the \<open>f64\<close> arithmetic, and the bounds that follow for any
  sequence of requests.
\<close>

section \<open>Refill\<close>

definition refill :: "rat \<Rightarrow> rat \<Rightarrow> rat \<Rightarrow> nat \<Rightarrow> rat" where
  "refill tokens rate max_tokens elapsed =
     min (rnd (tokens + rnd (as_secs_f64 elapsed * rate))) max_tokens"

definition rate_ok :: "rat \<Rightarrow> bool" where
  "rate_ok r \<longleftrightarrow> r = 0 \<or> power_int 2 (- 64) \<le> r"

definition tokens_ok :: "rat \<Rightarrow> rat \<Rightarrow> bool" where
  "tokens_ok max_tokens t \<longleftrightarrow> 0 \<le> t \<and> t \<le> max_tokens \<and> rep t \<and> rep max_tokens \<and> max_tokens \<le> 2 ^ 53"

lemma rate_ok_nonneg: "rate_ok r \<Longrightarrow> 0 \<le> r"
  using power2_pos [of "- 64"] by (auto simp: rate_ok_def intro: order_trans [OF less_imp_le])

lemma earned_bounds:
  assumes "rate_ok rate"
  shows "as_secs_f64 d * rate = 0 \<or> power_int 2 (- 94) \<le> as_secs_f64 d * rate"
    and "0 \<le> rnd (as_secs_f64 d * rate)"
proof -
  show "0 \<le> rnd (as_secs_f64 d * rate)"
    using as_secs_f64_nonneg [of d] rate_ok_nonneg [OF assms] by (intro rnd_nonneg mult_nonneg_nonneg)
  have "power_int 2 (- 94) \<le> as_secs_f64 d * rate"
    if "power_int 2 (- 30) \<le> as_secs_f64 d" and "power_int 2 (- 64) \<le> rate"
  proof -
    have "power_int (2 :: rat) (- 94) = power_int 2 (- 30) * power_int 2 (- 64)"
      by (simp flip: power_int_add)
    also have "\<dots> \<le> as_secs_f64 d * rate"
      using that as_secs_f64_nonneg [of d] by (intro mult_mono) auto
    finally show ?thesis .
  qed
  with as_secs_f64_zero_or [of d] assms
  show "as_secs_f64 d * rate = 0 \<or> power_int 2 (- 94) \<le> as_secs_f64 d * rate"
    by (auto simp: rate_ok_def)
qed

lemma rnd_earned_upper:
  assumes "rate_ok rate"
  shows "rnd (as_secs_f64 d * rate) \<le>
    (1 + unit_roundoff) ^ 3 * (rate * (of_nat d / of_nat nanos_per_sec))"
proof -
  have "rnd (as_secs_f64 d * rate) \<le> (1 + unit_roundoff) * (as_secs_f64 d * rate)"
    using earned_bounds(1) [OF assms, of d] power2_tiny(2) by (intro rnd_upper) linarith
  also have "\<dots> \<le> (1 + unit_roundoff) *
      ((1 + unit_roundoff) ^ 2 * (of_nat d / of_nat nanos_per_sec) * rate)"
    using as_secs_f64_upper [of d] rate_ok_nonneg [OF assms] unit_roundoff_pos
    by (intro mult_left_mono mult_right_mono) auto
  finally show ?thesis
    by (simp add: power3_eq_cube power2_eq_square mult_ac)
qed

lemma refill_ok:
  assumes "tokens_ok max_tokens t" and "rate_ok rate"
  shows "tokens_ok max_tokens (refill t rate max_tokens d)"
  using assms rnd_rep [of "t + rnd (as_secs_f64 d * rate)"]
    rnd_nonneg [of "t + rnd (as_secs_f64 d * rate)"] earned_bounds(2) [OF assms(2), of d]
  by (auto simp: tokens_ok_def refill_def min_def)

lemma refill_upper:
  assumes "tokens_ok max_tokens t" and "rate_ok rate"
  shows "refill t rate max_tokens d \<le> t + unit_roundoff * max_tokens +
    (1 + unit_roundoff) ^ 4 * (rate * (of_nat d / of_nat nanos_per_sec))"
proof -
  let ?r = "rnd (as_secs_f64 d * rate)" and ?A = "rate * (of_nat d / of_nat nanos_per_sec)"
  have t: "0 \<le> t" "t \<le> max_tokens" "rep t"
    using assms(1) by (simp_all add: tokens_ok_def)
  have A: "0 \<le> ?A"
    using rate_ok_nonneg [OF assms(2)] by simp
  have r: "?r = 0 \<or> power_int 2 (- 94) \<le> ?r"
    using earned_bounds(1) [OF assms(2), of d] rnd_ge_power2 [of "- 94"] by fastforce
  have max: "0 \<le> unit_roundoff * max_tokens"
    using t unit_roundoff_pos by (intro mult_nonneg_nonneg) auto
  have "rnd (t + ?r) \<le> t + unit_roundoff * max_tokens + (1 + unit_roundoff) * ?r"
  proof (cases "?r = 0")
    case True
    with t max rnd_fixpoint [of t] show ?thesis by simp
  next
    case False
    with r t power2_tiny(2) have "rnd (t + ?r) \<le> (1 + unit_roundoff) * (t + ?r)"
      by (intro rnd_upper) linarith
    moreover have "unit_roundoff * t \<le> unit_roundoff * max_tokens"
      using t unit_roundoff_pos by (intro mult_left_mono) auto
    ultimately show ?thesis
      by (simp add: distrib_right distrib_left)
  qed
  moreover have "(1 + unit_roundoff) * ?r \<le> (1 + unit_roundoff) * ((1 + unit_roundoff) ^ 3 * ?A)"
    using rnd_earned_upper [OF assms(2), of d] unit_roundoff_pos by (intro mult_left_mono) auto
  moreover have "(1 + unit_roundoff) * ((1 + unit_roundoff) ^ 3 * ?A) = (1 + unit_roundoff) ^ 4 * ?A"
    by (simp add: eval_nat_numeral mult_ac)
  ultimately show ?thesis
    unfolding refill_def by linarith
qed

lemma refill_after_second:
  assumes "tokens_ok max_tokens t" and "1 \<le> max_tokens" and "1 \<le> rate" and "nanos_per_sec \<le> d"
  shows "1 \<le> refill t rate max_tokens d"
proof -
  have one: "rnd 1 = 1"
    using rnd_fixpoint [OF rep_int [of 1]] by simp
  have "1 \<le> as_secs_f64 d"
    using as_secs_f64_ge [of 1 d] assms(4) by simp
  then have "1 \<le> as_secs_f64 d * rate"
    using assms(3) mult_mono [of 1 "as_secs_f64 d" 1 rate] by simp
  then have "1 \<le> rnd (as_secs_f64 d * rate)"
    using rnd_mono [of 1 "as_secs_f64 d * rate"] one by simp
  then have "1 \<le> rnd (t + rnd (as_secs_f64 d * rate))"
    using rnd_mono [of 1 "t + rnd (as_secs_f64 d * rate)"] one assms(1) by (simp add: tokens_ok_def)
  with assms(2) show ?thesis
    by (simp add: refill_def)
qed

section \<open>The contract of a bucket\<close>

text \<open>Requests at the given times: the number granted and the final state.\<close>

fun bucket_run :: "(instant \<Rightarrow> 's \<Rightarrow> bool \<times> 's) \<Rightarrow> instant list \<Rightarrow> 's \<Rightarrow> nat \<times> 's" where
  "bucket_run acquire [] s = (0, s)"
| "bucket_run acquire (now # ts) s =
     (case acquire now s of (granted, s1) \<Rightarrow>
      case bucket_run acquire ts s1 of (n, s2) \<Rightarrow> ((if granted then Suc n else n), s2))"

text \<open>Clock readings never go back.\<close>

fun clock_ok :: "instant \<Rightarrow> instant list \<Rightarrow> bool" where
  "clock_ok t [] = True"
| "clock_ok t (now # ts) = (t \<le> now \<and> clock_ok now ts)"

lemma last_ge: "clock_ok t ts \<Longrightarrow> t \<le> last (t # ts)"
proof (induction ts arbitrary: t)
  case (Cons now ts)
  then have "t \<le> now" and "now \<le> last (now # ts)" by auto
  then show ?case by simp
qed simp

locale token_bucket =
  fixes acquire :: "instant \<Rightarrow> 's \<Rightarrow> bool \<times> 's"
    and tokens :: "'s \<Rightarrow> rat"
    and max_tokens :: "'s \<Rightarrow> rat"
    and rate :: "'s \<Rightarrow> rat"
    and last_refill :: "'s \<Rightarrow> instant"
  assumes acquire_granted: "fst (acquire now s) \<longleftrightarrow>
      1 \<le> refill (tokens s) (rate s) (max_tokens s) (duration_since now (last_refill s))"
    and acquire_tokens: "tokens (snd (acquire now s)) =
      (let t = refill (tokens s) (rate s) (max_tokens s) (duration_since now (last_refill s))
       in if 1 \<le> t then rnd (t - 1) else t)"
    and acquire_keeps: "max_tokens (snd (acquire now s)) = max_tokens s"
      "rate (snd (acquire now s)) = rate s"
    and acquire_last: "last_refill (snd (acquire now s)) = now"
begin

lemma acquire_ok:
  assumes "tokens_ok (max_tokens s) (tokens s)" and "rate_ok (rate s)"
  shows "tokens_ok (max_tokens (snd (acquire now s))) (tokens (snd (acquire now s)))"
    and "tokens (snd (acquire now s)) + (if fst (acquire now s) then 1 else 0) =
      refill (tokens s) (rate s) (max_tokens s) (duration_since now (last_refill s))"
proof -
  let ?t = "refill (tokens s) (rate s) (max_tokens s) (duration_since now (last_refill s))"
  have t: "tokens_ok (max_tokens s) ?t"
    by (rule refill_ok [OF assms])
  have pay: "rep (?t - 1)" "rnd (?t - 1) = ?t - 1" if "1 \<le> ?t"
    using t that rep_minus_one [of ?t] rnd_fixpoint [of "?t - 1"] by (auto simp: tokens_ok_def)
  show "tokens_ok (max_tokens (snd (acquire now s))) (tokens (snd (acquire now s)))"
    using t pay by (auto simp: acquire_tokens acquire_keeps Let_def tokens_ok_def)
  show "tokens (snd (acquire now s)) + (if fst (acquire now s) then 1 else 0) = ?t"
    using pay by (simp add: acquire_tokens acquire_granted Let_def)
qed

lemma run_bound:
  assumes "tokens_ok (max_tokens s) (tokens s)" and "rate_ok (rate s)"
    and "clock_ok (last_refill s) ts"
  shows "of_nat (fst (bucket_run acquire ts s)) \<le> tokens s + of_nat (length ts) * unit_roundoff * max_tokens s +
    (1 + unit_roundoff) ^ 4 * (rate s * (of_nat (last (last_refill s # ts) - last_refill s) / of_nat nanos_per_sec))"
  using assms
proof (induction ts arbitrary: s)
  case Nil
  then show ?case by (simp add: tokens_ok_def)
next
  case (Cons now ts)
  let ?s = "snd (acquire now s)" and ?u = unit_roundoff and ?g = "if fst (acquire now s) then 1 else 0 :: rat"
  define earn where "earn d = (1 + ?u) ^ 4 * (rate s * (of_nat d / of_nat nanos_per_sec))" for d :: nat
  note ok = acquire_ok [OF Cons.prems(1,2), of now]
  have IH: "of_nat (fst (bucket_run acquire ts ?s)) \<le> tokens ?s + of_nat (length ts) * ?u * max_tokens s +
      earn (last (now # ts) - now)"
    using Cons.IH [of ?s] ok(1) Cons.prems by (simp add: acquire_keeps acquire_last earn_def)
  have step: "tokens ?s + ?g \<le> tokens s + ?u * max_tokens s + earn (now - last_refill s)"
    unfolding ok(2) earn_def using refill_upper [OF Cons.prems(1,2)] by (simp add: duration_since_def)
  have order: "last_refill s \<le> now" "now \<le> last (now # ts)"
    using Cons.prems(3) last_ge [of now ts] by simp_all
  then have "last (now # ts) - last_refill s = (last (now # ts) - now) + (now - last_refill s)"
    by linarith
  then have "earn (last (now # ts) - last_refill s) = earn (last (now # ts) - now) + earn (now - last_refill s)"
    by (simp only: earn_def of_nat_add add_divide_distrib distrib_left)
  moreover have "of_nat (fst (bucket_run acquire (now # ts) s)) = of_nat (fst (bucket_run acquire ts ?s)) + ?g"
    by (simp add: case_prod_unfold)
  moreover have "of_nat (length (now # ts)) * ?u * max_tokens s =
      ?u * max_tokens s + of_nat (length ts) * ?u * max_tokens s"
    by (simp add: distrib_right)
  moreover have "earn (last (last_refill s # now # ts) - last_refill s) = earn (last (now # ts) - last_refill s)"
    by simp
  ultimately show ?case
    unfolding earn_def [symmetric] using IH step by linarith
qed

lemma granted_after_second:
  assumes "tokens_ok (max_tokens s) (tokens s)" and "1 \<le> max_tokens s" and "1 \<le> rate s"
    and "last_refill s + nanos_per_sec \<le> now"
  shows "fst (acquire now s)"
  unfolding acquire_granted
  by (rule refill_after_second [OF assms(1-3)]) (use assms(4) in \<open>simp add: duration_since_def\<close>)

end

end
