(* ===== verification/Rate_Limiter.thy ===== *)
theory Rate_Limiter
  imports Token_Bucket Net_Addr
begin

text \<open>
  The rate limiters of the proxy: the per-application and per-address limiter
  (\<open>crates/proxy/src/rate_limiter.rs\<close>) and the limiter that shares a global rate among the nodes of
  the cluster (\<open>crates/proxy/src/gateway/distributed_limiter.rs\<close>). Every reading of the clock is an
  argument. The NATS key-value store of the latter is the parameter \<open>kv\<close>.
\<close>

section \<open>Success counters\<close>

record success_counter =
  sc_total :: u64
  sc_last_minute :: u64
  sc_last_reset :: instant

definition success_counter_new :: "instant \<Rightarrow> success_counter" where
  "success_counter_new now = \<lparr> sc_total = 0, sc_last_minute = 0, sc_last_reset = now \<rparr>"

text \<open>The clock is read for the test and again for the reset.\<close>

definition success_counter_record :: "instant \<Rightarrow> instant \<Rightarrow> success_counter \<Rightarrow> success_counter" where
  "success_counter_record now now' c =
     (let c = c\<lparr> sc_total := sc_total c + 1 \<rparr>;
          c = (if duration_since now (sc_last_reset c) \<ge> from_secs 60
               then c\<lparr> sc_last_minute := 0, sc_last_reset := now' \<rparr> else c)
      in c\<lparr> sc_last_minute := sc_last_minute c + 1 \<rparr>)"

section \<open>Token bucket\<close>

record rate_limit_config =
  rlc_requests_per_second :: u32
  rlc_burst_capacity :: u32
  rlc_per_ip_limit :: u32

definition rate_limit_config_default :: rate_limit_config where
  "rate_limit_config_default = \<lparr> rlc_requests_per_second = 1000, rlc_burst_capacity = 50,
     rlc_per_ip_limit = 100 \<rparr>"

text \<open>\<open>u32 as f64\<close> is exact.\<close>

definition f64_of_u32 :: "u32 \<Rightarrow> rat" where
  "f64_of_u32 w = of_nat (unat w)"

record bucket =
  tb_tokens :: rat
  tb_max_tokens :: rat
  tb_refill_rate :: rat
  tb_last_refill :: instant

definition bucket_new :: "u32 \<Rightarrow> u32 \<Rightarrow> instant \<Rightarrow> bucket" where
  "bucket_new rate_per_second burst now = \<lparr> tb_tokens = f64_of_u32 burst,
     tb_max_tokens = f64_of_u32 burst, tb_refill_rate = f64_of_u32 rate_per_second,
     tb_last_refill = now \<rparr>"

definition try_acquire :: "instant \<Rightarrow> bucket \<Rightarrow> bool \<times> bucket" where
  "try_acquire now b =
     (let elapsed = as_secs_f64 (duration_since now (tb_last_refill b));
          b = b\<lparr> tb_last_refill := now \<rparr>;
          b = b\<lparr> tb_tokens := min (rnd (tb_tokens b + rnd (elapsed * tb_refill_rate b)))
                (tb_max_tokens b) \<rparr>
      in if tb_tokens b \<ge> 1 then (True, b\<lparr> tb_tokens := rnd (tb_tokens b - 1) \<rparr>) else (False, b))"

section \<open>Node-local limiter\<close>

datatype rate_limit_denied = AppLimitExceeded string u32 | IpLimitExceeded ip_addr u32

record rate_limiter =
  app_buckets :: "(string, bucket) hmap"
  ip_buckets :: "(string \<times> ip_addr, bucket) hmap"
  rlm_configs :: "(string, rate_limit_config) hmap"
  rlm_default_config :: rate_limit_config
  success_counters :: "(string, success_counter) hmap"

definition rate_limiter_new :: "rate_limit_config \<Rightarrow> rate_limiter" where
  "rate_limiter_new d = \<lparr> app_buckets = [], ip_buckets = [], rlm_configs = [],
     rlm_default_config = d, success_counters = [] \<rparr>"

definition update_default_config :: "rate_limit_config \<Rightarrow> rate_limiter \<Rightarrow> rate_limiter" where
  "update_default_config c l = l\<lparr> rlm_default_config := c \<rparr>"

definition read_default_config :: "rate_limiter \<Rightarrow> rate_limit_config" where
  "read_default_config l = rlm_default_config l"

definition set_app_config :: "string \<Rightarrow> rate_limit_config \<Rightarrow> rate_limiter \<Rightarrow> rate_limiter" where
  "set_app_config app c l = l\<lparr> rlm_configs := hm_insert app c (rlm_configs l),
     app_buckets := hm_remove app (app_buckets l),
     ip_buckets := hm_retain (\<lambda>k _. fst k \<noteq> app) (ip_buckets l) \<rparr>"

definition remove_app_config :: "string \<Rightarrow> rate_limiter \<Rightarrow> rate_limiter" where
  "remove_app_config app l = l\<lparr> rlm_configs := hm_remove app (rlm_configs l),
     app_buckets := hm_remove app (app_buckets l),
     ip_buckets := hm_retain (\<lambda>k _. fst k \<noteq> app) (ip_buckets l) \<rparr>"

definition get_app_config :: "string \<Rightarrow> rate_limiter \<Rightarrow> rate_limit_config" where
  "get_app_config app l = unwrap_or (hm_get (rlm_configs l) app) (rlm_default_config l)"

text \<open>
  The clock is read by \<open>try_acquire\<close> of the application bucket (\<open>t1\<close>) and of the address bucket
  (\<open>t2\<close>), and before each when the bucket has to be created (\<open>n1\<close>, \<open>n2\<close>).
\<close>

definition check_request ::
  "string \<Rightarrow> ip_addr \<Rightarrow> instant \<Rightarrow> instant \<Rightarrow> instant \<Rightarrow> instant \<Rightarrow> rate_limiter
    \<Rightarrow> (rate_limit_denied, unit) result \<times> rate_limiter" where
  "check_request app source_ip n1 t1 n2 t2 l =
     (let config = unwrap_or (hm_get (rlm_configs l) app) (rlm_default_config l);
          b = hm_or_insert (app_buckets l) app
                (bucket_new (rlc_requests_per_second config) (rlc_burst_capacity config) n1);
          (granted, b') = try_acquire t1 b;
          l = l\<lparr> app_buckets := hm_insert app b' (app_buckets l) \<rparr>
      in if \<not> granted then (Err (AppLimitExceeded app (rlc_requests_per_second config)), l)
         else
           (let i = hm_or_insert (ip_buckets l) (app, source_ip)
                  (bucket_new (rlc_per_ip_limit config) (rlc_per_ip_limit config) n2);
                (granted, i') = try_acquire t2 i;
                l = l\<lparr> ip_buckets := hm_insert (app, source_ip) i' (ip_buckets l) \<rparr>
            in if \<not> granted then (Err (IpLimitExceeded source_ip (rlc_per_ip_limit config)), l)
               else (Ok (), l)))"

definition rl_record_success :: "string \<Rightarrow> instant \<Rightarrow> instant \<Rightarrow> instant \<Rightarrow> rate_limiter \<Rightarrow> rate_limiter" where
  "rl_record_success app n t t' l = l\<lparr> success_counters := hm_insert app
     (success_counter_record t t' (hm_or_insert (success_counters l) app (success_counter_new n)))
     (success_counters l) \<rparr>"

definition get_success_stats :: "string \<Rightarrow> rate_limiter \<Rightarrow> (u64 \<times> u64) option" where
  "get_success_stats app l = map_option (\<lambda>c. (sc_total c, sc_last_minute c)) (hm_get (success_counters l) app)"

definition prune_stale_ip_buckets :: "nat \<Rightarrow> instant \<Rightarrow> rate_limiter \<Rightarrow> rate_limiter" where
  "prune_stale_ip_buckets max_age now l = l\<lparr> ip_buckets :=
     hm_retain (\<lambda>_ b. duration_since now (tb_last_refill b) < max_age) (ip_buckets l) \<rparr>"

section \<open>Distributed limiter\<close>

record distributed_rate_limit_config =
  global_rps :: u32
  per_node_burst :: u32
  sync_interval_ms :: u64
  kv_bucket :: string

record local_bucket =
  lb_tokens :: rat
  lb_max_tokens :: rat
  lb_refill_rate :: rat
  lb_last_refill :: instant
  consumed_since_sync :: u64

record rate_limit_entry =
  rle_node_id :: string
  rle_consumed :: u64
  rle_timestamp :: int

definition rate_limit_entry_new :: "string \<Rightarrow> u64 \<Rightarrow> int \<Rightarrow> rate_limit_entry" where
  "rate_limit_entry_new n c t = \<lparr> rle_node_id = n, rle_consumed = c, rle_timestamp = t \<rparr>"

text \<open>
  The key-value store: its contents under a handle \<open>'kv\<close>, and the codec of its entries. A key that
  the stream of keys or a read fails on is left out.
\<close>

record 'kv kv_store =
  kv_put :: "string \<Rightarrow> string \<Rightarrow> 'kv \<Rightarrow> (string, 'kv) result"
  kv_keys :: "'kv \<Rightarrow> (string, string list) result"
  kv_get :: "'kv \<Rightarrow> string \<Rightarrow> string option"
  kv_encode :: "rate_limit_entry \<Rightarrow> (string, string) result"
  kv_decode :: "string \<Rightarrow> rate_limit_entry option"

record distributed_rate_limiter =
  dl_local :: local_bucket
  dl_node_id :: string
  dl_app_id :: string
  dl_config :: distributed_rate_limit_config

definition distributed_new ::
  "string \<Rightarrow> string \<Rightarrow> distributed_rate_limit_config \<Rightarrow> instant \<Rightarrow> distributed_rate_limiter" where
  "distributed_new app_id node_id config now = \<lparr>
     dl_local = \<lparr> lb_tokens = f64_of_u32 (per_node_burst config),
       lb_max_tokens = f64_of_u32 (per_node_burst config),
       lb_refill_rate = rnd (f64_of_u32 (global_rps config) / 3), lb_last_refill = now,
       consumed_since_sync = 0 \<rparr>,
     dl_node_id = node_id, dl_app_id = app_id, dl_config = config \<rparr>"

definition distributed_check_request :: "instant \<Rightarrow> local_bucket \<Rightarrow> bool \<times> local_bucket" where
  "distributed_check_request now b =
     (let elapsed = as_secs_f64 (duration_since now (lb_last_refill b));
          b = b\<lparr> lb_last_refill := now \<rparr>;
          b = b\<lparr> lb_tokens := min (rnd (lb_tokens b + rnd (elapsed * lb_refill_rate b)))
                (lb_max_tokens b) \<rparr>
      in if lb_tokens b \<ge> 1
         then (True, b\<lparr> lb_tokens := rnd (lb_tokens b - 1),
                 consumed_since_sync := consumed_since_sync b + 1 \<rparr>)
         else (False, b))"

text \<open>The entries read back that are younger than five synchronisation intervals.\<close>

definition fresh_entries ::
  "'kv kv_store \<Rightarrow> 'kv \<Rightarrow> string list \<Rightarrow> int \<Rightarrow> int \<Rightarrow> rate_limit_entry list" where
  "fresh_entries kv st ks now stale_threshold =
     filter (\<lambda>e. now - rle_timestamp e < stale_threshold)
       (List.map_filter (\<lambda>k. Option.bind (kv_get kv st k) (kv_decode kv)) ks)"

text \<open>
  Synchronisation: publish what this node consumed, count the nodes that published recently, and
  take an equal share of the global rate. The wall clock is read twice, in milliseconds.
\<close>

definition sync_with_cluster ::
  "'kv kv_store option \<Rightarrow> int \<Rightarrow> int \<Rightarrow> distributed_rate_limiter \<Rightarrow> 'kv
    \<Rightarrow> (string, unit) result \<times> distributed_rate_limiter \<times> 'kv" where
  "sync_with_cluster kv_opt now1 now2 l st =
     (case kv_opt of None \<Rightarrow> (Err ''NATS KV not initialized'', l, st)
      | Some kv \<Rightarrow>
        (let key = ''ratelimit:'' @ dl_app_id l @ '':'' @ dl_node_id l;
             consumed = consumed_since_sync (dl_local l)
         in case kv_encode kv (rate_limit_entry_new (dl_node_id l) consumed now1) of
              Inl e \<Rightarrow> (Err (''serialize: '' @ e), l, st)
            | Inr payload \<Rightarrow>
          (case kv_put kv key payload st of
              Inl e \<Rightarrow> (Err (''kv put: '' @ e), l, st)
            | Inr st \<Rightarrow>
          (case kv_keys kv st of
              Inl e \<Rightarrow> (Err (''kv keys: '' @ e), l, st)
            | Inr ks \<Rightarrow>
              (let pre = ''ratelimit:'' @ dl_app_id l @ '':'';
                   ks = filter (\<lambda>k. starts_with k pre) ks;
                   threshold = int (unat (sync_interval_ms (dl_config l))) * 5;
                   node_count = max 1 (length (fresh_entries kv st ks now2 threshold));
                   fair_share_rps = rnd (f64_of_u32 (global_rps (dl_config l)) / rnd (of_nat node_count))
               in (Ok (), l\<lparr> dl_local := (dl_local l)\<lparr> lb_refill_rate := fair_share_rps,
                    consumed_since_sync := 0 \<rparr> \<rparr>, st))))))"

section \<open>The buckets keep the contract\<close>

interpretation app_bucket: token_bucket try_acquire tb_tokens tb_max_tokens tb_refill_rate tb_last_refill
  by unfold_locales (simp_all add: try_acquire_def refill_def Let_def)

interpretation node_bucket: token_bucket distributed_check_request lb_tokens lb_max_tokens
  lb_refill_rate lb_last_refill
  by unfold_locales (simp_all add: distributed_check_request_def refill_def Let_def)

lemma f64_of_u32_rep: "rep (f64_of_u32 w)" "0 \<le> f64_of_u32 w" "f64_of_u32 w \<le> 2 ^ 53"
proof -
  have "unat w < 2 ^ 32"
    using unsigned_less [of w, where 'a = nat] by simp
  then have w: "unat w \<le> 2 ^ 53" by simp
  then have "\<bar>int (unat w)\<bar> \<le> 2 ^ 53"
    by (metis abs_of_nat of_nat_le_iff of_nat_numeral of_nat_power)
  then have "rep (of_int (int (unat w)))"
    by (rule rep_int)
  then show "rep (f64_of_u32 w)"
    by (simp add: f64_of_u32_def)
  show "0 \<le> f64_of_u32 w"
    unfolding f64_of_u32_def by (rule of_nat_0_le_iff)
  show "f64_of_u32 w \<le> 2 ^ 53"
    using w unfolding f64_of_u32_def by (metis of_nat_le_iff of_nat_numeral of_nat_power)
qed

lemma rate_ok_u32: "rate_ok (f64_of_u32 w)"
proof (cases "unat w")
  case (Suc k)
  have "power_int (2 :: rat) (- 64) \<le> 1" by (simp add: power_int_le_one)
  with Suc show ?thesis
    by (simp add: rate_ok_def f64_of_u32_def)
qed (simp add: rate_ok_def f64_of_u32_def)

lemma bucket_new_ok:
  "tokens_ok (tb_max_tokens (bucket_new r b n)) (tb_tokens (bucket_new r b n))"
  "rate_ok (tb_refill_rate (bucket_new r b n))"
  "tb_last_refill (bucket_new r b n) = n"
  using f64_of_u32_rep by (simp_all add: bucket_new_def tokens_ok_def rate_ok_u32)

section \<open>Sequences of requests to one application\<close>

record request =
  rq_ip :: ip_addr
  rq_n1 :: instant
  rq_t1 :: instant
  rq_n2 :: instant
  rq_t2 :: instant

definition serve :: "string \<Rightarrow> request \<Rightarrow> rate_limiter \<Rightarrow> bool \<times> rate_limiter" where
  "serve app r l = (case check_request app (rq_ip r) (rq_n1 r) (rq_t1 r) (rq_n2 r) (rq_t2 r) l of
     (x, l') \<Rightarrow> (is_ok x, l'))"

fun serve_all :: "string \<Rightarrow> request list \<Rightarrow> rate_limiter \<Rightarrow> nat \<times> rate_limiter" where
  "serve_all app [] l = (0, l)"
| "serve_all app (r # rs) l =
     (case serve app r l of (served, l1) \<Rightarrow>
      case serve_all app rs l1 of (n, l2) \<Rightarrow> ((if served then Suc n else n), l2))"

definition current_bucket :: "string \<Rightarrow> instant \<Rightarrow> rate_limiter \<Rightarrow> bucket" where
  "current_bucket app n l = hm_or_insert (app_buckets l) app
     (bucket_new (rlc_requests_per_second (get_app_config app l))
        (rlc_burst_capacity (get_app_config app l)) n)"

definition current_ip_bucket :: "string \<Rightarrow> ip_addr \<Rightarrow> instant \<Rightarrow> rate_limiter \<Rightarrow> bucket" where
  "current_ip_bucket app ip n l = hm_or_insert (ip_buckets l) (app, ip)
     (bucket_new (rlc_per_ip_limit (get_app_config app l)) (rlc_per_ip_limit (get_app_config app l)) n)"

lemma check_request_eq:
  "check_request app ip n1 t1 n2 t2 l =
     (let c = get_app_config app l; b = try_acquire t1 (current_bucket app n1 l);
          l1 = l\<lparr> app_buckets := hm_insert app (snd b) (app_buckets l) \<rparr>;
          i = try_acquire t2 (current_ip_bucket app ip n2 l);
          l2 = l1\<lparr> ip_buckets := hm_insert (app, ip) (snd i) (ip_buckets l) \<rparr>
      in if \<not> fst b then (Inl (AppLimitExceeded app (rlc_requests_per_second c)), l1)
         else if \<not> fst i then (Inl (IpLimitExceeded ip (rlc_per_ip_limit c)), l2)
         else (Inr (), l2))"
  by (simp add: check_request_def current_bucket_def current_ip_bucket_def get_app_config_def Let_def
      case_prod_unfold)

lemma serve_effect:
  "current_bucket app n (snd (serve app r l)) = snd (try_acquire (rq_t1 r) (current_bucket app (rq_n1 r) l))"
  "get_app_config app' (snd (serve app r l)) = get_app_config app' l"
  "fst (serve app r l) \<Longrightarrow> fst (try_acquire (rq_t1 r) (current_bucket app (rq_n1 r) l))"
  by (auto simp: serve_def check_request_eq Let_def current_bucket_def hm_or_insert_def
      get_app_config_def case_prod_unfold split: if_splits)

lemma serve_all_le_bucket:
  "fst (serve_all app rs l) \<le>
     fst (bucket_run try_acquire (map rq_t1 rs) (current_bucket app (rq_n1 (hd rs)) l))"
proof (induction rs arbitrary: l)
  case (Cons r rs)
  let ?l = "snd (serve app r l)"
  have "current_bucket app (rq_n1 (hd rs)) ?l =
      snd (try_acquire (rq_t1 r) (current_bucket app (rq_n1 r) l))"
    by (rule serve_effect(1))
  with Cons.IH [of ?l] serve_effect(3) [of app r l] show ?case
    by (auto simp: case_prod_unfold)
qed simp

lemma serve_state:
  "rlm_configs (snd (serve a r l)) = rlm_configs l"
  "rlm_default_config (snd (serve a r l)) = rlm_default_config l"
  "a \<noteq> b \<Longrightarrow> hm_get (app_buckets (snd (serve a r l))) b = hm_get (app_buckets l) b"
  "a \<noteq> b \<Longrightarrow> hm_get (ip_buckets (snd (serve a r l))) (b, ip) = hm_get (ip_buckets l) (b, ip)"
  unfolding serve_def check_request_eq Let_def case_prod_unfold by simp_all

lemma serve_other_app:
  assumes "a \<noteq> b"
  shows "current_bucket b n (snd (serve a r l)) = current_bucket b n l"
    and "current_ip_bucket b ip n (snd (serve a r l)) = current_ip_bucket b ip n l"
    and "get_app_config b (snd (serve a r l)) = get_app_config b l"
  using assms
  by (simp_all add: serve_state current_bucket_def current_ip_bucket_def hm_or_insert_def
      get_app_config_def)

lemma serve_all_other_app:
  assumes "a \<noteq> b"
  shows "current_bucket b n (snd (serve_all a rs l)) = current_bucket b n l \<and>
    current_ip_bucket b ip n (snd (serve_all a rs l)) = current_ip_bucket b ip n l \<and>
    get_app_config b (snd (serve_all a rs l)) = get_app_config b l"
proof (induction rs arbitrary: l)
  case (Cons r rs)
  then show ?case
    by (simp add: case_prod_unfold serve_other_app [OF assms])
qed simp

lemma fst_check_request_cong:
  assumes "current_bucket app n1 l = current_bucket app n1 l'"
    and "current_ip_bucket app ip n2 l = current_ip_bucket app ip n2 l'"
    and "get_app_config app l = get_app_config app l'"
  shows "fst (check_request app ip n1 t1 n2 t2 l) = fst (check_request app ip n1 t1 n2 t2 l')"
  using assms by (simp add: check_request_eq Let_def)

section \<open>Requests at one instant\<close>

definition holds_at :: "instant \<Rightarrow> nat \<Rightarrow> bucket \<Rightarrow> bool" where
  "holds_at t k b \<longleftrightarrow> tb_last_refill b = t \<and> tb_tokens b = of_nat k \<and>
     tokens_ok (tb_max_tokens b) (tb_tokens b)"

lemma as_secs_f64_0 [simp]: "as_secs_f64 0 = 0"
  by (simp add: as_secs_f64_def)

lemma acquire_same_instant:
  assumes "holds_at t k b"
  shows "fst (try_acquire t b) \<longleftrightarrow> 0 < k" and "holds_at t (k - 1) (snd (try_acquire t b))"
proof -
  have ok: "tokens_ok (tb_max_tokens b) (of_nat k)" and b: "tb_tokens b = of_nat k" "tb_last_refill b = t"
    using assms unfolding holds_at_def by metis+
  have "rnd (of_nat k) = of_nat k"
    using ok rnd_fixpoint [of "of_nat k"] by (simp add: tokens_ok_def)
  then have same: "refill (tb_tokens b) (tb_refill_rate b) (tb_max_tokens b) (duration_since t (tb_last_refill b)) = of_nat k"
    using ok by (simp add: refill_def b duration_since_def tokens_ok_def min_def)
  show "fst (try_acquire t b) \<longleftrightarrow> 0 < k"
    unfolding app_bucket.acquire_granted same by (cases k) auto
  have "rep (of_nat k - 1) \<Longrightarrow> 0 < k \<Longrightarrow> rnd (of_nat k - 1) = of_nat (k - 1)"
    using rnd_fixpoint [of "of_nat k - 1"] by (cases k) auto
  moreover have "rep (of_nat k - 1)" if "0 < k"
    using ok that rep_minus_one [of "of_nat k"] by (cases k) (auto simp: tokens_ok_def)
  ultimately have "tb_tokens (snd (try_acquire t b)) = of_nat (k - 1)"
    unfolding app_bucket.acquire_tokens same by (cases k) auto
  moreover have "tokens_ok (tb_max_tokens (snd (try_acquire t b))) (tb_tokens (snd (try_acquire t b)))"
  proof (cases "0 < k")
    case True
    then have "of_nat (k - 1) \<le> (of_nat k :: rat)" by simp
    with ok calculation \<open>0 < k \<Longrightarrow> rep (of_nat k - 1)\<close> True show ?thesis
      by (cases k) (auto simp: tokens_ok_def app_bucket.acquire_keeps)
  next
    case False
    with ok calculation show ?thesis
      by (auto simp: tokens_ok_def app_bucket.acquire_keeps)
  qed
  ultimately show "holds_at t (k - 1) (snd (try_acquire t b))"
    by (simp add: holds_at_def app_bucket.acquire_last)
qed

definition at_instant :: "instant \<Rightarrow> ip_addr \<Rightarrow> request" where
  "at_instant t ip = \<lparr> rq_ip = ip, rq_n1 = t, rq_t1 = t, rq_n2 = t, rq_t2 = t \<rparr>"

lemma serve_ip_state:
  "hm_get (ip_buckets (snd (serve app r l))) (app, rq_ip r) =
     (if fst (try_acquire (rq_t1 r) (current_bucket app (rq_n1 r) l))
      then Some (snd (try_acquire (rq_t2 r) (current_ip_bucket app (rq_ip r) (rq_n2 r) l)))
      else hm_get (ip_buckets l) (app, rq_ip r))"
  unfolding serve_def check_request_eq Let_def case_prod_unfold by simp

lemma serve_ip_bucket:
  "current_ip_bucket app (rq_ip r) n (snd (serve app r l)) =
     (if fst (try_acquire (rq_t1 r) (current_bucket app (rq_n1 r) l))
      then snd (try_acquire (rq_t2 r) (current_ip_bucket app (rq_ip r) (rq_n2 r) l))
      else current_ip_bucket app (rq_ip r) n l)"
  "fst (serve app r l) \<longleftrightarrow> fst (try_acquire (rq_t1 r) (current_bucket app (rq_n1 r) l)) \<and>
      fst (try_acquire (rq_t2 r) (current_ip_bucket app (rq_ip r) (rq_n2 r) l))"
  by (simp_all add: current_ip_bucket_def [of _ _ _ "snd (serve app r l)"] hm_or_insert_def serve_ip_state
      get_app_config_def serve_state)
    (simp_all add: current_ip_bucket_def hm_or_insert_def get_app_config_def serve_def
      check_request_eq Let_def case_prod_unfold)

lemma serve_all_same_instant:
  assumes "holds_at t k (current_bucket app t l)" and "holds_at t j (current_ip_bucket app ip t l)"
  shows "fst (serve_all app (replicate k (at_instant t ip)) l) = min k j \<and>
    holds_at t 0 (current_bucket app t (snd (serve_all app (replicate k (at_instant t ip)) l)))"
  using assms
proof (induction k arbitrary: l j)
  case (Suc k)
  let ?r = "at_instant t ip" and ?l = "snd (serve app (at_instant t ip) l)"
  note app = acquire_same_instant [OF Suc.prems(1)] and ip = acquire_same_instant [OF Suc.prems(2)]
  have "holds_at t k (current_bucket app t ?l)"
    using app(2) by (simp add: serve_effect(1) at_instant_def)
  moreover have "holds_at t (j - 1) (current_ip_bucket app ip t ?l)"
    using app(1) ip(2) serve_ip_bucket(1) [of app ?r t l] by (simp add: at_instant_def)
  ultimately have "fst (serve_all app (replicate k ?r) ?l) = min k (j - 1) \<and>
      holds_at t 0 (current_bucket app t (snd (serve_all app (replicate k ?r) ?l)))"
    by (rule Suc.IH)
  moreover have "fst (serve app ?r l) \<longleftrightarrow> 0 < j"
    using app(1) ip(1) serve_ip_bucket(2) [of app ?r l] by (simp add: at_instant_def)
  ultimately show ?case
    by (auto simp: case_prod_unfold min_def)
qed simp

section \<open>Properties\<close>

text \<open>
  (C15) Sustained rate: whatever addresses they come from, of the requests to an application that
  has no bucket yet, no more are served than the burst capacity plus the configured rate times the
  time passed, up to the rounding of the arithmetic (a relative error of \<open>2 ^ - 53\<close> per operation).
\<close>

theorem app_rate_bounded:
  assumes "hm_get (app_buckets l) app = None" and "rs \<noteq> []"
    and "clock_ok (rq_n1 (hd rs)) (map rq_t1 rs)"
  shows "of_nat (fst (serve_all app rs l)) \<le>
    f64_of_u32 (rlc_burst_capacity (get_app_config app l)) * (1 + of_nat (length rs) * unit_roundoff) +
    (1 + unit_roundoff) ^ 4 * (f64_of_u32 (rlc_requests_per_second (get_app_config app l)) *
      (of_nat (rq_t1 (last rs) - rq_n1 (hd rs)) / of_nat nanos_per_sec))"
proof -
  let ?c = "get_app_config app l" and ?n = "rq_n1 (hd rs)"
  let ?b = "bucket_new (rlc_requests_per_second ?c) (rlc_burst_capacity ?c) ?n"
  have b: "current_bucket app ?n l = ?b"
    using assms(1) by (simp add: current_bucket_def hm_or_insert_def)
  have "last (?n # map rq_t1 rs) = rq_t1 (last rs)"
    using assms(2) by (simp add: last_map)
  moreover have "clock_ok (tb_last_refill ?b) (map rq_t1 rs)"
    using assms(3) by (simp add: bucket_new_ok(3))
  ultimately
  have "of_nat (fst (bucket_run try_acquire (map rq_t1 rs) ?b)) \<le> tb_tokens ?b +
      of_nat (length rs) * unit_roundoff * tb_max_tokens ?b +
      (1 + unit_roundoff) ^ 4 * (tb_refill_rate ?b * (of_nat (rq_t1 (last rs) - ?n) / of_nat nanos_per_sec))"
    using app_bucket.run_bound [OF bucket_new_ok(1,2)] by (metis bucket_new_ok(3) length_map)
  moreover have "of_nat (fst (serve_all app rs l)) \<le> (of_nat (fst (bucket_run try_acquire (map rq_t1 rs) ?b)) :: rat)"
    using serve_all_le_bucket [of app rs l] b by simp
  ultimately show ?thesis
    by (simp add: bucket_new_def distrib_left mult_ac)
qed

theorem app_rate_bounded_witness:
  "of_nat (fst (serve_all ''shop'' [at_instant 5 (V4 1), at_instant 7 (V4 2)]
      (rate_limiter_new rate_limit_config_default))) \<le>
    f64_of_u32 50 * (1 + of_nat (length [at_instant 5 (V4 1), at_instant 7 (V4 2)]) * unit_roundoff) +
    (1 + unit_roundoff) ^ 4 * (f64_of_u32 1000 * (of_nat 2 / of_nat nanos_per_sec))"
  using app_rate_bounded [of "rate_limiter_new rate_limit_config_default" "''shop''"
      "[at_instant 5 (V4 1), at_instant 7 (V4 2)]"]
  by (simp add: rate_limiter_new_def get_app_config_def at_instant_def rate_limit_config_default_def)

text \<open>
  Applications are isolated: no sequence of requests to one application changes the answer
  another application's request gets, from any address and at any time.
\<close>

theorem apps_isolated:
  assumes "a \<noteq> b"
  shows "fst (check_request b ip n1 t1 n2 t2 (snd (serve_all a rs l))) =
    fst (check_request b ip n1 t1 n2 t2 l)"
  using serve_all_other_app [OF assms, of _ rs l] by (intro fst_check_request_cong) auto

theorem apps_isolated_witness:
  "fst (check_request ''b'' (V4 1) 0 0 0 0 (snd (serve_all ''a'' (replicate 3 (at_instant 0 (V4 1)))
     (rate_limiter_new rate_limit_config_default)))) =
   fst (check_request ''b'' (V4 1) 0 0 0 0 (rate_limiter_new rate_limit_config_default))"
  by (rule apps_isolated) simp

text \<open>
  Addresses of one application are not isolated: a request that its address limit refuses has
  already taken a token of the application. As many requests at one instant as the burst capacity,
  all from one address, are served only up to the address limit, yet leave the application refusing
  every other address.
\<close>

theorem single_address_starves_app:
  assumes "hm_get (app_buckets l) app = None" and "hm_get (ip_buckets l) (app, ip) = None"
    and "rs = replicate (unat (rlc_burst_capacity (get_app_config app l))) (at_instant t ip)"
  shows "fst (serve_all app rs l) = min (unat (rlc_burst_capacity (get_app_config app l)))
      (unat (rlc_per_ip_limit (get_app_config app l))) \<and>
    (\<exists>limit. fst (check_request app ip2 t t t t (snd (serve_all app rs l))) =
       Inl (AppLimitExceeded app limit))"
proof -
  let ?c = "get_app_config app l"
  have "holds_at t (unat (rlc_burst_capacity ?c)) (current_bucket app t l)"
    using assms(1) bucket_new_ok
    by (simp add: holds_at_def current_bucket_def hm_or_insert_def bucket_new_def f64_of_u32_def)
  moreover have "holds_at t (unat (rlc_per_ip_limit ?c)) (current_ip_bucket app ip t l)"
    using assms(2) bucket_new_ok
    by (simp add: holds_at_def current_ip_bucket_def hm_or_insert_def bucket_new_def f64_of_u32_def)
  ultimately have run: "fst (serve_all app rs l) =
        min (unat (rlc_burst_capacity ?c)) (unat (rlc_per_ip_limit ?c))"
      "holds_at t 0 (current_bucket app t (snd (serve_all app rs l)))"
    using serve_all_same_instant assms(3) by auto
  have "\<not> fst (try_acquire t (current_bucket app t (snd (serve_all app rs l))))"
    using acquire_same_instant(1) [OF run(2)] by simp
  with run(1) show ?thesis
    by (simp add: check_request_eq Let_def)
qed

theorem single_address_starves_app_witness:
  "\<exists>limit. fst (check_request ''shop'' (V4 2) 9 9 9 9 (snd (serve_all ''shop''
      (replicate 50 (at_instant 9 (V4 1))) (rate_limiter_new rate_limit_config_default)))) =
    Inl (AppLimitExceeded ''shop'' limit)"
  using single_address_starves_app [of "rate_limiter_new rate_limit_config_default" "''shop''" "V4 1"
      "replicate 50 (at_instant 9 (V4 1))" 9 "V4 2"]
  by (simp add: rate_limiter_new_def get_app_config_def rate_limit_config_default_def)

text \<open>
  The documented behaviour of the client of the key-value store: a key with a character other than
  letters, digits and \<open>- / _ = .\<close> is invalid and not stored.
\<close>

definition valid_key_char :: "char \<Rightarrow> bool" where
  "valid_key_char c \<longleftrightarrow> (let n = (of_char c :: nat) in (48 \<le> n \<and> n \<le> 57) \<or> (65 \<le> n \<and> n \<le> 90) \<or>
     (97 \<le> n \<and> n \<le> 122)) \<or> c \<in> {CHR ''-'', CHR ''/'', CHR ''_'', CHR ''='', CHR ''.''}"

definition rejects_invalid_keys :: "'kv kv_store \<Rightarrow> bool" where
  "rejects_invalid_keys kv \<longleftrightarrow>
     (\<forall>k v st. \<not> list_all valid_key_char k \<longrightarrow> (\<exists>e. kv_put kv k v st = Inl e))"

text \<open>
  The distributed limiter never synchronises: its keys are joined with colons, which the
  key-value client rejects as invalid, so that every synchronisation fails without changing the
  limiter, and every node keeps the initial third of the global rate however many nodes there are.
\<close>

theorem sync_never_succeeds:
  assumes "rejects_invalid_keys kv"
  shows "\<exists>e. sync_with_cluster (Some kv) now1 now2 l st = (Inl e, l, st)"
proof -
  have invalid: "\<not> list_all valid_key_char (''ratelimit:'' @ dl_app_id l @ '':'' @ dl_node_id l)"
    by (simp add: valid_key_char_def)
  show ?thesis
  proof (cases "kv_encode kv (rate_limit_entry_new (dl_node_id l) (consumed_since_sync (dl_local l)) now1)")
    case (Inl e)
    then show ?thesis by (simp add: sync_with_cluster_def Let_def)
  next
    case (Inr payload)
    obtain e where "kv_put kv (''ratelimit:'' @ dl_app_id l @ '':'' @ dl_node_id l) payload st = Inl e"
      using assms invalid unfolding rejects_invalid_keys_def by blast
    with Inr show ?thesis by (simp add: sync_with_cluster_def Let_def)
  qed
qed

definition w_kv :: "(string, string) hmap kv_store" where
  "w_kv = \<lparr> kv_put = (\<lambda>k v st. if list_all valid_key_char k then Inr (hm_insert k v st) else Inl ''invalid key''),
     kv_keys = (\<lambda>st. Inr (map fst st)), kv_get = hm_get, kv_encode = (\<lambda>e. Inr (rle_node_id e)),
     kv_decode = (\<lambda>s. None) \<rparr>"

theorem sync_never_succeeds_witness:
  "\<exists>e. sync_with_cluster (Some w_kv) 0 1 (distributed_new ''shop'' ''node-1''
     \<lparr> global_rps = 300, per_node_burst = 10, sync_interval_ms = 100, kv_bucket = ''rate_limits'' \<rparr> 0) [] =
     (Inl e, distributed_new ''shop'' ''node-1''
     \<lparr> global_rps = 300, per_node_burst = 10, sync_interval_ms = 100, kv_bucket = ''rate_limits'' \<rparr> 0, [])"
  by (rule sync_never_succeeds) (simp add: rejects_invalid_keys_def w_kv_def)

lemma fresh_limiter_grants:
  assumes "0 < rlc_burst_capacity c" and "0 < rlc_per_ip_limit c"
  shows "fst (check_request app ip t t t t (rate_limiter_new c)) = Ok ()"
proof -
  let ?l = "rate_limiter_new c"
  have "holds_at t (unat (rlc_burst_capacity c)) (current_bucket app t ?l)"
      "holds_at t (unat (rlc_per_ip_limit c)) (current_ip_bucket app ip t ?l)"
    using bucket_new_ok
    by (simp_all add: holds_at_def current_bucket_def current_ip_bucket_def rate_limiter_new_def
        hm_or_insert_def bucket_new_def f64_of_u32_def get_app_config_def)
  from acquire_same_instant(1) [OF this(1)] acquire_same_instant(1) [OF this(2)] show ?thesis
    using assms by (simp add: check_request_eq Let_def word_less_nat_alt)
qed

end
