(* ===== verification/Node_Config.thy ===== *)
theory Node_Config
  imports Float64
begin

text \<open>
  The configuration of a node (\<open>crates/common/src/config.rs\<close>, \<open>config_health_gateway.rs\<close>): one record
  per section with its defaults. \<open>usize\<close> has 64 bits; paths are strings; the environment variable
  \<open>NODE_ID\<close>, which the default node name comes from, is an argument.
\<close>

section \<open>Sections\<close>

definition INTERNAL_GATEWAY_PORT :: u16 where
  "INTERNAL_GATEWAY_PORT = 9080"

datatype deployment_environment = Development | Test | Production

datatype storage_open_failure_mode = QuarantineAndFail | QuarantineAndRecreate

datatype storage_integrity_failure_mode = QuarantineAndExit | DeleteAndExit

record node_section =
  ns_node_id :: string
  ns_environment :: deployment_environment

definition node_section_default :: "string option \<Rightarrow> node_section" where
  "node_section_default node_id_var = \<lparr> ns_node_id = unwrap_or node_id_var ''node-0'',
     ns_environment = Development \<rparr>"

record oidc_config =
  oidc_issuer_url :: string
  oidc_audience :: string
  oidc_jwks_url :: "string option"
  oidc_jwks_refresh_secs :: u64
  oidc_clock_skew_secs :: u64

record storage_section =
  ss_db_path :: string
  ss_open_failure_mode :: storage_open_failure_mode
  ss_integrity_failure_mode :: storage_integrity_failure_mode

definition storage_section_default :: storage_section where
  "storage_section_default = \<lparr>
     ss_db_path = ''/tmp/wasm-node/state.redb'', ss_open_failure_mode = QuarantineAndFail,
     ss_integrity_failure_mode = QuarantineAndExit \<rparr>"

record nats_section =
  nats_url :: string
  nats_creds_file :: "string option"
  nats_ca_cert :: "string option"
  nats_client_cert :: "string option"
  nats_client_key :: "string option"

definition nats_section_default :: nats_section where
  "nats_section_default = \<lparr>
     nats_url = ''nats://127.0.0.1:4222'', nats_creds_file = None, nats_ca_cert = None,
     nats_client_cert = None, nats_client_key = None \<rparr>"

record proxy_section =
  px_http_port :: u16
  px_https_port :: u16
  px_tls_cert :: "string option"
  px_tls_key :: "string option"

definition proxy_section_default :: proxy_section where
  "proxy_section_default = \<lparr>
     px_http_port = 8080, px_https_port = 0, px_tls_cert = None, px_tls_key = None \<rparr>"

record admin_section =
  ad_port :: u16
  ad_artifact_port :: u16
  ad_deploy_ingress_port :: u16
  ad_bind_address :: string
  ad_artifact_bind_address :: string
  ad_deploy_ingress_bind_address :: string
  ad_tls_cert :: "string option"
  ad_tls_key :: "string option"
  ad_advertised_host :: "string option"
  ad_advertised_artifact_url :: "string option"
  ad_auth_token :: "string option"

definition admin_section_default :: admin_section where
  "admin_section_default = \<lparr>
     ad_port = 9090, ad_artifact_port = 9091, ad_deploy_ingress_port = 9092,
     ad_bind_address = ''127.0.0.1'', ad_artifact_bind_address = ''127.0.0.1'',
     ad_deploy_ingress_bind_address = ''127.0.0.1'', ad_tls_cert = None, ad_tls_key = None,
     ad_advertised_host = None, ad_advertised_artifact_url = None, ad_auth_token = None \<rparr>"

record auth_section =
  au_enabled :: bool
  au_read_token :: "string option"
  au_write_token :: "string option"
  au_require_tls :: bool
  au_rate_limit_per_second :: u32
  au_rate_limit_burst :: u32
  au_trusted_proxies :: "string list"

definition auth_section_default :: auth_section where
  "auth_section_default = \<lparr>
     au_enabled = False, au_read_token = None, au_write_token = None, au_require_tls = True,
     au_rate_limit_per_second = 10, au_rate_limit_burst = 20, au_trusted_proxies = [] \<rparr>"

record runtime_section =
  rt_port_start :: u16
  rt_port_end :: u16
  rt_instance_bind_address :: string
  rt_isolation_mode :: "string option"
  rt_key_source :: string
  rt_key_file :: "string option"
  rt_key_command :: "string list"
  rt_key_vault_url :: "string option"
  rt_key_vault_token_env :: "string option"
  rt_key_vault_ca_cert :: "string option"
  rt_key_vault_mount :: string
  rt_key_vault_path :: "string option"
  rt_key_vault_field :: string
  rt_key_vault_transit_mount :: string
  rt_key_vault_transit_key :: "string option"
  rt_key_vault_transit_context :: "string option"
  rt_key_vault_transit_key_version :: "u32 option"
  rt_key_vault_transit_previous_key_version :: "u32 option"
  rt_key_aws_kms_region :: "string option"
  rt_key_aws_kms_endpoint :: "string option"
  rt_key_aws_kms_key_id :: "string option"
  rt_key_aws_kms_previous_key_id :: "string option"
  rt_key_aws_kms_context :: "string option"
  rt_cache_directory :: "string option"
  rt_upgrade_signing_public_key :: "string option"
  rt_pooling_allocator :: bool
  rt_pooling_total_component_instances :: u32
  rt_pooling_max_core_instances_per_component :: "u32 option"
  rt_pooling_max_memories_per_component :: "u32 option"
  rt_pooling_max_tables_per_component :: "u32 option"

definition runtime_section_default :: runtime_section where
  "runtime_section_default = \<lparr>
     rt_port_start = 10000, rt_port_end = 19999, rt_instance_bind_address = ''127.0.0.1'',
     rt_isolation_mode = None, rt_key_source = ''generate'', rt_key_file = None,
     rt_key_command = [], rt_key_vault_url = None, rt_key_vault_token_env = None,
     rt_key_vault_ca_cert = None, rt_key_vault_mount = ''secret'', rt_key_vault_path = None,
     rt_key_vault_field = ''key'', rt_key_vault_transit_mount = ''transit'',
     rt_key_vault_transit_key = None, rt_key_vault_transit_context = None,
     rt_key_vault_transit_key_version = None, rt_key_vault_transit_previous_key_version = None,
     rt_key_aws_kms_region = None, rt_key_aws_kms_endpoint = None, rt_key_aws_kms_key_id = None,
     rt_key_aws_kms_previous_key_id = None, rt_key_aws_kms_context = None,
     rt_cache_directory = None, rt_upgrade_signing_public_key = None,
     rt_pooling_allocator = False, rt_pooling_total_component_instances = 1000,
     rt_pooling_max_core_instances_per_component = None,
     rt_pooling_max_memories_per_component = None, rt_pooling_max_tables_per_component = None \<rparr>"

record database_section =
  db_default_url :: string
  db_pgbouncer_addr :: string
  db_enable_db_proxy :: bool
  db_db_proxy_addr :: string
  db_db_proxy_backend :: string
  db_db_proxy_max_connections :: u64

definition database_section_default :: database_section where
  "database_section_default = \<lparr>
     db_default_url = ''postgres://127.0.0.1:5432'', db_pgbouncer_addr = ''127.0.0.1:5432'',
     db_enable_db_proxy = False, db_db_proxy_addr = ''127.0.0.1:5433'',
     db_db_proxy_backend = ''db.internal:5432'', db_db_proxy_max_connections = 20 \<rparr>"

record log_sampling_section =
  lsm_enabled :: bool
  lsm_info_rate :: u64
  lsm_debug_rate :: u64
  lsm_trace_rate :: u64

definition log_sampling_section_default :: log_sampling_section where
  "log_sampling_section_default = \<lparr>
     lsm_enabled = False, lsm_info_rate = 1, lsm_debug_rate = 10, lsm_trace_rate = 100 \<rparr>"

record log_rotation_section =
  lrt_max_file_size_mb :: u64
  lrt_max_files :: u32
  lrt_max_age_hours :: u64
  lrt_compress :: bool

definition log_rotation_section_default :: log_rotation_section where
  "log_rotation_section_default = \<lparr>
     lrt_max_file_size_mb = 100, lrt_max_files = 10, lrt_max_age_hours = 24, lrt_compress = True \<rparr>"

record log_forward_sink_section =
  lsk_sink_type :: string
  lsk_endpoint :: "string option"
  lsk_index_prefix :: "string option"
  lsk_subject :: "string option"
  lsk_labels :: "(string, string) hmap"

record log_forward_section =
  lfw_buffer_capacity :: u64
  lfw_batch_size :: u64
  lfw_flush_interval_ms :: u64
  lfw_sinks :: "log_forward_sink_section list"

definition log_forward_section_default :: log_forward_section where
  "log_forward_section_default = \<lparr>
     lfw_buffer_capacity = 8192, lfw_batch_size = 200, lfw_flush_interval_ms = 1000,
     lfw_sinks = [] \<rparr>"

record log_audit_section =
  lau_output :: "string option"
  lau_rotation :: log_rotation_section

definition log_audit_section_default :: log_audit_section where
  "log_audit_section_default = \<lparr>
     lau_output = None,
     lau_rotation = \<lparr> lrt_max_file_size_mb = 50, lrt_max_files = 30,
       lrt_max_age_hours = 168, lrt_compress = True \<rparr> \<rparr>"

record logging_section =
  lg_level :: string
  lg_format :: string
  lg_output :: "string option"
  lg_otlp_endpoint :: "string option"
  lg_modules :: "(string, string) hmap"
  lg_sampling :: log_sampling_section
  lg_rotation :: log_rotation_section
  lg_forward :: log_forward_section
  lg_audit :: log_audit_section

definition logging_section_default :: logging_section where
  "logging_section_default = \<lparr>
     lg_level = ''info'', lg_format = ''json'', lg_output = None, lg_otlp_endpoint = None,
     lg_modules = [], lg_sampling = log_sampling_section_default,
     lg_rotation = log_rotation_section_default, lg_forward = log_forward_section_default,
     lg_audit = log_audit_section_default \<rparr>"

record billing_section =
  bl_export_dir :: "string option"
  bl_export_interval_secs :: u64

definition billing_section_default :: billing_section where
  "billing_section_default = \<lparr>
     bl_export_dir = None, bl_export_interval_secs = 3600 \<rparr>"

record gc_section =
  gc_artifact_keep_versions :: u64
  gc_metrics_retain_days :: u32
  gc_undeploy_grace_secs :: u64
  gc_gc_interval_secs :: u64
  gc_disk_warning_threshold :: f64

definition gc_section_default :: gc_section where
  "gc_section_default = \<lparr>
     gc_artifact_keep_versions = 5, gc_metrics_retain_days = 30, gc_undeploy_grace_secs = 300,
     gc_gc_interval_secs = 3600,
     gc_disk_warning_threshold = F64 (8106479329266893 / 9007199254740992) \<rparr>"

record rate_limit_section =
  rl_default_requests_per_second :: u32
  rl_default_burst_capacity :: u32
  rl_default_per_ip_limit :: u32

definition rate_limit_section_default :: rate_limit_section where
  "rate_limit_section_default = \<lparr>
     rl_default_requests_per_second = 100, rl_default_burst_capacity = 200,
     rl_default_per_ip_limit = 10 \<rparr>"

record ebpf_section =
  eb_enabled :: bool
  eb_required :: bool
  eb_fd_soft_limit :: u32
  eb_fd_hard_limit :: u32
  eb_mem_low_threshold_pages :: u64
  eb_mem_critical_threshold_pages :: u64
  eb_disk_slow_threshold_ns :: u64
  eb_tcp_conn_limit_per_pid :: u32
  eb_syscall_rate_limit :: u64
  eb_sampling_period_secs :: u64
  eb_enable_namespace_enforcer :: bool
  eb_gateway_port :: u16
  eb_enable_forged_header_detect :: bool

definition ebpf_section_default :: ebpf_section where
  "ebpf_section_default = \<lparr>
     eb_enabled = True, eb_required = False, eb_fd_soft_limit = 8192, eb_fd_hard_limit = 9728,
     eb_mem_low_threshold_pages = 65536, eb_mem_critical_threshold_pages = 16384,
     eb_disk_slow_threshold_ns = 50000000, eb_tcp_conn_limit_per_pid = 10000,
     eb_syscall_rate_limit = 100000, eb_sampling_period_secs = 10,
     eb_enable_namespace_enforcer = True, eb_gateway_port = INTERNAL_GATEWAY_PORT,
     eb_enable_forged_header_detect = True \<rparr>"

record dns_section =
  dn_platform_domain :: "string option"
  dn_webhook_url :: "string option"
  dn_webhook_token :: "string option"
  dn_stub_enabled :: bool
  dn_stub_port :: u16

definition dns_section_default :: dns_section where
  "dns_section_default = \<lparr>
     dn_platform_domain = None, dn_webhook_url = None, dn_webhook_token = None,
     dn_stub_enabled = True, dn_stub_port = 15353 \<rparr>"

record app_health_check_defaults =
  ahc_path :: string
  ahc_expected_status :: u16
  ahc_interval_secs :: u64
  ahc_timeout_secs :: u64
  ahc_failure_threshold :: u32
  ahc_success_threshold :: u32

definition app_health_check_defaults_default :: app_health_check_defaults where
  "app_health_check_defaults_default = \<lparr>
     ahc_path = ''/health'', ahc_expected_status = 200, ahc_interval_secs = 10,
     ahc_timeout_secs = 5, ahc_failure_threshold = 3, ahc_success_threshold = 2 \<rparr>"

record health_section =
  he_check_interval_secs :: u64
  he_check_timeout_secs :: u64
  he_default_idle_timeout_secs :: u64
  he_default_max_instances :: u64
  he_default_fuel_quota :: u64
  he_default_memory_pages :: u32
  he_failure_threshold :: u32
  he_success_threshold :: u32
  he_min_disk_free_bytes :: u64
  he_min_disk_free_inodes :: u64
  he_max_memory_bytes :: u64
  he_snapshot_interval_secs :: u64
  he_cluster_node_stale_after_secs :: u64
  he_app_defaults :: app_health_check_defaults

definition health_section_default :: health_section where
  "health_section_default = \<lparr>
     he_check_interval_secs = 10, he_check_timeout_secs = 5, he_default_idle_timeout_secs = 300,
     he_default_max_instances = 10, he_default_fuel_quota = 10000000,
     he_default_memory_pages = 2048, he_failure_threshold = 3, he_success_threshold = 2,
     he_min_disk_free_bytes = 1024 * 1024 * 1024, he_min_disk_free_inodes = 10000,
     he_max_memory_bytes = 4 * 1024 * 1024 * 1024, he_snapshot_interval_secs = 60,
     he_cluster_node_stale_after_secs = 120, he_app_defaults = app_health_check_defaults_default \<rparr>"

record gateway_rate_limit_section =
  grl_kv_bucket :: string
  grl_sync_interval_ms :: u64

definition gateway_rate_limit_section_default :: gateway_rate_limit_section where
  "gateway_rate_limit_section_default = \<lparr>
     grl_kv_bucket = ''rate_limits'', grl_sync_interval_ms = 100 \<rparr>"

record gateway_circuit_breaker_section =
  gcb_default_failure_threshold :: u32
  gcb_default_reset_timeout_secs :: u32

definition gateway_circuit_breaker_section_default :: gateway_circuit_breaker_section where
  "gateway_circuit_breaker_section_default = \<lparr>
     gcb_default_failure_threshold = 5, gcb_default_reset_timeout_secs = 30 \<rparr>"

record gateway_section =
  gw_oidc :: "oidc_config option"
  gw_rate_limit :: gateway_rate_limit_section
  gw_circuit_breaker :: gateway_circuit_breaker_section

definition gateway_section_default :: gateway_section where
  "gateway_section_default = \<lparr>
     gw_oidc = None, gw_rate_limit = gateway_rate_limit_section_default,
     gw_circuit_breaker = gateway_circuit_breaker_section_default \<rparr>"

section \<open>The whole configuration\<close>

record node_config =
  nc_node :: node_section
  nc_storage :: storage_section
  nc_nats :: nats_section
  nc_proxy :: proxy_section
  nc_admin :: admin_section
  nc_auth :: auth_section
  nc_runtime :: runtime_section
  nc_database :: database_section
  nc_logging :: logging_section
  nc_billing :: billing_section
  nc_gc :: gc_section
  nc_rate_limit :: rate_limit_section
  nc_ebpf :: ebpf_section
  nc_dns :: dns_section
  nc_health :: health_section
  nc_gateway :: gateway_section

definition node_config_default :: "string option \<Rightarrow> node_config" where
  "node_config_default node_id_var = \<lparr> nc_node = node_section_default node_id_var,
     nc_storage = storage_section_default, nc_nats = nats_section_default,
     nc_proxy = proxy_section_default, nc_admin = admin_section_default,
     nc_auth = auth_section_default, nc_runtime = runtime_section_default,
     nc_database = database_section_default, nc_logging = logging_section_default,
     nc_billing = billing_section_default, nc_gc = gc_section_default,
     nc_rate_limit = rate_limit_section_default, nc_ebpf = ebpf_section_default,
     nc_dns = dns_section_default, nc_health = health_section_default,
     nc_gateway = gateway_section_default \<rparr>"

lemmas section_defaults = node_section_default_def storage_section_default_def nats_section_default_def
  proxy_section_default_def admin_section_default_def auth_section_default_def
  runtime_section_default_def database_section_default_def logging_section_default_def
  billing_section_default_def gc_section_default_def rate_limit_section_default_def
  ebpf_section_default_def dns_section_default_def health_section_default_def
  gateway_section_default_def

end
