(* ===== verification/Auth.thy ===== *)
theory Auth
  imports Node_Config Net_Addr
begin

text \<open>
  Bearer-token authentication of the admin API (\<open>crates/common/src/auth.rs\<close>, \<open>crypto.rs\<close>): the
  comparison of secrets, the permission a header grants, and the checks on tokens at start-up.
  Networks of the crate \<open>ipnet\<close> are the type \<open>'net\<close>, with \<open>net_parse\<close> and the conversion \<open>net_of_ip\<close>.
\<close>

section \<open>Comparison of secrets\<close>

unbundle bit_operations_syntax

type_synonym u8 = "8 word"

definition byte_of :: "char \<Rightarrow> u8" where
  "byte_of c = of_char c"

text \<open>The loop over \<open>0..max(a.len(), b.len())\<close>; a missing byte reads as \<open>0xFF\<close>.\<close>

fun eq_loop :: "u8 \<Rightarrow> u8 list \<Rightarrow> u8 list \<Rightarrow> u8" where
  "eq_loop result [] [] = result"
| "eq_loop result (x # xs) [] = eq_loop (result OR (x XOR 0xFF)) xs []"
| "eq_loop result [] (y # ys) = eq_loop (result OR (0xFF XOR y)) [] ys"
| "eq_loop result (x # xs) (y # ys) = eq_loop (result OR (x XOR y)) xs ys"

definition constant_time_eq :: "u8 list \<Rightarrow> u8 list \<Rightarrow> bool" where
  "constant_time_eq a b = (eq_loop 0 a b OR (if length a \<noteq> length b then 1 else 0) = 0)"

section \<open>Configuration and tokens\<close>

record auth_config =
  ac_enabled :: bool
  ac_read_token :: "string option"
  ac_write_token :: "string option"
  ac_require_tls :: bool
  ac_rate_limit_per_second :: u32
  ac_rate_limit_burst :: u32
  ac_trusted_proxies :: "string list"

definition auth_config_default :: auth_config where
  "auth_config_default = \<lparr> ac_enabled = False, ac_read_token = None, ac_write_token = None,
     ac_require_tls = True, ac_rate_limit_per_second = 10, ac_rate_limit_burst = 20,
     ac_trusted_proxies = [] \<rparr>"

definition auth_config_of_section :: "auth_section \<Rightarrow> auth_config" where
  "auth_config_of_section s = \<lparr> ac_enabled = au_enabled s, ac_read_token = au_read_token s,
     ac_write_token = au_write_token s, ac_require_tls = au_require_tls s,
     ac_rate_limit_per_second = au_rate_limit_per_second s,
     ac_rate_limit_burst = au_rate_limit_burst s, ac_trusted_proxies = au_trusted_proxies s \<rparr>"

definition section_of_auth_config :: "auth_config \<Rightarrow> auth_section" where
  "section_of_auth_config c = \<lparr> au_enabled = ac_enabled c, au_read_token = ac_read_token c,
     au_write_token = ac_write_token c, au_require_tls = ac_require_tls c,
     au_rate_limit_per_second = ac_rate_limit_per_second c,
     au_rate_limit_burst = ac_rate_limit_burst c, au_trusted_proxies = ac_trusted_proxies c \<rparr>"

text \<open>The messages of the checks, one constructor each.\<close>

datatype auth_error =
    TokenRequired string
  | TokenNotHex64 string
  | TokenRepeatedCharacter string
  | NoTokens
  | TokensEqual
  | ReadTokenTooShort nat
  | WriteTokenTooShort nat
  | RateLimitTooHigh u32
  | EmptyTrustedProxy
  | InvalidTrustedProxy string

definition validate_production_bearer_token ::
  "string \<Rightarrow> string option \<Rightarrow> (auth_error, unit) result" where
  "validate_production_bearer_token label token =
     (case token of None \<Rightarrow> Err (TokenRequired label)
      | Some token \<Rightarrow>
          if length token \<noteq> 64 \<or> \<not> list_all is_ascii_hexdigit token then Err (TokenNotHex64 label)
          else
            (let normalized = to_ascii_lowercase token
             in if list_all (\<lambda>c. c = (case normalized of [] \<Rightarrow> CHR ''0'' | d # _ \<Rightarrow> d)) normalized
                then Err (TokenRepeatedCharacter label) else Ok ()))"

datatype permission = PermNone | PermRead | PermWrite

datatype token_type = TokenNone | ReadToken | WriteToken

fun permission_level :: "permission \<Rightarrow> nat" where
  "permission_level PermNone = 0"
| "permission_level PermRead = 1"
| "permission_level PermWrite = 2"

record auth_result =
  ar_permission :: permission
  ar_token_type :: token_type

definition parse_trusted_proxy_entry ::
  "(string \<Rightarrow> 'net option) \<Rightarrow> (ip_addr \<Rightarrow> 'net) \<Rightarrow> string \<Rightarrow> (auth_error, 'net) result" where
  "parse_trusted_proxy_entry net_parse net_of_ip entry =
     (let trimmed = str_trim entry
      in if trimmed = [] then Err EmptyTrustedProxy
         else (case net_parse trimmed of
             Some n \<Rightarrow> Ok n
           | None \<Rightarrow> (case parse_ip trimmed of
                 Some ip \<Rightarrow> Ok (net_of_ip ip)
               | None \<Rightarrow> Err (InvalidTrustedProxy trimmed))))"

definition trusted_proxy_nets ::
  "(string \<Rightarrow> 'net option) \<Rightarrow> (ip_addr \<Rightarrow> 'net) \<Rightarrow> auth_config \<Rightarrow> (auth_error, 'net list) result" where
  "trusted_proxy_nets net_parse net_of_ip c =
     collect_results (map (parse_trusted_proxy_entry net_parse net_of_ip) (ac_trusted_proxies c))"

definition extract_bearer_token :: "string option \<Rightarrow> string option" where
  "extract_bearer_token header =
     (case header of None \<Rightarrow> None
      | Some h \<Rightarrow> (case strip_prefix ''Bearer '' h of
            None \<Rightarrow> None
          | Some stripped \<Rightarrow> (let token = str_trim stripped in if token = [] then None else Some token)))"

definition token_matches :: "string \<Rightarrow> string option \<Rightarrow> bool" where
  "token_matches token configured =
     (case configured of None \<Rightarrow> False
      | Some t \<Rightarrow> constant_time_eq (map byte_of token) (map byte_of t))"

definition authenticate :: "auth_config \<Rightarrow> string option \<Rightarrow> auth_result" where
  "authenticate c auth_header =
     (if \<not> ac_enabled c then \<lparr> ar_permission = PermWrite, ar_token_type = WriteToken \<rparr>
      else (case extract_bearer_token auth_header of
          None \<Rightarrow> \<lparr> ar_permission = PermNone, ar_token_type = TokenNone \<rparr>
        | Some token \<Rightarrow>
            if token_matches token (ac_write_token c)
            then \<lparr> ar_permission = PermWrite, ar_token_type = WriteToken \<rparr>
            else if token_matches token (ac_read_token c)
            then \<lparr> ar_permission = PermRead, ar_token_type = ReadToken \<rparr>
            else \<lparr> ar_permission = PermNone, ar_token_type = TokenNone \<rparr>))"

definition auth_validate ::
  "(string \<Rightarrow> 'net option) \<Rightarrow> (ip_addr \<Rightarrow> 'net) \<Rightarrow> auth_config \<Rightarrow> (auth_error, unit) result" where
  "auth_validate net_parse net_of_ip c =
     (if \<not> ac_enabled c then Ok ()
      else if ac_read_token c = None \<and> ac_write_token c = None then Err NoTokens
      else if ac_read_token c \<noteq> None \<and> ac_read_token c = ac_write_token c then Err TokensEqual
      else if (\<exists>t \<in> set_option (ac_read_token c). length t < 16)
        then Err (ReadTokenTooShort (length (the (ac_read_token c))))
      else if (\<exists>t \<in> set_option (ac_write_token c). length t < 16)
        then Err (WriteTokenTooShort (length (the (ac_write_token c))))
      else if ac_rate_limit_per_second c > 1000
        then Err (RateLimitTooHigh (ac_rate_limit_per_second c))
      else try_then (trusted_proxy_nets net_parse net_of_ip c) (\<lambda>_. Ok ()))"

text \<open>\<open>generate_token\<close> takes 32 random bytes; \<open>random\<close> is their hexadecimal text.\<close>

definition generate_default :: "string \<Rightarrow> string \<Rightarrow> auth_config" where
  "generate_default random1 random2 = \<lparr> ac_enabled = True, ac_read_token = Some random1,
     ac_write_token = Some random2, ac_require_tls = True, ac_rate_limit_per_second = 10,
     ac_rate_limit_burst = 20, ac_trusted_proxies = [] \<rparr>"

definition from_legacy_token :: "string \<Rightarrow> auth_config" where
  "from_legacy_token token = \<lparr> ac_enabled = True, ac_read_token = None,
     ac_write_token = Some token, ac_require_tls = False, ac_rate_limit_per_second = 10,
     ac_rate_limit_burst = 20, ac_trusted_proxies = [] \<rparr>"

section \<open>Facts\<close>

lemma or_eq_0_iff: "a OR b = 0 \<longleftrightarrow> a = 0 \<and> b = 0" for a b :: "'a::len word"
  by (auto simp: bit_eq_iff bit_or_iff)

lemma xor_eq_0_iff: "a XOR b = 0 \<longleftrightarrow> a = b" for a b :: "'a::len word"
  by (auto simp: bit_eq_iff bit_xor_iff)

lemma eq_loop_zero:
  "length a = length b \<Longrightarrow> eq_loop r a b = 0 \<longleftrightarrow> r = 0 \<and> a = b"
proof (induction r a b rule: eq_loop.induct)
  case (4 result x xs y ys)
  then show ?case by (auto simp: or_eq_0_iff xor_eq_0_iff)
qed simp_all

lemma constant_time_eq_iff: "constant_time_eq a b \<longleftrightarrow> a = b"
proof (cases "length a = length b")
  case True
  then show ?thesis
    by (simp add: constant_time_eq_def eq_loop_zero)
next
  case False
  then show ?thesis
    by (auto simp: constant_time_eq_def or_eq_0_iff)
qed

lemma unat_byte_of: "unat (byte_of c) = of_char c"
proof -
  have "byte_of c = of_nat (of_char c)"
    unfolding byte_of_def by (simp only: of_nat_of_char)
  then show ?thesis
    by (simp add: unat_of_nat)
qed

lemma byte_of_inj: "byte_of c = byte_of d \<longleftrightarrow> c = d"
  using unat_byte_of [of c] unat_byte_of [of d] by (metis of_char_eq_iff)

lemma token_matches_iff: "token_matches token configured \<longleftrightarrow> configured = Some token"
proof -
  have "map byte_of token = map byte_of t \<longleftrightarrow> token = t" for t
    by (rule inj_map_eq_map) (simp add: inj_def byte_of_inj)
  then show ?thesis
    by (cases configured) (auto simp: token_matches_def constant_time_eq_iff)
qed

lemma permission_level_le: "permission_level p \<le> 2"
  by (cases p) auto

lemma auth_validate_tokens:
  assumes "auth_validate net_parse net_of_ip c = Inr ()" and "ac_enabled c"
  shows "ac_read_token c \<noteq> None \<or> ac_write_token c \<noteq> None"
    and "ac_read_token c = Some t \<Longrightarrow> ac_write_token c \<noteq> Some t"
    and "ac_read_token c = Some t \<or> ac_write_token c = Some t \<Longrightarrow> 16 \<le> length t"
    and "ac_rate_limit_per_second c \<le> 1000"
  using assms by (auto simp: auth_validate_def split: if_splits)

section \<open>Properties\<close>

text \<open>
  (C30) A header grants exactly what its token is: with authentication enabled, write permission if
  and only if the trimmed text after \<open>Bearer\<close> is not empty and equals the write token, read permission
  if and only if it equals the read token and not the write token; the byte loop of
  \<open>constant_time_eq\<close> decides equality for all lengths, although it pads the shorter side with \<open>0xFF\<close>;
  with authentication disabled every request may write.
\<close>

theorem authenticate_exact:
  "(constant_time_eq a b \<longleftrightarrow> a = b) \<and>
   (ar_permission (authenticate c h) = PermWrite \<longleftrightarrow> \<not> ac_enabled c \<or>
      (\<exists>s t. h = Some (''Bearer '' @ s) \<and> t = str_trim s \<and> t \<noteq> [] \<and> ac_write_token c = Some t)) \<and>
   (ar_permission (authenticate c h) = PermRead \<longleftrightarrow> ac_enabled c \<and>
      (\<exists>s t. h = Some (''Bearer '' @ s) \<and> t = str_trim s \<and> t \<noteq> [] \<and> ac_read_token c = Some t \<and>
        ac_write_token c \<noteq> Some t))"
proof -
  have bearer: "extract_bearer_token h = Some t \<longleftrightarrow>
      (\<exists>s. h = Some (''Bearer '' @ s) \<and> t = str_trim s \<and> t \<noteq> [])" for t
    by (auto simp: extract_bearer_token_def strip_prefix_def Let_def prefix_def split: option.splits)
  show ?thesis
  proof (cases "extract_bearer_token h")
    case None
    then have "\<not> (h = Some (''Bearer '' @ s) \<and> str_trim s \<noteq> [])" for s
      using bearer by auto
    with None show ?thesis
      by (auto simp: constant_time_eq_iff authenticate_def)
  next
    case (Some u)
    then obtain s where s: "h = Some (''Bearer '' @ s)" "u = str_trim s" "u \<noteq> []"
      using bearer by auto
    with Some show ?thesis
      by (auto simp: constant_time_eq_iff authenticate_def token_matches_iff)
  qed
qed

theorem authenticate_exact_witness:
  "ar_permission (authenticate (from_legacy_token ''0123456789abcdef'') (Some ''Bearer 0123456789abcdef'')) = PermWrite \<and>
   ar_permission (authenticate (from_legacy_token ''0123456789abcdef'') None) \<noteq> PermWrite"
proof -
  have "str_trim ''0123456789abcdef'' = ''0123456789abcdef''"
    by (simp add: str_trim_def is_whitespace_def)
  then have "\<exists>s t. Some ''Bearer 0123456789abcdef'' = Some (''Bearer '' @ s) \<and> t = str_trim s \<and> t \<noteq> [] \<and>
      ac_write_token (from_legacy_token ''0123456789abcdef'') = Some t"
    by (intro exI [of _ "''0123456789abcdef''"]) (simp add: from_legacy_token_def)
  then show ?thesis
    using authenticate_exact [of _ _ "from_legacy_token ''0123456789abcdef''" "Some ''Bearer 0123456789abcdef''"]
      authenticate_exact [of _ _ "from_legacy_token ''0123456789abcdef''" None]
    by (simp add: from_legacy_token_def)
qed

end
