(* ===== verification/Admin_Middleware.thy ===== *)
theory Admin_Middleware
  imports Auth Rate_Limiter
begin

text \<open>
  The middleware in front of the admin API (\<open>crates/proxy/src/auth_middleware\<close>): the client address,
  the per-address limiter, authentication, authorisation, metrics and audit. Request headers are a
  function from names to values; a value may be opaque, that is, not text.
\<close>

section \<open>Client address\<close>

datatype header_value = Visible string | Opaque

type_synonym header_map = "string \<Rightarrow> header_value option"

definition header_str :: "header_map \<Rightarrow> string \<Rightarrow> string option" where
  "header_str headers name =
     (case headers name of Some (Visible v) \<Rightarrow> Some v | _ \<Rightarrow> None)"

definition extract_forwarded_client_ip :: "header_map \<Rightarrow> ip_addr option" where
  "extract_forwarded_client_ip headers =
     (let xff = (case header_str headers ''X-Forwarded-For'' of None \<Rightarrow> None
          | Some v \<Rightarrow> parse_ip (str_trim (hd (str_split CHR '','' v))))
      in case xff of Some ip \<Rightarrow> Some ip
         | None \<Rightarrow> (case header_str headers ''X-Real-IP'' of None \<Rightarrow> None | Some v \<Rightarrow> parse_ip v))"

definition peer_is_trusted :: "('net \<Rightarrow> ip_addr \<Rightarrow> bool) \<Rightarrow> ip_addr \<Rightarrow> 'net list \<Rightarrow> bool" where
  "peer_is_trusted net_contains peer_ip trusted = list_ex (\<lambda>n. net_contains n peer_ip) trusted"

definition extract_client_ip ::
  "('net \<Rightarrow> ip_addr \<Rightarrow> bool) \<Rightarrow> header_map \<Rightarrow> ip_addr option \<Rightarrow> 'net list \<Rightarrow> ip_addr option" where
  "extract_client_ip net_contains headers peer_ip trusted =
     (case peer_ip of None \<Rightarrow> None
      | Some ip \<Rightarrow>
          if peer_is_trusted net_contains ip trusted
          then (case extract_forwarded_client_ip headers of Some c \<Rightarrow> Some c | None \<Rightarrow> Some ip)
          else Some ip)"

section \<open>Limiter per address\<close>

record admin_bucket =
  ab_tokens :: rat
  ab_last_refill :: instant

record admin_rate_limiter =
  al_buckets :: "(ip_addr, admin_bucket) hmap"
  al_refill_rate :: rat
  al_max_tokens :: rat

definition admin_limiter_new :: "u32 \<Rightarrow> u32 \<Rightarrow> admin_rate_limiter" where
  "admin_limiter_new rate_per_second burst = \<lparr> al_buckets = [],
     al_refill_rate = f64_of_u32 rate_per_second, al_max_tokens = f64_of_u32 burst \<rparr>"

definition admin_limiter_disabled :: admin_rate_limiter where
  "admin_limiter_disabled = \<lparr> al_buckets = [], al_refill_rate = 1000000, al_max_tokens = 1000000 \<rparr>"

definition admin_take :: "rat \<Rightarrow> rat \<Rightarrow> instant \<Rightarrow> admin_bucket \<Rightarrow> bool \<times> admin_bucket" where
  "admin_take rate max_t now b =
     (let elapsed = as_secs_f64 (duration_since now (ab_last_refill b));
          b = b\<lparr> ab_last_refill := now \<rparr>;
          b = b\<lparr> ab_tokens := min (rnd (ab_tokens b + rnd (elapsed * rate))) max_t \<rparr>
      in if ab_tokens b \<ge> 1 then (True, b\<lparr> ab_tokens := rnd (ab_tokens b - 1) \<rparr>) else (False, b))"

text \<open>The clock is read for a new bucket (\<open>n\<close>) and for the refill (\<open>now\<close>).\<close>

definition allow :: "ip_addr option \<Rightarrow> instant \<Rightarrow> instant \<Rightarrow> admin_rate_limiter \<Rightarrow> bool \<times> admin_rate_limiter" where
  "allow ip n now l =
     (case ip of None \<Rightarrow> (True, l)
      | Some ip \<Rightarrow>
          if al_max_tokens l \<ge> 1000000 then (True, l)
          else
            (let b = hm_or_insert (al_buckets l) ip \<lparr> ab_tokens = al_max_tokens l, ab_last_refill = n \<rparr>;
                 (ok, b') = admin_take (al_refill_rate l) (al_max_tokens l) now b
             in (ok, l\<lparr> al_buckets := hm_insert ip b' (al_buckets l) \<rparr>)))"

definition prune_stale :: "nat \<Rightarrow> instant \<Rightarrow> admin_rate_limiter \<Rightarrow> admin_rate_limiter" where
  "prune_stale max_age now l = l\<lparr> al_buckets :=
     hm_retain (\<lambda>_ b. duration_since now (ab_last_refill b) < max_age) (al_buckets l) \<rparr>"

section \<open>Middleware\<close>

datatype http_method = GET | HEAD | OPTIONS | POST | PUT | PATCH | DELETE | OtherMethod string

record audit_info =
  ai_path :: string
  ai_method :: http_method
  ai_token_type :: token_type
  ai_client_ip :: "ip_addr option"
  ai_status_code :: u16
  ai_node_id :: string

record 'net auth_state =
  as_config :: auth_config
  as_rate_limited_total :: u64
  as_auth_failures_total :: u64
  as_auth_successes_total :: u64
  as_rate_limiter :: admin_rate_limiter
  as_trusted_proxies :: "'net list"
  as_audit :: "audit_info list option"
  as_node_id :: string

record admin_request =
  rq_method :: http_method
  rq_path :: string
  rq_headers :: header_map
  rq_peer :: "ip_addr option"

datatype admin_response = Forwarded | TooManyRequests | Unauthorized | Forbidden string

definition is_public_endpoint :: "string \<Rightarrow> bool" where
  "is_public_endpoint path = List.member [''/health'', ''/healthz'', ''/readyz'', ''/livez'',
     ''/_platform/health'', ''/favicon.ico''] path"

definition required_permission :: "http_method \<Rightarrow> permission" where
  "required_permission m = (if m = GET \<or> m = HEAD \<or> m = OPTIONS then PermRead else PermWrite)"

definition audit :: "audit_info \<Rightarrow> 'net auth_state \<Rightarrow> 'net auth_state" where
  "audit i s = s\<lparr> as_audit := map_option (\<lambda>log. log @ [i]) (as_audit s) \<rparr>"

definition auth_middleware ::
  "('net \<Rightarrow> ip_addr \<Rightarrow> bool) \<Rightarrow> admin_request \<Rightarrow> instant \<Rightarrow> instant \<Rightarrow> 'net auth_state
    \<Rightarrow> admin_response \<times> 'net auth_state" where
  "auth_middleware net_contains r n now s =
     (if is_public_endpoint (rq_path r) then (Forwarded, s)
      else
        (let client_ip = extract_client_ip net_contains (rq_headers r) (rq_peer r) (as_trusted_proxies s);
             (allowed, lim) = allow client_ip n now (as_rate_limiter s);
             s = s\<lparr> as_rate_limiter := lim \<rparr>
         in if \<not> allowed
            then (TooManyRequests, s\<lparr> as_rate_limited_total := as_rate_limited_total s + 1 \<rparr>)
            else
              (let res = authenticate (as_config s) (header_str (rq_headers r) ''Authorization'');
                   info = (\<lambda>status. \<lparr> ai_path = rq_path r, ai_method = rq_method r,
                     ai_token_type = ar_token_type res, ai_client_ip = client_ip,
                     ai_status_code = status, ai_node_id = as_node_id s \<rparr>)
               in if permission_level (ar_permission res) < permission_level (required_permission (rq_method r))
                  then
                    (let s = s\<lparr> as_auth_failures_total := as_auth_failures_total s + 1 \<rparr>
                     in case ar_permission res of
                          PermNone \<Rightarrow> (Unauthorized, audit (info 401) s)
                        | PermRead \<Rightarrow> (Forbidden ''insufficient permissions - read token cannot perform write operations'', s)
                        | PermWrite \<Rightarrow> (Forbidden ''insufficient permissions'', s))
                  else (Forwarded, audit (info 200)
                    (s\<lparr> as_auth_successes_total := as_auth_successes_total s + 1 \<rparr>)))))"

section \<open>Rotation and start-up checks\<close>

datatype rotation_error = BadTokenType | NewTokenTooShort nat

record rotate_token_request =
  rt_token_type :: string
  rt_new_token :: "string option"

definition validate_rotation_request :: "string \<Rightarrow> rotate_token_request \<Rightarrow> (rotation_error, string) result" where
  "validate_rotation_request random req =
     (if rt_token_type req \<noteq> ''read'' \<and> rt_token_type req \<noteq> ''write'' then Err BadTokenType
      else
        (let new_token = unwrap_or (rt_new_token req) random
         in if length new_token < 16 then Err (NewTokenTooShort (length new_token)) else Ok new_token))"

definition check_admin_tls_requirement :: "auth_config \<Rightarrow> bool \<Rightarrow> (unit, unit) result" where
  "check_admin_tls_requirement c admin_tls_configured =
     (if \<not> ac_enabled c then Ok ()
      else if \<not> ac_require_tls c then Ok ()
      else if \<not> admin_tls_configured then Err () else Ok ())"

section \<open>A sample state\<close>

definition w_state :: "ip_addr auth_state" where
  "w_state = \<lparr> as_config = from_legacy_token ''0123456789abcdef'', as_rate_limited_total = 0,
     as_auth_failures_total = 0, as_auth_successes_total = 0,
     as_rate_limiter = admin_limiter_new 10 20, as_trusted_proxies = [V4 1], as_audit = Some [],
     as_node_id = ''node-0'' \<rparr>"

definition w_request :: admin_request where
  "w_request = \<lparr> rq_method = POST, rq_path = ''/admin/rebuild'',
     rq_headers = (\<lambda>_. None), rq_peer = Some (V4 2) \<rparr>"

section \<open>Facts\<close>

interpretation admin_limiter: token_bucket "admin_take rate max_t" ab_tokens "\<lambda>_. max_t" "\<lambda>_. rate"
  ab_last_refill
  by unfold_locales (simp_all add: admin_take_def refill_def Let_def)

text \<open>Requests of one address at the given times.\<close>

fun allow_all :: "ip_addr \<Rightarrow> (instant \<times> instant) list \<Rightarrow> admin_rate_limiter \<Rightarrow> nat \<times> admin_rate_limiter" where
  "allow_all ip [] l = (0, l)"
| "allow_all ip ((n, now) # ts) l =
     (case allow (Some ip) n now l of (ok, l1) \<Rightarrow>
      case allow_all ip ts l1 of (k, l2) \<Rightarrow> ((if ok then Suc k else k), l2))"

definition admin_current :: "ip_addr \<Rightarrow> instant \<Rightarrow> admin_rate_limiter \<Rightarrow> admin_bucket" where
  "admin_current ip n l = hm_or_insert (al_buckets l) ip \<lparr> ab_tokens = al_max_tokens l, ab_last_refill = n \<rparr>"

lemma allow_some:
  assumes "al_max_tokens l < 1000000"
  shows "fst (allow (Some ip) n now l) = fst (admin_take (al_refill_rate l) (al_max_tokens l) now (admin_current ip n l))"
    and "admin_current ip m (snd (allow (Some ip) n now l)) =
      snd (admin_take (al_refill_rate l) (al_max_tokens l) now (admin_current ip n l))"
    and "al_max_tokens (snd (allow (Some ip) n now l)) = al_max_tokens l"
    and "al_refill_rate (snd (allow (Some ip) n now l)) = al_refill_rate l"
  using assms by (auto simp: allow_def admin_current_def hm_or_insert_def Let_def case_prod_unfold)

lemma allow_all_bucket:
  assumes "al_max_tokens l < 1000000"
  shows "fst (allow_all ip ts l) =
    fst (bucket_run (admin_take (al_refill_rate l) (al_max_tokens l)) (map snd ts)
      (admin_current ip (fst (hd ts)) l))"
  using assms
proof (induction ts arbitrary: l)
  case (Cons t ts)
  obtain n now where t: "t = (n, now)" by force
  let ?l = "snd (allow (Some ip) n now l)"
  note allow = allow_some [OF Cons.prems]
  have "fst (allow_all ip ts ?l) = fst (bucket_run (admin_take (al_refill_rate l) (al_max_tokens l))
      (map snd ts) (admin_current ip (fst (hd ts)) ?l))"
    using Cons.IH [of ?l] allow(3,4) Cons.prems by simp
  with allow(1,2) show ?case
    by (simp add: t case_prod_unfold)
qed simp

text \<open>
  A run of the limiter in service: requests of any address, each with its two clock readings, and the pruning task of
  \<open>crates/node/src/main.rs\<close>, which drops the buckets idle for five minutes. The first component counts the requests of
  \<open>ip\<close> that are let through.
\<close>

datatype limiter_call = Request ip_addr instant instant | Prune instant

fun run_call :: "ip_addr \<Rightarrow> limiter_call \<Rightarrow> admin_rate_limiter \<Rightarrow> nat \<times> admin_rate_limiter" where
  "run_call ip (Request a n now) l =
     (case allow (Some a) n now l of (ok, l') \<Rightarrow> (if ok \<and> a = ip then 1 else 0, l'))"
| "run_call ip (Prune now) l = (0, prune_stale (300 * nanos_per_sec) now l)"

fun limiter_run :: "ip_addr \<Rightarrow> limiter_call list \<Rightarrow> admin_rate_limiter \<Rightarrow> nat \<times> admin_rate_limiter" where
  "limiter_run ip [] l = (0, l)"
| "limiter_run ip (c # cs) l =
     (case run_call ip c l of (k, l1) \<Rightarrow> case limiter_run ip cs l1 of (m, l2) \<Rightarrow> (k + m, l2))"

fun call_end :: "limiter_call \<Rightarrow> instant" where
  "call_end (Request _ _ now) = now"
| "call_end (Prune now) = now"

fun call_after :: "instant \<Rightarrow> limiter_call \<Rightarrow> bool" where
  "call_after t (Request _ n now) \<longleftrightarrow> t \<le> n \<and> n \<le> now"
| "call_after t (Prune now) \<longleftrightarrow> t \<le> now"

fun calls_ok :: "instant \<Rightarrow> limiter_call list \<Rightarrow> bool" where
  "calls_ok t [] = True"
| "calls_ok t (c # cs) = (call_after t c \<and> calls_ok (call_end c) cs)"

definition calls_end :: "instant \<Rightarrow> limiter_call list \<Rightarrow> instant" where
  "calls_end t cs = last (t # map call_end cs)"

fun asks_for :: "ip_addr \<Rightarrow> limiter_call \<Rightarrow> bool" where
  "asks_for ip (Request a _ _) \<longleftrightarrow> a = ip"
| "asks_for ip (Prune _) \<longleftrightarrow> False"

definition requests_of :: "ip_addr \<Rightarrow> limiter_call list \<Rightarrow> nat" where
  "requests_of ip cs = length (filter (asks_for ip) cs)"

text \<open>
  What an address may still use: the tokens of its bucket and what it gains per nanosecond since the last refill, or the
  burst while it has no bucket. A pruned bucket comes back full, which the gain covers with a burst per five minutes.
\<close>

definition gain :: "rat \<Rightarrow> rat \<Rightarrow> rat" where
  "gain rate burst = ((1 + unit_roundoff) ^ 4 * rate + burst / 300) / of_nat nanos_per_sec"

definition credit :: "ip_addr \<Rightarrow> instant \<Rightarrow> admin_rate_limiter \<Rightarrow> rat" where
  "credit ip t l = (case hm_get (al_buckets l) ip of
      None \<Rightarrow> al_max_tokens l
    | Some b \<Rightarrow> ab_tokens b + gain (al_refill_rate l) (al_max_tokens l) * of_nat (t - ab_last_refill b))"

definition address_inv :: "ip_addr \<Rightarrow> instant \<Rightarrow> admin_rate_limiter \<Rightarrow> bool" where
  "address_inv ip t l \<longleftrightarrow> hm_wf (al_buckets l) \<and> rate_ok (al_refill_rate l) \<and>
     tokens_ok (al_max_tokens l) (al_max_tokens l) \<and> al_max_tokens l < 1000000 \<and>
     (\<forall>b. hm_get (al_buckets l) ip = Some b \<longrightarrow> tokens_ok (al_max_tokens l) (ab_tokens b) \<and> ab_last_refill b \<le> t)"

lemma gain_bounds:
  assumes "0 \<le> rate" "0 \<le> burst"
  shows "(1 + unit_roundoff) ^ 4 * (rate * (of_nat d / of_nat nanos_per_sec)) \<le> gain rate burst * of_nat d"
    and "300 * nanos_per_sec \<le> d \<Longrightarrow> burst \<le> gain rate burst * of_nat d"
    and "0 \<le> gain rate burst"
proof -
  let ?e = "(1 + unit_roundoff) ^ 4 * rate" and ?N = "of_nat nanos_per_sec :: rat"
  have e: "0 \<le> ?e"
    using assms(1) unit_roundoff_pos by simp
  have N: "0 < ?N"
    by (simp add: nanos_per_sec_def)
  have split: "gain rate burst * of_nat d = ?e * of_nat d / ?N + burst / 300 * of_nat d / ?N"
    by (simp add: gain_def add_divide_distrib distrib_right)
  have pos: "0 \<le> ?e * of_nat d / ?N" "0 \<le> burst / 300 * of_nat d / ?N"
    using e assms(2) N by simp_all
  from pos split show "(1 + unit_roundoff) ^ 4 * (rate * (of_nat d / ?N)) \<le> gain rate burst * of_nat d"
    by (simp add: mult_ac)
  show "burst \<le> gain rate burst * of_nat d" if "300 * nanos_per_sec \<le> d"
  proof -
    have "300 * ?N \<le> of_nat d"
      using that by (metis of_nat_le_iff of_nat_mult of_nat_numeral)
    then have "burst / 300 * (300 * ?N) \<le> burst / 300 * of_nat d"
      using assms(2) by (intro mult_left_mono) simp_all
    then have "burst \<le> burst / 300 * of_nat d / ?N"
      using N by (simp add: pos_le_divide_eq)
    with pos split show ?thesis
      by linarith
  qed
  show "0 \<le> gain rate burst"
    using e assms(2) N by (simp add: gain_def)
qed

lemma address_inv_nonneg:
  assumes "address_inv ip t l"
  shows "0 \<le> al_refill_rate l" "0 \<le> al_max_tokens l"
  using assms rate_ok_nonneg by (auto simp: address_inv_def tokens_ok_def)

text \<open>Time that passes adds at most the gain.\<close>

lemma credit_later:
  assumes "address_inv ip t l" "t \<le> t'"
  shows "credit ip t' l \<le> credit ip t l + gain (al_refill_rate l) (al_max_tokens l) * of_nat (t' - t)"
proof (cases "hm_get (al_buckets l) ip")
  case None
  with gain_bounds(3) [OF address_inv_nonneg [OF assms(1)]] show ?thesis
    by (simp add: credit_def)
next
  case (Some b)
  with assms have "t' - ab_last_refill b = (t - ab_last_refill b) + (t' - t)"
    by (simp add: address_inv_def)
  then have "(of_nat (t' - ab_last_refill b) :: rat) = of_nat (t - ab_last_refill b) + of_nat (t' - t)"
    by (simp only: of_nat_add)
  with Some show ?thesis
    by (simp add: credit_def distrib_left)
qed

lemma own_request_credit:
  assumes "address_inv ip t l" "t \<le> n" "n \<le> now" "allow (Some ip) n now l = (ok, l')"
  shows "(if ok then 1 else 0) + credit ip now l' \<le>
      credit ip t l + gain (al_refill_rate l) (al_max_tokens l) * of_nat (now - t) + unit_roundoff * al_max_tokens l"
    and "address_inv ip now l'" "al_refill_rate l' = al_refill_rate l" "al_max_tokens l' = al_max_tokens l"
proof -
  let ?b = "admin_current ip n l" and ?r = "al_refill_rate l" and ?m = "al_max_tokens l"
  let ?b' = "snd (admin_take ?r ?m now ?b)"
  have lt: "al_max_tokens l < 1000000" and rate: "rate_ok ?r"
    using assms(1) by (simp_all add: address_inv_def)
  have b: "tokens_ok ?m (ab_tokens ?b)" "ab_last_refill ?b \<le> n"
    "ab_tokens ?b + gain ?r ?m * of_nat (now - ab_last_refill ?b) \<le> credit ip t l + gain ?r ?m * of_nat (now - t)"
    using assms(1-3) credit_later [OF assms(1), of now]
      gain_bounds(3) [OF address_inv_nonneg [OF assms(1)]] mult_left_mono [of "of_nat (now - n)" "of_nat (now - t)" "gain ?r ?m"]
    by (auto simp: admin_current_def hm_or_insert_def address_inv_def credit_def split: option.splits)
  have eq: "ok = fst (admin_take ?r ?m now ?b)" "l' = l\<lparr> al_buckets := hm_insert ip ?b' (al_buckets l) \<rparr>"
    using assms(4) lt by (auto simp: allow_def admin_current_def Let_def case_prod_unfold)
  note take = admin_limiter.acquire_ok [of ?m ?b ?r now, OF b(1) rate]
  have last: "ab_last_refill ?b' = now"
    by (rule admin_limiter.acquire_last)
  have "ab_tokens ?b' + (if ok then 1 else 0) \<le> ab_tokens ?b + unit_roundoff * ?m + gain ?r ?m * of_nat (now - ab_last_refill ?b)"
    unfolding eq(1) take(2)
    using refill_upper [OF b(1) rate, of "duration_since now (ab_last_refill ?b)"]
      gain_bounds(1) [OF address_inv_nonneg [OF assms(1)], of "now - ab_last_refill ?b"]
    by (simp add: duration_since_def)
  moreover have "credit ip now l' = ab_tokens ?b'"
    by (simp add: eq(2) credit_def last)
  ultimately show "(if ok then 1 else 0) + credit ip now l' \<le>
      credit ip t l + gain ?r ?m * of_nat (now - t) + unit_roundoff * ?m"
    using b(3) by linarith
  show "address_inv ip now l'" "al_refill_rate l' = ?r" "al_max_tokens l' = ?m"
    using assms(1) take(1) last by (simp_all add: eq(2) address_inv_def)
qed

lemma other_request_credit:
  assumes "address_inv ip t l" "t \<le> now" "a \<noteq> ip" "allow (Some a) n now l = (ok, l')"
  shows "credit ip now l' \<le> credit ip t l + gain (al_refill_rate l) (al_max_tokens l) * of_nat (now - t)"
    and "address_inv ip now l'" "al_refill_rate l' = al_refill_rate l" "al_max_tokens l' = al_max_tokens l"
proof -
  have "al_max_tokens l < 1000000"
    using assms(1) by (simp add: address_inv_def)
  then obtain b where l': "l' = l\<lparr> al_buckets := hm_insert a b (al_buckets l) \<rparr>"
    using assms(4) by (auto simp: allow_def Let_def case_prod_unfold)
  then have "credit ip now l' = credit ip now l"
    using assms(3) by (auto simp: credit_def split: option.split)
  then show "credit ip now l' \<le> credit ip t l + gain (al_refill_rate l) (al_max_tokens l) * of_nat (now - t)"
    using credit_later [OF assms(1,2)] by simp
  show "address_inv ip now l'" "al_refill_rate l' = al_refill_rate l" "al_max_tokens l' = al_max_tokens l"
    using assms(1-3) l' by (auto simp: address_inv_def)
qed

lemma prune_credit:
  assumes "address_inv ip t l" "t \<le> now"
  defines "l' \<equiv> prune_stale (300 * nanos_per_sec) now l"
  shows "credit ip now l' \<le> credit ip t l + gain (al_refill_rate l) (al_max_tokens l) * of_nat (now - t)"
    and "address_inv ip now l'" "al_refill_rate l' = al_refill_rate l" "al_max_tokens l' = al_max_tokens l"
proof -
  let ?r = "al_refill_rate l" and ?m = "al_max_tokens l"
  have wf: "hm_wf (al_buckets l)"
    using assms(1) by (simp add: address_inv_def)
  note get = hm.get_retain [OF wf]
  have "credit ip now l' \<le> credit ip now l"
  proof (cases "hm_get (al_buckets l) ip")
    case None
    then show ?thesis
      by (simp add: l'_def prune_stale_def credit_def get)
  next
    case (Some b)
    have "0 \<le> ab_tokens b"
      using Some assms(1) by (simp add: address_inv_def tokens_ok_def)
    with Some gain_bounds(2) [OF address_inv_nonneg [OF assms(1)], of "now - ab_last_refill b"] show ?thesis
      by (auto simp: l'_def prune_stale_def credit_def get duration_since_def not_less)
  qed
  with credit_later [OF assms(1,2)] show "credit ip now l' \<le> credit ip t l + gain ?r ?m * of_nat (now - t)"
    by linarith
  show "address_inv ip now l'" "al_refill_rate l' = ?r" "al_max_tokens l' = ?m"
    using assms(1,2) by (auto simp: l'_def prune_stale_def address_inv_def get split: option.splits if_splits)
qed

lemma call_credit:
  assumes "address_inv ip t l" "call_after t c" "run_call ip c l = (k, l')"
  shows "of_nat k + credit ip (call_end c) l' \<le>
      credit ip t l + gain (al_refill_rate l) (al_max_tokens l) * of_nat (call_end c - t) +
      (if asks_for ip c then unit_roundoff * al_max_tokens l else 0)"
    and "address_inv ip (call_end c) l'" "al_refill_rate l' = al_refill_rate l" "al_max_tokens l' = al_max_tokens l"
proof -
  have "of_nat k + credit ip (call_end c) l' \<le>
      credit ip t l + gain (al_refill_rate l) (al_max_tokens l) * of_nat (call_end c - t) +
      (if asks_for ip c then unit_roundoff * al_max_tokens l else 0) \<and>
    address_inv ip (call_end c) l' \<and> al_refill_rate l' = al_refill_rate l \<and> al_max_tokens l' = al_max_tokens l"
  proof (cases c)
    case (Request a n now)
    obtain ok l1 where allow: "allow (Some a) n now l = (ok, l1)"
      by fastforce
    with assms(3) Request have k: "k = (if ok \<and> a = ip then 1 else 0)" "l' = l1"
      by auto
    show ?thesis
    proof (cases "a = ip")
      case True
      with own_request_credit [OF assms(1) _ _ allow [unfolded True]] assms(2) Request k show ?thesis
        by auto
    next
      case False
      with other_request_credit [OF assms(1) _ False allow] assms(2) Request k show ?thesis
        by simp
    qed
  next
    case (Prune now)
    with assms prune_credit [OF assms(1), of now] show ?thesis
      by auto
  qed
  then show "of_nat k + credit ip (call_end c) l' \<le>
      credit ip t l + gain (al_refill_rate l) (al_max_tokens l) * of_nat (call_end c - t) +
      (if asks_for ip c then unit_roundoff * al_max_tokens l else 0)"
    and "address_inv ip (call_end c) l'" "al_refill_rate l' = al_refill_rate l" "al_max_tokens l' = al_max_tokens l"
    by simp_all
qed

lemma calls_end_ge: "calls_ok t cs \<Longrightarrow> t \<le> calls_end t cs"
proof (induction cs arbitrary: t)
  case (Cons c cs)
  then have "t \<le> call_end c" "call_end c \<le> calls_end (call_end c) cs"
    by (cases c; simp)+
  then show ?case
    by (simp add: calls_end_def)
qed (simp add: calls_end_def)

lemma limiter_run_bound:
  assumes "address_inv ip t l" "calls_ok t cs"
  shows "of_nat (fst (limiter_run ip cs l)) \<le> credit ip t l +
    gain (al_refill_rate l) (al_max_tokens l) * of_nat (calls_end t cs - t) +
    of_nat (requests_of ip cs) * (unit_roundoff * al_max_tokens l)"
  using assms
proof (induction cs arbitrary: t l)
  case Nil
  have "0 \<le> credit ip t l"
    using Nil.prems(1) gain_bounds(3) [OF address_inv_nonneg [OF Nil.prems(1)]]
    by (auto simp: credit_def address_inv_def tokens_ok_def split: option.splits)
  then show ?case
    by (simp add: calls_end_def requests_of_def)
next
  case (Cons c cs)
  let ?g = "gain (al_refill_rate l) (al_max_tokens l)" and ?e = "call_end c" and ?u = "unit_roundoff * al_max_tokens l"
  obtain k l' where step: "run_call ip c l = (k, l')"
    by fastforce
  have ok: "call_after t c" "calls_ok ?e cs"
    using Cons.prems(2) by simp_all
  note one = call_credit [OF Cons.prems(1) ok(1) step]
  have rest: "of_nat (fst (limiter_run ip cs l')) \<le> credit ip ?e l' + ?g * of_nat (calls_end ?e cs - ?e) +
      of_nat (requests_of ip cs) * ?u"
    using Cons.IH [OF one(2) ok(2)] one(3,4) by simp
  have "t \<le> ?e"
    using ok(1) by (cases c) simp_all
  then have "calls_end t (c # cs) - t = (calls_end ?e cs - ?e) + (?e - t)"
    using calls_end_ge [OF ok(2)] by (simp add: calls_end_def)
  then have "(of_nat (calls_end t (c # cs) - t) :: rat) = of_nat (calls_end ?e cs - ?e) + of_nat (?e - t)"
    by (simp only: of_nat_add)
  then have time: "?g * of_nat (calls_end t (c # cs) - t) = ?g * of_nat (calls_end ?e cs - ?e) + ?g * of_nat (?e - t)"
    by (simp only: distrib_left)
  have count: "of_nat (requests_of ip (c # cs)) * ?u = of_nat (requests_of ip cs) * ?u + (if asks_for ip c then ?u else 0)"
    by (simp add: requests_of_def distrib_right)
  have "of_nat (fst (limiter_run ip (c # cs) l)) = (of_nat k + of_nat (fst (limiter_run ip cs l')) :: rat)"
    by (simp add: step case_prod_unfold)
  with rest one(1) time count show ?case
    by linarith
qed

lemma header_str_iff: "header_str h name = Some v \<longleftrightarrow> h name = Some (Visible v)"
  by (auto simp: header_str_def split: option.splits header_value.splits)

lemma permission_needed:
  "permission_level p < permission_level (required_permission m) \<longleftrightarrow>
     p = PermNone \<or> (p = PermRead \<and> m \<notin> {GET, HEAD, OPTIONS})"
  by (cases p) (auto simp: required_permission_def)

lemma middleware_forwarded_iff:
  "fst (auth_middleware net_contains r n now s) = Forwarded \<longleftrightarrow> is_public_endpoint (rq_path r) \<or>
     (fst (allow (extract_client_ip net_contains (rq_headers r) (rq_peer r) (as_trusted_proxies s)) n now
        (as_rate_limiter s)) \<and>
      \<not> permission_level (ar_permission (authenticate (as_config s)
          (header_str (rq_headers r) ''Authorization''))) < permission_level (required_permission (rq_method r)))"
  by (auto simp: auth_middleware_def Let_def case_prod_unfold split: permission.splits)

lemma admin_take_no_rate:
  assumes "tokens_ok max_t (ab_tokens b)"
  shows "refill (ab_tokens b) 0 max_t d = ab_tokens b"
  using assms rnd_fixpoint [of "ab_tokens b"] by (simp add: refill_def tokens_ok_def)

lemma bucket_run_no_rate:
  assumes "tokens_ok max_t (ab_tokens b)"
  shows "of_nat (fst (bucket_run (admin_take 0 max_t) ts b)) \<le> ab_tokens b"
  using assms
proof (induction ts arbitrary: b)
  case Nil
  then show ?case by (simp add: tokens_ok_def)
next
  case (Cons t ts)
  let ?b = "snd (admin_take 0 max_t t b)"
  have rate: "rate_ok 0" by (simp add: rate_ok_def)
  note ok = admin_limiter.acquire_ok [OF Cons.prems rate, of t]
  have "of_nat (fst (bucket_run (admin_take 0 max_t) ts ?b)) \<le> ab_tokens ?b"
    using ok(1) by (rule Cons.IH)
  moreover have "ab_tokens ?b + (if fst (admin_take 0 max_t t b) then 1 else 0) = ab_tokens b"
    using ok(2) admin_take_no_rate [OF Cons.prems] by simp
  ultimately show ?case
    by (auto simp: case_prod_unfold split: if_splits)
qed

lemma admin_start:
  "admin_current ip n (admin_limiter_new r b) = \<lparr> ab_tokens = f64_of_u32 b, ab_last_refill = n \<rparr>"
  "tokens_ok (f64_of_u32 b) (f64_of_u32 b)"
  using f64_of_u32_rep [of b]
  by (simp_all add: admin_current_def admin_limiter_new_def hm_or_insert_def tokens_ok_def)

section \<open>Properties\<close>

text \<open>
  (C9) The admin API is reached exactly by public probes and by requests that pass the limiter and
  carry a sufficient token: with authentication enabled, a mutating request to any other path is
  forwarded only with the write token as bearer token, a reading request only with one of the tokens.
\<close>

theorem admin_api_guard:
  "fst (auth_middleware net_contains r n now s) = Forwarded \<longleftrightarrow> is_public_endpoint (rq_path r) \<or>
     (fst (allow (extract_client_ip net_contains (rq_headers r) (rq_peer r) (as_trusted_proxies s)) n now
        (as_rate_limiter s)) \<and>
      (\<not> ac_enabled (as_config s) \<or>
       (\<exists>v. rq_headers r ''Authorization'' = Some (Visible (''Bearer '' @ v)) \<and> str_trim v \<noteq> [] \<and>
         (ac_write_token (as_config s) = Some (str_trim v) \<or>
          ac_read_token (as_config s) = Some (str_trim v) \<and> rq_method r \<in> {GET, HEAD, OPTIONS}))))"
proof -
  let ?h = "header_str (rq_headers r) ''Authorization''"
  have bearer: "extract_bearer_token ?h = Some t \<longleftrightarrow>
      (\<exists>v. rq_headers r ''Authorization'' = Some (Visible (''Bearer '' @ v)) \<and> t = str_trim v \<and> t \<noteq> [])" for t
  proof -
    have "extract_bearer_token ?h = Some t \<longleftrightarrow> (\<exists>v. ?h = Some (''Bearer '' @ v) \<and> t = str_trim v \<and> t \<noteq> [])"
      by (auto simp: extract_bearer_token_def strip_prefix_def Let_def prefix_def split: option.splits)
    then show ?thesis
      by (simp only: header_str_iff)
  qed
  have "\<not> permission_level (ar_permission (authenticate (as_config s) ?h)) <
      permission_level (required_permission (rq_method r)) \<longleftrightarrow> \<not> ac_enabled (as_config s) \<or>
       (\<exists>t. extract_bearer_token ?h = Some t \<and> (ac_write_token (as_config s) = Some t \<or>
          ac_read_token (as_config s) = Some t \<and> rq_method r \<in> {GET, HEAD, OPTIONS}))"
    unfolding permission_needed
    by (auto simp: authenticate_def token_matches_iff split: option.splits)
  then show ?thesis
    unfolding middleware_forwarded_iff bearer by blast
qed

theorem admin_api_guard_witness:
  "ac_enabled (as_config w_state) \<and> \<not> is_public_endpoint (rq_path w_request) \<and>
   fst (auth_middleware (=) w_request 0 0 w_state) \<noteq> Forwarded"
  using admin_api_guard [of "(=)" w_request 0 0 w_state]
  by (simp add: w_state_def w_request_def from_legacy_token_def is_public_endpoint_def)

text \<open>
  Forwarding headers cannot be spoofed: for a peer outside the trusted proxies, the answer and
  the whole new state of the middleware, limiter and audit trail included, depend on no header but
  \<open>Authorization\<close>.
\<close>

theorem untrusted_headers_ignored:
  assumes "rq_peer r = Some ip" and "\<not> peer_is_trusted net_contains ip (as_trusted_proxies s)"
    and "header_str h ''Authorization'' = header_str (rq_headers r) ''Authorization''"
  shows "auth_middleware net_contains (r\<lparr> rq_headers := h \<rparr>) n now s = auth_middleware net_contains r n now s"
  using assms by (simp add: auth_middleware_def extract_client_ip_def Let_def case_prod_unfold)

theorem untrusted_headers_ignored_witness:
  "auth_middleware (=) (w_request\<lparr> rq_headers :=
      (\<lambda>n. if n = ''X-Forwarded-For'' then Some (Visible ''9.9.9.9'') else None) \<rparr>) 0 0 w_state =
   auth_middleware (=) w_request 0 0 w_state"
  by (rule untrusted_headers_ignored [of _ "V4 2"])
    (simp_all add: w_request_def w_state_def peer_is_trusted_def header_str_def)

text \<open>
  (C33) Guessing is slowed down. In any run of the limiter, requests of other addresses and the minutely pruning of
  idle buckets included, the requests of one address let through to authentication number at most the burst, plus per
  second the rate and a three-hundredth of the burst (a bucket idle for five minutes is dropped and comes back full),
  up to rounding. This holds for every burst below one million (a burst of a million or more turns the limiter off).
\<close>

theorem admin_guess_rate_bounded:
  assumes "calls_ok t cs" and "unat burst < 1000000"
  shows "of_nat (fst (limiter_run ip cs (admin_limiter_new r burst))) \<le>
    f64_of_u32 burst * (1 + of_nat (requests_of ip cs) * unit_roundoff) +
    ((1 + unit_roundoff) ^ 4 * f64_of_u32 r + f64_of_u32 burst / 300) *
      (of_nat (calls_end t cs - t) / of_nat nanos_per_sec)"
proof -
  have "address_inv ip t (admin_limiter_new r burst)"
    using assms(2) admin_start(2) [of burst] rate_ok_u32 [of r]
    by (simp add: address_inv_def admin_limiter_new_def f64_of_u32_def flip: of_nat_less_iff [where 'a = rat])
  note bound = limiter_run_bound [OF this assms(1)]
  have start: "credit ip t (admin_limiter_new r burst) = f64_of_u32 burst"
    "al_refill_rate (admin_limiter_new r burst) = f64_of_u32 r" "al_max_tokens (admin_limiter_new r burst) = f64_of_u32 burst"
    by (simp_all add: credit_def admin_limiter_new_def)
  have "gain (f64_of_u32 r) (f64_of_u32 burst) * of_nat d =
      ((1 + unit_roundoff) ^ 4 * f64_of_u32 r + f64_of_u32 burst / 300) * (of_nat d / of_nat nanos_per_sec)" for d
    by (simp add: gain_def)
  moreover have "f64_of_u32 burst * (1 + of_nat k * unit_roundoff) =
      f64_of_u32 burst + of_nat k * (unit_roundoff * f64_of_u32 burst)" for k
    by (simp add: distrib_left mult_ac)
  ultimately show ?thesis
    using bound unfolding start by (simp only: add.assoc add.commute add.left_commute)
qed

theorem admin_guess_rate_bounded_witness:
  "let cs = [Request (V4 2) 5 5, Prune 6, Request (V4 3) 6 7, Request (V4 2) 8 8] in
   of_nat (fst (limiter_run (V4 2) cs (admin_limiter_new 10 20))) \<le>
    f64_of_u32 20 * (1 + of_nat 2 * unit_roundoff) +
    ((1 + unit_roundoff) ^ 4 * f64_of_u32 10 + f64_of_u32 20 / 300) * (of_nat 4 / of_nat nanos_per_sec)"
  using admin_guess_rate_bounded [of 4 "[Request (V4 2) 5 5, Prune 6, Request (V4 3) 6 7, Request (V4 2) 8 8]" 20 "V4 2" 10]
  by (simp add: calls_end_def requests_of_def del: limiter_run.simps)

text \<open>
  A rate of zero does not disable the limiter, as its documentation says, but locks every
  address out: for as long as its bucket is kept (until five idle minutes let it be pruned), an
  address is let through no more often than the burst, whatever time passes.
\<close>

theorem admin_rate_zero_locks_out:
  assumes "unat burst < 1000000"
  shows "fst (allow_all ip ts (admin_limiter_new 0 burst)) \<le> unat burst"
proof -
  let ?l = "admin_limiter_new 0 burst"
  have max: "al_max_tokens ?l < 1000000"
    using assms by (simp add: admin_limiter_new_def f64_of_u32_def flip: of_nat_less_iff [where 'a = rat])
  have "fst (allow_all ip ts ?l) = fst (bucket_run (admin_take 0 (f64_of_u32 burst)) (map snd ts)
      \<lparr> ab_tokens = f64_of_u32 burst, ab_last_refill = fst (hd ts) \<rparr>)"
    unfolding allow_all_bucket [OF max] admin_start(1)
    by (simp add: admin_limiter_new_def f64_of_u32_def)
  then have "of_nat (fst (allow_all ip ts ?l)) \<le> f64_of_u32 burst"
    using bucket_run_no_rate [of "f64_of_u32 burst" "\<lparr> ab_tokens = f64_of_u32 burst, ab_last_refill = fst (hd ts) \<rparr>"]
      admin_start(2) [of burst] by simp
  then show ?thesis
    unfolding f64_of_u32_def by (simp only: of_nat_le_iff)
qed

theorem admin_rate_zero_locks_out_witness:
  "fst (allow_all (V4 2) [(0, 0), (10 ^ 18, 10 ^ 18)] (admin_limiter_new 0 1)) \<le> 1"
  using admin_rate_zero_locks_out [of 1 "V4 2" "[(0, 0), (10 ^ 18, 10 ^ 18)]"] by simp

end
