(* ===== verification/Config_Validation.thy ===== *)
theory Config_Validation
  imports Auth
begin

text \<open>
  Validation of the merged configuration (\<open>crates/config/src/validation.rs\<close>). Messages are collected
  in the order of the source, one constructor per message. Parsing of URLs (crate \<open>url\<close>), of
  hexadecimal text (crate \<open>hex\<close>) and of networks (crate \<open>ipnet\<close>) is a parameter, gathered in the record
  \<open>libs\<close>.
\<close>

section \<open>Parameters and messages\<close>

record parsed_url =
  url_scheme :: string
  url_host_str :: "string option"
  url_has_query :: bool
  url_has_fragment :: bool

record 'net libs =
  lib_url_parse :: "string \<Rightarrow> (string, parsed_url) result"
  lib_hex_decode :: "string \<Rightarrow> (string, u8 list) result"
  lib_net_parse :: "string \<Rightarrow> 'net option"
  lib_net_of_ip :: "ip_addr \<Rightarrow> 'net"

datatype config_error =
    MustNotBeEmpty string
  | MustBeIpLiteral string
  | MustBeHostNotUrl string
  | MustNotContainPath string
  | MustNotIncludePort string
  | MustNotBeLoopback string
  | MustUseHttp string
  | MustIncludeHost string
  | MustNotIncludeQuery string
  | InvalidUrl string string
  | ProductionRequires string
  | ProductionRejects string
  | AuthProblem auth_error
  | PreviousVersionEqualsActive string
  | UnsupportedIsolationMode
  | MustBeConfiguredTogether string string
  | MustNotBeEmptyWhenConfigured string
  | PortRangeEmpty
  | PortRangeTooSmall
  | InvalidLogLevel string
  | DiskThresholdOutOfRange
  | MustBePositive string
  | FdLimitsInverted
  | MemThresholdsInverted
  | PoolExceedsMemory
  | HttpsPortRequiresTls
  | KeySourceRequires string string
  | UnsupportedKeySource string
  | TlsRequiredWithoutMaterial
  | TrustedProxiesRequired
  | ArtifactServerUnauthenticated
  | SigningKeyWrongLength nat
  | SigningKeyNotHex string
  | LegacyAndWriteToken

text \<open>One \<open>if\<close> that pushes a message.\<close>

definition fail_if :: "bool \<Rightarrow> config_error \<Rightarrow> config_error list" where
  "fail_if b e = (if b then [e] else [])"

definition without_brackets :: "string \<Rightarrow> string" where
  "without_brackets h = trim_end_char CHR '']'' (trim_start_char CHR ''['' h)"

definition is_loopback_host :: "string \<Rightarrow> bool" where
  "is_loopback_host host =
     (let trimmed = without_brackets (str_trim host)
      in eq_ignore_ascii_case trimmed ''localhost'' \<or>
         (case parse_ip trimmed of Some ip \<Rightarrow> is_loopback ip | None \<Rightarrow> False))"

definition bind_address_is_loopback :: "string \<Rightarrow> bool" where
  "bind_address_is_loopback host =
     (let trimmed = without_brackets (str_trim host) in trimmed \<noteq> [] \<and> is_loopback_host trimmed)"

definition validate_ip_literal :: "string \<Rightarrow> string \<Rightarrow> config_error list" where
  "validate_ip_literal label value =
     (let trimmed = str_trim value
      in if trimmed = [] then [MustNotBeEmpty label]
         else fail_if (parse_ip trimmed = None) (MustBeIpLiteral label))"

definition effective_write_auth_token :: "node_config \<Rightarrow> string option" where
  "effective_write_auth_token c =
     (case au_write_token (nc_auth c) of Some t \<Rightarrow> Some t | None \<Rightarrow> ad_auth_token (nc_admin c))"

definition host_errors :: "string \<Rightarrow> string \<Rightarrow> config_error list" where
  "host_errors label host =
     fail_if (contains_str host ''://'') (MustBeHostNotUrl label) @
     fail_if (contains_char host CHR ''/'') (MustNotContainPath label) @
     fail_if (contains_char host CHR '':'' \<and> parse_ip (without_brackets host) = None)
       (MustNotIncludePort label)"

definition validate_bind_address :: "string \<Rightarrow> string \<Rightarrow> config_error list" where
  "validate_bind_address label host =
     (let host = str_trim host in if host = [] then [MustNotBeEmpty label] else host_errors label host)"

definition admin_tls_material_configured :: "node_config \<Rightarrow> bool" where
  "admin_tls_material_configured c \<longleftrightarrow>
     (ad_tls_cert (nc_admin c) \<noteq> None \<and> ad_tls_key (nc_admin c) \<noteq> None) \<or>
     (px_tls_cert (nc_proxy c) \<noteq> None \<and> px_tls_key (nc_proxy c) \<noteq> None)"

section \<open>Advertisement\<close>

definition validate_admin_advertisement :: "'net libs \<Rightarrow> node_config \<Rightarrow> config_error list" where
  "validate_admin_advertisement lib c =
     (case ad_advertised_host (nc_admin c) of None \<Rightarrow> []
      | Some host \<Rightarrow>
          (let host = str_trim host; label = ''admin.advertised_host''
           in if host = [] then [MustNotBeEmpty label]
              else host_errors label host @ fail_if (is_loopback_host host) (MustNotBeLoopback label))) @
     (case ad_advertised_artifact_url (nc_admin c) of None \<Rightarrow> []
      | Some raw_url \<Rightarrow>
          (let label = ''admin.advertised_artifact_url''
           in case lib_url_parse lib (str_trim raw_url) of
                Inl e \<Rightarrow> [InvalidUrl label e]
              | Inr url \<Rightarrow>
                  fail_if (url_scheme url \<noteq> ''http'' \<and> url_scheme url \<noteq> ''https'') (MustUseHttp label) @
                  fail_if (url_host_str url = None) (MustIncludeHost label) @
                  (case url_host_str url of None \<Rightarrow> []
                   | Some host \<Rightarrow> fail_if (is_loopback_host host) (MustNotBeLoopback label)) @
                  fail_if (url_has_query url \<or> url_has_fragment url) (MustNotIncludeQuery label)))"

section \<open>Production policy\<close>

definition production_token_error :: "string \<Rightarrow> string option \<Rightarrow> config_error list" where
  "production_token_error label token =
     (case validate_production_bearer_token label token of Inl e \<Rightarrow> [AuthProblem e] | Inr _ \<Rightarrow> [])"

definition not_https :: "'net libs \<Rightarrow> string \<Rightarrow> bool" where
  "not_https lib url = (case lib_url_parse lib (str_trim url) of
     Inl _ \<Rightarrow> True | Inr u \<Rightarrow> url_scheme u \<noteq> ''https'')"

definition blank :: "string option \<Rightarrow> bool" where
  "blank v = (case v of None \<Rightarrow> True | Some s \<Rightarrow> str_trim s = [])"

definition production_key_errors :: "'net libs \<Rightarrow> runtime_section \<Rightarrow> config_error list" where
  "production_key_errors lib r =
     fail_if (rt_key_source r \<noteq> ''vault-transit'' \<and> rt_key_source r \<noteq> ''aws-kms-hmac'')
       (ProductionRequires ''runtime.key_source'') @
     (if rt_key_source r = ''vault-transit'' then
        fail_if (\<exists>p \<in> set_option (rt_key_vault_ca_cert r). str_trim p = [])
          (MustNotBeEmptyWhenConfigured ''runtime.key_vault_ca_cert'') @
        fail_if (\<not> (\<exists>v \<in> set_option (rt_key_vault_transit_key_version r). v > 0))
          (ProductionRequires ''runtime.key_vault_transit_key_version'') @
        fail_if (rt_key_vault_transit_previous_key_version r = rt_key_vault_transit_key_version r \<and>
            rt_key_vault_transit_previous_key_version r \<noteq> None)
          (PreviousVersionEqualsActive ''vault'') @
        (case rt_key_vault_url r of None \<Rightarrow> []
         | Some url \<Rightarrow> fail_if (not_https lib url) (ProductionRequires ''https vault url''))
      else []) @
     (if rt_key_source r = ''aws-kms-hmac'' then
        fail_if (rt_key_aws_kms_previous_key_id r = rt_key_aws_kms_key_id r \<and>
            rt_key_aws_kms_previous_key_id r \<noteq> None)
          (PreviousVersionEqualsActive ''aws'') @
        (case rt_key_aws_kms_endpoint r of None \<Rightarrow> []
         | Some url \<Rightarrow> fail_if (not_https lib url) (ProductionRequires ''https kms endpoint''))
      else [])"

definition validate_production_secret_policy :: "'net libs \<Rightarrow> node_config \<Rightarrow> config_error list" where
  "validate_production_secret_policy lib c =
     (if ns_environment (nc_node c) \<noteq> Production then []
      else
        fail_if (\<not> au_enabled (nc_auth c)) (ProductionRequires ''auth.enabled'') @
        fail_if (\<not> au_require_tls (nc_auth c)) (ProductionRequires ''auth.require_tls'') @
        fail_if (ad_auth_token (nc_admin c) \<noteq> None) (ProductionRejects ''admin.auth_token'') @
        production_token_error ''auth.read_token'' (au_read_token (nc_auth c)) @
        production_token_error ''auth.write_token'' (au_write_token (nc_auth c)) @
        production_key_errors lib (nc_runtime c) @
        fail_if (blank (nats_creds_file (nc_nats c))) (ProductionRequires ''nats.creds_file'') @
        fail_if (\<not> starts_with (str_trim (nats_url (nc_nats c))) ''tls://'') (ProductionRequires ''tls nats url'') @
        fail_if (rt_isolation_mode (nc_runtime c) \<noteq> Some ''single-trust-domain'')
          (ProductionRequires ''runtime.isolation_mode'') @
        fail_if (\<not> eb_enabled (nc_ebpf c) \<or> \<not> eb_required (nc_ebpf c)) (ProductionRequires ''ebpf'') @
        fail_if ((\<exists>h \<in> set_option (ad_advertised_host (nc_admin c)). str_trim h \<noteq> []) \<and>
            ad_advertised_artifact_url (nc_admin c) = None)
          (ProductionRequires ''admin.advertised_artifact_url'') @
        fail_if (\<exists>u \<in> set_option (ad_advertised_artifact_url (nc_admin c)).
            \<not> starts_with (str_trim u) ''https://'')
          (ProductionRequires ''https artifact url'') @
        fail_if (dn_webhook_token (nc_dns c) \<noteq> None) (ProductionRejects ''dns.webhook_token''))"

section \<open>Limits and thresholds\<close>

definition valid_levels :: "string list" where
  "valid_levels = [''trace'', ''debug'', ''info'', ''warn'', ''error'']"

definition default_pool_bytes :: "health_section \<Rightarrow> u64 option" where
  "default_pool_bytes h = Option.bind (checked_mul (ucast (he_default_memory_pages h)) 65536)
     (\<lambda>bytes. checked_mul bytes (he_default_max_instances h))"

definition threshold_errors :: "node_config \<Rightarrow> config_error list" where
  "threshold_errors c =
     (let gc = nc_gc c; eb = nc_ebpf c; he = nc_health c in
     fail_if (\<not> List.member valid_levels (lg_level (nc_logging c))) (InvalidLogLevel (lg_level (nc_logging c))) @
     fail_if (f64_le (gc_disk_warning_threshold gc) (F64 0) \<or> f64_gt (gc_disk_warning_threshold gc) (F64 1))
       DiskThresholdOutOfRange @
     fail_if (gc_artifact_keep_versions gc = 0) (MustBePositive ''artifact_keep_versions'') @
     fail_if (eb_fd_soft_limit eb \<ge> eb_fd_hard_limit eb) FdLimitsInverted @
     fail_if (eb_mem_low_threshold_pages eb \<le> eb_mem_critical_threshold_pages eb) MemThresholdsInverted @
     fail_if (he_check_interval_secs he = 0) (MustBePositive ''check_interval_secs'') @
     fail_if (he_default_fuel_quota he = 0) (MustBePositive ''default_fuel_quota'') @
     fail_if (he_default_memory_pages he = 0) (MustBePositive ''default_memory_pages'') @
     fail_if (he_default_max_instances he = 0) (MustBePositive ''default_max_instances'') @
     fail_if (he_min_disk_free_bytes he = 0) (MustBePositive ''min_disk_free_bytes'') @
     fail_if (he_min_disk_free_inodes he = 0) (MustBePositive ''min_disk_free_inodes'') @
     fail_if (he_max_memory_bytes he = 0) (MustBePositive ''max_memory_bytes'') @
     fail_if (case default_pool_bytes he of None \<Rightarrow> True | Some b \<Rightarrow> b > he_max_memory_bytes he)
       PoolExceedsMemory @
     fail_if (rl_default_requests_per_second (nc_rate_limit c) = 0)
       (MustBePositive ''default_requests_per_second''))"

definition nats_errors :: "nats_section \<Rightarrow> config_error list" where
  "nats_errors n =
     fail_if ((nats_client_cert n \<noteq> None) \<noteq> (nats_client_key n \<noteq> None))
       (MustBeConfiguredTogether ''nats.client_cert'' ''nats.client_key'') @
     concat (map (\<lambda>(label, value). fail_if (\<exists>p \<in> set_option value. str_trim p = [])
         (MustNotBeEmptyWhenConfigured label))
       [(''nats.creds_file'', nats_creds_file n), (''nats.ca_cert'', nats_ca_cert n),
        (''nats.client_cert'', nats_client_cert n), (''nats.client_key'', nats_client_key n)])"

definition port_errors :: "runtime_section \<Rightarrow> config_error list" where
  "port_errors r =
     (if rt_port_start r \<ge> rt_port_end r then [PortRangeEmpty]
      else fail_if (rt_port_end r - rt_port_start r < 100) PortRangeTooSmall)"

definition tls_errors :: "node_config \<Rightarrow> config_error list" where
  "tls_errors c =
     fail_if ((px_tls_cert (nc_proxy c) \<noteq> None) \<noteq> (px_tls_key (nc_proxy c) \<noteq> None))
       (MustBeConfiguredTogether ''tls_cert'' ''tls_key'') @
     fail_if (px_https_port (nc_proxy c) > 0 \<and> px_tls_cert (nc_proxy c) = None) HttpsPortRequiresTls @
     fail_if ((ad_tls_cert (nc_admin c) \<noteq> None) \<noteq> (ad_tls_key (nc_admin c) \<noteq> None))
       (MustBeConfiguredTogether ''admin.tls_cert'' ''admin.tls_key'')"

section \<open>Key source\<close>

definition http_url_error :: "'net libs \<Rightarrow> string \<Rightarrow> string \<Rightarrow> config_error list" where
  "http_url_error lib label url =
     (case lib_url_parse lib (str_trim url) of
        Inl e \<Rightarrow> [InvalidUrl label e]
      | Inr u \<Rightarrow> fail_if (url_scheme u \<noteq> ''http'' \<and> url_scheme u \<noteq> ''https'') (MustUseHttp label))"

definition vault_url_error :: "'net libs \<Rightarrow> string \<Rightarrow> string option \<Rightarrow> config_error list" where
  "vault_url_error lib source url =
     (if blank url then [KeySourceRequires source ''runtime.key_vault_url'']
      else (case url of None \<Rightarrow> [] | Some u \<Rightarrow> http_url_error lib ''runtime.key_vault_url'' u))"

definition key_source_errors :: "'net libs \<Rightarrow> runtime_section \<Rightarrow> config_error list" where
  "key_source_errors lib r =
     (let src = rt_key_source r in
      if src = ''file'' then fail_if (blank (rt_key_file r)) (KeySourceRequires src ''runtime.key_file'')
      else if src = ''command'' then
        fail_if (rt_key_command r = [] \<or> list_ex (\<lambda>a. str_trim a = []) (rt_key_command r))
          (KeySourceRequires src ''runtime.key_command'')
      else if src = ''vault-kv'' then
        vault_url_error lib src (rt_key_vault_url r) @
        fail_if (blank (rt_key_vault_token_env r)) (KeySourceRequires src ''runtime.key_vault_token_env'') @
        fail_if (blank (rt_key_vault_path r)) (KeySourceRequires src ''runtime.key_vault_path'') @
        fail_if (str_trim (rt_key_vault_mount r) = []) (MustNotBeEmpty ''runtime.key_vault_mount'') @
        fail_if (str_trim (rt_key_vault_field r) = []) (MustNotBeEmpty ''runtime.key_vault_field'')
      else if src = ''vault-transit'' then
        vault_url_error lib src (rt_key_vault_url r) @
        fail_if (blank (rt_key_vault_token_env r)) (KeySourceRequires src ''runtime.key_vault_token_env'') @
        fail_if (str_trim (rt_key_vault_transit_mount r) = []) (MustNotBeEmpty ''runtime.key_vault_transit_mount'') @
        fail_if (blank (rt_key_vault_transit_key r)) (KeySourceRequires src ''runtime.key_vault_transit_key'') @
        fail_if (blank (rt_key_vault_transit_context r)) (KeySourceRequires src ''runtime.key_vault_transit_context'')
      else if src = ''aws-kms-hmac'' then
        fail_if (blank (rt_key_aws_kms_region r)) (KeySourceRequires src ''runtime.key_aws_kms_region'') @
        (case rt_key_aws_kms_endpoint r of None \<Rightarrow> []
         | Some e \<Rightarrow> http_url_error lib ''runtime.key_aws_kms_endpoint'' e) @
        fail_if (blank (rt_key_aws_kms_key_id r)) (KeySourceRequires src ''runtime.key_aws_kms_key_id'') @
        fail_if (blank (rt_key_aws_kms_context r)) (KeySourceRequires src ''runtime.key_aws_kms_context'')
      else if src = ''generate'' then []
      else if starts_with src ''env:'' \<or> starts_with src ''passphrase-env:'' then []
      else [UnsupportedKeySource src])"

section \<open>Exposure, signing key, pooling\<close>

definition exposure_errors :: "node_config \<Rightarrow> config_error list" where
  "exposure_errors c =
     fail_if (au_enabled (nc_auth c) \<and> au_require_tls (nc_auth c) \<and> \<not> admin_tls_material_configured c)
       TlsRequiredWithoutMaterial @
     fail_if (au_enabled (nc_auth c) \<and> \<not> au_require_tls (nc_auth c) \<and>
         \<not> bind_address_is_loopback (ad_bind_address (nc_admin c)) \<and> au_trusted_proxies (nc_auth c) = [])
       TrustedProxiesRequired @
     fail_if (\<not> bind_address_is_loopback (ad_artifact_bind_address (nc_admin c)) \<and>
         effective_write_auth_token c = None)
       ArtifactServerUnauthenticated"

definition signing_key_errors :: "'net libs \<Rightarrow> runtime_section \<Rightarrow> config_error list" where
  "signing_key_errors lib r =
     (case rt_upgrade_signing_public_key r of None \<Rightarrow> []
      | Some key_hex \<Rightarrow>
          (case lib_hex_decode lib (str_trim key_hex) of
             Inl e \<Rightarrow> [SigningKeyNotHex e]
           | Inr bytes \<Rightarrow> fail_if (length bytes \<noteq> 32) (SigningKeyWrongLength (length bytes))))"

definition pooling_errors :: "runtime_section \<Rightarrow> config_error list" where
  "pooling_errors r =
     fail_if (rt_pooling_total_component_instances r = 0)
       (MustBePositive ''runtime.pooling_total_component_instances'') @
     (if rt_pooling_allocator r then
        fail_if (rt_pooling_max_core_instances_per_component r = Some 0)
          (MustBePositive ''runtime.pooling_max_core_instances_per_component'') @
        fail_if (rt_pooling_max_memories_per_component r = Some 0)
          (MustBePositive ''runtime.pooling_max_memories_per_component'') @
        fail_if (rt_pooling_max_tables_per_component r = Some 0)
          (MustBePositive ''runtime.pooling_max_tables_per_component'')
      else [])"

definition auth_section_errors :: "'net libs \<Rightarrow> node_config \<Rightarrow> config_error list" where
  "auth_section_errors lib c =
     (case auth_validate (lib_net_parse lib) (lib_net_of_ip lib) (auth_config_of_section (nc_auth c)) of
        Inl e \<Rightarrow> [AuthProblem e] | Inr _ \<Rightarrow> []) @
     fail_if (ad_auth_token (nc_admin c) \<noteq> None \<and> au_enabled (nc_auth c) \<and> au_write_token (nc_auth c) \<noteq> None)
       LegacyAndWriteToken"

section \<open>The whole validation\<close>

definition config_errors :: "'net libs \<Rightarrow> node_config \<Rightarrow> config_error list" where
  "config_errors lib c =
     fail_if (\<exists>m \<in> set_option (rt_isolation_mode (nc_runtime c)). str_trim m \<noteq> ''single-trust-domain'')
       UnsupportedIsolationMode @
     nats_errors (nc_nats c) @
     port_errors (nc_runtime c) @
     threshold_errors c @
     tls_errors c @
     validate_bind_address ''admin.bind_address'' (ad_bind_address (nc_admin c)) @
     validate_bind_address ''admin.artifact_bind_address'' (ad_artifact_bind_address (nc_admin c)) @
     validate_ip_literal ''runtime.instance_bind_address'' (rt_instance_bind_address (nc_runtime c)) @
     key_source_errors lib (nc_runtime c) @
     validate_admin_advertisement lib c @
     validate_production_secret_policy lib c @
     exposure_errors c @
     signing_key_errors lib (nc_runtime c) @
     pooling_errors (nc_runtime c) @
     auth_section_errors lib c"

definition validate_config :: "'net libs \<Rightarrow> node_config \<Rightarrow> (config_error list, unit) result" where
  "validate_config lib c =
     (let errors = config_errors lib c in if errors \<noteq> [] then Err errors else Ok ())"

section \<open>A production configuration\<close>

definition sample_libs :: "ip_addr libs" where
  "sample_libs = \<lparr>
     lib_url_parse = (\<lambda>s. if starts_with s ''https://''
        then Inr \<lparr> url_scheme = ''https'', url_host_str = Some (drop 8 s), url_has_query = False,
          url_has_fragment = False \<rparr>
        else Inl ''relative URL without a base''),
     lib_hex_decode = (\<lambda>s. if s = [] then Inr [] else Inl ''Invalid character''),
     lib_net_parse = parse_ip,
     lib_net_of_ip = (\<lambda>ip. ip) \<rparr>"

definition sample_read_token :: string where
  "sample_read_token = replicate 63 CHR ''a'' @ ''0''"

definition sample_write_token :: string where
  "sample_write_token = replicate 63 CHR ''b'' @ ''1''"

definition sample_production_config :: node_config where
  "sample_production_config =
     (let c = node_config_default None in c\<lparr>
       nc_node := (nc_node c)\<lparr> ns_environment := Production \<rparr>,
       nc_nats := (nc_nats c)\<lparr> nats_url := ''tls://nats.internal:4222'', nats_creds_file := Some ''/etc/nats.creds'' \<rparr>,
       nc_admin := (nc_admin c)\<lparr> ad_tls_cert := Some ''/etc/tls/cert.pem'', ad_tls_key := Some ''/etc/tls/key.pem'' \<rparr>,
       nc_auth := (nc_auth c)\<lparr> au_enabled := True, au_require_tls := True,
         au_read_token := Some sample_read_token, au_write_token := Some sample_write_token \<rparr>,
       nc_runtime := (nc_runtime c)\<lparr> rt_key_source := ''aws-kms-hmac'', rt_key_aws_kms_region := Some ''eu-west-1'',
         rt_key_aws_kms_key_id := Some ''alias/wcp'', rt_key_aws_kms_context := Some ''node'',
         rt_isolation_mode := Some ''single-trust-domain'' \<rparr>,
       nc_ebpf := (nc_ebpf c)\<lparr> eb_enabled := True, eb_required := True \<rparr> \<rparr>)"

section \<open>Facts\<close>

lemma fail_if_Nil: "fail_if b e = [] \<longleftrightarrow> \<not> b"
  by (simp add: fail_if_def)

lemma validate_config_Ok_iff: "validate_config lib c = Inr () \<longleftrightarrow> config_errors lib c = []"
  by (simp add: validate_config_def Let_def)

lemmas config_error_simps = config_errors_def fail_if_Nil append_is_Nil_conv

lemma default_pool_bytes_Some:
  "default_pool_bytes h = Some b \<longleftrightarrow>
     unat (he_default_memory_pages h) * 65536 * unat (he_default_max_instances h) < 2 ^ 64 \<and>
     unat b = unat (he_default_memory_pages h) * 65536 * unat (he_default_max_instances h)"
proof -
  let ?p = "ucast (he_default_memory_pages h) :: u64" and ?n = "he_default_max_instances h"
  have p: "unat ?p = unat (he_default_memory_pages h)"
    by (rule unat_ucast_widen) simp
  have small: "unat ?p * unat (65536 :: u64) < 2 ^ 64"
    using unsigned_less [of "he_default_memory_pages h", where 'a = nat] by (simp add: p)
  then have pages: "unat (?p * 65536) = unat (he_default_memory_pages h) * 65536"
    using unat_mult_no_wrap [OF small] p by simp
  have "default_pool_bytes h = checked_mul (?p * 65536) ?n"
    using small by (simp add: default_pool_bytes_def checked_mul_def)
  then show ?thesis
    using unat_mult_no_wrap [of "?p * 65536" ?n]
    by (auto simp: checked_mul_Some pages word_unat_eq_iff)
qed

lemma port_errors_Nil:
  assumes "port_errors r = []"
  shows "unat (rt_port_start r) + 100 \<le> unat (rt_port_end r)"
proof -
  have le: "rt_port_start r < rt_port_end r" and gap: "\<not> rt_port_end r - rt_port_start r < 100"
    using assms by (auto simp: port_errors_def fail_if_Nil split: if_splits)
  have "unat (rt_port_end r - rt_port_start r) = unat (rt_port_end r) - unat (rt_port_start r)"
    using le by (intro unat_sub) simp
  then have "100 \<le> unat (rt_port_end r) - unat (rt_port_start r)"
    using gap by (simp add: word_less_nat_alt)
  then show ?thesis by linarith
qed

lemma parse_ip_localhost: "parse_ip ''127.0.0.1'' = Some (V4 0x7F000001)"
  using parse_show_ipv4 [of "0x7F000001"] by (simp add: show_ipv4_def show_octet_def digit_char_def char_of_def bit_0)


lemma loopback_default: "bind_address_is_loopback ''127.0.0.1''"
proof -
  have "str_trim ''127.0.0.1'' = ''127.0.0.1''" "without_brackets ''127.0.0.1'' = ''127.0.0.1''"
    by (simp_all add: str_trim_def is_whitespace_def without_brackets_def trim_end_char_def trim_start_char_def)
  then show ?thesis
    by (simp add: bind_address_is_loopback_def is_loopback_host_def parse_ip_localhost is_loopback_def)
qed

lemma bind_address_default:
  "validate_bind_address label ''127.0.0.1'' = []" "validate_ip_literal label ''127.0.0.1'' = []"
proof -
  have trim: "str_trim ''127.0.0.1'' = ''127.0.0.1''"
    by (simp add: str_trim_def is_whitespace_def)
  then show "validate_bind_address label ''127.0.0.1'' = []"
    by (simp add: validate_bind_address_def host_errors_def fail_if_def contains_char_def)
  show "validate_ip_literal label ''127.0.0.1'' = []"
    by (simp add: validate_ip_literal_def trim parse_ip_localhost fail_if_def)
qed

lemma default_threshold_errors: "threshold_errors (node_config_default v) = []"
  unfolding threshold_errors_def Let_def append_is_Nil_conv fail_if_Nil
  by (simp add: node_config_default_def section_defaults valid_levels_def f64_gt_def
      default_pool_bytes_def checked_mul_def)

lemma default_exposure_errors: "exposure_errors (node_config_default v) = []"
  by (simp add: exposure_errors_def fail_if_def node_config_default_def section_defaults loopback_default)

lemma default_runtime_errors:
  "nats_errors nats_section_default = []"
  "port_errors runtime_section_default = []"
  "key_source_errors lib runtime_section_default = []"
  "signing_key_errors lib runtime_section_default = []"
  "pooling_errors runtime_section_default = []"
  by (simp_all add: nats_errors_def port_errors_def key_source_errors_def signing_key_errors_def
      pooling_errors_def fail_if_def section_defaults)

lemma default_node_errors:
  "tls_errors (node_config_default v) = []"
  "validate_admin_advertisement lib (node_config_default v) = []"
  "validate_production_secret_policy lib (node_config_default v) = []"
  "auth_section_errors lib (node_config_default v) = []"
  by (simp_all add: tls_errors_def validate_admin_advertisement_def validate_production_secret_policy_def
      auth_section_errors_def auth_validate_def auth_config_of_section_def fail_if_def
      node_config_default_def section_defaults)

lemma default_config_errors: "config_errors lib (node_config_default v) = []"
proof -
  have "nc_nats (node_config_default v) = nats_section_default"
    "nc_runtime (node_config_default v) = runtime_section_default"
    "ad_bind_address (nc_admin (node_config_default v)) = ''127.0.0.1''"
    "ad_artifact_bind_address (nc_admin (node_config_default v)) = ''127.0.0.1''"
    "rt_instance_bind_address runtime_section_default = ''127.0.0.1''"
    "rt_isolation_mode runtime_section_default = None"
    by (simp_all add: node_config_default_def section_defaults)
  then show ?thesis
    by (simp only: config_error_simps default_threshold_errors default_exposure_errors
        default_runtime_errors default_node_errors bind_address_default) simp
qed

lemma sample_tokens:
  "production_token_error l (Some sample_read_token) = []"
  "production_token_error l (Some sample_write_token) = []"
  "sample_read_token \<noteq> sample_write_token"
  "str_trim sample_read_token = sample_read_token"
  "str_trim sample_write_token = sample_write_token"
  by (simp_all add: sample_read_token_def sample_write_token_def production_token_error_def
      validate_production_bearer_token_def is_ascii_hexdigit_def to_ascii_lowercase_def
      str_trim_def is_whitespace_def numeral_eq_Suc)

lemma sample_token_lengths: "length sample_read_token = 64" "length sample_write_token = 64"
  by (simp_all add: sample_read_token_def sample_write_token_def)

lemma sample_sections:
  "nc_admin sample_production_config = admin_section_default\<lparr> ad_tls_cert := Some ''/etc/tls/cert.pem'', ad_tls_key := Some ''/etc/tls/key.pem'' \<rparr>"
  "nc_auth sample_production_config = auth_section_default\<lparr> au_enabled := True, au_require_tls := True,
         au_read_token := Some sample_read_token, au_write_token := Some sample_write_token \<rparr>"
  "nc_proxy sample_production_config = proxy_section_default"
  "nc_gc sample_production_config = gc_section_default"
  "nc_health sample_production_config = health_section_default"
  "nc_logging sample_production_config = logging_section_default"
  "nc_rate_limit sample_production_config = rate_limit_section_default"
  "nc_dns sample_production_config = dns_section_default"
  "nc_ebpf sample_production_config = ebpf_section_default\<lparr> eb_enabled := True, eb_required := True \<rparr>"
  "nc_nats sample_production_config = nats_section_default\<lparr> nats_url := ''tls://nats.internal:4222'', nats_creds_file := Some ''/etc/nats.creds'' \<rparr>"
  "nc_runtime sample_production_config = runtime_section_default\<lparr> rt_key_source := ''aws-kms-hmac'', rt_key_aws_kms_region := Some ''eu-west-1'',
         rt_key_aws_kms_key_id := Some ''alias/wcp'', rt_key_aws_kms_context := Some ''node'',
         rt_isolation_mode := Some ''single-trust-domain'' \<rparr>"
  "ns_environment (nc_node sample_production_config) = Production"
  by (simp_all add: sample_production_config_def node_config_default_def)

lemma sample_config_errors: "config_errors sample_libs sample_production_config = []"
proof -
  have trim: "str_trim ''single-trust-domain'' = ''single-trust-domain''" "str_trim ''/etc/nats.creds'' \<noteq> []"
    "str_trim ''eu-west-1'' \<noteq> []" "str_trim ''alias/wcp'' \<noteq> []" "str_trim ''node'' \<noteq> []"
    "str_trim ''tls://nats.internal:4222'' = ''tls://nats.internal:4222''"
    by (simp_all add: str_trim_def is_whitespace_def)
  have thr: "threshold_errors sample_production_config = []"
    unfolding threshold_errors_def Let_def append_is_Nil_conv fail_if_Nil sample_sections
    by (simp add: section_defaults valid_levels_def f64_gt_def default_pool_bytes_def checked_mul_def)
  have 1: "nats_errors (nc_nats sample_production_config) = []"
    "port_errors (nc_runtime sample_production_config) = []"
    "tls_errors sample_production_config = []"
    "key_source_errors sample_libs (nc_runtime sample_production_config) = []"
    "validate_admin_advertisement sample_libs sample_production_config = []"
    "exposure_errors sample_production_config = []"
    "signing_key_errors sample_libs (nc_runtime sample_production_config) = []"
    "pooling_errors (nc_runtime sample_production_config) = []"
    by (simp_all add: sample_sections nats_errors_def port_errors_def tls_errors_def key_source_errors_def
      validate_admin_advertisement_def exposure_errors_def signing_key_errors_def pooling_errors_def
      fail_if_def section_defaults trim blank_def admin_tls_material_configured_def
      effective_write_auth_token_def loopback_default)
  have 2: "validate_production_secret_policy sample_libs sample_production_config = []"
    by (simp add: validate_production_secret_policy_def sample_sections fail_if_def section_defaults
      production_key_errors_def sample_tokens trim blank_def starts_with_def)
  have 3: "auth_section_errors sample_libs sample_production_config = []"
    by (simp add: auth_section_errors_def auth_validate_def auth_config_of_section_def sample_sections
      fail_if_def section_defaults sample_tokens trusted_proxy_nets_def sample_token_lengths)
  have 4: "rt_isolation_mode (nc_runtime sample_production_config) = Some ''single-trust-domain''"
     "ad_bind_address (nc_admin sample_production_config) = ''127.0.0.1''"
     "ad_artifact_bind_address (nc_admin sample_production_config) = ''127.0.0.1''"
     "rt_instance_bind_address (nc_runtime sample_production_config) = ''127.0.0.1''"
    by (simp_all add: sample_sections section_defaults)
  show ?thesis
    by (simp add: config_errors_def 1 2 3 4 thr trim fail_if_Nil bind_address_default)
qed

lemma threshold_errors_nan:
  assumes "threshold_errors c = []"
  shows "threshold_errors (c\<lparr> nc_gc := (nc_gc c)\<lparr> gc_disk_warning_threshold := NaN \<rparr> \<rparr>) = []"
  using assms unfolding threshold_errors_def Let_def append_is_Nil_conv fail_if_Nil
  by (simp add: f64_gt_def split: option.splits)

lemma production_token_error_Nil:
  assumes "production_token_error label token = []"
  shows "\<exists>t. token = Some t \<and> length t = 64 \<and> list_all is_ascii_hexdigit t"
  using assms
  by (auto simp: production_token_error_def validate_production_bearer_token_def Let_def
      split: option.splits if_splits sum.splits)

lemma production_clauses:
  assumes "config_errors lib c = []" and "ns_environment (nc_node c) = Production"
  shows "au_enabled (nc_auth c)" "au_require_tls (nc_auth c)" "ad_auth_token (nc_admin c) = None"
    "production_token_error ''auth.read_token'' (au_read_token (nc_auth c)) = []"
    "production_token_error ''auth.write_token'' (au_write_token (nc_auth c)) = []"
    "production_key_errors lib (nc_runtime c) = []"
    "starts_with (str_trim (nats_url (nc_nats c))) ''tls://''"
    "rt_isolation_mode (nc_runtime c) = Some ''single-trust-domain''"
    "eb_enabled (nc_ebpf c)" "eb_required (nc_ebpf c)" "dn_webhook_token (nc_dns c) = None"
proof -
  have "validate_production_secret_policy lib c = []"
    using assms(1) by (simp only: config_error_simps)
  then show "au_enabled (nc_auth c)" "au_require_tls (nc_auth c)" "ad_auth_token (nc_admin c) = None"
    "production_token_error ''auth.read_token'' (au_read_token (nc_auth c)) = []"
    "production_token_error ''auth.write_token'' (au_write_token (nc_auth c)) = []"
    "production_key_errors lib (nc_runtime c) = []"
    "starts_with (str_trim (nats_url (nc_nats c))) ''tls://''"
    "rt_isolation_mode (nc_runtime c) = Some ''single-trust-domain''"
    "eb_enabled (nc_ebpf c)" "eb_required (nc_ebpf c)" "dn_webhook_token (nc_dns c) = None"
    using assms(2)
    by (simp_all add: validate_production_secret_policy_def fail_if_Nil)
qed

lemma nan_threshold_valid:
  assumes "validate_config lib c = Inr ()"
  shows "validate_config lib (c\<lparr> nc_gc := (nc_gc c)\<lparr> gc_disk_warning_threshold := NaN \<rparr> \<rparr>) = Inr ()"
proof -
  let ?c = "c\<lparr> nc_gc := (nc_gc c)\<lparr> gc_disk_warning_threshold := NaN \<rparr> \<rparr>"
  have ok: "config_errors lib c = []"
    using assms by (simp add: validate_config_Ok_iff)
  have rest: "admin_tls_material_configured ?c = admin_tls_material_configured c"
    "tls_errors ?c = tls_errors c"
    "validate_admin_advertisement lib ?c = validate_admin_advertisement lib c"
    "validate_production_secret_policy lib ?c = validate_production_secret_policy lib c"
    "effective_write_auth_token ?c = effective_write_auth_token c"
    "auth_section_errors lib ?c = auth_section_errors lib c"
    by (simp_all add: admin_tls_material_configured_def tls_errors_def validate_admin_advertisement_def
        validate_production_secret_policy_def effective_write_auth_token_def auth_section_errors_def
        split: option.split)
  have "exposure_errors ?c = exposure_errors c"
    by (simp add: exposure_errors_def rest)
  then have "config_errors lib ?c = []"
    using ok threshold_errors_nan [of c] rest
    by (simp add: config_errors_def)
  then show ?thesis
    by (simp add: validate_config_Ok_iff)
qed

section \<open>Properties\<close>

text \<open>
  (C34) A production configuration that validation accepts is locked down: authentication and TLS
  are on and TLS material is there; the read and the write token are different texts of exactly 64
  hexadecimal digits and there is no legacy token; the root key stays in Vault Transit or AWS KMS;
  the message bus uses TLS; and no request without a bearer token gets any permission.
\<close>

theorem production_config_locked_down:
  assumes "validate_config lib c = Inr ()" and "ns_environment (nc_node c) = Production"
  shows "au_enabled (nc_auth c) \<and> au_require_tls (nc_auth c) \<and> admin_tls_material_configured c \<and>
    (\<exists>r w. au_read_token (nc_auth c) = Some r \<and> au_write_token (nc_auth c) = Some w \<and> r \<noteq> w \<and>
      length r = 64 \<and> list_all is_ascii_hexdigit r \<and> length w = 64 \<and> list_all is_ascii_hexdigit w) \<and>
    ad_auth_token (nc_admin c) = None \<and>
    rt_key_source (nc_runtime c) \<in> {''vault-transit'', ''aws-kms-hmac''} \<and>
    starts_with (str_trim (nats_url (nc_nats c))) ''tls://'' \<and>
    ar_permission (authenticate (auth_config_of_section (nc_auth c)) None) = PermNone"
proof -
  have ok: "config_errors lib c = []"
    using assms(1) by (simp add: validate_config_Ok_iff)
  note prod = production_clauses [OF ok assms(2)]
  obtain r where r: "au_read_token (nc_auth c) = Some r" "length r = 64" "list_all is_ascii_hexdigit r"
    using production_token_error_Nil [OF prod(4)] by auto
  obtain w where w: "au_write_token (nc_auth c) = Some w" "length w = 64" "list_all is_ascii_hexdigit w"
    using production_token_error_Nil [OF prod(5)] by auto
  have "auth_section_errors lib c = []" and exposure: "exposure_errors c = []"
    using ok by (simp_all only: config_error_simps)
  then have "auth_validate (lib_net_parse lib) (lib_net_of_ip lib) (auth_config_of_section (nc_auth c)) = Inr ()"
    by (auto simp: auth_section_errors_def split: sum.splits)
  then have "r \<noteq> w"
    using auth_validate_tokens(2) [of _ _ "auth_config_of_section (nc_auth c)" r] prod(1) r(1) w(1)
    by (auto simp: auth_config_of_section_def)
  moreover have "admin_tls_material_configured c"
    using exposure prod(1,2) by (simp add: exposure_errors_def fail_if_Nil)
  moreover have "rt_key_source (nc_runtime c) \<in> {''vault-transit'', ''aws-kms-hmac''}"
  proof -
    have "fail_if (rt_key_source (nc_runtime c) \<noteq> ''vault-transit'' \<and>
        rt_key_source (nc_runtime c) \<noteq> ''aws-kms-hmac'') (ProductionRequires ''runtime.key_source'') = []"
      using prod(6) unfolding production_key_errors_def by (simp only: append_is_Nil_conv)
    then show ?thesis
      by (auto simp only: fail_if_Nil)
  qed
  moreover have "ar_permission (authenticate (auth_config_of_section (nc_auth c)) None) = PermNone"
    using prod(1) by (simp add: authenticate_def auth_config_of_section_def extract_bearer_token_def)
  ultimately show ?thesis
    using prod(1-3,7) r w by auto
qed

theorem production_config_locked_down_witness:
  "validate_config sample_libs sample_production_config = Inr () \<and>
   ns_environment (nc_node sample_production_config) = Production \<and>
   admin_tls_material_configured sample_production_config \<and>
   ar_permission (authenticate (auth_config_of_section (nc_auth sample_production_config)) None) = PermNone"
  using production_config_locked_down [of sample_libs sample_production_config]
  by (simp add: validate_config_Ok_iff sample_config_errors sample_sections)

text \<open>
  The default configuration is valid; and every valid configuration has consistent limits:
  at least one hundred instance ports, a soft descriptor limit below the hard one, a low-memory
  threshold above the critical one, and a default instance pool that fits the memory of the node,
  without wrap-around in the product.
\<close>

theorem validated_limits_consistent:
  "validate_config lib (node_config_default node_id) = Inr () \<and>
   (validate_config lib c = Inr () \<longrightarrow>
      unat (rt_port_start (nc_runtime c)) + 100 \<le> unat (rt_port_end (nc_runtime c)) \<and>
      eb_fd_soft_limit (nc_ebpf c) < eb_fd_hard_limit (nc_ebpf c) \<and>
      eb_mem_critical_threshold_pages (nc_ebpf c) < eb_mem_low_threshold_pages (nc_ebpf c) \<and>
      0 < unat (he_default_memory_pages (nc_health c)) * 65536 * unat (he_default_max_instances (nc_health c)) \<and>
      unat (he_default_memory_pages (nc_health c)) * 65536 * unat (he_default_max_instances (nc_health c))
        \<le> unat (he_max_memory_bytes (nc_health c)))"
proof -
  have "config_errors lib (node_config_default node_id) = []"
    by (rule default_config_errors)
  moreover have "unat (rt_port_start (nc_runtime c)) + 100 \<le> unat (rt_port_end (nc_runtime c)) \<and>
      eb_fd_soft_limit (nc_ebpf c) < eb_fd_hard_limit (nc_ebpf c) \<and>
      eb_mem_critical_threshold_pages (nc_ebpf c) < eb_mem_low_threshold_pages (nc_ebpf c) \<and>
      0 < unat (he_default_memory_pages (nc_health c)) * 65536 * unat (he_default_max_instances (nc_health c)) \<and>
      unat (he_default_memory_pages (nc_health c)) * 65536 * unat (he_default_max_instances (nc_health c))
        \<le> unat (he_max_memory_bytes (nc_health c))"
    if ok: "config_errors lib c = []"
  proof -
    have ports: "port_errors (nc_runtime c) = []" and thr: "threshold_errors c = []"
      using ok by (simp_all only: config_error_simps)
    note thr' = thr [unfolded threshold_errors_def Let_def append_is_Nil_conv fail_if_Nil]
    obtain b where b: "default_pool_bytes (nc_health c) = Some b" "b \<le> he_max_memory_bytes (nc_health c)"
      using thr' by (auto split: option.splits)
    have "unat b = unat (he_default_memory_pages (nc_health c)) * 65536 * unat (he_default_max_instances (nc_health c))"
      using b(1) default_pool_bytes_Some by blast
    then have "unat (he_default_memory_pages (nc_health c)) * 65536 * unat (he_default_max_instances (nc_health c))
        \<le> unat (he_max_memory_bytes (nc_health c))"
      using b(2) by (simp add: word_le_nat_alt)
    with port_errors_Nil [OF ports] thr' show ?thesis
      by (auto simp: unat_gt_0 not_le)
  qed
  ultimately show ?thesis
    by (simp add: validate_config_Ok_iff)
qed

theorem validated_limits_consistent_witness:
  "validate_config sample_libs sample_production_config = Inr () \<and>
   unat (rt_port_start (nc_runtime sample_production_config)) + 100
     \<le> unat (rt_port_end (nc_runtime sample_production_config))"
  using validated_limits_consistent [of sample_libs None sample_production_config]
  by (simp add: validate_config_Ok_iff sample_config_errors)

end
