(* ===== verification/Config_Loader.thy ===== *)
theory Config_Loader
  imports Config_Validation
begin

text \<open>
  Loading of the configuration (\<open>crates/config/src/loader.rs\<close>, \<open>overrides.rs\<close>): defaults, then the
  file, then environment variables, then command-line flags, then validation. One definition per
  section and layer. The environment is a function from names to values, absent when the variable is
  unset or not Unicode; a path has no file, a file that cannot be read or a file with a text. Parsing of
  TOML and of the JSON array in \<open>WASM_NODE_RUNTIME_KEY_COMMAND\<close> are parameters.
\<close>

section \<open>Command-line overrides\<close>

record cli_overrides =
  cli_node_id :: "string option"
  cli_environment :: "deployment_environment option"
  cli_db_path :: "string option"
  cli_nats_url :: "string option"
  cli_nats_creds :: "string option"
  cli_nats_ca_cert :: "string option"
  cli_nats_client_cert :: "string option"
  cli_nats_client_key :: "string option"
  cli_http_port :: "u16 option"
  cli_https_port :: "u16 option"
  cli_tls_cert :: "string option"
  cli_tls_key :: "string option"
  cli_admin_port :: "u16 option"
  cli_artifact_port :: "u16 option"
  cli_deploy_ingress_port :: "u16 option"
  cli_admin_bind_address :: "string option"
  cli_artifact_bind_address :: "string option"
  cli_deploy_ingress_bind_address :: "string option"
  cli_admin_tls_cert :: "string option"
  cli_admin_tls_key :: "string option"
  cli_admin_advertised_host :: "string option"
  cli_admin_advertised_artifact_url :: "string option"
  cli_port_start :: "u16 option"
  cli_port_end :: "u16 option"
  cli_runtime_isolation_mode :: "string option"
  cli_key_source :: "string option"
  cli_key_file :: "string option"
  cli_key_command :: "string list option"
  cli_key_vault_url :: "string option"
  cli_key_vault_token_env :: "string option"
  cli_key_vault_ca_cert :: "string option"
  cli_key_vault_mount :: "string option"
  cli_key_vault_path :: "string option"
  cli_key_vault_field :: "string option"
  cli_key_vault_transit_mount :: "string option"
  cli_key_vault_transit_key :: "string option"
  cli_key_vault_transit_context :: "string option"
  cli_key_aws_kms_region :: "string option"
  cli_key_aws_kms_endpoint :: "string option"
  cli_key_aws_kms_key_id :: "string option"
  cli_key_aws_kms_context :: "string option"
  cli_runtime_cache_directory :: "string option"
  cli_runtime_upgrade_signing_public_key :: "string option"
  cli_runtime_pooling_allocator :: "bool option"
  cli_runtime_pooling_total_component_instances :: "u32 option"
  cli_runtime_pooling_max_core_instances_per_component :: "u32 option"
  cli_runtime_pooling_max_memories_per_component :: "u32 option"
  cli_runtime_pooling_max_tables_per_component :: "u32 option"
  cli_database_url :: "string option"
  cli_pgbouncer_addr :: "string option"
  cli_enable_db_proxy :: "bool option"
  cli_db_proxy_addr :: "string option"
  cli_db_proxy_backend :: "string option"
  cli_db_proxy_max_connections :: "u64 option"
  cli_log_level :: "string option"
  cli_otlp_endpoint :: "string option"
  cli_billing_export_dir :: "string option"
  cli_billing_export_interval_secs :: "u64 option"
  cli_platform_domain :: "string option"
  cli_dns_webhook_url :: "string option"
  cli_dns_webhook_token :: "string option"
  cli_auth_token :: "string option"
  cli_auth_enabled :: "bool option"
  cli_auth_read_token :: "string option"
  cli_auth_write_token :: "string option"
  cli_auth_require_tls :: "bool option"
  cli_auth_rate_limit_per_second :: "u32 option"
  cli_auth_rate_limit_burst :: "u32 option"

definition cli_overrides_default :: cli_overrides where
  "cli_overrides_default = \<lparr>
     cli_node_id = None, cli_environment = None, cli_db_path = None, cli_nats_url = None,
     cli_nats_creds = None, cli_nats_ca_cert = None, cli_nats_client_cert = None,
     cli_nats_client_key = None, cli_http_port = None, cli_https_port = None, cli_tls_cert = None,
     cli_tls_key = None, cli_admin_port = None, cli_artifact_port = None,
     cli_deploy_ingress_port = None, cli_admin_bind_address = None,
     cli_artifact_bind_address = None, cli_deploy_ingress_bind_address = None,
     cli_admin_tls_cert = None, cli_admin_tls_key = None, cli_admin_advertised_host = None,
     cli_admin_advertised_artifact_url = None, cli_port_start = None, cli_port_end = None,
     cli_runtime_isolation_mode = None, cli_key_source = None, cli_key_file = None,
     cli_key_command = None, cli_key_vault_url = None, cli_key_vault_token_env = None,
     cli_key_vault_ca_cert = None, cli_key_vault_mount = None, cli_key_vault_path = None,
     cli_key_vault_field = None, cli_key_vault_transit_mount = None,
     cli_key_vault_transit_key = None, cli_key_vault_transit_context = None,
     cli_key_aws_kms_region = None, cli_key_aws_kms_endpoint = None, cli_key_aws_kms_key_id = None,
     cli_key_aws_kms_context = None, cli_runtime_cache_directory = None,
     cli_runtime_upgrade_signing_public_key = None, cli_runtime_pooling_allocator = None,
     cli_runtime_pooling_total_component_instances = None,
     cli_runtime_pooling_max_core_instances_per_component = None,
     cli_runtime_pooling_max_memories_per_component = None,
     cli_runtime_pooling_max_tables_per_component = None, cli_database_url = None,
     cli_pgbouncer_addr = None, cli_enable_db_proxy = None, cli_db_proxy_addr = None,
     cli_db_proxy_backend = None, cli_db_proxy_max_connections = None, cli_log_level = None,
     cli_otlp_endpoint = None, cli_billing_export_dir = None,
     cli_billing_export_interval_secs = None, cli_platform_domain = None,
     cli_dns_webhook_url = None, cli_dns_webhook_token = None, cli_auth_token = None,
     cli_auth_enabled = None, cli_auth_read_token = None, cli_auth_write_token = None,
     cli_auth_require_tls = None, cli_auth_rate_limit_per_second = None,
     cli_auth_rate_limit_burst = None \<rparr>"

section \<open>Merging the file over the defaults\<close>

definition or_else :: "'a option \<Rightarrow> 'a option \<Rightarrow> 'a option" where
  "or_else a b = (case a of Some x \<Rightarrow> Some x | None \<Rightarrow> b)"

definition if_empty :: "'a list \<Rightarrow> 'a list \<Rightarrow> 'a list" where
  "if_empty overlay base = (if overlay = [] then base else overlay)"

definition merge_node :: "node_section \<Rightarrow> node_section \<Rightarrow> node_section" where
  "merge_node base overlay = \<lparr>
     ns_node_id = ns_node_id overlay, ns_environment = ns_environment overlay \<rparr>"

definition merge_storage :: "storage_section \<Rightarrow> storage_section \<Rightarrow> storage_section" where
  "merge_storage base overlay = \<lparr>
     ss_db_path = ss_db_path overlay, ss_open_failure_mode = ss_open_failure_mode overlay,
     ss_integrity_failure_mode = ss_integrity_failure_mode overlay \<rparr>"

definition merge_nats :: "nats_section \<Rightarrow> nats_section \<Rightarrow> nats_section" where
  "merge_nats base overlay = \<lparr>
     nats_url = nats_url overlay,
     nats_creds_file = or_else (nats_creds_file overlay) (nats_creds_file base),
     nats_ca_cert = or_else (nats_ca_cert overlay) (nats_ca_cert base),
     nats_client_cert = or_else (nats_client_cert overlay) (nats_client_cert base),
     nats_client_key = or_else (nats_client_key overlay) (nats_client_key base) \<rparr>"

definition merge_proxy :: "proxy_section \<Rightarrow> proxy_section \<Rightarrow> proxy_section" where
  "merge_proxy base overlay = \<lparr>
     px_http_port = px_http_port overlay, px_https_port = px_https_port overlay,
     px_tls_cert = or_else (px_tls_cert overlay) (px_tls_cert base),
     px_tls_key = or_else (px_tls_key overlay) (px_tls_key base) \<rparr>"

definition merge_admin :: "admin_section \<Rightarrow> admin_section \<Rightarrow> admin_section" where
  "merge_admin base overlay = \<lparr>
     ad_port = ad_port overlay, ad_artifact_port = ad_artifact_port overlay,
     ad_deploy_ingress_port = ad_deploy_ingress_port overlay,
     ad_bind_address = ad_bind_address overlay,
     ad_artifact_bind_address = ad_artifact_bind_address overlay,
     ad_deploy_ingress_bind_address = ad_deploy_ingress_bind_address overlay,
     ad_tls_cert = or_else (ad_tls_cert overlay) (ad_tls_cert base),
     ad_tls_key = or_else (ad_tls_key overlay) (ad_tls_key base),
     ad_advertised_host = or_else (ad_advertised_host overlay) (ad_advertised_host base),
     ad_advertised_artifact_url = or_else (ad_advertised_artifact_url overlay) (ad_advertised_artifact_url base),
     ad_auth_token = or_else (ad_auth_token overlay) (ad_auth_token base) \<rparr>"

definition merge_auth :: "auth_section \<Rightarrow> auth_section \<Rightarrow> auth_section" where
  "merge_auth base overlay = \<lparr>
     au_enabled = au_enabled overlay,
     au_read_token = or_else (au_read_token overlay) (au_read_token base),
     au_write_token = or_else (au_write_token overlay) (au_write_token base),
     au_require_tls = au_require_tls overlay,
     au_rate_limit_per_second = au_rate_limit_per_second overlay,
     au_rate_limit_burst = au_rate_limit_burst overlay,
     au_trusted_proxies = if_empty (au_trusted_proxies overlay) (au_trusted_proxies base) \<rparr>"

definition merge_runtime :: "runtime_section \<Rightarrow> runtime_section \<Rightarrow> runtime_section" where
  "merge_runtime base overlay = \<lparr>
     rt_port_start = rt_port_start overlay, rt_port_end = rt_port_end overlay,
     rt_instance_bind_address = if_empty (rt_instance_bind_address overlay) (rt_instance_bind_address base),
     rt_isolation_mode = or_else (rt_isolation_mode overlay) (rt_isolation_mode base),
     rt_key_source = rt_key_source overlay,
     rt_key_file = or_else (rt_key_file overlay) (rt_key_file base),
     rt_key_command = if_empty (rt_key_command overlay) (rt_key_command base),
     rt_key_vault_url = or_else (rt_key_vault_url overlay) (rt_key_vault_url base),
     rt_key_vault_token_env = or_else (rt_key_vault_token_env overlay) (rt_key_vault_token_env base),
     rt_key_vault_ca_cert = or_else (rt_key_vault_ca_cert overlay) (rt_key_vault_ca_cert base),
     rt_key_vault_mount = if_empty (rt_key_vault_mount overlay) (rt_key_vault_mount base),
     rt_key_vault_path = or_else (rt_key_vault_path overlay) (rt_key_vault_path base),
     rt_key_vault_field = if_empty (rt_key_vault_field overlay) (rt_key_vault_field base),
     rt_key_vault_transit_mount = if_empty (rt_key_vault_transit_mount overlay) (rt_key_vault_transit_mount base),
     rt_key_vault_transit_key = or_else (rt_key_vault_transit_key overlay) (rt_key_vault_transit_key base),
     rt_key_vault_transit_context = or_else (rt_key_vault_transit_context overlay) (rt_key_vault_transit_context base),
     rt_key_vault_transit_key_version = or_else (rt_key_vault_transit_key_version overlay) (rt_key_vault_transit_key_version base),
     rt_key_vault_transit_previous_key_version = or_else (rt_key_vault_transit_previous_key_version overlay) (rt_key_vault_transit_previous_key_version base),
     rt_key_aws_kms_region = or_else (rt_key_aws_kms_region overlay) (rt_key_aws_kms_region base),
     rt_key_aws_kms_endpoint = or_else (rt_key_aws_kms_endpoint overlay) (rt_key_aws_kms_endpoint base),
     rt_key_aws_kms_key_id = or_else (rt_key_aws_kms_key_id overlay) (rt_key_aws_kms_key_id base),
     rt_key_aws_kms_previous_key_id = or_else (rt_key_aws_kms_previous_key_id overlay) (rt_key_aws_kms_previous_key_id base),
     rt_key_aws_kms_context = or_else (rt_key_aws_kms_context overlay) (rt_key_aws_kms_context base),
     rt_cache_directory = or_else (rt_cache_directory overlay) (rt_cache_directory base),
     rt_upgrade_signing_public_key = or_else (rt_upgrade_signing_public_key overlay) (rt_upgrade_signing_public_key base),
     rt_pooling_allocator = rt_pooling_allocator overlay,
     rt_pooling_total_component_instances = rt_pooling_total_component_instances overlay,
     rt_pooling_max_core_instances_per_component = or_else (rt_pooling_max_core_instances_per_component overlay) (rt_pooling_max_core_instances_per_component base),
     rt_pooling_max_memories_per_component = or_else (rt_pooling_max_memories_per_component overlay) (rt_pooling_max_memories_per_component base),
     rt_pooling_max_tables_per_component = or_else (rt_pooling_max_tables_per_component overlay) (rt_pooling_max_tables_per_component base) \<rparr>"

definition merge_database :: "database_section \<Rightarrow> database_section \<Rightarrow> database_section" where
  "merge_database base overlay = \<lparr>
     db_default_url = db_default_url overlay, db_pgbouncer_addr = db_pgbouncer_addr overlay,
     db_enable_db_proxy = db_enable_db_proxy overlay, db_db_proxy_addr = db_db_proxy_addr overlay,
     db_db_proxy_backend = db_db_proxy_backend overlay,
     db_db_proxy_max_connections = db_db_proxy_max_connections overlay \<rparr>"

definition merge_logging :: "logging_section \<Rightarrow> logging_section \<Rightarrow> logging_section" where
  "merge_logging base overlay = \<lparr>
     lg_level = lg_level overlay, lg_format = lg_format overlay,
     lg_output = or_else (lg_output overlay) (lg_output base),
     lg_otlp_endpoint = or_else (lg_otlp_endpoint overlay) (lg_otlp_endpoint base),
     lg_modules = if_empty (lg_modules overlay) (lg_modules base),
     lg_sampling = lg_sampling overlay, lg_rotation = lg_rotation overlay,
     lg_forward = lg_forward overlay, lg_audit = lg_audit overlay \<rparr>"

definition merge_billing :: "billing_section \<Rightarrow> billing_section \<Rightarrow> billing_section" where
  "merge_billing base overlay = \<lparr>
     bl_export_dir = or_else (bl_export_dir overlay) (bl_export_dir base),
     bl_export_interval_secs = bl_export_interval_secs overlay \<rparr>"

definition merge_gc :: "gc_section \<Rightarrow> gc_section \<Rightarrow> gc_section" where
  "merge_gc base overlay = \<lparr>
     gc_artifact_keep_versions = gc_artifact_keep_versions overlay,
     gc_metrics_retain_days = gc_metrics_retain_days overlay,
     gc_undeploy_grace_secs = gc_undeploy_grace_secs overlay,
     gc_gc_interval_secs = gc_gc_interval_secs overlay,
     gc_disk_warning_threshold = gc_disk_warning_threshold overlay \<rparr>"

definition merge_rate_limit :: "rate_limit_section \<Rightarrow> rate_limit_section \<Rightarrow> rate_limit_section" where
  "merge_rate_limit base overlay = \<lparr>
     rl_default_requests_per_second = rl_default_requests_per_second overlay,
     rl_default_burst_capacity = rl_default_burst_capacity overlay,
     rl_default_per_ip_limit = rl_default_per_ip_limit overlay \<rparr>"

definition merge_ebpf :: "ebpf_section \<Rightarrow> ebpf_section \<Rightarrow> ebpf_section" where
  "merge_ebpf base overlay = \<lparr>
     eb_enabled = eb_enabled overlay, eb_required = eb_required overlay,
     eb_fd_soft_limit = eb_fd_soft_limit overlay, eb_fd_hard_limit = eb_fd_hard_limit overlay,
     eb_mem_low_threshold_pages = eb_mem_low_threshold_pages overlay,
     eb_mem_critical_threshold_pages = eb_mem_critical_threshold_pages overlay,
     eb_disk_slow_threshold_ns = eb_disk_slow_threshold_ns overlay,
     eb_tcp_conn_limit_per_pid = eb_tcp_conn_limit_per_pid overlay,
     eb_syscall_rate_limit = eb_syscall_rate_limit overlay,
     eb_sampling_period_secs = eb_sampling_period_secs overlay,
     eb_enable_namespace_enforcer = eb_enable_namespace_enforcer overlay,
     eb_gateway_port = eb_gateway_port overlay,
     eb_enable_forged_header_detect = eb_enable_forged_header_detect overlay \<rparr>"

definition merge_dns :: "dns_section \<Rightarrow> dns_section \<Rightarrow> dns_section" where
  "merge_dns base overlay = \<lparr>
     dn_platform_domain = or_else (dn_platform_domain overlay) (dn_platform_domain base),
     dn_webhook_url = or_else (dn_webhook_url overlay) (dn_webhook_url base),
     dn_webhook_token = or_else (dn_webhook_token overlay) (dn_webhook_token base),
     dn_stub_enabled = dn_stub_enabled overlay, dn_stub_port = dn_stub_port overlay \<rparr>"

definition merge_health :: "health_section \<Rightarrow> health_section \<Rightarrow> health_section" where
  "merge_health base overlay = \<lparr>
     he_check_interval_secs = he_check_interval_secs overlay,
     he_check_timeout_secs = he_check_timeout_secs overlay,
     he_default_idle_timeout_secs = he_default_idle_timeout_secs overlay,
     he_default_max_instances = he_default_max_instances overlay,
     he_default_fuel_quota = he_default_fuel_quota overlay,
     he_default_memory_pages = he_default_memory_pages overlay,
     he_failure_threshold = he_failure_threshold overlay,
     he_success_threshold = he_success_threshold overlay,
     he_min_disk_free_bytes = he_min_disk_free_bytes overlay,
     he_min_disk_free_inodes = he_min_disk_free_inodes overlay,
     he_max_memory_bytes = he_max_memory_bytes overlay,
     he_snapshot_interval_secs = he_snapshot_interval_secs overlay,
     he_cluster_node_stale_after_secs = he_cluster_node_stale_after_secs overlay,
     he_app_defaults = he_app_defaults overlay \<rparr>"

definition merge_gateway :: "gateway_section \<Rightarrow> gateway_section \<Rightarrow> gateway_section" where
  "merge_gateway base overlay = \<lparr>
     gw_oidc = or_else (gw_oidc overlay) (gw_oidc base),
     gw_rate_limit = \<lparr>
       grl_kv_bucket = if_empty (grl_kv_bucket (gw_rate_limit overlay)) (grl_kv_bucket (gw_rate_limit base)),
       grl_sync_interval_ms = grl_sync_interval_ms (gw_rate_limit overlay) \<rparr>,
     gw_circuit_breaker = \<lparr>
       gcb_default_failure_threshold = gcb_default_failure_threshold (gw_circuit_breaker overlay),
       gcb_default_reset_timeout_secs = gcb_default_reset_timeout_secs (gw_circuit_breaker overlay) \<rparr> \<rparr>"

definition merge_config :: "node_config \<Rightarrow> node_config \<Rightarrow> node_config" where
  "merge_config base overlay = \<lparr>
     nc_node = merge_node (nc_node base) (nc_node overlay),
     nc_storage = merge_storage (nc_storage base) (nc_storage overlay),
     nc_nats = merge_nats (nc_nats base) (nc_nats overlay),
     nc_proxy = merge_proxy (nc_proxy base) (nc_proxy overlay),
     nc_admin = merge_admin (nc_admin base) (nc_admin overlay),
     nc_auth = merge_auth (nc_auth base) (nc_auth overlay),
     nc_runtime = merge_runtime (nc_runtime base) (nc_runtime overlay),
     nc_database = merge_database (nc_database base) (nc_database overlay),
     nc_logging = merge_logging (nc_logging base) (nc_logging overlay),
     nc_billing = merge_billing (nc_billing base) (nc_billing overlay),
     nc_gc = merge_gc (nc_gc base) (nc_gc overlay),
     nc_rate_limit = merge_rate_limit (nc_rate_limit base) (nc_rate_limit overlay),
     nc_ebpf = merge_ebpf (nc_ebpf base) (nc_ebpf overlay),
     nc_dns = merge_dns (nc_dns base) (nc_dns overlay),
     nc_health = merge_health (nc_health base) (nc_health overlay),
     nc_gateway = merge_gateway (nc_gateway base) (nc_gateway overlay) \<rparr>"

section \<open>Environment variables\<close>

type_synonym env = "string \<Rightarrow> string option"

definition env_str :: "env \<Rightarrow> string \<Rightarrow> string \<Rightarrow> string" where
  "env_str env name old = unwrap_or (env name) old"

definition env_opt :: "env \<Rightarrow> string \<Rightarrow> string option \<Rightarrow> string option" where
  "env_opt env name old = or_else (env name) old"

text \<open>A value that does not parse is ignored.\<close>

definition env_parse :: "(string \<Rightarrow> 'a option) \<Rightarrow> env \<Rightarrow> string \<Rightarrow> 'a \<Rightarrow> 'a" where
  "env_parse p env name old = unwrap_or (Option.bind (env name) p) old"

definition env_parse_opt :: "(string \<Rightarrow> 'a option) \<Rightarrow> env \<Rightarrow> string \<Rightarrow> 'a option \<Rightarrow> 'a option" where
  "env_parse_opt p env name old = or_else (Option.bind (env name) p) old"

definition parse_environment :: "string \<Rightarrow> deployment_environment option" where
  "parse_environment value =
     (let v = to_ascii_lowercase (str_trim value)
      in if v = ''development'' then Some Development
         else if v = ''test'' then Some Test
         else if v = ''production'' then Some Production
         else None)"

definition parse_open_failure_mode :: "string \<Rightarrow> storage_open_failure_mode option" where
  "parse_open_failure_mode v =
     (if str_trim v = ''quarantine_and_fail'' then Some QuarantineAndFail
      else if str_trim v = ''quarantine_and_recreate'' then Some QuarantineAndRecreate
      else None)"

definition parse_integrity_failure_mode :: "string \<Rightarrow> storage_integrity_failure_mode option" where
  "parse_integrity_failure_mode v =
     (if str_trim v = ''quarantine_and_exit'' then Some QuarantineAndExit
      else if str_trim v = ''delete_and_exit'' then Some DeleteAndExit
      else None)"

definition split_proxies :: "string \<Rightarrow> string list" where
  "split_proxies v = filter (\<lambda>entry. entry \<noteq> []) (map str_trim (str_split CHR '','' v))"

definition apply_env_node :: "env \<Rightarrow> node_section \<Rightarrow> node_section" where
  "apply_env_node env s = s\<lparr>
     ns_environment := env_parse parse_environment env ''WASM_NODE_ENVIRONMENT'' (ns_environment s),
     ns_node_id := env_str env ''WASM_NODE_NODE_ID'' (ns_node_id s) \<rparr>"

definition apply_env_storage :: "env \<Rightarrow> storage_section \<Rightarrow> storage_section" where
  "apply_env_storage env s = s\<lparr>
     ss_db_path := env_str env ''WASM_NODE_STORAGE_DB_PATH'' (ss_db_path s),
     ss_open_failure_mode := env_parse parse_open_failure_mode env ''WASM_NODE_STORAGE_OPEN_FAILURE_MODE'' (ss_open_failure_mode s),
     ss_integrity_failure_mode := env_parse parse_integrity_failure_mode env ''WASM_NODE_STORAGE_INTEGRITY_FAILURE_MODE'' (ss_integrity_failure_mode s) \<rparr>"

definition apply_env_nats :: "env \<Rightarrow> nats_section \<Rightarrow> nats_section" where
  "apply_env_nats env s = s\<lparr>
     nats_url := env_str env ''WASM_NODE_NATS_URL'' (nats_url s),
     nats_creds_file := env_opt env ''WASM_NODE_NATS_CREDS_FILE'' (nats_creds_file s),
     nats_ca_cert := env_opt env ''WASM_NODE_NATS_CA_CERT'' (nats_ca_cert s),
     nats_client_cert := env_opt env ''WASM_NODE_NATS_CLIENT_CERT'' (nats_client_cert s),
     nats_client_key := env_opt env ''WASM_NODE_NATS_CLIENT_KEY'' (nats_client_key s) \<rparr>"

definition apply_env_proxy :: "env \<Rightarrow> proxy_section \<Rightarrow> proxy_section" where
  "apply_env_proxy env s = s\<lparr>
     px_http_port := env_parse parse_u16 env ''WASM_NODE_PROXY_HTTP_PORT'' (px_http_port s),
     px_https_port := env_parse parse_u16 env ''WASM_NODE_PROXY_HTTPS_PORT'' (px_https_port s),
     px_tls_cert := env_opt env ''WASM_NODE_PROXY_TLS_CERT'' (px_tls_cert s),
     px_tls_key := env_opt env ''WASM_NODE_PROXY_TLS_KEY'' (px_tls_key s) \<rparr>"

definition apply_env_admin :: "env \<Rightarrow> admin_section \<Rightarrow> admin_section" where
  "apply_env_admin env s = s\<lparr>
     ad_port := env_parse parse_u16 env ''WASM_NODE_ADMIN_PORT'' (ad_port s),
     ad_auth_token := env_opt env ''WASM_NODE_ADMIN_AUTH_TOKEN'' (ad_auth_token s),
     ad_bind_address := env_str env ''WASM_NODE_ADMIN_BIND_ADDRESS'' (ad_bind_address s),
     ad_artifact_bind_address := env_str env ''WASM_NODE_ADMIN_ARTIFACT_BIND_ADDRESS'' (ad_artifact_bind_address s),
     ad_tls_cert := env_opt env ''WASM_NODE_ADMIN_TLS_CERT'' (ad_tls_cert s),
     ad_tls_key := env_opt env ''WASM_NODE_ADMIN_TLS_KEY'' (ad_tls_key s),
     ad_advertised_host := env_opt env ''WASM_NODE_ADMIN_ADVERTISED_HOST'' (ad_advertised_host s),
     ad_advertised_artifact_url := env_opt env ''WASM_NODE_ADMIN_ADVERTISED_ARTIFACT_URL'' (ad_advertised_artifact_url s) \<rparr>"

definition apply_env_auth :: "env \<Rightarrow> auth_section \<Rightarrow> auth_section" where
  "apply_env_auth env s = s\<lparr>
     au_enabled := env_parse parse_bool env ''WASM_NODE_AUTH_ENABLED'' (au_enabled s),
     au_read_token := env_opt env ''WASM_NODE_AUTH_READ_TOKEN'' (au_read_token s),
     au_write_token := env_opt env ''WASM_NODE_AUTH_WRITE_TOKEN'' (au_write_token s),
     au_require_tls := env_parse parse_bool env ''WASM_NODE_AUTH_REQUIRE_TLS'' (au_require_tls s),
     au_rate_limit_per_second := env_parse parse_u32 env ''WASM_NODE_AUTH_RATE_LIMIT_PER_SECOND'' (au_rate_limit_per_second s),
     au_rate_limit_burst := env_parse parse_u32 env ''WASM_NODE_AUTH_RATE_LIMIT_BURST'' (au_rate_limit_burst s),
     au_trusted_proxies := env_parse (Some \<circ> split_proxies) env ''WASM_NODE_AUTH_TRUSTED_PROXIES'' (au_trusted_proxies s) \<rparr>"

definition apply_env_runtime :: "(string \<Rightarrow> string list option) \<Rightarrow> env \<Rightarrow> runtime_section \<Rightarrow> runtime_section" where
  "apply_env_runtime json_strings env s = s\<lparr>
     rt_cache_directory := env_opt env ''WASM_NODE_RUNTIME_CACHE_DIRECTORY'' (rt_cache_directory s),
     rt_key_command := env_parse json_strings env ''WASM_NODE_RUNTIME_KEY_COMMAND'' (rt_key_command s),
     rt_key_vault_url := env_opt env ''WASM_NODE_RUNTIME_KEY_VAULT_URL'' (rt_key_vault_url s),
     rt_key_vault_token_env := env_opt env ''WASM_NODE_RUNTIME_KEY_VAULT_TOKEN_ENV'' (rt_key_vault_token_env s),
     rt_key_vault_ca_cert := env_opt env ''WASM_NODE_RUNTIME_KEY_VAULT_CA_CERT'' (rt_key_vault_ca_cert s),
     rt_key_vault_mount := env_str env ''WASM_NODE_RUNTIME_KEY_VAULT_MOUNT'' (rt_key_vault_mount s),
     rt_key_vault_path := env_opt env ''WASM_NODE_RUNTIME_KEY_VAULT_PATH'' (rt_key_vault_path s),
     rt_key_vault_field := env_str env ''WASM_NODE_RUNTIME_KEY_VAULT_FIELD'' (rt_key_vault_field s),
     rt_key_vault_transit_mount := env_str env ''WASM_NODE_RUNTIME_KEY_VAULT_TRANSIT_MOUNT'' (rt_key_vault_transit_mount s),
     rt_key_vault_transit_key := env_opt env ''WASM_NODE_RUNTIME_KEY_VAULT_TRANSIT_KEY'' (rt_key_vault_transit_key s),
     rt_key_vault_transit_context := env_opt env ''WASM_NODE_RUNTIME_KEY_VAULT_TRANSIT_CONTEXT'' (rt_key_vault_transit_context s),
     rt_key_vault_transit_key_version := env_parse_opt parse_u32 env ''WASM_NODE_RUNTIME_KEY_VAULT_TRANSIT_KEY_VERSION'' (rt_key_vault_transit_key_version s),
     rt_key_vault_transit_previous_key_version := env_parse_opt parse_u32 env ''WASM_NODE_RUNTIME_KEY_VAULT_TRANSIT_PREVIOUS_KEY_VERSION'' (rt_key_vault_transit_previous_key_version s),
     rt_key_aws_kms_region := env_opt env ''WASM_NODE_RUNTIME_KEY_AWS_KMS_REGION'' (rt_key_aws_kms_region s),
     rt_key_aws_kms_endpoint := env_opt env ''WASM_NODE_RUNTIME_KEY_AWS_KMS_ENDPOINT'' (rt_key_aws_kms_endpoint s),
     rt_key_aws_kms_key_id := env_opt env ''WASM_NODE_RUNTIME_KEY_AWS_KMS_KEY_ID'' (rt_key_aws_kms_key_id s),
     rt_key_aws_kms_previous_key_id := env_opt env ''WASM_NODE_RUNTIME_KEY_AWS_KMS_PREVIOUS_KEY_ID'' (rt_key_aws_kms_previous_key_id s),
     rt_key_aws_kms_context := env_opt env ''WASM_NODE_RUNTIME_KEY_AWS_KMS_CONTEXT'' (rt_key_aws_kms_context s),
     rt_upgrade_signing_public_key := env_opt env ''WASM_NODE_RUNTIME_UPGRADE_SIGNING_PUBLIC_KEY'' (rt_upgrade_signing_public_key s),
     rt_pooling_allocator := env_parse parse_bool env ''WASM_NODE_RUNTIME_POOLING_ALLOCATOR'' (rt_pooling_allocator s),
     rt_instance_bind_address := env_str env ''WASM_NODE_RUNTIME_INSTANCE_BIND_ADDRESS'' (rt_instance_bind_address s),
     rt_isolation_mode := env_opt env ''WASM_NODE_RUNTIME_ISOLATION_MODE'' (rt_isolation_mode s),
     rt_pooling_total_component_instances := env_parse parse_u32 env ''WASM_NODE_RUNTIME_POOLING_TOTAL_COMPONENT_INSTANCES'' (rt_pooling_total_component_instances s),
     rt_pooling_max_core_instances_per_component := env_parse_opt parse_u32 env ''WASM_NODE_RUNTIME_POOLING_MAX_CORE_INSTANCES_PER_COMPONENT'' (rt_pooling_max_core_instances_per_component s),
     rt_pooling_max_memories_per_component := env_parse_opt parse_u32 env ''WASM_NODE_RUNTIME_POOLING_MAX_MEMORIES_PER_COMPONENT'' (rt_pooling_max_memories_per_component s),
     rt_pooling_max_tables_per_component := env_parse_opt parse_u32 env ''WASM_NODE_RUNTIME_POOLING_MAX_TABLES_PER_COMPONENT'' (rt_pooling_max_tables_per_component s) \<rparr>"

definition apply_env_logging :: "env \<Rightarrow> logging_section \<Rightarrow> logging_section" where
  "apply_env_logging env s = s\<lparr>
     lg_level := env_str env ''WASM_NODE_LOGGING_LEVEL'' (lg_level s),
     lg_otlp_endpoint := env_opt env ''WASM_NODE_LOGGING_OTLP_ENDPOINT'' (lg_otlp_endpoint s) \<rparr>"

definition apply_env_rate_limit :: "env \<Rightarrow> rate_limit_section \<Rightarrow> rate_limit_section" where
  "apply_env_rate_limit env s = s\<lparr>
     rl_default_requests_per_second := env_parse parse_u32 env ''WASM_NODE_RATE_LIMIT_DEFAULT_REQUESTS_PER_SECOND'' (rl_default_requests_per_second s),
     rl_default_burst_capacity := env_parse parse_u32 env ''WASM_NODE_RATE_LIMIT_DEFAULT_BURST_CAPACITY'' (rl_default_burst_capacity s),
     rl_default_per_ip_limit := env_parse parse_u32 env ''WASM_NODE_RATE_LIMIT_DEFAULT_PER_IP_LIMIT'' (rl_default_per_ip_limit s) \<rparr>"

definition apply_env_ebpf :: "env \<Rightarrow> ebpf_section \<Rightarrow> ebpf_section" where
  "apply_env_ebpf env s = s\<lparr>
     eb_enabled := env_parse parse_bool env ''WASM_NODE_EBPF_ENABLED'' (eb_enabled s) \<rparr>"

definition apply_env_overrides :: "(string \<Rightarrow> string list option) \<Rightarrow> env \<Rightarrow> node_config \<Rightarrow> node_config" where
  "apply_env_overrides json_strings env c = c\<lparr>
     nc_node := apply_env_node env (nc_node c),
     nc_storage := apply_env_storage env (nc_storage c),
     nc_nats := apply_env_nats env (nc_nats c),
     nc_proxy := apply_env_proxy env (nc_proxy c),
     nc_admin := apply_env_admin env (nc_admin c),
     nc_logging := apply_env_logging env (nc_logging c),
     nc_rate_limit := apply_env_rate_limit env (nc_rate_limit c),
     nc_ebpf := apply_env_ebpf env (nc_ebpf c),
     nc_auth := apply_env_auth env (nc_auth c),
     nc_runtime := apply_env_runtime json_strings env (nc_runtime c) \<rparr>"

section \<open>Command-line layer\<close>

definition apply_cli_node :: "cli_overrides \<Rightarrow> node_section \<Rightarrow> node_section" where
  "apply_cli_node cli s = s\<lparr>
     ns_node_id := unwrap_or (cli_node_id cli) (ns_node_id s),
     ns_environment := unwrap_or (cli_environment cli) (ns_environment s) \<rparr>"

definition apply_cli_storage :: "cli_overrides \<Rightarrow> storage_section \<Rightarrow> storage_section" where
  "apply_cli_storage cli s = s\<lparr>
     ss_db_path := unwrap_or (cli_db_path cli) (ss_db_path s) \<rparr>"

definition apply_cli_nats :: "cli_overrides \<Rightarrow> nats_section \<Rightarrow> nats_section" where
  "apply_cli_nats cli s = s\<lparr>
     nats_url := unwrap_or (cli_nats_url cli) (nats_url s),
     nats_creds_file := or_else (cli_nats_creds cli) (nats_creds_file s),
     nats_ca_cert := or_else (cli_nats_ca_cert cli) (nats_ca_cert s),
     nats_client_cert := or_else (cli_nats_client_cert cli) (nats_client_cert s),
     nats_client_key := or_else (cli_nats_client_key cli) (nats_client_key s) \<rparr>"

definition apply_cli_proxy :: "cli_overrides \<Rightarrow> proxy_section \<Rightarrow> proxy_section" where
  "apply_cli_proxy cli s = s\<lparr>
     px_http_port := unwrap_or (cli_http_port cli) (px_http_port s),
     px_https_port := unwrap_or (cli_https_port cli) (px_https_port s),
     px_tls_cert := or_else (cli_tls_cert cli) (px_tls_cert s),
     px_tls_key := or_else (cli_tls_key cli) (px_tls_key s) \<rparr>"

definition apply_cli_admin :: "cli_overrides \<Rightarrow> admin_section \<Rightarrow> admin_section" where
  "apply_cli_admin cli s = s\<lparr>
     ad_port := unwrap_or (cli_admin_port cli) (ad_port s),
     ad_artifact_port := unwrap_or (cli_artifact_port cli) (ad_artifact_port s),
     ad_deploy_ingress_port := unwrap_or (cli_deploy_ingress_port cli) (ad_deploy_ingress_port s),
     ad_bind_address := unwrap_or (cli_admin_bind_address cli) (ad_bind_address s),
     ad_artifact_bind_address := unwrap_or (cli_artifact_bind_address cli) (ad_artifact_bind_address s),
     ad_deploy_ingress_bind_address := unwrap_or (cli_deploy_ingress_bind_address cli) (ad_deploy_ingress_bind_address s),
     ad_tls_cert := or_else (cli_admin_tls_cert cli) (ad_tls_cert s),
     ad_tls_key := or_else (cli_admin_tls_key cli) (ad_tls_key s),
     ad_advertised_host := or_else (cli_admin_advertised_host cli) (ad_advertised_host s),
     ad_advertised_artifact_url := or_else (cli_admin_advertised_artifact_url cli) (ad_advertised_artifact_url s),
     ad_auth_token := or_else (cli_auth_token cli) (ad_auth_token s) \<rparr>"

definition apply_cli_auth :: "cli_overrides \<Rightarrow> auth_section \<Rightarrow> auth_section" where
  "apply_cli_auth cli s = s\<lparr>
     au_enabled := unwrap_or (cli_auth_enabled cli) (au_enabled s),
     au_read_token := or_else (cli_auth_read_token cli) (au_read_token s),
     au_write_token := or_else (cli_auth_write_token cli) (au_write_token s),
     au_require_tls := unwrap_or (cli_auth_require_tls cli) (au_require_tls s),
     au_rate_limit_per_second := unwrap_or (cli_auth_rate_limit_per_second cli) (au_rate_limit_per_second s),
     au_rate_limit_burst := unwrap_or (cli_auth_rate_limit_burst cli) (au_rate_limit_burst s) \<rparr>"

definition apply_cli_runtime :: "cli_overrides \<Rightarrow> runtime_section \<Rightarrow> runtime_section" where
  "apply_cli_runtime cli s = s\<lparr>
     rt_port_start := unwrap_or (cli_port_start cli) (rt_port_start s),
     rt_port_end := unwrap_or (cli_port_end cli) (rt_port_end s),
     rt_key_source := unwrap_or (cli_key_source cli) (rt_key_source s),
     rt_key_file := or_else (cli_key_file cli) (rt_key_file s),
     rt_key_command := unwrap_or (cli_key_command cli) (rt_key_command s),
     rt_key_vault_url := or_else (cli_key_vault_url cli) (rt_key_vault_url s),
     rt_key_vault_token_env := or_else (cli_key_vault_token_env cli) (rt_key_vault_token_env s),
     rt_key_vault_ca_cert := or_else (cli_key_vault_ca_cert cli) (rt_key_vault_ca_cert s),
     rt_key_vault_mount := unwrap_or (cli_key_vault_mount cli) (rt_key_vault_mount s),
     rt_key_vault_path := or_else (cli_key_vault_path cli) (rt_key_vault_path s),
     rt_key_vault_field := unwrap_or (cli_key_vault_field cli) (rt_key_vault_field s),
     rt_key_vault_transit_mount := unwrap_or (cli_key_vault_transit_mount cli) (rt_key_vault_transit_mount s),
     rt_key_vault_transit_key := or_else (cli_key_vault_transit_key cli) (rt_key_vault_transit_key s),
     rt_key_vault_transit_context := or_else (cli_key_vault_transit_context cli) (rt_key_vault_transit_context s),
     rt_key_aws_kms_region := or_else (cli_key_aws_kms_region cli) (rt_key_aws_kms_region s),
     rt_key_aws_kms_endpoint := or_else (cli_key_aws_kms_endpoint cli) (rt_key_aws_kms_endpoint s),
     rt_key_aws_kms_key_id := or_else (cli_key_aws_kms_key_id cli) (rt_key_aws_kms_key_id s),
     rt_key_aws_kms_context := or_else (cli_key_aws_kms_context cli) (rt_key_aws_kms_context s),
     rt_cache_directory := or_else (cli_runtime_cache_directory cli) (rt_cache_directory s),
     rt_isolation_mode := or_else (cli_runtime_isolation_mode cli) (rt_isolation_mode s),
     rt_upgrade_signing_public_key := or_else (cli_runtime_upgrade_signing_public_key cli) (rt_upgrade_signing_public_key s),
     rt_pooling_allocator := unwrap_or (cli_runtime_pooling_allocator cli) (rt_pooling_allocator s),
     rt_pooling_total_component_instances := unwrap_or (cli_runtime_pooling_total_component_instances cli) (rt_pooling_total_component_instances s),
     rt_pooling_max_core_instances_per_component := or_else (cli_runtime_pooling_max_core_instances_per_component cli) (rt_pooling_max_core_instances_per_component s),
     rt_pooling_max_memories_per_component := or_else (cli_runtime_pooling_max_memories_per_component cli) (rt_pooling_max_memories_per_component s),
     rt_pooling_max_tables_per_component := or_else (cli_runtime_pooling_max_tables_per_component cli) (rt_pooling_max_tables_per_component s) \<rparr>"

definition apply_cli_database :: "cli_overrides \<Rightarrow> database_section \<Rightarrow> database_section" where
  "apply_cli_database cli s = s\<lparr>
     db_default_url := unwrap_or (cli_database_url cli) (db_default_url s),
     db_pgbouncer_addr := unwrap_or (cli_pgbouncer_addr cli) (db_pgbouncer_addr s),
     db_enable_db_proxy := unwrap_or (cli_enable_db_proxy cli) (db_enable_db_proxy s),
     db_db_proxy_addr := unwrap_or (cli_db_proxy_addr cli) (db_db_proxy_addr s),
     db_db_proxy_backend := unwrap_or (cli_db_proxy_backend cli) (db_db_proxy_backend s),
     db_db_proxy_max_connections := unwrap_or (cli_db_proxy_max_connections cli) (db_db_proxy_max_connections s) \<rparr>"

definition apply_cli_logging :: "cli_overrides \<Rightarrow> logging_section \<Rightarrow> logging_section" where
  "apply_cli_logging cli s = s\<lparr>
     lg_level := unwrap_or (cli_log_level cli) (lg_level s),
     lg_otlp_endpoint := or_else (cli_otlp_endpoint cli) (lg_otlp_endpoint s) \<rparr>"

definition apply_cli_billing :: "cli_overrides \<Rightarrow> billing_section \<Rightarrow> billing_section" where
  "apply_cli_billing cli s = s\<lparr>
     bl_export_dir := or_else (cli_billing_export_dir cli) (bl_export_dir s),
     bl_export_interval_secs := unwrap_or (cli_billing_export_interval_secs cli) (bl_export_interval_secs s) \<rparr>"

definition apply_cli_dns :: "cli_overrides \<Rightarrow> dns_section \<Rightarrow> dns_section" where
  "apply_cli_dns cli s = s\<lparr>
     dn_platform_domain := or_else (cli_platform_domain cli) (dn_platform_domain s),
     dn_webhook_url := or_else (cli_dns_webhook_url cli) (dn_webhook_url s),
     dn_webhook_token := or_else (cli_dns_webhook_token cli) (dn_webhook_token s) \<rparr>"

definition apply_cli_overrides :: "cli_overrides \<Rightarrow> node_config \<Rightarrow> node_config" where
  "apply_cli_overrides cli c = c\<lparr>
     nc_node := apply_cli_node cli (nc_node c),
     nc_storage := apply_cli_storage cli (nc_storage c),
     nc_nats := apply_cli_nats cli (nc_nats c),
     nc_proxy := apply_cli_proxy cli (nc_proxy c),
     nc_admin := apply_cli_admin cli (nc_admin c),
     nc_runtime := apply_cli_runtime cli (nc_runtime c),
     nc_database := apply_cli_database cli (nc_database c),
     nc_logging := apply_cli_logging cli (nc_logging c),
     nc_billing := apply_cli_billing cli (nc_billing c),
     nc_dns := apply_cli_dns cli (nc_dns c),
     nc_auth := apply_cli_auth cli (nc_auth c) \<rparr>"

section \<open>The loader\<close>

record 'net boot =
  bt_libs :: "'net libs"
  bt_toml :: "string \<Rightarrow> (string, node_config) result"
  bt_json_strings :: "string \<Rightarrow> string list option"

datatype load_error = ReadFailed string string | ParseFailed string string | Invalid "config_error list"

type_synonym fs = "string \<Rightarrow> (string, string) result option"

definition load_file :: "'net boot \<Rightarrow> fs \<Rightarrow> string \<Rightarrow> node_config \<Rightarrow> (load_error, node_config) result" where
  "load_file B fs path config =
     (case fs path of
        None \<Rightarrow> Ok config
      | Some (Inl e) \<Rightarrow> Err (ReadFailed path e)
      | Some (Inr toml_str) \<Rightarrow>
          (case bt_toml B toml_str of
             Inl e \<Rightarrow> Err (ParseFailed path e)
           | Inr file_config \<Rightarrow> Ok (merge_config config file_config)))"

definition load_config ::
  "'net boot \<Rightarrow> fs \<Rightarrow> env \<Rightarrow> string option \<Rightarrow> cli_overrides \<Rightarrow> (load_error, node_config) result" where
  "load_config B fs env config_path cli =
     (let config = node_config_default (env ''NODE_ID'')
      in try_then (case config_path of None \<Rightarrow> Ok config | Some path \<Rightarrow> load_file B fs path config) (\<lambda>config.
         let config = apply_cli_overrides cli (apply_env_overrides (bt_json_strings B) env config)
         in case validate_config (bt_libs B) config of
              Inl errors \<Rightarrow> Err (Invalid errors)
            | Inr _ \<Rightarrow> Ok config))"

section \<open>A file with a legacy token\<close>

definition legacy_file :: node_config where
  "legacy_file = (node_config_default None)\<lparr>
     nc_admin := admin_section_default\<lparr> ad_auth_token := Some ''legacy-admin-token'' \<rparr>,
     nc_proxy := proxy_section_default\<lparr> px_http_port := 80 \<rparr> \<rparr>"

definition legacy_boot :: "ip_addr boot" where
  "legacy_boot = \<lparr> bt_libs = sample_libs, bt_toml = (\<lambda>_. Inr legacy_file), bt_json_strings = (\<lambda>_. None) \<rparr>"

definition legacy_fs :: fs where
  "legacy_fs path = (if path = ''node.toml'' then Some (Inr ''[admin]'') else None)"

definition legacy_env :: env where
  "legacy_env name = (if name = ''WASM_NODE_NATS_URL'' then Some ''nats://bus:4222'' else None)"

definition legacy_config :: node_config where
  "legacy_config = legacy_file\<lparr> nc_nats := nats_section_default\<lparr> nats_url := ''nats://bus:4222'' \<rparr> \<rparr>"

section \<open>Facts\<close>

lemma or_else_simps [simp]: "or_else None b = b" "or_else (Some x) b = Some x" "or_else a None = a"
  by (simp_all add: or_else_def split: option.split)

lemma or_else_Some_right: "or_else a (Some d) = Some (unwrap_or a d)"
  by (cases a) simp_all

lemmas env_layer = env_str_def env_opt_def env_parse_def env_parse_opt_def

lemma validated_case:
  "(case validate_config lib config of Inl errors \<Rightarrow> Err (Invalid errors) | Inr _ \<Rightarrow> Ok config) = Inr c \<longleftrightarrow>
     c = config \<and> validate_config lib c = Inr ()"
  by (auto simp: validate_config_def Let_def)

lemma load_config_Ok_iff:
  "load_config B fs env config_path cli = Inr c \<longleftrightarrow>
     (\<exists>config. (case config_path of None \<Rightarrow> Ok (node_config_default (env ''NODE_ID''))
        | Some path \<Rightarrow> load_file B fs path (node_config_default (env ''NODE_ID''))) = Inr config \<and>
      c = apply_cli_overrides cli (apply_env_overrides (bt_json_strings B) env config) \<and>
      validate_config (bt_libs B) c = Inr ())"
  unfolding load_config_def Let_def try_then_Ok_iff validated_case by blast

lemma load_config_file:
  assumes "load_config B fs env (Some path) cli = Inr c"
    and "fs path = Some (Inr text)" and "bt_toml B text = Inr file"
  shows "c = apply_cli_overrides cli (apply_env_overrides (bt_json_strings B) env
      (merge_config (node_config_default (env ''NODE_ID'')) file))"
    "validate_config (bt_libs B) c = Inr ()"
  using assms by (auto simp: load_config_Ok_iff load_file_def)

lemma no_cli_overrides: "apply_cli_overrides cli_overrides_default c = c"
  by (simp add: apply_cli_overrides_def apply_cli_node_def apply_cli_storage_def apply_cli_nats_def apply_cli_proxy_def
      apply_cli_admin_def apply_cli_auth_def apply_cli_runtime_def apply_cli_database_def apply_cli_logging_def
      apply_cli_billing_def apply_cli_dns_def cli_overrides_default_def)

lemma no_env_overrides: "apply_env_overrides js (\<lambda>_. None) c = c"
  by (simp add: apply_env_overrides_def apply_env_node_def apply_env_storage_def apply_env_nats_def apply_env_proxy_def
      apply_env_admin_def apply_env_logging_def apply_env_rate_limit_def apply_env_ebpf_def apply_env_auth_def
      apply_env_runtime_def env_layer)

lemma merge_legacy_file: "merge_config (node_config_default None) legacy_file = legacy_file"
  by (simp add: merge_config_def legacy_file_def node_config_default_def merge_node_def merge_storage_def merge_nats_def
      merge_proxy_def merge_admin_def merge_auth_def merge_runtime_def merge_database_def merge_logging_def
      merge_billing_def merge_gc_def merge_rate_limit_def merge_ebpf_def merge_dns_def merge_health_def
      merge_gateway_def if_empty_def section_defaults
      gateway_rate_limit_section_default_def gateway_circuit_breaker_section_default_def)

lemma legacy_env_overrides: "apply_env_overrides js legacy_env legacy_file = legacy_config"
  by (simp add: apply_env_overrides_def apply_env_node_def apply_env_storage_def apply_env_nats_def apply_env_proxy_def
      apply_env_admin_def apply_env_logging_def apply_env_rate_limit_def apply_env_ebpf_def apply_env_auth_def
      apply_env_runtime_def env_layer legacy_env_def legacy_file_def legacy_config_def node_config_default_def
      nats_section_default_def)

lemma legacy_sections:
  "nc_node legacy_config = node_section_default None"
  "nc_nats legacy_config = nats_section_default\<lparr> nats_url := ''nats://bus:4222'' \<rparr>"
  "nc_admin legacy_config = admin_section_default\<lparr> ad_auth_token := Some ''legacy-admin-token'' \<rparr>"
  "nc_proxy legacy_config = proxy_section_default\<lparr> px_http_port := 80 \<rparr>"
  "nc_auth legacy_config = auth_section_default"
  "nc_runtime legacy_config = runtime_section_default"
  "nc_logging legacy_config = logging_section_default"
  "nc_gc legacy_config = gc_section_default"
  "nc_health legacy_config = health_section_default"
  "nc_rate_limit legacy_config = rate_limit_section_default"
  "nc_ebpf legacy_config = ebpf_section_default"
  by (simp_all add: legacy_config_def legacy_file_def node_config_default_def)

lemma legacy_config_errors: "config_errors sample_libs legacy_config = []"
proof -
  have thr: "threshold_errors legacy_config = []"
    unfolding threshold_errors_def Let_def append_is_Nil_conv fail_if_Nil legacy_sections
    by (simp add: section_defaults valid_levels_def f64_gt_def default_pool_bytes_def checked_mul_def)
  have nats: "nats_errors (nats_section_default\<lparr> nats_url := u \<rparr>) = []" for u
    by (simp add: nats_errors_def fail_if_def nats_section_default_def)
  have rest: "tls_errors legacy_config = []" "validate_admin_advertisement sample_libs legacy_config = []"
    "validate_production_secret_policy sample_libs legacy_config = []" "exposure_errors legacy_config = []"
    "auth_section_errors sample_libs legacy_config = []"
    by (simp_all add: tls_errors_def validate_admin_advertisement_def validate_production_secret_policy_def
        exposure_errors_def auth_section_errors_def auth_validate_def auth_config_of_section_def fail_if_def
        legacy_sections section_defaults loopback_default)
  have "ad_bind_address (nc_admin legacy_config) = ''127.0.0.1''"
    "ad_artifact_bind_address (nc_admin legacy_config) = ''127.0.0.1''"
    "rt_instance_bind_address runtime_section_default = ''127.0.0.1''"
    "rt_isolation_mode runtime_section_default = None"
    by (simp_all add: legacy_sections section_defaults)
  then show ?thesis
    by (simp add: config_errors_def thr nats rest legacy_sections(2,6) default_runtime_errors bind_address_default
        fail_if_Nil)
qed

lemma legacy_load:
  "load_config legacy_boot legacy_fs legacy_env (Some ''node.toml'') cli_overrides_default = Inr legacy_config"
  unfolding load_config_Ok_iff
  by (simp add: load_file_def legacy_boot_def legacy_fs_def merge_legacy_file legacy_env_overrides no_cli_overrides
      validate_config_Ok_iff legacy_config_errors) (simp add: legacy_env_def merge_legacy_file legacy_env_overrides)

section \<open>Properties\<close>

text \<open>
  The layers are applied in the documented order. When a configuration loads with a file, it is
  valid, and each setting comes from the command line, else from its environment variable, else from the file,
  else from the defaults: a text (message bus address), an optional text (tokens), a number (a variable that
  does not parse is skipped), a flag, a text the file may leave empty (the Vault mount), and a section that no
  variable or flag touches (garbage collection).
\<close>

theorem config_precedence:
  assumes "load_config B fs env (Some path) cli = Inr c"
    and "fs path = Some (Inr text)" and "bt_toml B text = Inr file"
  shows "validate_config (bt_libs B) c = Inr () \<and>
    nats_url (nc_nats c) = unwrap_or (or_else (cli_nats_url cli) (env ''WASM_NODE_NATS_URL'')) (nats_url (nc_nats file)) \<and>
    au_read_token (nc_auth c) =
      or_else (cli_auth_read_token cli) (or_else (env ''WASM_NODE_AUTH_READ_TOKEN'') (au_read_token (nc_auth file))) \<and>
    au_write_token (nc_auth c) =
      or_else (cli_auth_write_token cli) (or_else (env ''WASM_NODE_AUTH_WRITE_TOKEN'') (au_write_token (nc_auth file))) \<and>
    au_enabled (nc_auth c) = unwrap_or (or_else (cli_auth_enabled cli)
      (Option.bind (env ''WASM_NODE_AUTH_ENABLED'') parse_bool)) (au_enabled (nc_auth file)) \<and>
    px_http_port (nc_proxy c) = unwrap_or (or_else (cli_http_port cli)
      (Option.bind (env ''WASM_NODE_PROXY_HTTP_PORT'') parse_u16)) (px_http_port (nc_proxy file)) \<and>
    ns_environment (nc_node c) = unwrap_or (or_else (cli_environment cli)
      (Option.bind (env ''WASM_NODE_ENVIRONMENT'') parse_environment)) (ns_environment (nc_node file)) \<and>
    rt_key_vault_mount (nc_runtime c) = unwrap_or (or_else (cli_key_vault_mount cli)
      (env ''WASM_NODE_RUNTIME_KEY_VAULT_MOUNT'')) (if_empty (rt_key_vault_mount (nc_runtime file)) ''secret'') \<and>
    nc_gc c = nc_gc file"
proof -
  have layers: "unwrap_or a (unwrap_or b d) = unwrap_or (or_else a b) d" for a b :: "'x option" and d
    by (cases a) simp_all
  show ?thesis
    apply (intro conjI)
     apply (rule load_config_file(2) [OF assms])
    by (simp_all add: load_config_file(1) [OF assms] layers apply_cli_overrides_def apply_env_overrides_def
        merge_config_def apply_cli_nats_def apply_cli_auth_def apply_cli_proxy_def apply_cli_node_def
        apply_cli_runtime_def apply_env_nats_def apply_env_auth_def apply_env_proxy_def apply_env_node_def
        apply_env_runtime_def merge_nats_def merge_auth_def merge_proxy_def merge_node_def merge_runtime_def
        merge_gc_def env_layer node_config_default_def section_defaults)
qed

theorem config_precedence_witness:
  "load_config legacy_boot legacy_fs legacy_env (Some ''node.toml'') cli_overrides_default = Inr legacy_config \<and>
   nats_url (nc_nats legacy_config) = ''nats://bus:4222'' \<and> px_http_port (nc_proxy legacy_config) = 80"
proof -
  have "legacy_fs ''node.toml'' = Some (Inr ''[admin]'')" "bt_toml legacy_boot ''[admin]'' = Inr legacy_file"
    by (simp_all add: legacy_fs_def legacy_boot_def)
  from config_precedence [OF legacy_load this]
  have "nats_url (nc_nats legacy_config) = ''nats://bus:4222'' \<and> px_http_port (nc_proxy legacy_config) = 80"
    by (simp add: legacy_env_def cli_overrides_default_def legacy_file_def legacy_sections)
  with legacy_load show ?thesis by blast
qed

end
