(* ===== verification/Node_Startup.thy ===== *)
theory Node_Startup
  imports Config_Loader Route_Store Admin_Middleware
begin

text \<open>
  What the node makes of its configuration for the admin interface: the command line
  (\<open>crates/node/src/args.rs\<close>, \<open>main.rs\<close>), the authentication settings in effect at start, their rotation
  through the admin interface, their persistence (\<open>crates/storage/src/management_state.rs\<close>) and their reload
  on \<open>SIGHUP\<close> (\<open>auth_reload.rs\<close>). Parsing of the command line (crate \<open>clap\<close>) is not modelled: \<open>args\<close> is
  its result and \<open>args_default\<close> the result for an empty command line and environment.
\<close>

section \<open>Command line\<close>

record args =
  arg_config :: "string option"
  arg_db_path :: string
  arg_nats_url :: string
  arg_nats_creds :: "string option"
  arg_nats_ca_cert :: "string option"
  arg_nats_client_cert :: "string option"
  arg_nats_client_key :: "string option"
  arg_proxy_port :: u16
  arg_proxy_https_port :: u16
  arg_tls_cert :: "string option"
  arg_tls_key :: "string option"
  arg_admin_port :: u16
  arg_admin_bind_address :: "string option"
  arg_artifact_port :: u16
  arg_artifact_bind_address :: "string option"
  arg_deploy_ingress_port :: u16
  arg_deploy_ingress_bind_address :: "string option"
  arg_admin_tls_cert :: "string option"
  arg_admin_tls_key :: "string option"
  arg_admin_advertised_host :: "string option"
  arg_admin_advertised_artifact_url :: "string option"
  arg_otlp_endpoint :: "string option"
  arg_node_id :: string
  arg_port_start :: u16
  arg_port_end :: u16
  arg_key_source :: string
  arg_key_file :: "string option"
  arg_key_command :: "string list"
  arg_key_vault_url :: "string option"
  arg_key_vault_token_env :: "string option"
  arg_key_vault_ca_cert :: "string option"
  arg_key_vault_mount :: "string option"
  arg_key_vault_path :: "string option"
  arg_key_vault_field :: "string option"
  arg_key_vault_transit_mount :: "string option"
  arg_key_vault_transit_key :: "string option"
  arg_key_vault_transit_context :: "string option"
  arg_key_aws_kms_region :: "string option"
  arg_key_aws_kms_endpoint :: "string option"
  arg_key_aws_kms_key_id :: "string option"
  arg_key_aws_kms_context :: "string option"
  arg_runtime_cache_directory :: "string option"
  arg_runtime_isolation_mode :: "string option"
  arg_runtime_upgrade_signing_public_key :: "string option"
  arg_runtime_pooling_allocator :: "bool option"
  arg_runtime_pooling_total_component_instances :: "u32 option"
  arg_runtime_pooling_max_core_instances_per_component :: "u32 option"
  arg_runtime_pooling_max_memories_per_component :: "u32 option"
  arg_runtime_pooling_max_tables_per_component :: "u32 option"
  arg_admin_token :: "string option"
  arg_auth_enabled :: "bool option"
  arg_auth_read_token :: "string option"
  arg_auth_write_token :: "string option"
  arg_auth_require_tls :: "bool option"
  arg_auth_rate_limit_per_second :: "u32 option"
  arg_auth_rate_limit_burst :: "u32 option"
  arg_generate_tokens :: bool
  arg_database_url :: string
  arg_pgbouncer_addr :: string
  arg_enable_db_proxy :: bool
  arg_db_proxy_addr :: string
  arg_db_backend_addr :: string
  arg_db_proxy_max_connections :: u64
  arg_billing_export_dir :: "string option"
  arg_billing_export_interval_secs :: u64
  arg_platform_domain :: "string option"
  arg_dns_webhook_url :: "string option"
  arg_dns_webhook_token :: "string option"
  arg_generate_config :: bool
  arg_validate_config :: "string option"
  arg_clear_persisted_auth_override :: bool
  arg_log_format :: string
  arg_log_output :: "string option"
  arg_log_level :: string
  arg_log_sampling :: bool
  arg_log_info_sample_rate :: u64
  arg_log_debug_sample_rate :: u64
  arg_log_trace_sample_rate :: u64

definition args_default :: args where
  "args_default = \<lparr>
     arg_config = None, arg_db_path = ''/tmp/wasm-node/state.redb'',
     arg_nats_url = ''nats://127.0.0.1:4222'', arg_nats_creds = None, arg_nats_ca_cert = None,
     arg_nats_client_cert = None, arg_nats_client_key = None, arg_proxy_port = 8080,
     arg_proxy_https_port = 0, arg_tls_cert = None, arg_tls_key = None, arg_admin_port = 9090,
     arg_admin_bind_address = None, arg_artifact_port = 9091, arg_artifact_bind_address = None,
     arg_deploy_ingress_port = 9092, arg_deploy_ingress_bind_address = None,
     arg_admin_tls_cert = None, arg_admin_tls_key = None, arg_admin_advertised_host = None,
     arg_admin_advertised_artifact_url = None, arg_otlp_endpoint = None, arg_node_id = ''node-0'',
     arg_port_start = 10000, arg_port_end = 19999, arg_key_source = ''generate'',
     arg_key_file = None, arg_key_command = [], arg_key_vault_url = None,
     arg_key_vault_token_env = None, arg_key_vault_ca_cert = None, arg_key_vault_mount = None,
     arg_key_vault_path = None, arg_key_vault_field = None, arg_key_vault_transit_mount = None,
     arg_key_vault_transit_key = None, arg_key_vault_transit_context = None,
     arg_key_aws_kms_region = None, arg_key_aws_kms_endpoint = None, arg_key_aws_kms_key_id = None,
     arg_key_aws_kms_context = None, arg_runtime_cache_directory = None,
     arg_runtime_isolation_mode = None, arg_runtime_upgrade_signing_public_key = None,
     arg_runtime_pooling_allocator = None, arg_runtime_pooling_total_component_instances = None,
     arg_runtime_pooling_max_core_instances_per_component = None,
     arg_runtime_pooling_max_memories_per_component = None,
     arg_runtime_pooling_max_tables_per_component = None, arg_admin_token = None,
     arg_auth_enabled = None, arg_auth_read_token = None, arg_auth_write_token = None,
     arg_auth_require_tls = None, arg_auth_rate_limit_per_second = None,
     arg_auth_rate_limit_burst = None, arg_generate_tokens = False,
     arg_database_url = ''postgres://127.0.0.1:5432'', arg_pgbouncer_addr = ''127.0.0.1:5432'',
     arg_enable_db_proxy = False, arg_db_proxy_addr = ''127.0.0.1:5433'',
     arg_db_backend_addr = ''db.internal:5432'', arg_db_proxy_max_connections = 20,
     arg_billing_export_dir = None, arg_billing_export_interval_secs = 3600,
     arg_platform_domain = None, arg_dns_webhook_url = None, arg_dns_webhook_token = None,
     arg_generate_config = False, arg_validate_config = None,
     arg_clear_persisted_auth_override = False, arg_log_format = ''json'', arg_log_output = None,
     arg_log_level = ''info'', arg_log_sampling = False, arg_log_info_sample_rate = 1,
     arg_log_debug_sample_rate = 10, arg_log_trace_sample_rate = 100 \<rparr>"

definition cli_overrides_of_args :: "args \<Rightarrow> cli_overrides" where
  "cli_overrides_of_args args = \<lparr>
     cli_node_id = (if arg_config args = None \<or> arg_node_id args \<noteq> ''node-0'' then Some (arg_node_id args) else None),
     cli_environment = None,
     cli_db_path = (if arg_config args = None \<or> arg_db_path args \<noteq> ''/tmp/wasm-node/state.redb'' then Some (arg_db_path args) else None),
     cli_nats_url = (if arg_config args = None \<or> arg_nats_url args \<noteq> ''nats://127.0.0.1:4222'' then Some (arg_nats_url args) else None),
     cli_nats_creds = arg_nats_creds args, cli_nats_ca_cert = arg_nats_ca_cert args,
     cli_nats_client_cert = arg_nats_client_cert args,
     cli_nats_client_key = arg_nats_client_key args, cli_http_port = Some (arg_proxy_port args),
     cli_https_port = Some (arg_proxy_https_port args), cli_tls_cert = arg_tls_cert args,
     cli_tls_key = arg_tls_key args, cli_admin_port = Some (arg_admin_port args),
     cli_artifact_port = Some (arg_artifact_port args),
     cli_deploy_ingress_port = Some (arg_deploy_ingress_port args),
     cli_admin_bind_address = arg_admin_bind_address args,
     cli_artifact_bind_address = arg_artifact_bind_address args,
     cli_deploy_ingress_bind_address = arg_deploy_ingress_bind_address args,
     cli_admin_tls_cert = arg_admin_tls_cert args, cli_admin_tls_key = arg_admin_tls_key args,
     cli_admin_advertised_host = arg_admin_advertised_host args,
     cli_admin_advertised_artifact_url = arg_admin_advertised_artifact_url args,
     cli_port_start = Some (arg_port_start args), cli_port_end = Some (arg_port_end args),
     cli_runtime_isolation_mode = arg_runtime_isolation_mode args,
     cli_key_source = (if arg_config args = None \<or> arg_key_source args \<noteq> ''generate'' then Some (arg_key_source args) else None),
     cli_key_file = arg_key_file args,
     cli_key_command = (if arg_key_command args = [] then None else Some (arg_key_command args)),
     cli_key_vault_url = arg_key_vault_url args,
     cli_key_vault_token_env = arg_key_vault_token_env args,
     cli_key_vault_ca_cert = arg_key_vault_ca_cert args,
     cli_key_vault_mount = arg_key_vault_mount args, cli_key_vault_path = arg_key_vault_path args,
     cli_key_vault_field = arg_key_vault_field args,
     cli_key_vault_transit_mount = arg_key_vault_transit_mount args,
     cli_key_vault_transit_key = arg_key_vault_transit_key args,
     cli_key_vault_transit_context = arg_key_vault_transit_context args,
     cli_key_aws_kms_region = arg_key_aws_kms_region args,
     cli_key_aws_kms_endpoint = arg_key_aws_kms_endpoint args,
     cli_key_aws_kms_key_id = arg_key_aws_kms_key_id args,
     cli_key_aws_kms_context = arg_key_aws_kms_context args,
     cli_runtime_cache_directory = arg_runtime_cache_directory args,
     cli_runtime_upgrade_signing_public_key = arg_runtime_upgrade_signing_public_key args,
     cli_runtime_pooling_allocator = arg_runtime_pooling_allocator args,
     cli_runtime_pooling_total_component_instances = arg_runtime_pooling_total_component_instances args,
     cli_runtime_pooling_max_core_instances_per_component = arg_runtime_pooling_max_core_instances_per_component args,
     cli_runtime_pooling_max_memories_per_component = arg_runtime_pooling_max_memories_per_component args,
     cli_runtime_pooling_max_tables_per_component = arg_runtime_pooling_max_tables_per_component args,
     cli_database_url = Some (arg_database_url args),
     cli_pgbouncer_addr = Some (arg_pgbouncer_addr args),
     cli_enable_db_proxy = Some (arg_enable_db_proxy args),
     cli_db_proxy_addr = Some (arg_db_proxy_addr args),
     cli_db_proxy_backend = Some (arg_db_backend_addr args),
     cli_db_proxy_max_connections = Some (arg_db_proxy_max_connections args),
     cli_log_level = Some (arg_log_level args), cli_otlp_endpoint = arg_otlp_endpoint args,
     cli_billing_export_dir = arg_billing_export_dir args,
     cli_billing_export_interval_secs = Some (arg_billing_export_interval_secs args),
     cli_platform_domain = arg_platform_domain args, cli_dns_webhook_url = arg_dns_webhook_url args,
     cli_dns_webhook_token = arg_dns_webhook_token args, cli_auth_token = arg_admin_token args,
     cli_auth_enabled = arg_auth_enabled args, cli_auth_read_token = arg_auth_read_token args,
     cli_auth_write_token = arg_auth_write_token args,
     cli_auth_require_tls = arg_auth_require_tls args,
     cli_auth_rate_limit_per_second = arg_auth_rate_limit_per_second args,
     cli_auth_rate_limit_burst = arg_auth_rate_limit_burst args \<rparr>"

section \<open>Persisted settings\<close>

definition AUTH_CONFIG_KEY :: string where
  "AUTH_CONFIG_KEY = ''auth_config_override''"

definition save_auth_config ::
  "'t redb \<Rightarrow> auth_config serde \<Rightarrow> auth_config \<Rightarrow> 't \<Rightarrow> (storage_error, 't) result" where
  "save_auth_config db js c t =
     try_then (storage_source (sd_to_string js c)) (\<lambda>json.
     try_then (storage_source (rd_begin_write db t)) (\<lambda>tx.
     try_then (storage_source (rd_open_table db tx)) (\<lambda>table.
     try_then (storage_source (rd_insert db AUTH_CONFIG_KEY json table)) (\<lambda>tx'.
     storage_source (rd_commit db tx')))))"

definition load_auth_config ::
  "'t redb \<Rightarrow> auth_config serde \<Rightarrow> 't \<Rightarrow> (storage_error, auth_config option) result" where
  "load_auth_config db js t =
     try_then (storage_source (rd_begin_read db t)) (\<lambda>tx.
     try_then (storage_source (rd_open_table db tx)) (\<lambda>table.
     try_then (storage_source (rd_get db AUTH_CONFIG_KEY table)) (\<lambda>found.
       case found of
         Some v \<Rightarrow> try_then (storage_source (sd_from_str js v)) (\<lambda>c. Inr (Some c))
       | None \<Rightarrow> Inr None)))"

definition delete_auth_config :: "'t redb \<Rightarrow> 't \<Rightarrow> (storage_error, 't) result" where
  "delete_auth_config db t =
     try_then (storage_source (rd_begin_write db t)) (\<lambda>tx.
     try_then (storage_source (rd_open_table db tx)) (\<lambda>table.
     try_then (storage_source (rd_remove db AUTH_CONFIG_KEY table)) (\<lambda>tx'.
     storage_source (rd_commit db tx'))))"

section \<open>Settings in effect\<close>

definition admin_tls_material :: "node_config \<Rightarrow> (string \<times> string) option" where
  "admin_tls_material c =
     (case (ad_tls_cert (nc_admin c), ad_tls_key (nc_admin c)) of
        (Some cert, Some key) \<Rightarrow> Some (cert, key)
      | _ \<Rightarrow> (case (px_tls_cert (nc_proxy c), px_tls_key (nc_proxy c)) of
            (Some cert, Some key) \<Rightarrow> Some (cert, key)
          | _ \<Rightarrow> None))"

definition admin_tls_is_configured :: "node_config \<Rightarrow> bool" where
  "admin_tls_is_configured c \<longleftrightarrow> admin_tls_material c \<noteq> None"

datatype startup_error =
    PlaintextOverrideRejected
  | OverrideUnverified storage_error
  | InvalidAuth auth_error
  | AdminTlsRequired

definition configured_auth :: "node_config \<Rightarrow> auth_config" where
  "configured_auth c =
     (if au_enabled (nc_auth c) then auth_config_of_section (nc_auth c)
      else (case ad_auth_token (nc_admin c) of
          Some token \<Rightarrow> from_legacy_token token
        | None \<Rightarrow> auth_config_default))"

definition effective_auth_config ::
  "'net libs \<Rightarrow> 't redb \<Rightarrow> auth_config serde \<Rightarrow> node_config \<Rightarrow> 't \<Rightarrow> (startup_error, auth_config) result" where
  "effective_auth_config lib db js c t =
     (let production = (ns_environment (nc_node c) = Production)
      in try_then
           (case load_auth_config db js t of
              Inr (Some persisted) \<Rightarrow> if production then Err PlaintextOverrideRejected else Ok persisted
            | Inr None \<Rightarrow> Ok (configured_auth c)
            | Inl e \<Rightarrow> if production then Err (OverrideUnverified e) else Ok (configured_auth c))
           (\<lambda>a. case auth_validate (lib_net_parse lib) (lib_net_of_ip lib) a of
              Inl e \<Rightarrow> Err (InvalidAuth e)
            | Inr _ \<Rightarrow> (case check_admin_tls_requirement a (admin_tls_is_configured c) of
                  Inl _ \<Rightarrow> Err AdminTlsRequired | Inr _ \<Rightarrow> Ok a)))"

section \<open>Rotation and reload\<close>

text \<open>The settings behind the lock, and the table they are persisted in.\<close>

record 't auth_node =
  an_auth :: auth_config
  an_table :: 't

datatype rotate_response =
    ExternalLifecycleRequired
  | InvalidRequest string
  | RotationRefused rotation_error
  | Rotated string string

text \<open>
  \<open>req\<close> is the parsed body, \<open>random\<close> the text of a freshly generated token. A failure to persist is only logged.
\<close>

definition rotate_token ::
  "'t redb \<Rightarrow> auth_config serde \<Rightarrow> bool \<Rightarrow> (string, rotate_token_request) result \<Rightarrow> string \<Rightarrow> 't auth_node \<Rightarrow>
     rotate_response \<times> 't auth_node" where
  "rotate_token db js production req random st =
     (if production then (ExternalLifecycleRequired, st)
      else (case req of
          Inl e \<Rightarrow> (InvalidRequest e, st)
        | Inr req \<Rightarrow>
            (case validate_rotation_request random req of
               Inl e \<Rightarrow> (RotationRefused e, st)
             | Inr new_token \<Rightarrow>
                 (let config = (if rt_token_type req = ''read'' then (an_auth st)\<lparr> ac_read_token := Some new_token \<rparr>
                                else (an_auth st)\<lparr> ac_write_token := Some new_token \<rparr>);
                      table = (case save_auth_config db js config (an_table st) of
                                 Inr t \<Rightarrow> t | Inl _ \<Rightarrow> an_table st)
                  in (Rotated (rt_token_type req) new_token, \<lparr> an_auth = config, an_table = table \<rparr>)))))"

text \<open>One delivery of the signal: the result is the new value behind the lock.\<close>

definition sighup_reload ::
  "'net boot \<Rightarrow> fs \<Rightarrow> env \<Rightarrow> string option \<Rightarrow> auth_config \<Rightarrow> auth_config" where
  "sighup_reload B fs env config_path auth =
     (case config_path of
        None \<Rightarrow> auth
      | Some path \<Rightarrow>
          (case load_config B fs env (Some path) cli_overrides_default of
             Inl _ \<Rightarrow> auth
           | Inr new_config \<Rightarrow>
               (let new_auth = auth_config_of_section (nc_auth new_config)
                in case auth_validate (lib_net_parse (bt_libs B)) (lib_net_of_ip (bt_libs B)) new_auth of
                     Inl _ \<Rightarrow> auth | Inr _ \<Rightarrow> new_auth)))"

section \<open>Sample settings\<close>

definition w_auth0 :: auth_config where
  "w_auth0 = \<lparr> ac_enabled = True, ac_read_token = Some ''read-token-0000001'',
     ac_write_token = Some ''write-token-000001'', ac_require_tls = False, ac_rate_limit_per_second = 10,
     ac_rate_limit_burst = 20, ac_trusted_proxies = [] \<rparr>"

definition w_auth1 :: auth_config where
  "w_auth1 = w_auth0\<lparr> ac_write_token := Some ''write-token-000002'' \<rparr>"

definition w_auth2 :: auth_config where
  "w_auth2 = w_auth0\<lparr> ac_read_token := Some ''write-token-000001'' \<rparr>"

definition w_auth_serde :: "auth_config serde" where
  "w_auth_serde = list_serde [w_auth1, w_auth2]"

definition w_auth_node :: "(string, string) hmap auth_node" where
  "w_auth_node = \<lparr> an_auth = w_auth0, an_table = [] \<rparr>"

section \<open>Facts\<close>

lemma save_auth_config_view:
  assumes "redb_contract db view" and "save_auth_config db js c t = Inr t'"
  shows "\<exists>json. sd_to_string js c = Inr json \<and> view t' = (view t)(AUTH_CONFIG_KEY \<mapsto> json)"
proof -
  obtain json tx table tx' where steps: "sd_to_string js c = Inr json" "rd_begin_write db t = Inr tx"
      "rd_open_table db tx = Inr table" "rd_insert db AUTH_CONFIG_KEY json table = Inr tx'" "rd_commit db tx' = Inr t'"
    using assms(2) by (auto simp: save_auth_config_def try_then_Ok_iff)
  then have "view tx = view t" "view table = view tx" "view tx' = (view table)(AUTH_CONFIG_KEY \<mapsto> json)" "view t' = view tx'"
    using assms(1) unfolding redb_contract_def by metis+
  with steps(1) show ?thesis by auto
qed

lemma load_auth_config_view:
  assumes "redb_contract db view" and "load_auth_config db js t = Inr r"
  shows "case view t AUTH_CONFIG_KEY of None \<Rightarrow> r = None | Some v \<Rightarrow> \<exists>c. sd_from_str js v = Inr c \<and> r = Some c"
proof -
  obtain tx table found where steps: "rd_begin_read db t = Inr tx" "rd_open_table db tx = Inr table"
      "rd_get db AUTH_CONFIG_KEY table = Inr found"
      "(case found of Some v \<Rightarrow> try_then (storage_source (sd_from_str js v)) (\<lambda>c. Inr (Some c))
        | None \<Rightarrow> Inr None) = Inr r"
    using assms(2) by (auto simp: load_auth_config_def try_then_Ok_iff)
  then have "view tx = view t" "view table = view tx" "found = view table AUTH_CONFIG_KEY"
    using assms(1) unfolding redb_contract_def by metis+
  with steps(4) show ?thesis
    by (auto simp: try_then_Ok_iff split: option.splits)
qed

lemma load_after_save:
  assumes "redb_contract db view" "serde_contract js" "save_auth_config db js c t = Inr t'"
    and "load_auth_config db js t' = Inr r"
  shows "r = Some c"
proof -
  obtain json where "sd_to_string js c = Inr json" "view t' AUTH_CONFIG_KEY = Some json"
    using save_auth_config_view [OF assms(1,3)] by auto
  then show ?thesis
    using load_auth_config_view [OF assms(1,4)] assms(2) by (auto simp: serde_contract_def)
qed

lemma authenticate_bearer:
  assumes "ac_enabled c" and "str_trim s = token" and "token \<noteq> []"
  shows "ar_permission (authenticate c (Some (''Bearer '' @ s))) =
    (if ac_write_token c = Some token then PermWrite
     else if ac_read_token c = Some token then PermRead else PermNone)"
  using assms by (simp add: authenticate_def extract_bearer_token_def strip_prefix_def token_matches_iff)

lemma rotate_token_Rotated:
  assumes "rotate_token db js production req random st = (Rotated kind token, st')"
  shows "\<not> production" "kind = ''read'' \<or> kind = ''write''" "16 \<le> length token"
    "an_auth st' = (if kind = ''read'' then (an_auth st)\<lparr> ac_read_token := Some token \<rparr>
       else (an_auth st)\<lparr> ac_write_token := Some token \<rparr>)"
    "an_table st' = (case save_auth_config db js (an_auth st') (an_table st) of Inr t \<Rightarrow> t | Inl _ \<Rightarrow> an_table st)"
  using assms
  by (auto simp: rotate_token_def validate_rotation_request_def Let_def split: if_splits sum.splits)

lemma w_auth_save:
  "save_auth_config mem_redb w_auth_serde w_auth1 [] = Inr [(AUTH_CONFIG_KEY, [])]"
  "save_auth_config mem_redb w_auth_serde w_auth2 [] = Inr [(AUTH_CONFIG_KEY, ''#'')]"
  "load_auth_config mem_redb w_auth_serde [(AUTH_CONFIG_KEY, [])] = Inr (Some w_auth1)"
  "load_auth_config mem_redb w_auth_serde [(AUTH_CONFIG_KEY, ''#'')] = Inr (Some w_auth2)"
  "load_auth_config mem_redb w_auth_serde [] = Inr None"
  by (simp_all add: save_auth_config_def load_auth_config_def mem_redb_def w_auth_serde_def list_serde_def
      hm_insert_def hm_get_def w_auth0_def w_auth1_def w_auth2_def)

lemma w_rotate:
  "rotate_token mem_redb w_auth_serde False
     (Inr \<lparr> rt_token_type = ''write'', rt_new_token = Some ''write-token-000002'' \<rparr>) [] w_auth_node =
   (Rotated ''write'' ''write-token-000002'', \<lparr> an_auth = w_auth1, an_table = [(AUTH_CONFIG_KEY, [])] \<rparr>)"
  "rotate_token mem_redb w_auth_serde False
     (Inr \<lparr> rt_token_type = ''read'', rt_new_token = Some ''write-token-000001'' \<rparr>) [] w_auth_node =
   (Rotated ''read'' ''write-token-000001'', \<lparr> an_auth = w_auth2, an_table = [(AUTH_CONFIG_KEY, ''#'')] \<rparr>)"
  by (simp_all add: rotate_token_def validate_rotation_request_def w_auth_node_def Let_def w_auth_save
      flip: w_auth1_def w_auth2_def)

lemma config_errors_http_port:
  "config_errors lib (c\<lparr> nc_proxy := (nc_proxy c)\<lparr> px_http_port := p \<rparr> \<rparr>) = config_errors lib c"
proof -
  let ?c = "c\<lparr> nc_proxy := (nc_proxy c)\<lparr> px_http_port := p \<rparr> \<rparr>"
  have "threshold_errors ?c = threshold_errors c"
    by (simp add: threshold_errors_def Let_def)
  moreover have "tls_errors ?c = tls_errors c" "admin_tls_material_configured ?c = admin_tls_material_configured c"
    "validate_admin_advertisement lib ?c = validate_admin_advertisement lib c"
    "validate_production_secret_policy lib ?c = validate_production_secret_policy lib c"
    "effective_write_auth_token ?c = effective_write_auth_token c"
    "auth_section_errors lib ?c = auth_section_errors lib c"
    by (simp_all add: admin_tls_material_configured_def tls_errors_def validate_admin_advertisement_def
        validate_production_secret_policy_def effective_write_auth_token_def auth_section_errors_def
        split: option.split)
  ultimately show ?thesis
    by (simp add: config_errors_def exposure_errors_def)
qed

lemma w_flags:
  "apply_cli_overrides (cli_overrides_of_args (args_default\<lparr> arg_config := Some ''node.toml'' \<rparr>)) legacy_config =
     legacy_config\<lparr> nc_proxy := (nc_proxy legacy_config)\<lparr> px_http_port := 8080 \<rparr> \<rparr>"
  by (simp add: apply_cli_overrides_def cli_overrides_of_args_def args_default_def apply_cli_node_def apply_cli_storage_def
      apply_cli_nats_def apply_cli_proxy_def apply_cli_admin_def apply_cli_auth_def apply_cli_runtime_def
      apply_cli_database_def apply_cli_logging_def apply_cli_billing_def apply_cli_dns_def legacy_config_def
      legacy_file_def node_config_default_def section_defaults)

lemma w_flags_load:
  "load_config legacy_boot legacy_fs legacy_env (Some ''node.toml'')
     (cli_overrides_of_args (args_default\<lparr> arg_config := Some ''node.toml'' \<rparr>)) =
   Inr (legacy_config\<lparr> nc_proxy := (nc_proxy legacy_config)\<lparr> px_http_port := 8080 \<rparr> \<rparr>)"
proof -
  have "load_file legacy_boot legacy_fs ''node.toml'' (node_config_default None) = Inr legacy_file"
    by (simp add: load_file_def legacy_boot_def legacy_fs_def merge_legacy_file)
  then show ?thesis
    unfolding load_config_Ok_iff
    by (intro exI [of _ legacy_file])
      (simp add: legacy_env_overrides w_flags validate_config_Ok_iff config_errors_http_port legacy_boot_def
        legacy_config_errors, simp add: legacy_env_def)
qed

section \<open>Properties\<close>

text \<open>
  A rotated token takes over at once and survives a restart. After a successful rotation of the
  write token, a bearer header may write if and only if its trimmed text is the new token, so the old token is
  refused, and the read token grants what it did; and when the new settings were persisted and can be read
  back, a restart on the same database outside production runs with exactly these settings, provided they pass
  validation and the TLS check.
\<close>

theorem rotated_token_takes_over:
  assumes "redb_contract db view" "serde_contract js" "ac_enabled (an_auth st)"
    and "rotate_token db js production req random st = (Rotated ''write'' token, st')"
    and "save_auth_config db js (an_auth st') (an_table st) = Inr t" "load_auth_config db js t = Inr found"
    and "auth_validate (lib_net_parse lib) (lib_net_of_ip lib) (an_auth st') = Inr ()"
    and "check_admin_tls_requirement (an_auth st') (admin_tls_is_configured c) = Inr ()"
    and "ns_environment (nc_node c) \<noteq> Production"
  shows "(\<forall>s. ar_permission (authenticate (an_auth st') (Some (''Bearer '' @ s))) =
      (if str_trim s = token then PermWrite
       else if str_trim s \<noteq> [] \<and> ac_read_token (an_auth st) = Some (str_trim s) then PermRead
       else PermNone)) \<and>
    an_table st' = t \<and> effective_auth_config lib db js c t = Inr (an_auth st')"
proof -
  note st' = rotate_token_Rotated [OF assms(4)]
  have on: "ac_enabled (an_auth st')" and toks: "ac_write_token (an_auth st') = Some token"
    "ac_read_token (an_auth st') = ac_read_token (an_auth st)"
    using st'(4) assms(3) by simp_all
  have nonempty: "token \<noteq> []"
    using st'(3) by auto
  have "ar_permission (authenticate (an_auth st') (Some (''Bearer '' @ s))) =
      (if str_trim s = token then PermWrite
       else if str_trim s \<noteq> [] \<and> ac_read_token (an_auth st) = Some (str_trim s) then PermRead
       else PermNone)" for s
  proof (cases "str_trim s = []")
    case True
    then show ?thesis
      using on nonempty by (simp add: authenticate_def extract_bearer_token_def strip_prefix_def)
  next
    case False
    then show ?thesis
      using authenticate_bearer [OF on refl False] toks by auto
  qed
  moreover have "load_auth_config db js t = Inr (Some (an_auth st'))"
    using load_after_save [OF assms(1,2,5,6)] assms(6) by simp
  then have "effective_auth_config lib db js c t = Inr (an_auth st')"
    using assms(7-9) by (simp add: effective_auth_config_def Let_def)
  ultimately show ?thesis
    using st'(5) assms(5) by simp
qed

theorem rotated_token_takes_over_witness:
  "ar_permission (authenticate w_auth1 (Some ''Bearer write-token-000002'')) = PermWrite \<and>
   ar_permission (authenticate w_auth1 (Some ''Bearer write-token-000001'')) = PermNone \<and>
   effective_auth_config sample_libs mem_redb w_auth_serde legacy_config [(AUTH_CONFIG_KEY, [])] = Inr w_auth1"
proof -
  have valid: "auth_validate (lib_net_parse sample_libs) (lib_net_of_ip sample_libs) w_auth1 = Inr ()"
    "check_admin_tls_requirement w_auth1 (admin_tls_is_configured legacy_config) = Inr ()"
    "ns_environment (nc_node legacy_config) \<noteq> Production"
    by (simp_all add: auth_validate_def w_auth1_def w_auth0_def trusted_proxy_nets_def
        check_admin_tls_requirement_def legacy_sections node_section_default_def)
  have trim: "str_trim ''write-token-000002'' = ''write-token-000002''" "str_trim ''write-token-000001'' = ''write-token-000001''"
    by (simp_all add: str_trim_def is_whitespace_def)
  have en: "ac_enabled (an_auth w_auth_node)" "ac_read_token (an_auth w_auth_node) = Some ''read-token-0000001''"
    by (simp_all add: w_auth_node_def w_auth0_def)
  have tab: "an_table w_auth_node = []" by (simp add: w_auth_node_def)
  have serde: "serde_contract w_auth_serde"
    by (simp add: w_auth_serde_def list_serde_contract)
  note main = rotated_token_takes_over [OF mem_redb_contract serde en(1) w_rotate(1), of
      "[(AUTH_CONFIG_KEY, [])]" "Some w_auth1" sample_libs legacy_config]
  show ?thesis
    using main by (simp add: w_auth_save tab valid en trim)
qed

text \<open>
  The reload on \<open>SIGHUP\<close> knows neither the legacy token nor the flags. A node that runs with a legacy
  admin token admits no anonymous request; after one \<open>SIGHUP\<close> with the same file and environment, every
  request may write, with or without a token.
\<close>

theorem sighup_opens_admin_api:
  assumes "load_config B fs env (Some path) cli = Inr c"
    and "\<not> au_enabled (nc_auth c)" "cli_auth_enabled cli = None"
    and "ad_auth_token (nc_admin c) = Some token" "16 \<le> length token"
    and "load_auth_config db js t = Inr None"
    and "load_config B fs env (Some path) cli_overrides_default = Inr c0"
  shows "\<exists>auth. effective_auth_config (bt_libs B) db js c t = Inr auth \<and>
    ar_permission (authenticate auth None) = PermNone \<and>
    (\<forall>header. ar_permission (authenticate (sighup_reload B fs env (Some path) auth) header) = PermWrite)"
proof -
  have "auth_validate (lib_net_parse (bt_libs B)) (lib_net_of_ip (bt_libs B)) (from_legacy_token token) = Inr ()"
    using assms(5) by (simp add: auth_validate_def from_legacy_token_def trusted_proxy_nets_def collect_results_Ok_iff
        try_then_Ok_iff)
  then have start: "effective_auth_config (bt_libs B) db js c t = Inr (from_legacy_token token)"
    using assms(2,4,6) by (simp add: effective_auth_config_def configured_auth_def Let_def
        check_admin_tls_requirement_def from_legacy_token_def)
  have off: "\<not> au_enabled (nc_auth c0)"
  proof -
    obtain config where config:
      "(case Some path of None \<Rightarrow> Ok (node_config_default (env ''NODE_ID''))
        | Some path \<Rightarrow> load_file B fs path (node_config_default (env ''NODE_ID''))) = Inr config"
      "c = apply_cli_overrides cli (apply_env_overrides (bt_json_strings B) env config)"
      using assms(1) load_config_Ok_iff by blast
    moreover obtain config0 where
      "(case Some path of None \<Rightarrow> Ok (node_config_default (env ''NODE_ID''))
        | Some path \<Rightarrow> load_file B fs path (node_config_default (env ''NODE_ID''))) = Inr config0"
      "c0 = apply_cli_overrides cli_overrides_default (apply_env_overrides (bt_json_strings B) env config0)"
      using assms(7) load_config_Ok_iff by blast
    ultimately have "au_enabled (nc_auth c0) = au_enabled (nc_auth c)"
      using assms(3) by (simp add: apply_cli_overrides_def apply_cli_auth_def cli_overrides_default_def)
    then show ?thesis
      using assms(2) by simp
  qed
  then have "sighup_reload B fs env (Some path) auth = auth_config_of_section (nc_auth c0)" for auth
    using assms(7) by (simp add: sighup_reload_def Let_def auth_validate_def auth_config_of_section_def)
  then have "ar_permission (authenticate (sighup_reload B fs env (Some path) auth) header) = PermWrite" for auth header
    using off by (simp add: authenticate_def auth_config_of_section_def)
  moreover have "ar_permission (authenticate (from_legacy_token token) None) = PermNone"
    by (simp add: authenticate_def from_legacy_token_def extract_bearer_token_def)
  ultimately show ?thesis
    using start by blast
qed

theorem sighup_opens_admin_api_witness:
  "\<exists>auth. effective_auth_config sample_libs mem_redb w_auth_serde legacy_config [] = Inr auth \<and>
     ar_permission (authenticate auth None) = PermNone \<and>
     ar_permission (authenticate (sighup_reload legacy_boot legacy_fs legacy_env (Some ''node.toml'') auth) None) =
       PermWrite"
proof -
  have "\<not> au_enabled (nc_auth legacy_config)" "cli_auth_enabled cli_overrides_default = None"
    "ad_auth_token (nc_admin legacy_config) = Some ''legacy-admin-token''" "16 \<le> length ''legacy-admin-token''"
    "bt_libs legacy_boot = sample_libs"
    by (simp_all add: legacy_sections auth_section_default_def cli_overrides_default_def legacy_boot_def)
  with sighup_opens_admin_api [OF legacy_load _ _ _ _ w_auth_save(5) legacy_load]
  show ?thesis by metis
qed

text \<open>
  Flags with a default value always win. Whatever the file and the environment say, the ports of the
  proxy and the admin interface, the range of instance ports, the database section, the log level and the billing
  interval are those of the parsed command line, whose defaults stand in when no flag is given.
\<close>

theorem flag_defaults_shadow_file:
  assumes "load_config B fs env config_path (cli_overrides_of_args args) = Inr c"
  shows "px_http_port (nc_proxy c) = arg_proxy_port args \<and> px_https_port (nc_proxy c) = arg_proxy_https_port args \<and>
    ad_port (nc_admin c) = arg_admin_port args \<and> ad_artifact_port (nc_admin c) = arg_artifact_port args \<and>
    ad_deploy_ingress_port (nc_admin c) = arg_deploy_ingress_port args \<and>
    rt_port_start (nc_runtime c) = arg_port_start args \<and> rt_port_end (nc_runtime c) = arg_port_end args \<and>
    nc_database c = \<lparr> db_default_url = arg_database_url args, db_pgbouncer_addr = arg_pgbouncer_addr args,
      db_enable_db_proxy = arg_enable_db_proxy args, db_db_proxy_addr = arg_db_proxy_addr args,
      db_db_proxy_backend = arg_db_backend_addr args,
      db_db_proxy_max_connections = arg_db_proxy_max_connections args \<rparr> \<and>
    lg_level (nc_logging c) = arg_log_level args \<and>
    bl_export_interval_secs (nc_billing c) = arg_billing_export_interval_secs args"
proof -
  obtain config where "c = apply_cli_overrides (cli_overrides_of_args args) config"
    using assms load_config_Ok_iff by blast
  then show ?thesis
    by (simp add: apply_cli_overrides_def apply_cli_proxy_def apply_cli_admin_def apply_cli_runtime_def
        apply_cli_database_def apply_cli_logging_def apply_cli_billing_def cli_overrides_of_args_def)
qed

theorem flag_defaults_shadow_file_witness:
  "px_http_port (nc_proxy legacy_file) = 80 \<and>
   (\<exists>c. load_config legacy_boot legacy_fs legacy_env (Some ''node.toml'')
      (cli_overrides_of_args (args_default\<lparr> arg_config := Some ''node.toml'' \<rparr>)) = Inr c \<and>
    px_http_port (nc_proxy c) = 8080)"
proof -
  have "px_http_port (nc_proxy legacy_file) = 80"
    by (simp add: legacy_file_def)
  moreover have "arg_proxy_port (args_default\<lparr> arg_config := Some ''node.toml'' \<rparr>) = 8080"
    by (simp add: args_default_def)
  ultimately show ?thesis
    using flag_defaults_shadow_file [OF w_flags_load] w_flags_load by metis
qed

text \<open>
  A rotation can make the next start fail. The rotation accepts a read token equal to the current
  write token and persists the settings; every later start outside production on that database fails
  validation, whatever the configuration.
\<close>

theorem equal_rotation_blocks_restart:
  assumes "redb_contract db view" "serde_contract js" "ac_enabled (an_auth st)"
    and "ac_write_token (an_auth st) = Some token" "16 \<le> length token"
    and "rotate_token db js False (Inr \<lparr> rt_token_type = ''read'', rt_new_token = Some token \<rparr>) random st = (response, st')"
    and "save_auth_config db js (an_auth st') (an_table st) = Inr t" "load_auth_config db js t = Inr found"
    and "ns_environment (nc_node c) \<noteq> Production"
  shows "response = Rotated ''read'' token \<and> an_table st' = t \<and>
    effective_auth_config lib db js c (an_table st') = Inl (InvalidAuth TokensEqual)"
proof -
  have "validate_rotation_request random \<lparr> rt_token_type = ''read'', rt_new_token = Some token \<rparr> = Inr token"
    using assms(5) by (simp add: validate_rotation_request_def)
  then have response: "response = Rotated ''read'' token"
    using assms(6) by (auto simp: rotate_token_def Let_def)
  note st' = rotate_token_Rotated [OF assms(6) [unfolded response]]
  have "auth_validate (lib_net_parse lib) (lib_net_of_ip lib) (an_auth st') = Inl TokensEqual"
    using st'(4) assms(3,4) by (simp add: auth_validate_def)
  moreover have "load_auth_config db js t = Inr (Some (an_auth st'))"
    using load_after_save [OF assms(1,2,7,8)] assms(8) by simp
  ultimately have "effective_auth_config lib db js c t = Inl (InvalidAuth TokensEqual)"
    using assms(9) by (simp add: effective_auth_config_def Let_def)
  then show ?thesis
    using response st'(5) assms(7) by simp
qed

theorem equal_rotation_blocks_restart_witness:
  "effective_auth_config sample_libs mem_redb w_auth_serde legacy_config [(AUTH_CONFIG_KEY, ''#'')] =
     Inl (InvalidAuth TokensEqual)"
proof -
  have facts: "ac_enabled (an_auth w_auth_node)" "ac_write_token (an_auth w_auth_node) = Some ''write-token-000001''"
    "16 \<le> length ''write-token-000001''" "ns_environment (nc_node legacy_config) \<noteq> Production"
    "serde_contract w_auth_serde" "an_table w_auth_node = []"
    by (simp_all add: w_auth_node_def w_auth0_def legacy_sections node_section_default_def w_auth_serde_def
        list_serde_contract)
  show ?thesis
    using equal_rotation_blocks_restart [OF mem_redb_contract facts(5,1,2,3) w_rotate(2), of
        "[(AUTH_CONFIG_KEY, ''#'')]" "Some w_auth2" legacy_config sample_libs]
    by (simp add: w_auth_save facts)
qed

end
