(* ===== verification/Hot_Config.thy ===== *)
theory Hot_Config
  imports Config_Validation Route_Store
begin

text \<open>
  Settings that change at run time (\<open>crates/config/src/hot.rs\<close>, the second validator of \<open>validation.rs\<close>,
  \<open>crates/storage/src/management_state.rs\<close> and the handlers of \<open>/admin/config\<close> in \<open>crates/node/src/main.rs\<close>). An
  update holds the write lock from the read of the current settings to their replacement, so it is one
  step. Access to the fields of a JSON body (crate \<open>serde_json\<close>) is a parameter.
\<close>

section \<open>Metadata table\<close>

definition save_meta :: "'t redb \<Rightarrow> string \<Rightarrow> string \<Rightarrow> 't \<Rightarrow> (string, 't) result" where
  "save_meta db key value t =
     try_then (rd_begin_write db t) (\<lambda>tx.
     try_then (rd_open_table db tx) (\<lambda>table.
     try_then (rd_insert db key value table) (\<lambda>tx'.
     rd_commit db tx')))"

definition load_meta :: "'t redb \<Rightarrow> string \<Rightarrow> 't \<Rightarrow> (string, string option) result" where
  "load_meta db key t =
     try_then (rd_begin_read db t) (\<lambda>tx.
     try_then (rd_open_table db tx) (\<lambda>table.
     rd_get db key table))"

definition delete_meta :: "'t redb \<Rightarrow> string \<Rightarrow> 't \<Rightarrow> (string, 't) result" where
  "delete_meta db key t =
     try_then (rd_begin_write db t) (\<lambda>tx.
     try_then (rd_open_table db tx) (\<lambda>table.
     try_then (rd_remove db key table) (\<lambda>tx'.
     rd_commit db tx')))"

section \<open>Settings and their validation\<close>

definition HOT_CONFIG_KEY :: string where
  "HOT_CONFIG_KEY = ''hot_config_overrides''"

record hot_config =
  hc_rate_limit :: rate_limit_section
  hc_ebpf :: ebpf_section
  hc_gc :: gc_section
  hc_health :: health_section
  hc_logging :: logging_section

definition from_cold_config :: "node_config \<Rightarrow> hot_config" where
  "from_cold_config cold = \<lparr> hc_rate_limit = nc_rate_limit cold, hc_ebpf = nc_ebpf cold, hc_gc = nc_gc cold,
     hc_health = nc_health cold, hc_logging = nc_logging cold \<rparr>"

definition hot_errors :: "hot_config \<Rightarrow> config_error list" where
  "hot_errors h =
     fail_if (\<not> List.member valid_levels (lg_level (hc_logging h))) (InvalidLogLevel (lg_level (hc_logging h))) @
     fail_if (f64_le (gc_disk_warning_threshold (hc_gc h)) (F64 0) \<or>
         f64_gt (gc_disk_warning_threshold (hc_gc h)) (F64 1)) DiskThresholdOutOfRange @
     fail_if (gc_artifact_keep_versions (hc_gc h) = 0) (MustBePositive ''artifact_keep_versions'') @
     fail_if (eb_fd_soft_limit (hc_ebpf h) \<ge> eb_fd_hard_limit (hc_ebpf h)) FdLimitsInverted @
     fail_if (eb_mem_low_threshold_pages (hc_ebpf h) \<le> eb_mem_critical_threshold_pages (hc_ebpf h))
       MemThresholdsInverted @
     fail_if (he_check_interval_secs (hc_health h) = 0) (MustBePositive ''check_interval_secs'') @
     fail_if (he_default_fuel_quota (hc_health h) = 0) (MustBePositive ''default_fuel_quota'') @
     fail_if (he_default_memory_pages (hc_health h) = 0) (MustBePositive ''default_memory_pages'') @
     fail_if (he_default_max_instances (hc_health h) = 0) (MustBePositive ''default_max_instances'') @
     fail_if (he_min_disk_free_bytes (hc_health h) = 0) (MustBePositive ''min_disk_free_bytes'') @
     fail_if (he_min_disk_free_inodes (hc_health h) = 0) (MustBePositive ''min_disk_free_inodes'') @
     fail_if (he_max_memory_bytes (hc_health h) = 0) (MustBePositive ''max_memory_bytes'') @
     fail_if (case default_pool_bytes (hc_health h) of None \<Rightarrow> True | Some b \<Rightarrow> b > he_max_memory_bytes (hc_health h))
       PoolExceedsMemory @
     fail_if (rl_default_requests_per_second (hc_rate_limit h) = 0) (MustBePositive ''default_requests_per_second'')"

definition validate_hot_config :: "hot_config \<Rightarrow> (config_error list, unit) result" where
  "validate_hot_config h = (let errors = hot_errors h in if errors \<noteq> [] then Err errors else Ok ())"

section \<open>Updates\<close>

record hot_config_update =
  hu_rate_limit_default_rps :: "u32 option"
  hu_rate_limit_default_burst :: "u32 option"
  hu_rate_limit_default_per_ip :: "u32 option"
  hu_ebpf_fd_soft_limit :: "u32 option"
  hu_ebpf_fd_hard_limit :: "u32 option"
  hu_ebpf_mem_low_threshold_pages :: "u64 option"
  hu_ebpf_mem_critical_threshold_pages :: "u64 option"
  hu_ebpf_disk_slow_threshold_ns :: "u64 option"
  hu_ebpf_tcp_conn_limit_per_pid :: "u32 option"
  hu_ebpf_syscall_rate_limit :: "u64 option"
  hu_gc_interval_secs :: "u64 option"
  hu_gc_disk_warning_threshold :: "f64 option"
  hu_health_check_interval_secs :: "u64 option"
  hu_health_default_idle_timeout_secs :: "u64 option"
  hu_logging_level :: "string option"

definition some_count :: "'a option \<Rightarrow> nat" where
  "some_count v = (case v of Some _ \<Rightarrow> 1 | None \<Rightarrow> 0)"

definition count_changes :: "hot_config_update \<Rightarrow> nat" where
  "count_changes u =
     some_count (hu_rate_limit_default_rps u) + some_count (hu_rate_limit_default_burst u) +
     some_count (hu_rate_limit_default_per_ip u) + some_count (hu_ebpf_fd_soft_limit u) +
     some_count (hu_ebpf_fd_hard_limit u) + some_count (hu_ebpf_mem_low_threshold_pages u) +
     some_count (hu_ebpf_mem_critical_threshold_pages u) + some_count (hu_ebpf_disk_slow_threshold_ns u) +
     some_count (hu_ebpf_tcp_conn_limit_per_pid u) + some_count (hu_ebpf_syscall_rate_limit u) +
     some_count (hu_gc_interval_secs u) + some_count (hu_gc_disk_warning_threshold u) +
     some_count (hu_health_check_interval_secs u) + some_count (hu_health_default_idle_timeout_secs u) +
     some_count (hu_logging_level u)"

definition merge_hot_config_update :: "hot_config \<Rightarrow> hot_config_update \<Rightarrow> hot_config" where
  "merge_hot_config_update base u = base\<lparr>
     hc_rate_limit := (let s = hc_rate_limit base in s\<lparr>
       rl_default_requests_per_second := unwrap_or (hu_rate_limit_default_rps u) (rl_default_requests_per_second s),
       rl_default_burst_capacity := unwrap_or (hu_rate_limit_default_burst u) (rl_default_burst_capacity s),
       rl_default_per_ip_limit := unwrap_or (hu_rate_limit_default_per_ip u) (rl_default_per_ip_limit s) \<rparr>),
     hc_ebpf := (let s = hc_ebpf base in s\<lparr>
       eb_fd_soft_limit := unwrap_or (hu_ebpf_fd_soft_limit u) (eb_fd_soft_limit s),
       eb_fd_hard_limit := unwrap_or (hu_ebpf_fd_hard_limit u) (eb_fd_hard_limit s),
       eb_mem_low_threshold_pages := unwrap_or (hu_ebpf_mem_low_threshold_pages u) (eb_mem_low_threshold_pages s),
       eb_mem_critical_threshold_pages :=
         unwrap_or (hu_ebpf_mem_critical_threshold_pages u) (eb_mem_critical_threshold_pages s),
       eb_disk_slow_threshold_ns := unwrap_or (hu_ebpf_disk_slow_threshold_ns u) (eb_disk_slow_threshold_ns s),
       eb_tcp_conn_limit_per_pid := unwrap_or (hu_ebpf_tcp_conn_limit_per_pid u) (eb_tcp_conn_limit_per_pid s),
       eb_syscall_rate_limit := unwrap_or (hu_ebpf_syscall_rate_limit u) (eb_syscall_rate_limit s) \<rparr>),
     hc_gc := (let s = hc_gc base in s\<lparr>
       gc_gc_interval_secs := unwrap_or (hu_gc_interval_secs u) (gc_gc_interval_secs s),
       gc_disk_warning_threshold := unwrap_or (hu_gc_disk_warning_threshold u) (gc_disk_warning_threshold s) \<rparr>),
     hc_health := (let s = hc_health base in s\<lparr>
       he_check_interval_secs := unwrap_or (hu_health_check_interval_secs u) (he_check_interval_secs s),
       he_default_idle_timeout_secs :=
         unwrap_or (hu_health_default_idle_timeout_secs u) (he_default_idle_timeout_secs s) \<rparr>),
     hc_logging := (let s = hc_logging base in s\<lparr>
       lg_level := unwrap_or (hu_logging_level u) (lg_level s) \<rparr>) \<rparr>"

definition merge_hot_config :: "hot_config \<Rightarrow> hot_config \<Rightarrow> hot_config" where
  "merge_hot_config base overlay = overlay"

section \<open>The handle\<close>

record 't hot_handle =
  hh_inner :: hot_config
  hh_cold :: hot_config
  hh_store :: 't
  hh_node_id :: string

datatype hot_error = HotInvalid "config_error list" | HotStorage string

definition hot_new ::
  "'t redb \<Rightarrow> hot_config serde \<Rightarrow> node_config \<Rightarrow> 't \<Rightarrow> string \<Rightarrow> (hot_error, 't hot_handle) result" where
  "hot_new db js cold_config store node_id =
     (let cold = from_cold_config cold_config
      in try_then
           (case load_meta db HOT_CONFIG_KEY store of
              Inr (Some json) \<Rightarrow>
                (case sd_from_str js json of
                   Inl e \<Rightarrow> Err (HotStorage e)
                 | Inr overrides \<Rightarrow> Ok (merge_hot_config cold overrides))
            | _ \<Rightarrow> Ok cold)
           (\<lambda>hot. Ok \<lparr> hh_inner = hot, hh_cold = cold, hh_store = store, hh_node_id = node_id \<rparr>))"

definition hot_read :: "'t hot_handle \<Rightarrow> hot_config" where
  "hot_read h = hh_inner h"

definition apply_update ::
  "'t redb \<Rightarrow> hot_config serde \<Rightarrow> hot_config_update \<Rightarrow> 't hot_handle \<Rightarrow> (hot_error, unit) result \<times> 't hot_handle" where
  "apply_update db js u h =
     (let updated = merge_hot_config_update (hh_inner h) u
      in case validate_hot_config updated of
           Inl errors \<Rightarrow> (Err (HotInvalid errors), h)
         | Inr _ \<Rightarrow>
             (case sd_to_string js updated of
                Inl e \<Rightarrow> (Err (HotStorage e), h)
              | Inr json \<Rightarrow>
                  (case save_meta db HOT_CONFIG_KEY json (hh_store h) of
                     Inl e \<Rightarrow> (Err (HotStorage e), h)
                   | Inr store \<Rightarrow> (Ok (), h\<lparr> hh_store := store, hh_inner := updated \<rparr>))))"

definition hot_reset :: "'t redb \<Rightarrow> 't hot_handle \<Rightarrow> (hot_error, unit) result \<times> 't hot_handle" where
  "hot_reset db h =
     (case delete_meta db HOT_CONFIG_KEY (hh_store h) of
        Inl e \<Rightarrow> (Err (HotStorage e), h)
      | Inr store \<Rightarrow> (Ok (), h\<lparr> hh_store := store, hh_inner := hh_cold h \<rparr>))"

section \<open>Admin handlers\<close>

record json_body =
  jb_u64 :: "string \<Rightarrow> u64 option"
  jb_f64 :: "string \<Rightarrow> f64 option"
  jb_str :: "string \<Rightarrow> string option"

text \<open>\<open>v as u32\<close> keeps the low 32 bits.\<close>

definition jb_u32 :: "json_body \<Rightarrow> string \<Rightarrow> u32 option" where
  "jb_u32 raw key = map_option ucast (jb_u64 raw key)"

definition hot_update_of_body :: "json_body \<Rightarrow> hot_config_update" where
  "hot_update_of_body raw = \<lparr>
     hu_rate_limit_default_rps = jb_u32 raw ''rate_limit_default_rps'',
     hu_rate_limit_default_burst = jb_u32 raw ''rate_limit_default_burst'',
     hu_rate_limit_default_per_ip = jb_u32 raw ''rate_limit_default_per_ip'',
     hu_ebpf_fd_soft_limit = jb_u32 raw ''ebpf_fd_soft_limit'',
     hu_ebpf_fd_hard_limit = jb_u32 raw ''ebpf_fd_hard_limit'',
     hu_ebpf_mem_low_threshold_pages = jb_u64 raw ''ebpf_mem_low_threshold_pages'',
     hu_ebpf_mem_critical_threshold_pages = jb_u64 raw ''ebpf_mem_critical_threshold_pages'',
     hu_ebpf_disk_slow_threshold_ns = jb_u64 raw ''ebpf_disk_slow_threshold_ns'',
     hu_ebpf_tcp_conn_limit_per_pid = jb_u32 raw ''ebpf_tcp_conn_limit_per_pid'',
     hu_ebpf_syscall_rate_limit = jb_u64 raw ''ebpf_syscall_rate_limit'',
     hu_gc_interval_secs = jb_u64 raw ''gc_interval_secs'',
     hu_gc_disk_warning_threshold = jb_f64 raw ''gc_disk_warning_threshold'',
     hu_health_check_interval_secs = jb_u64 raw ''health_check_interval_secs'',
     hu_health_default_idle_timeout_secs = jb_u64 raw ''health_default_idle_timeout_secs'',
     hu_logging_level = jb_str raw ''logging_level'' \<rparr>"

datatype patch_response = NoChanges | Updated nat | Rejected hot_error

text \<open>The second component is the log level passed to the reload handle.\<close>

definition patch_config ::
  "'t redb \<Rightarrow> hot_config serde \<Rightarrow> json_body \<Rightarrow> 't hot_handle \<Rightarrow> (patch_response \<times> string option) \<times> 't hot_handle" where
  "patch_config db js raw h =
     (let update = hot_update_of_body raw
      in if count_changes update = 0 then ((NoChanges, None), h)
         else (case apply_update db js update h of
             (Inr _, h') \<Rightarrow> ((Updated (count_changes update), hu_logging_level update), h')
           | (Inl e, h') \<Rightarrow> ((Rejected e, None), h')))"

section \<open>Runs\<close>

text \<open>
  A run of a node with one configuration: a start on a store without overrides, then patches, resets and restarts
  on the store reached so far. The first argument after the configuration is the history the store should hold: the
  settings of the last accepted patch, if no reset succeeded since. A restart may fail to read the store.
\<close>

inductive hot_run ::
  "'t redb \<Rightarrow> hot_config serde \<Rightarrow> ('t \<Rightarrow> string \<Rightarrow> string option) \<Rightarrow> node_config \<Rightarrow>
   hot_config option \<Rightarrow> 't hot_handle \<Rightarrow> bool"
  for db js view c where
  Boot: "view t HOT_CONFIG_KEY = None \<Longrightarrow> hot_new db js c t node_id = Inr h \<Longrightarrow> hot_run db js view c None h"
| Patch: "hot_run db js view c accepted h \<Longrightarrow> jb_f64 raw ''gc_disk_warning_threshold'' \<noteq> Some NaN \<Longrightarrow>
    patch_config db js raw h = ((r, l), h') \<Longrightarrow>
    hot_run db js view c (case r of Updated _ \<Rightarrow> Some (hot_read h') | _ \<Rightarrow> accepted) h'"
| Reset: "hot_run db js view c accepted h \<Longrightarrow> hot_reset db h = (r, h') \<Longrightarrow>
    hot_run db js view c (case r of Inr _ \<Rightarrow> None | Inl _ \<Rightarrow> accepted) h'"
| Restart: "hot_run db js view c accepted h \<Longrightarrow> hot_new db js c (hh_store h) node_id = Inr h' \<Longrightarrow>
    hot_run db js view c accepted h'"

text \<open>
  What the code relies on in \<open>serde_json\<close>: settings whose threshold is a finite number read back, with that
  number as the parser reads its decimal digits (without the feature \<open>float_roundtrip\<close>, which the workspace does
  not enable, the last digits may differ); any other number is written as \<open>null\<close>, which is refused where a number is
  expected.
\<close>

definition reread_settings :: "(rat \<Rightarrow> rat) \<Rightarrow> hot_config \<Rightarrow> hot_config" where
  "reread_settings reread h = h\<lparr> hc_gc := (hc_gc h)\<lparr> gc_disk_warning_threshold :=
     (case gc_disk_warning_threshold (hc_gc h) of F64 q \<Rightarrow> F64 (reread q) | x \<Rightarrow> x) \<rparr> \<rparr>"

definition hot_serde_contract :: "hot_config serde \<Rightarrow> (rat \<Rightarrow> rat) \<Rightarrow> bool" where
  "hot_serde_contract js reread \<longleftrightarrow>
     (\<forall>h s. sd_to_string js h = Inr s \<longrightarrow>
        (case gc_disk_warning_threshold (hc_gc h) of
           F64 q \<Rightarrow> sd_from_str js s = Inr (reread_settings reread h)
         | _ \<Rightarrow> \<exists>e. sd_from_str js s = Inl e))"

definition keeps_fractions :: "(rat \<Rightarrow> rat) \<Rightarrow> bool" where
  "keeps_fractions reread \<longleftrightarrow> (\<forall>q. 0 < q \<and> q \<le> 1 \<longrightarrow> 0 < reread q \<and> reread q \<le> 1)"

text \<open>The settings are valid and finite, and the store holds those of the last accepted patch.\<close>

definition hot_inv ::
  "hot_config serde \<Rightarrow> ('t \<Rightarrow> string \<Rightarrow> string option) \<Rightarrow> (rat \<Rightarrow> rat) \<Rightarrow> node_config \<Rightarrow>
   hot_config option \<Rightarrow> 't hot_handle \<Rightarrow> bool" where
  "hot_inv js view reread c accepted h \<longleftrightarrow>
     hot_errors (hh_inner h) = [] \<and> gc_disk_warning_threshold (hc_gc (hh_inner h)) \<noteq> NaN \<and>
     hh_cold h = from_cold_config c \<and>
     (case accepted of
        None \<Rightarrow> view (hh_store h) HOT_CONFIG_KEY = None
      | Some s \<Rightarrow> hot_errors s = [] \<and> gc_disk_warning_threshold (hc_gc s) \<noteq> NaN \<and>
          (\<exists>json. view (hh_store h) HOT_CONFIG_KEY = Some json \<and> sd_from_str js json = Inr (reread_settings reread s)))"

section \<open>Sample settings\<close>

definition finite_serde :: "hot_config list \<Rightarrow> hot_config serde" where
  "finite_serde xs = \<lparr>
     sd_to_string = (\<lambda>h. case gc_disk_warning_threshold (hc_gc h) of
        F64 _ \<Rightarrow> sd_to_string (list_serde xs) h | _ \<Rightarrow> Inr ''null''),
     sd_from_str = (\<lambda>s. if s = ''null'' then Inl ''invalid type: null, expected f64''
        else sd_from_str (list_serde xs) s) \<rparr>"

definition w_body :: json_body where
  "w_body = \<lparr> jb_u64 = (\<lambda>_. None), jb_f64 = (\<lambda>_. None),
     jb_str = (\<lambda>key. if key = ''logging_level'' then Some ''debug'' else None) \<rparr>"

definition w_hot :: hot_config where
  "w_hot = (from_cold_config (node_config_default None))\<lparr> hc_logging := logging_section_default\<lparr> lg_level := ''debug'' \<rparr> \<rparr>"

definition w_cold_handle :: "node_config \<Rightarrow> (string, string) hmap hot_handle" where
  "w_cold_handle c = \<lparr> hh_inner = from_cold_config c, hh_cold = from_cold_config c, hh_store = [], hh_node_id = ''node-0'' \<rparr>"

definition w_nan_config :: node_config where
  "w_nan_config = (node_config_default None)\<lparr> nc_gc := (nc_gc (node_config_default None))\<lparr> gc_disk_warning_threshold := NaN \<rparr> \<rparr>"

section \<open>Facts\<close>

lemma hot_errors_cold: "hot_errors (from_cold_config c) = threshold_errors c"
  by (simp add: hot_errors_def threshold_errors_def from_cold_config_def Let_def cong: option.case_cong)

lemma validate_hot_config_Ok_iff: "validate_hot_config h = Inr () \<longleftrightarrow> hot_errors h = []"
  by (simp add: validate_hot_config_def Let_def)

lemma cold_config_hot_valid: "validate_config lib c = Inr () \<Longrightarrow> hot_errors (from_cold_config c) = []"
  by (simp add: validate_config_Ok_iff config_errors_def hot_errors_cold)

lemma valid_threshold_finite:
  assumes "hot_errors h = []" and "gc_disk_warning_threshold (hc_gc h) \<noteq> NaN"
  shows "\<exists>q. gc_disk_warning_threshold (hc_gc h) = F64 q"
proof -
  have "\<not> f64_le (gc_disk_warning_threshold (hc_gc h)) (F64 0)" "\<not> f64_gt (gc_disk_warning_threshold (hc_gc h)) (F64 1)"
    using assms(1) by (simp_all add: hot_errors_def fail_if_Nil)
  with assms(2) show ?thesis
    by (cases "gc_disk_warning_threshold (hc_gc h)") (simp_all add: f64_gt_def)
qed

lemma save_meta_view:
  assumes "redb_contract db view" and "save_meta db key value t = Inr t'"
  shows "view t' = (view t)(key \<mapsto> value)"
proof -
  obtain tx table tx' where "rd_begin_write db t = Inr tx" "rd_open_table db tx = Inr table"
      "rd_insert db key value table = Inr tx'" "rd_commit db tx' = Inr t'"
    using assms(2) by (auto simp: save_meta_def try_then_Ok_iff)
  then show ?thesis
    using assms(1) unfolding redb_contract_def by metis
qed

lemma delete_meta_view:
  assumes "redb_contract db view" and "delete_meta db key t = Inr t'"
  shows "view t' = (view t)(key := None)"
proof -
  obtain tx table tx' where "rd_begin_write db t = Inr tx" "rd_open_table db tx = Inr table"
      "rd_remove db key table = Inr tx'" "rd_commit db tx' = Inr t'"
    using assms(2) by (auto simp: delete_meta_def try_then_Ok_iff)
  then show ?thesis
    using assms(1) unfolding redb_contract_def by metis
qed

lemma load_meta_view:
  assumes "redb_contract db view" and "load_meta db key t = Inr r"
  shows "r = view t key"
proof -
  obtain tx table where "rd_begin_read db t = Inr tx" "rd_open_table db tx = Inr table" "rd_get db key table = Inr r"
    using assms(2) by (auto simp: load_meta_def try_then_Ok_iff)
  then show ?thesis
    using assms(1) unfolding redb_contract_def by metis
qed

lemma apply_update_Ok:
  assumes "apply_update db js u h = (Inr x, h')"
  obtains json store where "hot_errors (merge_hot_config_update (hh_inner h) u) = []"
    "sd_to_string js (merge_hot_config_update (hh_inner h) u) = Inr json"
    "save_meta db HOT_CONFIG_KEY json (hh_store h) = Inr store"
    "h' = h\<lparr> hh_store := store, hh_inner := merge_hot_config_update (hh_inner h) u \<rparr>"
  using assms
  by (auto simp: apply_update_def Let_def validate_hot_config_def split: sum.splits if_splits)

lemma apply_update_Err: "apply_update db js u h = (Inl e, h') \<Longrightarrow> h' = h"
  by (auto simp: apply_update_def Let_def split: sum.splits)

lemma merge_threshold:
  "gc_disk_warning_threshold (hc_gc (merge_hot_config_update h u)) =
     unwrap_or (hu_gc_disk_warning_threshold u) (gc_disk_warning_threshold (hc_gc h))"
  by (simp add: merge_hot_config_update_def Let_def)

lemma reread_valid:
  assumes "keeps_fractions reread" "hot_errors h = []" "gc_disk_warning_threshold (hc_gc h) \<noteq> NaN"
  shows "hot_errors (reread_settings reread h) = []"
    "gc_disk_warning_threshold (hc_gc (reread_settings reread h)) \<noteq> NaN"
proof -
  obtain q where q: "gc_disk_warning_threshold (hc_gc h) = F64 q"
    using valid_threshold_finite [OF assms(2,3)] by blast
  have "0 < q" "q \<le> 1"
    using assms(2) q by (auto simp: hot_errors_def fail_if_Nil f64_gt_def)
  then have "0 < reread q" "reread q \<le> 1"
    using assms(1) by (auto simp: keeps_fractions_def)
  with assms(2) q show "hot_errors (reread_settings reread h) = []"
    unfolding hot_errors_def append_is_Nil_conv fail_if_Nil
    by (simp add: reread_settings_def f64_gt_def cong: option.case_cong)
  from q show "gc_disk_warning_threshold (hc_gc (reread_settings reread h)) \<noteq> NaN"
    by (simp add: reread_settings_def)
qed

lemma hot_new_inv:
  assumes "redb_contract db view" and "hot_inv js view reread c accepted h"
  shows "hot_new db js c (hh_store h) node_id =
    Inr \<lparr> hh_inner = (case load_meta db HOT_CONFIG_KEY (hh_store h) of
          Inl _ \<Rightarrow> from_cold_config c
        | Inr _ \<Rightarrow> (case accepted of None \<Rightarrow> from_cold_config c | Some s \<Rightarrow> reread_settings reread s)),
      hh_cold = from_cold_config c, hh_store = hh_store h, hh_node_id = node_id \<rparr>"
proof (cases "load_meta db HOT_CONFIG_KEY (hh_store h)")
  case (Inl e)
  then show ?thesis
    by (simp add: hot_new_def Let_def)
next
  case (Inr r)
  then show ?thesis
    using assms(2) load_meta_view [OF assms(1) Inr]
    by (auto simp: hot_new_def hot_inv_def Let_def merge_hot_config_def split: option.splits)
qed

lemma apply_update_inv:
  assumes "redb_contract db view" "hot_serde_contract js reread" "hot_inv js view reread c accepted h"
    and "hu_gc_disk_warning_threshold u \<noteq> Some NaN" "apply_update db js u h = (Inr x, h')"
  shows "hot_inv js view reread c (Some (hh_inner h')) h'"
proof -
  let ?new = "merge_hot_config_update (hh_inner h) u"
  obtain json store where upd: "hot_errors ?new = []" "sd_to_string js ?new = Inr json"
      "save_meta db HOT_CONFIG_KEY json (hh_store h) = Inr store" "h' = h\<lparr> hh_store := store, hh_inner := ?new \<rparr>"
    using apply_update_Ok assms(5) by metis
  have thr: "gc_disk_warning_threshold (hc_gc ?new) \<noteq> NaN"
    using assms(3,4) by (cases "hu_gc_disk_warning_threshold u") (auto simp: merge_threshold hot_inv_def)
  then obtain q where "gc_disk_warning_threshold (hc_gc ?new) = F64 q"
    using valid_threshold_finite upd(1) by blast
  then have "sd_from_str js json = Inr (reread_settings reread ?new)"
    using assms(2) upd(2) by (fastforce simp: hot_serde_contract_def)
  then show ?thesis
    using assms(3) upd thr save_meta_view [OF assms(1) upd(3)] by (simp add: hot_inv_def)
qed

lemma patch_config_cases:
  assumes "patch_config db js raw h = ((r, l), h')"
  shows "(\<exists>n x. r = Updated n \<and> apply_update db js (hot_update_of_body raw) h = (Inr x, h')) \<or>
    (\<forall>n. r \<noteq> Updated n) \<and> h' = h"
  using assms apply_update_Err [of db js "hot_update_of_body raw" h]
  by (fastforce simp: patch_config_def Let_def split: if_splits sum.splits prod.splits)

lemma cold_settings_valid:
  assumes "validate_config lib c = Inr ()" "gc_disk_warning_threshold (nc_gc c) \<noteq> NaN"
  shows "hot_errors (from_cold_config c) = []" "gc_disk_warning_threshold (hc_gc (from_cold_config c)) \<noteq> NaN"
  using cold_config_hot_valid [OF assms(1)] assms(2) by (simp_all add: from_cold_config_def)

lemma hot_run_inv:
  assumes "redb_contract db view" "hot_serde_contract js reread" "keeps_fractions reread"
    and "validate_config lib c = Inr ()" "gc_disk_warning_threshold (nc_gc c) \<noteq> NaN"
    and "hot_run db js view c accepted h"
  shows "hot_inv js view reread c accepted h"
  using assms(6)
proof induction
  case (Boot t node_id h)
  then show ?case
    using load_meta_view [OF assms(1)] cold_settings_valid [OF assms(4,5)]
    by (cases "load_meta db HOT_CONFIG_KEY t") (auto simp: hot_new_def hot_inv_def Let_def split: option.splits)
next
  case (Patch accepted h raw r l h')
  have thr: "hu_gc_disk_warning_threshold (hot_update_of_body raw) \<noteq> Some NaN"
    using Patch.hyps(2) by (simp add: hot_update_of_body_def)
  from patch_config_cases [OF Patch.hyps(3)] show ?case
    using apply_update_inv [OF assms(1,2) Patch.IH thr] Patch.IH
    by (auto simp: hot_read_def split: patch_response.splits)
next
  case (Reset accepted h r h')
  then show ?case
    using delete_meta_view [OF assms(1)] cold_settings_valid [OF assms(4,5)]
    by (auto simp: hot_reset_def hot_inv_def split: sum.splits)
next
  case (Restart accepted h node_id h')
  have new: "h' = \<lparr> hh_inner = (case load_meta db HOT_CONFIG_KEY (hh_store h) of
          Inl _ \<Rightarrow> from_cold_config c
        | Inr _ \<Rightarrow> (case accepted of None \<Rightarrow> from_cold_config c | Some s \<Rightarrow> reread_settings reread s)),
      hh_cold = from_cold_config c, hh_store = hh_store h, hh_node_id = node_id \<rparr>"
    using hot_new_inv [OF assms(1) Restart.IH, of node_id] Restart.hyps(2) by simp
  show ?case
    unfolding new using Restart.IH cold_settings_valid [OF assms(4,5)] reread_valid [OF assms(3)]
    by (auto simp: hot_inv_def split: sum.splits option.splits)
qed

lemma reread_settings_id: "gc_disk_warning_threshold (hc_gc h) = F64 q \<Longrightarrow> reread_settings id h = h"
  by (simp add: reread_settings_def)

lemma finite_serde_contract: "hot_serde_contract (finite_serde xs) id"
proof -
  have "replicate i CHR ''#'' \<noteq> ''null''" for i
    by (cases i) simp_all
  then show ?thesis
    using list_serde_contract [of xs]
    unfolding hot_serde_contract_def finite_serde_def serde_contract_def
    by (auto simp: list_serde_def reread_settings_id split: f64.splits option.splits)
qed

lemma w_boot: "hot_new mem_redb js c [] ''node-0'' = Inr (w_cold_handle c)"
  by (simp add: hot_new_def load_meta_def mem_redb_def hm_get_def w_cold_handle_def Let_def)

lemma w_update_of_body:
  "hu_gc_disk_warning_threshold (hot_update_of_body w_body) = None" "count_changes (hot_update_of_body w_body) = 1"
  "hu_logging_level (hot_update_of_body w_body) = Some ''debug''"
  by (simp_all add: hot_update_of_body_def count_changes_def some_count_def jb_u32_def w_body_def)

lemma w_merge:
  "merge_hot_config_update h (hot_update_of_body w_body) = h\<lparr> hc_logging := (hc_logging h)\<lparr> lg_level := ''debug'' \<rparr> \<rparr>"
  by (simp add: merge_hot_config_update_def hot_update_of_body_def jb_u32_def w_body_def Let_def)

lemma w_hot_errors: "hot_errors w_hot = []"
  using default_threshold_errors [of None]
  unfolding hot_errors_cold [symmetric] hot_errors_def append_is_Nil_conv fail_if_Nil w_hot_def
  by (simp add: valid_levels_def cong: option.case_cong)

lemma w_nan_errors: "hot_errors (w_hot\<lparr> hc_gc := (hc_gc w_hot)\<lparr> gc_disk_warning_threshold := NaN \<rparr> \<rparr>) = []"
  using w_hot_errors unfolding hot_errors_def append_is_Nil_conv fail_if_Nil
  by (simp add: f64_gt_def cong: option.case_cong)

lemma w_hot_finite: "gc_disk_warning_threshold (hc_gc w_hot) = F64 (8106479329266893 / 9007199254740992)"
  by (simp add: w_hot_def from_cold_config_def node_config_default_def section_defaults)

lemma w_apply_update:
  "apply_update mem_redb (finite_serde [w_hot]) (hot_update_of_body w_body) (w_cold_handle (node_config_default None)) =
     (Inr (), (w_cold_handle (node_config_default None))\<lparr> hh_store := [(HOT_CONFIG_KEY, [])], hh_inner := w_hot \<rparr>)"
proof -
  have "merge_hot_config_update (hh_inner (w_cold_handle (node_config_default None))) (hot_update_of_body w_body) = w_hot"
    by (simp add: w_merge w_cold_handle_def w_hot_def from_cold_config_def node_config_default_def)
  moreover have "sd_to_string (finite_serde [w_hot]) w_hot = Inr []"
    by (simp add: finite_serde_def w_hot_finite list_serde_def)
  ultimately show ?thesis
    by (simp add: apply_update_def Let_def validate_hot_config_def w_hot_errors save_meta_def mem_redb_def hm_insert_def
        w_cold_handle_def)
qed

lemma w_apply_update_nan:
  "apply_update mem_redb (finite_serde [w_hot]) (hot_update_of_body w_body) (w_cold_handle w_nan_config) =
     (Inr (), (w_cold_handle w_nan_config)\<lparr> hh_store := [(HOT_CONFIG_KEY, ''null'')],
        hh_inner := w_hot\<lparr> hc_gc := (hc_gc w_hot)\<lparr> gc_disk_warning_threshold := NaN \<rparr> \<rparr> \<rparr>)"
proof -
  let ?n = "w_hot\<lparr> hc_gc := (hc_gc w_hot)\<lparr> gc_disk_warning_threshold := NaN \<rparr> \<rparr>"
  have "merge_hot_config_update (hh_inner (w_cold_handle w_nan_config)) (hot_update_of_body w_body) = ?n"
    by (simp add: w_merge w_cold_handle_def w_hot_def from_cold_config_def node_config_default_def w_nan_config_def)
  moreover have "sd_to_string (finite_serde [w_hot]) ?n = Inr ''null''"
    by (simp add: finite_serde_def)
  ultimately show ?thesis
    by (simp add: apply_update_def Let_def validate_hot_config_def w_nan_errors save_meta_def mem_redb_def hm_insert_def
        w_cold_handle_def)
qed

section \<open>Properties\<close>

text \<open>
  (C27) The settings in effect are always valid and survive a restart that can read them. A run starts on a valid
  configuration with a numeric disk threshold and a store without overrides, and goes through any requests to
  \<open>/admin/config\<close> (JSON has no NaN), resets and restarts, a restart that cannot read the store included. Provided
  the JSON library reads a fraction back as a fraction: the settings always pass the validator of the hot settings, which
  agrees with the validator of the configuration on the shared limits; a refused patch changes nothing; and a restart
  never fails on the stored text. If the read of the store succeeds the restart gives the settings of the last accepted
  patch that no reset removed, with the disk threshold as the JSON library reads it back, or the configured ones if
  there is none; if the read fails it gives the configured ones.
\<close>

theorem hot_config_valid_and_durable:
  assumes "redb_contract db view" "hot_serde_contract js reread" "keeps_fractions reread"
    and "validate_config lib c = Inr ()" "gc_disk_warning_threshold (nc_gc c) \<noteq> NaN"
    and "hot_run db js view c accepted h"
  shows "validate_hot_config (hot_read h) = Inr () \<and> hot_errors (from_cold_config c) = threshold_errors c \<and>
    (\<forall>raw e l h'. patch_config db js raw h = ((Rejected e, l), h') \<longrightarrow> h' = h) \<and>
    (\<forall>node_id. \<exists>h'. hot_new db js c (hh_store h) node_id = Inr h' \<and>
      hot_read h' = (case load_meta db HOT_CONFIG_KEY (hh_store h) of
          Inl _ \<Rightarrow> from_cold_config c
        | Inr _ \<Rightarrow> (case accepted of None \<Rightarrow> from_cold_config c | Some s \<Rightarrow> reread_settings reread s)))"
proof -
  have inv: "hot_inv js view reread c accepted h"
    by (rule hot_run_inv [OF assms])
  have "validate_hot_config (hot_read h) = Inr ()"
    using inv by (simp add: hot_inv_def hot_read_def validate_hot_config_Ok_iff)
  moreover have "h' = h" if "patch_config db js raw h = ((Rejected e, l), h')" for raw e l h'
    using patch_config_cases [OF that] by auto
  ultimately show ?thesis
    using hot_errors_cold hot_new_inv [OF assms(1) inv] by (simp add: hot_read_def)
qed

theorem hot_config_valid_and_durable_witness:
  "\<exists>h. hot_run mem_redb (finite_serde [w_hot]) hm_get (node_config_default None) (Some w_hot) h \<and>
     validate_hot_config (hot_read h) = Inr () \<and>
     (\<exists>h'. hot_new mem_redb (finite_serde [w_hot]) (node_config_default None) (hh_store h) ''node-0'' = Inr h' \<and>
       hot_read h' = w_hot)"
proof -
  let ?c = "node_config_default None" and ?js = "finite_serde [w_hot]"
  let ?h = "(w_cold_handle ?c)\<lparr> hh_store := [(HOT_CONFIG_KEY, [])], hh_inner := w_hot \<rparr>"
  have boot: "hot_run mem_redb ?js hm_get ?c None (w_cold_handle ?c)"
    by (rule hot_run.Boot [OF _ w_boot]) (simp add: hm_get_def)
  have patch: "patch_config mem_redb ?js w_body (w_cold_handle ?c) = ((Updated 1, Some ''debug''), ?h)"
    by (simp add: patch_config_def w_update_of_body w_apply_update Let_def)
  have run: "hot_run mem_redb ?js hm_get ?c (Some w_hot) ?h"
    using hot_run.Patch [OF boot _ patch] by (simp add: w_body_def hot_read_def)
  have valid: "validate_config sample_libs ?c = Inr ()"
    by (simp add: validate_config_Ok_iff default_config_errors)
  have fin: "gc_disk_warning_threshold (nc_gc ?c) \<noteq> NaN"
    by (simp add: node_config_default_def section_defaults)
  have frac: "keeps_fractions id"
    by (simp add: keeps_fractions_def)
  have load: "load_meta mem_redb HOT_CONFIG_KEY (hh_store ?h) = Inr (Some [])"
    by (simp add: load_meta_def mem_redb_def hm_get_def)
  from hot_config_valid_and_durable [OF mem_redb_contract finite_serde_contract frac valid fin run]
  have "validate_hot_config (hot_read ?h) = Inr ()"
    "\<exists>h'. hot_new mem_redb ?js ?c (hh_store ?h) ''node-0'' = Inr h' \<and> hot_read h' = w_hot"
    using load reread_settings_id [OF w_hot_finite] by fastforce+
  with run show ?thesis
    by blast
qed

text \<open>
  A \<open>NaN\<close> threshold stops the node. A valid configuration stays valid with its disk warning threshold
  replaced by \<open>NaN\<close> (no usage ever exceeds it); once the running node has accepted any patch that leaves the
  threshold alone, every later start on that store fails.
\<close>

theorem nan_threshold_blocks_restart:
  assumes "redb_contract db view" "hot_serde_contract js reread" "validate_config lib c = Inr ()"
    and "c' = c\<lparr> nc_gc := (nc_gc c)\<lparr> gc_disk_warning_threshold := NaN \<rparr> \<rparr>"
    and "view t HOT_CONFIG_KEY = None" "hot_new db js c' t node_id = Inr h"
    and "hu_gc_disk_warning_threshold u = None" "apply_update db js u h = (Inr (), h')"
    and "load_meta db HOT_CONFIG_KEY (hh_store h') = Inr r"
  shows "validate_config lib c' = Inr () \<and> (\<forall>usage. \<not> f64_gt usage (gc_disk_warning_threshold (nc_gc c'))) \<and>
    (\<exists>e. hot_new db js c' (hh_store h') node_id = Inl (HotStorage e))"
proof -
  have "hh_inner h = from_cold_config c'"
    using assms(5,6) load_meta_view [OF assms(1)]
    by (cases "load_meta db HOT_CONFIG_KEY t") (auto simp: hot_new_def Let_def split: option.splits)
  then have nan: "gc_disk_warning_threshold (hc_gc (merge_hot_config_update (hh_inner h) u)) = NaN"
    using assms(4,7) by (simp add: merge_threshold from_cold_config_def)
  obtain json store where upd: "sd_to_string js (merge_hot_config_update (hh_inner h) u) = Inr json"
      "save_meta db HOT_CONFIG_KEY json (hh_store h) = Inr store"
      "h' = h\<lparr> hh_store := store, hh_inner := merge_hot_config_update (hh_inner h) u \<rparr>"
    using apply_update_Ok [OF assms(8)] by metis
  have "r = Some json"
    using load_meta_view [OF assms(1,9)] save_meta_view [OF assms(1) upd(2)] upd(3) by simp
  moreover obtain e where "sd_from_str js json = Inl e"
    using assms(2) upd(1) nan by (fastforce simp: hot_serde_contract_def)
  ultimately have "hot_new db js c' (hh_store h') node_id = Inl (HotStorage e)"
    using assms(9) by (simp add: hot_new_def Let_def)
  moreover have "validate_config lib c' = Inr ()"
    using nan_threshold_valid [OF assms(3)] assms(4) by simp
  ultimately show ?thesis
    using assms(4) by (simp add: f64_gt_def)
qed

theorem nan_threshold_blocks_restart_witness:
  "validate_config sample_libs w_nan_config = Inr () \<and>
   (\<exists>e. hot_new mem_redb (finite_serde [w_hot]) w_nan_config [(HOT_CONFIG_KEY, ''null'')] ''node-0'' = Inl (HotStorage e))"
proof -
  have valid: "validate_config sample_libs (node_config_default None) = Inr ()"
    by (simp add: validate_config_Ok_iff default_config_errors)
  show ?thesis
    using nan_threshold_blocks_restart [OF mem_redb_contract finite_serde_contract valid w_nan_config_def _ w_boot
        w_update_of_body(1) w_apply_update_nan, of "Some ''null''"]
    by (simp add: hm_get_def load_meta_def mem_redb_def)
qed

end
