(* ===== verification/Gateway.thy ===== *)
theory Gateway
  imports App_Types Circuit_Breaker Admin_Middleware "HOL-Library.List_Lexorder" "HOL-Library.Char_ord"
begin

text \<open>
  The API gateway of the proxy (\<open>crates/proxy/src/gateway\<close>) and its configuration types
  (\<open>crates/common/src/types.rs\<close>): authorisation by roles and scopes, API keys, OIDC tokens, the
  cross-namespace allow list and the per-application route configuration. The JWT library and the
  HTTP client of the OIDC provider are arguments; \<open>serde_json::Value\<close> is the datatype \<open>json\<close>.
\<close>

section \<open>Configuration types\<close>

datatype auth_policy = AuthNone | AuthAuthenticated | AuthRoles "string list" "string option"

record cors_policy =
  allowed_origins :: "string list"
  allowed_methods :: "string list"
  allowed_headers :: "string list"
  expose_headers :: "string list"
  allow_credentials :: bool
  max_age_secs :: u32

definition default_methods :: "string list" where
  "default_methods = [''GET'', ''POST'', ''PUT'', ''DELETE'', ''PATCH'', ''OPTIONS'']"

definition default_headers :: "string list" where
  "default_headers = [''Authorization'', ''Content-Type'', ''X-Request-Id'']"

record request_transform =
  add_headers :: "(string \<times> string) list"
  remove_headers :: "string list"
  path_prefix_to_add :: "string option"
  strip_query_params :: "string list"

record route_rate_limit =
  rrl_requests_per_second :: u32
  rrl_burst_capacity :: u32
  rrl_distributed :: bool

datatype failure_criteria = ServerErrors | AllErrors | StatusCodes "u16 list"

record circuit_breaker_config =
  cbc_failure_threshold :: u32
  cbc_reset_timeout_secs :: u32
  cbc_failure_criteria :: failure_criteria

definition circuit_breaker_config_default :: circuit_breaker_config where
  "circuit_breaker_config_default = \<lparr> cbc_failure_threshold = 5, cbc_reset_timeout_secs = 30,
     cbc_failure_criteria = ServerErrors \<rparr>"

datatype endpoint_auth =
    EndpointInherit
  | EndpointNone
  | EndpointAuthenticated
  | EndpointRoles "string list" "string option"
  | EndpointApiKey

record endpoint_rule =
  er_path :: string
  er_methods :: "string list"
  er_auth :: endpoint_auth
  er_required_scopes :: "string list"
  er_rate_limit :: "route_rate_limit option"

record gateway_route_config =
  grc_auth :: auth_policy
  grc_cors :: "cors_policy option"
  grc_transform :: "request_transform option"
  grc_rate_limit :: "route_rate_limit option"
  grc_circuit_breaker :: "circuit_breaker_config option"
  grc_endpoints :: "endpoint_rule list"

definition gateway_route_config_default :: gateway_route_config where
  "gateway_route_config_default = \<lparr> grc_auth = AuthNone, grc_cors = None, grc_transform = None,
     grc_rate_limit = None, grc_circuit_breaker = None, grc_endpoints = [] \<rparr>"

record api_key_record =
  akr_name :: string
  akr_key_hash :: string
  akr_scopes :: "string list"

record oidc_config =
  oc_issuer_url :: string
  oc_audience :: string
  oc_jwks_url :: "string option"
  oc_jwks_refresh_secs :: u64
  oc_clock_skew_secs :: u64

definition default_jwks_refresh_secs :: u64 where
  "default_jwks_refresh_secs = 3600"

definition default_clock_skew_secs :: u64 where
  "default_clock_skew_secs = 30"

section \<open>JSON values\<close>

datatype json =
    JNull
  | JBool bool
  | JNumber string
  | JString string
  | JArray "json list"
  | JObject "(string \<times> json) list"

fun json_get :: "string \<Rightarrow> json \<Rightarrow> json option" where
  "json_get k (JObject kvs) = map_of kvs k"
| "json_get k _ = None"

fun json_as_str :: "json \<Rightarrow> string option" where
  "json_as_str (JString s) = Some s"
| "json_as_str _ = None"

fun json_as_array :: "json \<Rightarrow> json list option" where
  "json_as_array (JArray xs) = Some xs"
| "json_as_array _ = None"

fun json_as_object :: "json \<Rightarrow> (string \<times> json) list option" where
  "json_as_object (JObject kvs) = Some kvs"
| "json_as_object _ = None"

section \<open>Identities and authorisation\<close>

record user_identity =
  ui_sub :: string
  ui_email :: "string option"
  ui_roles :: "string list"
  ui_raw_claims :: json

definition anonymous :: user_identity where
  "anonymous = \<lparr> ui_sub = ''anonymous'', ui_email = None, ui_roles = [], ui_raw_claims = JObject [] \<rparr>"

definition extract_scopes :: "user_identity \<Rightarrow> string list" where
  "extract_scopes identity =
     (let claims = ui_raw_claims identity;
          scopes = (case Option.bind (json_get ''scope'' claims) json_as_str of None \<Rightarrow> []
              | Some s \<Rightarrow> split_whitespace s);
          scopes = scopes @ (case Option.bind (json_get ''scp'' claims) json_as_array of None \<Rightarrow> []
              | Some xs \<Rightarrow> List.map_filter json_as_str xs);
          scopes = scopes @ (case Option.bind (json_get ''scp'' claims) json_as_str of None \<Rightarrow> []
              | Some s \<Rightarrow> split_whitespace s)
      in remdups_adj (sort scopes))"

definition authorize_scopes :: "user_identity \<Rightarrow> string list \<Rightarrow> bool" where
  "authorize_scopes identity required_scopes =
     (if required_scopes = [] then True
      else (let scopes = extract_scopes identity
            in list_all (\<lambda>required. list_ex (\<lambda>scope. scope = required) scopes) required_scopes))"

definition authorize_roles :: "user_identity \<Rightarrow> string list \<Rightarrow> string option \<Rightarrow> bool" where
  "authorize_roles identity allowed_roles client_id =
     list_ex (\<lambda>required.
       list_ex (\<lambda>r. r = required) (ui_roles identity) \<or>
       (case client_id of None \<Rightarrow> False
        | Some cid \<Rightarrow> list_ex (\<lambda>r. r = cid @ '':'' @ required) (ui_roles identity))) allowed_roles"

fun authorize :: "user_identity \<Rightarrow> auth_policy \<Rightarrow> bool" where
  "authorize identity AuthNone = True"
| "authorize identity AuthAuthenticated = True"
| "authorize identity (AuthRoles allowed_roles client_id) = authorize_roles identity allowed_roles client_id"

section \<open>API keys\<close>

type_synonym api_key_validator = "(string, api_key_record) hmap"

definition api_key_validator_new :: "api_key_record list \<Rightarrow> api_key_validator" where
  "api_key_validator_new records = fold (\<lambda>r keys. hm_insert (akr_key_hash r) r keys) records []"

text \<open>\<open>sha256_hex\<close> is the hexadecimal SHA-256 digest of the \<open>sha2\<close> and \<open>hex\<close> libraries.\<close>

definition api_key_validate :: "(string \<Rightarrow> string) \<Rightarrow> api_key_validator \<Rightarrow> string \<Rightarrow> string \<Rightarrow> bool" where
  "api_key_validate sha256_hex keys header_value path =
     (let hash = ''sha256$'' @ sha256_hex header_value
      in case hm_get keys hash of None \<Rightarrow> False
         | Some r \<Rightarrow> akr_scopes r = [] \<or> list_ex (\<lambda>s. starts_with path s) (akr_scopes r))"

definition api_key_validator_is_empty :: "api_key_validator \<Rightarrow> bool" where
  "api_key_validator_is_empty keys = (keys = [])"

section \<open>OIDC provider\<close>

datatype gateway_error =
    GwAuth string | GwOidc string | GwRateLimit string | GwCircuitOpen string | GwCors string
  | GwInternal string

primrec gateway_error_fmt :: "gateway_error \<Rightarrow> string" where
  "gateway_error_fmt (GwAuth msg) = ''authentication error: '' @ msg"
| "gateway_error_fmt (GwOidc msg) = ''OIDC error: '' @ msg"
| "gateway_error_fmt (GwRateLimit msg) = ''rate limit: '' @ msg"
| "gateway_error_fmt (GwCircuitOpen msg) = ''circuit open: '' @ msg"
| "gateway_error_fmt (GwCors msg) = ''CORS error: '' @ msg"
| "gateway_error_fmt (GwInternal msg) = ''internal error: '' @ msg"

record json_web_key =
  jwk_kid :: "string option"
  jwk_kty :: "string option"
  jwk_n :: "string option"
  jwk_e :: "string option"

record jwt_validation =
  val_algorithm :: string
  val_audience :: "string list"
  val_issuer :: "string list"
  val_leeway :: u64

text \<open>
  The \<open>jsonwebtoken\<close> library: \<open>decode_header\<close> (of which the key id is used), \<open>decode\<close> and
  \<open>DecodingKey::from_rsa_components\<close>.
\<close>

record 'key jwt_lib =
  jwt_decode_header :: "string \<Rightarrow> (string, string option) result"
  jwt_decode :: "string \<Rightarrow> 'key \<Rightarrow> jwt_validation \<Rightarrow> (string, json) result"
  jwt_from_rsa :: "string \<Rightarrow> string \<Rightarrow> (string, 'key) result"

text \<open>The HTTP client: a request, the status check, and the two documents it decodes.\<close>

record 'resp oidc_http =
  oh_get :: "string \<Rightarrow> (string, 'resp) result"
  oh_error_for_status :: "'resp \<Rightarrow> (string, 'resp) result"
  oh_discovery :: "'resp \<Rightarrow> (string, string) result"
  oh_jwks :: "'resp \<Rightarrow> (string, json_web_key list) result"

text \<open>An \<open>Instant\<close> minus a duration may lie before the origin of the clock.\<close>

record 'key oidc_provider =
  op_config :: oidc_config
  op_keys :: "(string, 'key) hmap"
  op_fetched_at :: int

definition oidc_provider_new :: "oidc_config \<Rightarrow> instant \<Rightarrow> 'key oidc_provider" where
  "oidc_provider_new config now = \<lparr> op_config = config, op_keys = [],
     op_fetched_at = int now - int (from_secs 3601) \<rparr>"

fun map_err :: "('e \<Rightarrow> 'f) \<Rightarrow> ('e, 'a) result \<Rightarrow> ('f, 'a) result" where
  "map_err f (Inl e) = Inl (f e)"
| "map_err f (Inr x) = Inr x"

definition discover_jwks_uri :: "'resp oidc_http \<Rightarrow> 'key oidc_provider \<Rightarrow> (gateway_error, string) result" where
  "discover_jwks_uri http p =
     (case oc_jwks_url (op_config p) of Some url \<Rightarrow> Ok url
      | None \<Rightarrow>
          (let discovery_url = trim_end_char CHR ''/'' (oc_issuer_url (op_config p))
                 @ ''/.well-known/openid-configuration''
           in try_then (map_err (\<lambda>e. GwOidc (''OIDC discovery fetch failed: '' @ e)) (oh_get http discovery_url)) (\<lambda>resp.
              try_then (map_err (\<lambda>e. GwOidc (''OIDC discovery returned error status: '' @ e))
                (oh_error_for_status http resp)) (\<lambda>resp.
              map_err (\<lambda>e. GwOidc (''OIDC discovery parse failed: '' @ e)) (oh_discovery http resp)))))"

definition jwks_insert :: "'key jwt_lib \<Rightarrow> json_web_key \<Rightarrow> (string, 'key) hmap \<Rightarrow> (string, 'key) hmap" where
  "jwks_insert jwt key keys =
     (case (jwk_kid key, jwk_kty key, jwk_n key, jwk_e key) of
        (Some kid, Some kty, Some n, Some e) \<Rightarrow>
          if kty = ''RSA''
          then (case jwt_from_rsa jwt n e of Inl _ \<Rightarrow> keys | Inr k \<Rightarrow> hm_insert kid k keys)
          else keys
      | _ \<Rightarrow> keys)"

definition refresh_jwks ::
  "'key jwt_lib \<Rightarrow> 'resp oidc_http \<Rightarrow> instant \<Rightarrow> 'key oidc_provider
    \<Rightarrow> (gateway_error, 'key oidc_provider) result" where
  "refresh_jwks jwt http now p =
     try_then (discover_jwks_uri http p) (\<lambda>jwks_url.
     try_then (map_err (\<lambda>e. GwOidc (''JWKS fetch failed: '' @ e)) (oh_get http jwks_url)) (\<lambda>resp.
     try_then (map_err (\<lambda>e. GwOidc (''JWKS returned error status: '' @ e)) (oh_error_for_status http resp)) (\<lambda>resp.
     try_then (map_err (\<lambda>e. GwOidc (''JWKS parse failed: '' @ e)) (oh_jwks http resp)) (\<lambda>jwks.
       Ok (p\<lparr> op_keys := fold (jwks_insert jwt) jwks [], op_fetched_at := int now \<rparr>)))))"

definition realm_roles :: "json \<Rightarrow> string list" where
  "realm_roles claims =
     (case Option.bind (Option.bind (json_get ''realm_access'' claims) (json_get ''roles'')) json_as_array
      of None \<Rightarrow> [] | Some arr \<Rightarrow> List.map_filter json_as_str arr)"

definition client_roles :: "json \<Rightarrow> string list" where
  "client_roles claims =
     (case Option.bind (json_get ''resource_access'' claims) json_as_object of None \<Rightarrow> []
      | Some obj \<Rightarrow> concat (map (\<lambda>(client_id, client_val).
          map (\<lambda>role. client_id @ '':'' @ role)
            (case Option.bind (json_get ''roles'' client_val) json_as_array of None \<Rightarrow> []
             | Some arr \<Rightarrow> List.map_filter json_as_str arr)) obj))"

definition identity_of_claims :: "json \<Rightarrow> user_identity" where
  "identity_of_claims claims = \<lparr>
     ui_sub = unwrap_or (Option.bind (json_get ''sub'' claims) json_as_str) ''unknown'',
     ui_email = Option.bind (json_get ''email'' claims) json_as_str,
     ui_roles = realm_roles claims @ client_roles claims,
     ui_raw_claims = claims \<rparr>"

definition token_validation :: "oidc_config \<Rightarrow> jwt_validation" where
  "token_validation c = \<lparr> val_algorithm = ''RS256'', val_audience = [oc_audience c],
     val_issuer = [oc_issuer_url c], val_leeway = oc_clock_skew_secs c \<rparr>"

definition validate_with_cache ::
  "'key jwt_lib \<Rightarrow> string \<Rightarrow> string \<Rightarrow> 'key oidc_provider \<Rightarrow> (gateway_error, user_identity) result" where
  "validate_with_cache jwt token kid p =
     (case hm_get (op_keys p) kid of None \<Rightarrow> Err (GwAuth (''unknown key ID: '' @ kid))
      | Some decoding_key \<Rightarrow>
          try_then (map_err (\<lambda>e. GwAuth (''JWT validation failed: '' @ e))
            (jwt_decode jwt token decoding_key (token_validation (op_config p)))) (\<lambda>claims.
          Ok (identity_of_claims claims)))"

text \<open>
  \<open>validate_token\<close> reads the clock for the age of the cache and again when it refetches the keys.
  The doubled refresh interval is a \<open>u64\<close>.
\<close>

definition validate_token ::
  "'key jwt_lib \<Rightarrow> 'resp oidc_http \<Rightarrow> string \<Rightarrow> instant \<Rightarrow> instant \<Rightarrow> 'key oidc_provider
    \<Rightarrow> (gateway_error, user_identity) result \<times> 'key oidc_provider" where
  "validate_token jwt http token t_age t_fetch p =
     (case jwt_decode_header jwt token of
        Inl e \<Rightarrow> (Err (GwAuth (''invalid JWT header: '' @ e)), p)
      | Inr None \<Rightarrow> (Err (GwAuth ''JWT missing kid header''), p)
      | Inr (Some kid) \<Rightarrow>
          if as_secs (nat (int t_age - op_fetched_at p)) > unat (oc_jwks_refresh_secs (op_config p) * 2)
          then (case refresh_jwks jwt http t_fetch p of
                  Inl e \<Rightarrow> (Err e, p)
                | Inr p' \<Rightarrow> (validate_with_cache jwt token kid p', p'))
          else (validate_with_cache jwt token kid p, p))"

section \<open>Header maps\<close>

text \<open>
  \<open>http::HeaderMap\<close>: the values of each header, by its lower-case name. \<open>get\<close> gives the first
  value, \<open>insert\<close> replaces all of them, \<open>remove\<close> drops them.
\<close>

type_synonym http_headers = "string \<Rightarrow> header_value list"

definition hdr_get :: "http_headers \<Rightarrow> string \<Rightarrow> header_value option" where
  "hdr_get h name = (case h (to_ascii_lowercase name) of [] \<Rightarrow> None | v # _ \<Rightarrow> Some v)"

definition hdr_str :: "http_headers \<Rightarrow> string \<Rightarrow> string option" where
  "hdr_str h name = (case hdr_get h name of Some (Visible v) \<Rightarrow> Some v | _ \<Rightarrow> None)"

definition hdr_insert :: "string \<Rightarrow> header_value \<Rightarrow> http_headers \<Rightarrow> http_headers" where
  "hdr_insert name v h = h(to_ascii_lowercase name := [v])"

definition hdr_remove :: "string \<Rightarrow> http_headers \<Rightarrow> http_headers" where
  "hdr_remove name h = h(to_ascii_lowercase name := [])"

section \<open>The gateway\<close>

record gateway_metrics =
  auth_success_total :: nat
  auth_failure_total :: nat
  authz_denied_total :: nat
  cors_preflight_total :: nat
  rate_limit_denied_total :: nat
  circuit_breaker_rejected_total :: nat
  circuits_open :: int

record 'key gateway =
  gw_oidc :: "'key oidc_provider option"
  gw_circuit_breaker :: cb_manager
  gw_distributed_limiters :: "(string, distributed_rate_limiter) hmap"
  gw_route_configs :: "(string, gateway_route_config) hmap"
  gw_api_key_validators :: "(string, api_key_validator) hmap"
  gw_metrics :: gateway_metrics
  gw_cross_namespace_allowlist :: "(string \<times> string, bool) hmap option"

definition gateway_new :: "'key oidc_provider option \<Rightarrow> 'key gateway" where
  "gateway_new oidc = \<lparr> gw_oidc = oidc, gw_circuit_breaker = cb_new, gw_distributed_limiters = [],
     gw_route_configs = [], gw_api_key_validators = [],
     gw_metrics = \<lparr> auth_success_total = 0, auth_failure_total = 0, authz_denied_total = 0,
       cors_preflight_total = 0, rate_limit_denied_total = 0, circuit_breaker_rejected_total = 0,
       circuits_open = 0 \<rparr>,
     gw_cross_namespace_allowlist = None \<rparr>"

definition is_cross_namespace_allowed :: "'key gateway \<Rightarrow> string \<Rightarrow> string \<Rightarrow> bool" where
  "is_cross_namespace_allowed g source_ns target_ns =
     (if source_ns = target_ns then True
      else (case gw_cross_namespace_allowlist g of None \<Rightarrow> False
            | Some m \<Rightarrow> hm_get m (source_ns, target_ns) = Some True))"

definition set_cross_namespace_allowlist :: "(string \<times> string, bool) hmap \<Rightarrow> 'key gateway \<Rightarrow> 'key gateway" where
  "set_cross_namespace_allowlist m g = g\<lparr> gw_cross_namespace_allowlist := Some m \<rparr>"

definition add_cross_namespace_rule :: "string \<Rightarrow> string \<Rightarrow> 'key gateway \<Rightarrow> 'key gateway" where
  "add_cross_namespace_rule source_ns target_ns g =
     (let g = (if gw_cross_namespace_allowlist g = None then g\<lparr> gw_cross_namespace_allowlist := Some [] \<rparr> else g)
      in case gw_cross_namespace_allowlist g of None \<Rightarrow> g
         | Some m \<Rightarrow> g\<lparr> gw_cross_namespace_allowlist := Some (hm_insert (source_ns, target_ns) True m) \<rparr>)"

definition remove_cross_namespace_rule :: "string \<Rightarrow> string \<Rightarrow> 'key gateway \<Rightarrow> 'key gateway" where
  "remove_cross_namespace_rule source_ns target_ns g =
     (case gw_cross_namespace_allowlist g of None \<Rightarrow> g
      | Some m \<Rightarrow> g\<lparr> gw_cross_namespace_allowlist := Some (hm_remove (source_ns, target_ns) m) \<rparr>)"

definition list_cross_namespace_rules :: "'key gateway \<Rightarrow> (string \<times> string) list" where
  "list_cross_namespace_rules g =
     (case gw_cross_namespace_allowlist g of None \<Rightarrow> [] | Some m \<Rightarrow> map fst m)"

definition set_api_key_validator :: "string \<Rightarrow> api_key_validator \<Rightarrow> 'key gateway \<Rightarrow> 'key gateway" where
  "set_api_key_validator app v g = g\<lparr> gw_api_key_validators := hm_insert app v (gw_api_key_validators g) \<rparr>"

definition validate_api_key :: "(string \<Rightarrow> string) \<Rightarrow> 'key gateway \<Rightarrow> string \<Rightarrow> string \<Rightarrow> string \<Rightarrow> bool" where
  "validate_api_key sha256_hex g app key path =
     (case hm_get (gw_api_key_validators g) app of None \<Rightarrow> False
      | Some v \<Rightarrow> api_key_validate sha256_hex v key path)"

definition get_route_config :: "'key gateway \<Rightarrow> app_id \<Rightarrow> gateway_route_config option" where
  "get_route_config g app = hm_get (gw_route_configs g) (app_id_as_str app)"

definition set_route_config :: "string \<Rightarrow> gateway_route_config \<Rightarrow> 'key gateway \<Rightarrow> 'key gateway" where
  "set_route_config app c g = g\<lparr> gw_route_configs := hm_insert app c (gw_route_configs g) \<rparr>"

definition remove_route_config :: "string \<Rightarrow> 'key gateway \<Rightarrow> 'key gateway" where
  "remove_route_config app g = g\<lparr> gw_route_configs := hm_remove app (gw_route_configs g) \<rparr>"

text \<open>\<open>authenticate_with_policy\<close> passes the headers of the session on.\<close>

definition authenticate_header_map_with_policy ::
  "'key jwt_lib \<Rightarrow> 'resp oidc_http \<Rightarrow> http_headers \<Rightarrow> auth_policy \<Rightarrow> instant \<Rightarrow> instant \<Rightarrow> 'key gateway
    \<Rightarrow> (gateway_error, user_identity) result \<times> 'key gateway" where
  "authenticate_header_map_with_policy jwt http headers policy t_age t_fetch g =
     (if policy = AuthNone then (Ok anonymous, g)
      else (case gw_oidc g of None \<Rightarrow> (Err (GwAuth ''OIDC not configured''), g)
        | Some provider \<Rightarrow>
            (case Option.bind (hdr_str headers ''Authorization'') (strip_prefix ''Bearer '') of
               None \<Rightarrow> (Err (GwAuth ''missing Authorization header''), g)
             | Some token \<Rightarrow>
                 (let (r, provider') = validate_token jwt http token t_age t_fetch provider
                  in (r, g\<lparr> gw_oidc := Some provider' \<rparr>)))))"

definition gateway_is_circuit_open ::
  "'key gateway \<Rightarrow> app_id \<Rightarrow> instant \<Rightarrow> instant \<Rightarrow> instant \<Rightarrow> bool \<times> 'key gateway" where
  "gateway_is_circuit_open g app t0 t1 t2 =
     (let (rejected, m) = is_circuit_open (gw_circuit_breaker g) (app_id_as_str app) t0 t1 t2
      in (rejected, g\<lparr> gw_circuit_breaker := m \<rparr>))"

section \<open>Authorisation\<close>

text \<open>The scopes an identity holds: words of \<open>scope\<close>, and of \<open>scp\<close> as a list or as a text.\<close>

definition holds_scope :: "json \<Rightarrow> string \<Rightarrow> bool" where
  "holds_scope claims s \<longleftrightarrow>
     (\<exists>t. json_get ''scope'' claims = Some (JString t) \<and> s \<in> set (split_whitespace t)) \<or>
     (\<exists>xs. json_get ''scp'' claims = Some (JArray xs) \<and> JString s \<in> set xs) \<or>
     (\<exists>t. json_get ''scp'' claims = Some (JString t) \<and> s \<in> set (split_whitespace t))"

lemma json_as_str_iff [simp]: "json_as_str v = Some s \<longleftrightarrow> v = JString s"
  by (cases v) auto

lemma json_as_array_iff [simp]: "json_as_array v = Some xs \<longleftrightarrow> v = JArray xs"
  by (cases v) auto

lemma json_as_object_iff [simp]: "json_as_object v = Some xs \<longleftrightarrow> v = JObject xs"
  by (cases v) auto

lemma set_map_filter: "set (List.map_filter f xs) = {y. \<exists>x\<in>set xs. f x = Some y}"
  by (auto simp: List.map_filter_def image_iff) (metis option.sel)

lemma in_set_case_option:
  "x \<in> set (case v of None \<Rightarrow> [] | Some a \<Rightarrow> f a) \<longleftrightarrow> (\<exists>a. v = Some a \<and> x \<in> set (f a))"
  by (cases v) auto

lemma Some_eq_bind: "Some y = Option.bind v f \<longleftrightarrow> (\<exists>x. v = Some x \<and> f x = Some y)"
  by (cases v) auto

lemmas claims_simps = in_set_case_option set_map_filter bind_eq_Some_conv Some_eq_bind

lemma set_extract_scopes: "s \<in> set (extract_scopes identity) \<longleftrightarrow> holds_scope (ui_raw_claims identity) s"
  by (auto simp: extract_scopes_def holds_scope_def Let_def claims_simps)

lemma authorize_scopes_iff:
  "authorize_scopes identity required \<longleftrightarrow> (\<forall>s\<in>set required. holds_scope (ui_raw_claims identity) s)"
  by (auto simp: authorize_scopes_def Let_def list_all_iff list_ex_iff set_extract_scopes)

lemma authorize_roles_iff:
  "authorize_roles identity allowed client_id \<longleftrightarrow>
    (\<exists>r\<in>set allowed. r \<in> set (ui_roles identity) \<or>
       (\<exists>cid. client_id = Some cid \<and> cid @ '':'' @ r \<in> set (ui_roles identity)))"
  by (auto simp: authorize_roles_def list_ex_iff split: option.splits)

text \<open>The roles of an identity are those of the realm and, qualified, those of each client.\<close>

definition claims_list_role :: "json \<Rightarrow> string \<Rightarrow> bool" where
  "claims_list_role v r \<longleftrightarrow> (\<exists>arr. json_get ''roles'' v = Some (JArray arr) \<and> JString r \<in> set arr)"

lemma set_realm_roles:
  "r \<in> set (realm_roles claims) \<longleftrightarrow>
    (\<exists>v. json_get ''realm_access'' claims = Some v \<and> claims_list_role v r)"
  by (auto simp: realm_roles_def claims_list_role_def claims_simps)

lemma set_client_roles:
  "r \<in> set (client_roles claims) \<longleftrightarrow>
    (\<exists>obj cid v role. json_get ''resource_access'' claims = Some (JObject obj) \<and> (cid, v) \<in> set obj \<and>
       claims_list_role v role \<and> r = cid @ '':'' @ role)"
  unfolding client_roles_def claims_list_role_def in_set_case_option
  by (auto simp: claims_simps Bex_def image_iff) blast+

text \<open>A role of the realm, or a role of a client written with the client in front.\<close>

definition token_role :: "json \<Rightarrow> string \<Rightarrow> bool" where
  "token_role claims r \<longleftrightarrow>
     (\<exists>v. json_get ''realm_access'' claims = Some v \<and> claims_list_role v r) \<or>
     (\<exists>obj cid v role. json_get ''resource_access'' claims = Some (JObject obj) \<and> (cid, v) \<in> set obj \<and>
        claims_list_role v role \<and> r = cid @ '':'' @ role)"

lemma set_identity_roles: "r \<in> set (ui_roles (identity_of_claims claims)) \<longleftrightarrow> token_role claims r"
  by (simp add: identity_of_claims_def set_realm_roles set_client_roles token_role_def)

section \<open>API keys\<close>

lemma api_key_fold_get:
  "hm_get (fold (\<lambda>r keys. hm_insert (akr_key_hash r) r keys) records keys) h =
    (case find (\<lambda>r. akr_key_hash r = h) (rev records) of None \<Rightarrow> hm_get keys h | Some r \<Rightarrow> Some r)"
proof (induction records arbitrary: keys rule: rev_induct)
  case (snoc r records)
  then show ?case by (simp add: eq_commute)
qed simp

lemma api_key_validate_iff:
  "api_key_validate sha (api_key_validator_new records) key path \<longleftrightarrow>
    (\<exists>r. find (\<lambda>r. akr_key_hash r = ''sha256$'' @ sha key) (rev records) = Some r \<and>
      (akr_scopes r = [] \<or> (\<exists>s\<in>set (akr_scopes r). prefix s path)))"
  by (auto simp: api_key_validate_def api_key_validator_new_def api_key_fold_get Let_def list_ex_iff
      starts_with_def split: option.splits)

section \<open>Tokens\<close>

lemma map_err_Ok [simp]: "map_err f r = Inr x \<longleftrightarrow> r = Inr x"
  by (cases r) auto

lemma validate_with_cache_Ok:
  "validate_with_cache jwt token kid p = Inr identity \<longleftrightarrow>
    (\<exists>key claims. hm_get (op_keys p) kid = Some key \<and>
      jwt_decode jwt token key (token_validation (op_config p)) = Inr claims \<and>
      identity = identity_of_claims claims)"
  by (auto simp: validate_with_cache_def try_then_Ok_iff split: option.splits)

lemma refresh_jwks_config: "refresh_jwks jwt http t p = Inr p' \<Longrightarrow> op_config p' = op_config p"
  by (auto simp: refresh_jwks_def try_then_Ok_iff)

lemma refresh_jwks_fetched: "refresh_jwks jwt http t p = Inr p' \<Longrightarrow> op_fetched_at p' = int t"
  by (auto simp: refresh_jwks_def try_then_Ok_iff)

lemma validate_token_config: "op_config (snd (validate_token jwt http token t1 t2 p)) = op_config p"
  by (auto simp: validate_token_def refresh_jwks_config split: sum.splits option.splits)

lemma validate_token_Ok:
  assumes "validate_token jwt http token t1 t2 p = (Inr identity, p')"
  shows "\<exists>kid key claims. jwt_decode_header jwt token = Inr (Some kid) \<and>
      hm_get (op_keys p') kid = Some key \<and>
      jwt_decode jwt token key (token_validation (op_config p)) = Inr claims \<and>
      identity = identity_of_claims claims"
  using assms validate_token_config [of jwt http token t1 t2 p]
  by (auto simp: validate_token_def validate_with_cache_Ok split: sum.splits option.splits if_splits)

lemma validate_token_fresh:
  assumes "validate_token jwt http token t1 t2 p = (Inr identity, p')"
  shows "op_fetched_at p' = int t2 \<or>
    p' = p \<and> as_secs (nat (int t1 - op_fetched_at p)) \<le> unat (oc_jwks_refresh_secs (op_config p) * 2)"
  using assms refresh_jwks_fetched
  by (fastforce simp: validate_token_def split: sum.splits option.splits if_splits)

lemma strip_prefix_Some: "strip_prefix p s = Some t \<longleftrightarrow> s = p @ t"
  by (auto simp: strip_prefix_def prefix_def)

section \<open>Cross-namespace rules\<close>

text \<open>The pairs of different namespaces that may call each other.\<close>

definition ns_rules :: "'key gateway \<Rightarrow> (string \<times> string) set" where
  "ns_rules g = {(s, t). \<exists>m. gw_cross_namespace_allowlist g = Some m \<and> hm_get m (s, t) = Some True}"

lemma allowed_iff_rule: "is_cross_namespace_allowed g s t \<longleftrightarrow> s = t \<or> (s, t) \<in> ns_rules g"
  by (auto simp: is_cross_namespace_allowed_def ns_rules_def split: option.splits)

lemma ns_rules_new: "ns_rules (gateway_new oidc) = {}"
  by (simp add: ns_rules_def gateway_new_def)

lemma ns_rules_add: "ns_rules (add_cross_namespace_rule s t g) = insert (s, t) (ns_rules g)"
  by (auto simp: ns_rules_def add_cross_namespace_rule_def Let_def split: option.splits if_splits)

lemma ns_rules_remove: "ns_rules (remove_cross_namespace_rule s t g) = ns_rules g - {(s, t)}"
  by (auto simp: ns_rules_def remove_cross_namespace_rule_def split: option.splits if_splits)

section \<open>Properties\<close>

text \<open>
  (C8) A request under a policy that asks for authentication is accepted only with a bearer token
  that the JWT library verified, with RS256 and the configured audience, issuer and leeway, against
  the key its header names in the key set in use; the key set is at most twice the refresh interval
  old or was fetched for this very request, and the identity consists of the claims of that token.
\<close>

theorem bearer_token_verified:
  assumes "authenticate_header_map_with_policy jwt http headers policy t1 t2 g = (Inr identity, g')"
    and "policy \<noteq> AuthNone"
  shows "\<exists>p p' token kid key claims. gw_oidc g = Some p \<and> gw_oidc g' = Some p' \<and>
    hdr_str headers ''Authorization'' = Some (''Bearer '' @ token) \<and>
    jwt_decode_header jwt token = Inr (Some kid) \<and> hm_get (op_keys p') kid = Some key \<and>
    jwt_decode jwt token key \<lparr> val_algorithm = ''RS256'', val_audience = [oc_audience (op_config p)],
      val_issuer = [oc_issuer_url (op_config p)], val_leeway = oc_clock_skew_secs (op_config p) \<rparr>
      = Inr claims \<and>
    identity = identity_of_claims claims \<and>
    (op_fetched_at p' = int t2 \<or>
      as_secs (nat (int t1 - op_fetched_at p')) \<le> unat (oc_jwks_refresh_secs (op_config p) * 2))"
proof -
  from assms obtain p token p' where p: "gw_oidc g = Some p" "gw_oidc g' = Some p'"
      "hdr_str headers ''Authorization'' = Some (''Bearer '' @ token)"
      and v: "validate_token jwt http token t1 t2 p = (Inr identity, p')"
    by (auto simp: authenticate_header_map_with_policy_def strip_prefix_Some bind_eq_Some_conv
        split: option.splits prod.splits)
  from validate_token_Ok [OF v] obtain kid key claims where
    "jwt_decode_header jwt token = Inr (Some kid)" "hm_get (op_keys p') kid = Some key"
    "jwt_decode jwt token key (token_validation (op_config p)) = Inr claims"
    "identity = identity_of_claims claims"
    by (elim exE conjE)
  with p validate_token_fresh [OF v] show ?thesis
    by (intro exI [of _ p] exI [of _ p'] exI [of _ token] exI [of _ kid] exI [of _ key] exI [of _ claims])
      (auto simp: token_validation_def)
qed

text \<open>
  Exactly which tokens satisfy a role policy, in terms of their claims. With a client id the
  qualified role of that client is accepted, but a realm role of the same name is accepted as well.
\<close>

theorem role_check_exact:
  "authorize (identity_of_claims claims) (AuthRoles allowed client_id) \<longleftrightarrow>
    (\<exists>r. r \<in> set allowed \<and>
      (token_role claims r \<or> (\<exists>cid. client_id = Some cid \<and> token_role claims (cid @ '':'' @ r))))"
  unfolding authorize.simps authorize_roles_iff Bex_def set_identity_roles ..

text \<open>
  A provider created with the default refresh interval does not fetch any keys for the first
  hour: every token with a key id is refused as signed by an unknown key.
\<close>

theorem new_provider_does_not_fetch:
  assumes "oc_jwks_refresh_secs config = default_jwks_refresh_secs"
    and "jwt_decode_header jwt token = Inr (Some kid)"
    and "t_age \<le> now + from_secs 3599"
  shows "validate_token jwt http token t_age t_fetch (oidc_provider_new config now) =
    (Inl (GwAuth (''unknown key ID: '' @ kid)), oidc_provider_new config now)"
proof -
  have "nat (int t_age - (int now - int (from_secs 3601))) \<le> from_secs 7200"
    using assms(3) by (simp add: from_secs_def)
  then have "as_secs (nat (int t_age - (int now - int (from_secs 3601)))) \<le> as_secs (from_secs 7200)"
    by (rule as_secs_mono)
  then have "\<not> 7200 < as_secs (nat (int t_age - (int now - int (from_secs 3601))))"
    by (simp add: as_secs_def from_secs_def)
  with assms(1,2) show ?thesis
    by (simp add: validate_token_def oidc_provider_new_def default_jwks_refresh_secs_def
        validate_with_cache_def)
qed

section \<open>A concrete instance\<close>

definition w_jwt :: "string jwt_lib" where
  "w_jwt = \<lparr>
     jwt_decode_header = (\<lambda>token. if token = ''header.claims.signature'' then Ok (Some ''k1'') else Err ''no token''),
     jwt_decode = (\<lambda>token key v. if key = ''n1e1'' \<and> val_audience v = [''shop''] then
         Ok (JObject [(''sub'', JString ''alice''),
           (''realm_access'', JObject [(''roles'', JArray [JString ''buyer''])])]) else Err ''bad signature''),
     jwt_from_rsa = (\<lambda>n e. Ok (n @ e)) \<rparr>"

definition w_oidc_http :: "unit oidc_http" where
  "w_oidc_http = \<lparr> oh_get = (\<lambda>_. Ok ()), oh_error_for_status = Ok, oh_discovery = (\<lambda>_. Ok ''https://id/keys''),
     oh_jwks = (\<lambda>_. Ok [\<lparr> jwk_kid = Some ''k1'', jwk_kty = Some ''RSA'', jwk_n = Some ''n1'', jwk_e = Some ''e1'' \<rparr>]) \<rparr>"

definition w_oidc_config :: oidc_config where
  "w_oidc_config = \<lparr> oc_issuer_url = ''https://id/'', oc_audience = ''shop'', oc_jwks_url = None,
     oc_jwks_refresh_secs = 60, oc_clock_skew_secs = default_clock_skew_secs \<rparr>"

definition w_gateway :: "string gateway" where
  "w_gateway = gateway_new (Some (oidc_provider_new w_oidc_config 0))"

definition w_bearer :: http_headers where
  "w_bearer = (\<lambda>_. [])(''authorization'' := [Visible ''Bearer header.claims.signature''])"

lemma w_bearer_Authorization [simp]: "hdr_str w_bearer ''Authorization'' = Some ''Bearer header.claims.signature''"
  by (simp add: w_bearer_def hdr_str_def hdr_get_def char_of_def bit_0 to_ascii_lowercase_def)

lemma w_authenticates:
  "fst (authenticate_header_map_with_policy w_jwt w_oidc_http w_bearer AuthAuthenticated 5 6 w_gateway) =
    Inr (identity_of_claims (JObject [(''sub'', JString ''alice''),
      (''realm_access'', JObject [(''roles'', JArray [JString ''buyer''])])]))"
  by (simp add: authenticate_header_map_with_policy_def w_gateway_def gateway_new_def strip_prefix_def
      validate_token_def w_jwt_def oidc_provider_new_def w_oidc_config_def w_oidc_http_def refresh_jwks_def
      discover_jwks_uri_def as_secs_def from_secs_def nanos_per_sec_def jwks_insert_def validate_with_cache_def
      token_validation_def hm_simps case_prod_unfold)

theorem bearer_token_verified_witness:
  "\<exists>identity g'. authenticate_header_map_with_policy w_jwt w_oidc_http w_bearer AuthAuthenticated 5 6 w_gateway
      = (Inr identity, g') \<and> ui_sub identity = ''alice'' \<and>
    (\<exists>p'. gw_oidc g' = Some p' \<and> hm_get (op_keys p') ''k1'' \<noteq> None)"
proof -
  obtain g' where g: "authenticate_header_map_with_policy w_jwt w_oidc_http w_bearer AuthAuthenticated 5 6 w_gateway
      = (Inr (identity_of_claims (JObject [(''sub'', JString ''alice''),
      (''realm_access'', JObject [(''roles'', JArray [JString ''buyer''])])])), g')"
    using w_authenticates by (metis prod.collapse)
  from bearer_token_verified [OF g] show ?thesis
    using g by (fastforce simp: identity_of_claims_def w_jwt_def unwrap_or_def split: if_splits)
qed

end
