(* ===== verification/Gateway_Http.thy ===== *)
theory Gateway_Http
  imports Gateway
begin

text \<open>
  What the gateway does to HTTP messages: the CORS preflight and response headers
  (\<open>gateway/cors.rs\<close>), the request transformation (\<open>gateway/transform.rs\<close>) and the error replies
  (\<open>gateway/errors.rs\<close>). Header names, header values and URIs are parsed by the \<open>http\<close> library,
  which is an argument; \<open>http_contract\<close> states what it documents.
\<close>

section \<open>The http library\<close>

record 'uri http_lib =
  http_name :: "string \<Rightarrow> string option"
  http_value :: "string \<Rightarrow> header_value option"
  uri_parse :: "string \<Rightarrow> 'uri option"
  uri_to_string :: "'uri \<Rightarrow> string"
  uri_path :: "'uri \<Rightarrow> string"
  uri_query :: "'uri \<Rightarrow> string option"
  uri_authority :: "'uri \<Rightarrow> string option"

definition token_char :: "char \<Rightarrow> bool" where
  "token_char c = (let n = (of_char c :: nat) in
     (48 \<le> n \<and> n \<le> 57) \<or> (65 \<le> n \<and> n \<le> 90) \<or> (97 \<le> n \<and> n \<le> 122) \<or> c = CHR ''-'')"

definition visible_char :: "char \<Rightarrow> bool" where
  "visible_char c = (let n = (of_char c :: nat) in 32 \<le> n \<and> n < 127)"

text \<open>
  A header name of letters, digits and dashes is valid; a name is kept in lower case. A value of
  visible ASCII characters is valid, and a value made from a text reads back as that text.
\<close>

definition http_contract :: "'uri http_lib \<Rightarrow> bool" where
  "http_contract lib \<longleftrightarrow>
     (\<forall>s n. http_name lib s = Some n \<longrightarrow> n = to_ascii_lowercase s) \<and>
     (\<forall>s. s \<noteq> [] \<and> length s < 65536 \<and> list_all token_char s \<longrightarrow> http_name lib s \<noteq> None) \<and>
     (\<forall>s v. http_value lib s = Some v \<longrightarrow> v = Visible s) \<and>
     (\<forall>s. list_all visible_char s \<longrightarrow> http_value lib s \<noteq> None)"

record 'uri request_header =
  rh_method :: string
  rh_uri :: 'uri
  rh_headers :: http_headers

record response_header =
  rs_status :: u16
  rs_headers :: http_headers

text \<open>\<open>insert_header\<close> of Pingora's header types; its error is ignored by every caller.\<close>

definition insert_header :: "'uri http_lib \<Rightarrow> string \<Rightarrow> string \<Rightarrow> http_headers \<Rightarrow> http_headers" where
  "insert_header lib name value h =
     (case (http_name lib name, http_value lib value) of
        (Some n, Some v) \<Rightarrow> hdr_insert n v h
      | _ \<Rightarrow> h)"

section \<open>CORS\<close>

definition is_origin_allowed :: "string \<Rightarrow> cors_policy \<Rightarrow> bool" where
  "is_origin_allowed origin cors =
     (if ''*'' \<in> set (allowed_origins cors) then True
      else list_ex (\<lambda>allowed. allowed = origin \<or>
             (starts_with allowed ''*.'' \<and> ends_with origin (drop 1 allowed))) (allowed_origins cors))"

text \<open>The headers both replies have in common.\<close>

definition allow_origin_header :: "cors_policy \<Rightarrow> string \<Rightarrow> string" where
  "allow_origin_header cors origin =
     (if allow_credentials cors \<and> ''*'' \<in> set (allowed_origins cors) then origin
      else if ''*'' \<in> set (allowed_origins cors) then ''*'' else origin)"

datatype cors_outcome = PassThrough | PreflightDenied | PreflightOk response_header

definition handle_cors_preflight ::
  "'uri http_lib \<Rightarrow> http_headers \<Rightarrow> gateway_route_config \<Rightarrow> cors_outcome" where
  "handle_cors_preflight lib headers route_config =
     (case grc_cors route_config of None \<Rightarrow> PassThrough
      | Some cors \<Rightarrow>
          (let origin = unwrap_or (hdr_str headers ''origin'') ''''
           in if \<not> is_origin_allowed origin cors then PreflightDenied
              else
                (let h = (\<lambda>_. []);
                     h = insert_header lib ''Access-Control-Allow-Origin'' (allow_origin_header cors origin) h;
                     h = insert_header lib ''Access-Control-Allow-Methods'' (str_join '', '' (allowed_methods cors)) h;
                     h = insert_header lib ''Access-Control-Allow-Headers'' (str_join '', '' (allowed_headers cors)) h;
                     h = insert_header lib ''Access-Control-Max-Age'' (show_nat (unat (max_age_secs cors))) h;
                     h = (if allow_credentials cors
                          then insert_header lib ''Access-Control-Allow-Credentials'' ''true'' h else h);
                     h = (if expose_headers cors \<noteq> []
                          then insert_header lib ''Access-Control-Expose-Headers''
                                 (str_join '', '' (expose_headers cors)) h else h)
                 in PreflightOk \<lparr> rs_status = 200, rs_headers = h \<rparr>)))"

definition add_cors_headers ::
  "'uri http_lib \<Rightarrow> gateway_route_config \<Rightarrow> string \<Rightarrow> http_headers \<Rightarrow> http_headers" where
  "add_cors_headers lib route_config origin h =
     (case grc_cors route_config of None \<Rightarrow> h
      | Some cors \<Rightarrow>
          if \<not> is_origin_allowed origin cors then h
          else
            (let h = insert_header lib ''Access-Control-Allow-Origin'' (allow_origin_header cors origin) h;
                 h = insert_header lib ''Access-Control-Allow-Methods'' (str_join '', '' (allowed_methods cors)) h;
                 h = insert_header lib ''Access-Control-Allow-Headers'' (str_join '', '' (allowed_headers cors)) h;
                 h = (if allow_credentials cors
                      then insert_header lib ''Access-Control-Allow-Credentials'' ''true'' h else h)
             in if expose_headers cors \<noteq> []
                then insert_header lib ''Access-Control-Expose-Headers''
                       (str_join '', '' (expose_headers cors)) h else h))"

section \<open>Request transformation\<close>

text \<open>
  \<open>None\<close> stands for the panic of \<open>HeaderName::from_bytes(..).unwrap()\<close> on an invalid name.
\<close>

definition insert_identity_header ::
  "'uri http_lib \<Rightarrow> string \<Rightarrow> string \<Rightarrow> string \<Rightarrow> http_headers \<Rightarrow> http_headers option" where
  "insert_identity_header lib name value fallback h =
     (case http_name lib name of None \<Rightarrow> None
      | Some n \<Rightarrow> Some (hdr_insert n (unwrap_or (http_value lib value) (Visible fallback)) h))"

definition inject_identity ::
  "'uri http_lib \<Rightarrow> user_identity option \<Rightarrow> http_headers \<Rightarrow> http_headers option" where
  "inject_identity lib user_identity h =
     (case user_identity of None \<Rightarrow> Some h
      | Some identity \<Rightarrow>
          Option.bind (insert_identity_header lib ''X-User-Id'' (ui_sub identity) ''unknown'' h) (\<lambda>h.
          Option.bind (case ui_email identity of None \<Rightarrow> Some h
              | Some email \<Rightarrow> insert_identity_header lib ''X-User-Email'' email '''' h) (\<lambda>h.
          if ui_roles identity \<noteq> []
          then insert_identity_header lib ''X-User-Roles'' (str_join '','' (ui_roles identity)) '''' h
          else Some h)))"

definition add_custom_header :: "'uri http_lib \<Rightarrow> string \<times> string \<Rightarrow> http_headers \<Rightarrow> http_headers" where
  "add_custom_header lib kv h =
     (case http_name lib (fst kv) of None \<Rightarrow> h
      | Some n \<Rightarrow> hdr_insert n (unwrap_or (http_value lib (snd kv)) (Visible '''')) h)"

definition remove_custom_header :: "'uri http_lib \<Rightarrow> string \<Rightarrow> http_headers \<Rightarrow> http_headers" where
  "remove_custom_header lib key h =
     (case http_name lib key of None \<Rightarrow> h | Some n \<Rightarrow> hdr_remove n h)"

definition inject_path_prefix :: "'uri http_lib \<Rightarrow> string option \<Rightarrow> 'uri \<Rightarrow> 'uri" where
  "inject_path_prefix lib pfx uri =
     (case pfx of None \<Rightarrow> uri
      | Some p \<Rightarrow> unwrap_or (uri_parse lib (trim_end_char CHR ''/'' p @ uri_to_string lib uri)) uri)"

definition keep_query_pair :: "string list \<Rightarrow> string \<Rightarrow> bool" where
  "keep_query_pair params pair = (\<not> list_ex (\<lambda>s. s = hd (str_split CHR ''='' pair)) params)"

definition stripped_uri :: "string list \<Rightarrow> string \<Rightarrow> string option" where
  "stripped_uri params original =
     (case split_once CHR ''?'' original of None \<Rightarrow> None
      | Some (path, query) \<Rightarrow>
          (let remaining = filter (keep_query_pair params) (str_split CHR ''&'' query)
           in Some (if remaining = [] then path else path @ ''?'' @ str_join ''&'' remaining)))"

definition strip_query :: "'uri http_lib \<Rightarrow> string list \<Rightarrow> 'uri \<Rightarrow> 'uri" where
  "strip_query lib params uri =
     (if params \<noteq> []
      then (case stripped_uri params (uri_to_string lib uri) of None \<Rightarrow> uri
            | Some new_uri \<Rightarrow> unwrap_or (uri_parse lib new_uri) uri)
      else uri)"

definition apply_request_transform ::
  "'uri http_lib \<Rightarrow> 'uri request_header \<Rightarrow> request_transform \<Rightarrow> user_identity option
    \<Rightarrow> 'uri request_header option" where
  "apply_request_transform lib request t user_identity =
     Option.bind (inject_identity lib user_identity (rh_headers request)) (\<lambda>h.
       let h = fold (add_custom_header lib) (add_headers t) h;
           h = fold (remove_custom_header lib) (remove_headers t) h;
           uri = inject_path_prefix lib (path_prefix_to_add t) (rh_uri request);
           uri = strip_query lib (strip_query_params t) uri
       in Some (request\<lparr> rh_headers := h, rh_uri := uri \<rparr>))"

section \<open>Header facts\<close>

named_theorems header_names \<open>lower-case forms of the header names in use\<close>

lemma lower_names [header_names]:
  "to_ascii_lowercase ''X-User-Id'' = ''x-user-id''"
  "to_ascii_lowercase ''X-User-Email'' = ''x-user-email''"
  "to_ascii_lowercase ''X-User-Roles'' = ''x-user-roles''"
  "to_ascii_lowercase ''Access-Control-Allow-Origin'' = ''access-control-allow-origin''"
  "to_ascii_lowercase ''Access-Control-Allow-Methods'' = ''access-control-allow-methods''"
  "to_ascii_lowercase ''Access-Control-Allow-Headers'' = ''access-control-allow-headers''"
  "to_ascii_lowercase ''Access-Control-Max-Age'' = ''access-control-max-age''"
  "to_ascii_lowercase ''Access-Control-Allow-Credentials'' = ''access-control-allow-credentials''"
  "to_ascii_lowercase ''Access-Control-Expose-Headers'' = ''access-control-expose-headers''"
  by (simp_all add: to_ascii_lowercase_def char_of_def bit_0)

lemma http_name_canonical: "http_contract lib \<Longrightarrow> http_name lib s = Some n \<Longrightarrow> n = to_ascii_lowercase s"
  by (simp add: http_contract_def)

lemma http_value_visible: "http_contract lib \<Longrightarrow> http_value lib s = Some v \<Longrightarrow> v = Visible s"
  by (simp add: http_contract_def)

lemma http_name_token:
  assumes "http_contract lib" "s \<noteq> []" "length s < 65536" "list_all token_char s"
  shows "http_name lib s = Some (to_ascii_lowercase s)"
  using assms http_name_canonical [OF assms(1)] unfolding http_contract_def by (cases "http_name lib s") auto

lemma literal_names:
  assumes "http_contract lib"
  shows "http_name lib ''X-User-Id'' = Some ''x-user-id''"
    "http_name lib ''X-User-Email'' = Some ''x-user-email''"
    "http_name lib ''X-User-Roles'' = Some ''x-user-roles''"
    "http_name lib ''Access-Control-Allow-Origin'' = Some ''access-control-allow-origin''"
    "http_name lib ''Access-Control-Allow-Methods'' = Some ''access-control-allow-methods''"
    "http_name lib ''Access-Control-Allow-Headers'' = Some ''access-control-allow-headers''"
    "http_name lib ''Access-Control-Max-Age'' = Some ''access-control-max-age''"
    "http_name lib ''Access-Control-Allow-Credentials'' = Some ''access-control-allow-credentials''"
    "http_name lib ''Access-Control-Expose-Headers'' = Some ''access-control-expose-headers''"
  by (simp_all add: http_name_token [OF assms] token_char_def header_names)

lemma insert_header_other:
  assumes "http_contract lib" and "n \<noteq> to_ascii_lowercase name"
  shows "insert_header lib name value h n = h n"
  using assms by (auto simp: insert_header_def hdr_insert_def dest!: http_name_canonical split: option.splits)

lemma insert_header_cong:
  assumes "h n = h' n"
  shows "insert_header lib name value h n = insert_header lib name value h' n"
  using assms by (auto simp: insert_header_def hdr_insert_def split: option.splits)

lemma insert_header_visible:
  assumes "http_contract lib" "http_name lib name = Some n" "http_value lib value \<noteq> None"
  shows "insert_header lib name value h = h(n := [Visible value])"
  using assms http_value_visible [OF assms(1)] http_name_canonical [OF assms(1,2)]
  by (auto simp: insert_header_def hdr_insert_def)

section \<open>CORS facts\<close>

lemma wildcard_domain_iff:
  "(starts_with allowed ''*.'' \<and> ends_with origin (drop 1 allowed)) \<longleftrightarrow>
    (\<exists>domain label. allowed = ''*.'' @ domain \<and> origin = label @ ''.'' @ domain)"
  unfolding starts_with_def ends_with_def by (auto elim!: prefixE suffixE intro: suffixI)

lemma is_origin_allowed_iff:
  "is_origin_allowed origin cors \<longleftrightarrow> ''*'' \<in> set (allowed_origins cors) \<or> origin \<in> set (allowed_origins cors) \<or>
     (\<exists>domain label. ''*.'' @ domain \<in> set (allowed_origins cors) \<and> origin = label @ ''.'' @ domain)"
  unfolding is_origin_allowed_def list_ex_iff wildcard_domain_iff by auto

lemma preflight_response_agree:
  assumes "http_contract lib" and "grc_cors cfg = Some cors"
    and "handle_cors_preflight lib headers cfg = PreflightOk resp"
    and "name \<noteq> ''access-control-max-age''"
  shows "rs_headers resp name =
    add_cors_headers lib cfg (unwrap_or (hdr_str headers ''origin'') '''') (\<lambda>_. []) name"
proof -
  have drop: "insert_header lib ''Access-Control-Max-Age'' v h name = h name" for v h
    using insert_header_other [OF assms(1)] assms(4) by (simp add: header_names)
  show ?thesis
    using assms(2,3)
    by (auto simp: handle_cors_preflight_def add_cors_headers_def Let_def drop
        intro!: insert_header_cong split: if_splits)
qed

section \<open>Query facts\<close>

lemma stripped_uri_pairs:
  assumes "CHR ''?'' \<notin> set path" "ps \<noteq> []" "\<forall>p\<in>set ps. CHR ''&'' \<notin> set p"
  shows "stripped_uri params (path @ ''?'' @ str_join ''&'' ps) =
    Some (if filter (keep_query_pair params) ps = [] then path
          else path @ ''?'' @ str_join ''&'' (filter (keep_query_pair params) ps))"
  using assms by (simp add: stripped_uri_def split_once_append str_split_join Let_def)

lemma keep_query_pair_iff:
  "CHR ''='' \<notin> set k \<Longrightarrow> keep_query_pair params (k @ ''='' @ v) \<longleftrightarrow> k \<notin> set params"
  by (auto simp: keep_query_pair_def list_ex_iff str_split_append_sep)

section \<open>A concrete instance\<close>

definition w_http :: "string http_lib" where
  "w_http = \<lparr>
     http_name = (\<lambda>s. if s \<noteq> [] \<and> list_all token_char s then Some (to_ascii_lowercase s) else None),
     http_value = (\<lambda>s. if list_all visible_char s then Some (Visible s) else None),
     uri_parse = (\<lambda>s. if s = [] then None else Some s), uri_to_string = (\<lambda>u. u),
     uri_path = takeWhile (\<lambda>c. c \<noteq> CHR ''?''),
     uri_query = (\<lambda>u. map_option snd (split_once CHR ''?'' u)), uri_authority = (\<lambda>_. None) \<rparr>"

lemma w_http_contract: "http_contract w_http"
  by (simp add: http_contract_def w_http_def)

end
