(* ===== verification/Upstream.thy ===== *)
theory Upstream
  imports App_Types Socket_Policy Float64
begin

text \<open>
  Where requests go: the registry of live instances with its round-robin counters
  (\<open>crates/proxy/src/upstream/mod.rs\<close>), the health checker that probes them
  (\<open>upstream_health.rs\<close>), the table of cluster nodes (\<open>node_table.rs\<close>), the backpressure flag
  (\<open>backpressure.rs\<close>) and the choice of an upstream (\<open>service/upstream_selection.rs\<close>). Host name
  look-up, the HTTP probe and the cold start of an instance are arguments.
\<close>

section \<open>Registry of instances\<close>

record upstream_endpoint =
  ue_addr :: socket_addr
  ue_h2c :: bool

record app_health_check_config =
  hcc_path :: string
  hcc_expected_status :: u16
  hcc_interval :: nat
  hcc_timeout :: nat
  hcc_failure_threshold :: u32
  hcc_success_threshold :: u32

definition app_health_check_config_default :: app_health_check_config where
  "app_health_check_config_default = \<lparr> hcc_path = ''/health'', hcc_expected_status = 200,
     hcc_interval = from_secs 10, hcc_timeout = from_secs 5, hcc_failure_threshold = 3,
     hcc_success_threshold = 2 \<rparr>"

text \<open>The argument is \<open>health_check_path\<close> of the application's configuration.\<close>

definition health_check_from_app_config :: "string option \<Rightarrow> app_health_check_config option" where
  "health_check_from_app_config health_check_path =
     map_option (\<lambda>path. app_health_check_config_default\<lparr> hcc_path := path \<rparr>) health_check_path"

record app_health_state =
  ahs_consecutive_successes :: u32
  ahs_consecutive_failures :: u32
  ahs_healthy :: bool

record upstream_registry =
  ur_inner :: "(string, u64 \<times> upstream_endpoint list) hmap"
  ur_health_configs :: "(string, app_health_check_config) hmap"
  ur_health_state :: "(string, app_health_state) hmap"
  ur_app_health :: "(string, u32 \<times> u32) hmap"

definition upstream_registry_new :: upstream_registry where
  "upstream_registry_new = \<lparr> ur_inner = [], ur_health_configs = [], ur_health_state = [],
     ur_app_health = [] \<rparr>"

definition upstream_add :: "app_id \<Rightarrow> upstream_endpoint \<Rightarrow> upstream_registry \<Rightarrow> upstream_registry" where
  "upstream_add app endpoint r =
     (let (counter, es) = hm_or_insert (ur_inner r) (app_id_as_str app) (0, []);
          es = (if \<not> list_ex (\<lambda>e. ue_addr e = ue_addr endpoint) es then es @ [endpoint] else es)
      in r\<lparr> ur_inner := hm_insert (app_id_as_str app) (counter, es) (ur_inner r) \<rparr>)"

definition upstream_remove :: "app_id \<Rightarrow> socket_addr \<Rightarrow> upstream_registry \<Rightarrow> upstream_registry" where
  "upstream_remove app addr r =
     (case hm_get (ur_inner r) (app_id_as_str app) of None \<Rightarrow> r
      | Some (counter, es) \<Rightarrow>
          (let es = filter (\<lambda>e. ue_addr e \<noteq> addr) es
           in if es = [] then r\<lparr> ur_inner := hm_remove (app_id_as_str app) (ur_inner r) \<rparr>
              else r\<lparr> ur_inner := hm_insert (app_id_as_str app) (counter, es) (ur_inner r) \<rparr>))"

text \<open>The counter is a \<open>usize\<close>; \<open>fetch_add\<close> wraps.\<close>

definition upstream_next ::
  "app_id \<Rightarrow> upstream_registry \<Rightarrow> upstream_endpoint option \<times> upstream_registry" where
  "upstream_next app r =
     (case hm_get (ur_inner r) (app_id_as_str app) of None \<Rightarrow> (None, r)
      | Some (counter, es) \<Rightarrow>
          if es = [] then (None, r)
          else (Some (es ! (unat counter mod length es)),
                r\<lparr> ur_inner := hm_insert (app_id_as_str app) (counter + 1, es) (ur_inner r) \<rparr>))"

definition upstream_count :: "app_id \<Rightarrow> upstream_registry \<Rightarrow> nat" where
  "upstream_count app r =
     unwrap_or (map_option (\<lambda>(_, es). length es) (hm_get (ur_inner r) (app_id_as_str app))) 0"

definition register_health_check ::
  "string \<Rightarrow> app_health_check_config \<Rightarrow> upstream_registry \<Rightarrow> upstream_registry" where
  "register_health_check app config r =
     r\<lparr> ur_health_configs := hm_insert app config (ur_health_configs r),
        ur_health_state := hm_insert app \<lparr> ahs_consecutive_successes = 0, ahs_consecutive_failures = 0,
          ahs_healthy = True \<rparr> (ur_health_state r) \<rparr>"

definition remove_health_check :: "string \<Rightarrow> upstream_registry \<Rightarrow> upstream_registry" where
  "remove_health_check app r =
     r\<lparr> ur_health_configs := hm_remove app (ur_health_configs r),
        ur_health_state := hm_remove app (ur_health_state r) \<rparr>"

definition health_step :: "app_health_check_config \<Rightarrow> bool \<Rightarrow> app_health_state \<Rightarrow> app_health_state" where
  "health_step config success s =
     (if success
      then (let s = s\<lparr> ahs_consecutive_successes := ahs_consecutive_successes s + 1,
                       ahs_consecutive_failures := 0 \<rparr>
            in if ahs_consecutive_successes s \<ge> hcc_success_threshold config \<and> \<not> ahs_healthy s
               then s\<lparr> ahs_healthy := True \<rparr> else s)
      else (let s = s\<lparr> ahs_consecutive_failures := ahs_consecutive_failures s + 1,
                       ahs_consecutive_successes := 0 \<rparr>
            in if ahs_consecutive_failures s \<ge> hcc_failure_threshold config \<and> ahs_healthy s
               then s\<lparr> ahs_healthy := False \<rparr> else s))"

definition record_health_result :: "string \<Rightarrow> bool \<Rightarrow> upstream_registry \<Rightarrow> upstream_registry" where
  "record_health_result app success r =
     (case (hm_get (ur_health_state r) app, hm_get (ur_health_configs r) app) of
        (Some s, Some config) \<Rightarrow>
          r\<lparr> ur_health_state := hm_insert app (health_step config success s) (ur_health_state r) \<rparr>
      | _ \<Rightarrow> r)"

definition is_app_healthy :: "string \<Rightarrow> upstream_registry \<Rightarrow> bool" where
  "is_app_healthy app r = unwrap_or (map_option ahs_healthy (hm_get (ur_health_state r) app)) True"

definition next_healthy ::
  "app_id \<Rightarrow> upstream_registry \<Rightarrow> upstream_endpoint option \<times> upstream_registry" where
  "next_healthy app r =
     (if hm_get (ur_health_configs r) (app_id_as_str app) = None then upstream_next app r
      else if is_app_healthy (app_id_as_str app) r then upstream_next app r
      else (None, r))"

section \<open>Health checker\<close>

text \<open>
  \<open>http_get\<close> stands for the HTTP client: the address and path of the URL and the timeout, to the
  status of the response.
\<close>

definition health_probe ::
  "(socket_addr \<Rightarrow> string \<Rightarrow> nat \<Rightarrow> (string, u16) result) \<Rightarrow> upstream_endpoint
    \<Rightarrow> app_health_check_config \<Rightarrow> (string, unit) result" where
  "health_probe http_get endpoint config =
     (case http_get (ue_addr endpoint) (hcc_path config) (hcc_timeout config) of
        Inl e \<Rightarrow> Err (''request failed: '' @ e)
      | Inr status \<Rightarrow>
          if status = hcc_expected_status config then Ok ()
          else Err (''expected status '' @ show_nat (unat (hcc_expected_status config)) @ '', got ''
                    @ show_nat (unat status)))"

definition check_app ::
  "(socket_addr \<Rightarrow> string \<Rightarrow> nat \<Rightarrow> (string, u16) result) \<Rightarrow> string \<times> app_health_check_config
    \<Rightarrow> upstream_registry \<Rightarrow> upstream_registry" where
  "check_app http_get ac r =
     (case ac of (app, config) \<Rightarrow>
        (case hm_get (ur_inner r) app of None \<Rightarrow> r
         | Some (_, es) \<Rightarrow>
             (let healthy_count = (of_nat (length (filter (\<lambda>e. is_ok (health_probe http_get e config)) es)) :: u32);
                  total = of_nat (length es);
                  r = r\<lparr> ur_app_health := hm_insert app (healthy_count, total) (ur_app_health r) \<rparr>
              in record_health_result app (healthy_count > 0) r)))"

definition check_all_apps ::
  "(socket_addr \<Rightarrow> string \<Rightarrow> nat \<Rightarrow> (string, u16) result) \<Rightarrow> upstream_registry \<Rightarrow> upstream_registry" where
  "check_all_apps http_get r = fold (check_app http_get) (ur_health_configs r) r"

section \<open>Cluster nodes\<close>

datatype node_health_status = NodeHealthy | NodeDegraded | NodeUnhealthy

text \<open>Percentages are \<open>f32\<close>; only their order is used.\<close>

record node_entry =
  ne_node_id :: string
  ne_proxy_address :: string
  ne_fuel_used_percent :: f64
  ne_active_instances :: u32
  ne_last_seen :: u64
  ne_health_status :: node_health_status

text \<open>
  \<open>now\<close> is the system time in seconds since the epoch, \<open>None\<close> if it lies before it. The
  subtraction wraps, as in a release build.
\<close>

definition is_stale :: "u64 option \<Rightarrow> node_entry \<Rightarrow> bool" where
  "is_stale now n = (case now of None \<Rightarrow> False | Some t \<Rightarrow> t - ne_last_seen n > 30)"

record node_load_table =
  nlt_nodes :: "(string, node_entry) hmap"
  nlt_unhealthy :: "string list"

definition node_update :: "node_entry \<Rightarrow> node_load_table \<Rightarrow> node_load_table" where
  "node_update entry t = t\<lparr> nlt_nodes := hm_insert (ne_node_id entry) entry (nlt_nodes t) \<rparr>"

text \<open>
  \<open>min_by\<close> with \<open>partial_cmp\<close>, incomparable values counting as equal: a later element replaces
  the best so far only when that one is greater.
\<close>

fun min_by_fuel :: "node_entry list \<Rightarrow> node_entry option" where
  "min_by_fuel [] = None"
| "min_by_fuel (n # ns) =
     Some (fold (\<lambda>y x. if f64_gt (ne_fuel_used_percent x) (ne_fuel_used_percent y) then y else x) ns n)"

definition least_loaded_node :: "u64 option \<Rightarrow> node_load_table \<Rightarrow> node_entry option" where
  "least_loaded_node now t =
     min_by_fuel (filter (\<lambda>n. \<not> is_stale now n \<and> ne_node_id n \<notin> set (nlt_unhealthy t) \<and>
       ne_health_status n \<noteq> NodeUnhealthy) (map snd (nlt_nodes t)))"

definition least_loaded_other_node :: "u64 option \<Rightarrow> string \<Rightarrow> node_load_table \<Rightarrow> node_entry option" where
  "least_loaded_other_node now local_node_id t =
     min_by_fuel (filter (\<lambda>n. ne_node_id n \<noteq> local_node_id \<and> \<not> is_stale now n \<and>
       ne_node_id n \<notin> set (nlt_unhealthy t) \<and> ne_health_status n \<noteq> NodeUnhealthy) (map snd (nlt_nodes t)))"

definition update_health :: "string \<Rightarrow> node_health_status \<Rightarrow> node_load_table \<Rightarrow> node_load_table" where
  "update_health node_id status t =
     (case hm_get (nlt_nodes t) node_id of None \<Rightarrow> t
      | Some n \<Rightarrow> t\<lparr> nlt_nodes := hm_insert node_id (n\<lparr> ne_health_status := status \<rparr>) (nlt_nodes t) \<rparr>)"

definition mark_unhealthy :: "string \<Rightarrow> node_load_table \<Rightarrow> node_load_table" where
  "mark_unhealthy node_id t =
     (if node_id \<notin> set (nlt_unhealthy t) then t\<lparr> nlt_unhealthy := node_id # nlt_unhealthy t \<rparr> else t)"

definition mark_healthy :: "string \<Rightarrow> node_load_table \<Rightarrow> node_load_table" where
  "mark_healthy node_id t = t\<lparr> nlt_unhealthy := removeAll node_id (nlt_unhealthy t) \<rparr>"

definition is_unhealthy :: "string \<Rightarrow> node_load_table \<Rightarrow> bool" where
  "is_unhealthy node_id t = (node_id \<in> set (nlt_unhealthy t))"

section \<open>Backpressure\<close>

type_synonym backpressure_signal = bool

definition backpressure_new :: backpressure_signal where
  "backpressure_new = True"

definition is_accepting :: "backpressure_signal \<Rightarrow> bool" where
  "is_accepting s = s"

definition set_rejecting :: "backpressure_signal \<Rightarrow> backpressure_signal" where
  "set_rejecting s = False"

definition set_accepting :: "backpressure_signal \<Rightarrow> backpressure_signal" where
  "set_accepting s = True"

section \<open>Choice of an upstream\<close>

definition remote_steer_fuel_threshold_percent :: f64 where
  "remote_steer_fuel_threshold_percent = F64 80"

definition node_is_overloaded :: "string \<Rightarrow> node_load_table \<Rightarrow> bool" where
  "node_is_overloaded local_node_id t =
     (if is_unhealthy local_node_id t then True
      else (case hm_get (nlt_nodes t) local_node_id of None \<Rightarrow> False
            | Some n \<Rightarrow> ne_health_status n = NodeUnhealthy \<or>
                f64_le remote_steer_fuel_threshold_percent (ne_fuel_used_percent n)))"

text \<open>
  \<open>cold_start\<close> starts an instance, which registers itself; \<open>lookup_host\<close> resolves a host and port.
\<close>

definition cold_start_upstream ::
  "(app_id \<Rightarrow> upstream_registry \<Rightarrow> socket_addr option \<times> upstream_registry) \<Rightarrow> app_id
    \<Rightarrow> upstream_registry \<Rightarrow> upstream_endpoint option \<times> upstream_registry" where
  "cold_start_upstream cold_start app r =
     (case cold_start app r of
        (None, r) \<Rightarrow> (None, r)
      | (Some _, r) \<Rightarrow> upstream_next app r)"

definition select_upstream ::
  "(string \<Rightarrow> (string, socket_addr list) result)
    \<Rightarrow> (app_id \<Rightarrow> upstream_registry \<Rightarrow> socket_addr option \<times> upstream_registry)
    \<Rightarrow> u64 option \<Rightarrow> string \<Rightarrow> node_load_table \<Rightarrow> app_id \<Rightarrow> upstream_registry
    \<Rightarrow> upstream_endpoint option \<times> upstream_registry" where
  "select_upstream lookup_host cold_start now local_node_id nodes app r =
     (case upstream_next app r of
        (Some endpoint, r) \<Rightarrow> (Some endpoint, r)
      | (None, r) \<Rightarrow>
          if node_is_overloaded local_node_id nodes
          then (case least_loaded_other_node now local_node_id nodes of
                  Some node \<Rightarrow>
                    (case lookup_host (ne_proxy_address node) of
                       Inr (addr # _) \<Rightarrow> (Some \<lparr> ue_addr = addr, ue_h2c = False \<rparr>, r)
                     | _ \<Rightarrow> cold_start_upstream cold_start app r)
                | None \<Rightarrow> cold_start_upstream cold_start app r)
          else cold_start_upstream cold_start app r)"

section \<open>The registry as a machine\<close>

datatype upstream_call =
    UpAdd app_id upstream_endpoint
  | UpRemove app_id socket_addr
  | UpNext app_id
  | UpRegisterHealth string app_health_check_config
  | UpRemoveHealth string
  | UpHealthResult string bool

fun upstream_step :: "upstream_call \<Rightarrow> upstream_registry \<Rightarrow> upstream_registry" where
  "upstream_step (UpAdd app e) r = upstream_add app e r"
| "upstream_step (UpRemove app a) r = upstream_remove app a r"
| "upstream_step (UpNext app) r = snd (upstream_next app r)"
| "upstream_step (UpRegisterHealth app c) r = register_health_check app c r"
| "upstream_step (UpRemoveHealth app) r = remove_health_check app r"
| "upstream_step (UpHealthResult app b) r = record_health_result app b r"

text \<open>
  The endpoints of an application, and the invariant: every entry lists at least one endpoint, no
  address twice, and health states exist exactly for the applications with a health check.
\<close>

definition endpoints :: "upstream_registry \<Rightarrow> app_id \<Rightarrow> upstream_endpoint list" where
  "endpoints r app = (case hm_get (ur_inner r) (app_id_as_str app) of None \<Rightarrow> [] | Some (_, es) \<Rightarrow> es)"

definition entry_ok :: "u64 \<times> upstream_endpoint list \<Rightarrow> bool" where
  "entry_ok v \<longleftrightarrow> snd v \<noteq> [] \<and> distinct (map ue_addr (snd v))"

definition registry_inv :: "upstream_registry \<Rightarrow> bool" where
  "registry_inv r \<longleftrightarrow> hm_wf (ur_inner r) \<and> (\<forall>app v. hm_get (ur_inner r) app = Some v \<longrightarrow> entry_ok v) \<and>
     (\<forall>app. (hm_get (ur_health_state r) app = None) = (hm_get (ur_health_configs r) app = None))"

lemma registry_inv_new: "registry_inv upstream_registry_new"
  by (simp add: registry_inv_def upstream_registry_new_def)

lemma entry_ok_add:
  assumes "v = (0, []) \<or> entry_ok v"
  shows "entry_ok (fst v, if \<not> list_ex (\<lambda>x. ue_addr x = ue_addr e) (snd v) then snd v @ [e] else snd v)"
  using assms by (auto simp: entry_ok_def list_ex_iff)

lemma registry_inv_add:
  assumes "registry_inv r"
  shows "registry_inv (upstream_add app e r)"
proof -
  let ?v = "hm_or_insert (ur_inner r) (app_id_as_str app) (0, [])"
  have "?v = (0, []) \<or> entry_ok ?v"
    using assms by (auto simp: registry_inv_def hm_or_insert_def split: option.splits)
  from entry_ok_add [OF this, of e] assms show ?thesis
    by (auto simp: registry_inv_def upstream_add_def case_prod_unfold Let_def)
qed

lemma registry_inv_remove:
  assumes "registry_inv r"
  shows "registry_inv (upstream_remove app addr r)"
  using assms by (auto simp: registry_inv_def upstream_remove_def entry_ok_def Let_def distinct_map_filter
      split: option.splits)

lemma registry_inv_next:
  assumes "registry_inv r"
  shows "registry_inv (snd (upstream_next app r))"
  using assms by (auto simp: registry_inv_def upstream_next_def entry_ok_def split: option.splits)

lemma registry_inv_health:
  assumes "registry_inv r"
  shows "registry_inv (register_health_check a c r)" "registry_inv (remove_health_check a r)"
    "registry_inv (record_health_result a b r)"
  using assms by (auto simp: registry_inv_def register_health_check_def remove_health_check_def
      record_health_result_def split: option.splits)

interpretation up: call_machine upstream_step registry_inv
proof unfold_locales
  fix s e
  assume "registry_inv s"
  then show "registry_inv (upstream_step e s)"
    by (cases e) (simp_all add: registry_inv_add registry_inv_remove registry_inv_next registry_inv_health)
qed

lemma next_None_iff:
  "registry_inv r \<Longrightarrow> fst (upstream_next app r) = None \<longleftrightarrow> endpoints r app = []"
  by (auto simp: registry_inv_def upstream_next_def endpoints_def entry_ok_def split: option.splits)

lemma next_in_endpoints: "fst (upstream_next app r) = Some e \<Longrightarrow> e \<in> set (endpoints r app)"
  by (auto simp: upstream_next_def endpoints_def split: option.splits if_splits)

lemma endpoints_next: "endpoints (snd (upstream_next app' r)) app = endpoints r app"
  by (auto simp: upstream_next_def endpoints_def split: option.splits)

lemma endpoints_add:
  "endpoints (upstream_add app e r) app' = (if app_id_as_str app' \<noteq> app_id_as_str app then endpoints r app'
     else if ue_addr e \<in> ue_addr ` set (endpoints r app) then endpoints r app
     else endpoints r app @ [e])"
  by (auto simp: upstream_add_def endpoints_def hm_or_insert_def Let_def list_ex_iff split: option.splits)
    (metis image_eqI)

lemma endpoints_remove:
  "endpoints (upstream_remove app addr r) app' = (if app_id_as_str app' \<noteq> app_id_as_str app then endpoints r app'
     else filter (\<lambda>e. ue_addr e \<noteq> addr) (endpoints r app))"
  by (auto simp: upstream_remove_def endpoints_def Let_def split: option.splits)

section \<open>Round robin\<close>

fun next_many :: "nat \<Rightarrow> app_id \<Rightarrow> upstream_registry \<Rightarrow> upstream_endpoint option list \<times> upstream_registry" where
  "next_many 0 app r = ([], r)"
| "next_many (Suc n) app r =
     (let (e, r) = upstream_next app r; (es, r) = next_many n app r in (e # es, r))"

lemma upstream_next_at:
  assumes "hm_get (ur_inner r) (app_id_as_str app) = Some (c, es)" and "es \<noteq> []"
  shows "fst (upstream_next app r) = Some (es ! (unat c mod length es))"
    and "hm_get (ur_inner (snd (upstream_next app r))) (app_id_as_str app) = Some (c + 1, es)"
  using assms by (simp_all add: upstream_next_def)

lemma unat_counter_Suc: "unat c + 1 < 2 ^ 64 \<Longrightarrow> unat (c + 1 :: u64) = Suc (unat c)"
  by (simp add: unat_word_ariths)

lemma next_many_nth:
  assumes "hm_get (ur_inner r) (app_id_as_str app) = Some (c, es)" and "es \<noteq> []"
    and "unat c + m \<le> 2 ^ 64"
  shows "fst (next_many m app r) = map (\<lambda>i. Some (es ! ((unat c + i) mod length es))) [0..<m]"
  using assms
proof (induction m arbitrary: r c)
  case (Suc m)
  note at = upstream_next_at [OF Suc.prems(1,2)]
  have tail: "fst (next_many m app (snd (upstream_next app r))) =
      map (\<lambda>i. Some (es ! ((unat c + Suc i) mod length es))) [0..<m]"
  proof (cases "m = 0")
    case False
    then have "unat (c + 1) = Suc (unat c)"
      using Suc.prems(3) by (intro unat_counter_Suc) simp
    with Suc.IH [OF at(2) Suc.prems(2)] Suc.prems(3) show ?thesis by simp
  qed simp
  have "fst (next_many (Suc m) app r) = Some (es ! (unat c mod length es)) #
      map (\<lambda>i. Some (es ! ((unat c + Suc i) mod length es))) [0..<m]"
    using at(1) tail by (simp add: case_prod_unfold)
  then show ?case
    by (simp add: map_upt_Suc del: upt_Suc)
qed simp

lemma map_mod_rotate:
  assumes "es \<noteq> []"
  shows "map (\<lambda>i. es ! ((k + i) mod length es)) [0..<length es] = rotate k es"
  using assms by (intro nth_equalityI) (simp_all add: nth_rotate add.commute)

lemma count_list_rotate1: "count_list (rotate1 xs) x = count_list xs x"
  by (cases xs) auto

lemma count_list_rotate: "count_list (rotate k xs) x = count_list xs x"
  by (induction k) (simp_all add: count_list_rotate1)

lemma count_list_distinct: "distinct xs \<Longrightarrow> x \<in> set xs \<Longrightarrow> count_list xs x = 1"
  by (induction xs) (auto simp: count_notin)

lemma count_list_map_Some: "count_list (map Some xs) (Some x) = count_list xs x"
  by (induction xs) auto

lemma mod_block: "(k + (m * n + i)) mod n = (k + i) mod (n :: nat)"
proof -
  have "k + (m * n + i) = (k + i) + m * n" by simp
  then show ?thesis by (simp only: mod_mult_self1)
qed

lemma round_robin_block:
  assumes "distinct es" and "e \<in> set es"
  shows "count_list (map (\<lambda>i. es ! ((k + i) mod length es)) [0..<m * length es]) e = m"
proof (induction m)
  case (Suc m)
  have ne: "es \<noteq> []" using assms by auto
  have "[0..<Suc m * length es] = [0..<m * length es] @ map (\<lambda>i. m * length es + i) [0..<length es]"
    using upt_add_eq_append [of 0 "m * length es" "length es"] map_add_upt [of "m * length es" "length es"]
    by (simp add: add.commute)
  moreover have "map (\<lambda>i. es ! ((k + (m * length es + i)) mod length es)) [0..<length es] = rotate k es"
    unfolding map_mod_rotate [OF ne, symmetric]
    by (simp only: mod_block)
  ultimately show ?case
    using Suc assms by (simp add: comp_def count_list_rotate count_list_distinct)
qed simp

section \<open>Health\<close>

definition run_in :: "bool \<Rightarrow> nat \<Rightarrow> bool list \<Rightarrow> bool" where
  "run_in b n xs \<longleftrightarrow> (\<exists>u v. xs = u @ replicate n b @ v)"

text \<open>The results end an outage: enough failures in a row, and not enough successes in a row since.\<close>

definition outage :: "nat \<Rightarrow> nat \<Rightarrow> bool list \<Rightarrow> bool" where
  "outage ft st rs \<longleftrightarrow> (\<exists>a b. rs = a @ replicate ft False @ b \<and> \<not> run_in True st b)"

definition trailing :: "bool \<Rightarrow> bool list \<Rightarrow> nat" where
  "trailing b xs = length (takeWhile (\<lambda>x. x = b) (rev xs))"

lemma trailing_simps [simp]:
  "trailing b [] = 0"
  "trailing b (xs @ [x]) = (if x = b then Suc (trailing b xs) else 0)"
  by (simp_all add: trailing_def)

lemma trailing_le: "trailing b xs \<le> length xs"
  by (metis trailing_def length_rev length_takeWhile_le)

lemma trailing_append_stop: "trailing b (xs @ [\<not> b] @ ys) = trailing b ys"
  by (simp add: trailing_def takeWhile_tail)

lemma trailing_ge_iff: "n \<le> trailing b xs \<longleftrightarrow> (\<exists>u. xs = u @ replicate n b)"
proof (induction n arbitrary: xs)
  case (Suc n)
  show ?case
  proof (cases xs rule: rev_cases)
    case (snoc ys y)
    have "replicate (Suc n) b = replicate n b @ [b]"
      by (simp add: replicate_append_same)
    then show ?thesis
      using Suc.IH [of ys] snoc by (auto simp flip: append_assoc)
  qed simp
qed simp

lemma run_in_snoc:
  assumes "0 < n"
  shows "run_in b n (xs @ [x]) \<longleftrightarrow> run_in b n xs \<or> n \<le> trailing b (xs @ [x])"
proof
  assume "run_in b n (xs @ [x])"
  then obtain u v where uv: "xs @ [x] = u @ replicate n b @ v"
    by (auto simp: run_in_def)
  show "run_in b n xs \<or> n \<le> trailing b (xs @ [x])"
  proof (cases v rule: rev_cases)
    case Nil
    then have "n \<le> trailing b (xs @ [x])"
      using uv by (subst trailing_ge_iff) simp
    then show ?thesis ..
  next
    case (snoc v' y)
    then have "xs = u @ replicate n b @ v'"
      using uv by (simp flip: append_assoc)
    then show ?thesis
      by (auto simp: run_in_def)
  qed
next
  assume "run_in b n xs \<or> n \<le> trailing b (xs @ [x])"
  then show "run_in b n (xs @ [x])"
  proof
    assume "run_in b n xs"
    then obtain u v where "xs @ [x] = u @ replicate n b @ v @ [x]"
      by (auto simp: run_in_def)
    then show ?thesis
      unfolding run_in_def by blast
  next
    assume "n \<le> trailing b (xs @ [x])"
    then obtain u where "xs @ [x] = u @ replicate n b @ []"
      unfolding trailing_ge_iff by auto
    then show ?thesis
      unfolding run_in_def by blast
  qed
qed

lemma replicate_pos_snoc: "0 < n \<Longrightarrow> replicate n x = replicate (n - 1) x @ [x]"
  by (cases n) (simp_all add: replicate_append_same)

lemma trailing_after_failures:
  assumes "0 < ft"
  shows "trailing True (a @ replicate ft False @ b) = trailing True b"
  using trailing_append_stop [of True "a @ replicate (ft - 1) False" b] replicate_pos_snoc [OF assms, of False]
  by simp

lemma outage_success:
  assumes "0 < ft" "0 < st"
  shows "outage ft st (rs @ [True]) \<longleftrightarrow> outage ft st rs \<and> trailing True (rs @ [True]) < st"
proof
  assume "outage ft st (rs @ [True])"
  then obtain a b where ab: "rs @ [True] = a @ replicate ft False @ b" and b: "\<not> run_in True st b"
    by (auto simp: outage_def)
  have "b \<noteq> []"
    using ab replicate_pos_snoc [OF assms(1), of False] by (auto simp flip: append_assoc)
  then obtain b' where b': "b = b' @ [True]" "rs = a @ replicate ft False @ b'"
    using ab by (cases b rule: rev_cases) (auto simp flip: append_assoc)
  have "trailing True (rs @ [True]) = trailing True b"
    unfolding ab by (rule trailing_after_failures [OF assms(1)])
  with b b' assms(2) show "outage ft st rs \<and> trailing True (rs @ [True]) < st"
    by (auto simp: outage_def run_in_snoc not_le)
next
  assume *: "outage ft st rs \<and> trailing True (rs @ [True]) < st"
  then obtain a b where ab: "rs = a @ replicate ft False @ b" and b: "\<not> run_in True st b"
    by (auto simp: outage_def)
  have "trailing True (rs @ [True]) = trailing True (b @ [True])"
    unfolding ab using trailing_after_failures [OF assms(1), of a "b @ [True]"] by simp
  with b * assms(2) have "\<not> run_in True st (b @ [True])"
    by (simp add: run_in_snoc)
  then show "outage ft st (rs @ [True])"
    unfolding outage_def ab by (intro exI [of _ a] exI [of _ "b @ [True]"]) simp
qed

lemma not_run_in_Nil: "0 < n \<Longrightarrow> \<not> run_in b n []"
  by (auto simp: run_in_def)

lemma outage_failure:
  assumes "0 < ft" "0 < st"
  shows "outage ft st (rs @ [False]) \<longleftrightarrow> outage ft st rs \<or> ft \<le> trailing False (rs @ [False])"
proof
  assume "outage ft st (rs @ [False])"
  then obtain a b where ab: "rs @ [False] = a @ replicate ft False @ b" and b: "\<not> run_in True st b"
    by (auto simp: outage_def)
  show "outage ft st rs \<or> ft \<le> trailing False (rs @ [False])"
  proof (cases b rule: rev_cases)
    case Nil
    with ab show ?thesis by (subst trailing_ge_iff) auto
  next
    case (snoc b' y)
    with ab have "rs = a @ replicate ft False @ b'"
      by (simp flip: append_assoc)
    moreover have "\<not> run_in True st b'"
      using b snoc assms(2) by (simp add: run_in_snoc)
    ultimately show ?thesis
      by (auto simp: outage_def)
  qed
next
  assume "outage ft st rs \<or> ft \<le> trailing False (rs @ [False])"
  then show "outage ft st (rs @ [False])"
  proof
    assume "outage ft st rs"
    then obtain a b where ab: "rs = a @ replicate ft False @ b" and b: "\<not> run_in True st b"
      by (auto simp: outage_def)
    with assms(2) have "\<not> run_in True st (b @ [False])"
      by (simp add: run_in_snoc)
    then show ?thesis
      unfolding outage_def ab by (intro exI [of _ a] exI [of _ "b @ [False]"]) simp
  next
    assume "ft \<le> trailing False (rs @ [False])"
    then obtain u where "rs @ [False] = u @ replicate ft False @ []"
      unfolding trailing_ge_iff by auto
    then show ?thesis
      unfolding outage_def using not_run_in_Nil [OF assms(2)] by blast
  qed
qed

lemma not_outage_Nil: "0 < ft \<Longrightarrow> \<not> outage ft st []"
  by (auto simp: outage_def)

text \<open>The counters are the lengths of the current runs, and the flag is set outside outages.\<close>

definition tracks :: "app_health_check_config \<Rightarrow> bool list \<Rightarrow> app_health_state \<Rightarrow> bool" where
  "tracks config rs s \<longleftrightarrow> unat (ahs_consecutive_successes s) = trailing True rs \<and>
     unat (ahs_consecutive_failures s) = trailing False rs \<and>
     ahs_healthy s = (\<not> outage (unat (hcc_failure_threshold config)) (unat (hcc_success_threshold config)) rs)"

lemma unat_u32_Suc: "Suc (unat (w :: u32)) < 2 ^ 32 \<Longrightarrow> unat (w + 1) = Suc (unat w)"
  by (simp add: unat_word_ariths)

lemma health_step_tracks:
  assumes "tracks config rs s" and "length rs < 2 ^ 32 - 1"
    and "0 < hcc_failure_threshold config" "0 < hcc_success_threshold config"
  shows "tracks config (rs @ [b]) (health_step config b s)"
proof -
  have ft: "0 < unat (hcc_failure_threshold config)" "0 < unat (hcc_success_threshold config)"
    using assms(3,4) by (simp_all add: word_less_nat_alt)
  have len: "Suc (trailing c rs) < 2 ^ 32" for c
    using trailing_le [of c rs] assms(2) by linarith
  show ?thesis
  proof (cases b)
    case True
    have "unat (ahs_consecutive_successes s + 1) = Suc (trailing True rs)"
      using assms(1) len [of True] by (subst unat_u32_Suc) (simp_all add: tracks_def)
    with True assms(1) show ?thesis
      by (auto simp: tracks_def health_step_def Let_def outage_success [OF ft] word_le_nat_alt)
  next
    case False
    have "unat (ahs_consecutive_failures s + 1) = Suc (trailing False rs)"
      using assms(1) len [of False] by (subst unat_u32_Suc) (simp_all add: tracks_def)
    with False assms(1) show ?thesis
      by (auto simp: tracks_def health_step_def Let_def outage_failure [OF ft] word_le_nat_alt)
  qed
qed

lemma record_health_result_get:
  assumes "hm_get (ur_health_state r) app = Some s" and "hm_get (ur_health_configs r) app = Some config"
  shows "hm_get (ur_health_state (record_health_result app b r)) app = Some (health_step config b s)"
    and "hm_get (ur_health_configs (record_health_result app b r)) app = Some config"
  using assms by (simp_all add: record_health_result_def)

lemma record_results_tracks:
  assumes "length rs < 2 ^ 32" and "0 < hcc_failure_threshold config" "0 < hcc_success_threshold config"
  shows "\<exists>s. hm_get (ur_health_state (fold (record_health_result app) rs (register_health_check app config r))) app
      = Some s \<and> tracks config rs s \<and>
    hm_get (ur_health_configs (fold (record_health_result app) rs (register_health_check app config r))) app
      = Some config"
  using assms(1)
proof (induction rs rule: rev_induct)
  case Nil
  have "0 < unat (hcc_failure_threshold config)"
    using assms(2) by (simp add: word_less_nat_alt)
  then show ?case
    by (simp add: register_health_check_def tracks_def not_outage_Nil)
next
  case (snoc b rs)
  then obtain s where s: "hm_get (ur_health_state (fold (record_health_result app) rs
        (register_health_check app config r))) app = Some s" "tracks config rs s"
      "hm_get (ur_health_configs (fold (record_health_result app) rs
        (register_health_check app config r))) app = Some config"
    by auto
  have "tracks config (rs @ [b]) (health_step config b s)"
    using snoc.prems by (intro health_step_tracks s assms(2,3)) simp
  with record_health_result_get [OF s(1,3), of b] show ?case
    by simp
qed

section \<open>Choice of a node\<close>

lemma f64_le_refl: "x \<noteq> NaN \<Longrightarrow> f64_le x x"
  by (cases x) auto

lemma f64_le_trans: "f64_le x y \<Longrightarrow> f64_le y z \<Longrightarrow> f64_le x z"
  by (cases x; cases y; cases z) auto

lemma f64_le_total: "x \<noteq> NaN \<Longrightarrow> y \<noteq> NaN \<Longrightarrow> \<not> f64_le x y \<Longrightarrow> f64_le y x"
  by (cases x; cases y) auto

definition comparable :: "node_entry list \<Rightarrow> bool" where
  "comparable ns \<longleftrightarrow> (\<forall>n\<in>set ns. ne_fuel_used_percent n \<noteq> NaN)"

lemma min_by_fuel_fold:
  assumes "comparable (n # ns)"
  defines "f \<equiv> \<lambda>y x. if f64_gt (ne_fuel_used_percent x) (ne_fuel_used_percent y) then y else x"
  shows "fold f ns n \<in> set (n # ns) \<and>
    (\<forall>m\<in>set (n # ns). f64_le (ne_fuel_used_percent (fold f ns n)) (ne_fuel_used_percent m))"
  using assms(1)
proof (induction ns arbitrary: n)
  case (Cons y ns)
  have c: "comparable (f y n # ns)" and le: "f64_le (ne_fuel_used_percent (f y n)) (ne_fuel_used_percent n)"
      "f64_le (ne_fuel_used_percent (f y n)) (ne_fuel_used_percent y)" and mem: "f y n \<in> {n, y}"
    using Cons.prems f64_le_total f64_le_refl by (auto simp: comparable_def f_def f64_gt_def)
  from Cons.IH [OF c] le mem show ?case
    by (auto intro: f64_le_trans)
qed (simp add: comparable_def f64_le_refl)

lemma fold_pick_in:
  assumes "\<And>x y. f y x \<in> {x, y}"
  shows "fold f ms m \<in> set (m # ms)"
proof (induction ms arbitrary: m)
  case (Cons y ms)
  from Cons.IH [of "f y m"] assms [of y m] show ?case by auto
qed simp

lemma min_by_fuel_in:
  assumes "min_by_fuel ns = Some n"
  shows "n \<in> set ns"
proof (cases ns)
  case (Cons m ms)
  have "fold (\<lambda>y x. if f64_gt (ne_fuel_used_percent x) (ne_fuel_used_percent y) then y else x) ms m \<in> set (m # ms)"
    by (rule fold_pick_in) simp
  with assms Cons show ?thesis by simp
qed (use assms in simp)

lemma min_by_fuel_least:
  assumes "min_by_fuel ns = Some n" and "comparable ns" and "m \<in> set ns"
  shows "f64_le (ne_fuel_used_percent n) (ne_fuel_used_percent m)"
  using assms min_by_fuel_fold by (cases ns) auto

text \<open>The nodes that may be chosen instead of the local one.\<close>

definition eligible :: "u64 option \<Rightarrow> string \<Rightarrow> node_load_table \<Rightarrow> node_entry \<Rightarrow> bool" where
  "eligible now local_node_id t n \<longleftrightarrow> n \<in> snd ` set (nlt_nodes t) \<and> ne_node_id n \<noteq> local_node_id \<and>
     \<not> is_stale now n \<and> \<not> is_unhealthy (ne_node_id n) t \<and> ne_health_status n \<noteq> NodeUnhealthy"

lemma least_loaded_other_node_eligible:
  "least_loaded_other_node now l t = Some n \<Longrightarrow> eligible now l t n"
  unfolding least_loaded_other_node_def
  by (drule min_by_fuel_in) (auto simp: eligible_def is_unhealthy_def)

lemma least_loaded_other_node_least:
  assumes "least_loaded_other_node now l t = Some n" and "comparable (map snd (nlt_nodes t))"
    and "eligible now l t m"
  shows "f64_le (ne_fuel_used_percent n) (ne_fuel_used_percent m)"
  using assms unfolding least_loaded_other_node_def
  by (elim min_by_fuel_least) (auto simp: comparable_def eligible_def is_unhealthy_def image_iff)

lemma upstream_next_None: "upstream_next app r = (None, r') \<Longrightarrow> r' = r"
  by (auto simp: upstream_next_def split: option.splits if_splits)

lemma cold_start_upstream_Some:
  "fst (cold_start_upstream cold app r) = Some e \<Longrightarrow>
    \<exists>a r'. cold app r = (Some a, r') \<and> e \<in> set (endpoints r' app)"
  by (auto simp: cold_start_upstream_def dest!: next_in_endpoints split: prod.splits option.splits)

lemma select_local:
  assumes "registry_inv r" and "endpoints r app \<noteq> []"
  shows "select_upstream lookup cold now l t app r = upstream_next app r"
proof -
  from next_None_iff [OF assms(1), of app] assms(2) obtain e where "fst (upstream_next app r) = Some e"
    by auto
  then show ?thesis
    by (cases "upstream_next app r") (simp add: select_upstream_def)
qed

section \<open>Properties\<close>

text \<open>
  (C24) Round robin is exactly fair: as long as the counter does not pass its 64 bits, any multiple
  of the number of instances in consecutive choices gives every instance the same number of requests.
\<close>

theorem round_robin_fair:
  assumes "registry_inv r" and "hm_get (ur_inner r) (app_id_as_str app) = Some (c, es)"
    and "unat c + m * length es \<le> 2 ^ 64" and "e \<in> set es"
  shows "count_list (fst (next_many (m * length es) app r)) (Some e) = m"
proof -
  from assms(1,2) have es: "es \<noteq> []" "distinct (map ue_addr es)"
    by (auto simp: registry_inv_def entry_ok_def)
  then have "distinct es"
    by (simp add: distinct_map)
  from round_robin_block [OF this assms(4), of "unat c" m] show ?thesis
    unfolding next_many_nth [OF assms(2) es(1) assms(3)]
    using count_list_map_Some [of "map (\<lambda>i. es ! ((unat c + i) mod length es)) [0..<m * length es]" e]
    by (simp add: comp_def)
qed

text \<open>
  (C10) The health flag of an application, after any sequence of probe results: it is down exactly
  when the failure threshold was reached by consecutive failures and the success threshold has not
  been reached by consecutive successes since.
\<close>

theorem health_hysteresis_exact:
  assumes "length rs < 2 ^ 32"
    and "0 < hcc_failure_threshold config" "0 < hcc_success_threshold config"
  shows "\<not> is_app_healthy app (fold (record_health_result app) rs (register_health_check app config r)) \<longleftrightarrow>
    (\<exists>before after. rs = before @ replicate (unat (hcc_failure_threshold config)) False @ after \<and>
      (\<nexists>u v. after = u @ replicate (unat (hcc_success_threshold config)) True @ v))"
  using record_results_tracks [OF assms, of app r]
  by (auto simp: is_app_healthy_def tracks_def outage_def run_in_def)

text \<open>
  (C25) Where a request may go: to a local instance if there is one; otherwise, from an overloaded
  node, to the first address of another node that is known, fresh, healthy and least loaded among
  these; otherwise to an instance that the cold start registered.
\<close>

theorem select_upstream_sound:
  assumes "registry_inv r" and "fst (select_upstream lookup cold now l t app r) = Some e"
  shows "e \<in> set (endpoints r app) \<or>
    endpoints r app = [] \<and> node_is_overloaded l t \<and>
      (\<exists>n addr addrs. eligible now l t n \<and> lookup (ne_proxy_address n) = Inr (addr # addrs) \<and>
        e = \<lparr> ue_addr = addr, ue_h2c = False \<rparr> \<and>
        (comparable (map snd (nlt_nodes t)) \<longrightarrow>
          (\<forall>m. eligible now l t m \<longrightarrow> f64_le (ne_fuel_used_percent n) (ne_fuel_used_percent m)))) \<or>
    endpoints r app = [] \<and> (\<exists>a r'. cold app r = (Some a, r') \<and> e \<in> set (endpoints r' app))"
proof (cases "endpoints r app = []")
  case False
  with assms have "fst (upstream_next app r) = Some e"
    by (simp add: select_local)
  then show ?thesis
    by (simp add: next_in_endpoints)
next
  case True
  then have "upstream_next app r = (None, r)"
    using next_None_iff [OF assms(1), of app] upstream_next_None [of app r] by (cases "upstream_next app r") auto
  with assms(2) consider (cold) "fst (cold_start_upstream cold app r) = Some e"
    | (steer) n addr addrs where "node_is_overloaded l t" "least_loaded_other_node now l t = Some n"
        "lookup (ne_proxy_address n) = Inr (addr # addrs)" "e = \<lparr> ue_addr = addr, ue_h2c = False \<rparr>"
    by (auto simp: select_upstream_def split: if_splits option.splits sum.splits list.splits)
  then show ?thesis
  proof cases
    case cold
    with True show ?thesis
      by (auto dest!: cold_start_upstream_Some)
  next
    case steer
    with True show ?thesis
      using least_loaded_other_node_eligible [OF steer(2)] least_loaded_other_node_least [OF steer(2)]
      by (intro disjI2 disjI1 conjI exI [of _ n] exI [of _ addr] exI [of _ addrs]) auto
  qed
qed

text \<open>
  The choice of an upstream does not look at the health checks: an application whose probes
  fail keeps receiving requests, although \<open>next_healthy\<close> would hand out none of its instances.
\<close>

theorem unhealthy_app_still_selected:
  assumes "registry_inv r" and "endpoints r app \<noteq> []" and "\<not> is_app_healthy (app_id_as_str app) r"
  shows "fst (next_healthy app r) = None \<and>
    (\<exists>e. e \<in> set (endpoints r app) \<and> fst (select_upstream lookup cold now l t app r) = Some e)"
proof -
  from assms(2) next_None_iff [OF assms(1), of app] obtain e where "fst (upstream_next app r) = Some e"
    by auto
  moreover have "hm_get (ur_health_configs r) (app_id_as_str app) \<noteq> None"
  proof -
    have "hm_get (ur_health_state r) (app_id_as_str app) \<noteq> None"
      using assms(3) by (cases "hm_get (ur_health_state r) (app_id_as_str app)") (auto simp: is_app_healthy_def)
    with assms(1) show ?thesis
      unfolding registry_inv_def by metis
  qed
  ultimately show ?thesis
    using assms by (auto simp: next_healthy_def select_local next_in_endpoints)
qed

text \<open>
  Two overloaded nodes without an instance of the application send its requests to each other:
  each is the only other node, its heartbeat is fresh, and nothing in the choice counts hops.
\<close>

theorem steering_ping_pong:
  assumes "nlt_nodes t = [(''a'', na), (''b'', nb)]" and "nlt_unhealthy t = []"
    and "ne_node_id na = ''a''" "ne_node_id nb = ''b''"
    and "\<not> is_stale now na" "\<not> is_stale now nb"
    and "ne_health_status na \<noteq> NodeUnhealthy" "ne_health_status nb \<noteq> NodeUnhealthy"
    and "f64_le (F64 80) (ne_fuel_used_percent na)" "f64_le (F64 80) (ne_fuel_used_percent nb)"
    and "lookup (ne_proxy_address na) = Inr [addr_a]" "lookup (ne_proxy_address nb) = Inr [addr_b]"
    and "endpoints ra app = []" "endpoints rb app = []" "registry_inv ra" "registry_inv rb"
  shows "fst (select_upstream lookup cold now ''a'' t app ra) = Some \<lparr> ue_addr = addr_b, ue_h2c = False \<rparr> \<and>
    fst (select_upstream lookup cold now ''b'' t app rb) = Some \<lparr> ue_addr = addr_a, ue_h2c = False \<rparr>"
proof -
  have none: "upstream_next app ra = (None, ra)" "upstream_next app rb = (None, rb)"
    using assms next_None_iff upstream_next_None by (metis prod.collapse)+
  have "node_is_overloaded ''a'' t" "node_is_overloaded ''b'' t"
    using assms by (simp_all add: node_is_overloaded_def hm_get_def remote_steer_fuel_threshold_percent_def)
  moreover have "least_loaded_other_node now ''a'' t = Some nb" "least_loaded_other_node now ''b'' t = Some na"
    using assms by (simp_all add: least_loaded_other_node_def)
  ultimately show ?thesis
    using assms none by (simp add: select_upstream_def)
qed

section \<open>A concrete instance\<close>

definition w_instance :: "u16 \<Rightarrow> upstream_endpoint" where
  "w_instance port = \<lparr> ue_addr = \<lparr> sa_ip = V4 0x7F000001, sa_port = port \<rparr>, ue_h2c = False \<rparr>"

definition w_registry :: upstream_registry where
  "w_registry = upstream_add (AppId ''shop:v1'') (w_instance 8002)
     (upstream_add (AppId ''shop:v1'') (w_instance 8001) upstream_registry_new)"

lemma w_registry_entry: "hm_get (ur_inner w_registry) ''shop:v1'' = Some (0, [w_instance 8001, w_instance 8002])"
  by (simp add: w_registry_def upstream_add_def upstream_registry_new_def w_instance_def hm_simps hm_or_insert_def)

lemma w_registry_inv: "registry_inv w_registry"
  using up.run_inv [of upstream_registry_new "[UpAdd (AppId ''shop:v1'') (w_instance 8001), UpAdd (AppId ''shop:v1'') (w_instance 8002)]"]
  by (simp add: w_registry_def registry_inv_def upstream_registry_new_def)

theorem round_robin_fair_witness:
  "count_list (fst (next_many (3 * 2) (AppId ''shop:v1'') w_registry)) (Some (w_instance 8002)) = 3"
  using round_robin_fair [OF w_registry_inv, of "AppId ''shop:v1''" 0 "[w_instance 8001, w_instance 8002]" 3 "w_instance 8002"]
  by (simp add: w_registry_entry)

theorem health_hysteresis_exact_witness:
  "\<not> is_app_healthy ''shop:v1'' (fold (record_health_result ''shop:v1'') [True, False, False, False, True]
      (register_health_check ''shop:v1'' app_health_check_config_default w_registry)) \<longleftrightarrow>
    (\<exists>before after. [True, False, False, False, True] = before @ replicate 3 False @ after \<and>
      (\<nexists>u v. after = u @ replicate 2 True @ v))"
  using health_hysteresis_exact [of "[True, False, False, False, True]" app_health_check_config_default "''shop:v1''" w_registry]
  by (simp add: app_health_check_config_default_def del: fold_simps)

theorem select_upstream_sound_witness:
  "\<exists>e. fst (select_upstream (\<lambda>_. Err ''no such host'') (\<lambda>_ r. (None, r)) (Some 100) ''n1''
      \<lparr> nlt_nodes = [], nlt_unhealthy = [] \<rparr> (AppId ''shop:v1'') w_registry) = Some e \<and>
    e \<in> set (endpoints w_registry (AppId ''shop:v1''))"
proof -
  let ?s = "select_upstream (\<lambda>_. Err ''no such host'') (\<lambda>_ r. (None, r)) (Some 100) ''n1''
      \<lparr> nlt_nodes = [], nlt_unhealthy = [] \<rparr> (AppId ''shop:v1'') w_registry"
  have "fst ?s = Some (w_instance 8001)"
    by (simp add: select_upstream_def upstream_next_def w_registry_entry)
  from select_upstream_sound [OF w_registry_inv this] this show ?thesis
    by auto
qed

end
