(* ===== verification/Proxy_Service.thy ===== *)
theory Proxy_Service
  imports Router Rate_Limiter Gateway_Http Upstream
begin

text \<open>
  The request pipeline of the proxy (\<open>crates/proxy/src/service.rs\<close> and its submodules): the request
  filter composes the router, the gateway, the rate limiters, the circuit breaker and the
  backpressure flag; forwarding chooses the upstream, rewrites the request and feeds the status of
  the response back to the circuit breaker. Pingora calls the filter, then \<open>upstream_peer\<close>, then the
  two message filters. A reply is what the filter writes to the client before it ends the request.
\<close>

section \<open>State\<close>

record request_ctx =
  cx_app_id :: "app_id option"
  cx_upstream_addr :: "socket_addr option"
  cx_strip_prefix :: bool
  cx_matched_prefix :: "string option"
  cx_trace_id :: "string option"
  cx_route_config :: "gateway_route_config option"
  cx_user_identity :: "user_identity option"

definition new_ctx :: request_ctx where
  "new_ctx = \<lparr> cx_app_id = None, cx_upstream_addr = None, cx_strip_prefix = False,
     cx_matched_prefix = None, cx_trace_id = None, cx_route_config = None, cx_user_identity = None \<rparr>"

record 'key wasm_proxy =
  wp_router :: host_router
  wp_upstream :: upstream_registry
  wp_rate_limiter :: rate_limiter
  wp_backpressure :: backpressure_signal
  wp_node_table :: node_load_table
  wp_local_node_id :: string
  wp_rejections :: "(string \<times> string) list option"
  wp_gateway :: "'key gateway"
  wp_max_body_size_bytes :: u64

record 'uri session =
  se_header :: "'uri request_header"
  se_client_ip :: "ip_addr option"

datatype reply =
    RespondError u16
  | GatewayReply u16 string string
  | PreflightReply response_header

text \<open>The libraries the pipeline calls, and the clock readings of one request.\<close>

record ('uri, 'key, 'resp) proxy_env =
  pe_http :: "'uri http_lib"
  pe_jwt :: "'key jwt_lib"
  pe_oidc_http :: "'resp oidc_http"
  pe_sha256 :: "string \<Rightarrow> string"

record filter_clock =
  fc_jwks_age :: instant
  fc_jwks_fetch :: instant
  fc_app_new :: instant
  fc_app_take :: instant
  fc_ip_new :: instant
  fc_ip_take :: instant
  fc_distributed :: instant
  fc_circuit_new :: instant
  fc_circuit_elapsed :: instant
  fc_circuit_change :: instant

section \<open>Hosts and paths\<close>

definition strip_uri_prefix :: "string \<Rightarrow> string option \<Rightarrow> string \<Rightarrow> string option" where
  "strip_uri_prefix path query pfx =
     (case strip_prefix pfx path of None \<Rightarrow> None
      | Some stripped \<Rightarrow>
          (let new_path = (if starts_with stripped ''/'' \<or> stripped = [] then stripped else ''/'' @ stripped)
           in Some (case query of Some q \<Rightarrow> new_path @ ''?'' @ q | None \<Rightarrow> new_path)))"

definition canonical_host :: "string \<Rightarrow> string" where
  "canonical_host host =
     (let unported = (case rsplit_once CHR '':'' host of
            Some (name, port) \<Rightarrow>
              if \<not> contains_char name CHR '':'' \<and> port \<noteq> [] \<and> list_all is_ascii_digit port
              then name else host
          | None \<Rightarrow> host)
      in case strip_prefix ''['' host of
           Some stripped \<Rightarrow>
             (case split_once CHR '']'' stripped of Some (inner, _) \<Rightarrow> inner | None \<Rightarrow> unported)
         | None \<Rightarrow> unported)"

definition extract_request_host :: "'uri http_lib \<Rightarrow> 'uri request_header \<Rightarrow> string" where
  "extract_request_host lib request =
     canonical_host
       (case hdr_str (rh_headers request) ''host'' of
          Some v \<Rightarrow> if v \<noteq> [] then v else unwrap_or (uri_authority lib (rh_uri request)) ''''
        | None \<Rightarrow> unwrap_or (uri_authority lib (rh_uri request)) '''')"

section \<open>Stages of the request filter\<close>

text \<open>A stage replies and ends the request, or passes the state on.\<close>

type_synonym 'key pipeline = "reply option \<times> request_ctx \<times> 'key wasm_proxy"

fun and_then :: "'key pipeline \<Rightarrow> (request_ctx \<Rightarrow> 'key wasm_proxy \<Rightarrow> 'key pipeline) \<Rightarrow> 'key pipeline" where
  "and_then (Some reply, ctx, p) f = (Some reply, ctx, p)"
| "and_then (None, ctx, p) f = f ctx p"

definition resolve_route :: "'key wasm_proxy \<Rightarrow> string \<Rightarrow> string \<Rightarrow> request_ctx \<Rightarrow> request_ctx" where
  "resolve_route p host path ctx =
     (case resolve (wp_router p) host path of
        None \<Rightarrow> ctx\<lparr> cx_route_config := None \<rparr>
      | Some r \<Rightarrow> ctx\<lparr> cx_app_id := Some (resolved_app_id r),
          cx_strip_prefix := resolved_strip_prefix r,
          cx_matched_prefix := Some (resolved_matched_prefix r),
          cx_route_config := get_route_config (wp_gateway p) (resolved_app_id r) \<rparr>)"

definition rule_matches :: "string \<Rightarrow> string \<Rightarrow> endpoint_rule \<Rightarrow> bool" where
  "rule_matches path method e =
     (starts_with path (er_path e) \<and>
      (er_methods e = [] \<or> list_ex (\<lambda>m. eq_ignore_ascii_case m method) (er_methods e)))"

definition find_endpoint_rule :: "request_ctx \<Rightarrow> string \<Rightarrow> string \<Rightarrow> endpoint_rule option" where
  "find_endpoint_rule ctx path method =
     Option.bind (cx_route_config ctx) (\<lambda>cfg. find (rule_matches path method) (grc_endpoints cfg))"

definition count_metric :: "(gateway_metrics \<Rightarrow> gateway_metrics) \<Rightarrow> 'key wasm_proxy \<Rightarrow> 'key wasm_proxy" where
  "count_metric f p = p\<lparr> wp_gateway := wp_gateway p\<lparr> gw_metrics := f (gw_metrics (wp_gateway p)) \<rparr> \<rparr>"

definition record_rejection :: "string \<Rightarrow> string \<Rightarrow> 'key wasm_proxy \<Rightarrow> 'key wasm_proxy" where
  "record_rejection app reason p =
     p\<lparr> wp_rejections := map_option (\<lambda>rs. (app, reason) # rs) (wp_rejections p) \<rparr>"

definition cors_stage ::
  "'uri http_lib \<Rightarrow> 'uri session \<Rightarrow> request_ctx \<Rightarrow> 'key wasm_proxy \<Rightarrow> 'key pipeline" where
  "cors_stage lib ses ctx p =
     (case cx_route_config ctx of
        None \<Rightarrow> (None, ctx, p)
      | Some cfg \<Rightarrow>
          if grc_cors cfg \<noteq> None \<and> rh_method (se_header ses) = ''OPTIONS''
          then (let p = count_metric (\<lambda>m. m\<lparr> cors_preflight_total := cors_preflight_total m + 1 \<rparr>) p
                in case handle_cors_preflight lib (rh_headers (se_header ses)) cfg of
                     PassThrough \<Rightarrow> (None, ctx, p)
                   | PreflightDenied \<Rightarrow> (Some (RespondError 403), ctx, p)
                   | PreflightOk resp \<Rightarrow> (Some (PreflightReply resp), ctx, p))
          else (None, ctx, p))"

definition route_auth :: "request_ctx \<Rightarrow> auth_policy" where
  "route_auth ctx = unwrap_or (map_option grc_auth (cx_route_config ctx)) AuthNone"

text \<open>\<open>Err\<close> is the reply that ends the request.\<close>

definition resolve_effective_auth ::
  "('uri, 'key, 'resp) proxy_env \<Rightarrow> 'uri session \<Rightarrow> request_ctx \<Rightarrow> 'key wasm_proxy \<Rightarrow> endpoint_rule option
    \<Rightarrow> (reply, auth_policy) result" where
  "resolve_effective_auth env ses ctx p rule =
     (case rule of
        None \<Rightarrow> Ok (route_auth ctx)
      | Some e \<Rightarrow>
          (case er_auth e of
             EndpointInherit \<Rightarrow> Ok (route_auth ctx)
           | EndpointNone \<Rightarrow> Ok AuthNone
           | EndpointAuthenticated \<Rightarrow> Ok AuthAuthenticated
           | EndpointRoles allowed_roles client_id \<Rightarrow> Ok (AuthRoles allowed_roles client_id)
           | EndpointApiKey \<Rightarrow>
               (case hdr_str (rh_headers (se_header ses)) ''x-api-key'' of
                  Some key \<Rightarrow>
                    if \<not> validate_api_key (pe_sha256 env) (wp_gateway p)
                         (unwrap_or (map_option app_id_as_str (cx_app_id ctx)) '''') key
                         (uri_path (pe_http env) (rh_uri (se_header ses)))
                    then Err (GatewayReply 401 ''unauthorized'' ''invalid X-Api-Key'')
                    else Ok AuthNone
                | None \<Rightarrow> Err (GatewayReply 401 ''unauthorized'' ''missing X-Api-Key header''))))"

definition authenticate_request ::
  "('uri, 'key, 'resp) proxy_env \<Rightarrow> filter_clock \<Rightarrow> 'uri session \<Rightarrow> auth_policy \<Rightarrow> request_ctx
    \<Rightarrow> 'key wasm_proxy \<Rightarrow> 'key pipeline" where
  "authenticate_request env clk ses effective_auth ctx p =
     (if effective_auth = AuthNone then (None, ctx, p)
      else (case authenticate_header_map_with_policy (pe_jwt env) (pe_oidc_http env)
              (rh_headers (se_header ses)) effective_auth (fc_jwks_age clk) (fc_jwks_fetch clk) (wp_gateway p) of
              (Inr identity, g) \<Rightarrow>
                (None, ctx\<lparr> cx_user_identity := Some identity \<rparr>,
                 count_metric (\<lambda>m. m\<lparr> auth_success_total := auth_success_total m + 1 \<rparr>) (p\<lparr> wp_gateway := g \<rparr>))
            | (Inl _, g) \<Rightarrow>
                (Some (GatewayReply 401 ''unauthorized'' ''missing or invalid JWT token''), ctx,
                 count_metric (\<lambda>m. m\<lparr> auth_failure_total := auth_failure_total m + 1 \<rparr>) (p\<lparr> wp_gateway := g \<rparr>))))"

definition identity_authorized :: "request_ctx \<Rightarrow> endpoint_rule option \<Rightarrow> user_identity \<Rightarrow> bool" where
  "identity_authorized ctx rule identity =
     (case rule of
        Some e \<Rightarrow>
          (case er_auth e of
             EndpointRoles allowed_roles client_id \<Rightarrow> authorize_roles identity allowed_roles client_id
           | _ \<Rightarrow> True) \<and>
          authorize_scopes identity (er_required_scopes e)
      | None \<Rightarrow> unwrap_or (map_option (\<lambda>cfg. authorize identity (grc_auth cfg)) (cx_route_config ctx)) True)"

definition authorize_request ::
  "endpoint_rule option \<Rightarrow> request_ctx \<Rightarrow> 'key wasm_proxy \<Rightarrow> 'key pipeline" where
  "authorize_request rule ctx p =
     (case cx_user_identity ctx of
        None \<Rightarrow> (None, ctx, p)
      | Some identity \<Rightarrow>
          if \<not> identity_authorized ctx rule identity
          then (Some (GatewayReply 403 ''forbidden'' ''user lacks required role or scope''), ctx,
                count_metric (\<lambda>m. m\<lparr> authz_denied_total := authz_denied_total m + 1 \<rparr>) p)
          else (None, ctx, p))"

definition source_ip :: "'uri session \<Rightarrow> ip_addr" where
  "source_ip ses = unwrap_or (se_client_ip ses) (V4 0x7F000001)"

definition rate_limit_stage ::
  "filter_clock \<Rightarrow> 'uri session \<Rightarrow> app_id \<Rightarrow> request_ctx \<Rightarrow> 'key wasm_proxy \<Rightarrow> 'key pipeline" where
  "rate_limit_stage clk ses app ctx p =
     (case check_request (app_id_as_str app) (source_ip ses) (fc_app_new clk) (fc_app_take clk)
             (fc_ip_new clk) (fc_ip_take clk) (wp_rate_limiter p) of
        (Inr _, l) \<Rightarrow> (None, ctx, p\<lparr> wp_rate_limiter := l \<rparr>)
      | (Inl e, l) \<Rightarrow>
          (let reason = (case e of AppLimitExceeded _ _ \<Rightarrow> ''app_limit'' | IpLimitExceeded _ _ \<Rightarrow> ''ip_limit'')
           in (Some (RespondError 429), ctx,
               record_rejection (app_id_as_str app) reason (p\<lparr> wp_rate_limiter := l \<rparr>))))"

definition distributed_stage ::
  "filter_clock \<Rightarrow> route_rate_limit option \<Rightarrow> app_id \<Rightarrow> request_ctx \<Rightarrow> 'key wasm_proxy \<Rightarrow> 'key pipeline" where
  "distributed_stage clk limit app ctx p =
     (case limit of
        Some route_rl \<Rightarrow>
          if rrl_distributed route_rl
          then (case hm_get (gw_distributed_limiters (wp_gateway p)) (app_id_as_str app) of
                  None \<Rightarrow> (None, ctx, p)
                | Some limiter \<Rightarrow>
                    (let (granted, b) = distributed_check_request (fc_distributed clk) (dl_local limiter);
                         p = p\<lparr> wp_gateway := wp_gateway p\<lparr> gw_distributed_limiters :=
                               hm_insert (app_id_as_str app) (limiter\<lparr> dl_local := b \<rparr>)
                                 (gw_distributed_limiters (wp_gateway p)) \<rparr> \<rparr>
                     in if \<not> granted
                        then (Some (GatewayReply 429 ''rate_limit_exceeded''
                                (''app rate limit: '' @ show_nat (unat (rrl_requests_per_second route_rl)) @ '' req/s'')),
                              ctx, count_metric (\<lambda>m. m\<lparr> rate_limit_denied_total := rate_limit_denied_total m + 1 \<rparr>) p)
                        else (None, ctx, p)))
          else (None, ctx, p)
      | None \<Rightarrow> (None, ctx, p))"

definition apply_rate_limits ::
  "filter_clock \<Rightarrow> 'uri session \<Rightarrow> endpoint_rule option \<Rightarrow> request_ctx \<Rightarrow> 'key wasm_proxy \<Rightarrow> 'key pipeline" where
  "apply_rate_limits clk ses rule ctx p =
     (let effective_rate_limit =
            (case Option.bind rule er_rate_limit of
               Some l \<Rightarrow> Some l
             | None \<Rightarrow> Option.bind (cx_route_config ctx) grc_rate_limit)
      in case cx_app_id ctx of
           None \<Rightarrow> (None, ctx, p)
         | Some app \<Rightarrow>
             and_then (rate_limit_stage clk ses app ctx p) (distributed_stage clk effective_rate_limit app))"

definition enforce_circuit_breaker :: "filter_clock \<Rightarrow> request_ctx \<Rightarrow> 'key wasm_proxy \<Rightarrow> 'key pipeline" where
  "enforce_circuit_breaker clk ctx p =
     (case cx_app_id ctx of
        None \<Rightarrow> (None, ctx, p)
      | Some app \<Rightarrow>
          (let (rejected, g) = gateway_is_circuit_open (wp_gateway p) app (fc_circuit_new clk)
                 (fc_circuit_elapsed clk) (fc_circuit_change clk);
               p = p\<lparr> wp_gateway := g \<rparr>
           in if rejected
              then (Some (GatewayReply 503 ''circuit_open'' ''upstream is unhealthy, retry later''), ctx,
                    count_metric (\<lambda>m. m\<lparr> circuit_breaker_rejected_total := circuit_breaker_rejected_total m + 1 \<rparr>) p)
              else (None, ctx, p)))"

definition enforce_backpressure :: "request_ctx \<Rightarrow> 'key wasm_proxy \<Rightarrow> 'key pipeline" where
  "enforce_backpressure ctx p =
     (if \<not> is_accepting (wp_backpressure p)
      then (Some (RespondError 503), ctx, record_rejection ''*'' ''backpressure'' p)
      else (None, ctx, p))"

section \<open>The request filter\<close>

definition content_length :: "http_headers \<Rightarrow> nat option" where
  "content_length headers = Option.bind (hdr_str headers ''content-length'') (parse_uint (2 ^ 64))"

definition body_too_large :: "u64 \<Rightarrow> http_headers \<Rightarrow> bool" where
  "body_too_large limit headers =
     (case content_length headers of None \<Rightarrow> False | Some n \<Rightarrow> n > unat limit)"

text \<open>\<open>trace_id\<close> is the identifier of the request span, or a random one.\<close>

definition request_filter ::
  "('uri, 'key, 'resp) proxy_env \<Rightarrow> filter_clock \<Rightarrow> string \<Rightarrow> 'uri session \<Rightarrow> request_ctx \<Rightarrow> 'key wasm_proxy
    \<Rightarrow> 'key pipeline" where
  "request_filter env clk trace_id ses ctx p =
     (let request = se_header ses;
          host = extract_request_host (pe_http env) request;
          path = uri_path (pe_http env) (rh_uri request)
      in if host = [] \<or> path = ''/_platform/health'' then (None, ctx, p)
         else
           (let ctx = ctx\<lparr> cx_trace_id := Some trace_id \<rparr>
            in if body_too_large (wp_max_body_size_bytes p) (rh_headers request)
               then (Some (RespondError 413), ctx, p)
               else
                 (let ctx = resolve_route p host path ctx
                  in if cx_app_id ctx = None then (Some (RespondError 502), ctx, p)
                     else
                       and_then (cors_stage (pe_http env) ses ctx p) (\<lambda>ctx p.
                         let rule = find_endpoint_rule ctx path (rh_method request)
                         in case resolve_effective_auth env ses ctx p rule of
                              Inl reply \<Rightarrow> (Some reply, ctx, p)
                            | Inr effective_auth \<Rightarrow>
                                and_then (authenticate_request env clk ses effective_auth ctx p) (\<lambda>ctx p.
                                and_then (authorize_request rule ctx p) (\<lambda>ctx p.
                                and_then (apply_rate_limits clk ses rule ctx p) (\<lambda>ctx p.
                                and_then (enforce_circuit_breaker clk ctx p) (\<lambda>ctx p.
                                enforce_backpressure ctx p))))))))"

section \<open>Forwarding\<close>

definition upstream_peer ::
  "(string \<Rightarrow> (string, socket_addr list) result)
    \<Rightarrow> (app_id \<Rightarrow> upstream_registry \<Rightarrow> socket_addr option \<times> upstream_registry)
    \<Rightarrow> u64 option \<Rightarrow> request_ctx \<Rightarrow> 'key wasm_proxy
    \<Rightarrow> (string, upstream_endpoint \<times> string) result \<times> request_ctx \<times> 'key wasm_proxy" where
  "upstream_peer lookup_host cold_start now ctx p =
     (case cx_app_id ctx of
        None \<Rightarrow> (Err ''no app for this host'', ctx, p)
      | Some app \<Rightarrow>
          (case select_upstream lookup_host cold_start now (wp_local_node_id p) (wp_node_table p) app (wp_upstream p) of
             (None, r) \<Rightarrow> (Err ''failed to select upstream'', ctx, p\<lparr> wp_upstream := r \<rparr>)
           | (Some e, r) \<Rightarrow>
               (Ok (e, app_id_as_str app), ctx\<lparr> cx_upstream_addr := Some (ue_addr e) \<rparr>, p\<lparr> wp_upstream := r \<rparr>)))"

definition remove_untrusted_platform_headers :: "http_headers \<Rightarrow> http_headers" where
  "remove_untrusted_platform_headers h =
     fold hdr_remove [''x-app-id'', ''x-trace-id'', ''traceparent'', ''tracestate''] h"

text \<open>\<open>trace_headers\<close> are the headers the telemetry propagator injects for the request span.\<close>

definition inject_trace :: "'uri http_lib \<Rightarrow> (string \<times> string) list \<Rightarrow> http_headers \<Rightarrow> http_headers" where
  "inject_trace lib trace_headers h = fold (\<lambda>(k, v). insert_header lib k v) trace_headers h"

definition strip_matched_prefix :: "'uri http_lib \<Rightarrow> request_ctx \<Rightarrow> 'uri request_header \<Rightarrow> 'uri request_header" where
  "strip_matched_prefix lib ctx request =
     (if cx_strip_prefix ctx
      then (case cx_matched_prefix ctx of
              None \<Rightarrow> request
            | Some pfx \<Rightarrow>
                (case strip_uri_prefix (uri_path lib (rh_uri request)) (uri_query lib (rh_uri request)) pfx of
                   None \<Rightarrow> request
                 | Some new_uri \<Rightarrow>
                     (let original_uri = uri_to_string lib (rh_uri request);
                          h = insert_header lib ''X-Forwarded-Prefix'' pfx (rh_headers request);
                          h = insert_header lib ''X-Original-Uri'' original_uri h
                      in request\<lparr> rh_headers := h, rh_uri := unwrap_or (uri_parse lib new_uri) (rh_uri request) \<rparr>)))
      else request)"

definition upstream_request_filter ::
  "'uri http_lib \<Rightarrow> (string \<times> string) list \<Rightarrow> request_ctx \<Rightarrow> 'uri request_header
    \<Rightarrow> 'uri request_header option" where
  "upstream_request_filter lib trace_headers ctx request =
     (let h = remove_untrusted_platform_headers (rh_headers request);
          h = (case cx_app_id ctx of None \<Rightarrow> h | Some app \<Rightarrow> insert_header lib ''X-App-Id'' (app_id_as_str app) h);
          h = (case cx_trace_id ctx of None \<Rightarrow> h | Some tid \<Rightarrow> insert_header lib ''X-Trace-Id'' tid h);
          h = inject_trace lib trace_headers h;
          request = strip_matched_prefix lib ctx (request\<lparr> rh_headers := h \<rparr>)
      in case Option.bind (cx_route_config ctx) grc_transform of
           None \<Rightarrow> Some request
         | Some t \<Rightarrow> apply_request_transform lib request t (cx_user_identity ctx))"

text \<open>The clock is read up to three times by the circuit breaker.\<close>

definition upstream_response_filter ::
  "'uri http_lib \<Rightarrow> instant \<Rightarrow> instant \<Rightarrow> instant \<Rightarrow> 'uri session \<Rightarrow> request_ctx \<Rightarrow> response_header
    \<Rightarrow> 'key wasm_proxy \<Rightarrow> response_header \<times> 'key wasm_proxy" where
  "upstream_response_filter lib t0 t1 t2 ses ctx resp p =
     (let resp = (case cx_route_config ctx of
            Some cfg \<Rightarrow>
              if grc_cors cfg \<noteq> None
              then resp\<lparr> rs_headers := add_cors_headers lib cfg
                (unwrap_or (hdr_str (rh_headers (se_header ses)) ''origin'') '''') (rs_headers resp) \<rparr>
              else resp
          | None \<Rightarrow> resp)
      in case cx_app_id ctx of
           None \<Rightarrow> (resp, p)
         | Some app \<Rightarrow>
             (let cb = gw_circuit_breaker (wp_gateway p);
                  cb = (if 500 \<le> rs_status resp \<and> rs_status resp < 600
                        then cb_record_failure cb (app_id_as_str app) t0 t1 t2
                        else cb_record_success cb (app_id_as_str app) t0 t2)
              in (resp, p\<lparr> wp_gateway := wp_gateway p\<lparr> gw_circuit_breaker := cb \<rparr> \<rparr>)))"

text \<open>What \<open>logging\<close> changes: the gauge of open circuits.\<close>

definition logging :: "'key wasm_proxy \<Rightarrow> 'key wasm_proxy" where
  "logging p = count_metric (\<lambda>m. m\<lparr> circuits_open := open_circuit_count (gw_circuit_breaker (wp_gateway p)) \<rparr>) p"

section \<open>What each stage lets through\<close>

lemma and_then_passes:
  "fst (and_then x f) = None \<longleftrightarrow> fst x = None \<and> fst (f (fst (snd x)) (snd (snd x))) = None"
  by (cases x; cases "fst x") auto

lemma and_then_state: "fst x = None \<Longrightarrow> and_then x f = f (fst (snd x)) (snd (snd x))"
  by (cases x; cases "fst x") auto

lemma count_metric_simps [simp]:
  "wp_router (count_metric f p) = wp_router p"
  "wp_rate_limiter (count_metric f p) = wp_rate_limiter p"
  "wp_backpressure (count_metric f p) = wp_backpressure p"
  "wp_upstream (count_metric f p) = wp_upstream p"
  "wp_max_body_size_bytes (count_metric f p) = wp_max_body_size_bytes p"
  "gw_oidc (wp_gateway (count_metric f p)) = gw_oidc (wp_gateway p)"
  "gw_circuit_breaker (wp_gateway (count_metric f p)) = gw_circuit_breaker (wp_gateway p)"
  "gw_distributed_limiters (wp_gateway (count_metric f p)) = gw_distributed_limiters (wp_gateway p)"
  "gw_route_configs (wp_gateway (count_metric f p)) = gw_route_configs (wp_gateway p)"
  "gw_api_key_validators (wp_gateway (count_metric f p)) = gw_api_key_validators (wp_gateway p)"
  by (simp_all add: count_metric_def)

text \<open>The components of the proxy that decide about a request.\<close>

definition same_components :: "'key wasm_proxy \<Rightarrow> 'key wasm_proxy \<Rightarrow> bool" where
  "same_components p p' \<longleftrightarrow> wp_rate_limiter p' = wp_rate_limiter p \<and> wp_backpressure p' = wp_backpressure p \<and>
     gw_circuit_breaker (wp_gateway p') = gw_circuit_breaker (wp_gateway p) \<and>
     gw_distributed_limiters (wp_gateway p') = gw_distributed_limiters (wp_gateway p)"

lemma same_components_refl: "same_components p p"
  by (simp add: same_components_def)

lemma same_components_trans: "same_components p q \<Longrightarrow> same_components q r \<Longrightarrow> same_components p r"
  by (simp add: same_components_def)

definition preflight :: "gateway_route_config option \<Rightarrow> string \<Rightarrow> bool" where
  "preflight cfg method \<longleftrightarrow> (\<exists>c. cfg = Some c \<and> grc_cors c \<noteq> None \<and> method = ''OPTIONS'')"

lemma preflight_replies: "grc_cors cfg \<noteq> None \<Longrightarrow> handle_cors_preflight lib h cfg \<noteq> PassThrough"
  by (auto simp: handle_cors_preflight_def Let_def split: if_splits)

lemma cors_stage_passes:
  "fst (cors_stage lib ses ctx p) = None \<longleftrightarrow> \<not> preflight (cx_route_config ctx) (rh_method (se_header ses))"
  using preflight_replies
  by (fastforce simp: cors_stage_def preflight_def Let_def split: option.splits cors_outcome.splits)

lemma cors_stage_state:
  "fst (cors_stage lib ses ctx p) = None \<Longrightarrow> snd (cors_stage lib ses ctx p) = (ctx, p)"
  using preflight_replies
  by (fastforce simp: cors_stage_def Let_def split: option.splits cors_outcome.splits if_splits)

lemma authenticate_gateway:
  "gw_circuit_breaker (snd (authenticate_header_map_with_policy jwt http h pol t1 t2 g)) = gw_circuit_breaker g"
  "gw_distributed_limiters (snd (authenticate_header_map_with_policy jwt http h pol t1 t2 g)) =
    gw_distributed_limiters g"
  by (auto simp: authenticate_header_map_with_policy_def case_prod_unfold Let_def split: option.splits)

definition bearer_identity ::
  "('uri, 'key, 'resp) proxy_env \<Rightarrow> filter_clock \<Rightarrow> 'uri session \<Rightarrow> auth_policy \<Rightarrow> 'key wasm_proxy
    \<Rightarrow> user_identity option" where
  "bearer_identity env clk ses pol p =
     (case fst (authenticate_header_map_with_policy (pe_jwt env) (pe_oidc_http env)
        (rh_headers (se_header ses)) pol (fc_jwks_age clk) (fc_jwks_fetch clk) (wp_gateway p)) of
        Inl _ \<Rightarrow> None | Inr identity \<Rightarrow> Some identity)"

lemma authenticate_request_passes:
  "fst (authenticate_request env clk ses pol ctx p) = None \<longleftrightarrow>
    (pol \<noteq> AuthNone \<longrightarrow> bearer_identity env clk ses pol p \<noteq> None)"
  by (auto simp: authenticate_request_def bearer_identity_def split: prod.splits sum.splits)

lemma authenticate_request_ctx:
  "fst (authenticate_request env clk ses pol ctx p) = None \<Longrightarrow>
    fst (snd (authenticate_request env clk ses pol ctx p)) =
      (if pol = AuthNone then ctx else ctx\<lparr> cx_user_identity := bearer_identity env clk ses pol p \<rparr>)"
  by (auto simp: authenticate_request_def bearer_identity_def split: prod.splits sum.splits)

lemma authenticate_request_components:
  "same_components p (snd (snd (authenticate_request env clk ses pol ctx p)))"
  using authenticate_gateway [of "pe_jwt env" "pe_oidc_http env" "rh_headers (se_header ses)" pol
      "fc_jwks_age clk" "fc_jwks_fetch clk" "wp_gateway p"]
  by (auto simp: authenticate_request_def same_components_def split: prod.splits sum.splits)

lemma authorize_request_passes:
  "fst (authorize_request rule ctx p) = None \<longleftrightarrow>
    (\<forall>identity. cx_user_identity ctx = Some identity \<longrightarrow> identity_authorized ctx rule identity)"
  by (auto simp: authorize_request_def split: option.splits)

lemma authorize_request_state:
  "fst (authorize_request rule ctx p) = None \<Longrightarrow> snd (authorize_request rule ctx p) = (ctx, p)"
  by (auto simp: authorize_request_def split: option.splits if_splits)

text \<open>The limit of the route or endpoint that the distributed limiter enforces.\<close>

definition effective_limit :: "gateway_route_config option \<Rightarrow> endpoint_rule option \<Rightarrow> route_rate_limit option" where
  "effective_limit cfg rule =
     (case Option.bind rule er_rate_limit of Some l \<Rightarrow> Some l | None \<Rightarrow> Option.bind cfg grc_rate_limit)"

definition distributed_grants ::
  "filter_clock \<Rightarrow> route_rate_limit option \<Rightarrow> app_id \<Rightarrow> 'key gateway \<Rightarrow> bool" where
  "distributed_grants clk limit app g \<longleftrightarrow>
     (\<forall>l limiter. limit = Some l \<and> rrl_distributed l \<and>
        hm_get (gw_distributed_limiters g) (app_id_as_str app) = Some limiter \<longrightarrow>
        fst (distributed_check_request (fc_distributed clk) (dl_local limiter)))"

definition local_grants :: "filter_clock \<Rightarrow> 'uri session \<Rightarrow> app_id \<Rightarrow> rate_limiter \<Rightarrow> bool" where
  "local_grants clk ses app l \<longleftrightarrow>
     is_ok (fst (check_request (app_id_as_str app) (source_ip ses) (fc_app_new clk) (fc_app_take clk)
       (fc_ip_new clk) (fc_ip_take clk) l))"

lemma rate_limit_stage_passes:
  "fst (rate_limit_stage clk ses app ctx p) = None \<longleftrightarrow> local_grants clk ses app (wp_rate_limiter p)"
  by (auto simp: rate_limit_stage_def local_grants_def Let_def split: prod.splits sum.splits)

lemma rate_limit_stage_state:
  "fst (snd (rate_limit_stage clk ses app ctx p)) = ctx \<and>
    wp_gateway (snd (snd (rate_limit_stage clk ses app ctx p))) = wp_gateway p \<and>
    wp_backpressure (snd (snd (rate_limit_stage clk ses app ctx p))) = wp_backpressure p"
  by (auto simp: rate_limit_stage_def Let_def record_rejection_def split: prod.splits sum.splits)

lemma distributed_stage_passes:
  "fst (distributed_stage clk limit app ctx p) = None \<longleftrightarrow> distributed_grants clk limit app (wp_gateway p)"
  by (auto simp: distributed_stage_def distributed_grants_def Let_def case_prod_unfold split: option.splits)

lemma distributed_stage_state:
  "fst (snd (distributed_stage clk limit app ctx p)) = ctx \<and>
    gw_circuit_breaker (wp_gateway (snd (snd (distributed_stage clk limit app ctx p)))) =
      gw_circuit_breaker (wp_gateway p) \<and>
    wp_backpressure (snd (snd (distributed_stage clk limit app ctx p))) = wp_backpressure p"
  by (auto simp: distributed_stage_def Let_def case_prod_unfold split: option.splits)

lemma apply_rate_limits_passes:
  assumes "cx_app_id ctx = Some app"
  shows "fst (apply_rate_limits clk ses rule ctx p) = None \<longleftrightarrow>
    local_grants clk ses app (wp_rate_limiter p) \<and>
    distributed_grants clk (effective_limit (cx_route_config ctx) rule) app (wp_gateway p)"
  using assms rate_limit_stage_state [of clk ses app ctx p]
  by (simp add: apply_rate_limits_def and_then_passes rate_limit_stage_passes distributed_stage_passes
      effective_limit_def)

lemma apply_rate_limits_state:
  assumes "cx_app_id ctx = Some app" and "fst (apply_rate_limits clk ses rule ctx p) = None"
  shows "fst (snd (apply_rate_limits clk ses rule ctx p)) = ctx \<and>
    gw_circuit_breaker (wp_gateway (snd (snd (apply_rate_limits clk ses rule ctx p)))) =
      gw_circuit_breaker (wp_gateway p) \<and>
    wp_backpressure (snd (snd (apply_rate_limits clk ses rule ctx p))) = wp_backpressure p"
  using assms
  by (simp add: apply_rate_limits_def and_then_passes and_then_state rate_limit_stage_state distributed_stage_state)

definition circuit_admits :: "filter_clock \<Rightarrow> app_id \<Rightarrow> cb_manager \<Rightarrow> bool" where
  "circuit_admits clk app m \<longleftrightarrow> \<not> fst (is_circuit_open m (app_id_as_str app) (fc_circuit_new clk)
     (fc_circuit_elapsed clk) (fc_circuit_change clk))"

lemma enforce_circuit_breaker_passes:
  "cx_app_id ctx = Some app \<Longrightarrow> fst (enforce_circuit_breaker clk ctx p) = None \<longleftrightarrow>
    circuit_admits clk app (gw_circuit_breaker (wp_gateway p))"
  by (simp add: enforce_circuit_breaker_def circuit_admits_def gateway_is_circuit_open_def case_prod_unfold Let_def)

lemma enforce_circuit_breaker_state:
  "fst (snd (enforce_circuit_breaker clk ctx p)) = ctx \<and>
    wp_backpressure (snd (snd (enforce_circuit_breaker clk ctx p))) = wp_backpressure p"
  by (simp add: enforce_circuit_breaker_def case_prod_unfold Let_def split: option.splits)

lemma enforce_backpressure_passes: "fst (enforce_backpressure ctx p) = None \<longleftrightarrow> wp_backpressure p"
  by (simp add: enforce_backpressure_def is_accepting_def)

lemma enforce_backpressure_ctx: "fst (snd (enforce_backpressure ctx p)) = ctx"
  by (simp add: enforce_backpressure_def)

section \<open>Admission\<close>

text \<open>The rule that applies to a request of an application, and the policy it is held to.\<close>

definition endpoint_rule_of :: "gateway_route_config option \<Rightarrow> string \<Rightarrow> string \<Rightarrow> endpoint_rule option" where
  "endpoint_rule_of cfg path method = Option.bind cfg (\<lambda>c. find (rule_matches path method) (grc_endpoints c))"

definition required_policy :: "gateway_route_config option \<Rightarrow> endpoint_rule option \<Rightarrow> auth_policy" where
  "required_policy cfg rule =
     (let inherited = (case cfg of None \<Rightarrow> AuthNone | Some c \<Rightarrow> grc_auth c)
      in case rule of None \<Rightarrow> inherited
         | Some e \<Rightarrow> (case er_auth e of EndpointInherit \<Rightarrow> inherited | EndpointNone \<Rightarrow> AuthNone
             | EndpointAuthenticated \<Rightarrow> AuthAuthenticated | EndpointRoles rs c \<Rightarrow> AuthRoles rs c
             | EndpointApiKey \<Rightarrow> AuthNone))"

definition api_key_presented ::
  "('uri, 'key, 'resp) proxy_env \<Rightarrow> 'uri session \<Rightarrow> 'key wasm_proxy \<Rightarrow> app_id \<Rightarrow> bool" where
  "api_key_presented env ses p app \<longleftrightarrow>
     (\<exists>key. hdr_str (rh_headers (se_header ses)) ''x-api-key'' = Some key \<and>
        validate_api_key (pe_sha256 env) (wp_gateway p) (app_id_as_str app) key
          (uri_path (pe_http env) (rh_uri (se_header ses))))"

definition caller_admitted ::
  "('uri, 'key, 'resp) proxy_env \<Rightarrow> filter_clock \<Rightarrow> 'uri session \<Rightarrow> 'key wasm_proxy \<Rightarrow> app_id
    \<Rightarrow> gateway_route_config option \<Rightarrow> endpoint_rule option \<Rightarrow> bool" where
  "caller_admitted env clk ses p app cfg rule \<longleftrightarrow>
     (\<forall>e. rule = Some e \<and> er_auth e = EndpointApiKey \<longrightarrow> api_key_presented env ses p app) \<and>
     (required_policy cfg rule \<noteq> AuthNone \<longrightarrow>
       (\<exists>identity. bearer_identity env clk ses (required_policy cfg rule) p = Some identity \<and>
         (case rule of
            None \<Rightarrow> authorize identity (required_policy cfg rule)
          | Some e \<Rightarrow> authorize_scopes identity (er_required_scopes e) \<and>
              (\<forall>rs c. er_auth e = EndpointRoles rs c \<longrightarrow> authorize_roles identity rs c))))"

definition admitted ::
  "('uri, 'key, 'resp) proxy_env \<Rightarrow> filter_clock \<Rightarrow> 'uri session \<Rightarrow> 'key wasm_proxy \<Rightarrow> app_id \<Rightarrow> bool" where
  "admitted env clk ses p app \<longleftrightarrow>
     (let request = se_header ses; host = extract_request_host (pe_http env) request;
          path = uri_path (pe_http env) (rh_uri request); cfg = get_route_config (wp_gateway p) app;
          rule = endpoint_rule_of cfg path (rh_method request)
      in host \<noteq> [] \<and> path \<noteq> ''/_platform/health'' \<and>
         \<not> body_too_large (wp_max_body_size_bytes p) (rh_headers request) \<and>
         (\<exists>r. resolve (wp_router p) host path = Some r \<and> resolved_app_id r = app) \<and>
         \<not> preflight cfg (rh_method request) \<and>
         caller_admitted env clk ses p app cfg rule \<and>
         local_grants clk ses app (wp_rate_limiter p) \<and>
         distributed_grants clk (effective_limit cfg rule) app (wp_gateway p) \<and>
         circuit_admits clk app (gw_circuit_breaker (wp_gateway p)) \<and>
         wp_backpressure p)"

lemma resolve_effective_auth_Ok:
  "resolve_effective_auth env ses ctx p rule = Inr pol \<longleftrightarrow>
    pol = required_policy (cx_route_config ctx) rule \<and>
    (\<forall>e. rule = Some e \<and> er_auth e = EndpointApiKey \<longrightarrow>
      (\<exists>key. hdr_str (rh_headers (se_header ses)) ''x-api-key'' = Some key \<and>
        validate_api_key (pe_sha256 env) (wp_gateway p) (unwrap_or (map_option app_id_as_str (cx_app_id ctx)) '''')
          key (uri_path (pe_http env) (rh_uri (se_header ses)))))"
  by (auto simp: resolve_effective_auth_def required_policy_def route_auth_def Let_def unwrap_or_def
      split: option.splits endpoint_auth.splits)

text \<open>The stages after the preflight, for a request whose application is known.\<close>

definition guarded_stages ::
  "('uri, 'key, 'resp) proxy_env \<Rightarrow> filter_clock \<Rightarrow> 'uri session \<Rightarrow> endpoint_rule option \<Rightarrow> request_ctx
    \<Rightarrow> 'key wasm_proxy \<Rightarrow> 'key pipeline" where
  "guarded_stages env clk ses rule ctx p =
     (case resolve_effective_auth env ses ctx p rule of
        Inl reply \<Rightarrow> (Some reply, ctx, p)
      | Inr effective_auth \<Rightarrow>
          and_then (authenticate_request env clk ses effective_auth ctx p) (\<lambda>ctx p.
          and_then (authorize_request rule ctx p) (\<lambda>ctx p.
          and_then (apply_rate_limits clk ses rule ctx p) (\<lambda>ctx p.
          and_then (enforce_circuit_breaker clk ctx p) (\<lambda>ctx p.
          enforce_backpressure ctx p)))))"

lemma throttling_passes:
  assumes "cx_app_id ctx = Some app"
  shows "fst (and_then (apply_rate_limits clk ses rule ctx p) (\<lambda>ctx p.
      and_then (enforce_circuit_breaker clk ctx p) (\<lambda>ctx p. enforce_backpressure ctx p))) = None \<longleftrightarrow>
    local_grants clk ses app (wp_rate_limiter p) \<and>
    distributed_grants clk (effective_limit (cx_route_config ctx) rule) app (wp_gateway p) \<and>
    circuit_admits clk app (gw_circuit_breaker (wp_gateway p)) \<and> wp_backpressure p"
  using apply_rate_limits_state [OF assms, of clk ses rule p]
  by (auto simp: and_then_passes apply_rate_limits_passes [OF assms] enforce_circuit_breaker_state
      enforce_circuit_breaker_passes [OF assms] enforce_backpressure_passes)

lemma throttling_ctx:
  assumes "cx_app_id ctx = Some app"
    and "fst (and_then (apply_rate_limits clk ses rule ctx p) (\<lambda>ctx p.
      and_then (enforce_circuit_breaker clk ctx p) (\<lambda>ctx p. enforce_backpressure ctx p))) = None"
  shows "fst (snd (and_then (apply_rate_limits clk ses rule ctx p) (\<lambda>ctx p.
      and_then (enforce_circuit_breaker clk ctx p) (\<lambda>ctx p. enforce_backpressure ctx p)))) = ctx"
  using assms apply_rate_limits_state [OF assms(1), of clk ses rule p]
  by (auto simp: and_then_passes and_then_state enforce_circuit_breaker_state enforce_backpressure_ctx)

lemma identity_authorized_iff:
  assumes "cx_route_config ctx = cfg" and "required_policy cfg rule \<noteq> AuthNone"
  shows "identity_authorized ctx rule identity \<longleftrightarrow>
    (case rule of
       None \<Rightarrow> authorize identity (required_policy cfg rule)
     | Some e \<Rightarrow> authorize_scopes identity (er_required_scopes e) \<and>
         (\<forall>rs c. er_auth e = EndpointRoles rs c \<longrightarrow> authorize_roles identity rs c))"
  using assms
  by (auto simp: identity_authorized_def required_policy_def Let_def split: option.splits endpoint_auth.splits)

lemma authenticated_stages_passes:
  assumes app: "cx_app_id ctx = Some app" and anon: "cx_user_identity ctx = None"
    and pol: "pol = required_policy (cx_route_config ctx) rule"
  shows "fst (and_then (authenticate_request env clk ses pol ctx p) (\<lambda>ctx p.
        and_then (authorize_request rule ctx p) (\<lambda>ctx p.
        and_then (apply_rate_limits clk ses rule ctx p) (\<lambda>ctx p.
        and_then (enforce_circuit_breaker clk ctx p) (\<lambda>ctx p.
        enforce_backpressure ctx p))))) = None \<longleftrightarrow>
    (pol \<noteq> AuthNone \<longrightarrow> (\<exists>identity. bearer_identity env clk ses pol p = Some identity \<and>
       (case rule of
          None \<Rightarrow> authorize identity pol
        | Some e \<Rightarrow> authorize_scopes identity (er_required_scopes e) \<and>
            (\<forall>rs c. er_auth e = EndpointRoles rs c \<longrightarrow> authorize_roles identity rs c)))) \<and>
    local_grants clk ses app (wp_rate_limiter p) \<and>
    distributed_grants clk (effective_limit (cx_route_config ctx) rule) app (wp_gateway p) \<and>
    circuit_admits clk app (gw_circuit_breaker (wp_gateway p)) \<and> wp_backpressure p"
    (is "fst (and_then ?auth ?rest) = None \<longleftrightarrow> _")
proof (cases "fst ?auth = None")
  case False
  then show ?thesis
    by (auto simp: and_then_passes authenticate_request_passes)
next
  case True
  obtain ctx' p' where auth: "snd ?auth = (ctx', p')" by force
  have ctx': "ctx' = (if pol = AuthNone then ctx else ctx\<lparr> cx_user_identity := bearer_identity env clk ses pol p \<rparr>)"
    using authenticate_request_ctx [OF True] auth by simp
  then have app': "cx_app_id ctx' = Some app" and cfg: "cx_route_config ctx' = cx_route_config ctx"
    using app by simp_all
  have comp: "same_components p p'"
    using authenticate_request_components [of p env clk ses pol ctx] auth by simp
  have cond: "fst (authorize_request rule ctx' p') = None \<longleftrightarrow>
      (pol \<noteq> AuthNone \<longrightarrow> (\<exists>identity. bearer_identity env clk ses pol p = Some identity \<and>
       (case rule of
          None \<Rightarrow> authorize identity pol
        | Some e \<Rightarrow> authorize_scopes identity (er_required_scopes e) \<and>
            (\<forall>rs c. er_auth e = EndpointRoles rs c \<longrightarrow> authorize_roles identity rs c))))"
  proof (cases "pol = AuthNone")
    case False
    then obtain identity where "bearer_identity env clk ses pol p = Some identity"
      using True by (auto simp: authenticate_request_passes)
    with False identity_authorized_iff [OF cfg, of rule identity] show ?thesis
      unfolding pol [symmetric] by (simp add: authorize_request_passes ctx')
  qed (simp add: authorize_request_passes ctx' anon)
  have "fst (and_then ?auth ?rest) = None \<longleftrightarrow> fst (?rest ctx' p') = None"
    using True auth by (simp add: and_then_passes)
  also have "\<dots> \<longleftrightarrow> fst (authorize_request rule ctx' p') = None \<and>
      fst (and_then (apply_rate_limits clk ses rule ctx' p') (\<lambda>ctx p.
        and_then (enforce_circuit_breaker clk ctx p) (\<lambda>ctx p. enforce_backpressure ctx p))) = None"
    by (subst and_then_passes) (auto dest: authorize_request_state)
  finally show ?thesis
    using comp unfolding cond throttling_passes [OF app'] cfg
    by (auto simp: same_components_def distributed_grants_def)
qed

lemma guarded_stages_passes:
  assumes "cx_app_id ctx = Some app" and "cx_user_identity ctx = None"
  shows "fst (guarded_stages env clk ses rule ctx p) = None \<longleftrightarrow>
    caller_admitted env clk ses p app (cx_route_config ctx) rule \<and>
    local_grants clk ses app (wp_rate_limiter p) \<and>
    distributed_grants clk (effective_limit (cx_route_config ctx) rule) app (wp_gateway p) \<and>
    circuit_admits clk app (gw_circuit_breaker (wp_gateway p)) \<and> wp_backpressure p"
proof (cases "resolve_effective_auth env ses ctx p rule")
  case (Inl reply)
  then have "\<not> (\<forall>e. rule = Some e \<and> er_auth e = EndpointApiKey \<longrightarrow> api_key_presented env ses p app)"
    using resolve_effective_auth_Ok [of env ses ctx p rule "required_policy (cx_route_config ctx) rule"] assms(1)
    by (auto simp: api_key_presented_def)
  then have "\<not> caller_admitted env clk ses p app (cx_route_config ctx) rule"
    unfolding caller_admitted_def by blast
  with Inl show ?thesis
    by (simp add: guarded_stages_def)
next
  case (Inr pol)
  then have pol: "pol = required_policy (cx_route_config ctx) rule"
      and key: "\<forall>e. rule = Some e \<and> er_auth e = EndpointApiKey \<longrightarrow> api_key_presented env ses p app"
    using assms(1) by (auto simp: resolve_effective_auth_Ok api_key_presented_def)
  show ?thesis
    using Inr key authenticated_stages_passes [OF assms pol, of env clk ses p]
    unfolding caller_admitted_def pol [symmetric] by (simp add: guarded_stages_def)
qed

lemma guarded_stages_app:
  assumes "cx_app_id ctx = Some app" and "fst (guarded_stages env clk ses rule ctx p) = None"
  shows "cx_app_id (fst (snd (guarded_stages env clk ses rule ctx p))) = Some app"
proof (cases "resolve_effective_auth env ses ctx p rule")
  case (Inr pol)
  let ?auth = "authenticate_request env clk ses pol ctx p"
  obtain r ctx' p' where auth: "?auth = (r, ctx', p')"
    by (cases ?auth) auto
  have r: "r = None"
    using assms(2) Inr auth by (auto simp: guarded_stages_def and_then_passes)
  then have app': "cx_app_id ctx' = Some app"
    using authenticate_request_ctx [of env clk ses pol ctx p] auth assms(1) by (simp split: if_splits)
  let ?rest = "and_then (apply_rate_limits clk ses rule ctx' p') (\<lambda>ctx p.
    and_then (enforce_circuit_breaker clk ctx p) (\<lambda>ctx p. enforce_backpressure ctx p))"
  have eq: "guarded_stages env clk ses rule ctx p = and_then (authorize_request rule ctx' p') (\<lambda>ctx p.
      and_then (apply_rate_limits clk ses rule ctx p) (\<lambda>ctx p.
      and_then (enforce_circuit_breaker clk ctx p) (\<lambda>ctx p. enforce_backpressure ctx p)))"
    using Inr auth r by (simp add: guarded_stages_def)
  then have "fst (authorize_request rule ctx' p') = None"
    using assms(2) by (simp add: and_then_passes)
  then have "guarded_stages env clk ses rule ctx p = ?rest"
    using eq authorize_request_state [of rule ctx' p'] by (simp add: and_then_state)
  with throttling_ctx [OF app', of clk ses rule p'] assms(2) app' show ?thesis
    by simp
qed (use assms in \<open>simp add: guarded_stages_def\<close>)

lemma filter_passes_iff:
  "fst (request_filter env clk trace_id ses new_ctx p) = None \<and>
   cx_app_id (fst (snd (request_filter env clk trace_id ses new_ctx p))) = Some app \<longleftrightarrow>
   admitted env clk ses p app"
proof -
  let ?host = "extract_request_host (pe_http env) (se_header ses)"
  let ?path = "uri_path (pe_http env) (rh_uri (se_header ses))"
  let ?ctx = "new_ctx\<lparr> cx_trace_id := Some trace_id \<rparr>"
  consider (skip) "?host = [] \<or> ?path = ''/_platform/health''"
    | (large) "\<not> (?host = [] \<or> ?path = ''/_platform/health'')"
        "body_too_large (wp_max_body_size_bytes p) (rh_headers (se_header ses))"
    | (lost) "\<not> (?host = [] \<or> ?path = ''/_platform/health'')"
        "\<not> body_too_large (wp_max_body_size_bytes p) (rh_headers (se_header ses))"
        "resolve (wp_router p) ?host ?path = None"
    | (found) r where "\<not> (?host = [] \<or> ?path = ''/_platform/health'')"
        "\<not> body_too_large (wp_max_body_size_bytes p) (rh_headers (se_header ses))"
        "resolve (wp_router p) ?host ?path = Some r"
    by blast
  then show ?thesis
  proof cases
    case skip
    then show ?thesis
      by (auto simp: request_filter_def admitted_def Let_def new_ctx_def)
  next
    case large
    then show ?thesis
      by (simp add: request_filter_def admitted_def Let_def)
  next
    case lost
    then show ?thesis
      by (simp add: request_filter_def admitted_def Let_def resolve_route_def new_ctx_def)
  next
    case found
    let ?c = "resolve_route p ?host ?path ?ctx"
    let ?rule = "find_endpoint_rule ?c ?path (rh_method (se_header ses))"
    have c: "cx_app_id ?c = Some (resolved_app_id r)" "cx_user_identity ?c = None"
        "cx_route_config ?c = get_route_config (wp_gateway p) (resolved_app_id r)"
      using found(3) by (simp_all add: resolve_route_def new_ctx_def)
    have rule: "?rule = endpoint_rule_of (get_route_config (wp_gateway p) (resolved_app_id r)) ?path
        (rh_method (se_header ses))"
      by (simp add: find_endpoint_rule_def endpoint_rule_of_def c)
    have run: "request_filter env clk trace_id ses new_ctx p =
        and_then (cors_stage (pe_http env) ses ?c p) (\<lambda>ctx p.
          guarded_stages env clk ses (find_endpoint_rule ctx ?path (rh_method (se_header ses))) ctx p)"
      using found(1,2) c(1) by (simp add: request_filter_def guarded_stages_def Let_def)
    show ?thesis
    proof (cases "preflight (cx_route_config ?c) (rh_method (se_header ses))")
      case True
      then have "fst (request_filter env clk trace_id ses new_ctx p) \<noteq> None"
        unfolding run by (simp add: and_then_passes cors_stage_passes)
      with True c(3) found(3) show ?thesis
        by (auto simp: admitted_def Let_def)
    next
      case False
      then have "fst (cors_stage (pe_http env) ses ?c p) = None"
        by (simp add: cors_stage_passes)
      then have eq: "request_filter env clk trace_id ses new_ctx p = guarded_stages env clk ses ?rule ?c p"
        unfolding run using cors_stage_state [of "pe_http env" ses ?c p] by (simp add: and_then_state)
      have pass: "fst (guarded_stages env clk ses ?rule ?c p) = None \<longleftrightarrow> admitted env clk ses p (resolved_app_id r)"
        unfolding guarded_stages_passes [OF c(1,2)]
        using found False by (auto simp: admitted_def Let_def rule c)
      have "admitted env clk ses p app \<Longrightarrow> app = resolved_app_id r"
        using found(3) by (auto simp: admitted_def Let_def)
      with guarded_stages_app [OF c(1), of env clk ses ?rule p] pass show ?thesis
        unfolding eq by auto
    qed
  qed
qed

section \<open>Feedback to the circuit breaker\<close>

definition is_server_error :: "u16 \<Rightarrow> bool" where
  "is_server_error status \<longleftrightarrow> 500 \<le> status \<and> status < 600"

lemma sublist_map_inj:
  assumes "inj f"
  shows "sublist (map f xs) (map f ys) \<longleftrightarrow> sublist xs ys"
proof
  assume "sublist (map f xs) (map f ys)"
  then obtain ps ss where "map f ys = ps @ map f xs @ ss"
    by (auto simp: sublist_def)
  then obtain us vs ws where "ys = us @ vs @ ws" "map f vs = map f xs"
    by (auto simp: map_eq_append_conv append_eq_map_conv)
  with assms show "sublist xs ys"
    by (auto simp: inj_map_eq_map)
qed (simp add: map_mono_sublist)

type_synonym timed_response = "response_header \<times> instant \<times> instant \<times> instant"

fun respond :: "'uri http_lib \<Rightarrow> 'uri session \<Rightarrow> request_ctx \<Rightarrow> timed_response \<Rightarrow> 'key wasm_proxy \<Rightarrow> 'key wasm_proxy" where
  "respond lib ses ctx (resp, t0, t1, t2) p = snd (upstream_response_filter lib t0 t1 t2 ses ctx resp p)"

abbreviation breaker_of :: "'key wasm_proxy \<Rightarrow> cb_manager" where
  "breaker_of p \<equiv> gw_circuit_breaker (wp_gateway p)"

fun response_outcome :: "timed_response \<Rightarrow> outcome \<times> instant \<times> instant" where
  "response_outcome (resp, t0, t1, t2) = (if is_server_error (rs_status resp) then Failed else Succeeded, t1, t2)"

lemma respond_breaker:
  assumes "cx_app_id ctx = Some app"
  shows "breaker_of (respond lib ses ctx (resp, t0, t1, t2) p) = cb_store (breaker_of p) (app_id_as_str app)
    (circuit_outcome (cb_failure_threshold (breaker_of p)) (response_outcome (resp, t0, t1, t2))
      (cb_entry (breaker_of p) (app_id_as_str app) t0))"
  using assms
  by (auto simp: upstream_response_filter_def is_server_error_def cb_record_failure_def cb_record_success_def Let_def
      split: option.splits)

lemma responds_breaker:
  assumes "cx_app_id ctx = Some app" and "hm_get (cb_circuits (breaker_of p)) (app_id_as_str app) = Some c"
  shows "hm_get (cb_circuits (breaker_of (fold (respond lib ses ctx) rs p))) (app_id_as_str app) =
    Some (fold (circuit_outcome (cb_failure_threshold (breaker_of p))) (map response_outcome rs) c)"
  using assms(2)
proof (induction rs arbitrary: p c)
  case (Cons r rs)
  obtain resp t0 t1 t2 where r: "r = (resp, t0, t1, t2)" by (cases r) auto
  have step: "breaker_of (respond lib ses ctx r p) = cb_store (breaker_of p) (app_id_as_str app)
      (circuit_outcome (cb_failure_threshold (breaker_of p)) (response_outcome r) c)"
    unfolding r respond_breaker [OF assms(1)] using Cons.prems by (simp add: cb_entry_def hm_or_insert_def)
  have "hm_get (cb_circuits (breaker_of (respond lib ses ctx r p))) (app_id_as_str app) =
      Some (circuit_outcome (cb_failure_threshold (breaker_of p)) (response_outcome r) c)"
    unfolding step by (simp add: cb_store_def)
  from Cons.IH [OF this] show ?case
    by (simp add: step cb_store_def)
qed simp

section \<open>Forwarded headers\<close>

lemma lower_platform_names [header_names]:
  "to_ascii_lowercase ''x-app-id'' = ''x-app-id''" "to_ascii_lowercase ''X-App-Id'' = ''x-app-id''"
  "to_ascii_lowercase ''x-trace-id'' = ''x-trace-id''" "to_ascii_lowercase ''X-Trace-Id'' = ''x-trace-id''"
  "to_ascii_lowercase ''traceparent'' = ''traceparent''" "to_ascii_lowercase ''tracestate'' = ''tracestate''"
  "to_ascii_lowercase ''X-Forwarded-Prefix'' = ''x-forwarded-prefix''"
  "to_ascii_lowercase ''X-Original-Uri'' = ''x-original-uri''"
  by (simp_all add: to_ascii_lowercase_def char_of_def bit_0)

lemma remove_untrusted_at:
  "remove_untrusted_platform_headers h n =
    (if n \<in> {''x-app-id'', ''x-trace-id'', ''traceparent'', ''tracestate''} then [] else h n)"
  by (simp add: remove_untrusted_platform_headers_def hdr_remove_def header_names)

text \<open>The propagator writes the two headers of the W3C trace context.\<close>

definition w3c_trace_headers :: "(string \<times> string) list \<Rightarrow> bool" where
  "w3c_trace_headers ths \<longleftrightarrow> fst ` set ths \<subseteq> {''traceparent'', ''tracestate''}"

lemma inject_trace_other:
  assumes "http_contract lib" "w3c_trace_headers ths" "n \<noteq> ''traceparent''" "n \<noteq> ''tracestate''"
  shows "inject_trace lib ths h n = h n"
  using assms(2)
proof (induction ths arbitrary: h)
  case (Cons kv ths)
  obtain k v where kv: "kv = (k, v)" by force
  have "insert_header lib k v h n = h n"
    using Cons.prems assms(3,4) kv
    by (intro insert_header_other [OF assms(1)]) (auto simp: w3c_trace_headers_def header_names)
  moreover have "inject_trace lib (kv # ths) h = inject_trace lib ths (insert_header lib k v h)"
    by (simp add: inject_trace_def kv)
  ultimately show ?case
    using Cons by (simp add: w3c_trace_headers_def)
qed (simp add: inject_trace_def)

lemma strip_matched_prefix_other:
  assumes "http_contract lib" "n \<noteq> ''x-forwarded-prefix''" "n \<noteq> ''x-original-uri''"
  shows "rh_headers (strip_matched_prefix lib ctx request) n = rh_headers request n"
  using assms by (simp add: strip_matched_prefix_def Let_def insert_header_other header_names split: option.splits)

text \<open>The request after the platform has written its headers, and before the transformation.\<close>

definition platform_request ::
  "'uri http_lib \<Rightarrow> (string \<times> string) list \<Rightarrow> request_ctx \<Rightarrow> 'uri request_header \<Rightarrow> 'uri request_header" where
  "platform_request lib ths ctx request =
     (let h = remove_untrusted_platform_headers (rh_headers request);
          h = (case cx_app_id ctx of None \<Rightarrow> h | Some app \<Rightarrow> insert_header lib ''X-App-Id'' (app_id_as_str app) h);
          h = (case cx_trace_id ctx of None \<Rightarrow> h | Some tid \<Rightarrow> insert_header lib ''X-Trace-Id'' tid h)
      in strip_matched_prefix lib ctx (request\<lparr> rh_headers := inject_trace lib ths h \<rparr>))"

lemma upstream_request_filter_alt:
  "upstream_request_filter lib ths ctx request =
    (case Option.bind (cx_route_config ctx) grc_transform of
       None \<Rightarrow> Some (platform_request lib ths ctx request)
     | Some t \<Rightarrow> apply_request_transform lib (platform_request lib ths ctx request) t (cx_user_identity ctx))"
  unfolding upstream_request_filter_def platform_request_def Let_def ..

lemma platform_request_other:
  assumes "http_contract lib" "w3c_trace_headers ths"
    and "n \<notin> {''x-app-id'', ''x-trace-id'', ''traceparent'', ''tracestate'', ''x-forwarded-prefix'', ''x-original-uri''}"
  shows "rh_headers (platform_request lib ths ctx request) n = rh_headers request n"
  using assms
  by (simp add: platform_request_def Let_def strip_matched_prefix_other inject_trace_other insert_header_other
      remove_untrusted_at header_names split: option.splits)

lemma platform_request_app_id:
  assumes "http_contract lib" "w3c_trace_headers ths" "cx_app_id ctx = Some app"
    and "list_all visible_char (app_id_as_str app)"
  shows "rh_headers (platform_request lib ths ctx request) ''x-app-id'' = [Visible (app_id_as_str app)]"
proof -
  have "http_name lib ''X-App-Id'' = Some ''x-app-id''"
    using http_name_token [OF assms(1), of "''X-App-Id''"] by (simp add: token_char_def header_names)
  moreover have "http_value lib (app_id_as_str app) \<noteq> None"
    using assms(1,4) by (simp add: http_contract_def)
  ultimately have "insert_header lib ''X-App-Id'' (app_id_as_str app) h ''x-app-id'' = [Visible (app_id_as_str app)]" for h
    by (simp add: insert_header_visible [OF assms(1)])
  with assms show ?thesis
    by (simp add: platform_request_def Let_def strip_matched_prefix_other inject_trace_other insert_header_other
        header_names split: option.splits)
qed

text \<open>The value of an identity header, or its fallback if the text is no header value.\<close>

definition header_or :: "'uri http_lib \<Rightarrow> string \<Rightarrow> string \<Rightarrow> header_value" where
  "header_or lib value fallback = unwrap_or (http_value lib value) (Visible fallback)"

lemma insert_identity_header_at:
  assumes "http_contract lib" "http_name lib name = Some n"
  shows "insert_identity_header lib name value fb h = Some (h(n := [header_or lib value fb]))"
  using assms http_name_canonical [OF assms] by (simp add: insert_identity_header_def hdr_insert_def header_or_def)

text \<open>The identity headers that leave the gateway, given those of the client.\<close>

definition identity_headers :: "'uri http_lib \<Rightarrow> user_identity option \<Rightarrow> http_headers \<Rightarrow> http_headers" where
  "identity_headers lib user h n =
     (case user of
        None \<Rightarrow> h n
      | Some i \<Rightarrow>
          if n = ''x-user-id'' then [header_or lib (ui_sub i) ''unknown'']
          else if n = ''x-user-email''
          then (case ui_email i of None \<Rightarrow> h n | Some e \<Rightarrow> [header_or lib e ''''])
          else if n = ''x-user-roles'' \<and> ui_roles i \<noteq> [] then [header_or lib (str_join '','' (ui_roles i)) '''']
          else h n)"

lemma inject_identity_exact:
  assumes "http_contract lib"
  shows "inject_identity lib user h = Some (identity_headers lib user h)"
  using insert_identity_header_at [OF assms] literal_names [OF assms]
  by (auto simp: inject_identity_def identity_headers_def fun_eq_iff split: option.splits)

text \<open>
  What the headers a route adds and removes make of a header: it is gone if a removed name denotes it, otherwise it has
  the value of the last added header of that name, if there is one.
\<close>

definition custom_header ::
  "'uri http_lib \<Rightarrow> request_transform \<Rightarrow> string \<Rightarrow> header_value list \<Rightarrow> header_value list" where
  "custom_header lib t n vs =
     (let added = filter (\<lambda>kv. http_name lib (fst kv) = Some n) (add_headers t)
      in if list_ex (\<lambda>k. http_name lib k = Some n) (remove_headers t) then []
         else if added = [] then vs else [header_or lib (snd (last added)) ''''])"

lemma fold_add_custom:
  assumes "http_contract lib"
  shows "fold (add_custom_header lib) kvs h n =
    (let added = filter (\<lambda>kv. http_name lib (fst kv) = Some n) kvs
     in if added = [] then h n else [header_or lib (snd (last added)) ''''])"
proof (induction kvs rule: rev_induct)
  case (snoc kv kvs)
  then show ?case
    using http_name_canonical [OF assms, of "fst kv"]
    by (auto simp: Let_def add_custom_header_def hdr_insert_def header_or_def split: option.splits)
qed simp

lemma fold_remove_custom:
  assumes "http_contract lib"
  shows "fold (remove_custom_header lib) ks h n = (if list_ex (\<lambda>k. http_name lib k = Some n) ks then [] else h n)"
proof (induction ks rule: rev_induct)
  case (snoc k ks)
  then show ?case
    using http_name_canonical [OF assms, of k]
    by (auto simp: remove_custom_header_def hdr_remove_def split: option.splits)
qed simp

lemma strip_prefix_self [simp]: "strip_prefix p p = Some []"
  by (simp add: strip_prefix_def)

lemma strip_prefix_append [simp]: "strip_prefix p (p @ s) = Some s"
  by (simp add: strip_prefix_def)

section \<open>Hosts\<close>

lemma digits_no_colon: "list_all is_ascii_digit ds \<Longrightarrow> CHR '':'' \<notin> set ds"
  by (induction ds) (auto simp: is_ascii_digit_def)

lemma canonical_host_plain:
  assumes "CHR '':'' \<notin> set name" and "\<not> prefix ''['' name"
  shows "canonical_host name = name"
  using assms by (simp add: canonical_host_def rsplit_once_None strip_prefix_def)

lemma canonical_host_port:
  assumes "CHR '':'' \<notin> set name" and "\<not> prefix ''['' name" and "name \<noteq> []"
    and "port \<noteq> []" "list_all is_ascii_digit port"
  shows "canonical_host (name @ '':'' @ port) = name"
proof -
  have "\<not> prefix ''['' (name @ '':'' @ port)"
    using assms(2,3) by (cases name) auto
  then show ?thesis
    using assms by (simp add: canonical_host_def rsplit_once_append digits_no_colon contains_char_def strip_prefix_def)
qed

lemma canonical_host_bracketed:
  assumes "CHR '']'' \<notin> set inner"
  shows "canonical_host (''['' @ inner @ '']'' @ rest) = inner"
  using assms split_once_append [of "CHR '']''" inner rest] by (simp add: canonical_host_def strip_prefix_def)

text \<open>What the filter reads off a request: its host, its path, and the endpoint rule for it.\<close>

abbreviation request_host :: "('uri, 'key, 'resp) proxy_env \<Rightarrow> 'uri session \<Rightarrow> string" where
  "request_host env ses \<equiv> extract_request_host (pe_http env) (se_header ses)"

abbreviation request_path :: "('uri, 'key, 'resp) proxy_env \<Rightarrow> 'uri session \<Rightarrow> string" where
  "request_path env ses \<equiv> uri_path (pe_http env) (rh_uri (se_header ses))"

abbreviation request_rule ::
  "('uri, 'key, 'resp) proxy_env \<Rightarrow> 'uri session \<Rightarrow> 'key wasm_proxy \<Rightarrow> app_id \<Rightarrow> endpoint_rule option" where
  "request_rule env ses p app \<equiv>
     endpoint_rule_of (get_route_config (wp_gateway p) app) (request_path env ses) (rh_method (se_header ses))"

section \<open>Properties\<close>

text \<open>
  (C2) Exactly which requests the filter passes on, and for which application: the host and path
  resolve to the application, the announced body is within the limit, the request is no preflight,
  the caller satisfies the policy of the first matching endpoint rule or of the route, both rate
  limiters grant the request, the circuit is not open and the node accepts requests.
\<close>

theorem admission_exact:
  "fst (request_filter env clk trace_id ses new_ctx p) = None \<and>
     cx_app_id (fst (snd (request_filter env clk trace_id ses new_ctx p))) = Some app \<longleftrightarrow>
   request_host env ses \<noteq> [] \<and> request_path env ses \<noteq> ''/_platform/health'' \<and>
   \<not> body_too_large (wp_max_body_size_bytes p) (rh_headers (se_header ses)) \<and>
   (\<exists>r. resolve (wp_router p) (request_host env ses) (request_path env ses) = Some r \<and> resolved_app_id r = app) \<and>
   \<not> preflight (get_route_config (wp_gateway p) app) (rh_method (se_header ses)) \<and>
   caller_admitted env clk ses p app (get_route_config (wp_gateway p) app) (request_rule env ses p app) \<and>
   local_grants clk ses app (wp_rate_limiter p) \<and>
   distributed_grants clk (effective_limit (get_route_config (wp_gateway p) app) (request_rule env ses p app))
     app (wp_gateway p) \<and>
   circuit_admits clk app (breaker_of p) \<and>
   is_accepting (wp_backpressure p)"
  unfolding filter_passes_iff admitted_def Let_def is_accepting_def ..

text \<open>
  An endpoint rule that inherits the authentication of its route inherits it only in part:
  where the route asks for roles, the token is verified but the roles are not looked at.
\<close>

theorem inherited_roles_not_enforced:
  assumes "get_route_config (wp_gateway p) app = Some cfg" and "grc_auth cfg = AuthRoles allowed cid"
    and "endpoint_rule_of (Some cfg) (uri_path (pe_http env) (rh_uri (se_header ses)))
      (rh_method (se_header ses)) = Some e"
    and "er_auth e = EndpointInherit" and "er_required_scopes e = []"
    and "bearer_identity env clk ses (AuthRoles allowed cid) p = Some identity"
    and "\<not> authorize identity (grc_auth cfg)"
    and "resolve (wp_router p) (extract_request_host (pe_http env) (se_header ses))
      (uri_path (pe_http env) (rh_uri (se_header ses))) = Some r" "resolved_app_id r = app"
    and "extract_request_host (pe_http env) (se_header ses) \<noteq> []"
      "uri_path (pe_http env) (rh_uri (se_header ses)) \<noteq> ''/_platform/health''"
      "\<not> body_too_large (wp_max_body_size_bytes p) (rh_headers (se_header ses))"
      "\<not> preflight (Some cfg) (rh_method (se_header ses))"
    and "local_grants clk ses app (wp_rate_limiter p)"
      "distributed_grants clk (effective_limit (Some cfg) (Some e)) app (wp_gateway p)"
      "circuit_admits clk app (breaker_of p)" "wp_backpressure p"
  shows "fst (request_filter env clk trace_id ses new_ctx p) = None \<and>
    cx_app_id (fst (snd (request_filter env clk trace_id ses new_ctx p))) = Some app"
proof -
  have "caller_admitted env clk ses p app (Some cfg) (Some e)"
    using assms(2,4,5,6) by (simp add: caller_admitted_def required_policy_def authorize_scopes_def)
  then show ?thesis
    unfolding filter_passes_iff admitted_def Let_def using assms by auto
qed

text \<open>
  The application identity that an upstream sees is the platform's: whatever the client sent,
  the forwarded request carries the resolved application id and no other value.
\<close>

theorem app_id_header_authoritative:
  assumes "http_contract lib" and "w3c_trace_headers ths"
    and "cx_app_id ctx = Some app" and "list_all visible_char (app_id_as_str app)"
    and "Option.bind (cx_route_config ctx) grc_transform = None"
  shows "\<exists>request'. upstream_request_filter lib ths ctx request = Some request' \<and>
    rh_headers request' ''x-app-id'' = [Visible (app_id_as_str app)]"
  using platform_request_app_id [OF assms(1-4)] assms(5) by (simp add: upstream_request_filter_alt)

text \<open>
  (C39) The user identity that an upstream sees. Without a transformation on the route all three identity headers are
  the client's own. With one, \<open>X-User-Id\<close> is the subject of the token, but the client's \<open>X-User-Email\<close> and
  \<open>X-User-Roles\<close> survive where the token has no e-mail or no roles, and all of them where the request is not
  authenticated; then the headers the route adds replace these values and the headers it removes are gone, whether they
  came from the token or from the client. The request is always forwarded.
\<close>

theorem forwarded_identity_headers:
  assumes "http_contract lib" and "w3c_trace_headers ths"
    and "n = ''x-user-id'' \<or> n = ''x-user-email'' \<or> n = ''x-user-roles''"
  shows "\<exists>request'. upstream_request_filter lib ths ctx request = Some request' \<and>
    rh_headers request' n =
      (case Option.bind (cx_route_config ctx) grc_transform of
         None \<Rightarrow> rh_headers request n
       | Some t \<Rightarrow> custom_header lib t n
          (case cx_user_identity ctx of
             None \<Rightarrow> rh_headers request n
           | Some i \<Rightarrow>
               if n = ''x-user-id'' then [header_or lib (ui_sub i) ''unknown'']
               else if n = ''x-user-email''
               then (case ui_email i of None \<Rightarrow> rh_headers request n | Some e \<Rightarrow> [header_or lib e ''''])
               else (if ui_roles i = [] then rh_headers request n
                     else [header_or lib (str_join '','' (ui_roles i)) ''''])))"
proof -
  have keep: "rh_headers (platform_request lib ths ctx request) n = rh_headers request n"
    using assms(3) by (intro platform_request_other [OF assms(1,2)]) auto
  with assms(3) show ?thesis
    by (auto simp: upstream_request_filter_alt apply_request_transform_def inject_identity_exact [OF assms(1)]
        identity_headers_def custom_header_def fold_add_custom [OF assms(1)] fold_remove_custom [OF assms(1)]
        Let_def split: option.splits)
qed

text \<open>
  Only the statuses of responses drive the circuit of an application. From the first response of an application whose
  circuit has not been used, and without an admission check in between (a check after the timeout would admit a probe),
  the circuit is open exactly if as many server errors as the threshold came in a row, and closed otherwise. A failure
  to connect is no response and leaves the circuit alone, whatever failure criteria the route configures.
\<close>

theorem server_errors_open_circuit:
  assumes "cx_app_id ctx = Some app"
    and "hm_get (cb_circuits (breaker_of p)) (app_id_as_str app) = None"
    and "0 < cb_failure_threshold (breaker_of p)" and "rs \<noteq> []"
  shows "map_option ci_state (hm_get (cb_circuits (breaker_of (fold (respond lib ses ctx) rs p))) (app_id_as_str app)) =
    Some (if sublist (replicate (unat (cb_failure_threshold (breaker_of p))) True)
               (map (\<lambda>r. is_server_error (rs_status (fst r))) rs) then Open else Closed)"
proof -
  let ?th = "cb_failure_threshold (breaker_of p)"
  obtain r rs' where rs: "rs = r # rs'" using assms(4) by (cases rs) auto
  obtain resp t0 t1 t2 where r: "r = (resp, t0, t1, t2)" by (cases r) auto
  have step: "breaker_of (respond lib ses ctx r p) = cb_store (breaker_of p) (app_id_as_str app)
      (circuit_outcome ?th (response_outcome r) (circuit_new t0))"
    unfolding r respond_breaker [OF assms(1)] using assms(2) by (simp add: cb_entry_def hm_or_insert_def)
  then have "hm_get (cb_circuits (breaker_of (respond lib ses ctx r p))) (app_id_as_str app) =
      Some (circuit_outcome ?th (response_outcome r) (circuit_new t0))"
    by (simp add: cb_store_def)
  from responds_breaker [OF assms(1) this, of lib ses rs']
  have get: "hm_get (cb_circuits (breaker_of (fold (respond lib ses ctx) rs p))) (app_id_as_str app) =
      Some (fold (circuit_outcome ?th) (map response_outcome rs) (circuit_new t0))"
    by (simp add: rs step cb_store_def)
  have out: "map fst (map response_outcome rs) =
      map (\<lambda>b. if b then Failed else Succeeded) (map (\<lambda>r. is_server_error (rs_status (fst r))) rs)"
    by auto
  have pos: "0 < unat ?th"
    using assms(3) by (simp add: word_less_nat_alt)
  have "trips (unat ?th) 0 (map fst (map response_outcome rs)) \<longleftrightarrow>
      sublist (replicate (unat ?th) Failed) (map fst (map response_outcome rs))"
    using trips_iff [OF pos] prefix_imp_sublist by auto
  also have "\<dots> \<longleftrightarrow> sublist (replicate (unat ?th) True) (map (\<lambda>r. is_server_error (rs_status (fst r))) rs)"
  proof -
    have inj: "inj (\<lambda>b. if b then Failed else Succeeded)"
      by (auto simp: inj_def)
    have "replicate (unat ?th) Failed = map (\<lambda>b. if b then Failed else Succeeded) (replicate (unat ?th) True)"
      by simp
    then show ?thesis
      unfolding out by (metis sublist_map_inj inj)
  qed
  finally show ?thesis
    using get circuit_outcomes_trip [OF circuit_inv_new [OF assms(3)], of t0 "map response_outcome rs"]
    by (simp add: circuit_new_def)
qed

text \<open>
  A request for exactly the prefix that its route strips is forwarded with its original URI,
  because the stripped path is empty and the empty text is no URI; the upstream is nevertheless told
  that the prefix was removed.
\<close>

theorem exact_prefix_not_stripped:
  assumes "http_contract lib" and "uri_parse lib '''' = None"
    and "cx_strip_prefix ctx" "cx_matched_prefix ctx = Some pfx"
    and "uri_path lib (rh_uri request) = pfx" "uri_query lib (rh_uri request) = None"
    and "list_all visible_char pfx"
  shows "rh_uri (strip_matched_prefix lib ctx request) = rh_uri request \<and>
    rh_headers (strip_matched_prefix lib ctx request) ''x-forwarded-prefix'' = [Visible pfx]"
proof -
  have "http_name lib ''X-Forwarded-Prefix'' = Some ''x-forwarded-prefix''"
    using http_name_token [OF assms(1), of "''X-Forwarded-Prefix''"] by (simp add: token_char_def header_names)
  then have "insert_header lib ''X-Forwarded-Prefix'' pfx h ''x-forwarded-prefix'' = [Visible pfx]" for h
    using assms(1,7) by (simp add: insert_header_visible [OF assms(1)] http_contract_def)
  with assms show ?thesis
    by (simp add: strip_matched_prefix_def strip_uri_prefix_def Let_def starts_with_def insert_header_other header_names)
qed

section \<open>A concrete instance\<close>

definition w_session :: "string session" where
  "w_session = \<lparr> se_header = \<lparr> rh_method = ''GET'', rh_uri = ''/cart'',
     rh_headers = (\<lambda>_. [])(''x-app-id'' := [Visible ''admin:v1''], ''x-user-id'' := [Visible ''root'']) \<rparr>,
     se_client_ip = None \<rparr>"

definition w_context :: request_ctx where
  "w_context = new_ctx\<lparr> cx_app_id := Some (AppId ''shop:v1''), cx_user_identity := Some anonymous,
     cx_route_config := Some (gateway_route_config_default\<lparr> grc_transform := None \<rparr>) \<rparr>"

definition w_proxy :: "string wasm_proxy" where
  "w_proxy = \<lparr> wp_router = [], wp_upstream = upstream_registry_new,
     wp_rate_limiter = rate_limiter_new rate_limit_config_default, wp_backpressure = backpressure_new,
     wp_node_table = \<lparr> nlt_nodes = [], nlt_unhealthy = [] \<rparr>, wp_local_node_id = ''n1'', wp_rejections = None,
     wp_gateway = gateway_new None, wp_max_body_size_bytes = 1024 \<rparr>"

theorem server_errors_open_circuit_witness:
  "map_option ci_state (hm_get (cb_circuits (breaker_of (fold (respond w_http w_session w_context)
      (replicate 5 (\<lparr> rs_status = 502, rs_headers = \<lambda>_. [] \<rparr>, 0, 0, 0)) w_proxy))) ''shop:v1'') = Some Open"
  using server_errors_open_circuit [of w_context "AppId ''shop:v1''" w_proxy
      "replicate 5 (\<lparr> rs_status = 502, rs_headers = \<lambda>_. [] \<rparr>, 0, 0, 0)" w_http w_session]
  by (simp add: w_context_def w_proxy_def gateway_new_def cb_new_def is_server_error_def hm_simps del: fold_replicate)

theorem app_id_header_authoritative_witness:
  "\<exists>request'. upstream_request_filter w_http [(''traceparent'', ''00'')] w_context (se_header w_session) = Some request' \<and>
    rh_headers request' ''x-app-id'' = [Visible ''shop:v1'']"
  using app_id_header_authoritative [OF w_http_contract, of "[(''traceparent'', ''00'')]" w_context "AppId ''shop:v1''"
      "se_header w_session"]
  by (simp add: w_context_def w3c_trace_headers_def visible_char_def)

theorem forwarded_identity_headers_witness:
  "\<exists>request'. upstream_request_filter w_http [(''traceparent'', ''00'')] w_context (se_header w_session) = Some request' \<and>
    rh_headers request' ''x-user-id'' = [Visible ''root'']"
  using forwarded_identity_headers [OF w_http_contract, of "[(''traceparent'', ''00'')]" "''x-user-id''" w_context
      "se_header w_session"]
  by (simp add: w_context_def w3c_trace_headers_def w_session_def)

end
