(* ===== verification/Namespace_Registry.thy ===== *)
theory Namespace_Registry
  imports App_Types Socket_Policy
begin

text \<open>
  The registry of running instances that the supervisor keeps for traffic between applications of a
  node (\<open>crates/supervisor/src/network.rs\<close>): a table per namespace from application names, without
  version, to the endpoints of their instances, and the owners of source ports.
\<close>

section \<open>State and operations\<close>

record registered_endpoint =
  re_addr :: socket_addr
  re_h2c :: bool

type_synonym app_instance_map = "(string, registered_endpoint list) hmap"

record namespace_registry =
  nr_instances :: "(string, app_instance_map) hmap"
  nr_port_to_app :: "(u16, app_id) hmap"

definition namespace_registry_default :: namespace_registry where
  "namespace_registry_default = \<lparr> nr_instances = [], nr_port_to_app = [] \<rparr>"

definition register_endpoint :: "app_id \<Rightarrow> registered_endpoint \<Rightarrow> namespace_registry \<Rightarrow> namespace_registry" where
  "register_endpoint app endpoint r =
     (let ns = app_id_namespace app; key = app_id_bare_app_name app;
          apps = hm_or_insert (nr_instances r) ns [];
          es = hm_or_insert apps key []
      in r\<lparr> nr_instances := hm_insert ns (hm_insert key (es @ [endpoint]) apps) (nr_instances r) \<rparr>)"

definition register :: "app_id \<Rightarrow> socket_addr \<Rightarrow> namespace_registry \<Rightarrow> namespace_registry" where
  "register app addr r = register_endpoint app \<lparr> re_addr = addr, re_h2c = False \<rparr> r"

definition deregister :: "app_id \<Rightarrow> socket_addr \<Rightarrow> namespace_registry \<Rightarrow> namespace_registry" where
  "deregister app addr r =
     (let ns = app_id_namespace app; key = app_id_bare_app_name app
      in case hm_get (nr_instances r) ns of
           None \<Rightarrow> r
         | Some apps \<Rightarrow>
             (let apps = (case hm_get apps key of
                    None \<Rightarrow> apps
                  | Some es \<Rightarrow>
                      (let es = filter (\<lambda>e. re_addr e \<noteq> addr) es
                       in if es = [] then hm_remove key apps else hm_insert key es apps))
              in if apps = [] then r\<lparr> nr_instances := hm_remove ns (nr_instances r) \<rparr>
                 else r\<lparr> nr_instances := hm_insert ns apps (nr_instances r) \<rparr>))"

definition resolve_endpoint :: "string \<Rightarrow> string \<Rightarrow> namespace_registry \<Rightarrow> registered_endpoint option" where
  "resolve_endpoint namespace bare_name r =
     Option.bind (Option.bind (hm_get (nr_instances r) namespace) (\<lambda>apps. hm_get apps bare_name))
       (\<lambda>es. case es of [] \<Rightarrow> None | e # _ \<Rightarrow> Some e)"

definition registry_resolve :: "string \<Rightarrow> string \<Rightarrow> namespace_registry \<Rightarrow> socket_addr option" where
  "registry_resolve namespace bare_name r = map_option re_addr (resolve_endpoint namespace bare_name r)"

text \<open>
  The first application found that listens on a port; the outer option is the panic of
  \<open>AppId::new_namespaced\<close> on an invalid name.
\<close>

definition resolve_app_by_port :: "u16 \<Rightarrow> namespace_registry \<Rightarrow> app_id option option" where
  "resolve_app_by_port port r =
     (case find (\<lambda>(ns, name, es). list_ex (\<lambda>e. sa_port (re_addr e) = port) es)
             (concat (map (\<lambda>(ns, apps). map (\<lambda>(name, es). (ns, name, es)) apps) (nr_instances r))) of
        None \<Rightarrow> Some None
      | Some (ns, name, es) \<Rightarrow> map_option Some (app_id_new_namespaced ns name ''v1''))"

definition bind_source_port :: "u16 \<Rightarrow> app_id \<Rightarrow> namespace_registry \<Rightarrow> namespace_registry" where
  "bind_source_port port app r = r\<lparr> nr_port_to_app := hm_insert port app (nr_port_to_app r) \<rparr>"

definition resolve_source_app :: "u16 \<Rightarrow> namespace_registry \<Rightarrow> app_id option" where
  "resolve_source_app port r = hm_get (nr_port_to_app r) port"

definition release_source_port :: "u16 \<Rightarrow> namespace_registry \<Rightarrow> namespace_registry" where
  "release_source_port port r = r\<lparr> nr_port_to_app := hm_remove port (nr_port_to_app r) \<rparr>"

definition get_all_services :: "namespace_registry \<Rightarrow> (string, socket_addr list) hmap" where
  "get_all_services r =
     map (\<lambda>(key, es). (key, map re_addr es))
       (fold (\<lambda>(key, es) m. hm_insert key es m)
         (concat (map (\<lambda>(ns, apps). map (\<lambda>(name, es). (ns @ ''/'' @ name, es)) apps) (nr_instances r))) [])"

definition get_namespace_services :: "string \<Rightarrow> namespace_registry \<Rightarrow> (string, socket_addr list) hmap" where
  "get_namespace_services namespace r =
     map (\<lambda>(name, es). (name, map re_addr es)) (unwrap_or (hm_get (nr_instances r) namespace) [])"

section \<open>Abstraction\<close>

text \<open>The instances of an application name in a namespace, in the order they registered.\<close>

definition instances_of :: "namespace_registry \<Rightarrow> string \<Rightarrow> string \<Rightarrow> registered_endpoint list" where
  "instances_of r ns name =
     (case hm_get (nr_instances r) ns of None \<Rightarrow> [] | Some apps \<Rightarrow> unwrap_or (hm_get apps name) [])"

text \<open>No empty table and no empty list is kept.\<close>

definition ns_registry_inv :: "namespace_registry \<Rightarrow> bool" where
  "ns_registry_inv r \<longleftrightarrow> hm_wf (nr_instances r) \<and>
     (\<forall>ns apps. hm_get (nr_instances r) ns = Some apps \<longrightarrow>
        apps \<noteq> [] \<and> hm_wf apps \<and> (\<forall>name es. hm_get apps name = Some es \<longrightarrow> es \<noteq> []))"

lemma ns_registry_inv_default: "ns_registry_inv namespace_registry_default"
  by (simp add: ns_registry_inv_def namespace_registry_default_def)

lemma hm_insert_nonempty [simp]: "hm_insert k v m \<noteq> []"
  by (cases m) (auto simp: hm_insert_def)

lemma ns_registry_inv_register:
  assumes "ns_registry_inv r"
  shows "ns_registry_inv (register_endpoint app e r)"
proof -
  let ?apps = "hm_or_insert (nr_instances r) (app_id_namespace app) []"
  have "hm_wf ?apps" "\<forall>name es. hm_get ?apps name = Some es \<longrightarrow> es \<noteq> []"
    using assms by (auto simp: ns_registry_inv_def hm_or_insert_def split: option.splits)
  with assms show ?thesis
    by (auto simp: ns_registry_inv_def register_endpoint_def Let_def split: if_splits)
qed

lemma ns_registry_inv_deregister:
  assumes "ns_registry_inv r"
  shows "ns_registry_inv (deregister app addr r)"
proof (cases "hm_get (nr_instances r) (app_id_namespace app)")
  case (Some apps)
  let ?key = "app_id_bare_app_name app"
  let ?apps = "case hm_get apps ?key of None \<Rightarrow> apps
    | Some es \<Rightarrow> (let es = filter (\<lambda>e. re_addr e \<noteq> addr) es in if es = [] then hm_remove ?key apps else hm_insert ?key es apps)"
  have "hm_wf apps" "\<forall>name es. hm_get apps name = Some es \<longrightarrow> es \<noteq> []"
    using assms Some by (auto simp: ns_registry_inv_def)
  then have "hm_wf ?apps" "\<forall>name es. hm_get ?apps name = Some es \<longrightarrow> es \<noteq> []"
    by (auto simp: Let_def split: option.splits if_splits)
  with assms Some show ?thesis
    by (auto simp: ns_registry_inv_def deregister_def Let_def split: if_splits)
qed (use assms in \<open>simp add: deregister_def\<close>)

lemma instances_of_register:
  "instances_of (register_endpoint app e r) ns name =
    (if ns = app_id_namespace app \<and> name = app_id_bare_app_name app then instances_of r ns name @ [e]
     else instances_of r ns name)"
  by (auto simp: instances_of_def register_endpoint_def hm_or_insert_def Let_def split: option.splits)

lemma instances_of_deregister:
  "instances_of (deregister app addr r) ns name =
    (if ns = app_id_namespace app \<and> name = app_id_bare_app_name app
     then filter (\<lambda>e. re_addr e \<noteq> addr) (instances_of r ns name) else instances_of r ns name)"
proof (cases "hm_get (nr_instances r) (app_id_namespace app)")
  case (Some apps)
  let ?key = "app_id_bare_app_name app"
  let ?apps = "case hm_get apps ?key of None \<Rightarrow> apps
    | Some es \<Rightarrow> (let es = filter (\<lambda>e. re_addr e \<noteq> addr) es in if es = [] then hm_remove ?key apps else hm_insert ?key es apps)"
  have "unwrap_or (hm_get ?apps n) [] = (if n = ?key then filter (\<lambda>e. re_addr e \<noteq> addr) (unwrap_or (hm_get apps n) [])
      else unwrap_or (hm_get apps n) [])" for n
    by (auto simp: Let_def split: option.splits)
  moreover have "instances_of (deregister app addr r) ns name =
      (if ns = app_id_namespace app then unwrap_or (hm_get ?apps name) [] else instances_of r ns name)"
    using Some by (auto simp: instances_of_def deregister_def Let_def split: option.splits if_splits)
  ultimately show ?thesis
    using Some by (simp add: instances_of_def)
qed (simp add: deregister_def instances_of_def)

lemma resolve_endpoint_first:
  "resolve_endpoint ns name r = (case instances_of r ns name of [] \<Rightarrow> None | e # _ \<Rightarrow> Some e)"
proof (cases "hm_get (nr_instances r) ns")
  case (Some apps)
  then show ?thesis
    by (cases "hm_get apps name") (simp_all add: resolve_endpoint_def instances_of_def)
qed (simp add: resolve_endpoint_def instances_of_def)

lemma ns_registry_inv_ports:
  "ns_registry_inv (bind_source_port port app r) = ns_registry_inv r"
  "ns_registry_inv (release_source_port port r) = ns_registry_inv r"
  by (simp_all add: ns_registry_inv_def bind_source_port_def release_source_port_def)

section \<open>The registry as a machine\<close>

datatype registry_call =
    RegRegister app_id registered_endpoint
  | RegDeregister app_id socket_addr
  | RegBindPort u16 app_id
  | RegReleasePort u16

fun registry_step :: "registry_call \<Rightarrow> namespace_registry \<Rightarrow> namespace_registry" where
  "registry_step (RegRegister app e) r = register_endpoint app e r"
| "registry_step (RegDeregister app a) r = deregister app a r"
| "registry_step (RegBindPort port app) r = bind_source_port port app r"
| "registry_step (RegReleasePort port) r = release_source_port port r"

interpretation nsreg: call_machine registry_step ns_registry_inv
proof unfold_locales
  fix s e
  assume "ns_registry_inv s"
  then show "ns_registry_inv (registry_step e s)"
    by (cases e) (simp_all add: ns_registry_inv_register ns_registry_inv_deregister ns_registry_inv_ports)
qed

end
