(* ===== verification/Namespace_Map.thy ===== *)
theory Namespace_Map
  imports Prelude
begin

text \<open>
  The identity table of the eBPF monitor (\<open>crates/ebpf-monitor/src/namespace_map.rs\<close> and the shared
  structures of \<open>common.rs\<close>): which thread belongs to which application, and which source port
  belongs to which thread. The kernel maps are tables as well; whether the kernel accepts an
  insertion is an argument.
\<close>

section \<open>Thread identities\<close>

text \<open>\<open>std::str::from_utf8\<close> succeeds on well-formed UTF-8.\<close>

definition byte :: "char \<Rightarrow> nat" where
  "byte c = of_char c"

definition cont :: "char \<Rightarrow> bool" where
  "cont c = (128 \<le> byte c \<and> byte c \<le> 191)"

fun valid_utf8 :: "string \<Rightarrow> bool" where
  "valid_utf8 [] = True"
| "valid_utf8 (a # r1) =
     (if byte a < 128 then valid_utf8 r1
      else (case r1 of [] \<Rightarrow> False
        | b # r2 \<Rightarrow>
          if 194 \<le> byte a \<and> byte a \<le> 223 then cont b \<and> valid_utf8 r2
          else (case r2 of [] \<Rightarrow> False
            | c # r3 \<Rightarrow>
              if byte a = 224 then 160 \<le> byte b \<and> byte b \<le> 191 \<and> cont c \<and> valid_utf8 r3
              else if byte a = 237 then 128 \<le> byte b \<and> byte b \<le> 159 \<and> cont c \<and> valid_utf8 r3
              else if 225 \<le> byte a \<and> byte a \<le> 239 then cont b \<and> cont c \<and> valid_utf8 r3
              else (case r3 of [] \<Rightarrow> False
                | d # r4 \<Rightarrow>
                  if byte a = 240 then 144 \<le> byte b \<and> byte b \<le> 191 \<and> cont c \<and> cont d \<and> valid_utf8 r4
                  else if 241 \<le> byte a \<and> byte a \<le> 243 then cont b \<and> cont c \<and> cont d \<and> valid_utf8 r4
                  else if byte a = 244 then 128 \<le> byte b \<and> byte b \<le> 143 \<and> cont c \<and> cont d \<and> valid_utf8 r4
                  else False))))"

text \<open>The two names are arrays of 64 bytes.\<close>

record tid_identity =
  ti_namespace :: string
  ti_app_id :: string
  ti_registered_at_ns :: u64
  ti_flags :: u32

definition tid_flags_enabled :: u32 where
  "tid_flags_enabled = 1"

definition set_field :: "string \<Rightarrow> string \<Rightarrow> string" where
  "set_field s field =
     (let len = min (length s) 63
      in take len s @ [CHR 0x00] @ drop (len + 1) field)"

definition set_namespace :: "string \<Rightarrow> tid_identity \<Rightarrow> tid_identity" where
  "set_namespace s t = t\<lparr> ti_namespace := set_field s (ti_namespace t) \<rparr>"

definition set_app_id :: "string \<Rightarrow> tid_identity \<Rightarrow> tid_identity" where
  "set_app_id s t = t\<lparr> ti_app_id := set_field s (ti_app_id t) \<rparr>"

definition tid_identity_new :: "string \<Rightarrow> string \<Rightarrow> tid_identity" where
  "tid_identity_new namespace app_id =
     set_app_id app_id (set_namespace namespace \<lparr> ti_namespace = replicate 64 (CHR 0x00),
       ti_app_id = replicate 64 (CHR 0x00), ti_registered_at_ns = 0, ti_flags = tid_flags_enabled \<rparr>)"

definition field_str :: "string \<Rightarrow> string" where
  "field_str field =
     (let bytes = takeWhile (\<lambda>b. b \<noteq> CHR 0x00) field
      in if valid_utf8 bytes then bytes else ''<invalid>'')"

definition namespace_str :: "tid_identity \<Rightarrow> string" where
  "namespace_str t = field_str (ti_namespace t)"

definition app_id_str :: "tid_identity \<Rightarrow> string" where
  "app_id_str t = field_str (ti_app_id t)"

section \<open>The identity table\<close>

record caller_identity =
  ci_namespace :: string
  ci_app_id :: string
  ci_tid :: u32

record port_binding =
  pb_tid :: u32
  pb_created_at :: instant

record namespace_map =
  nm_inner :: "(u32, tid_identity) hmap list"
  nm_tid_to_identity :: "(u32, tid_identity) hmap"
  nm_recent :: "(u32, tid_identity \<times> instant) hmap"
  nm_port_to_tid :: "(u16, port_binding) hmap"
  nm_port_ttl :: nat

text \<open>\<open>from_ebpf\<close> with the kernel maps it could open; none of them in the fallback.\<close>

definition namespace_map_new :: "(u32, tid_identity) hmap list \<Rightarrow> namespace_map" where
  "namespace_map_new inner = \<lparr> nm_inner = inner, nm_tid_to_identity = [], nm_recent = [],
     nm_port_to_tid = [], nm_port_ttl = from_secs 300 \<rparr>"

definition new_fallback :: namespace_map where
  "new_fallback = namespace_map_new []"

text \<open>\<open>accepts i\<close> tells whether the kernel takes the insertion into its \<open>i\<close>-th map.\<close>

definition register_tid ::
  "(nat \<Rightarrow> bool) \<Rightarrow> u64 \<Rightarrow> u32 \<Rightarrow> tid_identity \<Rightarrow> namespace_map \<Rightarrow> (string, unit) result \<times> namespace_map" where
  "register_tid accepts now_ns tid identity m =
     (let identity = identity\<lparr> ti_flags := tid_flags_enabled, ti_registered_at_ns := now_ns \<rparr>
      in if \<not> list_all accepts [0..<length (nm_inner m)]
         then (Err (''failed to register TID '' @ show_nat (unat tid) @ '' in every eBPF map''), m\<lparr> nm_inner := map (hm_remove tid) (nm_inner m) \<rparr>)
         else (Ok (), m\<lparr> nm_inner := map (hm_insert tid identity) (nm_inner m),
           nm_recent := hm_remove tid (nm_recent m),
           nm_tid_to_identity := hm_insert tid identity (nm_tid_to_identity m) \<rparr>))"

definition deregister_tid :: "instant \<Rightarrow> u32 \<Rightarrow> namespace_map \<Rightarrow> namespace_map" where
  "deregister_tid now tid m =
     (let m = m\<lparr> nm_inner := map (hm_remove tid) (nm_inner m) \<rparr>;
          m = (case hm_get (nm_tid_to_identity m) tid of
                 None \<Rightarrow> m
               | Some identity \<Rightarrow> m\<lparr> nm_tid_to_identity := hm_remove tid (nm_tid_to_identity m),
                   nm_recent := hm_insert tid (identity, now) (nm_recent m) \<rparr>)
      in m\<lparr> nm_port_to_tid := hm_retain (\<lambda>_ b. pb_tid b \<noteq> tid) (nm_port_to_tid m) \<rparr>)"

definition bind_port :: "instant \<Rightarrow> u16 \<Rightarrow> u32 \<Rightarrow> namespace_map \<Rightarrow> namespace_map" where
  "bind_port now source_port tid m = m\<lparr> nm_port_to_tid :=
     hm_insert source_port \<lparr> pb_tid = tid, pb_created_at = now \<rparr> (nm_port_to_tid m) \<rparr>"

definition unbind_port :: "u16 \<Rightarrow> namespace_map \<Rightarrow> namespace_map" where
  "unbind_port source_port m = m\<lparr> nm_port_to_tid := hm_remove source_port (nm_port_to_tid m) \<rparr>"

definition resolve_identity :: "instant \<Rightarrow> u16 \<Rightarrow> namespace_map \<Rightarrow> caller_identity option \<times> namespace_map" where
  "resolve_identity now source_port m =
     (case hm_get (nm_port_to_tid m) source_port of
        None \<Rightarrow> (None, m)
      | Some b \<Rightarrow>
          if duration_since now (pb_created_at b) > nm_port_ttl m
          then (None, m\<lparr> nm_port_to_tid := hm_remove source_port (nm_port_to_tid m) \<rparr>)
          else (case hm_get (nm_tid_to_identity m) (pb_tid b) of
                  None \<Rightarrow> (None, m)
                | Some identity \<Rightarrow>
                    (Some \<lparr> ci_namespace = namespace_str identity, ci_app_id = app_id_str identity,
                       ci_tid = pb_tid b \<rparr>, m)))"

definition lookup_tid :: "u32 \<Rightarrow> namespace_map \<Rightarrow> tid_identity option" where
  "lookup_tid tid m = hm_get (nm_tid_to_identity m) tid"

text \<open>Each entry of the tombstones is compared with its own clock reading; one reading stands for all.\<close>

definition prune_recent :: "instant \<Rightarrow> namespace_map \<Rightarrow> namespace_map" where
  "prune_recent now m =
     m\<lparr> nm_recent := hm_retain (\<lambda>_ (_, removed_at). duration_since now removed_at \<le> from_secs 30) (nm_recent m) \<rparr>"

definition lookup_event_identity :: "instant \<Rightarrow> u32 \<Rightarrow> namespace_map \<Rightarrow> tid_identity option \<times> namespace_map" where
  "lookup_event_identity now tid m =
     (case lookup_tid tid m of
        Some identity \<Rightarrow> (Some identity, m)
      | None \<Rightarrow>
          (let m = prune_recent now m
           in (map_option fst (hm_get (nm_recent m) tid), m)))"

definition cleanup_expired_bindings :: "instant \<Rightarrow> namespace_map \<Rightarrow> nat \<times> namespace_map" where
  "cleanup_expired_bindings now m =
     (let before = length (nm_port_to_tid m);
          m = m\<lparr> nm_port_to_tid := hm_retain (\<lambda>_ b. duration_since now (pb_created_at b) \<le> nm_port_ttl m)
                (nm_port_to_tid m) \<rparr>
      in (before - length (nm_port_to_tid m), m))"

definition set_port_ttl :: "nat \<Rightarrow> namespace_map \<Rightarrow> namespace_map" where
  "set_port_ttl ttl m = m\<lparr> nm_port_ttl := ttl \<rparr>"

text \<open>\<open>alive\<close> is the answer of the operating system for a thread.\<close>

definition cleanup_stale_tids :: "(u32 \<Rightarrow> bool) \<Rightarrow> instant \<Rightarrow> namespace_map \<Rightarrow> nat \<times> namespace_map" where
  "cleanup_stale_tids alive now m =
     (let m = prune_recent now m;
          stale = filter (\<lambda>tid. \<not> alive tid) (map fst (nm_tid_to_identity m))
      in (length stale, fold (deregister_tid now) stale m))"

section \<open>Names\<close>

lemma takeWhile_stop: "c \<notin> set s \<Longrightarrow> takeWhile (\<lambda>b. b \<noteq> c) (s @ c # r) = s"
  by (induction s) auto

lemma field_round_trip:
  assumes "length s \<le> 63" and "CHR 0x00 \<notin> set s" and "valid_utf8 s"
  shows "field_str (set_field s field) = s"
  using assms by (simp add: field_str_def set_field_def Let_def takeWhile_stop)

lemma set_field_cut:
  assumes "CHR 0x00 \<notin> set s" and "63 \<le> length s" and "valid_utf8 (take 63 s)"
  shows "field_str (set_field s field) = take 63 s"
proof -
  have "CHR 0x00 \<notin> set (take 63 s)"
    using assms(1) by (meson in_set_takeD)
  then have "takeWhile (\<lambda>b. b \<noteq> CHR 0x00) (take 63 s @ CHR 0x00 # r) = take 63 s" for r
    by (rule takeWhile_stop)
  moreover have "min (length s) 63 = 63"
    using assms(2) by simp
  ultimately show ?thesis
    using assms(3) by (simp only: field_str_def set_field_def Let_def append_Cons append_Nil if_True)
qed

lemma identity_names:
  "namespace_str (tid_identity_new ns app) = field_str (set_field ns (replicate 64 (CHR 0x00)))"
  "app_id_str (tid_identity_new ns app) = field_str (set_field app (replicate 64 (CHR 0x00)))"
  by (simp_all add: namespace_str_def app_id_str_def tid_identity_new_def set_namespace_def set_app_id_def)

lemma names_of_stamped [simp]:
  "namespace_str (t\<lparr> ti_flags := f, ti_registered_at_ns := n \<rparr>) = namespace_str t"
  "app_id_str (t\<lparr> ti_flags := f, ti_registered_at_ns := n \<rparr>) = app_id_str t"
  by (simp_all add: namespace_str_def app_id_str_def)

section \<open>The table as a machine\<close>

datatype ns_call =
    NsRegister "nat \<Rightarrow> bool" u64 u32 tid_identity
  | NsDeregister instant u32
  | NsBind instant u16 u32
  | NsUnbind u16
  | NsResolve instant u16
  | NsLookupEvent instant u32
  | NsCleanupBindings instant
  | NsCleanupTids "u32 \<Rightarrow> bool" instant

fun ns_step :: "ns_call \<Rightarrow> namespace_map \<Rightarrow> namespace_map" where
  "ns_step (NsRegister acc n tid i) m = snd (register_tid acc n tid i m)"
| "ns_step (NsDeregister t tid) m = deregister_tid t tid m"
| "ns_step (NsBind t p tid) m = bind_port t p tid m"
| "ns_step (NsUnbind p) m = unbind_port p m"
| "ns_step (NsResolve t p) m = snd (resolve_identity t p m)"
| "ns_step (NsLookupEvent t tid) m = snd (lookup_event_identity t tid m)"
| "ns_step (NsCleanupBindings t) m = snd (cleanup_expired_bindings t m)"
| "ns_step (NsCleanupTids alive t) m = snd (cleanup_stale_tids alive t m)"

definition ns_wf :: "namespace_map \<Rightarrow> bool" where
  "ns_wf m \<longleftrightarrow> hm_wf (nm_port_to_tid m) \<and> hm_wf (nm_tid_to_identity m) \<and> hm_wf (nm_recent m)"

lemma ns_wf_deregister: "ns_wf m \<Longrightarrow> ns_wf (deregister_tid t tid m)"
  by (simp add: ns_wf_def deregister_tid_def Let_def split: option.splits)

lemma ns_wf_deregister_all: "ns_wf m \<Longrightarrow> ns_wf (fold (deregister_tid t) tids m)"
  by (induction tids arbitrary: m) (simp_all add: ns_wf_deregister)

lemma ns_wf_prune: "ns_wf m \<Longrightarrow> ns_wf (prune_recent t m)"
  by (simp add: ns_wf_def prune_recent_def)

lemma ns_wf_step: "ns_wf m \<Longrightarrow> ns_wf (ns_step e m)"
proof (cases e)
  case (NsCleanupTids alive t)
  then show "ns_wf m \<Longrightarrow> ns_wf (ns_step e m)"
    by (simp add: cleanup_stale_tids_def Let_def ns_wf_deregister_all ns_wf_prune)
next
  case (NsLookupEvent t tid)
  then show "ns_wf m \<Longrightarrow> ns_wf (ns_step e m)"
    by (simp add: lookup_event_identity_def Let_def ns_wf_prune split: option.splits)
next
  case (NsDeregister t tid)
  then show "ns_wf m \<Longrightarrow> ns_wf (ns_step e m)"
    by (simp add: ns_wf_deregister)
qed (simp_all add: ns_wf_def register_tid_def bind_port_def unbind_port_def resolve_identity_def
    cleanup_expired_bindings_def Let_def split: option.splits)

interpretation nsmap: call_machine ns_step ns_wf
  by unfold_locales (rule ns_wf_step)

text \<open>Binding and registration of a thread, as the calls after a point in time establish them.\<close>

fun binds :: "u32 \<Rightarrow> ns_call \<Rightarrow> bool" where
  "binds tid (NsBind t p tid') = (tid' = tid)"
| "binds tid _ = False"

definition unbound :: "u32 \<Rightarrow> namespace_map \<Rightarrow> bool" where
  "unbound tid m \<longleftrightarrow> (\<forall>p b. hm_get (nm_port_to_tid m) p = Some b \<longrightarrow> pb_tid b \<noteq> tid)"

lemma resolve_identity_bound:
  assumes "fst (resolve_identity now port m) = Some caller"
  shows "\<exists>b. hm_get (nm_port_to_tid m) port = Some b \<and> pb_tid b = ci_tid caller"
  using assms by (auto simp: resolve_identity_def split: option.splits if_splits)

lemma unbound_deregister: "ns_wf m \<Longrightarrow> unbound tid (deregister_tid t tid m)"
  by (auto simp: unbound_def deregister_tid_def Let_def ns_wf_def hm_simps split: option.splits if_splits)

lemma unbound_deregister_other: "ns_wf m \<Longrightarrow> unbound tid m \<Longrightarrow> unbound tid (deregister_tid t tid' m)"
  by (auto simp: unbound_def deregister_tid_def Let_def ns_wf_def hm_simps split: option.splits if_splits)

lemma unbound_deregister_all:
  "ns_wf m \<Longrightarrow> unbound tid m \<Longrightarrow> unbound tid (fold (deregister_tid t) tids m)"
  by (induction tids arbitrary: m) (simp_all add: unbound_deregister_other ns_wf_deregister)

lemma unbound_step:
  assumes "ns_wf m" "unbound tid m" "\<not> binds tid e"
  shows "unbound tid (ns_step e m)"
proof (cases e)
  case (NsCleanupTids alive t)
  moreover have "unbound tid (prune_recent t m)"
    using assms(2) by (simp add: unbound_def prune_recent_def)
  ultimately show ?thesis
    using assms(1) by (simp add: cleanup_stale_tids_def Let_def unbound_deregister_all ns_wf_prune)
next
  case (NsDeregister t tid')
  with assms show ?thesis by (simp add: unbound_deregister_other)
qed (use assms in \<open>auto simp: unbound_def register_tid_def bind_port_def unbind_port_def resolve_identity_def
    lookup_event_identity_def prune_recent_def cleanup_expired_bindings_def Let_def ns_wf_def hm_simps
    split: option.splits if_splits\<close>)

lemma unbound_run:
  assumes "ns_wf m" "unbound tid m" "list_all (\<lambda>e. \<not> binds tid e) es"
  shows "unbound tid (fold ns_step es m)"
  using assms by (induction es arbitrary: m) (simp_all add: unbound_step ns_wf_step)

section \<open>Properties\<close>

text \<open>
  (C38) A name of up to 63 bytes is read back unchanged from the identity record of a thread.
\<close>

theorem identity_names_round_trip:
  assumes "length ns \<le> 63" "CHR 0x00 \<notin> set ns" "valid_utf8 ns"
    and "length app \<le> 63" "CHR 0x00 \<notin> set app" "valid_utf8 app"
  shows "namespace_str (tid_identity_new ns app) = ns \<and> app_id_str (tid_identity_new ns app) = app"
  using assms by (simp add: identity_names field_round_trip)

text \<open>
  Longer names are cut: a thread of a namespace with more than 63 bytes is identified as a
  thread of the namespace that has the first 63 of them as its name.
\<close>

theorem long_namespace_impersonates:
  assumes "CHR 0x00 \<notin> set ns" and "valid_utf8 (take 63 ns)" and "63 < length ns"
    and "list_all accepts [0..<length (nm_inner m)]"
    and "duration_since t' t \<le> nm_port_ttl m"
  shows "\<exists>caller. fst (resolve_identity t' port (bind_port t port tid
      (snd (register_tid accepts n tid (tid_identity_new ns app) m)))) = Some caller \<and>
    ci_namespace caller = take 63 ns \<and> ci_namespace caller \<noteq> ns"
proof -
  have "take 63 ns \<noteq> ns"
    using assms(3) by (metis length_take less_irrefl min.absorb2 min.strict_order_iff not_less_iff_gr_or_eq)
  moreover have "namespace_str (tid_identity_new ns app) = take 63 ns"
    using assms(1-3) by (simp add: identity_names set_field_cut)
  ultimately show ?thesis
    using assms(4,5) by (simp add: resolve_identity_def bind_port_def register_tid_def Let_def)
qed

text \<open>
  A caller is only ever identified through a port bound to its thread at most the time to live
  ago, and through the identity under which that thread is registered now.
\<close>

theorem caller_identity_sound:
  assumes "fst (resolve_identity now port m) = Some caller"
  shows "\<exists>b identity. hm_get (nm_port_to_tid m) port = Some b \<and> pb_tid b = ci_tid caller \<and>
    duration_since now (pb_created_at b) \<le> nm_port_ttl m \<and>
    lookup_tid (ci_tid caller) m = Some identity \<and>
    ci_namespace caller = namespace_str identity \<and> ci_app_id caller = app_id_str identity"
  using assms by (auto simp: resolve_identity_def lookup_tid_def split: option.splits if_splits)

text \<open>
  (C23) Once a thread is deregistered, no port identifies it again until a port is bound to it anew,
  whatever else happens to the table in between.
\<close>

theorem deregistered_thread_unresolvable:
  assumes "ns_wf m" and "list_all (\<lambda>e. \<not> binds tid e) es"
    and "fst (resolve_identity now port (fold ns_step es (deregister_tid t tid m))) = Some caller"
  shows "ci_tid caller \<noteq> tid"
proof -
  have "unbound tid (fold ns_step es (deregister_tid t tid m))"
    using assms(1,2) by (intro unbound_run ns_wf_deregister unbound_deregister)
  with resolve_identity_bound [OF assms(3)] show ?thesis
    unfolding unbound_def by blast
qed

text \<open>
  A binding that is reported after its thread was deregistered outlives it: when the thread id
  is registered again for another application, the port of the old connection is attributed to the
  new application.
\<close>

theorem late_binding_misattributes:
  assumes "list_all accepts [0..<length (nm_inner m)]" and "duration_since t4 t2 \<le> nm_port_ttl m"
  shows "fst (resolve_identity t4 port (snd (register_tid accepts n tid new
      (bind_port t2 port tid (deregister_tid t1 tid m))))) =
    Some \<lparr> ci_namespace = namespace_str new, ci_app_id = app_id_str new, ci_tid = tid \<rparr>"
proof -
  have "length (nm_inner (bind_port t2 port tid (deregister_tid t1 tid m))) = length (nm_inner m)"
      "nm_port_ttl (bind_port t2 port tid (deregister_tid t1 tid m)) = nm_port_ttl m"
    by (simp_all add: bind_port_def deregister_tid_def Let_def split: option.splits)
  with assms show ?thesis
    by (simp add: resolve_identity_def register_tid_def Let_def) (simp add: bind_port_def)
qed

section \<open>A concrete instance\<close>

definition w_identity_map :: namespace_map where
  "w_identity_map = bind_port 0 40000 7 (snd (register_tid (\<lambda>_. True) 0 7
     (tid_identity_new ''shop'' ''shop/web:v1'') new_fallback))"

lemma w_caller:
  "fst (resolve_identity 5 40000 w_identity_map) =
     Some \<lparr> ci_namespace = ''shop'', ci_app_id = ''shop/web:v1'', ci_tid = 7 \<rparr>"
  by (simp add: w_identity_map_def bind_port_def register_tid_def new_fallback_def namespace_map_new_def
      resolve_identity_def hm_simps duration_since_def namespace_str_def app_id_str_def tid_identity_new_def
      set_app_id_def set_namespace_def field_round_trip byte_def from_secs_def nanos_per_sec_def)

theorem identity_names_round_trip_witness:
  "namespace_str (tid_identity_new ''shop'' ''shop/web:v1'') = ''shop'' \<and>
    app_id_str (tid_identity_new ''shop'' ''shop/web:v1'') = ''shop/web:v1''"
  by (rule identity_names_round_trip) (simp_all add: byte_def)

theorem caller_identity_sound_witness:
  "\<exists>b identity. hm_get (nm_port_to_tid w_identity_map) 40000 = Some b \<and> pb_tid b = 7 \<and>
    duration_since 5 (pb_created_at b) \<le> nm_port_ttl w_identity_map \<and>
    lookup_tid 7 w_identity_map = Some identity \<and> namespace_str identity = ''shop''"
  using caller_identity_sound [OF w_caller] by auto

theorem deregistered_thread_unresolvable_witness:
  "\<exists>m caller. fst (resolve_identity 9 40001 (fold ns_step [NsBind 8 40001 8] (deregister_tid 6 7 m))) = Some caller \<and>
    ci_tid caller \<noteq> 7"
proof -
  let ?m = "snd (register_tid (\<lambda>_. True) 0 8 (tid_identity_new ''shop'' ''shop/cart:v1'') w_identity_map)"
  have wf: "ns_wf ?m"
    by (simp add: ns_wf_def w_identity_map_def bind_port_def register_tid_def new_fallback_def namespace_map_new_def)
  have r: "\<exists>caller. fst (resolve_identity 9 40001 (fold ns_step [NsBind 8 40001 8] (deregister_tid 6 7 ?m))) = Some caller"
    by (simp add: w_identity_map_def bind_port_def register_tid_def new_fallback_def namespace_map_new_def
      resolve_identity_def hm_simps duration_since_def deregister_tid_def from_secs_def nanos_per_sec_def)
  then obtain caller where c: "fst (resolve_identity 9 40001 (fold ns_step [NsBind 8 40001 8] (deregister_tid 6 7 ?m))) = Some caller"
    by blast
  from deregistered_thread_unresolvable [OF wf _ this] have "ci_tid caller \<noteq> 7"
    by simp
  with c show ?thesis
    by blast
qed

end
