(* ===== verification/Internal_Gateway.thy ===== *)
theory Internal_Gateway
  imports Proxy_Service Namespace_Registry Namespace_Map
begin

text \<open>
  The gateway for calls between applications of one node (\<open>crates/internal_gateway/src/lib.rs\<close>):
  it identifies the caller by its source port, enforces the namespace policy, the rate limits, the
  authentication of the target and its circuit breaker, and forwards the request. The connection to
  the target and the exchange over it are arguments, as is the cold start of an instance.
\<close>

section \<open>State\<close>

record audit_event =
  ae_denied_type :: bool
  ae_actor :: string
  ae_app_id :: string
  ae_allowed :: bool
  ae_status_code :: u16

record 'key internal_gateway =
  ig_registry :: namespace_registry
  ig_rate_limiter :: rate_limiter
  ig_circuit_breaker :: cb_manager
  ig_gateway_config :: "'key gateway"
  ig_namespace_map :: "namespace_map option"
  ig_ebpf_active :: bool
  ig_bind_port :: u16
  ig_max_body_size_bytes :: u64
  ig_cold_start :: "(app_id \<Rightarrow> namespace_registry \<Rightarrow> socket_addr option \<times> namespace_registry) option"
  ig_route_rate_buckets :: "(string, bucket) hmap"
  ig_audit :: "audit_event list"

definition internal_gateway_new ::
  "namespace_registry \<Rightarrow> rate_limiter \<Rightarrow> cb_manager \<Rightarrow> 'key gateway \<Rightarrow> 'key internal_gateway" where
  "internal_gateway_new registry limiter breaker config = \<lparr> ig_registry = registry, ig_rate_limiter = limiter,
     ig_circuit_breaker = breaker, ig_gateway_config = config, ig_namespace_map = None, ig_ebpf_active = False,
     ig_bind_port = 9080, ig_max_body_size_bytes = 10 * 1024 * 1024, ig_cold_start = None,
     ig_route_rate_buckets = [], ig_audit = [] \<rparr>"

text \<open>The token bucket of a route has the code of the node-local limiter's.\<close>

definition local_route_bucket_new :: "u32 \<Rightarrow> u32 \<Rightarrow> instant \<Rightarrow> bucket" where
  "local_route_bucket_new rate_per_second burst_capacity now = \<lparr> tb_tokens = f64_of_u32 burst_capacity,
     tb_max_tokens = f64_of_u32 burst_capacity, tb_refill_rate = f64_of_u32 rate_per_second,
     tb_last_refill = now \<rparr>"

definition local_route_try_acquire :: "instant \<Rightarrow> bucket \<Rightarrow> bool \<times> bucket" where
  "local_route_try_acquire now b =
     (let elapsed = as_secs_f64 (duration_since now (tb_last_refill b));
          b = b\<lparr> tb_last_refill := now \<rparr>;
          b = b\<lparr> tb_tokens := min (rnd (tb_tokens b + rnd (elapsed * tb_refill_rate b)))
                (tb_max_tokens b) \<rparr>
      in if tb_tokens b \<ge> 1 then (True, b\<lparr> tb_tokens := rnd (tb_tokens b - 1) \<rparr>) else (False, b))"

definition f64_epsilon :: rat where
  "f64_epsilon = 1 / 2 ^ 52"

text \<open>The differences are of integers below \<open>2 ^ 32\<close>, so that they are exact.\<close>

definition check_route_rate_limit ::
  "instant \<Rightarrow> instant \<Rightarrow> instant \<Rightarrow> string \<Rightarrow> route_rate_limit \<Rightarrow> (string, bucket) hmap \<Rightarrow> bool \<times> (string, bucket) hmap" where
  "check_route_rate_limit n1 n2 t key rate_limit buckets =
     (let fresh = local_route_bucket_new (rrl_requests_per_second rate_limit) (rrl_burst_capacity rate_limit);
          b = hm_or_insert buckets key (fresh n1);
          b = (if \<bar>tb_refill_rate b - f64_of_u32 (rrl_requests_per_second rate_limit)\<bar> > f64_epsilon \<or>
                  \<bar>tb_max_tokens b - f64_of_u32 (rrl_burst_capacity rate_limit)\<bar> > f64_epsilon
               then fresh n2 else b);
          (granted, b) = local_route_try_acquire t b
      in (granted, hm_insert key b buckets))"

section \<open>Hosts and callers\<close>

definition strip_internal_identity_headers :: "http_headers \<Rightarrow> http_headers" where
  "strip_internal_identity_headers h =
     hdr_remove ''x-source-tid'' (hdr_remove ''x-source-app'' (hdr_remove ''x-namespace'' h))"

text \<open>\<open>trim_end_matches\<close> removes the pattern as often as it occurs at the end.\<close>

definition trim_end_matches :: "string \<Rightarrow> string \<Rightarrow> string" where
  "trim_end_matches p s = rev (trim_start_matches (rev p) (rev s))"

definition internal_hostname :: "string \<Rightarrow> string" where
  "internal_hostname host =
     (if starts_with host ''[''
      then (case split_once CHR '']'' host of Some (inner, _) \<Rightarrow> inner @ '']'' | None \<Rightarrow> host)
      else (case rsplit_once CHR '':'' host of Some (name, _) \<Rightarrow> name | None \<Rightarrow> host))"

definition parse_internal_host :: "string \<Rightarrow> (string \<times> string) option" where
  "parse_internal_host host =
     (let hostname = internal_hostname host
      in if \<not> ends_with hostname ''.internal'' then None
         else
           (let hostname = trim_end_matches ''.internal'' hostname;
                parts = str_split CHR ''.'' hostname
            in if length parts \<ge> 2
               then (let namespace = parts ! (length parts - 1)
                     in Some (take (length hostname - length namespace - 1) hostname, namespace))
               else if length parts = 1 then Some (parts ! 0, ''default'')
               else None))"

text \<open>
  The wait for the identity of a caller. Poll \<open>i\<close> sees the identity table as the event consumer has
  left it, with the readings of the clock for the time to live and for the deadline. \<open>None\<close> is a
  loop that does not end.
\<close>

record poll =
  po_map :: namespace_map
  po_ttl_now :: instant
  po_now :: instant

partial_function (option) poll_identity ::
  "instant \<Rightarrow> u16 \<Rightarrow> (nat \<Rightarrow> poll) \<Rightarrow> nat \<Rightarrow> caller_identity option option" where
  "poll_identity deadline port polls i =
     (case fst (resolve_identity (po_ttl_now (polls i)) port (po_map (polls i))) of
        Some identity \<Rightarrow> Some (Some identity)
      | None \<Rightarrow> if po_now (polls i) \<ge> deadline then Some None else poll_identity deadline port polls (Suc i))"

definition caller_identity_wait_timeout :: nat where
  "caller_identity_wait_timeout = 50000000"

definition resolve_caller_identity :: "instant \<Rightarrow> u16 \<Rightarrow> (nat \<Rightarrow> poll) \<Rightarrow> caller_identity option option" where
  "resolve_caller_identity now port polls = poll_identity (now + caller_identity_wait_timeout) port polls 0"

section \<open>Authentication of the target\<close>

definition endpoint_auth_policy :: "auth_policy \<Rightarrow> endpoint_auth \<Rightarrow> auth_policy option" where
  "endpoint_auth_policy route_policy endpoint_auth =
     (case endpoint_auth of
        EndpointInherit \<Rightarrow> Some route_policy
      | EndpointNone \<Rightarrow> Some AuthNone
      | EndpointAuthenticated \<Rightarrow> Some AuthAuthenticated
      | EndpointRoles allowed_roles client_id \<Rightarrow> Some (AuthRoles allowed_roles client_id)
      | EndpointApiKey \<Rightarrow> None)"

text \<open>The answer to a request is a status code, or the response of the target.\<close>

type_synonym ('key, 'a) ig_step = "(u16, 'a) result \<times> 'key internal_gateway"

fun ig_then :: "('key, 'a) ig_step \<Rightarrow> ('a \<Rightarrow> 'key internal_gateway \<Rightarrow> ('key, 'b) ig_step) \<Rightarrow> ('key, 'b) ig_step" where
  "ig_then (Inl e, g) f = (Inl e, g)"
| "ig_then (Inr x, g) f = f x g"

record internal_clock =
  ic_wait :: instant
  ic_app_new :: instant
  ic_app_take :: instant
  ic_ip_new :: instant
  ic_ip_take :: instant
  ic_jwks_age :: instant
  ic_jwks_fetch :: instant
  ic_route_new :: instant
  ic_route_reset :: instant
  ic_route_take :: instant
  ic_distributed :: instant
  ic_circuit_new :: instant
  ic_circuit_elapsed :: instant
  ic_circuit_change :: instant
  ic_done1 :: instant
  ic_done2 :: instant
  ic_done3 :: instant

definition authenticate_target ::
  "('uri, 'key, 'resp) proxy_env \<Rightarrow> internal_clock \<Rightarrow> http_headers \<Rightarrow> auth_policy \<Rightarrow> 'key internal_gateway
    \<Rightarrow> ('key, user_identity) ig_step" where
  "authenticate_target env clk headers pol g =
     (case authenticate_header_map_with_policy (pe_jwt env) (pe_oidc_http env) headers pol
             (ic_jwks_age clk) (ic_jwks_fetch clk) (ig_gateway_config g) of
        (Inr identity, gc) \<Rightarrow> (Ok identity, g\<lparr> ig_gateway_config := gc \<rparr>)
      | (Inl _, gc) \<Rightarrow> (Err 401, g\<lparr> ig_gateway_config := gc \<rparr>))"

definition authorize_target ::
  "('uri, 'key, 'resp) proxy_env \<Rightarrow> internal_clock \<Rightarrow> http_headers \<Rightarrow> string \<Rightarrow> app_id
    \<Rightarrow> auth_policy \<Rightarrow> endpoint_rule option \<Rightarrow> 'key internal_gateway \<Rightarrow> ('key, user_identity option) ig_step" where
  "authorize_target env clk headers path app route_policy rule g =
     (case rule of
        Some e \<Rightarrow>
          (case endpoint_auth_policy route_policy (er_auth e) of
             None \<Rightarrow>
               (case hdr_str headers ''x-api-key'' of
                  Some key \<Rightarrow>
                    if \<not> validate_api_key (pe_sha256 env) (ig_gateway_config g) (app_id_as_str app) key path
                    then (Err 401, g) else (Ok None, g)
                | None \<Rightarrow> (Err 401, g))
           | Some pol \<Rightarrow>
               if pol \<noteq> AuthNone
               then ig_then (authenticate_target env clk headers pol g) (\<lambda>identity g.
                      let roles_ok = authorize identity pol;
                          scopes_ok = authorize_scopes identity (er_required_scopes e)
                      in if \<not> roles_ok \<or> \<not> scopes_ok then (Err 403, g) else (Ok (Some identity), g))
               else (Ok None, g))
      | None \<Rightarrow>
          if route_policy \<noteq> AuthNone
          then ig_then (authenticate_target env clk headers route_policy g) (\<lambda>identity g.
                 if \<not> authorize identity route_policy then (Err 403, g) else (Ok (Some identity), g))
          else (Ok None, g))"

section \<open>Stages of the handler\<close>

record 'uri internal_request =
  ir_method :: string
  ir_uri :: 'uri
  ir_headers :: http_headers
  ir_peer :: socket_addr

text \<open>The outer option is the wait that does not end.\<close>

definition identify_caller ::
  "internal_clock \<Rightarrow> (nat \<Rightarrow> poll) \<Rightarrow> socket_addr \<Rightarrow> 'key internal_gateway
    \<Rightarrow> (u16, caller_identity) result option" where
  "identify_caller clk polls peer g =
     (if is_loopback (sa_ip peer)
      then (if \<not> ig_ebpf_active g then Some (Err 401)
            else (case ig_namespace_map g of
                    None \<Rightarrow> Some (Err 401)
                  | Some _ \<Rightarrow>
                      (case resolve_caller_identity (ic_wait clk) (sa_port peer) polls of
                         None \<Rightarrow> None
                       | Some (Some identity) \<Rightarrow> Some (Ok identity)
                       | Some None \<Rightarrow> Some (Err 401))))
      else Some (Err 403))"

definition namespace_stage :: "caller_identity \<Rightarrow> string \<Rightarrow> 'key internal_gateway \<Rightarrow> ('key, unit) ig_step" where
  "namespace_stage caller target_namespace g =
     (if ci_namespace caller \<noteq> target_namespace
      then (if \<not> is_cross_namespace_allowed (ig_gateway_config g) (ci_namespace caller) target_namespace
            then (Err 403, g) else (Ok (), g))
      else (Ok (), g))"

definition caller_rate_stage ::
  "internal_clock \<Rightarrow> caller_identity \<Rightarrow> ip_addr \<Rightarrow> 'key internal_gateway \<Rightarrow> ('key, unit) ig_step" where
  "caller_rate_stage clk caller src_ip g =
     (case check_request (ci_app_id caller) src_ip (ic_app_new clk) (ic_app_take clk)
             (ic_ip_new clk) (ic_ip_take clk) (ig_rate_limiter g) of
        (Inl _, l) \<Rightarrow> (Err 429, g\<lparr> ig_rate_limiter := l \<rparr>)
      | (Inr _, l) \<Rightarrow> (Ok (), g\<lparr> ig_rate_limiter := l \<rparr>))"

definition target_stage :: "string \<Rightarrow> string \<Rightarrow> app_id \<Rightarrow> 'key internal_gateway \<Rightarrow> ('key, registered_endpoint) ig_step" where
  "target_stage ns name app g =
     (case resolve_endpoint ns name (ig_registry g) of
        Some endpoint \<Rightarrow> (Ok endpoint, g)
      | None \<Rightarrow>
          (case ig_cold_start g of
             None \<Rightarrow> (Err 502, g)
           | Some cold_start \<Rightarrow>
               (case cold_start app (ig_registry g) of
                  (Some addr, r) \<Rightarrow>
                    (Ok (unwrap_or (resolve_endpoint ns name r) \<lparr> re_addr = addr, re_h2c = False \<rparr>),
                     g\<lparr> ig_registry := r \<rparr>)
                | (None, r) \<Rightarrow> (Err 502, g\<lparr> ig_registry := r \<rparr>))))"

definition route_limit_stage ::
  "internal_clock \<Rightarrow> string \<Rightarrow> app_id \<Rightarrow> gateway_route_config option \<Rightarrow> endpoint_rule option
    \<Rightarrow> 'key internal_gateway \<Rightarrow> ('key, unit) ig_step" where
  "route_limit_stage clk method app cfg rule g =
     (case (case Option.bind rule (\<lambda>e. map_option (\<lambda>l. (Some (er_path e), l)) (er_rate_limit e)) of
              Some x \<Rightarrow> Some x
            | None \<Rightarrow> Option.bind cfg (\<lambda>c. map_option (\<lambda>l. (None, l)) (grc_rate_limit c))) of
        None \<Rightarrow> (Ok (), g)
      | Some (endpoint_path, rl) \<Rightarrow>
          (let key = (case endpoint_path of
                 Some p \<Rightarrow> app_id_as_str app @ ''#'' @ method @ ''#'' @ p
               | None \<Rightarrow> app_id_as_str app @ ''#route'');
               (granted, buckets) = check_route_rate_limit (ic_route_new clk) (ic_route_reset clk) (ic_route_take clk)
                  key rl (ig_route_rate_buckets g);
               g = g\<lparr> ig_route_rate_buckets := buckets \<rparr>
           in if \<not> granted then (Err 429, g)
              else if rrl_distributed rl
              then (case hm_get (gw_distributed_limiters (ig_gateway_config g)) (app_id_as_str app) of
                      None \<Rightarrow> (Ok (), g)
                    | Some limiter \<Rightarrow>
                        (let (granted, b) = distributed_check_request (ic_distributed clk) (dl_local limiter);
                             g = g\<lparr> ig_gateway_config := ig_gateway_config g\<lparr> gw_distributed_limiters :=
                                   hm_insert (app_id_as_str app) (limiter\<lparr> dl_local := b \<rparr>)
                                     (gw_distributed_limiters (ig_gateway_config g)) \<rparr> \<rparr>
                         in if \<not> granted then (Err 429, g) else (Ok (), g)))
              else (Ok (), g)))"

definition internal_circuit_stage :: "internal_clock \<Rightarrow> app_id \<Rightarrow> 'key internal_gateway \<Rightarrow> ('key, unit) ig_step" where
  "internal_circuit_stage clk app g =
     (let (rejected, m) = is_circuit_open (ig_circuit_breaker g) (app_id_as_str app) (ic_circuit_new clk)
            (ic_circuit_elapsed clk) (ic_circuit_change clk);
          g = g\<lparr> ig_circuit_breaker := m \<rparr>
      in if rejected then (Err 503, g) else (Ok (), g))"

text \<open>Identity headers of the forwarded request; a text that is no header value is left out.\<close>

definition insert_if_valid :: "'uri http_lib \<Rightarrow> string \<Rightarrow> string \<Rightarrow> http_headers \<Rightarrow> http_headers" where
  "insert_if_valid lib name value h =
     (case http_value lib value of None \<Rightarrow> h | Some v \<Rightarrow> hdr_insert name v h)"

definition forwarded_headers :: "'uri http_lib \<Rightarrow> user_identity option \<Rightarrow> http_headers \<Rightarrow> http_headers" where
  "forwarded_headers lib user h =
     (case user of
        None \<Rightarrow> h
      | Some identity \<Rightarrow>
          (let h = insert_if_valid lib ''X-User-Id'' (ui_sub identity) h;
               h = (case ui_email identity of None \<Rightarrow> h | Some email \<Rightarrow> insert_if_valid lib ''X-User-Email'' email h)
           in if ui_roles identity \<noteq> []
              then insert_if_valid lib ''X-User-Roles'' (str_join '','' (ui_roles identity)) h else h))"

text \<open>
  \<open>connect\<close> opens the connection, \<open>send\<close> performs the exchange; both fail with a status.
\<close>

definition forward_request ::
  "'uri http_lib \<Rightarrow> (socket_addr \<Rightarrow> (u16, unit) result)
    \<Rightarrow> (registered_endpoint \<Rightarrow> 'uri request_header \<Rightarrow> (u16, response_header) result)
    \<Rightarrow> registered_endpoint \<Rightarrow> string \<Rightarrow> string \<Rightarrow> http_headers \<Rightarrow> string \<Rightarrow> (u16, response_header) result" where
  "forward_request lib connect send endpoint method path_and_query headers target_app_name =
     try_then (connect (re_addr endpoint)) (\<lambda>_.
       case uri_parse lib path_and_query of
         None \<Rightarrow> Err 400
       | Some uri \<Rightarrow>
           (let h = headers(''x-source-app'' := [], ''host'' := []);
                real_host = target_app_name @ '':'' @ show_nat (unat (sa_port (re_addr endpoint)))
            in case http_value lib real_host of
                 None \<Rightarrow> Err 500
               | Some v \<Rightarrow> send endpoint \<lparr> rh_method = method, rh_uri = uri, rh_headers = h(''host'' := [v]) \<rparr>))"

section \<open>The handler\<close>

definition after_forward ::
  "internal_clock \<Rightarrow> caller_identity \<Rightarrow> string \<Rightarrow> string \<Rightarrow> app_id \<Rightarrow> (u16, response_header) result
    \<Rightarrow> 'key internal_gateway \<Rightarrow> ('key, response_header) ig_step" where
  "after_forward clk caller ns name app result g =
     (let g = (case result of
            Inr _ \<Rightarrow> g\<lparr> ig_rate_limiter := rl_record_success (ci_app_id caller) (ic_done1 clk) (ic_done2 clk)
                         (ic_done3 clk) (ig_rate_limiter g),
                       ig_circuit_breaker := cb_record_success (ig_circuit_breaker g) (app_id_as_str app)
                         (ic_done1 clk) (ic_done3 clk) \<rparr>
          | Inl _ \<Rightarrow> g\<lparr> ig_circuit_breaker := cb_record_failure (ig_circuit_breaker g) (app_id_as_str app)
                         (ic_done1 clk) (ic_done2 clk) (ic_done3 clk) \<rparr>);
          event = \<lparr> ae_denied_type = (\<not> is_ok result \<and> ci_namespace caller \<noteq> ns),
                    ae_actor = ci_app_id caller, ae_app_id = ns @ ''/'' @ name,
                    ae_allowed = is_ok result,
                    ae_status_code = (case result of Inr r \<Rightarrow> rs_status r | Inl _ \<Rightarrow> 0) \<rparr>
      in (result, g\<lparr> ig_audit := event # ig_audit g \<rparr>))"

text \<open>
  Everything after the caller is known. The outer option is the panic of \<open>AppId::new_namespaced\<close>;
  \<open>path_and_query\<close> is that of the request URI.
\<close>

definition handle_identified ::
  "('uri, 'key, 'resp) proxy_env \<Rightarrow> internal_clock \<Rightarrow> (socket_addr \<Rightarrow> (u16, unit) result)
    \<Rightarrow> (registered_endpoint \<Rightarrow> 'uri request_header \<Rightarrow> (u16, response_header) result)
    \<Rightarrow> string \<Rightarrow> 'uri internal_request \<Rightarrow> caller_identity \<Rightarrow> 'key internal_gateway
    \<Rightarrow> ('key, response_header) ig_step option" where
  "handle_identified env clk connect send path_and_query req caller g =
     (let headers = strip_internal_identity_headers (ir_headers req);
          path = uri_path (pe_http env) (ir_uri req)
      in case parse_internal_host (unwrap_or (hdr_str headers ''host'') '''') of
           None \<Rightarrow> Some (Err 400, g)
         | Some (name, ns) \<Rightarrow>
             (case ig_then (namespace_stage caller ns g) (\<lambda>_ g. caller_rate_stage clk caller (sa_ip (ir_peer req)) g) of
                (Inl e, g) \<Rightarrow> Some (Err e, g)
              | (Inr _, g) \<Rightarrow>
                  (case app_id_new_namespaced ns name ''v1'' of
                     None \<Rightarrow> None
                   | Some app \<Rightarrow>
                       Some (ig_then (target_stage ns name app g) (\<lambda>endpoint g.
                         let cfg = get_route_config (ig_gateway_config g) app;
                             route_policy = (case cfg of None \<Rightarrow> AuthNone | Some c \<Rightarrow> grc_auth c);
                             rule = Option.bind cfg (\<lambda>c. find (rule_matches path (ir_method req)) (grc_endpoints c))
                         in ig_then (authorize_target env clk headers path app route_policy rule g) (\<lambda>user g.
                            ig_then (route_limit_stage clk (ir_method req) app cfg rule g) (\<lambda>_ g.
                            ig_then (internal_circuit_stage clk app g) (\<lambda>_ g.
                            after_forward clk caller ns name app
                              (forward_request (pe_http env) connect send endpoint (ir_method req) path_and_query
                                 (forwarded_headers (pe_http env) user headers) name) g))))))))"

definition proxy_handler ::
  "('uri, 'key, 'resp) proxy_env \<Rightarrow> internal_clock \<Rightarrow> (nat \<Rightarrow> poll) \<Rightarrow> (socket_addr \<Rightarrow> (u16, unit) result)
    \<Rightarrow> (registered_endpoint \<Rightarrow> 'uri request_header \<Rightarrow> (u16, response_header) result)
    \<Rightarrow> string \<Rightarrow> 'uri internal_request \<Rightarrow> 'key internal_gateway
    \<Rightarrow> ('key, response_header) ig_step option" where
  "proxy_handler env clk polls connect send path_and_query req g =
     (if body_too_large (ig_max_body_size_bytes g) (ir_headers req) then Some (Err 413, g)
      else (case identify_caller clk polls (ir_peer req) g of
              None \<Rightarrow> None
            | Some (Inl e) \<Rightarrow> Some (Err e, g)
            | Some (Inr caller) \<Rightarrow> handle_identified env clk connect send path_and_query req caller g))"

section \<open>The wait for an identity\<close>

lemma poll_identity_unfold:
  "poll_identity deadline port polls i =
     (case fst (resolve_identity (po_ttl_now (polls i)) port (po_map (polls i))) of
        Some identity \<Rightarrow> Some (Some identity)
      | None \<Rightarrow> if po_now (polls i) \<ge> deadline then Some None else poll_identity deadline port polls (Suc i))"
  by (subst poll_identity.simps) simp

definition seen_at :: "u16 \<Rightarrow> (nat \<Rightarrow> poll) \<Rightarrow> nat \<Rightarrow> caller_identity option" where
  "seen_at port polls i = fst (resolve_identity (po_ttl_now (polls i)) port (po_map (polls i)))"

lemma poll_identity_returns:
  assumes "deadline \<le> po_now (polls (i + k))"
  shows "\<exists>r j. poll_identity deadline port polls i = Some r \<and> i \<le> j \<and> j \<le> i + k \<and> seen_at port polls j = r"
  using assms
proof (induction k arbitrary: i)
  case 0
  then show ?case
    by (subst poll_identity_unfold) (auto simp: seen_at_def split: option.splits)
next
  case (Suc k)
  have *: "\<exists>r j. poll_identity deadline port polls (Suc i) = Some r \<and> Suc i \<le> j \<and> j \<le> Suc i + k \<and>
      seen_at port polls j = r"
    using Suc.prems by (intro Suc.IH) simp
  show ?case
  proof (cases "seen_at port polls i")
    case (Some identity)
    then show ?thesis
      by (subst poll_identity_unfold) (auto simp: seen_at_def)
  next
    case None
    show ?thesis
    proof (cases "deadline \<le> po_now (polls i)")
      case True
      with None show ?thesis
        by (subst poll_identity_unfold) (auto simp: seen_at_def)
    next
      case False
      with None have "poll_identity deadline port polls i = poll_identity deadline port polls (Suc i)"
        by (subst poll_identity_unfold) (simp add: seen_at_def)
      moreover from * obtain r j where "poll_identity deadline port polls (Suc i) = Some r" "Suc i \<le> j"
          "j \<le> Suc i + k" "seen_at port polls j = r"
        by blast
      ultimately show ?thesis
        by (intro exI [of _ r] exI [of _ j]) simp
    qed
  qed
qed

section \<open>Host names\<close>

lemma trim_end_matches_once:
  assumes "\<not> suffix p s" and "p \<noteq> []"
  shows "trim_end_matches p (s @ p) = s"
proof -
  have "trim_start_matches (rev p) (rev p @ rev s) = trim_start_matches (rev p) (rev s)"
    using assms(2) by (simp add: trim_start_matches_append)
  also have "\<dots> = rev s"
    using assms(1) by (simp add: trim_start_matches_no_prefix suffix_to_prefix)
  finally show ?thesis
    by (simp add: trim_end_matches_def)
qed

lemma trim_end_matches_fixpoint: "p \<noteq> [] \<Longrightarrow> \<not> suffix p (trim_end_matches p s)"
  using trim_start_matches_fixpoint [of "rev p" "rev s"] by (simp add: trim_end_matches_def suffix_to_prefix)

lemma str_split_last:
  assumes "c \<notin> set ns"
  shows "\<exists>ws. str_split c (name @ c # ns) = ws @ [ns] \<and> ws \<noteq> []"
proof (induction name)
  case Nil
  then show ?case
    using assms by (intro exI [of _ "[[]]"]) (simp add: str_split_no_sep)
next
  case (Cons x name)
  then obtain ws where ws: "str_split c (name @ c # ns) = ws @ [ns]" "ws \<noteq> []" by blast
  then obtain w ws' where "ws = w # ws'" by (cases ws) auto
  with ws show ?case
    by (cases "x = c") (auto intro: exI [of _ "[] # ws"])
qed

lemma str_split_decompose:
  "\<exists>name. s = name @ c # last (str_split c s)" if "length (str_split c s) \<ge> 2"
  using that
proof (induction s)
  case (Cons x s)
  show ?case
  proof (cases "x = c")
    case True
    show ?thesis
    proof (cases "length (str_split c s) \<ge> 2")
      case True
      with Cons.IH \<open>x = c\<close> obtain name where "s = name @ c # last (str_split c s)" by blast
      with \<open>x = c\<close> show ?thesis
        by (intro exI [of _ "x # name"]) simp
    next
      case False
      then obtain w where w: "str_split c s = [w]"
        by (cases "str_split c s") (auto simp: Suc_le_eq)
      moreover have "s = w"
        using w by (induction s arbitrary: w) (auto split: if_splits list.splits)
      ultimately show ?thesis
        using True by (intro exI [of _ "[]"]) simp
    qed
  next
    case False
    then obtain w ws where w: "str_split c s = w # ws"
      by (meson neq_Nil_conv str_split_nonempty)
    with Cons.prems False have "length (str_split c s) \<ge> 2"
      by simp
    with Cons.IH obtain name where "s = name @ c # last (str_split c s)" by blast
    with False w Cons.prems show ?thesis
      by (intro exI [of _ "x # name"]) auto
  qed
qed simp

lemma no_internal_suffix:
  assumes "CHR ''.'' \<notin> set ns" and "ns \<noteq> ''internal''"
  shows "\<not> suffix ''.internal'' (name @ ''.'' @ ns)"
proof
  assume "suffix ''.internal'' (name @ ''.'' @ ns)"
  then obtain z where "name @ ''.'' @ ns = z @ ''.internal''"
    by (auto simp: suffix_def)
  then have "last (str_split CHR ''.'' (name @ CHR ''.'' # ns)) =
      last (str_split CHR ''.'' (z @ CHR ''.'' # ''internal''))"
    by simp
  with str_split_last [OF assms(1), of name] str_split_last [of "CHR ''.''" "''internal''" z] assms(2) show False
    by auto
qed

lemma internal_hostname_port:
  assumes "\<not> prefix ''['' name" and "CHR '':'' \<notin> set port"
  shows "internal_hostname (name @ '':'' @ port) = name"
proof -
  have "\<not> prefix ''['' (name @ '':'' @ port)"
    using assms(1) by (cases name) auto
  then show ?thesis
    using rsplit_once_append [OF assms(2), of name] by (simp add: internal_hostname_def starts_with_def)
qed

lemma parse_internal_hostname:
  assumes "internal_hostname host = name @ ''.'' @ ns @ ''.internal''"
    and "CHR ''.'' \<notin> set ns" and "ns \<noteq> ''internal''"
  shows "parse_internal_host host = Some (name, ns)"
proof -
  have trim: "trim_end_matches ''.internal'' (name @ ''.'' @ ns @ ''.internal'') = name @ ''.'' @ ns"
    using trim_end_matches_once [OF no_internal_suffix [OF assms(2,3), of name]] by simp
  from str_split_last [OF assms(2), of name] obtain ws where
    ws: "str_split CHR ''.'' (name @ CHR ''.'' # ns) = ws @ [ns]" "ws \<noteq> []"
    by blast
  have "suffix ''.internal'' (name @ ''.'' @ ns @ ''.internal'')"
    by (simp add: suffix_def)
  with assms(1) trim ws show ?thesis
    by (cases ws) (auto simp: parse_internal_host_def ends_with_def Let_def nth_append)
qed

section \<open>Stage facts\<close>

lemma ig_then_Ok: "ig_then x f = (Inr y, g') \<longleftrightarrow> (\<exists>z g. x = (Inr z, g) \<and> f z g = (Inr y, g'))"
  by (cases x; cases "fst x") auto

lemma namespace_stage_Ok:
  "namespace_stage caller ns g = (Inr u, g') \<longleftrightarrow>
    g' = g \<and> (ci_namespace caller = ns \<or> (ci_namespace caller, ns) \<in> ns_rules (ig_gateway_config g))"
  by (auto simp: namespace_stage_def allowed_iff_rule)

lemma caller_rate_stage_config:
  "ig_gateway_config (snd (caller_rate_stage clk caller ip g)) = ig_gateway_config g"
  "ig_registry (snd (caller_rate_stage clk caller ip g)) = ig_registry g"
  "ig_circuit_breaker (snd (caller_rate_stage clk caller ip g)) = ig_circuit_breaker g"
  "ig_audit (snd (caller_rate_stage clk caller ip g)) = ig_audit g"
  by (auto simp: caller_rate_stage_def split: prod.splits sum.splits)

lemma target_stage_config:
  "ig_gateway_config (snd (target_stage ns name app g)) = ig_gateway_config g"
  by (auto simp: target_stage_def split: option.splits prod.splits)

text \<open>What the target's configuration asks of a caller, for the policy that applies to the request.\<close>

definition target_policy :: "auth_policy \<Rightarrow> endpoint_rule option \<Rightarrow> auth_policy" where
  "target_policy route_policy rule =
     (case rule of None \<Rightarrow> route_policy
      | Some e \<Rightarrow> unwrap_or (endpoint_auth_policy route_policy (er_auth e)) AuthNone)"

definition target_identity ::
  "('uri, 'key, 'resp) proxy_env \<Rightarrow> internal_clock \<Rightarrow> http_headers \<Rightarrow> auth_policy \<Rightarrow> 'key gateway
    \<Rightarrow> user_identity option" where
  "target_identity env clk headers pol g =
     (case fst (authenticate_header_map_with_policy (pe_jwt env) (pe_oidc_http env) headers pol
        (ic_jwks_age clk) (ic_jwks_fetch clk) g) of Inl _ \<Rightarrow> None | Inr identity \<Rightarrow> Some identity)"

lemma authenticate_target_Ok:
  "authenticate_target env clk headers pol g = (Inr identity, g') \<Longrightarrow>
    target_identity env clk headers pol (ig_gateway_config g) = Some identity"
  by (auto simp: authenticate_target_def target_identity_def split: prod.splits sum.splits)

lemma authorize_target_Ok:
  assumes "authorize_target env clk headers path app route_policy rule g = (Inr user, g')"
  shows "(\<forall>e. rule = Some e \<and> er_auth e = EndpointApiKey \<longrightarrow>
      (\<exists>key. hdr_str headers ''x-api-key'' = Some key \<and>
        validate_api_key (pe_sha256 env) (ig_gateway_config g) (app_id_as_str app) key path)) \<and>
    (target_policy route_policy rule \<noteq> AuthNone \<longrightarrow>
      (\<exists>identity. user = Some identity \<and>
        target_identity env clk headers (target_policy route_policy rule) (ig_gateway_config g) = Some identity \<and>
        authorize identity (target_policy route_policy rule) \<and>
        (\<forall>e. rule = Some e \<longrightarrow> authorize_scopes identity (er_required_scopes e))))"
proof (cases rule)
  case None
  with assms show ?thesis
    by (auto simp: authorize_target_def target_policy_def ig_then_Ok dest!: authenticate_target_Ok
        split: if_splits)
next
  case (Some e)
  show ?thesis
  proof (cases "endpoint_auth_policy route_policy (er_auth e)")
    case None
    then have "er_auth e = EndpointApiKey"
      by (cases "er_auth e") (simp_all add: endpoint_auth_policy_def)
    with assms Some None show ?thesis
      by (auto simp: authorize_target_def target_policy_def split: option.splits if_splits)
  next
    case pol: (Some pol)
    then have "er_auth e \<noteq> EndpointApiKey"
      by (auto simp: endpoint_auth_policy_def)
    with assms Some pol show ?thesis
      by (auto simp: authorize_target_def target_policy_def Let_def ig_then_Ok dest!: authenticate_target_Ok
          split: if_splits)
  qed
qed

lemma identify_caller_Ok:
  assumes "identify_caller clk polls peer g = Some (Inr caller)"
  shows "is_loopback (sa_ip peer) \<and> ig_ebpf_active g \<and> ig_namespace_map g \<noteq> None \<and>
    resolve_caller_identity (ic_wait clk) (sa_port peer) polls = Some (Some caller)"
  using assms by (auto simp: identify_caller_def split: if_splits option.splits)

lemma handle_identified_Ok:
  assumes "handle_identified env clk connect send pq req caller g = Some (Inr resp, g')"
  shows "\<exists>name ns app g1 user g2. parse_internal_host
      (unwrap_or (hdr_str (strip_internal_identity_headers (ir_headers req)) ''host'') '''') = Some (name, ns) \<and>
    (ci_namespace caller = ns \<or> (ci_namespace caller, ns) \<in> ns_rules (ig_gateway_config g)) \<and>
    app_id_new_namespaced ns name ''v1'' = Some app \<and> ig_gateway_config g1 = ig_gateway_config g \<and>
    authorize_target env clk (strip_internal_identity_headers (ir_headers req))
      (uri_path (pe_http env) (ir_uri req)) app
      (case get_route_config (ig_gateway_config g) app of None \<Rightarrow> AuthNone | Some c \<Rightarrow> grc_auth c)
      (Option.bind (get_route_config (ig_gateway_config g) app)
        (\<lambda>c. find (rule_matches (uri_path (pe_http env) (ir_uri req)) (ir_method req)) (grc_endpoints c))) g1 =
      (Inr user, g2)"
proof -
  let ?h = "strip_internal_identity_headers (ir_headers req)"
  from assms obtain name ns where host: "parse_internal_host (unwrap_or (hdr_str ?h ''host'') '''') = Some (name, ns)"
    by (auto simp: handle_identified_def Let_def split: option.splits)
  from assms host obtain u g0 where st: "ig_then (namespace_stage caller ns g)
      (\<lambda>_ g. caller_rate_stage clk caller (sa_ip (ir_peer req)) g) = (Inr u, g0)"
    by (auto simp: handle_identified_def Let_def split: prod.splits sum.splits)
  then have ns: "ci_namespace caller = ns \<or> (ci_namespace caller, ns) \<in> ns_rules (ig_gateway_config g)"
      and g0: "caller_rate_stage clk caller (sa_ip (ir_peer req)) g = (Inr u, g0)"
    by (auto simp: ig_then_Ok namespace_stage_Ok)
  have cfg0: "ig_gateway_config g0 = ig_gateway_config g"
    using caller_rate_stage_config(1) [of clk caller "sa_ip (ir_peer req)" g] g0 by simp
  from assms host st obtain app where app: "app_id_new_namespaced ns name ''v1'' = Some app"
    by (auto simp: handle_identified_def Let_def split: option.splits)
  from assms host st app obtain endpoint g1 where t: "target_stage ns name app g0 = (Inr endpoint, g1)"
    by (auto simp: handle_identified_def Let_def ig_then_Ok)
  have cfg1: "ig_gateway_config g1 = ig_gateway_config g"
    using target_stage_config [of ns name app g0] t cfg0 by simp
  from assms host st app t cfg1 have "\<exists>user g2. authorize_target env clk ?h (uri_path (pe_http env) (ir_uri req)) app
      (case get_route_config (ig_gateway_config g) app of None \<Rightarrow> AuthNone | Some c \<Rightarrow> grc_auth c)
      (Option.bind (get_route_config (ig_gateway_config g) app)
        (\<lambda>c. find (rule_matches (uri_path (pe_http env) (ir_uri req)) (ir_method req)) (grc_endpoints c))) g1 =
      (Inr user, g2)"
    by (auto simp: handle_identified_def Let_def ig_then_Ok)
  with host ns app cfg1 show ?thesis by blast
qed

section \<open>Properties\<close>

text \<open>
  (C3) A call between applications is answered by its target only if it came over the loopback
  interface from a port whose thread the monitor identified within the wait, the namespace of that
  thread is the target's or has an allow rule for it, and the caller meets what the configuration of
  the target, in its version v1, asks of this path and method: a valid key of the target where the
  matching rule asks for one, and where the policy in force is not open an identity that the policy admits and
  that has the scopes of the matching rule.
\<close>

theorem mesh_call_admitted:
  assumes "proxy_handler env clk polls connect send pq req g = Some (Inr resp, g')"
  shows "is_loopback (sa_ip (ir_peer req)) \<and> ig_ebpf_active g \<and>
    \<not> body_too_large (ig_max_body_size_bytes g) (ir_headers req) \<and>
    (\<exists>caller name ns app. resolve_caller_identity (ic_wait clk) (sa_port (ir_peer req)) polls = Some (Some caller) \<and>
      parse_internal_host (unwrap_or (hdr_str (strip_internal_identity_headers (ir_headers req)) ''host'') '''')
        = Some (name, ns) \<and>
      (ci_namespace caller = ns \<or> (ci_namespace caller, ns) \<in> ns_rules (ig_gateway_config g)) \<and>
      app_id_new_namespaced ns name ''v1'' = Some app \<and>
      (\<forall>cfg rule. get_route_config (ig_gateway_config g) app = Some cfg \<and>
        rule = find (rule_matches (uri_path (pe_http env) (ir_uri req)) (ir_method req)) (grc_endpoints cfg) \<longrightarrow>
        (\<forall>e. rule = Some e \<and> er_auth e = EndpointApiKey \<longrightarrow>
          (\<exists>key. hdr_str (strip_internal_identity_headers (ir_headers req)) ''x-api-key'' = Some key \<and>
            validate_api_key (pe_sha256 env) (ig_gateway_config g) (app_id_as_str app) key (uri_path (pe_http env) (ir_uri req)))) \<and>
        (target_policy (grc_auth cfg) rule \<noteq> AuthNone \<longrightarrow>
          (\<exists>identity. target_identity env clk (strip_internal_identity_headers (ir_headers req))
              (target_policy (grc_auth cfg) rule) (ig_gateway_config g) = Some identity \<and>
            authorize identity (target_policy (grc_auth cfg) rule) \<and>
            (\<forall>e. rule = Some e \<longrightarrow> authorize_scopes identity (er_required_scopes e))))))"
proof -
  from assms have small: "\<not> body_too_large (ig_max_body_size_bytes g) (ir_headers req)"
    by (auto simp: proxy_handler_def)
  with assms obtain caller where c: "identify_caller clk polls (ir_peer req) g = Some (Inr caller)"
      and h: "handle_identified env clk connect send pq req caller g = Some (Inr resp, g')"
    by (auto simp: proxy_handler_def split: option.splits sum.splits)
  from handle_identified_Ok [OF h] obtain name ns app g1 user g2 where
    p: "parse_internal_host (unwrap_or (hdr_str (strip_internal_identity_headers (ir_headers req)) ''host'') '''')
        = Some (name, ns)"
      "ci_namespace caller = ns \<or> (ci_namespace caller, ns) \<in> ns_rules (ig_gateway_config g)"
      "app_id_new_namespaced ns name ''v1'' = Some app" "ig_gateway_config g1 = ig_gateway_config g"
    and a: "authorize_target env clk (strip_internal_identity_headers (ir_headers req))
      (uri_path (pe_http env) (ir_uri req)) app
      (case get_route_config (ig_gateway_config g) app of None \<Rightarrow> AuthNone | Some c \<Rightarrow> grc_auth c)
      (Option.bind (get_route_config (ig_gateway_config g) app)
        (\<lambda>c. find (rule_matches (uri_path (pe_http env) (ir_uri req)) (ir_method req)) (grc_endpoints c))) g1 =
      (Inr user, g2)"
    by (elim exE conjE)
  have "(\<forall>e. rule = Some e \<and> er_auth e = EndpointApiKey \<longrightarrow>
        (\<exists>key. hdr_str (strip_internal_identity_headers (ir_headers req)) ''x-api-key'' = Some key \<and>
          validate_api_key (pe_sha256 env) (ig_gateway_config g) (app_id_as_str app) key (uri_path (pe_http env) (ir_uri req)))) \<and>
      (target_policy (grc_auth cfg) rule \<noteq> AuthNone \<longrightarrow>
        (\<exists>identity. target_identity env clk (strip_internal_identity_headers (ir_headers req))
            (target_policy (grc_auth cfg) rule) (ig_gateway_config g) = Some identity \<and>
          authorize identity (target_policy (grc_auth cfg) rule) \<and>
          (\<forall>e. rule = Some e \<longrightarrow> authorize_scopes identity (er_required_scopes e))))"
    if "get_route_config (ig_gateway_config g) app = Some cfg"
      "rule = find (rule_matches (uri_path (pe_http env) (ir_uri req)) (ir_method req)) (grc_endpoints cfg)" for cfg rule
    using authorize_target_Ok [OF a] that p(4) by auto
  with identify_caller_Ok [OF c] small p(1-3) show ?thesis
    by blast
qed

text \<open>
  (C36) The wait for the identity of a caller ends: when every poll comes at least a millisecond
  after the one before, it returns what one of the first 51 polls saw.
\<close>

theorem caller_wait_ends:
  assumes "\<And>i. now + i * 1000000 \<le> po_now (polls i)"
  shows "\<exists>r i. resolve_caller_identity now port polls = Some r \<and> i \<le> 50 \<and>
    fst (resolve_identity (po_ttl_now (polls i)) port (po_map (polls i))) = r"
proof -
  have "now + caller_identity_wait_timeout \<le> po_now (polls (0 + 50))"
    using assms [of 50] by (simp add: caller_identity_wait_timeout_def)
  from poll_identity_returns [where i = 0 and k = 50 and port = port and polls = polls, OF this] show ?thesis
    by (auto simp: resolve_caller_identity_def seen_at_def)
qed

text \<open>
  (C37) The address of an application in a namespace, with or without a port, is read back as that
  application and that namespace; the name may contain dots, and the namespace is not "internal".
\<close>

theorem internal_host_round_trip:
  assumes "CHR ''.'' \<notin> set ns" "ns \<noteq> ''internal''" "CHR '':'' \<notin> set ns" "CHR '':'' \<notin> set name"
    and "\<not> prefix ''['' (name @ ''.'')" and "list_all is_ascii_digit port"
  shows "parse_internal_host (name @ ''.'' @ ns @ ''.internal'') = Some (name, ns) \<and>
    parse_internal_host (name @ ''.'' @ ns @ ''.internal:'' @ port) = Some (name, ns)"
proof -
  have br: "\<not> prefix ''['' (name @ ''.'' @ ns @ ''.internal'')"
    using assms(5) by (cases name) auto
  then have "internal_hostname (name @ ''.'' @ ns @ ''.internal'') = name @ ''.'' @ ns @ ''.internal''"
    using assms(3,4) by (simp add: internal_hostname_def starts_with_def rsplit_once_None)
  moreover have "internal_hostname (name @ ''.'' @ ns @ ''.internal:'' @ port) = name @ ''.'' @ ns @ ''.internal''"
    using internal_hostname_port [OF br digits_no_colon [OF assms(6)]] by simp
  ultimately show ?thesis
    using parse_internal_hostname [OF _ assms(1,2)] by blast
qed

text \<open>
  No host name addresses an application of a namespace called "internal": the suffix is
  removed as often as it occurs, so that such a name is read as one of another namespace.
\<close>

theorem namespace_internal_unreachable:
  assumes "parse_internal_host host = Some (name, ns)"
  shows "ns \<noteq> ''internal''"
proof
  assume ns: "ns = ''internal''"
  let ?h = "trim_end_matches ''.internal'' (internal_hostname host)"
  from assms ns have two: "length (str_split CHR ''.'' ?h) \<ge> 2" and "ns = last (str_split CHR ''.'' ?h)"
    by (auto simp: parse_internal_host_def Let_def last_conv_nth split: if_splits)
  with str_split_decompose [OF two] ns obtain z where "?h = z @ ''.internal''"
    by auto
  with trim_end_matches_fixpoint [of "''.internal''" "internal_hostname host"] show False
    by (simp add: suffix_def)
qed

text \<open>
  The authentication a target asks for is looked up under its version v1 whatever version is
  deployed: a call to an application that runs in another version, and whose configuration names
  that version, is forwarded without any credentials.
\<close>

theorem other_version_called_without_credentials:
  assumes "get_route_config (ig_gateway_config g) (AppId (ns @ ''/'' @ name @ '':v1'')) = None"
    and "app_id_new_namespaced ns name ''v1'' = Some (AppId (ns @ ''/'' @ name @ '':v1''))"
    and "ig_registry g = register_endpoint (AppId (ns @ ''/'' @ name @ '':'' @ version)) endpoint r"
    and "instances_of r ns name = []"
    and "CHR ''/'' \<notin> set ns" "CHR '':'' \<notin> set name" "CHR ''/'' \<notin> set name" "CHR ''/'' \<notin> set version"
    and "parse_internal_host (unwrap_or (hdr_str (strip_internal_identity_headers (ir_headers req)) ''host'') '''')
      = Some (name, ns)"
    and "ci_namespace caller = ns"
    and "caller_rate_stage clk caller (sa_ip (ir_peer req)) g = (Inr (), g1)"
    and "\<not> fst (is_circuit_open (ig_circuit_breaker g) (ns @ ''/'' @ name @ '':v1'') (ic_circuit_new clk)
      (ic_circuit_elapsed clk) (ic_circuit_change clk))"
  shows "\<exists>g2. handle_identified env clk connect send pq req caller g =
    Some (after_forward clk caller ns name (AppId (ns @ ''/'' @ name @ '':v1''))
      (forward_request (pe_http env) connect send endpoint (ir_method req) pq
        (strip_internal_identity_headers (ir_headers req)) name) g2)"
proof -
  let ?dep = "AppId (ns @ ''/'' @ name @ '':'' @ version)"
  let ?v1 = "AppId (ns @ ''/'' @ name @ '':v1'')"
  have split: "str_split CHR ''/'' (ns @ ''/'' @ name @ '':'' @ version) = [ns, name @ '':'' @ version]"
    using assms(5,7,8) by (simp add: str_split_append_sep str_split_no_sep)
  have "app_id_namespace ?dep = ns" "app_id_bare_name ?dep = name @ '':'' @ version"
    using split by (simp_all add: app_id_namespace_def app_id_bare_name_def contains_char_def)
  moreover from this have "app_id_bare_app_name ?dep = name"
    using assms(6) by (simp add: app_id_bare_app_name_def str_split_append_sep)
  ultimately have inst: "resolve_endpoint ns name (ig_registry g) = Some endpoint"
    using assms(3,4) by (simp add: resolve_endpoint_first instances_of_register)
  have g1: "ig_gateway_config g1 = ig_gateway_config g" "ig_registry g1 = ig_registry g"
      "ig_circuit_breaker g1 = ig_circuit_breaker g"
    using caller_rate_stage_config [of clk caller "sa_ip (ir_peer req)" g] assms(11) by simp_all
  have ns: "namespace_stage caller ns g = (Inr (), g)"
    using assms(10) by (simp add: namespace_stage_def)
  have target: "target_stage ns name ?v1 g1 = (Inr endpoint, g1)"
    using inst g1 by (simp add: target_stage_def)
  have auth: "authorize_target env clk h path ?v1 AuthNone None g1 = (Inr None, g1)" for h path
    by (simp add: authorize_target_def)
  have limit: "route_limit_stage clk m ?v1 None None g1 = (Inr (), g1)" for m
    by (simp add: route_limit_stage_def)
  obtain g2 where circuit: "internal_circuit_stage clk ?v1 g1 = (Inr (), g2)"
    using assms(12) g1 by (auto simp: internal_circuit_stage_def case_prod_unfold Let_def)
  show ?thesis
    using assms(1,2,9,11) g1 ns target auth limit circuit
    by (auto simp: handle_identified_def Let_def forwarded_headers_def)
qed

text \<open>
  A call that the namespace policy denies leaves no trace in the audit log, while a permitted
  call across namespaces whose target fails is recorded as denied.
\<close>

theorem audit_misses_denials:
  assumes "\<not> body_too_large (ig_max_body_size_bytes g) (ir_headers req)"
    and "identify_caller clk polls (ir_peer req) g = Some (Inr caller)"
    and "parse_internal_host (unwrap_or (hdr_str (strip_internal_identity_headers (ir_headers req)) ''host'') '''')
      = Some (name, ns)"
    and "ci_namespace caller \<noteq> ns"
  shows "(\<not> is_cross_namespace_allowed (ig_gateway_config g) (ci_namespace caller) ns \<longrightarrow>
      proxy_handler env clk polls connect send pq req g = Some (Inl 403, g)) \<and>
    ae_denied_type (hd (ig_audit (snd (after_forward clk caller ns name app (Inl status) g))))"
  using assms by (simp add: proxy_handler_def handle_identified_def namespace_stage_def after_forward_def Let_def)

section \<open>A concrete instance\<close>

definition w_mesh :: "string internal_gateway" where
  "w_mesh = (internal_gateway_new (register_endpoint (AppId ''shop/cart:v1'')
       \<lparr> re_addr = \<lparr> sa_ip = V4 0x7F000001, sa_port = 8001 \<rparr>, re_h2c = False \<rparr> namespace_registry_default)
     (rate_limiter_new rate_limit_config_default) cb_new (gateway_new None))
     \<lparr> ig_ebpf_active := True, ig_namespace_map := Some w_identity_map \<rparr>"

definition w_internal_clock :: internal_clock where
  "w_internal_clock = \<lparr> ic_wait = 0, ic_app_new = 0, ic_app_take = 0, ic_ip_new = 0, ic_ip_take = 0,
     ic_jwks_age = 0, ic_jwks_fetch = 0, ic_route_new = 0, ic_route_reset = 0, ic_route_take = 0,
     ic_distributed = 0, ic_circuit_new = 0, ic_circuit_elapsed = 0, ic_circuit_change = 0, ic_done1 = 0,
     ic_done2 = 0, ic_done3 = 0 \<rparr>"

definition w_polls :: "nat \<Rightarrow> poll" where
  "w_polls i = \<lparr> po_map = w_identity_map, po_ttl_now = 5, po_now = i * 1000000 \<rparr>"

definition w_call :: "string internal_request" where
  "w_call = \<lparr> ir_method = ''GET'', ir_uri = ''/items'',
     ir_headers = (\<lambda>_. [])(''host'' := [Visible ''cart.shop.internal'']),
     ir_peer = \<lparr> sa_ip = V4 0x7F000001, sa_port = 40000 \<rparr> \<rparr>"

definition w_env :: "(string, string, unit) proxy_env" where
  "w_env = \<lparr> pe_http = w_http, pe_jwt = w_jwt, pe_oidc_http = w_oidc_http, pe_sha256 = (\<lambda>s. s) \<rparr>"

lemma w_wait: "resolve_caller_identity 0 40000 w_polls =
    Some (Some \<lparr> ci_namespace = ''shop'', ci_app_id = ''shop/web:v1'', ci_tid = 7 \<rparr>)"
  unfolding resolve_caller_identity_def
  by (subst poll_identity_unfold) (simp add: w_polls_def w_caller)

lemma w_host: "parse_internal_host ''cart.shop.internal'' = Some (''cart'', ''shop'')"
  by code_simp

lemma w_call_host: "hdr_str (strip_internal_identity_headers (ir_headers w_call)) ''host'' = Some ''cart.shop.internal''"
  by (simp add: strip_internal_identity_headers_def w_call_def hdr_str_def hdr_get_def hdr_remove_def
      to_ascii_lowercase_def char_of_def bit_0)

lemma w_app: "app_id_new_namespaced ''shop'' ''cart'' ''v1'' = Some (AppId ''shop/cart:v1'')"
  by code_simp

lemma w_mesh_answers:
  "\<exists>g'. proxy_handler w_env w_internal_clock w_polls (\<lambda>_. Ok ())
      (\<lambda>_ _. Ok \<lparr> rs_status = 200, rs_headers = \<lambda>_. [] \<rparr>) ''/items'' w_call w_mesh =
    Some (Inr \<lparr> rs_status = 200, rs_headers = \<lambda>_. [] \<rparr>, g')"
proof -
  have "0 < rlc_burst_capacity rate_limit_config_default" "0 < rlc_per_ip_limit rate_limit_config_default"
    by (simp_all add: rate_limit_config_default_def)
  then obtain l where l: "check_request ''shop/web:v1'' (V4 0x7F000001) 0 0 0 0
      (rate_limiter_new rate_limit_config_default) = (Inr (), l)"
    using fresh_limiter_grants by (metis prod.collapse)
  have id: "identify_caller w_internal_clock w_polls (ir_peer w_call) w_mesh =
      Some (Inr \<lparr> ci_namespace = ''shop'', ci_app_id = ''shop/web:v1'', ci_tid = 7 \<rparr>)"
    using w_wait by (simp add: identify_caller_def w_call_def w_mesh_def w_internal_clock_def is_loopback_def)
  have rate: "caller_rate_stage w_internal_clock \<lparr> ci_namespace = ''shop'', ci_app_id = ''shop/web:v1'', ci_tid = 7 \<rparr>
      (sa_ip (ir_peer w_call)) w_mesh = (Inr (), w_mesh\<lparr> ig_rate_limiter := l \<rparr>)"
    using l by (simp add: caller_rate_stage_def w_call_def w_mesh_def internal_gateway_new_def w_internal_clock_def)
  have cfg: "get_route_config (ig_gateway_config w_mesh) app = None" for app
    by (simp add: w_mesh_def internal_gateway_new_def gateway_new_def get_route_config_def)
  have closed: "\<not> fst (is_circuit_open (ig_circuit_breaker w_mesh) key 0 0 0)" for key
    by (simp add: w_mesh_def internal_gateway_new_def is_circuit_open_def cb_new_def cb_entry_def circuit_check_def
        circuit_new_def hm_or_insert_def case_prod_unfold)
  have body: "\<not> body_too_large (ig_max_body_size_bytes w_mesh) (ir_headers w_call)"
    by (simp add: body_too_large_def content_length_def w_call_def hdr_str_def hdr_get_def to_ascii_lowercase_def
        char_of_def bit_0)
  have reg: "ig_registry w_mesh = register_endpoint (AppId (''shop'' @ ''/'' @ ''cart'' @ '':'' @ ''v1''))
      \<lparr> re_addr = \<lparr> sa_ip = V4 0x7F000001, sa_port = 8001 \<rparr>, re_h2c = False \<rparr> namespace_registry_default"
    by (simp add: w_mesh_def internal_gateway_new_def)
  have "forward_request (pe_http w_env) (\<lambda>_. Ok ()) (\<lambda>_ _. Ok \<lparr> rs_status = 200, rs_headers = \<lambda>_. [] \<rparr>)
      \<lparr> re_addr = \<lparr> sa_ip = V4 0x7F000001, sa_port = 8001 \<rparr>, re_h2c = False \<rparr> m ''/items'' h ''cart'' =
      Ok \<lparr> rs_status = 200, rs_headers = \<lambda>_. [] \<rparr>" for m h
    by (simp add: forward_request_def w_env_def w_http_def show_nat.simps visible_char_def)
  moreover have "\<exists>g2. handle_identified w_env w_internal_clock (\<lambda>_. Ok ()) (\<lambda>_ _. Ok \<lparr> rs_status = 200, rs_headers = \<lambda>_. [] \<rparr>)
      ''/items'' w_call \<lparr> ci_namespace = ''shop'', ci_app_id = ''shop/web:v1'', ci_tid = 7 \<rparr> w_mesh =
    Some (after_forward w_internal_clock \<lparr> ci_namespace = ''shop'', ci_app_id = ''shop/web:v1'', ci_tid = 7 \<rparr> ''shop'' ''cart''
      (AppId (''shop'' @ ''/'' @ ''cart'' @ '':v1''))
      (forward_request (pe_http w_env) (\<lambda>_. Ok ()) (\<lambda>_ _. Ok \<lparr> rs_status = 200, rs_headers = \<lambda>_. [] \<rparr>)
      \<lparr> re_addr = \<lparr> sa_ip = V4 0x7F000001, sa_port = 8001 \<rparr>, re_h2c = False \<rparr> (ir_method w_call) ''/items''
        (strip_internal_identity_headers (ir_headers w_call)) ''cart'') g2)"
    by (rule other_version_called_without_credentials [OF cfg _ reg _ _ _ _ _ _ _ rate])
      (use closed in \<open>simp_all add: w_app w_call_host w_host unwrap_or_def instances_of_def
          namespace_registry_default_def w_internal_clock_def\<close>)
  ultimately show ?thesis
    using body id by (auto simp: proxy_handler_def after_forward_def Let_def)
qed

theorem mesh_call_admitted_witness:
  "ig_ebpf_active w_mesh \<and> (\<exists>caller name ns. resolve_caller_identity 0 40000 w_polls = Some (Some caller) \<and>
    parse_internal_host ''cart.shop.internal'' = Some (name, ns) \<and> ci_namespace caller = ns)"
proof -
  obtain g' where g: "proxy_handler w_env w_internal_clock w_polls (\<lambda>_. Ok ())
      (\<lambda>_ _. Ok \<lparr> rs_status = 200, rs_headers = \<lambda>_. [] \<rparr>) ''/items'' w_call w_mesh =
    Some (Inr \<lparr> rs_status = 200, rs_headers = \<lambda>_. [] \<rparr>, g')"
    using w_mesh_answers by blast
  have "ns_rules (ig_gateway_config w_mesh) = {}"
    by (simp add: w_mesh_def internal_gateway_new_def ns_rules_new)
  with mesh_call_admitted [OF g] show ?thesis
    by (auto simp: w_call_host unwrap_or_def) (auto simp: w_internal_clock_def w_call_def)
qed

theorem caller_wait_ends_witness:
  "\<exists>r i. resolve_caller_identity 0 40000 w_polls = Some r \<and> i \<le> 50 \<and>
    fst (resolve_identity (po_ttl_now (w_polls i)) 40000 (po_map (w_polls i))) = r"
  by (rule caller_wait_ends) (simp add: w_polls_def)

theorem internal_host_round_trip_witness:
  "parse_internal_host (''cart'' @ ''.'' @ ''shop'' @ ''.internal'') = Some (''cart'', ''shop'') \<and>
    parse_internal_host (''cart'' @ ''.'' @ ''shop'' @ ''.internal:'' @ ''9080'') = Some (''cart'', ''shop'')"
  by (rule internal_host_round_trip) (simp_all add: is_ascii_digit_def)

end
