(* ===== verification/Table_Store.thy ===== *)
theory Table_Store
  imports Route_Store
begin

text \<open>
  The transactions that the tables of the store share: raw values and JSON values by a text key
  (\<open>crates/storage/src/artifact.rs\<close>, \<open>management_state.rs\<close>, \<open>gc.rs\<close>), and what they do to the
  key-value view of a table. Byte values are texts, like all values of the database parameter.
\<close>

section \<open>Raw values\<close>

definition raw_put :: "'t redb \<Rightarrow> string \<Rightarrow> string \<Rightarrow> 't \<Rightarrow> (storage_error, 't) result" where
  "raw_put db key value t =
     try_then (storage_source (rd_begin_write db t)) (\<lambda>tx.
     try_then (storage_source (rd_open_table db tx)) (\<lambda>table.
     try_then (storage_source (rd_insert db key value table)) (\<lambda>tx'.
     storage_source (rd_commit db tx'))))"

definition raw_get :: "'t redb \<Rightarrow> string \<Rightarrow> 't \<Rightarrow> (storage_error, string option) result" where
  "raw_get db key t =
     try_then (storage_source (rd_begin_read db t)) (\<lambda>tx.
     try_then (storage_source (rd_open_table db tx)) (\<lambda>table.
     storage_source (rd_get db key table)))"

definition raw_remove :: "'t redb \<Rightarrow> string \<Rightarrow> 't \<Rightarrow> (storage_error, 't) result" where
  "raw_remove db key t =
     try_then (storage_source (rd_begin_write db t)) (\<lambda>tx.
     try_then (storage_source (rd_open_table db tx)) (\<lambda>table.
     try_then (storage_source (rd_remove db key table)) (\<lambda>tx'.
     storage_source (rd_commit db tx'))))"

definition raw_entries :: "'t redb \<Rightarrow> 't \<Rightarrow> (storage_error, (string \<times> string) list) result" where
  "raw_entries db t =
     try_then (storage_source (rd_begin_read db t)) (\<lambda>tx.
     try_then (storage_source (rd_open_table db tx)) (\<lambda>table.
     storage_source (rd_iter db table)))"

definition raw_readable :: "'t redb \<Rightarrow> 't \<Rightarrow> (storage_error, (string \<times> string) list) result" where
  "raw_readable db t =
     try_then (storage_source (rd_begin_read db t)) (\<lambda>tx.
     try_then (storage_source (rd_open_table db tx)) (\<lambda>table.
     storage_source (rd_readable db table)))"

section \<open>JSON values\<close>

text \<open>\<open>PlatformError::storage_with_msg\<close> replaces the message of its source.\<close>

fun storage_with_msg :: "string \<Rightarrow> (string, 'a) result \<Rightarrow> (storage_error, 'a) result" where
  "storage_with_msg msg (Inl e) = Inl (Storage msg)"
| "storage_with_msg msg (Inr x) = Inr x"

text \<open>The messages name the table and what it holds.\<close>

definition table_save ::
  "'t redb \<Rightarrow> 'a serde \<Rightarrow> string \<Rightarrow> string \<Rightarrow> string \<Rightarrow> 'a \<Rightarrow> 't \<Rightarrow> (storage_error, 't) result" where
  "table_save db js tbl noun key x t =
     try_then (storage_with_msg (''failed to serialize '' @ noun) (sd_to_string js x)) (\<lambda>json.
     try_then (storage_with_msg ''failed to begin write transaction'' (rd_begin_write db t)) (\<lambda>tx.
     try_then (storage_with_msg (''failed to open '' @ tbl @ '' table'') (rd_open_table db tx)) (\<lambda>table.
     try_then (storage_with_msg (''failed to write '' @ noun) (rd_insert db key json table)) (\<lambda>tx'.
     storage_with_msg (''failed to commit '' @ noun) (rd_commit db tx')))))"

definition table_load ::
  "'t redb \<Rightarrow> 'a serde \<Rightarrow> string \<Rightarrow> string \<Rightarrow> string \<Rightarrow> 't \<Rightarrow> (storage_error, 'a option) result" where
  "table_load db js tbl noun key t =
     try_then (storage_with_msg ''failed to begin read transaction'' (rd_begin_read db t)) (\<lambda>tx.
     try_then (storage_with_msg (''failed to open '' @ tbl @ '' table'') (rd_open_table db tx)) (\<lambda>table.
     try_then (storage_with_msg (''failed to read '' @ noun) (rd_get db key table)) (\<lambda>found.
       case found of
         Some v \<Rightarrow> try_then (storage_with_msg (''failed to deserialize '' @ noun) (sd_from_str js v)) (\<lambda>x. Ok (Some x))
       | None \<Rightarrow> Ok None)))"

definition table_delete :: "'t redb \<Rightarrow> string \<Rightarrow> string \<Rightarrow> string \<Rightarrow> 't \<Rightarrow> (storage_error, 't) result" where
  "table_delete db tbl noun key t =
     try_then (storage_with_msg ''failed to begin write transaction'' (rd_begin_write db t)) (\<lambda>tx.
     try_then (storage_with_msg (''failed to open '' @ tbl @ '' table'') (rd_open_table db tx)) (\<lambda>table.
     try_then (storage_with_msg (''failed to delete '' @ noun) (rd_remove db key table)) (\<lambda>tx'.
     storage_with_msg (''failed to commit '' @ noun @ '' deletion'') (rd_commit db tx'))))"

fun parse_table ::
  "'a serde \<Rightarrow> string \<Rightarrow> (string \<times> string) list \<Rightarrow> (storage_error, (string \<times> 'a) list) result" where
  "parse_table js noun [] = Ok []"
| "parse_table js noun ((k, v) # kvs) =
     try_then (storage_with_msg (''failed to deserialize '' @ noun) (sd_from_str js v)) (\<lambda>x.
     try_then (parse_table js noun kvs) (\<lambda>xs. Ok ((k, x) # xs)))"

definition table_list ::
  "'t redb \<Rightarrow> 'a serde \<Rightarrow> string \<Rightarrow> string \<Rightarrow> 't \<Rightarrow> (storage_error, (string \<times> 'a) list) result" where
  "table_list db js tbl noun t =
     try_then (storage_with_msg ''failed to begin read transaction'' (rd_begin_read db t)) (\<lambda>tx.
     try_then (storage_with_msg (''failed to open '' @ tbl @ '' table'') (rd_open_table db tx)) (\<lambda>table.
     try_then (storage_with_msg (''failed to iterate '' @ noun @ ''s'') (rd_iter db table)) (parse_table js noun)))"

section \<open>Transactions in sequence\<close>

text \<open>
  An operation of several transactions stops at the first error; what it has committed by then stays,
  so its result comes with the store as it is left. One transaction that fails leaves it unchanged.
\<close>

definition on_store :: "('s \<Rightarrow> ('e, 's) result) \<Rightarrow> 's \<Rightarrow> ('e, unit) result \<times> 's" where
  "on_store f s = (case f s of Inl e \<Rightarrow> (Inl e, s) | Inr s' \<Rightarrow> (Ok (), s'))"

definition store_then ::
  "('s \<Rightarrow> ('e, 'a) result \<times> 's) \<Rightarrow> ('a \<Rightarrow> 's \<Rightarrow> ('e, 'b) result \<times> 's) \<Rightarrow> 's \<Rightarrow> ('e, 'b) result \<times> 's" where
  "store_then m f s = (case m s of (Inl e, s') \<Rightarrow> (Inl e, s') | (Inr x, s') \<Rightarrow> f x s')"

fun for_each :: "('k \<Rightarrow> 's \<Rightarrow> ('e, unit) result \<times> 's) \<Rightarrow> 'k list \<Rightarrow> 's \<Rightarrow> ('e, unit) result \<times> 's" where
  "for_each f [] s = (Ok (), s)"
| "for_each f (k # ks) s = store_then (f k) (\<lambda>_. for_each f ks) s"

lemma on_store_Err [simp]: "f s = Inl e \<Longrightarrow> on_store f s = (Inl e, s)"
  and on_store_Ok [simp]: "f s = Inr s' \<Longrightarrow> on_store f s = (Ok (), s')"
  and store_then_Err [simp]: "m s = (Inl e, s') \<Longrightarrow> store_then m g s = (Inl e, s')"
  and store_then_Ok [simp]: "m s = (Inr x, s') \<Longrightarrow> store_then m g s = g x s'"
  by (simp_all add: on_store_def store_then_def)

lemma on_store_keeps:
  assumes "on_store f s = (r, s')" and "P s" and "\<And>s'. f s = Inr s' \<Longrightarrow> P s'"
  shows "P s'"
  using assms by (cases "f s") auto

lemma store_then_keeps:
  assumes "store_then m f s = (r, s')" and "\<And>r s'. m s = (r, s') \<Longrightarrow> P s'"
    and "\<And>x s1. P s1 \<Longrightarrow> f x s1 = (r, s') \<Longrightarrow> P s'"
  shows "P s'"
proof (cases "m s")
  case (Pair x s1)
  with assms show ?thesis by (cases x) auto
qed

lemma store_then_OkE:
  assumes "store_then m f s = (Inr y, s')"
  obtains x s1 where "m s = (Inr x, s1)" and "f x s1 = (Inr y, s')"
proof (cases "m s")
  case (Pair x s1)
  with assms that show ?thesis by (cases x) auto
qed

lemma on_store_OkE:
  assumes "on_store f s = (Inr u, s')"
  shows "f s = Inr s'"
  using assms by (cases "f s") auto

text \<open>What every step of a loop keeps, the loop keeps, also when it fails half way.\<close>

lemma for_each_keeps:
  assumes "\<And>k s r s'. k \<in> set ks \<Longrightarrow> P s \<Longrightarrow> f k s = (r, s') \<Longrightarrow> P s'"
    and "P s" and "for_each f ks s = (r, s')"
  shows "P s'"
  using assms
proof (induction ks arbitrary: s)
  case (Cons k ks)
  obtain r1 s1 where k: "f k s = (r1, s1)" by fastforce
  have step: "P s'" if "k' \<in> set (k # ks)" "P s" "f k' s = (r, s')" for k' s r s'
    using Cons.prems(1) that by blast
  show ?case
  proof (cases r1)
    case (Inl e)
    with k Cons.prems(2,3) step [of k s] show ?thesis by (auto simp: store_then_def)
  next
    case (Inr u)
    with k Cons.prems(3) have "for_each f ks s1 = (r, s')" by (simp add: store_then_def)
    moreover have "P s1" using step [OF _ Cons.prems(2) k] by simp
    ultimately show ?thesis using Cons.IH step by (meson list.set_intros(2))
  qed
qed simp

text \<open>A step that keeps a property of the state, whatever its result.\<close>

definition keeps :: "('s \<Rightarrow> bool) \<Rightarrow> ('s \<Rightarrow> ('e, 'a) result \<times> 's) \<Rightarrow> bool" where
  "keeps P m \<longleftrightarrow> (\<forall>s. P s \<longrightarrow> P (snd (m s)))"

lemma keepsD: "keeps P m \<Longrightarrow> P s \<Longrightarrow> m s = (r, s') \<Longrightarrow> P s'"
  unfolding keeps_def by (metis snd_conv)

lemma keeps_then [intro]:
  assumes "keeps P m" and "\<And>x. keeps P (f x)"
  shows "keeps P (store_then m f)"
proof -
  have "P (snd (store_then m f s))" if "P s" for s
  proof (cases "m s")
    case (Pair r s1)
    then have "P s1" by (rule keepsD [OF assms(1) that])
    with Pair assms(2) show ?thesis
      unfolding keeps_def by (cases r) simp_all
  qed
  then show ?thesis by (simp add: keeps_def)
qed

lemma keeps_for_each [intro]:
  assumes "\<And>k. keeps P (f k)"
  shows "keeps P (for_each f ks)"
proof (induction ks)
  case (Cons k ks)
  then have "keeps P (store_then (f k) (\<lambda>_. for_each f ks))" using assms by blast
  then show ?case by (simp add: keeps_def)
qed (simp add: keeps_def)

lemma keeps_pure [simp]: "keeps P (\<lambda>s. (r, s))" "keeps P (\<lambda>s. (g s, s))"
  by (simp_all add: keeps_def)

section \<open>Tables as maps\<close>

lemma storage_with_msg_Ok_iff [simp]: "storage_with_msg msg x = Inr y \<longleftrightarrow> x = Inr y"
  by (cases x) auto

text \<open>On a database without failures no access fails.\<close>

lemma raw_reads_total:
  assumes "redb_total db"
  shows "\<exists>v. raw_get db k t = Inr v" and "\<exists>kvs. raw_entries db t = Inr kvs"
  using assms unfolding redb_total_def raw_get_def raw_entries_def
  by (metis storage_source.simps(2) try_then.simps(2))+

lemma raw_put_total: "redb_total db \<Longrightarrow> \<exists>t'. raw_put db k v t = Inr t'"
  unfolding redb_total_def raw_put_def by (metis storage_source.simps(2) try_then.simps(2))

lemma raw_put_view:
  assumes "redb_contract db view" and "raw_put db key v t = Inr t'"
  shows "view t' = (view t)(key \<mapsto> v)"
proof -
  obtain tx table tx' where steps: "rd_begin_write db t = Inr tx" "rd_open_table db tx = Inr table"
      "rd_insert db key v table = Inr tx'" "rd_commit db tx' = Inr t'"
    using assms(2) by (auto simp: raw_put_def try_then_Ok_iff)
  then have "view tx = view t" "view table = view tx" "view tx' = (view table)(key \<mapsto> v)" "view t' = view tx'"
    using assms(1) unfolding redb_contract_def by metis+
  then show ?thesis by simp
qed

lemma raw_remove_view:
  assumes "redb_contract db view" and "raw_remove db key t = Inr t'"
  shows "view t' = (view t)(key := None)"
proof -
  obtain tx table tx' where steps: "rd_begin_write db t = Inr tx" "rd_open_table db tx = Inr table"
      "rd_remove db key table = Inr tx'" "rd_commit db tx' = Inr t'"
    using assms(2) by (auto simp: raw_remove_def try_then_Ok_iff)
  then have "view tx = view t" "view table = view tx" "view tx' = (view table)(key := None)" "view t' = view tx'"
    using assms(1) unfolding redb_contract_def by metis+
  then show ?thesis by simp
qed

lemma raw_get_view:
  assumes "redb_contract db view" and "raw_get db key t = Inr r"
  shows "view t key = r"
proof -
  obtain tx table where steps: "rd_begin_read db t = Inr tx" "rd_open_table db tx = Inr table" "rd_get db key table = Inr r"
    using assms(2) by (auto simp: raw_get_def try_then_Ok_iff)
  then have "view tx = view t" "view table = view tx" "r = view table key"
    using assms(1) unfolding redb_contract_def by metis+
  then show ?thesis by simp
qed

lemma raw_entries_view:
  assumes "redb_contract db view" and "raw_entries db t = Inr kvs"
  shows "map_of kvs = view t" and "distinct (map fst kvs)"
proof -
  obtain tx table where steps: "rd_begin_read db t = Inr tx" "rd_open_table db tx = Inr table" "rd_iter db table = Inr kvs"
    using assms(2) by (auto simp: raw_entries_def try_then_Ok_iff)
  then have "view table = view t"
    using assms(1) unfolding redb_contract_def by metis
  with redb_iter [OF assms(1) steps(3)] show "map_of kvs = view t" "distinct (map fst kvs)" by simp_all
qed

lemma raw_readable_view:
  assumes "redb_contract db view" and "raw_readable db t = Inr kvs"
  shows "map_of kvs \<subseteq>\<^sub>m view t" and "distinct (map fst kvs)"
proof -
  obtain tx table where steps: "rd_begin_read db t = Inr tx" "rd_open_table db tx = Inr table" "rd_readable db table = Inr kvs"
    using assms(2) by (auto simp: raw_readable_def try_then_Ok_iff)
  then have "view table = view t"
    using assms(1) unfolding redb_contract_def by metis
  with redb_readable [OF assms(1) steps(3)] show "map_of kvs \<subseteq>\<^sub>m view t" "distinct (map fst kvs)" by simp_all
qed

lemma raw_readable_in:
  assumes "redb_contract db view" and "raw_readable db t = Inr kvs" and "k \<in> set (map fst kvs)"
  shows "view t k \<noteq> None"
proof -
  obtain v where "map_of kvs k = Some v"
    using assms(3) by (metis list.set_map map_of_eq_None_iff not_None_eq)
  with raw_readable_view(1) [OF assms(1,2)] show ?thesis
    by (metis domI map_le_def option.distinct(1))
qed

lemma raw_readable_total:
  assumes "redb_contract db view" and "redb_total db" and "raw_readable db t = Inr kvs"
  shows "map_of kvs = view t"
proof -
  obtain tx table where steps: "rd_begin_read db t = Inr tx" "rd_open_table db tx = Inr table" "rd_readable db table = Inr kvs"
    using assms(3) by (auto simp: raw_readable_def try_then_Ok_iff)
  obtain kvs' where it: "rd_iter db table = Inr kvs'"
    using assms(2) unfolding redb_total_def by blast
  with rd_iter_readable steps(3) have "kvs' = kvs" by fastforce
  moreover have "view table = view t"
    using assms(1) steps(1,2) unfolding redb_contract_def by metis
  ultimately show ?thesis using redb_iter(1) [OF assms(1) it] by simp
qed

text \<open>The values of a JSON table.\<close>

definition stored_value :: "'a serde \<Rightarrow> ('t \<Rightarrow> string \<Rightarrow> string option) \<Rightarrow> 't \<Rightarrow> string \<Rightarrow> 'a option" where
  "stored_value js view t k =
     Option.bind (view t k) (\<lambda>v. case sd_from_str js v of Inl _ \<Rightarrow> None | Inr x \<Rightarrow> Some x)"

lemma table_save_stored:
  assumes "redb_contract db view" and "serde_contract js" and "table_save db js tbl noun key x t = Inr t'"
  shows "stored_value js view t' = (stored_value js view t)(key \<mapsto> x)"
proof -
  obtain json tx table tx' where steps: "sd_to_string js x = Inr json" "rd_begin_write db t = Inr tx"
      "rd_open_table db tx = Inr table" "rd_insert db key json table = Inr tx'" "rd_commit db tx' = Inr t'"
    using assms(3) by (auto simp: table_save_def try_then_Ok_iff)
  then have "view tx = view t" "view table = view tx" "view tx' = (view table)(key \<mapsto> json)" "view t' = view tx'"
    using assms(1) unfolding redb_contract_def by metis+
  moreover have "sd_from_str js json = Inr x"
    using assms(2) steps(1) by (auto simp: serde_contract_def)
  ultimately show ?thesis
    by (auto simp: stored_value_def fun_eq_iff)
qed

lemma table_delete_stored:
  assumes "redb_contract db view" and "table_delete db tbl noun key t = Inr t'"
  shows "stored_value js view t' = (stored_value js view t)(key := None)"
proof -
  obtain tx table tx' where steps: "rd_begin_write db t = Inr tx" "rd_open_table db tx = Inr table"
      "rd_remove db key table = Inr tx'" "rd_commit db tx' = Inr t'"
    using assms(2) by (auto simp: table_delete_def try_then_Ok_iff)
  then have "view tx = view t" "view table = view tx" "view tx' = (view table)(key := None)" "view t' = view tx'"
    using assms(1) unfolding redb_contract_def by metis+
  then show ?thesis
    by (auto simp: stored_value_def fun_eq_iff)
qed

lemma table_load_stored:
  assumes "redb_contract db view" and "table_load db js tbl noun key t = Inr r"
  shows "stored_value js view t key = r"
proof -
  have "\<exists>tx table found. rd_begin_read db t = Inr tx \<and> rd_open_table db tx = Inr table \<and>
      rd_get db key table = Inr found \<and>
      (case found of None \<Rightarrow> r = None | Some v \<Rightarrow> \<exists>x. sd_from_str js v = Inr x \<and> r = Some x)"
    using assms(2) by (auto simp: table_load_def try_then_Ok_iff split: option.splits)
  then obtain tx table found where steps: "rd_begin_read db t = Inr tx" "rd_open_table db tx = Inr table"
      "rd_get db key table = Inr found"
      "case found of None \<Rightarrow> r = None | Some v \<Rightarrow> \<exists>x. sd_from_str js v = Inr x \<and> r = Some x"
    by blast
  then have "view tx = view t" "view table = view tx" "found = view table key"
    using assms(1) unfolding redb_contract_def by metis+
  with steps(4) show ?thesis
    by (auto simp: stored_value_def split: option.splits)
qed

lemma parse_table_entries:
  assumes "parse_table js noun kvs = Inr xs"
  shows "map fst xs = map fst kvs \<and>
    map_of xs k = Option.bind (map_of kvs k) (\<lambda>v. case sd_from_str js v of Inl _ \<Rightarrow> None | Inr x \<Rightarrow> Some x)"
  using assms by (induction js noun kvs arbitrary: xs rule: parse_table.induct) (auto simp: try_then_Ok_iff)

lemma table_list_stored:
  assumes "redb_contract db view" and "table_list db js tbl noun t = Inr xs"
  shows "map_of xs = stored_value js view t" and "distinct (map fst xs)"
proof -
  obtain tx table kvs where steps: "rd_begin_read db t = Inr tx" "rd_open_table db tx = Inr table"
      "rd_iter db table = Inr kvs" "parse_table js noun kvs = Inr xs"
    using assms(2) by (auto simp: table_list_def try_then_Ok_iff)
  then have "view table = view t"
    using assms(1) unfolding redb_contract_def by metis
  with redb_iter [OF assms(1) steps(3)] parse_table_entries [OF steps(4)] show "map_of xs = stored_value js view t" "distinct (map fst xs)"
    by (auto simp: stored_value_def fun_eq_iff)
qed

end
