(* ===== verification/App_Store.thy ===== *)
theory App_Store
  imports Table_Store Policy
begin

text \<open>
  The application tables of the store (\<open>crates/storage/src/config.rs\<close>, \<open>crates/storage/src/artifact.rs\<close>):
  configurations, compiled artifacts, raw modules by their digest, verification records and artifact
  hashes, with \<open>AppConfig\<close> (\<open>crates/common/src/types.rs\<close>) and the verification record
  (\<open>crates/common/src/deploy.rs\<close>). The lemmas give each operation's effect on the table as a map; a
  configuration is read back as it was last saved under its own identifier, and pruning keeps the
  newest versions and the active ones.
\<close>

section \<open>Application configuration\<close>

datatype placement_policy = EveryNode

record app_rate_limit_config =
  arl_requests_per_second :: u32
  arl_burst_capacity :: u32
  arl_per_ip_limit :: u32

definition app_rate_limit_config_default :: app_rate_limit_config where
  "app_rate_limit_config_default =
     \<lparr> arl_requests_per_second = 1000, arl_burst_capacity = 50, arl_per_ip_limit = 100 \<rparr>"

record app_config =
  ac_id :: app_id
  ac_fuel_quota :: fuel_quota
  ac_memory_limit :: memory_pages
  ac_max_instances :: u32
  ac_idle_timeout_secs :: u64
  ac_wasm_bind_port :: u16
  ac_env_vars :: "(string, string) hmap"
  ac_secret_keys :: "string list"
  ac_extended_limits :: "extended_limits_config option"
  ac_health_check_path :: "string option"
  ac_db_max_connections :: "u32 option"
  ac_rate_limit :: "app_rate_limit_config option"
  ac_tenant_id :: "string option"
  ac_policy :: "policy_config option"
  ac_namespace :: string
  ac_placement :: placement_policy
  ac_local_dependencies :: "app_id list"

definition default_namespace :: string where
  "default_namespace = ''default''"

definition app_config_default_for :: "app_id \<Rightarrow> app_config" where
  "app_config_default_for app = \<lparr> ac_id = app, ac_fuel_quota = FuelQuota 500000000,
     ac_memory_limit = MemoryPages 2048, ac_max_instances = 10, ac_idle_timeout_secs = 300,
     ac_wasm_bind_port = 8080, ac_env_vars = [], ac_secret_keys = [], ac_extended_limits = None,
     ac_health_check_path = None, ac_db_max_connections = None, ac_rate_limit = None,
     ac_tenant_id = None, ac_policy = None, ac_namespace = default_namespace,
     ac_placement = EveryNode, ac_local_dependencies = [] \<rparr>"

record artifact_verification_record =
  avr_sha256 :: string
  avr_verified :: bool
  avr_algorithm :: "string option"
  avr_issuer :: "string option"
  avr_identity :: "string option"
  avr_repository :: "string option"
  avr_namespace :: "string option"
  avr_public_key_sha256 :: "string option"
  avr_verified_at_unix_secs :: u64

section \<open>The tables\<close>

record 't app_store =
  st_artifacts :: 't
  st_raw_wasm :: 't
  st_configs :: 't
  st_metrics :: 't
  st_routes :: 't
  st_schema_meta :: 't
  st_artifact_hashes :: 't
  st_artifact_verifications :: 't

datatype store_error = StoreFailed storage_error | AppNotFound string

fun store_failed :: "(storage_error, 'a) result \<Rightarrow> (store_error, 'a) result" where
  "store_failed (Inl e) = Inl (StoreFailed e)"
| "store_failed (Inr x) = Inr x"

text \<open>A write replaces its table when the transaction commits and leaves the store as it was otherwise.\<close>

subsection \<open>Configurations\<close>

definition save_config ::
  "'t redb \<Rightarrow> app_config serde \<Rightarrow> app_config \<Rightarrow> 't app_store \<Rightarrow> (storage_error, 't app_store) result" where
  "save_config db js c s =
     try_then (storage_source (sd_to_string js c)) (\<lambda>json.
     try_then (raw_put db (app_id_as_str (ac_id c)) json (st_configs s)) (\<lambda>t. Ok (s\<lparr>st_configs := t\<rparr>)))"

definition load_app_config ::
  "'t redb \<Rightarrow> app_config serde \<Rightarrow> app_id \<Rightarrow> 't app_store \<Rightarrow> (storage_error, app_config option) result" where
  "load_app_config db js app s =
     try_then (raw_get db (app_id_as_str app) (st_configs s)) (\<lambda>found.
       case found of
         Some v \<Rightarrow> try_then (storage_source (sd_from_str js v)) (\<lambda>c. Ok (Some c))
       | None \<Rightarrow> Ok None)"

definition set_env_var ::
  "'t redb \<Rightarrow> app_config serde \<Rightarrow> app_id \<Rightarrow> string \<Rightarrow> string \<Rightarrow> 't app_store \<Rightarrow> (store_error, 't app_store) result" where
  "set_env_var db js app key value s =
     try_then (store_failed (load_app_config db js app s)) (\<lambda>found.
       case found of
         None \<Rightarrow> Inl (AppNotFound (app_id_as_str app))
       | Some c \<Rightarrow> store_failed (save_config db js (c\<lparr>ac_env_vars := hm_insert key value (ac_env_vars c)\<rparr>) s))"

definition list_apps :: "'t redb \<Rightarrow> 't app_store \<Rightarrow> (storage_error, app_id list) result" where
  "list_apps db s = try_then (raw_entries db (st_configs s)) (\<lambda>kvs. Ok (map (\<lambda>(k, _). AppId k) kvs))"

subsection \<open>Artifacts, raw modules and their metadata\<close>

definition store_artifact ::
  "'t redb \<Rightarrow> app_id \<Rightarrow> string \<Rightarrow> 't app_store \<Rightarrow> (storage_error, 't app_store) result" where
  "store_artifact db app bytes s =
     try_then (raw_put db (app_id_as_str app) bytes (st_artifacts s)) (\<lambda>t. Ok (s\<lparr>st_artifacts := t\<rparr>))"

definition load_artifact ::
  "'t redb \<Rightarrow> app_id \<Rightarrow> 't app_store \<Rightarrow> (storage_error, string option) result" where
  "load_artifact db app s = raw_get db (app_id_as_str app) (st_artifacts s)"

definition artifact_exists ::
  "'t redb \<Rightarrow> app_id \<Rightarrow> 't app_store \<Rightarrow> (storage_error, bool) result" where
  "artifact_exists db app s = try_then (raw_get db (app_id_as_str app) (st_artifacts s)) (\<lambda>v. Ok (v \<noteq> None))"

definition delete_artifact ::
  "'t redb \<Rightarrow> app_id \<Rightarrow> 't app_store \<Rightarrow> (storage_error, 't app_store) result" where
  "delete_artifact db app s =
     try_then (raw_remove db (app_id_as_str app) (st_artifacts s)) (\<lambda>t. Ok (s\<lparr>st_artifacts := t\<rparr>))"

definition save_raw_wasm ::
  "'t redb \<Rightarrow> string \<Rightarrow> string \<Rightarrow> 't app_store \<Rightarrow> (storage_error, 't app_store) result" where
  "save_raw_wasm db sha256 bytes s =
     try_then (raw_put db sha256 bytes (st_raw_wasm s)) (\<lambda>t. Ok (s\<lparr>st_raw_wasm := t\<rparr>))"

definition load_raw_wasm ::
  "'t redb \<Rightarrow> string \<Rightarrow> 't app_store \<Rightarrow> (storage_error, string option) result" where
  "load_raw_wasm db sha256 s = raw_get db sha256 (st_raw_wasm s)"

definition raw_wasm_exists ::
  "'t redb \<Rightarrow> string \<Rightarrow> 't app_store \<Rightarrow> (storage_error, bool) result" where
  "raw_wasm_exists db sha256 s = try_then (raw_get db sha256 (st_raw_wasm s)) (\<lambda>v. Ok (v \<noteq> None))"

definition delete_raw_wasm ::
  "'t redb \<Rightarrow> string \<Rightarrow> 't app_store \<Rightarrow> (storage_error, 't app_store) result" where
  "delete_raw_wasm db sha256 s =
     try_then (raw_remove db sha256 (st_raw_wasm s)) (\<lambda>t. Ok (s\<lparr>st_raw_wasm := t\<rparr>))"

definition save_artifact_verification ::
  "'t redb \<Rightarrow> artifact_verification_record serde \<Rightarrow> string \<Rightarrow> artifact_verification_record \<Rightarrow>
   't app_store \<Rightarrow> (storage_error, 't app_store) result" where
  "save_artifact_verification db js sha256 r s =
     try_then (storage_with_msg ''failed to serialize artifact verification'' (sd_to_string js r)) (\<lambda>json.
     try_then (raw_put db sha256 json (st_artifact_verifications s)) (\<lambda>t.
       Ok (s\<lparr>st_artifact_verifications := t\<rparr>)))"

definition load_artifact_verification ::
  "'t redb \<Rightarrow> artifact_verification_record serde \<Rightarrow> string \<Rightarrow> 't app_store \<Rightarrow>
   (storage_error, artifact_verification_record option) result" where
  "load_artifact_verification db js sha256 s =
     try_then (raw_get db sha256 (st_artifact_verifications s)) (\<lambda>found.
       case found of
         Some v \<Rightarrow> try_then (storage_with_msg ''failed to deserialize artifact verification'' (sd_from_str js v))
                     (\<lambda>r. Ok (Some r))
       | None \<Rightarrow> Ok None)"

definition save_artifact_hash ::
  "'t redb \<Rightarrow> app_id \<Rightarrow> string \<Rightarrow> 't app_store \<Rightarrow> (storage_error, 't app_store) result" where
  "save_artifact_hash db app sha256 s =
     try_then (raw_put db (app_id_as_str app) sha256 (st_artifact_hashes s)) (\<lambda>t. Ok (s\<lparr>st_artifact_hashes := t\<rparr>))"

definition get_artifact_sha256 ::
  "'t redb \<Rightarrow> app_id \<Rightarrow> 't app_store \<Rightarrow> (storage_error, string option) result" where
  "get_artifact_sha256 db app s = raw_get db (app_id_as_str app) (st_artifact_hashes s)"

definition delete_artifact_hash ::
  "'t redb \<Rightarrow> app_id \<Rightarrow> 't app_store \<Rightarrow> (storage_error, 't app_store) result" where
  "delete_artifact_hash db app s =
     try_then (raw_remove db (app_id_as_str app) (st_artifact_hashes s)) (\<lambda>t. Ok (s\<lparr>st_artifact_hashes := t\<rparr>))"

subsection \<open>Pruning\<close>

definition prune_version_key :: "string \<Rightarrow> nat" where
  "prune_version_key key =
     unwrap_or (parse_uint (2 ^ 32) (trim_start_char (CHR ''v'')
       (case rsplit_once (CHR '':'') key of None \<Rightarrow> key | Some (_, v) \<Rightarrow> v))) 0"

definition versions_to_prune :: "string \<Rightarrow> nat \<Rightarrow> string list \<Rightarrow> string list \<Rightarrow> string list" where
  "versions_to_prune app_name keep active keys =
     (let versions = sort_key prune_version_key (filter (\<lambda>k. starts_with k (app_name @ '':'')) keys)
      in filter (\<lambda>v. v \<notin> set active) (drop keep (rev versions)))"

definition prune_old_versions ::
  "'t redb \<Rightarrow> string \<Rightarrow> nat \<Rightarrow> string list \<Rightarrow> 't app_store \<Rightarrow> (storage_error, unit) result \<times> 't app_store" where
  "prune_old_versions db app_name keep active s =
     (case raw_readable db (st_artifacts s) of
        Inl e \<Rightarrow> (Inl e, s)
      | Inr kvs \<Rightarrow> for_each (\<lambda>key. on_store (delete_artifact db (AppId key)))
                     (versions_to_prune app_name keep active (map fst kvs)) s)"

definition prune_raw_wasm_older_than ::
  "'t redb \<Rightarrow> u64 \<Rightarrow> 't app_store \<Rightarrow> (storage_error, nat) result \<times> 't app_store" where
  "prune_raw_wasm_older_than db hours s =
     (case raw_readable db (st_raw_wasm s) of
        Inl e \<Rightarrow> (Inl e, s)
      | Inr kvs \<Rightarrow>
          (case for_each (\<lambda>sha256. on_store (delete_raw_wasm db sha256)) (map fst kvs) s of
             (Inl e, s') \<Rightarrow> (Inl e, s')
           | (Inr _, s') \<Rightarrow> (Ok (length kvs), s')))"

section \<open>The tables as maps\<close>

text \<open>The stored configuration of an application.\<close>

abbreviation config_of ::
  "app_config serde \<Rightarrow> ('t \<Rightarrow> string \<Rightarrow> string option) \<Rightarrow> 't app_store \<Rightarrow> string \<Rightarrow> app_config option" where
  "config_of js view s \<equiv> stored_value js view (st_configs s)"

lemma store_failed_Ok_iff [simp]: "store_failed x = Inr y \<longleftrightarrow> x = Inr y"
  by (cases x) auto

lemma save_config_stored:
  assumes "redb_contract db view" and "serde_contract js" and "save_config db js c s = Inr s'"
  shows "config_of js view s' = (config_of js view s)(app_id_as_str (ac_id c) \<mapsto> c)"
    and "\<exists>t. s' = s\<lparr>st_configs := t\<rparr>"
proof -
  obtain json t where st: "sd_to_string js c = Inr json"
      "raw_put db (app_id_as_str (ac_id c)) json (st_configs s) = Inr t" "s' = s\<lparr>st_configs := t\<rparr>"
    using assms(3) by (auto simp: save_config_def try_then_Ok_iff)
  moreover have "sd_from_str js json = Inr c"
    using assms(2) st(1) by (simp add: serde_contract_def)
  ultimately show "config_of js view s' = (config_of js view s)(app_id_as_str (ac_id c) \<mapsto> c)"
      "\<exists>t. s' = s\<lparr>st_configs := t\<rparr>"
    using raw_put_view [OF assms(1) st(2)] by (auto simp: stored_value_def fun_eq_iff)
qed

lemma load_app_config_stored:
  assumes "redb_contract db view" and "load_app_config db js app s = Inr r"
  shows "config_of js view s (app_id_as_str app) = r"
proof -
  obtain found where "raw_get db (app_id_as_str app) (st_configs s) = Inr found"
      and r: "case found of Some v \<Rightarrow> \<exists>c. sd_from_str js v = Inr c \<and> r = Some c | None \<Rightarrow> r = None"
    using assms(2) by (auto simp: load_app_config_def try_then_Ok_iff split: option.splits)
  with raw_get_view [OF assms(1) this(1)] show ?thesis
    by (auto simp: stored_value_def split: option.splits)
qed

lemma list_apps_stored:
  assumes "redb_contract db view" and "list_apps db s = Inr apps"
  shows "AppId k \<in> set apps \<longleftrightarrow> view (st_configs s) k \<noteq> None"
proof -
  obtain kvs where kvs: "raw_entries db (st_configs s) = Inr kvs" "apps = map (\<lambda>(k, _). AppId k) kvs"
    using assms(2) by (auto simp: list_apps_def try_then_Ok_iff)
  have "map_of kvs k \<noteq> None \<longleftrightarrow> k \<in> fst ` set kvs"
    by (simp add: map_of_eq_None_iff)
  then show ?thesis
    using raw_entries_view(1) [OF assms(1) kvs(1)] kvs(2) by force
qed

lemma artifact_ops_view:
  assumes "redb_contract db view"
  shows "store_artifact db app bytes s = Inr s' \<Longrightarrow>
      view (st_artifacts s') = (view (st_artifacts s))(app_id_as_str app \<mapsto> bytes) \<and> (\<exists>t. s' = s\<lparr>st_artifacts := t\<rparr>)"
    and "delete_artifact db app s = Inr s' \<Longrightarrow>
      view (st_artifacts s') = (view (st_artifacts s))(app_id_as_str app := None) \<and> (\<exists>t. s' = s\<lparr>st_artifacts := t\<rparr>)"
    and "save_raw_wasm db sha bytes s = Inr s' \<Longrightarrow>
      view (st_raw_wasm s') = (view (st_raw_wasm s))(sha \<mapsto> bytes) \<and> (\<exists>t. s' = s\<lparr>st_raw_wasm := t\<rparr>)"
    and "delete_raw_wasm db sha s = Inr s' \<Longrightarrow>
      view (st_raw_wasm s') = (view (st_raw_wasm s))(sha := None) \<and> (\<exists>t. s' = s\<lparr>st_raw_wasm := t\<rparr>)"
    and "save_artifact_hash db app sha s = Inr s' \<Longrightarrow>
      view (st_artifact_hashes s') = (view (st_artifact_hashes s))(app_id_as_str app \<mapsto> sha) \<and>
      (\<exists>t. s' = s\<lparr>st_artifact_hashes := t\<rparr>)"
  by (auto simp: store_artifact_def delete_artifact_def save_raw_wasm_def delete_raw_wasm_def
      save_artifact_hash_def try_then_Ok_iff raw_put_view [OF assms] raw_remove_view [OF assms])

text \<open>A loop of deletions on one table removes exactly its keys, and a prefix of them when it fails.\<close>

lemma for_each_delete_artifact:
  assumes "redb_contract db view" and "for_each (\<lambda>key. on_store (delete_artifact db (AppId key))) ks s = (r, s')"
  shows "\<exists>n. view (st_artifacts s') = (\<lambda>k. if k \<in> set (take n ks) then None else view (st_artifacts s) k) \<and>
           (r = Inr () \<longrightarrow> take n ks = ks) \<and> (\<exists>t. s' = s\<lparr>st_artifacts := t\<rparr>)"
  using assms(2)
proof (induction ks arbitrary: s)
  case Nil
  then show ?case by (auto intro: exI [of _ "st_artifacts s"])
next
  case (Cons key ks)
  show ?case
  proof (cases "delete_artifact db (AppId key) s")
    case (Inl e)
    with Cons.prems show ?thesis
      by (intro exI [of _ 0]) (auto intro: exI [of _ "st_artifacts s"])
  next
    case (Inr s1)
    with Cons.prems have "for_each (\<lambda>key. on_store (delete_artifact db (AppId key))) ks s1 = (r, s')" by simp
    from Cons.IH [OF this] obtain n t where IH:
        "view (st_artifacts s') = (\<lambda>k. if k \<in> set (take n ks) then None else view (st_artifacts s1) k)"
        "r = Inr () \<longrightarrow> take n ks = ks" "s' = s1\<lparr>st_artifacts := t\<rparr>" by blast
    with artifact_ops_view(2) [OF assms(1) Inr] show ?thesis
      by (intro exI [of _ "Suc n"]) (auto simp: fun_eq_iff)
  qed
qed

text \<open>
  Pruning removes only versions of the named application that are not active; of the others it keeps
  the newest: everything it removes is at most as new as each of the \<open>keep\<close> versions it skips.
\<close>

theorem prune_keeps_newest:
  assumes "redb_contract db view"
    and "prune_old_versions db app_name keep active s = (r, s')"
    and "view (st_artifacts s) k \<noteq> None" and "view (st_artifacts s') k = None"
  shows "starts_with k (app_name @ '':'') \<and> k \<notin> set active \<and>
    (\<exists>kept. length kept = keep \<and> distinct kept \<and>
       (\<forall>v\<in>set kept. starts_with v (app_name @ '':'') \<and> prune_version_key k \<le> prune_version_key v \<and>
          view (st_artifacts s') v \<noteq> None))"
proof -
  obtain kvs where kvs: "raw_readable db (st_artifacts s) = Inr kvs"
    using assms by (auto simp: prune_old_versions_def split: sum.splits)
  let ?vs = "sort_key prune_version_key (filter (\<lambda>k. starts_with k (app_name @ '':'')) (map fst kvs))"
  let ?del = "versions_to_prune app_name keep active (map fst kvs)"
  have del: "?del = filter (\<lambda>v. v \<notin> set active) (drop keep (rev ?vs))"
    by (simp add: versions_to_prune_def Let_def)
  obtain n where n: "view (st_artifacts s') = (\<lambda>k. if k \<in> set (take n ?del) then None else view (st_artifacts s) k)"
    using for_each_delete_artifact [OF assms(1)] assms(2) kvs by (fastforce simp: prune_old_versions_def)
  with assms(3,4) have k: "k \<in> set ?del"
    by (auto split: if_splits dest: in_set_takeD)
  have readable: "map_of kvs \<subseteq>\<^sub>m view (st_artifacts s)" "distinct (map fst kvs)"
    by (rule raw_readable_view [OF assms(1) kvs])+
  then have d: "distinct (rev ?vs)" by simp
  let ?kept = "take keep (rev ?vs)"
  have kd: "k \<in> set (drop keep (rev ?vs))" using k del by auto
  then have len: "length ?kept = keep"
    by (cases "keep \<le> length ?vs") auto
  have newer: "prune_version_key k \<le> prune_version_key v" if "v \<in> set ?kept" for v
  proof -
    have "sorted (map prune_version_key ?vs)" by simp
    then have "sorted_wrt (\<lambda>a b. prune_version_key b \<le> prune_version_key a) (take keep (rev ?vs) @ drop keep (rev ?vs))"
      by (simp only: append_take_drop_id sorted_wrt_rev sorted_wrt_map)
    with that kd show ?thesis
      unfolding sorted_wrt_append by blast
  qed
  have stays: "view (st_artifacts s') v \<noteq> None" if "v \<in> set ?kept" for v
  proof -
    have "v \<in> set (map fst kvs)" using that by (auto dest!: in_set_takeD)
    then have "view (st_artifacts s) v \<noteq> None"
      using raw_readable_in [OF assms(1) kvs] by simp
    moreover have "v \<notin> set (drop keep (rev ?vs))"
      using that d by (metis append_take_drop_id disjoint_iff distinct_append)
    ultimately show ?thesis
      using n del by (auto dest: in_set_takeD)
  qed
  have "\<exists>kept. length kept = keep \<and> distinct kept \<and>
       (\<forall>v\<in>set kept. starts_with v (app_name @ '':'') \<and> prune_version_key k \<le> prune_version_key v \<and>
          view (st_artifacts s') v \<noteq> None)"
    using len newer stays d by (intro exI [of _ ?kept]) (auto dest: in_set_takeD)
  with k del show ?thesis
    by (auto dest: in_set_dropD)
qed

end
