(* ===== verification/Cluster_State.thy ===== *)
theory Cluster_State
  imports App_Store Proxy_Service
begin

text \<open>
  What a node keeps about its cluster: the tables of cluster nodes, gateway configurations and API
  keys (\<open>crates/storage/src/management_state.rs\<close>), the handlers of the cluster events that change them
  together with the node table and the gateway in memory
  (\<open>crates/node/src/handlers/cluster_runtime.rs\<close>), and the load of the gateway at start
  (\<open>crates/node/src/main.rs\<close>). The database and the serialiser are the parameters of the routes table.
\<close>

section \<open>Cluster nodes\<close>

record cluster_node_record =
  cn_node_id :: string
  cn_last_seen_unix_secs :: u64
  cn_joined_at_unix_secs :: "u64 option"
  cn_health_status :: node_health_status
  cn_proxy_address :: "string option"
  cn_artifact_server_url :: "string option"
  cn_protocol_version :: "u32 option"
  cn_binary_version :: "string option"
  cn_secret_transport_public_key :: "string option"
  cn_accepting_requests :: "bool option"
  cn_active_instances :: "u32 option"
  cn_deployed_apps :: "u32 option"

definition cluster_node_record_new :: "string \<Rightarrow> u64 \<Rightarrow> cluster_node_record" where
  "cluster_node_record_new node_id last_seen = \<lparr> cn_node_id = node_id, cn_last_seen_unix_secs = last_seen,
     cn_joined_at_unix_secs = None, cn_health_status = NodeHealthy, cn_proxy_address = None,
     cn_artifact_server_url = None, cn_protocol_version = None, cn_binary_version = None,
     cn_secret_transport_public_key = None, cn_accepting_requests = None, cn_active_instances = None,
     cn_deployed_apps = None \<rparr>"

text \<open>The system time in seconds since the epoch is \<open>None\<close> before it; the difference saturates.\<close>

definition cluster_node_is_stale :: "u64 option \<Rightarrow> u64 \<Rightarrow> cluster_node_record \<Rightarrow> bool" where
  "cluster_node_is_stale now max_age n =
     (case now of None \<Rightarrow> False
      | Some t \<Rightarrow> unat t - unat (cn_last_seen_unix_secs n) > unat max_age)"

definition save_cluster_node ::
  "'t redb \<Rightarrow> cluster_node_record serde \<Rightarrow> cluster_node_record \<Rightarrow> 't \<Rightarrow> (storage_error, 't) result" where
  "save_cluster_node db js node t = table_save db js ''CLUSTER_NODES'' ''cluster node'' (cn_node_id node) node t"

definition load_cluster_node ::
  "'t redb \<Rightarrow> cluster_node_record serde \<Rightarrow> string \<Rightarrow> 't \<Rightarrow> (storage_error, cluster_node_record option) result" where
  "load_cluster_node db js node_id t = table_load db js ''CLUSTER_NODES'' ''cluster node'' node_id t"

definition list_cluster_nodes ::
  "'t redb \<Rightarrow> cluster_node_record serde \<Rightarrow> 't \<Rightarrow> (storage_error, cluster_node_record list) result" where
  "list_cluster_nodes db js t =
     try_then (table_list db js ''CLUSTER_NODES'' ''cluster node'' t) (\<lambda>kvs. Ok (sort_key cn_node_id (map snd kvs)))"

section \<open>Gateway configurations and API keys\<close>

definition save_gateway_config ::
  "'t redb \<Rightarrow> gateway_route_config serde \<Rightarrow> string \<Rightarrow> gateway_route_config \<Rightarrow> 't \<Rightarrow> (storage_error, 't) result" where
  "save_gateway_config db js app config t = table_save db js ''GATEWAY_CONFIGS'' ''gateway config'' app config t"

definition load_gateway_config ::
  "'t redb \<Rightarrow> gateway_route_config serde \<Rightarrow> string \<Rightarrow> 't \<Rightarrow> (storage_error, gateway_route_config option) result" where
  "load_gateway_config db js app t = table_load db js ''GATEWAY_CONFIGS'' ''gateway config'' app t"

definition delete_gateway_config :: "'t redb \<Rightarrow> string \<Rightarrow> 't \<Rightarrow> (storage_error, 't) result" where
  "delete_gateway_config db app t = table_delete db ''GATEWAY_CONFIGS'' ''gateway config'' app t"

definition list_gateway_configs ::
  "'t redb \<Rightarrow> gateway_route_config serde \<Rightarrow> 't \<Rightarrow> (storage_error, (string \<times> gateway_route_config) list) result" where
  "list_gateway_configs db js t = table_list db js ''GATEWAY_CONFIGS'' ''gateway config'' t"

definition save_api_keys ::
  "'t redb \<Rightarrow> api_key_record list serde \<Rightarrow> string \<Rightarrow> api_key_record list \<Rightarrow> 't \<Rightarrow> (storage_error, 't) result" where
  "save_api_keys db js app keys t = table_save db js ''API_KEYS'' ''api keys'' app keys t"

definition load_api_keys ::
  "'t redb \<Rightarrow> api_key_record list serde \<Rightarrow> string \<Rightarrow> 't \<Rightarrow> (storage_error, api_key_record list) result" where
  "load_api_keys db js app t = try_then (table_load db js ''API_KEYS'' ''api keys'' app t) (\<lambda>keys. Ok (unwrap_or keys []))"

definition delete_api_keys :: "'t redb \<Rightarrow> string \<Rightarrow> 't \<Rightarrow> (storage_error, 't) result" where
  "delete_api_keys db app t = table_delete db ''API_KEYS'' ''api keys'' app t"

section \<open>Handlers of cluster events\<close>

text \<open>
  The state the handlers change. \<open>cs_node_ips\<close> are the addresses last handed to the DNS webhook,
  if one is configured.
\<close>

record ('t, 'key) cluster_state =
  cs_node_table :: node_load_table
  cs_nodes :: 't
  cs_gateway_configs :: 't
  cs_gateway :: "'key gateway option"
  cs_node_ips :: "string list option"

definition parse_health_status :: "string \<Rightarrow> node_health_status" where
  "parse_health_status status =
     (if status = ''healthy'' then NodeHealthy
      else if status = ''degraded'' then NodeDegraded
      else if status = ''unhealthy'' then NodeUnhealthy
      else NodeDegraded)"

definition now_unix_secs :: "u64 option \<Rightarrow> u64" where
  "now_unix_secs now = unwrap_or now 0"

definition merge_cluster_node_record :: "u64 option \<Rightarrow> cluster_node_record option \<Rightarrow> string \<Rightarrow> cluster_node_record" where
  "merge_cluster_node_record now existing node_id =
     unwrap_or existing (cluster_node_record_new node_id (now_unix_secs now))"

text \<open>
  Loading, changing and saving the record of a node. \<open>t1\<close> and \<open>t2\<close> are the readings of the clock
  for a new record and for the time it was last seen.
\<close>

definition update_cluster_node ::
  "'t redb \<Rightarrow> cluster_node_record serde \<Rightarrow> u64 option \<Rightarrow> u64 option \<Rightarrow> string
    \<Rightarrow> (cluster_node_record \<Rightarrow> cluster_node_record) \<Rightarrow> 't \<Rightarrow> (storage_error, 't) result" where
  "update_cluster_node db js t1 t2 node_id change t =
     try_then (load_cluster_node db js node_id t) (\<lambda>existing.
     save_cluster_node db js
       (change ((merge_cluster_node_record t1 existing node_id)\<lparr> cn_last_seen_unix_secs := now_unix_secs t2 \<rparr>)) t)"

definition heartbeat_entry :: "string \<Rightarrow> f64 \<Rightarrow> u32 \<Rightarrow> string \<Rightarrow> u64 \<Rightarrow> node_entry" where
  "heartbeat_entry node_id fuel active proxy_address now = \<lparr> ne_node_id = node_id,
     ne_proxy_address = proxy_address, ne_fuel_used_percent = fuel, ne_active_instances = active,
     ne_last_seen = now, ne_health_status = NodeHealthy \<rparr>"

text \<open>
  \<open>url_host\<close> is the host that the URL parser finds in a URL. The outer option of the result is the
  panic on a clock before the epoch.
\<close>

definition handle_node_load ::
  "(string \<Rightarrow> string option) \<Rightarrow> 't redb \<Rightarrow> cluster_node_record serde \<Rightarrow> u64 option \<Rightarrow> u64 option \<Rightarrow> u64 option
    \<Rightarrow> string \<Rightarrow> f64 \<Rightarrow> u32 \<Rightarrow> string \<Rightarrow> ('t, 'key) cluster_state
    \<Rightarrow> (storage_error, unit) result option \<times> ('t, 'key) cluster_state" where
  "handle_node_load url_host db js t1 t2 t3 node_id fuel active proxy_address s =
     (case update_cluster_node db js t1 t2 node_id
             (\<lambda>n. n\<lparr> cn_proxy_address := Some proxy_address, cn_active_instances := Some active \<rparr>) (cs_nodes s) of
        Inl e \<Rightarrow> (Some (Err e), s)
      | Inr t \<Rightarrow>
          (let s = s\<lparr> cs_nodes := t \<rparr>
           in case t3 of
                None \<Rightarrow> (None, s)
              | Some now \<Rightarrow>
                  (let s = s\<lparr> cs_node_table :=
                         node_update (heartbeat_entry node_id fuel active proxy_address now) (cs_node_table s) \<rparr>;
                       ips = List.map_filter (\<lambda>(_, n). url_host (''http://'' @ ne_proxy_address n))
                         (nlt_nodes (cs_node_table s))
                   in (Some (Ok ()), s\<lparr> cs_node_ips := map_option (\<lambda>_. ips) (cs_node_ips s) \<rparr>))))"

definition handle_node_health_changed ::
  "'t redb \<Rightarrow> cluster_node_record serde \<Rightarrow> u64 option \<Rightarrow> u64 option \<Rightarrow> string \<Rightarrow> string \<Rightarrow> u32 \<Rightarrow> bool
    \<Rightarrow> ('t, 'key) cluster_state \<Rightarrow> (storage_error, unit) result \<times> ('t, 'key) cluster_state" where
  "handle_node_health_changed db js t1 t2 node_id status active accepting s =
     (let health_status = parse_health_status status;
          s = s\<lparr> cs_node_table := update_health node_id health_status (cs_node_table s) \<rparr>
      in case update_cluster_node db js t1 t2 node_id
                (\<lambda>n. n\<lparr> cn_health_status := health_status, cn_active_instances := Some active,
                       cn_accepting_requests := Some accepting \<rparr>) (cs_nodes s) of
           Inl e \<Rightarrow> (Err e, s)
         | Inr t \<Rightarrow> (Ok (), s\<lparr> cs_nodes := t \<rparr>))"

definition handle_node_health_snapshot ::
  "'t redb \<Rightarrow> cluster_node_record serde \<Rightarrow> u64 option \<Rightarrow> u64 option \<Rightarrow> string \<Rightarrow> string \<Rightarrow> u32 \<Rightarrow> u32
    \<Rightarrow> ('t, 'key) cluster_state \<Rightarrow> (storage_error, unit) result \<times> ('t, 'key) cluster_state" where
  "handle_node_health_snapshot db js t1 t2 node_id status active deployed s =
     (let health_status = parse_health_status status;
          s = s\<lparr> cs_node_table := update_health node_id health_status (cs_node_table s) \<rparr>
      in case update_cluster_node db js t1 t2 node_id
                (\<lambda>n. n\<lparr> cn_health_status := health_status, cn_active_instances := Some active,
                       cn_deployed_apps := Some deployed \<rparr>) (cs_nodes s) of
           Inl e \<Rightarrow> (Err e, s)
         | Inr t \<Rightarrow> (Ok (), s\<lparr> cs_nodes := t \<rparr>))"

definition handle_gateway_config_update ::
  "'t redb \<Rightarrow> gateway_route_config serde \<Rightarrow> app_id \<Rightarrow> gateway_route_config \<Rightarrow> ('t, 'key) cluster_state
    \<Rightarrow> (storage_error, unit) result \<times> ('t, 'key) cluster_state" where
  "handle_gateway_config_update db js app config s =
     (case save_gateway_config db js (app_id_as_str app) config (cs_gateway_configs s) of
        Inl e \<Rightarrow> (Err e, s)
      | Inr t \<Rightarrow> (Ok (), s\<lparr> cs_gateway_configs := t,
                   cs_gateway := map_option (set_route_config (app_id_as_str app) config) (cs_gateway s) \<rparr>))"

definition handle_gateway_config_remove ::
  "'t redb \<Rightarrow> app_id \<Rightarrow> ('t, 'key) cluster_state
    \<Rightarrow> (storage_error, unit) result \<times> ('t, 'key) cluster_state" where
  "handle_gateway_config_remove db app s =
     (case delete_gateway_config db (app_id_as_str app) (cs_gateway_configs s) of
        Inl e \<Rightarrow> (Err e, s)
      | Inr t \<Rightarrow> (Ok (), s\<lparr> cs_gateway_configs := t,
                   cs_gateway := map_option (remove_route_config (app_id_as_str app)) (cs_gateway s) \<rparr>))"

section \<open>The gateway at start\<close>

definition load_gateway_configs ::
  "'t redb \<Rightarrow> gateway_route_config serde \<Rightarrow> 't \<Rightarrow> 'key gateway \<Rightarrow> 'key gateway" where
  "load_gateway_configs db js t g =
     (case list_gateway_configs db js t of
        Inl _ \<Rightarrow> g
      | Inr configs \<Rightarrow> fold (\<lambda>(app, cfg). set_route_config app cfg) configs g)"

definition load_api_key_validators ::
  "'t redb \<Rightarrow> api_key_record list serde \<Rightarrow> 't app_store \<Rightarrow> 't \<Rightarrow> 'key gateway \<Rightarrow> 'key gateway" where
  "load_api_key_validators db js store keys_table g =
     (case list_apps db store of
        Inl _ \<Rightarrow> g
      | Inr apps \<Rightarrow> fold (\<lambda>app g.
          case load_api_keys db js (app_id_as_str app) keys_table of
            Inl _ \<Rightarrow> g
          | Inr keys \<Rightarrow>
              if keys \<noteq> [] then set_api_key_validator (app_id_as_str app) (api_key_validator_new keys) g
              else g) apps g)"

text \<open>Run only where the key-value bucket could be created; \<open>kv_bucket\<close> names it.\<close>

definition start_distributed_limiters ::
  "'t redb \<Rightarrow> gateway_route_config serde \<Rightarrow> string \<Rightarrow> u64 \<Rightarrow> string \<Rightarrow> instant \<Rightarrow> 't \<Rightarrow> 'key gateway \<Rightarrow> 'key gateway" where
  "start_distributed_limiters db js node_id sync_ms bucket now t g =
     fold (\<lambda>(app, cfg) g.
       case grc_rate_limit cfg of
         None \<Rightarrow> g
       | Some rl \<Rightarrow>
           if rrl_distributed rl
           then g\<lparr> gw_distributed_limiters := hm_insert app
                  (distributed_new app node_id \<lparr> global_rps = rrl_requests_per_second rl,
                     per_node_burst = rrl_burst_capacity rl, sync_interval_ms = sync_ms, kv_bucket = bucket \<rparr> now)
                  (gw_distributed_limiters g) \<rparr>
           else g)
       (case list_gateway_configs db js t of Inl _ \<Rightarrow> [] | Inr configs \<Rightarrow> configs) g"


section \<open>The table of nodes\<close>

text \<open>Every stored record of a node is filed under its own id.\<close>

definition nodes_keyed :: "cluster_node_record serde \<Rightarrow> ('t \<Rightarrow> string \<Rightarrow> string option) \<Rightarrow> 't \<Rightarrow> bool" where
  "nodes_keyed jn view t \<longleftrightarrow> (\<forall>k n. stored_value jn view t k = Some n \<longrightarrow> cn_node_id n = k)"

lemma update_cluster_node_stored:
  assumes "redb_contract db view" "serde_contract jn" "nodes_keyed jn view t"
    and "update_cluster_node db jn t1 t2 node change t = Inr t'" and "\<And>n. cn_node_id (change n) = cn_node_id n"
  shows "stored_value jn view t' = (stored_value jn view t)(node \<mapsto>
      change ((merge_cluster_node_record t1 (stored_value jn view t node) node)\<lparr> cn_last_seen_unix_secs := now_unix_secs t2 \<rparr>))"
    and "nodes_keyed jn view t'"
proof -
  let ?n = "change ((merge_cluster_node_record t1 (stored_value jn view t node) node)\<lparr>
    cn_last_seen_unix_secs := now_unix_secs t2 \<rparr>)"
  obtain existing where load: "table_load db jn ''CLUSTER_NODES'' ''cluster node'' node t = Inr existing" and
    save: "table_save db jn ''CLUSTER_NODES'' ''cluster node'' (cn_node_id (change ((merge_cluster_node_record t1 existing node)\<lparr>
        cn_last_seen_unix_secs := now_unix_secs t2 \<rparr>)))
      (change ((merge_cluster_node_record t1 existing node)\<lparr> cn_last_seen_unix_secs := now_unix_secs t2 \<rparr>)) t = Inr t'"
    using assms(4)
    by (auto simp: update_cluster_node_def load_cluster_node_def save_cluster_node_def try_then_Ok_iff)
  have ex: "stored_value jn view t node = existing"
    by (rule table_load_stored [OF assms(1) load])
  have id: "cn_node_id ?n = node"
    using assms(3) by (auto simp: assms(5) merge_cluster_node_record_def unwrap_or_def nodes_keyed_def
        cluster_node_record_new_def split: option.splits)
  show st: "stored_value jn view t' = (stored_value jn view t)(node \<mapsto> ?n)"
    using table_save_stored [OF assms(1,2) save] id unfolding ex by simp
  show "nodes_keyed jn view t'"
    using assms(3) id by (auto simp: nodes_keyed_def st)
qed

section \<open>Configurations in memory and on disk\<close>

text \<open>
  The events that touch this state: load and health reports, changes of gateway configurations, and the
  gateway configurations of a state snapshot, whose other parts go to other tables. The loop of the snapshot
  ends at the first error.
\<close>

fun apply_snapshot_gateway_configs ::
  "'t redb \<Rightarrow> gateway_route_config serde \<Rightarrow> (string \<times> gateway_route_config) list \<Rightarrow> ('t, 'key) cluster_state
    \<Rightarrow> (storage_error, unit) result \<times> ('t, 'key) cluster_state" where
  "apply_snapshot_gateway_configs db js [] s = (Ok (), s)"
| "apply_snapshot_gateway_configs db js ((app, config) # rest) s =
     (case save_gateway_config db js app config (cs_gateway_configs s) of
        Inl e \<Rightarrow> (Err e, s)
      | Inr t \<Rightarrow> apply_snapshot_gateway_configs db js rest
          (s\<lparr>cs_gateway_configs := t, cs_gateway := map_option (set_route_config app config) (cs_gateway s)\<rparr>))"

datatype cluster_event =
    EvNodeLoad "u64 option" "u64 option" "u64 option" string f64 u32 string
  | EvHealthChanged "u64 option" "u64 option" string string u32 bool
  | EvHealthSnapshot "u64 option" "u64 option" string string u32 u32
  | EvGatewayUpdate app_id gateway_route_config
  | EvGatewayRemove app_id
  | EvStateSnapshot "(string \<times> gateway_route_config) list"

fun cluster_step ::
  "(string \<Rightarrow> string option) \<Rightarrow> 't redb \<Rightarrow> cluster_node_record serde \<Rightarrow> gateway_route_config serde
    \<Rightarrow> cluster_event \<Rightarrow> ('t, 'key) cluster_state \<Rightarrow> ('t, 'key) cluster_state" where
  "cluster_step url_host db jn jc (EvNodeLoad t1 t2 t3 n f a p) s =
     snd (handle_node_load url_host db jn t1 t2 t3 n f a p s)"
| "cluster_step url_host db jn jc (EvHealthChanged t1 t2 n st a acc) s =
     snd (handle_node_health_changed db jn t1 t2 n st a acc s)"
| "cluster_step url_host db jn jc (EvHealthSnapshot t1 t2 n st a d) s =
     snd (handle_node_health_snapshot db jn t1 t2 n st a d s)"
| "cluster_step url_host db jn jc (EvGatewayUpdate app c) s = snd (handle_gateway_config_update db jc app c s)"
| "cluster_step url_host db jn jc (EvGatewayRemove app) s = snd (handle_gateway_config_remove db app s)"
| "cluster_step url_host db jn jc (EvStateSnapshot configs) s = snd (apply_snapshot_gateway_configs db jc configs s)"

text \<open>
  The handlers of the admin API store a change, publish its event and answer success even if the publication
  fails; the gateway changes when the event arrives. The answer is the status and the event to publish.
\<close>

definition admin_gateway_update ::
  "'t redb \<Rightarrow> gateway_route_config serde \<Rightarrow> string \<Rightarrow> gateway_route_config \<Rightarrow> ('t, 'key) cluster_state
    \<Rightarrow> (u16 \<times> cluster_event option) \<times> ('t, 'key) cluster_state" where
  "admin_gateway_update db js raw_app_id body s =
     (case app_id_new_validate raw_app_id of
        Inl _ \<Rightarrow> ((400, None), s)
      | Inr app \<Rightarrow>
          (case save_gateway_config db js (app_id_as_str app) body (cs_gateway_configs s) of
             Inl _ \<Rightarrow> ((500, None), s)
           | Inr t \<Rightarrow> ((200, Some (EvGatewayUpdate app body)), s\<lparr>cs_gateway_configs := t\<rparr>)))"

definition admin_gateway_remove ::
  "'t redb \<Rightarrow> string \<Rightarrow> ('t, 'key) cluster_state \<Rightarrow> (u16 \<times> cluster_event option) \<times> ('t, 'key) cluster_state" where
  "admin_gateway_remove db raw_app_id s =
     (case app_id_new_validate raw_app_id of
        Inl _ \<Rightarrow> ((400, None), s)
      | Inr app \<Rightarrow>
          (case delete_gateway_config db (app_id_as_str app) (cs_gateway_configs s) of
             Inl _ \<Rightarrow> ((500, None), s)
           | Inr t \<Rightarrow> ((200, Some (EvGatewayRemove app)), s\<lparr>cs_gateway_configs := t\<rparr>)))"

text \<open>The gateway in memory holds exactly the stored configurations.\<close>

definition coherent ::
  "gateway_route_config serde \<Rightarrow> ('t \<Rightarrow> string \<Rightarrow> string option) \<Rightarrow> ('t, 'key) cluster_state \<Rightarrow> bool" where
  "coherent jc view s \<longleftrightarrow>
     (\<forall>g. cs_gateway s = Some g \<longrightarrow> hm_get (gw_route_configs g) = stored_value jc view (cs_gateway_configs s))"

lemma coherent_update:
  assumes "redb_contract db view" "serde_contract jc" "coherent jc view s"
  shows "coherent jc view (snd (handle_gateway_config_update db jc app c s))"
  using assms(3) table_save_stored [OF assms(1,2)]
  by (auto simp: coherent_def handle_gateway_config_update_def save_gateway_config_def set_route_config_def
      fun_eq_iff split: sum.splits)

lemma coherent_remove:
  assumes "redb_contract db view" "coherent jc view s"
  shows "coherent jc view (snd (handle_gateway_config_remove db app s))"
  using assms(2) table_delete_stored [OF assms(1), where js = jc]
  by (auto simp: coherent_def handle_gateway_config_remove_def delete_gateway_config_def remove_route_config_def
      fun_eq_iff split: sum.splits)

lemma coherent_snapshot:
  assumes "redb_contract db view" "serde_contract jc"
  shows "coherent jc view s \<Longrightarrow> coherent jc view (snd (apply_snapshot_gateway_configs db jc configs s))"
proof (induction configs arbitrary: s)
  case (Cons kc configs)
  obtain app config where kc: "kc = (app, config)" by fastforce
  show ?case
  proof (cases "save_gateway_config db jc app config (cs_gateway_configs s)")
    case (Inr t)
    then have "stored_value jc view t = (stored_value jc view (cs_gateway_configs s))(app \<mapsto> config)"
      using table_save_stored [OF assms] by (simp add: save_gateway_config_def)
    then have "coherent jc view (s\<lparr>cs_gateway_configs := t, cs_gateway := map_option (set_route_config app config) (cs_gateway s)\<rparr>)"
      using Cons.prems by (auto simp: coherent_def set_route_config_def fun_eq_iff)
    from Cons.IH [OF this] Inr kc show ?thesis by simp
  qed (use Cons.prems kc in simp)
qed simp

lemma snapshot_keeps_limiters:
  "map_option gw_distributed_limiters (cs_gateway (snd (apply_snapshot_gateway_configs db jc configs s))) =
    map_option gw_distributed_limiters (cs_gateway s)"
  by (induction db jc configs s rule: apply_snapshot_gateway_configs.induct)
    (auto simp: set_route_config_def option.map_comp comp_def split: sum.splits)

lemma node_events_keep_gateway:
  "cs_gateway (snd (handle_node_load url_host db jn t1 t2 t3 n f a p s)) = cs_gateway s"
  "cs_gateway_configs (snd (handle_node_load url_host db jn t1 t2 t3 n f a p s)) = cs_gateway_configs s"
  "cs_gateway (snd (handle_node_health_changed db jn t1 t2 n st a acc s)) = cs_gateway s"
  "cs_gateway_configs (snd (handle_node_health_changed db jn t1 t2 n st a acc s)) = cs_gateway_configs s"
  "cs_gateway (snd (handle_node_health_snapshot db jn t1 t2 n st a d s)) = cs_gateway s"
  "cs_gateway_configs (snd (handle_node_health_snapshot db jn t1 t2 n st a d s)) = cs_gateway_configs s"
  by (simp_all add: handle_node_load_def handle_node_health_changed_def handle_node_health_snapshot_def Let_def
      split: sum.splits option.splits)

interpretation gwc: call_machine "cluster_step url_host db jn jc"
  "\<lambda>s. redb_contract db view \<and> serde_contract jc \<longrightarrow> coherent jc view s"
proof unfold_locales
  fix s :: "('a, 'b) cluster_state" and e
  assume "redb_contract db view \<and> serde_contract jc \<longrightarrow> coherent jc view s"
  then show "redb_contract db view \<and> serde_contract jc \<longrightarrow> coherent jc view (cluster_step url_host db jn jc e s)"
    by (cases e) (auto simp: coherent_update coherent_remove coherent_snapshot, auto simp: coherent_def node_events_keep_gateway)
qed

lemma limiters_unchanged:
  "map_option gw_distributed_limiters (cs_gateway (fold (cluster_step url_host db jn jc) es s)) =
    map_option gw_distributed_limiters (cs_gateway s)"
proof (induction es arbitrary: s)
  case (Cons e es)
  have "map_option gw_distributed_limiters (cs_gateway (cluster_step url_host db jn jc e s)) =
      map_option gw_distributed_limiters (cs_gateway s)"
    by (cases e) (auto simp: node_events_keep_gateway snapshot_keeps_limiters handle_gateway_config_update_def
        handle_gateway_config_remove_def set_route_config_def remove_route_config_def option.map_comp comp_def
        split: sum.splits)
  with Cons show ?case
    by simp
qed simp

lemma hm_get_fold_insert:
  assumes "distinct (map fst xs)"
  shows "hm_get (gw_route_configs (fold (\<lambda>(app, cfg). set_route_config app cfg) xs g)) k =
    (case map_of xs k of None \<Rightarrow> hm_get (gw_route_configs g) k | Some c \<Rightarrow> Some c)"
  using assms
proof (induction xs arbitrary: g)
  case (Cons x xs)
  then show ?case
    by (cases x) (auto simp: set_route_config_def map_of_eq_None_iff dest!: map_of_SomeD
        split: option.splits intro: rev_image_eqI)
qed simp

section \<open>Properties\<close>

lemma loaded_configs:
  assumes "redb_contract db view" and "list_gateway_configs db jc t = Inr configs"
  shows "hm_get (gw_route_configs (load_gateway_configs db jc t (gateway_new oidc))) = stored_value jc view t"
proof -
  from table_list_stored [OF assms(1)] assms(2) have
    "map_of configs = stored_value jc view t" "distinct (map fst configs)"
    by (auto simp: list_gateway_configs_def)
  with assms(2) show ?thesis
    by (auto simp: load_gateway_configs_def hm_get_fold_insert gateway_new_def fun_eq_iff split: option.splits)
qed


text \<open>
  A change that the admin API stores but whose event is lost is answered with success, has no effect on the
  running gateway, and takes effect with the next start.
\<close>

theorem lost_admin_update_waits_for_restart:
  assumes "redb_contract db view" "serde_contract jc"
    and "admin_gateway_update db jc raw body s = ((200, published), s')"
    and "list_gateway_configs db jc (cs_gateway_configs s') = Inr configs"
  shows "cs_gateway s' = cs_gateway s \<and>
    get_route_config (load_gateway_configs db jc (cs_gateway_configs s') (gateway_new oidc)) (AppId raw) = Some body"
proof -
  obtain t where t: "save_gateway_config db jc raw body (cs_gateway_configs s) = Inr t"
      "s' = s\<lparr>cs_gateway_configs := t\<rparr>"
    using assms(3) by (auto simp: admin_gateway_update_def app_id_new_validate_Ok_iff split: sum.splits)
  then have "stored_value jc view t raw = Some body"
    using table_save_stored [OF assms(1,2)] by (simp add: save_gateway_config_def)
  with loaded_configs [OF assms(1,4), of oidc] t(2) show ?thesis by (simp add: get_route_config_def)
qed

text \<open>
  A load report restores the health of the node it comes from, but only in the node table: a node
  that announced itself unhealthy is a candidate again with its next report, while its stored
  record still calls it unhealthy.
\<close>

theorem load_report_clears_unhealthy:
  assumes "redb_contract db view" "serde_contract jn"
    and "node \<noteq> local_node_id" and "\<not> is_unhealthy node (cs_node_table s)"
    and "handle_node_health_changed db jn a1 a2 node ''unhealthy'' act acc s = (Inr (), s1)"
    and "handle_node_load url_host db jn t1 t2 (Some now) node fuel act' addr s1 = (Some (Inr ()), s2)"
    and "nodes_keyed jn view (cs_nodes s)"
  shows "eligible (Some now) local_node_id (cs_node_table s2) (heartbeat_entry node fuel act' addr now) \<and>
    (\<exists>n. stored_value jn view (cs_nodes s2) node = Some n \<and> cn_health_status n = NodeUnhealthy)"
proof
  let ?e = "heartbeat_entry node fuel act' addr now"
  have t1: "cs_node_table s1 = update_health node NodeUnhealthy (cs_node_table s)"
    using assms(5) by (auto simp: handle_node_health_changed_def Let_def parse_health_status_def split: sum.splits)
  have t2: "cs_node_table s2 = node_update ?e (cs_node_table s1)"
    using assms(6) by (auto simp: handle_node_load_def Let_def split: sum.splits)
  then have "hm_get (nlt_nodes (cs_node_table s2)) node = Some ?e"
    by (simp add: node_update_def heartbeat_entry_def)
  then have "?e \<in> snd ` set (nlt_nodes (cs_node_table s2))"
    by (auto dest!: hm_get_set intro!: image_eqI)
  moreover have "nlt_unhealthy (cs_node_table s2) = nlt_unhealthy (cs_node_table s)"
    by (simp add: t1 t2 node_update_def update_health_def split: option.splits)
  ultimately show "eligible (Some now) local_node_id (cs_node_table s2) ?e"
    using assms(3,4) by (simp add: eligible_def is_unhealthy_def heartbeat_entry_def is_stale_def)
next
  have k: "nodes_keyed jn view (cs_nodes s1)"
      "\<exists>n. stored_value jn view (cs_nodes s1) node = Some n \<and> cn_health_status n = NodeUnhealthy"
    using assms(5) update_cluster_node_stored [OF assms(1,2,7)]
    by (fastforce simp: handle_node_health_changed_def Let_def parse_health_status_def split: sum.splits)+
  show "\<exists>n. stored_value jn view (cs_nodes s2) node = Some n \<and> cn_health_status n = NodeUnhealthy"
    using assms(6) k(2) update_cluster_node_stored [OF assms(1,2) k(1)]
    by (fastforce simp: handle_node_load_def Let_def merge_cluster_node_record_def unwrap_or_def split: sum.splits)
qed

text \<open>
  A distributed rate limit that is configured at run time has no effect before the next start:
  limiters are created at the start only, and without one the distributed check grants everything.
\<close>

theorem distributed_limit_needs_restart:
  assumes "cs_gateway s = Some g" and "hm_get (gw_distributed_limiters g) (app_id_as_str app) = None"
  shows "\<exists>g'. cs_gateway (fold (cluster_step url_host db jn jc) es s) = Some g' \<and>
    distributed_grants clk limit app g'"
  using limiters_unchanged [of url_host db jn jc es s] assms by (auto simp: distributed_grants_def)

section \<open>A concrete instance\<close>

definition w_route_config :: gateway_route_config where
  "w_route_config = gateway_route_config_default\<lparr> grc_auth := AuthAuthenticated \<rparr>"

definition w_cluster_state :: "((string, string) hmap, string) cluster_state" where
  "w_cluster_state = \<lparr> cs_node_table = \<lparr> nlt_nodes = [], nlt_unhealthy = [] \<rparr>, cs_nodes = [],
     cs_gateway_configs = [], cs_gateway = Some (gateway_new None), cs_node_ips = None \<rparr>"


end
