(* ===== verification/Storage_Gc.thy ===== *)
theory Storage_Gc
  imports App_Store Float64
begin

text \<open>
  Garbage collection of the store (\<open>crates/storage/src/gc.rs\<close>) and the metric buckets
  (\<open>crates/storage/src/metrics.rs\<close>): stale artifact versions, expired metric buckets, undeploy
  markers with their grace period, and the purge of undeployed applications. Clock readings are
  seconds since the epoch at 64 bits; subtractions wrap as in a release build.

  The theorems: artifact collection removes no version of an application that still has a
  configuration, never changes a configuration and keeps the newest versions; metric collection is
  exact; a purge touches only the keys of its application; the deployed applications are those with a
  configuration and no marker; and an application undeployed under its full identifier is listed as
  deployed again once its grace period is over.
\<close>

section \<open>Artifact versions\<close>

record version_entry =
  ve_key :: string
  ve_app_name :: string
  ve_version :: string

record gc_stats =
  gs_artifacts_deleted :: nat
  gs_raw_wasm_deleted :: nat
  gs_configs_deleted :: nat
  gs_metric_buckets_deleted :: nat
  gs_undeployed_apps_purged :: nat

definition gc_stats_default :: gc_stats where
  "gc_stats_default = \<lparr> gs_artifacts_deleted = 0, gs_raw_wasm_deleted = 0, gs_configs_deleted = 0,
     gs_metric_buckets_deleted = 0, gs_undeployed_apps_purged = 0 \<rparr>"

definition version_sort_key :: "string \<Rightarrow> nat" where
  "version_sort_key version = unwrap_or (parse_uint (2 ^ 64) (trim_start_char (CHR ''v'') version)) (2 ^ 64 - 1)"

definition inventory_add ::
  "string \<Rightarrow> (string, version_entry list) hmap \<Rightarrow> (string, version_entry list) hmap" where
  "inventory_add key acc =
     (case rsplit_once (CHR '':'') key of
        None \<Rightarrow> acc
      | Some (app_name, version) \<Rightarrow>
          hm_insert app_name (unwrap_or (hm_get acc app_name) [] @
            [\<lparr> ve_key = key, ve_app_name = app_name, ve_version = version \<rparr>]) acc)"

definition inventory_versions ::
  "'t redb \<Rightarrow> 't app_store \<Rightarrow> (storage_error, (string, version_entry list) hmap) result" where
  "inventory_versions db s =
     try_then (raw_entries db (st_artifacts s)) (\<lambda>kvs.
       Ok (map (\<lambda>(app, vs). (app, sort_key (\<lambda>v. version_sort_key (ve_version v)) vs))
             (fold inventory_add (map fst kvs) [])))"

definition key_app :: "string \<Rightarrow> string" where
  "key_app key = (case str_split (CHR '':'') key of [] \<Rightarrow> '''' | w # _ \<Rightarrow> w)"

definition has_active_instances :: "'t redb \<Rightarrow> string \<Rightarrow> 't app_store \<Rightarrow> (storage_error, bool) result" where
  "has_active_instances db key s =
     try_then (list_apps db s) (\<lambda>apps.
       Ok (list_ex (\<lambda>app. starts_with (app_id_as_str app) (key_app key @ '':'')) apps))"

definition delete_artifact_by_key :: "'t redb \<Rightarrow> string \<Rightarrow> 't app_store \<Rightarrow> (storage_error, 't app_store) result" where
  "delete_artifact_by_key db key s =
     try_then (raw_remove db key (st_artifacts s)) (\<lambda>t. Ok (s\<lparr>st_artifacts := t\<rparr>))"

definition delete_raw_wasm_by_key :: "'t redb \<Rightarrow> string \<Rightarrow> 't app_store \<Rightarrow> (storage_error, 't app_store) result" where
  "delete_raw_wasm_by_key db key s =
     try_then (raw_remove db key (st_raw_wasm s)) (\<lambda>t. Ok (s\<lparr>st_raw_wasm := t\<rparr>))"

definition delete_config_by_key :: "'t redb \<Rightarrow> string \<Rightarrow> 't app_store \<Rightarrow> (storage_error, 't app_store) result" where
  "delete_config_by_key db key s =
     try_then (raw_remove db key (st_configs s)) (\<lambda>t. Ok (s\<lparr>st_configs := t\<rparr>))"

text \<open>One candidate of \<open>gc_artifacts\<close>: errors of the raw module and of the configuration are ignored.\<close>

definition gc_version ::
  "'t redb \<Rightarrow> version_entry \<Rightarrow> gc_stats \<times> 't app_store \<Rightarrow> (storage_error, gc_stats \<times> 't app_store) result" where
  "gc_version db e = (\<lambda>(stats, s).
     try_then (has_active_instances db (ve_key e) s) (\<lambda>active.
     if active then Ok (stats, s)
     else try_then (delete_artifact_by_key db (ve_key e) s) (\<lambda>s1.
       let stats1 = stats\<lparr>gs_artifacts_deleted := gs_artifacts_deleted stats + 1\<rparr>;
           (stats2, s2) = (case delete_raw_wasm_by_key db (ve_key e) s1 of
              Inl _ \<Rightarrow> (stats1, s1)
            | Inr s' \<Rightarrow> (stats1\<lparr>gs_raw_wasm_deleted := gs_raw_wasm_deleted stats1 + 1\<rparr>, s'))
       in Ok (case delete_config_by_key db (ve_key e) s2 of
              Inl _ \<Rightarrow> (stats2, s2)
            | Inr s' \<Rightarrow> (stats2\<lparr>gs_configs_deleted := gs_configs_deleted stats2 + 1\<rparr>, s')))))"

definition gc_candidates :: "nat \<Rightarrow> (string, version_entry list) hmap \<Rightarrow> version_entry list" where
  "gc_candidates keep inventory =
     concat (map (\<lambda>(app, versions).
       if length versions \<le> keep then [] else take (length versions - keep) versions) inventory)"

definition gc_artifacts ::
  "'t redb \<Rightarrow> nat \<Rightarrow> 't app_store \<Rightarrow> (storage_error, gc_stats) result \<times> 't app_store" where
  "gc_artifacts db keep s =
     (case inventory_versions db s of
        Inl e \<Rightarrow> (Inl e, s)
      | Inr inventory \<Rightarrow>
          (case for_each (\<lambda>e. on_store (gc_version db e)) (gc_candidates keep inventory) (gc_stats_default, s) of
             (Inl e, (_, s')) \<Rightarrow> (Inl e, s')
           | (Inr _, (stats, s')) \<Rightarrow> (Ok stats, s')))"

section \<open>Metric buckets\<close>

record metric_bucket =
  mb_app_id :: string
  mb_minute_ts :: u64
  mb_request_count :: u64
  mb_fuel_consumed_total :: u64
  mb_fuel_consumed_avg :: u64
  mb_ram_usage_peak_bytes :: u64
  mb_latency_p50_ms :: f64
  mb_latency_p99_ms :: f64
  mb_trap_count :: u64

definition write_metric_bucket ::
  "'t redb \<Rightarrow> metric_bucket serde \<Rightarrow> metric_bucket \<Rightarrow> 't app_store \<Rightarrow> (storage_error, 't app_store) result" where
  "write_metric_bucket db js b s =
     (let key = mb_app_id b @ '':'' @ show_nat (unat (mb_minute_ts b)) in
      try_then (storage_source (sd_to_string js b)) (\<lambda>json.
      try_then (raw_put db key json (st_metrics s)) (\<lambda>t. Ok (s\<lparr>st_metrics := t\<rparr>))))"

fun parse_recent ::
  "metric_bucket serde \<Rightarrow> string \<Rightarrow> u64 \<Rightarrow> (string \<times> string) list \<Rightarrow> (storage_error, metric_bucket list) result" where
  "parse_recent js pfx cutoff [] = Ok []"
| "parse_recent js pfx cutoff ((k, v) # kvs) =
     (if starts_with k pfx \<and>
         cutoff \<le> of_nat (unwrap_or (parse_uint (2 ^ 64) (last (str_split (CHR '':'') k))) 0)
      then try_then (storage_source (sd_from_str js v)) (\<lambda>b.
           try_then (parse_recent js pfx cutoff kvs) (\<lambda>bs. Ok (b # bs)))
      else parse_recent js pfx cutoff kvs)"

definition load_recent_metrics ::
  "'t redb \<Rightarrow> metric_bucket serde \<Rightarrow> u64 \<Rightarrow> string \<Rightarrow> u64 \<Rightarrow> 't app_store \<Rightarrow> (storage_error, metric_bucket list) result" where
  "load_recent_metrics db js now app last_n_minutes s =
     (let cutoff = (now div 60 - last_n_minutes) * 60 in
      try_then (raw_entries db (st_metrics s)) (parse_recent js (app @ '':'') cutoff))"

text \<open>Removal of a list of keys within one write transaction; the first failure drops it.\<close>

fun remove_keys :: "'t redb \<Rightarrow> string list \<Rightarrow> 't \<Rightarrow> (string, 't) result" where
  "remove_keys db [] t = Ok t"
| "remove_keys db (k # ks) t = try_then (rd_remove db k t) (remove_keys db ks)"

definition remove_where ::
  "'t redb \<Rightarrow> (string \<Rightarrow> bool) \<Rightarrow> 't \<Rightarrow> (storage_error, nat \<times> 't) result" where
  "remove_where db stale t =
     try_then (storage_source (rd_begin_write db t)) (\<lambda>tx.
     try_then (storage_source (rd_open_table db tx)) (\<lambda>table.
     try_then (storage_source (rd_readable db table)) (\<lambda>kvs.
     let stale_keys = filter stale (map fst kvs) in
     try_then (storage_source (remove_keys db stale_keys table)) (\<lambda>table'.
     try_then (storage_source (rd_commit db table')) (\<lambda>t'. Ok (length stale_keys, t'))))))"

definition prune_old_metrics ::
  "'t redb \<Rightarrow> u64 \<Rightarrow> u64 \<Rightarrow> 't app_store \<Rightarrow> (storage_error, nat \<times> 't app_store) result" where
  "prune_old_metrics db now retention_minutes s =
     (let minutes = now div 60;
          cutoff = (if retention_minutes \<le> minutes then minutes - retention_minutes else 0) * 60
      in try_then (remove_where db (\<lambda>k. case parse_uint (2 ^ 64) (last (str_split (CHR '':'') k)) of
              None \<Rightarrow> False | Some ts \<Rightarrow> of_nat ts < cutoff) (st_metrics s)) (\<lambda>(n, t).
         Ok (n, s\<lparr>st_metrics := t\<rparr>)))"

definition metric_key_ts :: "string \<Rightarrow> u64" where
  "metric_key_ts key =
     of_nat (unwrap_or (Option.bind (rsplit_once (CHR '':'') key) (\<lambda>(_, ts). parse_uint (2 ^ 64) ts)) 0)"

definition gc_metrics ::
  "'t redb \<Rightarrow> u64 \<Rightarrow> u32 \<Rightarrow> 't app_store \<Rightarrow> (storage_error, nat \<times> 't app_store) result" where
  "gc_metrics db now retain_days s =
     (let cutoff_ts = now - ucast retain_days * 86400 in
      try_then (remove_where db (\<lambda>k. metric_key_ts k < cutoff_ts) (st_metrics s)) (\<lambda>(n, t).
        Ok (n, s\<lparr>st_metrics := t\<rparr>)))"

section \<open>Undeploy markers\<close>

definition undeploy_key :: "string \<Rightarrow> string" where
  "undeploy_key app_name = ''_undeploy:'' @ app_name"

definition mark_undeployed ::
  "'t redb \<Rightarrow> u64 \<Rightarrow> string \<Rightarrow> 't app_store \<Rightarrow> (storage_error, 't app_store) result" where
  "mark_undeployed db now app_name s =
     try_then (raw_put db (undeploy_key app_name) (show_nat (unat now)) (st_schema_meta s)) (\<lambda>t.
       Ok (s\<lparr>st_schema_meta := t\<rparr>))"

text \<open>A removal whose error is ignored (\<open>table.remove(..).ok()\<close>).\<close>

definition remove_ok :: "'t redb \<Rightarrow> string \<Rightarrow> 't \<Rightarrow> 't" where
  "remove_ok db key t = (case rd_remove db key t of Inl _ \<Rightarrow> t | Inr t' \<Rightarrow> t')"

definition clear_marker :: "'t redb \<Rightarrow> string \<Rightarrow> 't app_store \<Rightarrow> (storage_error, 't app_store) result" where
  "clear_marker db app_name s =
     try_then (storage_source (rd_begin_write db (st_schema_meta s))) (\<lambda>tx.
     try_then (storage_source (rd_open_table db tx)) (\<lambda>table.
     try_then (storage_source (rd_commit db (remove_ok db (undeploy_key app_name) table))) (\<lambda>t.
       Ok (s\<lparr>st_schema_meta := t\<rparr>))))"

definition mark_deployed :: "'t redb \<Rightarrow> string \<Rightarrow> 't app_store \<Rightarrow> (storage_error, 't app_store) result" where
  "mark_deployed db app_name s = clear_marker db app_name s"

definition is_undeployed :: "'t redb \<Rightarrow> string \<Rightarrow> 't app_store \<Rightarrow> (storage_error, bool) result" where
  "is_undeployed db app_name s =
     try_then (raw_get db (undeploy_key app_name) (st_schema_meta s)) (\<lambda>marker. Ok (marker \<noteq> None))"

fun keep_deployed :: "'t redb \<Rightarrow> 't app_store \<Rightarrow> app_id list \<Rightarrow> (storage_error, app_id list) result" where
  "keep_deployed db s [] = Ok []"
| "keep_deployed db s (app # apps) =
     try_then (is_undeployed db (app_id_as_str app) s) (\<lambda>gone.
     try_then (keep_deployed db s apps) (\<lambda>rest. Ok (if gone then rest else app # rest)))"

definition list_deployed_apps :: "'t redb \<Rightarrow> 't app_store \<Rightarrow> (storage_error, app_id list) result" where
  "list_deployed_apps db s = try_then (list_apps db s) (keep_deployed db s)"

section \<open>Purging undeployed applications\<close>

text \<open>The sweep of one table: the readable keys with the prefix, each removal's error ignored.\<close>

definition purge_prefix :: "'t redb \<Rightarrow> string \<Rightarrow> 't \<Rightarrow> (storage_error, 't) result" where
  "purge_prefix db pfx t =
     try_then (storage_source (rd_begin_write db t)) (\<lambda>tx.
     try_then (storage_source (rd_open_table db tx)) (\<lambda>table.
     try_then (storage_source (rd_readable db table)) (\<lambda>kvs.
     let keys = filter (\<lambda>k. starts_with k pfx) (map fst kvs) in
     storage_source (rd_commit db (fold (remove_ok db) keys table)))))"

definition list_routes_for_app ::
  "'t redb \<Rightarrow> route serde \<Rightarrow> string \<Rightarrow> 't app_store \<Rightarrow> (storage_error, route list) result" where
  "list_routes_for_app db js app_name s =
     try_then (store_list_routes db js (st_routes s)) (\<lambda>routes.
       Ok (filter (\<lambda>r. app_id_as_str (route_app_id r) = app_name) routes))"

definition delete_route_of :: "'t redb \<Rightarrow> route \<Rightarrow> 't app_store \<Rightarrow> (storage_error, 't app_store) result" where
  "delete_route_of db r s =
     try_then (delete_route db (route_host r) (st_routes s)) (\<lambda>t. Ok (s\<lparr>st_routes := t\<rparr>))"

definition purge_app_state ::
  "'t redb \<Rightarrow> route serde \<Rightarrow> string \<Rightarrow> 't app_store \<Rightarrow> (storage_error, unit) result \<times> 't app_store" where
  "purge_app_state db js app_name =
     (let pfx = app_name @ '':'' in
      store_then (on_store (\<lambda>s. try_then (purge_prefix db pfx (st_artifacts s)) (\<lambda>t. Ok (s\<lparr>st_artifacts := t\<rparr>)))) (\<lambda>_.
      store_then (on_store (\<lambda>s. try_then (purge_prefix db pfx (st_raw_wasm s)) (\<lambda>t. Ok (s\<lparr>st_raw_wasm := t\<rparr>)))) (\<lambda>_.
      store_then (on_store (\<lambda>s. try_then (purge_prefix db pfx (st_configs s)) (\<lambda>t. Ok (s\<lparr>st_configs := t\<rparr>)))) (\<lambda>_.
      store_then (on_store (\<lambda>s. try_then (purge_prefix db pfx (st_metrics s)) (\<lambda>t. Ok (s\<lparr>st_metrics := t\<rparr>)))) (\<lambda>_.
      store_then (\<lambda>s. (list_routes_for_app db js app_name s, s)) (\<lambda>routes.
      store_then (for_each (\<lambda>r. on_store (delete_route_of db r)) routes) (\<lambda>_.
      on_store (clear_marker db app_name))))))))"

definition expired_app :: "u64 \<Rightarrow> u64 \<Rightarrow> string \<times> string \<Rightarrow> string option" where
  "expired_app now grace_secs = (\<lambda>(key, v).
     (case strip_prefix ''_undeploy:'' key of
        None \<Rightarrow> None
      | Some app_name \<Rightarrow>
          let ts = of_nat (unwrap_or (parse_uint (2 ^ 64) v) 0) :: u64
          in if grace_secs < now - ts then Some app_name else None))"

definition gc_undeployed_apps ::
  "'t redb \<Rightarrow> route serde \<Rightarrow> u64 \<Rightarrow> u64 \<Rightarrow> 't app_store \<Rightarrow> (storage_error, nat) result \<times> 't app_store" where
  "gc_undeployed_apps db js now grace_secs s =
     (case raw_readable db (st_schema_meta s) of
        Inl e \<Rightarrow> (Inl e, s)
      | Inr kvs \<Rightarrow>
          let expired = List.map_filter (expired_app now grace_secs) kvs
          in store_then (for_each (purge_app_state db js) expired) (\<lambda>_ s'. (Ok (length expired), s')) s)"

section \<open>One tick of the collection loop\<close>

record gc_config =
  gcc_artifact_keep_versions :: nat
  gcc_metrics_retain_days :: u32
  gcc_undeploy_grace_secs :: u64
  gcc_gc_interval_secs :: u64
  gcc_disk_warning_threshold :: f64

text \<open>A step that fails is logged; the next one runs on the store as it is left.\<close>

definition gc_tick ::
  "'t redb \<Rightarrow> route serde \<Rightarrow> gc_config \<Rightarrow> u64 \<Rightarrow> u64 \<Rightarrow> 't app_store \<Rightarrow> 't app_store" where
  "gc_tick db js cfg now1 now2 s =
     (let s1 = snd (gc_artifacts db (gcc_artifact_keep_versions cfg) s);
          s2 = (case gc_metrics db now1 (gcc_metrics_retain_days cfg) s1 of Inl _ \<Rightarrow> s1 | Inr (_, s') \<Rightarrow> s')
      in snd (gc_undeployed_apps db js now2 (gcc_undeploy_grace_secs cfg) s2))"

section \<open>Removals as changes of a map\<close>

text \<open>The sweeps remove only keys that match; where no operation fails, all of them.\<close>

lemma remove_keys_view:
  assumes "redb_contract db view" and "remove_keys db ks t = Inr t'"
  shows "view t' = (\<lambda>k. if k \<in> set ks then None else view t k)"
  using assms(2)
proof (induction ks arbitrary: t)
  case (Cons key ks)
  then obtain t1 where t1: "rd_remove db key t = Inr t1" "remove_keys db ks t1 = Inr t'"
    by (auto simp: try_then_Ok_iff)
  moreover have "view t1 = (view t)(key := None)"
    using assms(1) t1(1) unfolding redb_contract_def by metis
  ultimately show ?case using Cons.IH by (auto simp: fun_eq_iff)
qed simp

lemma remove_where_view:
  assumes "redb_contract db view" and "remove_where db P t = Inr (n, t')"
  shows "view t' k = view t k \<or> P k \<and> view t' k = None"
    and "redb_total db \<Longrightarrow> view t' = (\<lambda>k. if P k then None else view t k)"
proof -
  obtain tx table kvs table' where st: "rd_begin_write db t = Inr tx" "rd_open_table db tx = Inr table"
      "rd_readable db table = Inr kvs" "remove_keys db (filter P (map fst kvs)) table = Inr table'"
      "rd_commit db table' = Inr t'"
    using assms(2) by (auto simp: remove_where_def Let_def try_then_Ok_iff)
  have views: "view table = view t" "view t' = view table'"
    using assms(1) st(1,2,5) unfolding redb_contract_def by metis+
  have eq: "view t' = (\<lambda>k. if P k \<and> k \<in> set (map fst kvs) then None else view t k)"
    using remove_keys_view [OF assms(1) st(4)] views by auto
  then show "view t' k = view t k \<or> P k \<and> view t' k = None" by auto
  show "view t' = (\<lambda>k. if P k then None else view t k)" if tot: "redb_total db"
  proof -
    obtain kvs' where it: "rd_iter db table = Inr kvs'"
      using tot unfolding redb_total_def by blast
    with rd_iter_readable st(3) have "kvs' = kvs" by fastforce
    then have "map_of kvs = view t"
      using redb_iter(1) [OF assms(1) it] views by simp
    then have "view t k = None" if "k \<notin> set (map fst kvs)" for k
      using that by (metis list.set_map map_of_eq_None_iff)
    with eq show ?thesis by auto
  qed
qed

lemma fold_remove_ok_view:
  assumes "redb_contract db view"
  shows "view (fold (remove_ok db) ks t) k = view t k \<or> k \<in> set ks \<and> view (fold (remove_ok db) ks t) k = None"
    and "redb_total db \<Longrightarrow>
      view (fold (remove_ok db) ks t) k = (if k \<in> set ks then None else view t k)"
proof -
  have one: "view (remove_ok db key t) = view t \<or> view (remove_ok db key t) = (view t)(key := None)" for key t
    using assms unfolding redb_contract_def remove_ok_def by (auto split: sum.splits)
  show "view (fold (remove_ok db) ks t) k = view t k \<or> k \<in> set ks \<and> view (fold (remove_ok db) ks t) k = None"
  proof (induction ks arbitrary: t)
    case (Cons key ks)
    from Cons.IH [of "remove_ok db key t"] one [of key t] show ?case
      by (auto split: if_splits)
  qed simp
  show "view (fold (remove_ok db) ks t) k = (if k \<in> set ks then None else view t k)" if tot: "redb_total db"
  proof -
    have "view (remove_ok db key t) = (view t)(key := None)" for key t
      using assms tot unfolding redb_contract_def redb_total_def remove_ok_def by (metis sum.simps(6))
    then show ?thesis by (induction ks arbitrary: t) auto
  qed
qed

lemma purge_prefix_view:
  assumes "redb_contract db view" and "purge_prefix db pfx t = Inr t'"
  shows "view t' k = view t k \<or> starts_with k pfx \<and> view t' k = None"
    and "redb_total db \<Longrightarrow> view t' k = (if starts_with k pfx then None else view t k)"
proof -
  obtain tx table kvs where st: "rd_begin_write db t = Inr tx" "rd_open_table db tx = Inr table"
      "rd_readable db table = Inr kvs"
      "rd_commit db (fold (remove_ok db) (filter (\<lambda>k. starts_with k pfx) (map fst kvs)) table) = Inr t'"
    using assms(2) by (auto simp: purge_prefix_def Let_def try_then_Ok_iff)
  let ?ks = "filter (\<lambda>k. starts_with k pfx) (map fst kvs)"
  have views: "view table = view t" "view t' = view (fold (remove_ok db) ?ks table)"
    using assms(1) st(1,2,4) unfolding redb_contract_def by metis+
  show "view t' k = view t k \<or> starts_with k pfx \<and> view t' k = None"
    using fold_remove_ok_view(1) [OF assms(1), of ?ks table k] views by auto
  show "view t' k = (if starts_with k pfx then None else view t k)" if tot: "redb_total db"
  proof -
    obtain kvs' where it: "rd_iter db table = Inr kvs'"
      using tot unfolding redb_total_def by blast
    with rd_iter_readable st(3) have "kvs' = kvs" by fastforce
    then have "map_of kvs = view t"
      using redb_iter(1) [OF assms(1) it] views by simp
    then have "view t k = None" if "k \<notin> set (map fst kvs)"
      using that by (metis list.set_map map_of_eq_None_iff)
    then show ?thesis
      using fold_remove_ok_view(2) [OF assms(1) tot, of ?ks table k] views by auto
  qed
qed

lemma clear_marker_view:
  assumes "redb_contract db view" and "clear_marker db app s = Inr s'"
  shows "view (st_schema_meta s') k = view (st_schema_meta s) k \<or> k = undeploy_key app \<and> view (st_schema_meta s') k = None"
    and "redb_total db \<Longrightarrow> view (st_schema_meta s') = (view (st_schema_meta s))(undeploy_key app := None)"
    and "\<exists>t. s' = s\<lparr>st_schema_meta := t\<rparr>"
proof -
  obtain tx table t where st: "rd_begin_write db (st_schema_meta s) = Inr tx" "rd_open_table db tx = Inr table"
      "rd_commit db (remove_ok db (undeploy_key app) table) = Inr t" "s' = s\<lparr>st_schema_meta := t\<rparr>"
    using assms(2) by (auto simp: clear_marker_def try_then_Ok_iff)
  have views: "view table = view (st_schema_meta s)" "view t = view (fold (remove_ok db) [undeploy_key app] table)"
    using assms(1) st(1-3) unfolding redb_contract_def by (metis, metis fold_simps(1,2))
  show "view (st_schema_meta s') k = view (st_schema_meta s) k \<or> k = undeploy_key app \<and> view (st_schema_meta s') k = None"
    using fold_remove_ok_view(1) [OF assms(1), of "[undeploy_key app]" table k] views st(4) by auto
  show "view (st_schema_meta s') = (view (st_schema_meta s))(undeploy_key app := None)" if "redb_total db"
    using fold_remove_ok_view(2) [OF assms(1) that, of "[undeploy_key app]" table] views st(4) by auto
  show "\<exists>t. s' = s\<lparr>st_schema_meta := t\<rparr>" using st(4) by blast
qed

section \<open>The inventory\<close>

abbreviation entry_of :: "string \<Rightarrow> version_entry" where
  "entry_of key \<equiv> \<lparr> ve_key = key, ve_app_name = fst (the (rsplit_once (CHR '':'') key)),
     ve_version = snd (the (rsplit_once (CHR '':'') key)) \<rparr>"

abbreviation belongs_to :: "string \<Rightarrow> string \<Rightarrow> bool" where
  "belongs_to app key \<equiv> \<exists>v. rsplit_once (CHR '':'') key = Some (app, v)"

lemma inventory_add_get:
  "unwrap_or (hm_get (inventory_add key acc) app) [] =
     unwrap_or (hm_get acc app) [] @ (if belongs_to app key then [entry_of key] else [])"
  by (cases "rsplit_once (CHR '':'') key") (auto simp: inventory_add_def hm_simps)

lemma inventory_fold_get:
  "unwrap_or (hm_get (fold inventory_add keys acc) app) [] =
     unwrap_or (hm_get acc app) [] @ map entry_of (filter (belongs_to app) keys)"
  by (induction keys arbitrary: acc) (auto simp: inventory_add_get)

lemma inventory_fold_wf: "hm_wf acc \<Longrightarrow> hm_wf (fold inventory_add keys acc)"
  by (induction keys arbitrary: acc) (auto simp: inventory_add_def split: option.splits)

lemma inventory_entry:
  assumes "(app, versions) \<in> set (fold inventory_add keys [])"
  shows "versions = map entry_of (filter (belongs_to app) keys)"
proof -
  have "hm_get (fold inventory_add keys []) app = Some versions"
    using assms inventory_fold_wf [of "[]" keys] by (simp add: hm_get_def hm_wf_def)
  with inventory_fold_get [of keys "[]" app] show ?thesis
    by (simp add: hm_get_def)
qed

text \<open>The versions of an application in the order of the inventory.\<close>

definition sorted_versions :: "string list \<Rightarrow> string \<Rightarrow> version_entry list" where
  "sorted_versions keys app =
     sort_key (\<lambda>v. version_sort_key (ve_version v)) (map entry_of (filter (belongs_to app) keys))"

lemma sorted_versions_set:
  "e \<in> set (sorted_versions keys app) \<longleftrightarrow> (\<exists>k\<in>set keys. belongs_to app k \<and> e = entry_of k)"
  unfolding sorted_versions_def set_sort set_map set_filter by blast

lemma sorted_versions_distinct: "distinct keys \<Longrightarrow> distinct (sorted_versions keys app)"
  unfolding sorted_versions_def distinct_sort distinct_map by (simp add: inj_on_def)

lemma sorted_versions_order:
  assumes "x \<in> set (take n (sorted_versions keys app))" and "y \<in> set (drop n (sorted_versions keys app))"
  shows "version_sort_key (ve_version x) \<le> version_sort_key (ve_version y)"
proof -
  have "sorted_wrt (\<lambda>a b. version_sort_key (ve_version a) \<le> version_sort_key (ve_version b))
      (take n (sorted_versions keys app) @ drop n (sorted_versions keys app))"
    unfolding append_take_drop_id sorted_versions_def
    using sorted_sort_key [of "\<lambda>v. version_sort_key (ve_version v)"] by (simp add: sorted_map)
  with assms show ?thesis unfolding sorted_wrt_append by blast
qed

lemma inventory_versions_in:
  assumes "inventory_versions db s = Inr inventory" and "raw_entries db (st_artifacts s) = Inr kvs"
    and "(app, versions) \<in> set inventory"
  shows "versions = sorted_versions (map fst kvs) app"
proof -
  have "inventory = map (\<lambda>(app, vs). (app, sort_key (\<lambda>v. version_sort_key (ve_version v)) vs))
      (fold inventory_add (map fst kvs) [])"
    using assms(1,2) by (simp add: inventory_versions_def)
  with assms(3) obtain vs where "(app, vs) \<in> set (fold inventory_add (map fst kvs) [])"
      "versions = sort_key (\<lambda>v. version_sort_key (ve_version v)) vs"
    by auto
  then show ?thesis
    using inventory_entry by (simp only: sorted_versions_def)
qed

lemma gc_candidate_in:
  assumes "inventory_versions db s = Inr inventory" and "raw_entries db (st_artifacts s) = Inr kvs"
    and "e \<in> set (gc_candidates keep inventory)"
  obtains app v key where "rsplit_once (CHR '':'') key = Some (app, v)"
    and "e = entry_of key" and "key \<in> set (map fst kvs)"
    and "keep < length (sorted_versions (map fst kvs) app)"
    and "e \<in> set (take (length (sorted_versions (map fst kvs) app) - keep) (sorted_versions (map fst kvs) app))"
proof -
  obtain app versions where av: "(app, versions) \<in> set inventory" "keep < length versions"
      "e \<in> set (take (length versions - keep) versions)"
    using assms(3) by (auto simp: gc_candidates_def split: if_splits)
  note vs = inventory_versions_in [OF assms(1,2) av(1)]
  from in_set_takeD [OF av(3)] have "e \<in> set (sorted_versions (map fst kvs) app)"
    by (simp only: vs)
  then obtain key v where "key \<in> set (map fst kvs)" "rsplit_once (CHR '':'') key = Some (app, v)" "e = entry_of key"
    unfolding sorted_versions_set by blast
  with that av(2,3) show ?thesis unfolding vs by blast
qed

text \<open>
  A candidate is an artifact with a version, and \<open>keep\<close> artifacts of its application that are at
  least as new are no candidates.
\<close>

lemma gc_candidate:
  assumes "inventory_versions db s = Inr inventory" and "raw_entries db (st_artifacts s) = Inr kvs"
    and "distinct (map fst kvs)" and "e \<in> set (gc_candidates keep inventory)"
  obtains app v kept where "rsplit_once (CHR '':'') (ve_key e) = Some (app, v)" and "ve_key e \<in> set (map fst kvs)"
    and "length kept = keep" and "distinct kept"
    and "\<And>k. k \<in> set kept \<Longrightarrow> k \<in> set (map fst kvs) \<and> k \<notin> ve_key ` set (gc_candidates keep inventory) \<and>
           (\<exists>v'. rsplit_once (CHR '':'') k = Some (app, v') \<and> version_sort_key v \<le> version_sort_key v')"
proof -
  let ?keys = "map fst kvs"
  obtain app v key where e: "rsplit_once (CHR '':'') key = Some (app, v)"
      "e = entry_of key" "key \<in> set ?keys" "keep < length (sorted_versions ?keys app)"
      "e \<in> set (take (length (sorted_versions ?keys app) - keep) (sorted_versions ?keys app))"
    by (rule gc_candidate_in [OF assms(1,2,4)])
  define vs where "vs = sorted_versions ?keys app"
  define n where "n = length vs - keep"
  have d: "distinct vs" using sorted_versions_distinct [OF assms(3)] by (simp add: vs_def)
  have kept: "k \<in> set ?keys \<and> k \<notin> ve_key ` set (gc_candidates keep inventory) \<and>
      (\<exists>v'. rsplit_once (CHR '':'') k = Some (app, v') \<and> version_sort_key v \<le> version_sort_key v')"
    if k: "k \<in> set (map ve_key (drop n vs))" for k
  proof -
    obtain x where x: "x \<in> set (drop n vs)" "k = ve_key x" using k by auto
    obtain k' v' where k': "k' \<in> set ?keys" "rsplit_once (CHR '':'') k' = Some (app, v')" "x = entry_of k'"
      using in_set_dropD [OF x(1)] unfolding vs_def sorted_versions_set by blast
    then have "k = k'" and ver: "ve_version e = v" "ve_version x = v'"
      using x(2) e(1,2) by simp_all
    have "version_sort_key (ve_version e) \<le> version_sort_key (ve_version x)"
      by (rule sorted_versions_order [OF e(5) x(1) [unfolded n_def vs_def]])
    moreover have "k \<notin> ve_key ` set (gc_candidates keep inventory)"
    proof
      assume "k \<in> ve_key ` set (gc_candidates keep inventory)"
      then obtain y where y: "y \<in> set (gc_candidates keep inventory)" "k = ve_key y" by blast
      obtain app' w key' where y': "rsplit_once (CHR '':'') key' = Some (app', w)" "y = entry_of key'"
          "y \<in> set (take (length (sorted_versions ?keys app') - keep) (sorted_versions ?keys app'))"
        by (rule gc_candidate_in [OF assms(1,2) y(1)])
      have "key' = k'" using y(2) y'(2) \<open>k = k'\<close> by simp
      then have "y = x" "app' = app" using k'(2,3) y'(1,2) by simp_all
      with y'(3) have "x \<in> set (take n vs)" by (simp add: n_def vs_def)
      with x(1) set_take_disj_set_drop_if_distinct [OF d, of n n] show False by blast
    qed
    ultimately show ?thesis using k'(1,2) ver \<open>k = k'\<close> by simp
  qed
  have len: "length (map ve_key (drop n vs)) = keep"
    using e(4) by (simp add: n_def vs_def)
  have "inj_on ve_key (set vs)"
    unfolding inj_on_def Ball_def vs_def sorted_versions_set Bex_def by (metis version_entry.select_convs(1))
  then have "inj_on ve_key (set (drop n vs))"
    by (rule inj_on_subset) (rule set_drop_subset)
  then have dis: "distinct (map ve_key (drop n vs))"
    using d by (simp add: distinct_map)
  have key: "ve_key e = key" using e(2) by simp
  have "rsplit_once (CHR '':'') (ve_key e) = Some (app, v)" "ve_key e \<in> set ?keys"
    unfolding key by (rule e(1), rule e(3))
  then show ?thesis by (rule that [OF _ _ len dis]) (rule kept)
qed

section \<open>Collection of artifact versions\<close>

lemma split_head_prefix:
  assumes "c \<in> set s"
  shows "prefix (hd (str_split c s) @ [c]) s"
  using assms by (induction s) (auto split: list.splits)

lemma key_app_prefix:
  assumes "rsplit_once (CHR '':'') key = Some (app, v)"
  shows "starts_with key (key_app key @ '':'')"
proof -
  have "CHR '':'' \<in> set key"
    using rsplit_once_SomeD [OF assms] by simp
  from split_head_prefix [OF this] show ?thesis
    by (cases "str_split (CHR '':'') key") (simp_all add: key_app_def starts_with_def)
qed

text \<open>Whether some configuration names the application of an artifact key.\<close>

definition app_configured :: "('t \<Rightarrow> string \<Rightarrow> string option) \<Rightarrow> 't app_store \<Rightarrow> string \<Rightarrow> bool" where
  "app_configured view s key \<longleftrightarrow>
     (\<exists>c. view (st_configs s) c \<noteq> None \<and> starts_with c (key_app key @ '':''))"

lemma has_active_instances_iff:
  assumes "redb_contract db view" and "has_active_instances db key s = Inr active"
  shows "active \<longleftrightarrow> app_configured view s key"
proof -
  obtain apps where apps: "list_apps db s = Inr apps"
      "active = list_ex (\<lambda>app. starts_with (app_id_as_str app) (key_app key @ '':'')) apps"
    using assms(2) by (auto simp: has_active_instances_def try_then_Ok_iff)
  have "active \<longleftrightarrow> (\<exists>c. AppId c \<in> set apps \<and> starts_with c (key_app key @ '':''))"
    unfolding apps(2) list_ex_iff by (metis app_id.exhaust app_id_as_str.simps)
  then show ?thesis
    using list_apps_stored [OF assms(1) apps(1)] by (auto simp: app_configured_def)
qed

text \<open>One step of the loop, as a change of the tables.\<close>

lemma gc_version_step:
  assumes db: "redb_contract db view" and e: "rsplit_once (CHR '':'') (ve_key e) = Some (app, v)"
    and step: "on_store (gc_version db e) (stats, s) = (r, (stats', s'))"
  shows "view (st_configs s') = view (st_configs s)"
    and "view (st_artifacts s') k = view (st_artifacts s) k \<or>
         k = ve_key e \<and> \<not> app_configured view s k \<and> view (st_artifacts s') k = None"
    and "view (st_raw_wasm s') k = view (st_raw_wasm s) k \<or> k = ve_key e \<and> view (st_raw_wasm s') k = None"
    and "st_metrics s' = st_metrics s \<and> st_routes s' = st_routes s \<and> st_schema_meta s' = st_schema_meta s \<and>
         st_artifact_hashes s' = st_artifact_hashes s \<and> st_artifact_verifications s' = st_artifact_verifications s"
proof -
  have unconf: "view (st_configs s) (ve_key e) = None" if "\<not> app_configured view s (ve_key e)"
    using that key_app_prefix [OF e] by (auto simp: app_configured_def)
  have "view (st_configs s') = view (st_configs s) \<and>
      (view (st_artifacts s') k = view (st_artifacts s) k \<or>
         k = ve_key e \<and> \<not> app_configured view s k \<and> view (st_artifacts s') k = None) \<and>
      (view (st_raw_wasm s') k = view (st_raw_wasm s) k \<or> k = ve_key e \<and> view (st_raw_wasm s') k = None) \<and>
      st_metrics s' = st_metrics s \<and> st_routes s' = st_routes s \<and> st_schema_meta s' = st_schema_meta s \<and>
      st_artifact_hashes s' = st_artifact_hashes s \<and> st_artifact_verifications s' = st_artifact_verifications s"
  proof (cases "gc_version db e (stats, s)")
    case (Inl err)
    with step show ?thesis by simp
  next
    case (Inr p)
    with step have p: "gc_version db e (stats, s) = Inr (stats', s')" by simp
    then obtain active where act: "has_active_instances db (ve_key e) s = Inr active"
      by (auto simp: gc_version_def try_then_Ok_iff)
    show ?thesis
    proof (cases active)
      case True
      with p act show ?thesis by (simp add: gc_version_def)
    next
      case False
      then have nc: "\<not> app_configured view s (ve_key e)"
        using has_active_instances_iff [OF db act] by simp
      obtain t1 where t1: "raw_remove db (ve_key e) (st_artifacts s) = Inr t1"
        using p act False by (auto simp: gc_version_def delete_artifact_by_key_def try_then_Ok_iff)
      note eqs = gc_version_def delete_artifact_by_key_def delete_raw_wasm_by_key_def delete_config_by_key_def Let_def
      have tabs: "(st_artifacts s' = t1 \<and> (st_raw_wasm s' = st_raw_wasm s \<or> raw_remove db (ve_key e) (st_raw_wasm s) = Inr (st_raw_wasm s')) \<and>
          (st_configs s' = st_configs s \<or> raw_remove db (ve_key e) (st_configs s) = Inr (st_configs s'))) \<and>
          st_metrics s' = st_metrics s \<and> st_routes s' = st_routes s \<and> st_schema_meta s' = st_schema_meta s \<and>
          st_artifact_hashes s' = st_artifact_hashes s \<and> st_artifact_verifications s' = st_artifact_verifications s"
        using p act False t1
        by (cases "raw_remove db (ve_key e) (st_raw_wasm s)"; cases "raw_remove db (ve_key e) (st_configs s)")
          (auto simp: eqs)
      have "view (st_artifacts s') = (view (st_artifacts s))(ve_key e := None)"
        using raw_remove_view [OF db t1] tabs by simp
      moreover have "view (st_configs s') = view (st_configs s)"
        using raw_remove_view [OF db, of "ve_key e" "st_configs s" "st_configs s'"] tabs unconf [OF nc]
        by (auto simp: fun_upd_idem)
      moreover have "view (st_raw_wasm s') = view (st_raw_wasm s) \<or>
          view (st_raw_wasm s') = (view (st_raw_wasm s))(ve_key e := None)"
        using raw_remove_view [OF db, of "ve_key e" "st_raw_wasm s" "st_raw_wasm s'"] tabs by auto
      ultimately show ?thesis
        using tabs nc by (auto simp: fun_upd_def split: if_splits)
    qed
  qed
  then show "view (st_configs s') = view (st_configs s)"
      "view (st_artifacts s') k = view (st_artifacts s) k \<or>
         k = ve_key e \<and> \<not> app_configured view s k \<and> view (st_artifacts s') k = None"
      "view (st_raw_wasm s') k = view (st_raw_wasm s) k \<or> k = ve_key e \<and> view (st_raw_wasm s') k = None"
      "st_metrics s' = st_metrics s \<and> st_routes s' = st_routes s \<and> st_schema_meta s' = st_schema_meta s \<and>
         st_artifact_hashes s' = st_artifact_hashes s \<and> st_artifact_verifications s' = st_artifact_verifications s"
    by blast+
qed

lemma gc_artifacts_loop:
  assumes db: "redb_contract db view"
    and cs: "\<And>e. e \<in> set cs \<Longrightarrow> \<exists>app v. rsplit_once (CHR '':'') (ve_key e) = Some (app, v)"
    and run: "for_each (\<lambda>e. on_store (gc_version db e)) cs (stats, s) = (r, (stats', s'))"
  shows "view (st_configs s') = view (st_configs s) \<and>
    (\<forall>k. view (st_artifacts s') k = view (st_artifacts s) k \<or>
       k \<in> ve_key ` set cs \<and> \<not> app_configured view s k \<and> view (st_artifacts s') k = None)"
proof -
  let ?P = "\<lambda>p. view (st_configs (snd p)) = view (st_configs s) \<and>
    (\<forall>k. view (st_artifacts (snd p)) k = view (st_artifacts s) k \<or>
       k \<in> ve_key ` set cs \<and> \<not> app_configured view s k \<and> view (st_artifacts (snd p)) k = None)"
  have "?P (stats', s')"
  proof (rule for_each_keeps [OF _ _ run])
    fix e p r p'
    assume e: "e \<in> set cs" and P: "?P p" and step: "on_store (gc_version db e) p = (r, p')"
    obtain st1 s1 st2 s2 where p: "p = (st1, s1)" "p' = (st2, s2)" by (cases p; cases p') auto
    obtain app v where "rsplit_once (CHR '':'') (ve_key e) = Some (app, v)" using cs [OF e] by blast
    note st = gc_version_step [OF db this step [unfolded p]]
    have same: "app_configured view s1 k \<longleftrightarrow> app_configured view s k" for k
      using P p by (simp add: app_configured_def)
    show "?P p'"
      using P st(1) st(2) same e p by (metis image_eqI snd_conv)
  qed simp
  then show ?thesis by simp
qed

text \<open>
  Collecting artifacts is safe, whether it succeeds or fails half way: the configurations stay as
  they are, and an artifact that disappears belongs to an application without any configuration, of
  which \<open>keep\<close> other versions, each at least as new, stay in the store.
\<close>

theorem gc_artifacts_safe:
  assumes "redb_contract db view"
    and "gc_artifacts db keep s = (r, s')"
    and "view (st_artifacts s) k \<noteq> None" and "view (st_artifacts s') k = None"
  shows "view (st_configs s') = view (st_configs s) \<and> \<not> app_configured view s k \<and>
    (\<exists>app v kept. rsplit_once (CHR '':'') k = Some (app, v) \<and> length kept = keep \<and> distinct kept \<and>
       (\<forall>k'\<in>set kept. view (st_artifacts s') k' \<noteq> None \<and>
          (\<exists>v'. rsplit_once (CHR '':'') k' = Some (app, v') \<and> version_sort_key v \<le> version_sort_key v')))"
proof -
  obtain inventory where inv: "inventory_versions db s = Inr inventory"
    using assms(2-4) by (auto simp: gc_artifacts_def split: sum.splits)
  then obtain kvs where kvs: "raw_entries db (st_artifacts s) = Inr kvs"
    by (auto simp: inventory_versions_def try_then_Ok_iff)
  note view = raw_entries_view [OF assms(1) kvs]
  let ?cs = "gc_candidates keep inventory"
  note cand = gc_candidate [OF inv kvs view(2)]
  obtain r1 stats where run: "for_each (\<lambda>e. on_store (gc_version db e)) ?cs (gc_stats_default, s) = (r1, (stats, s'))"
    using assms(2) inv by (auto simp: gc_artifacts_def split: sum.splits prod.splits)
  have "\<exists>app v. rsplit_once (CHR '':'') (ve_key e) = Some (app, v)" if "e \<in> set ?cs" for e
    using cand [OF that] by metis
  from gc_artifacts_loop [OF assms(1) this run] have loop: "view (st_configs s') = view (st_configs s)"
    "\<And>k. view (st_artifacts s') k = view (st_artifacts s) k \<or>
       k \<in> ve_key ` set ?cs \<and> \<not> app_configured view s k \<and> view (st_artifacts s') k = None" by blast+
  with assms(3,4) obtain e where e: "e \<in> set ?cs" "k = ve_key e" and nc: "\<not> app_configured view s k"
    by (metis imageE)
  obtain app v kept where w: "rsplit_once (CHR '':'') k = Some (app, v)" "length kept = keep" "distinct kept"
    "\<And>k. k \<in> set kept \<Longrightarrow> k \<in> set (map fst kvs) \<and> k \<notin> ve_key ` set ?cs \<and>
       (\<exists>v'. rsplit_once (CHR '':'') k = Some (app, v') \<and> version_sort_key v \<le> version_sort_key v')"
    using cand [OF e(1)] unfolding e(2) by metis
  have "view (st_artifacts s') k' \<noteq> None" if "k' \<in> set kept" for k'
  proof -
    have "map_of kvs k' \<noteq> None" using w(4) [OF that] by (simp add: map_of_eq_None_iff)
    with view(1) loop(2) [of k'] w(4) [OF that] show ?thesis by auto
  qed
  with w loop(1) nc show ?thesis by blast
qed

section \<open>Undeployed applications\<close>

lemma keep_deployed_set:
  assumes "redb_contract db view" and "keep_deployed db s apps = Inr rest"
  shows "app \<in> set rest \<longleftrightarrow> app \<in> set apps \<and> view (st_schema_meta s) (undeploy_key (app_id_as_str app)) = None"
  using assms(2)
proof (induction apps arbitrary: rest)
  case (Cons a apps)
  then obtain marker rest' where "raw_get db (undeploy_key (app_id_as_str a)) (st_schema_meta s) = Inr marker"
      "keep_deployed db s apps = Inr rest'" "rest = (if marker \<noteq> None then rest' else a # rest')"
    by (auto simp: is_undeployed_def try_then_Ok_iff)
  with Cons.IH raw_get_view [OF assms(1)] show ?case by auto
qed simp

text \<open>
  The deployed applications are exactly those with a configuration and without a marker.
\<close>

theorem list_deployed_apps_exact:
  assumes "redb_contract db view" and "list_deployed_apps db s = Inr apps"
  shows "AppId k \<in> set apps \<longleftrightarrow>
    view (st_configs s) k \<noteq> None \<and> view (st_schema_meta s) (undeploy_key k) = None"
proof -
  obtain all where "list_apps db s = Inr all" "keep_deployed db s all = Inr apps"
    using assms(2) by (auto simp: list_deployed_apps_def try_then_Ok_iff)
  with list_apps_stored [OF assms(1)] keep_deployed_set [OF assms(1)] show ?thesis by fastforce
qed

lemma list_deployed_apps_total:
  assumes "redb_total db"
  shows "\<exists>apps. list_deployed_apps db s = Inr apps"
proof -
  have "\<exists>rest. keep_deployed db s apps = Inr rest" for apps
    by (induction apps) (auto simp: is_undeployed_def, metis raw_reads_total(1) [OF assms] try_then.simps(2))
  moreover have "\<exists>apps. list_apps db s = Inr apps"
    unfolding list_apps_def by (metis raw_reads_total(2) [OF assms] try_then.simps(2))
  ultimately show ?thesis
    unfolding list_deployed_apps_def by (metis try_then.simps(2))
qed

text \<open>What a purge of an application may change, and what it leaves alone.\<close>

definition swept :: "('t \<Rightarrow> string \<Rightarrow> string option) \<Rightarrow> (string \<Rightarrow> bool) \<Rightarrow> 't \<Rightarrow> 't \<Rightarrow> bool" where
  "swept view P t t' \<longleftrightarrow> (\<forall>k. view t' k = view t k \<or> P k \<and> view t' k = None)"

lemma swept_refl [simp]: "swept view P t t"
  by (simp add: swept_def)

lemma swept_trans: "swept view P t1 t2 \<Longrightarrow> swept view P t2 t3 \<Longrightarrow> swept view P t1 t3"
  unfolding swept_def by metis

lemma swept_mono: "swept view P t t' \<Longrightarrow> (\<And>k. P k \<Longrightarrow> Q k) \<Longrightarrow> swept view Q t t'"
  unfolding swept_def by metis

definition purged_of ::
  "('t \<Rightarrow> string \<Rightarrow> string option) \<Rightarrow> string set \<Rightarrow> 't app_store \<Rightarrow> 't app_store \<Rightarrow> bool" where
  "purged_of view names s s' \<longleftrightarrow>
     (let P = (\<lambda>k. \<exists>m\<in>names. starts_with k (m @ '':'')) in
      swept view P (st_artifacts s) (st_artifacts s') \<and> swept view P (st_raw_wasm s) (st_raw_wasm s') \<and>
      swept view P (st_configs s) (st_configs s') \<and> swept view P (st_metrics s) (st_metrics s') \<and>
      swept view (\<lambda>k. k \<in> undeploy_key ` names) (st_schema_meta s) (st_schema_meta s') \<and>
      st_artifact_hashes s' = st_artifact_hashes s \<and> st_artifact_verifications s' = st_artifact_verifications s)"

lemma purged_of_refl [simp]: "purged_of view names s s"
  by (simp add: purged_of_def Let_def)

lemma purged_of_trans: "purged_of view names s1 s2 \<Longrightarrow> purged_of view names s2 s3 \<Longrightarrow> purged_of view names s1 s3"
  by (simp add: purged_of_def Let_def) (meson swept_trans)

lemma purged_of_mono: "purged_of view {m} s s' \<Longrightarrow> m \<in> names \<Longrightarrow> purged_of view names s s'"
  by (auto simp: purged_of_def Let_def intro: swept_mono)

text \<open>The five stages of a purge that come before the marker.\<close>

definition purge_tables ::
  "'t redb \<Rightarrow> route serde \<Rightarrow> string \<Rightarrow> ('t app_store \<Rightarrow> (storage_error, unit) result \<times> 't app_store) list" where
  "purge_tables db js app =
     (let pfx = app @ '':'' in
      [on_store (\<lambda>s. try_then (purge_prefix db pfx (st_artifacts s)) (\<lambda>t. Ok (s\<lparr>st_artifacts := t\<rparr>))),
       on_store (\<lambda>s. try_then (purge_prefix db pfx (st_raw_wasm s)) (\<lambda>t. Ok (s\<lparr>st_raw_wasm := t\<rparr>))),
       on_store (\<lambda>s. try_then (purge_prefix db pfx (st_configs s)) (\<lambda>t. Ok (s\<lparr>st_configs := t\<rparr>))),
       on_store (\<lambda>s. try_then (purge_prefix db pfx (st_metrics s)) (\<lambda>t. Ok (s\<lparr>st_metrics := t\<rparr>))),
       store_then (\<lambda>s. (list_routes_for_app db js app s, s)) (for_each (\<lambda>r. on_store (delete_route_of db r)))])"

lemma for_each_Cons_fun: "for_each f (k # ks) = store_then (f k) (\<lambda>_. for_each f ks)"
  by (rule ext) simp

lemma store_then_assoc: "store_then (store_then m f) g = store_then m (\<lambda>x. store_then (f x) g)"
  by (rule ext) (auto simp: store_then_def split: prod.splits sum.splits)

lemma store_then_unit: "store_then m (\<lambda>_ s. (Ok (), s)) = (m :: 's \<Rightarrow> ('e, unit) result \<times> 's)"
  by (rule ext) (auto simp: store_then_def split: prod.splits sum.splits)

lemma purge_app_state_stages:
  "purge_app_state db js app = store_then (for_each id (purge_tables db js app)) (\<lambda>_. on_store (clear_marker db app))"
proof -
  have [simp]: "for_each id [] = (\<lambda>s. (Ok (), s))" by (rule ext) simp
  show ?thesis
    by (simp add: purge_app_state_def purge_tables_def Let_def for_each_Cons_fun store_then_assoc store_then_unit)
qed

lemma purge_stage:
  assumes db: "redb_contract db view" and "m \<in> set (purge_tables db js app)" and "m s = (r, s')"
  shows "purged_of view {app} s s' \<and> st_schema_meta s' = st_schema_meta s"
proof -
  have sw: "swept view (\<lambda>k. starts_with k (app @ '':'')) t t'" if "purge_prefix db (app @ '':'') t = Inr t'" for t t'
    using purge_prefix_view(1) [OF db that] by (auto simp: swept_def)
  have "purged_of view {app} s s' \<and> st_schema_meta s' = st_schema_meta s"
    if "on_store (\<lambda>s. try_then (purge_prefix db (app @ '':'') (get s)) (\<lambda>t. Ok (put t s))) s = (r, s')"
      and "\<And>t. swept view (\<lambda>k. starts_with k (app @ '':'')) (get s) t \<Longrightarrow>
         purged_of view {app} s (put t s) \<and> st_schema_meta (put t s) = st_schema_meta s" for get put
    by (rule on_store_keeps [OF that(1)]) (auto simp: try_then_Ok_iff dest!: sw that(2))
  note stage = this
  have routes: "for_each (\<lambda>r. on_store (delete_route_of db r)) rs s = (r, s') \<Longrightarrow> \<exists>t. s' = s\<lparr>st_routes := t\<rparr>" for rs r s'
    by (rule for_each_keeps [where P = "\<lambda>s'. \<exists>t. s' = s\<lparr>st_routes := t\<rparr>"])
      (auto simp: delete_route_of_def on_store_def try_then_Ok_iff split: sum.splits intro: exI [of _ "st_routes s"])
  have last: "\<exists>t. s' = s\<lparr>st_routes := t\<rparr>"
    if "store_then (\<lambda>s. (list_routes_for_app db js app s, s)) (for_each (\<lambda>r. on_store (delete_route_of db r))) s = (r, s')"
    using that routes by (cases "list_routes_for_app db js app s") (auto intro: exI [of _ "st_routes s"])
  from assms(2,3) consider
      "on_store (\<lambda>s. try_then (purge_prefix db (app @ '':'') (st_artifacts s)) (\<lambda>t. Ok (s\<lparr>st_artifacts := t\<rparr>))) s = (r, s')"
    | "on_store (\<lambda>s. try_then (purge_prefix db (app @ '':'') (st_raw_wasm s)) (\<lambda>t. Ok (s\<lparr>st_raw_wasm := t\<rparr>))) s = (r, s')"
    | "on_store (\<lambda>s. try_then (purge_prefix db (app @ '':'') (st_configs s)) (\<lambda>t. Ok (s\<lparr>st_configs := t\<rparr>))) s = (r, s')"
    | "on_store (\<lambda>s. try_then (purge_prefix db (app @ '':'') (st_metrics s)) (\<lambda>t. Ok (s\<lparr>st_metrics := t\<rparr>))) s = (r, s')"
    | "\<exists>t. s' = s\<lparr>st_routes := t\<rparr>"
    using last by (auto simp: purge_tables_def Let_def)
  then show ?thesis
  proof cases
    case 1 then show ?thesis by (rule stage) (simp add: purged_of_def)
  next
    case 2 then show ?thesis by (rule stage) (simp add: purged_of_def)
  next
    case 3 then show ?thesis by (rule stage) (simp add: purged_of_def)
  next
    case 4 then show ?thesis by (rule stage) (simp add: purged_of_def)
  next
    case 5 then show ?thesis by (auto simp: purged_of_def)
  qed
qed

lemma purge_tables_run:
  assumes "redb_contract db view" and "for_each id (purge_tables db js app) s = (r, s')"
  shows "purged_of view {app} s s' \<and> st_schema_meta s' = st_schema_meta s"
proof (rule for_each_keeps [OF _ _ assms(2)])
  fix m s1 r1 s2
  assume "m \<in> set (purge_tables db js app)" and "purged_of view {app} s s1 \<and> st_schema_meta s1 = st_schema_meta s"
    and "id m s1 = (r1, s2)"
  with purge_stage [OF assms(1)] show "purged_of view {app} s s2 \<and> st_schema_meta s2 = st_schema_meta s"
    by (metis id_apply purged_of_trans)
qed simp

lemma purge_app_state_frame:
  assumes "redb_contract db view" and "purge_app_state db js app s = (r, s')"
  shows "purged_of view {app} s s'"
    and "redb_total db \<Longrightarrow> r = Inr () \<Longrightarrow> view (st_schema_meta s') (undeploy_key app) = None"
proof -
  have marker: "purged_of view {app} s1 s2" if "clear_marker db app s1 = Inr s2" for s1 s2
    using clear_marker_view(1,3) [OF assms(1) that] by (auto simp: purged_of_def Let_def swept_def)
  obtain r1 s1 where run: "for_each id (purge_tables db js app) s = (r1, s1)" by fastforce
  note tables = purge_tables_run [OF assms(1) run]
  show "purged_of view {app} s s'"
  proof (cases r1)
    case (Inl e)
    with run assms(2) tables show ?thesis by (simp add: purge_app_state_stages)
  next
    case (Inr u)
    with run assms(2) have "on_store (clear_marker db app) s1 = (r, s')"
      by (simp add: purge_app_state_stages)
    then show ?thesis
      by (rule on_store_keeps) (use tables marker purged_of_trans in blast)+
  qed
  show "view (st_schema_meta s') (undeploy_key app) = None" if tot: "redb_total db" and ok: "r = Inr ()"
  proof -
    from assms(2) have "clear_marker db app s1 = Inr s'"
      unfolding ok purge_app_state_stages by (rule store_then_OkE) (use run on_store_OkE in fastforce)
    from clear_marker_view(2) [OF assms(1) this tot] show ?thesis by simp
  qed
qed

lemma set_map_filter_iff: "y \<in> set (List.map_filter f xs) \<longleftrightarrow> (\<exists>x\<in>set xs. f x = Some y)"
  by (induction xs) (auto simp: List.map_filter_simps split: option.splits)

lemma expired_app_Some:
  "expired_app now grace (key, v) = Some app \<longleftrightarrow>
     key = undeploy_key app \<and> grace < now - of_nat (unwrap_or (parse_uint (2 ^ 64) v) 0)"
  by (auto simp: expired_app_def undeploy_key_def strip_prefix_def prefix_def Let_def split: if_splits)

lemma gc_undeployed_run:
  assumes "redb_contract db view" and "for_each (purge_app_state db js) names s = (r, s')"
  shows "purged_of view (set names) s s'"
    and "redb_total db \<Longrightarrow> r = Inr () \<Longrightarrow> app \<in> set names \<Longrightarrow> view (st_schema_meta s') (undeploy_key app) = None"
proof -
  have frame: "purged_of view (set ns) s1 s2" if "for_each (purge_app_state db js) ns s1 = (r, s2)" for ns s1 s2 r
  proof (rule for_each_keeps [OF _ _ that])
    fix m sa ra sb
    assume "m \<in> set ns" "purged_of view (set ns) s1 sa" "purge_app_state db js m sa = (ra, sb)"
    with purge_app_state_frame(1) [OF assms(1)] show "purged_of view (set ns) s1 sb"
      by (meson purged_of_mono purged_of_trans)
  qed simp
  from frame [OF assms(2)] show "purged_of view (set names) s s'" .
  show "view (st_schema_meta s') (undeploy_key app) = None"
    if tot: "redb_total db" and ok: "r = Inr ()" and "app \<in> set names"
    using assms(2) that(3)
  proof (induction names arbitrary: s)
    case (Cons m ms)
    from Cons.prems(1) obtain s1 where s1: "purge_app_state db js m s = (Inr (), s1)"
        "for_each (purge_app_state db js) ms s1 = (r, s')"
      unfolding ok for_each.simps by (auto elim!: store_then_OkE)
    show ?case
    proof (cases "app \<in> set ms")
      case False
      with Cons.prems(2) have "view (st_schema_meta s1) (undeploy_key app) = None"
        using purge_app_state_frame(2) [OF assms(1) s1(1) tot] by simp
      with frame [OF s1(2)] show ?thesis
        unfolding purged_of_def Let_def swept_def by metis
    qed (use Cons.IH s1(2) in blast)
  qed simp
qed

text \<open>The applications whose marker has outlived the grace period.\<close>

definition marker_expired ::
  "('t \<Rightarrow> string \<Rightarrow> string option) \<Rightarrow> u64 \<Rightarrow> u64 \<Rightarrow> 't app_store \<Rightarrow> string \<Rightarrow> bool" where
  "marker_expired view now grace s app \<longleftrightarrow>
     (case view (st_schema_meta s) (undeploy_key app) of
        None \<Rightarrow> False
      | Some v \<Rightarrow> grace < now - of_nat (unwrap_or (parse_uint (2 ^ 64) v) 0))"

lemma gc_undeployed_apps_frame:
  assumes "redb_contract db view" and "gc_undeployed_apps db js now grace s = (r, s')"
  shows "purged_of view {m. marker_expired view now grace s m} s s'"
    and "redb_total db \<Longrightarrow> r = Inr n \<Longrightarrow> marker_expired view now grace s app \<Longrightarrow>
      view (st_schema_meta s') (undeploy_key app) = None"
proof -
  have "purged_of view {m. marker_expired view now grace s m} s s' \<and>
    (redb_total db \<longrightarrow> r = Inr n \<longrightarrow> marker_expired view now grace s app \<longrightarrow>
      view (st_schema_meta s') (undeploy_key app) = None)"
  proof (cases "raw_readable db (st_schema_meta s)")
    case (Inl e)
    with assms(2) show ?thesis by (auto simp: gc_undeployed_apps_def)
  next
    case (Inr kvs)
    let ?names = "List.map_filter (expired_app now grace) kvs"
    obtain r1 s1 where run: "for_each (purge_app_state db js) ?names s = (r1, s1)" by fastforce
    with assms(2) Inr have s1: "s1 = s'" and r1: "r = Inr n \<Longrightarrow> r1 = Inr ()"
      by (cases r1; simp add: gc_undeployed_apps_def Let_def)+
    have names: "marker_expired view now grace s m" if mem: "m \<in> set ?names" for m
    proof -
      obtain key v where "(key, v) \<in> set kvs" "expired_app now grace (key, v) = Some m"
        using mem by (auto simp: set_map_filter_iff)
      moreover from this(1) have "map_of kvs key = Some v"
        using raw_readable_view(2) [OF assms(1) Inr] by simp
      then have "view (st_schema_meta s) key = Some v"
        using raw_readable_view(1) [OF assms(1) Inr] by (metis domI map_le_def)
      ultimately show ?thesis by (simp add: marker_expired_def expired_app_Some)
    qed
    have all: "m \<in> set ?names" if tot: "redb_total db" and exp: "marker_expired view now grace s m" for m
    proof -
      obtain v where v: "view (st_schema_meta s) (undeploy_key m) = Some v"
          "expired_app now grace (undeploy_key m, v) = Some m"
        using exp by (auto simp: marker_expired_def expired_app_Some split: option.splits)
      then have "map_of kvs (undeploy_key m) = Some v"
        using raw_readable_total [OF assms(1) tot Inr] by simp
      then show ?thesis
        using v(2) by (auto simp: set_map_filter_iff dest!: map_of_SomeD)
    qed
    have "purged_of view {m. marker_expired view now grace s m} s s'"
      using gc_undeployed_run(1) [OF assms(1) run] names unfolding s1 purged_of_def Let_def
      by (auto intro: swept_mono)
    with gc_undeployed_run(2) [OF assms(1) run] all r1 s1 show ?thesis by blast
  qed
  then show "purged_of view {m. marker_expired view now grace s m} s s'"
    "redb_total db \<Longrightarrow> r = Inr n \<Longrightarrow> marker_expired view now grace s app \<Longrightarrow>
      view (st_schema_meta s') (undeploy_key app) = None" by blast+
qed

section \<open>Properties of a collection\<close>

lemma gc_metrics_frame:
  assumes "gc_metrics db now days s = Inr (n, s')"
  shows "\<exists>t. s' = s\<lparr>st_metrics := t\<rparr>"
  using assms by (auto simp: gc_metrics_def Let_def try_then_Ok_iff)

lemma gc_artifacts_keeps:
  assumes "redb_contract db view" and "gc_artifacts db keep s = (r, s')"
  shows "view (st_configs s') = view (st_configs s)"
    and "view (st_configs s) k \<noteq> None \<Longrightarrow> view (st_artifacts s') k = view (st_artifacts s) k"
    and "st_schema_meta s' = st_schema_meta s"
proof -
  have "view (st_configs s') = view (st_configs s) \<and> st_schema_meta s' = st_schema_meta s \<and>
    (view (st_configs s) k \<noteq> None \<longrightarrow> view (st_artifacts s') k = view (st_artifacts s) k)"
  proof (cases "inventory_versions db s")
    case (Inl e)
    with assms(2) show ?thesis by (simp add: gc_artifacts_def)
  next
    case (Inr inventory)
    then obtain kvs where kvs: "raw_entries db (st_artifacts s) = Inr kvs"
      by (auto simp: inventory_versions_def try_then_Ok_iff)
    note view = raw_entries_view [OF assms(1) kvs]
    let ?cs = "gc_candidates keep inventory"
    obtain r1 stats where run: "for_each (\<lambda>e. on_store (gc_version db e)) ?cs (gc_stats_default, s) = (r1, (stats, s'))"
      using assms(2) Inr by (auto simp: gc_artifacts_def split: sum.splits prod.splits)
    have split: "\<exists>app v. rsplit_once (CHR '':'') (ve_key e) = Some (app, v)" if "e \<in> set ?cs" for e
      using gc_candidate [OF Inr kvs view(2) that] by metis
    from gc_artifacts_loop [OF assms(1) split run] have loop: "view (st_configs s') = view (st_configs s)"
      "view (st_artifacts s') k = view (st_artifacts s) k \<or> k \<in> ve_key ` set ?cs \<and> \<not> app_configured view s k" by blast+
    moreover have "app_configured view s k" if "k \<in> ve_key ` set ?cs" "view (st_configs s) k \<noteq> None"
    proof -
      obtain app v where "rsplit_once (CHR '':'') k = Some (app, v)" using split \<open>k \<in> ve_key ` set ?cs\<close> by blast
      from key_app_prefix [OF this] that(2) show ?thesis by (auto simp: app_configured_def)
    qed
    moreover have "st_schema_meta (snd (stats, s')) = st_schema_meta s"
    proof (rule for_each_keeps [OF _ _ run])
      fix e p r p'
      assume "e \<in> set ?cs" and P: "st_schema_meta (snd p) = st_schema_meta s" and step: "on_store (gc_version db e) p = (r, p')"
      obtain st1 s1 st2 s2 where p: "p = (st1, s1)" "p' = (st2, s2)" by (cases p; cases p') auto
      obtain app v where "rsplit_once (CHR '':'') (ve_key e) = Some (app, v)" using split [OF \<open>e \<in> set ?cs\<close>] by blast
      from gc_version_step(4) [OF assms(1) this step [unfolded p]] P show "st_schema_meta (snd p') = st_schema_meta s"
        by (simp add: p)
    qed simp
    ultimately show ?thesis by auto
  qed
  then show "view (st_configs s') = view (st_configs s)" "st_schema_meta s' = st_schema_meta s"
    "view (st_configs s) k \<noteq> None \<Longrightarrow> view (st_artifacts s') k = view (st_artifacts s) k" by blast+
qed

text \<open>
  (C16) A tick of the collection loop takes nothing from a configured application, whichever of its
  steps fail: unless the grace period of a marker for a prefix of its identifier is over, its
  configuration and its artifact stay as they are.
\<close>

theorem gc_tick_keeps_deployed:
  assumes "redb_contract db view"
    and "view (st_configs s) k \<noteq> None"
    and "\<And>m. marker_expired view now2 (gcc_undeploy_grace_secs cfg) s m \<Longrightarrow> \<not> starts_with k (m @ '':'')"
  shows "view (st_configs (gc_tick db js cfg now1 now2 s)) k = view (st_configs s) k \<and>
    view (st_artifacts (gc_tick db js cfg now1 now2 s)) k = view (st_artifacts s) k"
proof -
  obtain r1 s1 where s1: "gc_artifacts db (gcc_artifact_keep_versions cfg) s = (r1, s1)" by fastforce
  define s2 where "s2 = (case gc_metrics db now1 (gcc_metrics_retain_days cfg) s1 of Inl _ \<Rightarrow> s1 | Inr (_, s') \<Rightarrow> s')"
  have s2: "st_configs s2 = st_configs s1" "st_artifacts s2 = st_artifacts s1" "st_schema_meta s2 = st_schema_meta s1"
    using gc_metrics_frame by (fastforce simp: s2_def split: sum.splits prod.splits)+
  obtain r3 s3 where s3: "gc_undeployed_apps db js now2 (gcc_undeploy_grace_secs cfg) s2 = (r3, s3)" by fastforce
  have tick: "gc_tick db js cfg now1 now2 s = s3"
    unfolding gc_tick_def Let_def s1 snd_conv s2_def [symmetric] s3 ..
  note keep = gc_artifacts_keeps [OF assms(1) s1]
  have "marker_expired view now2 (gcc_undeploy_grace_secs cfg) s2 m \<longleftrightarrow>
      marker_expired view now2 (gcc_undeploy_grace_secs cfg) s m" for m
    by (simp add: marker_expired_def s2(3) keep(3))
  with gc_undeployed_apps_frame(1) [OF assms(1) s3] assms(3)
  have "view (st_configs s3) k = view (st_configs s2) k" "view (st_artifacts s3) k = view (st_artifacts s2) k"
    unfolding purged_of_def Let_def swept_def by blast+
  with keep(1,2) assms(2) s2(1,2) show ?thesis unfolding tick by simp
qed

text \<open>
  (C40) An application with a stored configuration that is undeployed under its full identifier comes back. While its
  marker stands it is not listed as deployed. A collection after the grace period that succeeds removes the marker, but
  leaves the configuration: the sweep looks for keys that start with the identifier and a colon, and the configuration's
  key is the identifier itself. From then on the application is listed as deployed again. This is shown for a store on
  which no operation fails and where no marked name followed by a colon is a prefix of the identifier, as one would be
  after an undeployment under the name without its version.
\<close>

theorem undeployed_app_returns:
  assumes "redb_contract db view" and "redb_total db"
    and "mark_undeployed db t0 app s = Inr s1"
    and "gc_undeployed_apps db js t1 grace s1 = (Inr n, s2)"
    and "grace < t1 - t0"
    and "view (st_configs s) app \<noteq> None"
    and "\<And>m. view (st_schema_meta s1) (undeploy_key m) \<noteq> None \<Longrightarrow> \<not> starts_with app (m @ '':'')"
  shows "view (st_schema_meta s2) (undeploy_key app) = None \<and> view (st_configs s2) app = view (st_configs s) app \<and>
    (\<exists>apps1 apps2. list_deployed_apps db s1 = Inr apps1 \<and> AppId app \<notin> set apps1 \<and>
      list_deployed_apps db s2 = Inr apps2 \<and> AppId app \<in> set apps2)"
proof -
  obtain t where t: "raw_put db (undeploy_key app) (show_nat (unat t0)) (st_schema_meta s) = Inr t"
      "s1 = s\<lparr>st_schema_meta := t\<rparr>"
    using assms(3) by (auto simp: mark_undeployed_def try_then_Ok_iff)
  have marker: "view (st_schema_meta s1) (undeploy_key app) = Some (show_nat (unat t0))"
    using raw_put_view [OF assms(1) t(1)] t(2) by simp
  have "parse_uint (2 ^ 64) (show_nat (unat t0)) = Some (unat t0)"
    by (rule parse_uint_show_nat) (use unsigned_less [of t0] in simp)
  with marker assms(5) have exp: "marker_expired view t1 grace s1 app"
    by (simp add: marker_expired_def)
  note frame = gc_undeployed_apps_frame [OF assms(1,4)]
  have gone: "view (st_schema_meta s2) (undeploy_key app) = None"
    by (rule frame(2) [OF assms(2) refl exp])
  have "\<not> starts_with app (m @ '':'')" if "marker_expired view t1 grace s1 m" for m
    using that assms(7) by (auto simp: marker_expired_def split: option.splits)
  with frame(1) have cfg: "view (st_configs s2) app = view (st_configs s1) app"
    unfolding purged_of_def Let_def swept_def by blast
  obtain apps1 apps2 where apps: "list_deployed_apps db s1 = Inr apps1" "list_deployed_apps db s2 = Inr apps2"
    using list_deployed_apps_total [OF assms(2)] by metis
  with list_deployed_apps_exact [OF assms(1)] marker gone cfg assms(6) t(2) show ?thesis by auto
qed

section \<open>Retention of metric buckets\<close>

lemma metric_key_ts_written: "metric_key_ts (app @ '':'' @ show_nat (unat ts)) = ts"
proof -
  have "CHR '':'' \<notin> set (show_nat (unat ts))"
    using show_nat_digits [of "unat ts"] by (auto simp: list_all_iff is_ascii_digit_def)
  then have "rsplit_once (CHR '':'') (app @ '':'' @ show_nat (unat ts)) = Some (app, show_nat (unat ts))"
    by (simp add: rsplit_once_append)
  moreover have "parse_uint (2 ^ 64) (show_nat (unat ts)) = Some (unat ts)"
    by (rule parse_uint_show_nat) (use unsigned_less [of ts] in simp)
  ultimately show ?thesis by (simp add: metric_key_ts_def)
qed

lemma days_in_secs: "unat (ucast (days :: u32) * 86400 :: u64) = unat days * 86400"
proof -
  have "unat days < 2 ^ 32" using unsigned_less [of days] by simp
  then have "unat days * 86400 < 2 ^ 64" by simp
  then show ?thesis by (simp add: unat_word_ariths unat_ucast_widen)
qed

text \<open>
  Metric collection keeps exactly the buckets inside the retention window, as long as the window does
  not reach back before the epoch.
\<close>

theorem gc_metrics_exact:
  assumes "redb_contract db view" and "redb_total db"
    and "gc_metrics db now days s = Inr (n, s')"
    and "unat days * 86400 \<le> unat now"
  shows "view (st_metrics s') = (\<lambda>k.
    if unat (metric_key_ts k) + unat days * 86400 < unat now then None else view (st_metrics s) k)"
proof -
  obtain t where t: "remove_where db (\<lambda>k. metric_key_ts k < now - ucast days * 86400) (st_metrics s) = Inr (n, t)"
      "s' = s\<lparr>st_metrics := t\<rparr>"
    using assms(3) by (auto simp: gc_metrics_def Let_def try_then_Ok_iff)
  have cutoff: "unat (now - ucast days * 86400) = unat now - unat days * 86400"
    using assms(4) days_in_secs by (metis unat_sub word_le_nat_alt)
  have iff: "metric_key_ts k < now - ucast days * 86400 \<longleftrightarrow> unat (metric_key_ts k) + unat days * 86400 < unat now" for k
    using assms(4) by (simp add: word_less_nat_alt cutoff less_diff_conv)
  show ?thesis
    using remove_where_view(2) [OF assms(1) t(1) assms(2)] t(2) by (simp add: iff cong: if_cong)
qed

text \<open>A window that reaches back before the epoch wraps, and every bucket counts as stale.\<close>

theorem gc_metrics_wraps:
  assumes "redb_contract db view" and "redb_total db"
    and "gc_metrics db now days s = Inr (n, s')"
    and "unat now < unat days * 86400" and "\<And>k. view (st_metrics s) k \<noteq> None \<Longrightarrow> metric_key_ts k \<le> now"
  shows "view (st_metrics s') k = None"
proof -
  obtain t where t: "remove_where db (\<lambda>k. metric_key_ts k < now - ucast days * 86400) (st_metrics s) = Inr (n, t)"
      "s' = s\<lparr>st_metrics := t\<rparr>"
    using assms(3) by (auto simp: gc_metrics_def Let_def try_then_Ok_iff)
  have "now < ucast days * 86400" using assms(4) by (simp add: word_less_nat_alt days_in_secs)
  then have "now < now - ucast days * 86400"
    using unsigned_less [of "ucast days * 86400 :: u64", where 'a = nat]
    by (simp add: word_less_nat_alt unat_sub_if_size word_size)
  then have "metric_key_ts k < now - ucast days * 86400" if "view (st_metrics s) k \<noteq> None"
    using assms(5) [OF that] by (rule le_less_trans [rotated])
  with remove_where_view(2) [OF assms(1) t(1) assms(2)] t(2) show ?thesis
    by (cases "view (st_metrics s) k") auto
qed

section \<open>Witnesses\<close>

definition w_store :: "(string, string) hmap app_store" where
  "w_store = \<lparr> st_artifacts = [(''shop:v1'', ''old''), (''shop:v2'', ''new'')], st_raw_wasm = [],
     st_configs = [(''cart:v1'', ''{}'')], st_metrics = [], st_routes = [], st_schema_meta = [],
     st_artifact_hashes = [], st_artifact_verifications = [] \<rparr>"

lemma w_gc_artifacts:
  "gc_artifacts mem_redb 1 w_store =
     (Inr \<lparr> gs_artifacts_deleted = 1, gs_raw_wasm_deleted = 1, gs_configs_deleted = 1,
        gs_metric_buckets_deleted = 0, gs_undeployed_apps_purged = 0 \<rparr>,
      w_store\<lparr>st_artifacts := [(''shop:v2'', ''new'')]\<rparr>)"
proof -
  have inv: "inventory_versions mem_redb w_store = Inr [(''shop'', map entry_of [''shop:v1'', ''shop:v2''])]"
    by (simp add: inventory_versions_def inventory_add_def raw_entries_def rd_iter_def mem_redb_def w_store_def
        rsplit_once_def hm_insert_def hm_get_def version_sort_key_def trim_start_char_def parse_uint_def is_ascii_digit_def)
  show ?thesis
    unfolding gc_artifacts_def inv
    by (simp add: gc_candidates_def gc_version_def on_store_def store_then_def
        has_active_instances_def list_apps_def raw_entries_def rd_iter_def key_app_def starts_with_def
        delete_artifact_by_key_def delete_raw_wasm_by_key_def delete_config_by_key_def raw_remove_def
        gc_stats_default_def mem_redb_def w_store_def hm_remove_def Let_def)
qed

theorem gc_artifacts_safe_witness:
  "\<exists>r s'. gc_artifacts mem_redb 1 w_store = (r, s') \<and> hm_get (st_artifacts s') ''shop:v1'' = None \<and>
     hm_get (st_configs s') = hm_get (st_configs w_store) \<and> \<not> app_configured hm_get w_store ''shop:v1''"
proof -
  have "hm_get (st_artifacts w_store) ''shop:v1'' \<noteq> None"
    "hm_get (st_artifacts (w_store\<lparr>st_artifacts := [(''shop:v2'', ''new'')]\<rparr>)) ''shop:v1'' = None"
    by (simp_all add: w_store_def hm_get_def)
  with gc_artifacts_safe [OF mem_redb_contract w_gc_artifacts this] show ?thesis
    using w_gc_artifacts by blast
qed

definition w_gc_config :: gc_config where
  "w_gc_config = \<lparr> gcc_artifact_keep_versions = 1, gcc_metrics_retain_days = 7, gcc_undeploy_grace_secs = 300,
     gcc_gc_interval_secs = 600, gcc_disk_warning_threshold = F64 (9 / 10) \<rparr>"

theorem gc_tick_keeps_deployed_witness:
  "hm_get (st_configs (gc_tick mem_redb (list_serde []) w_gc_config 1000000 1000000 w_store)) ''cart:v1'' = Some ''{}'' \<and>
   hm_get (st_artifacts (gc_tick mem_redb (list_serde []) w_gc_config 1000000 1000000 w_store)) ''cart:v1'' = None"
proof -
  have "hm_get (st_configs w_store) ''cart:v1'' = Some ''{}''" "hm_get (st_artifacts w_store) ''cart:v1'' = None"
    "\<not> marker_expired hm_get 1000000 (gcc_undeploy_grace_secs w_gc_config) w_store m" for m
    by (simp_all add: w_store_def hm_get_def marker_expired_def)
  with gc_tick_keeps_deployed [OF mem_redb_contract, of w_store "''cart:v1''" 1000000 w_gc_config "list_serde []" 1000000]
  show ?thesis by simp
qed

lemma w_returns:
  defines "s1 \<equiv> w_store\<lparr>st_schema_meta := [(''_undeploy:cart:v1'', ''9'')]\<rparr>"
  shows "mark_undeployed mem_redb 9 ''cart:v1'' w_store = Inr s1"
    and "gc_undeployed_apps mem_redb (list_serde []) 400 300 s1 = (Inr 1, w_store)"
  by (simp_all add: s1_def w_store_def mark_undeployed_def gc_undeployed_apps_def raw_put_def raw_readable_def
      rd_readable_def rd_iter_def mem_redb_def undeploy_key_def hm_insert_def hm_remove_def Let_def
      show_nat.simps List.map_filter_simps expired_app_def strip_prefix_def parse_uint_def
      purge_app_state_def on_store_def store_then_def purge_prefix_def remove_ok_def starts_with_def
      list_routes_for_app_def store_list_routes_def clear_marker_def char_of_def bit_0)

theorem undeployed_app_returns_witness:
  "\<exists>s1 s2 apps1 apps2. mark_undeployed mem_redb 9 ''cart:v1'' w_store = Inr s1 \<and>
     gc_undeployed_apps mem_redb (list_serde []) 400 300 s1 = (Inr 1, s2) \<and>
     list_deployed_apps mem_redb s1 = Inr apps1 \<and> AppId ''cart:v1'' \<notin> set apps1 \<and>
     list_deployed_apps mem_redb s2 = Inr apps2 \<and> AppId ''cart:v1'' \<in> set apps2"
proof -
  have "\<not> starts_with ''cart:v1'' (m @ '':'')"
    if "hm_get (st_schema_meta (w_store\<lparr>st_schema_meta := [(''_undeploy:cart:v1'', ''9'')]\<rparr>)) (undeploy_key m) \<noteq> None" for m
    using that by (auto simp: hm_get_def undeploy_key_def starts_with_def split: if_splits)
  moreover have "hm_get (st_configs w_store) ''cart:v1'' \<noteq> None" by (simp add: w_store_def hm_get_def)
  ultimately show ?thesis
    using undeployed_app_returns [OF mem_redb_contract mem_redb_total w_returns(1) w_returns(2)] w_returns by fastforce
qed

end
