(* ===== verification/Artifact_Transfer.thy ===== *)
theory Artifact_Transfer
  imports App_Store Admin_Middleware
begin

text \<open>
  Signed transfer manifests (\<open>crates/common/src/artifact_transfer.rs\<close>) and the artifact server that
  checks them (\<open>crates/storage/src/artifact_server.rs\<close>). The digest, the hexadecimal codec, the
  signature scheme and the JSON codec are parameters. Errors are constructors, status codes numbers.

  The theorems: the signed payload determines a manifest up to an empty audience; what the server
  serves to a remote peer was authorised by an unexpired manifest issued for that artifact, method
  and requester, and has the digest it was asked for; a single-use manifest authorises at most one
  request; an issued manifest is accepted until it expires.
\<close>

section \<open>Parameters\<close>

record crypto =
  cr_sha256 :: "string \<Rightarrow> string"
  cr_hex_encode :: "string \<Rightarrow> string"
  cr_hex_decode :: "string \<Rightarrow> (string, string) result"
  ed_public :: "string \<Rightarrow> string"
  ed_sign :: "string \<Rightarrow> string \<Rightarrow> string"
  ed_signature :: "string \<Rightarrow> (string, string) result"
  ed_verify :: "string \<Rightarrow> string \<Rightarrow> string \<Rightarrow> (string, unit) result"

text \<open>What is documented: decoding inverts encoding, encoded text has no white space, and a signature verifies.\<close>

definition crypto_contract :: "crypto \<Rightarrow> bool" where
  "crypto_contract cr \<longleftrightarrow>
     (\<forall>x. cr_hex_decode cr (cr_hex_encode cr x) = Inr x) \<and>
     (\<forall>x. str_trim (cr_hex_encode cr x) = cr_hex_encode cr x) \<and>
     (\<forall>k m. ed_signature cr (ed_sign cr k m) = Inr (ed_sign cr k m)) \<and>
     (\<forall>k m. ed_verify cr (ed_public cr k) m (ed_sign cr k m) = Inr ())"

definition saturating_add :: "u64 \<Rightarrow> u64 \<Rightarrow> u64" where
  "saturating_add a b = (if unat a + unat b < 2 ^ 64 then a + b else - 1)"

definition saturating_mul :: "u64 \<Rightarrow> u64 \<Rightarrow> u64" where
  "saturating_mul a b = (if unat a * unat b < 2 ^ 64 then a * b else - 1)"

section \<open>Manifests\<close>

datatype transfer_method = TransferGet | TransferPut

fun transfer_method_as_str :: "transfer_method \<Rightarrow> string" where
  "transfer_method_as_str TransferGet = ''GET''"
| "transfer_method_as_str TransferPut = ''PUT''"

record transfer_manifest =
  tm_version :: u8
  tm_artifact_sha256 :: string
  tm_artifact_path :: string
  tm_method :: transfer_method
  tm_issuer :: string
  tm_audience :: "string option"
  tm_issued_at_ms :: u64
  tm_expires_at_ms :: u64
  tm_transfer_id :: string
  tm_single_use :: bool

definition default_manifest_version :: u8 where
  "default_manifest_version = 1"

definition newline :: char where
  "newline = CHR 0x0A"

text \<open>The lines of the payload, each a label, an equals sign and a value.\<close>

definition payload_fields :: "transfer_manifest \<Rightarrow> (string \<times> string) list" where
  "payload_fields m =
     [(''version'', show_nat (unat (tm_version m))), (''artifact_sha256'', tm_artifact_sha256 m),
      (''artifact_path'', tm_artifact_path m), (''method'', transfer_method_as_str (tm_method m)),
      (''issuer'', tm_issuer m), (''audience'', unwrap_or (tm_audience m) ''''),
      (''issued_at_ms'', show_nat (unat (tm_issued_at_ms m))),
      (''expires_at_ms'', show_nat (unat (tm_expires_at_ms m))), (''transfer_id'', tm_transfer_id m),
      (''single_use'', if tm_single_use m then ''true'' else ''false'')]"

definition canonical_payload :: "transfer_manifest \<Rightarrow> string" where
  "canonical_payload m = concat (map (\<lambda>(label, v). label @ ''='' @ v @ [newline]) (payload_fields m))"

record signed_manifest =
  sm_manifest :: transfer_manifest
  sm_signature_ed25519 :: string

datatype manifest_error =
    SignatureNotHex string
  | SignatureFormat string
  | SignatureRejected string
  | HeaderNotHex string
  | HeaderNotJson string
  | HeaderEncoding string
  | UnsupportedVersion u8
  | MethodMismatch transfer_method transfer_method
  | DigestMismatch string string
  | PathMismatch string string
  | IssuerMismatch string string
  | AudienceMismatch string "string option"
  | AudienceNeedsRequester
  | ExpiryBeforeIssue
  | ManifestExpired u64

definition sign_manifest :: "crypto \<Rightarrow> string \<Rightarrow> transfer_manifest \<Rightarrow> signed_manifest" where
  "sign_manifest cr seed m =
     \<lparr> sm_manifest = m, sm_signature_ed25519 = cr_hex_encode cr (ed_sign cr seed (canonical_payload m)) \<rparr>"

definition verify_signature :: "crypto \<Rightarrow> string \<Rightarrow> signed_manifest \<Rightarrow> (manifest_error, unit) result" where
  "verify_signature cr key s =
     try_then (err_as SignatureNotHex (cr_hex_decode cr (str_trim (sm_signature_ed25519 s)))) (\<lambda>bytes.
     try_then (err_as SignatureFormat (ed_signature cr bytes)) (\<lambda>sig.
     err_as SignatureRejected (ed_verify cr key (canonical_payload (sm_manifest s)) sig)))"

definition encode_header_value :: "crypto \<Rightarrow> signed_manifest serde \<Rightarrow> signed_manifest \<Rightarrow> (manifest_error, string) result" where
  "encode_header_value cr js s =
     try_then (err_as HeaderEncoding (sd_to_string js s)) (\<lambda>json. Ok (cr_hex_encode cr json))"

definition decode_header_value :: "crypto \<Rightarrow> signed_manifest serde \<Rightarrow> string \<Rightarrow> (manifest_error, signed_manifest) result" where
  "decode_header_value cr js v =
     try_then (err_as HeaderNotHex (cr_hex_decode cr (str_trim v))) (\<lambda>raw.
     err_as HeaderNotJson (sd_from_str js raw))"

section \<open>The authority of a node\<close>

record transfer_authority =
  ta_local_node_id :: string
  ta_signing_seed :: string

definition derive_authority :: "crypto \<Rightarrow> string \<Rightarrow> string \<Rightarrow> transfer_authority" where
  "derive_authority cr node_id key_material =
     \<lparr> ta_local_node_id = node_id,
       ta_signing_seed = take 32 (cr_sha256 cr
         (''wasm-cloud-platform:artifact-transfer:ed25519:v1'' @ [newline] @ node_id @ [newline] @ key_material)) \<rparr>"

definition authority_key :: "crypto \<Rightarrow> transfer_authority \<Rightarrow> string" where
  "authority_key cr a = ed_public cr (ta_signing_seed a)"

definition artifact_path_of :: "string \<Rightarrow> string" where
  "artifact_path_of sha256 = ''/artifacts/'' @ sha256"

definition new_manifest ::
  "transfer_authority \<Rightarrow> u64 \<Rightarrow> string \<Rightarrow> string \<Rightarrow> transfer_method \<Rightarrow> u64 \<Rightarrow> bool \<Rightarrow> string option \<Rightarrow> transfer_manifest" where
  "new_manifest a now_ms uuid sha256 method ttl_secs single_use audience =
     \<lparr> tm_version = default_manifest_version, tm_artifact_sha256 = sha256,
       tm_artifact_path = artifact_path_of sha256, tm_method = method, tm_issuer = ta_local_node_id a,
       tm_audience = audience, tm_issued_at_ms = now_ms,
       tm_expires_at_ms = saturating_add now_ms (saturating_mul ttl_secs 1000),
       tm_transfer_id = uuid, tm_single_use = single_use \<rparr>"

definition issue_manifest ::
  "crypto \<Rightarrow> transfer_authority \<Rightarrow> u64 \<Rightarrow> string \<Rightarrow> string \<Rightarrow> transfer_method \<Rightarrow> u64 \<Rightarrow> bool \<Rightarrow> string option \<Rightarrow> signed_manifest" where
  "issue_manifest cr a now_ms uuid sha256 method ttl_secs single_use audience =
     sign_manifest cr (ta_signing_seed a) (new_manifest a now_ms uuid sha256 method ttl_secs single_use audience)"

definition DEFAULT_GET_TTL :: u64 where "DEFAULT_GET_TTL = 60"
definition DEFAULT_PUT_TTL :: u64 where "DEFAULT_PUT_TTL = 60"

definition issue_read_manifest :: "crypto \<Rightarrow> transfer_authority \<Rightarrow> u64 \<Rightarrow> string \<Rightarrow> string \<Rightarrow> signed_manifest" where
  "issue_read_manifest cr a now_ms uuid sha256 =
     issue_manifest cr a now_ms uuid sha256 TransferGet DEFAULT_GET_TTL False None"

definition issue_read_manifest_for_audience ::
  "crypto \<Rightarrow> transfer_authority \<Rightarrow> u64 \<Rightarrow> string \<Rightarrow> string \<Rightarrow> string \<Rightarrow> signed_manifest" where
  "issue_read_manifest_for_audience cr a now_ms uuid sha256 audience =
     issue_manifest cr a now_ms uuid sha256 TransferGet DEFAULT_GET_TTL False (Some audience)"

definition issue_write_manifest :: "crypto \<Rightarrow> transfer_authority \<Rightarrow> u64 \<Rightarrow> string \<Rightarrow> string \<Rightarrow> signed_manifest" where
  "issue_write_manifest cr a now_ms uuid sha256 =
     issue_manifest cr a now_ms uuid sha256 TransferPut DEFAULT_PUT_TTL True None"

definition check_audience :: "string option \<Rightarrow> string option \<Rightarrow> (manifest_error, unit) result" where
  "check_audience requester audience =
     (case (requester, audience) of
        (Some expected, actual) \<Rightarrow>
          if actual = Some expected then Ok () else Err (AudienceMismatch expected actual)
      | (None, Some _) \<Rightarrow> Err AudienceNeedsRequester
      | (None, None) \<Rightarrow> Ok ())"

definition verify_manifest ::
  "crypto \<Rightarrow> transfer_authority \<Rightarrow> signed_manifest \<Rightarrow> string \<Rightarrow> transfer_method \<Rightarrow> string option \<Rightarrow> u64 \<Rightarrow>
   (manifest_error, unit) result" where
  "verify_manifest cr a s sha256 method requester now_ms =
     (let m = sm_manifest s in
      try_then (verify_signature cr (authority_key cr a) s) (\<lambda>_.
      if tm_version m \<noteq> default_manifest_version then Err (UnsupportedVersion (tm_version m))
      else if tm_method m \<noteq> method then Err (MethodMismatch method (tm_method m))
      else if tm_artifact_sha256 m \<noteq> sha256 then Err (DigestMismatch sha256 (tm_artifact_sha256 m))
      else if tm_artifact_path m \<noteq> artifact_path_of sha256 then Err (PathMismatch sha256 (tm_artifact_path m))
      else if tm_issuer m \<noteq> ta_local_node_id a then Err (IssuerMismatch (ta_local_node_id a) (tm_issuer m))
      else try_then (check_audience requester (tm_audience m)) (\<lambda>_.
      if tm_expires_at_ms m \<le> tm_issued_at_ms m then Err ExpiryBeforeIssue
      else if tm_expires_at_ms m \<le> now_ms then Err (ManifestExpired (tm_expires_at_ms m))
      else Ok ())))"

section \<open>The artifact server\<close>

definition MAX_ARTIFACT_SIZE :: nat where
  "MAX_ARTIFACT_SIZE = 104857600"

datatype artifact_action = ArtifactRead | ArtifactWrite

fun action_as_method :: "artifact_action \<Rightarrow> transfer_method" where
  "action_as_method ArtifactRead = TransferGet"
| "action_as_method ArtifactWrite = TransferPut"

record peer_token =
  pt_token :: string
  pt_expires_at_ms :: "u64 option"
  pt_allow_read :: bool
  pt_allow_write :: bool

definition peer_token_allows :: "peer_token \<Rightarrow> artifact_action \<Rightarrow> u64 \<Rightarrow> bool" where
  "peer_token_allows t action now_ms =
     (if (case pt_expires_at_ms t of None \<Rightarrow> False | Some e \<Rightarrow> e \<le> now_ms) then False
      else (case action of ArtifactRead \<Rightarrow> pt_allow_read t | ArtifactWrite \<Rightarrow> pt_allow_write t))"

definition nonempty_trimmed :: "string option \<Rightarrow> string option" where
  "nonempty_trimmed v =
     (case v of None \<Rightarrow> None | Some s \<Rightarrow> let t = str_trim s in if t = [] then None else Some t)"

definition artifact_bearer_token :: "header_map \<Rightarrow> string option" where
  "artifact_bearer_token headers =
     nonempty_trimmed (Option.bind (header_str headers ''Authorization'') (strip_prefix ''Bearer ''))"

definition requester_node_id :: "header_map \<Rightarrow> string option" where
  "requester_node_id headers = nonempty_trimmed (header_str headers ''x-wasm-artifact-requester-node-id'')"

definition header_manifest :: "crypto \<Rightarrow> signed_manifest serde \<Rightarrow> header_map \<Rightarrow> signed_manifest option" where
  "header_manifest cr js headers =
     Option.bind (header_str headers ''x-wasm-artifact-transfer-manifest'') (\<lambda>v.
       case decode_header_value cr js v of Inl _ \<Rightarrow> None | Inr s \<Rightarrow> Some s)"

text \<open>The replay cache maps transfer identifiers to expiry times; its lock makes the operation one step.\<close>

definition mark_single_use_manifest_seen ::
  "signed_manifest \<Rightarrow> u64 \<Rightarrow> (string, u64) hmap \<Rightarrow> (u16, unit) result \<times> (string, u64) hmap" where
  "mark_single_use_manifest_seen s now_ms used =
     (if \<not> tm_single_use (sm_manifest s) then (Ok (), used)
      else let seen = hm_retain (\<lambda>_ expires. now_ms < expires) used in
        case hm_get seen (tm_transfer_id (sm_manifest s)) of
          Some _ \<Rightarrow> (Err 403, seen)
        | None \<Rightarrow> (Ok (), hm_insert (tm_transfer_id (sm_manifest s)) (tm_expires_at_ms (sm_manifest s)) seen))"

definition authorize_signed_manifest ::
  "crypto \<Rightarrow> signed_manifest serde \<Rightarrow> transfer_authority option \<Rightarrow> header_map \<Rightarrow> artifact_action \<Rightarrow> string \<Rightarrow> u64 \<Rightarrow>
   (string, u64) hmap \<Rightarrow> (u16, bool) result \<times> (string, u64) hmap" where
  "authorize_signed_manifest cr js authority headers action sha256 now_ms used =
     (case authority of
        None \<Rightarrow> (Ok False, used)
      | Some a \<Rightarrow>
          (case header_manifest cr js headers of
             None \<Rightarrow> (Ok False, used)
           | Some s \<Rightarrow>
               (case verify_manifest cr a s sha256 (action_as_method action) (requester_node_id headers) now_ms of
                  Inl _ \<Rightarrow> (Ok False, used)
                | Inr _ \<Rightarrow>
                    (case mark_single_use_manifest_seen s now_ms used of
                       (Inl status, used') \<Rightarrow> (Inl status, used')
                     | (Inr _, used') \<Rightarrow> (Ok True, used')))))"

record 't artifact_server =
  srv_store :: "'t app_store"
  srv_peer_tokens :: "peer_token list"
  srv_manifest_authority :: "transfer_authority option"
  srv_used_transfer_ids :: "(string, u64) hmap"

definition ensure_authorized_peer ::
  "crypto \<Rightarrow> signed_manifest serde \<Rightarrow> ip_addr \<Rightarrow> header_map \<Rightarrow> artifact_action \<Rightarrow> string \<Rightarrow> u64 \<Rightarrow>
   't artifact_server \<Rightarrow> (u16, unit) result \<times> 't artifact_server" where
  "ensure_authorized_peer cr js peer headers action sha256 now_ms srv =
     (if is_loopback peer then (Ok (), srv)
      else (case authorize_signed_manifest cr js (srv_manifest_authority srv) headers action sha256 now_ms
                  (srv_used_transfer_ids srv) of
          (Inl status, used) \<Rightarrow> (Inl status, srv\<lparr>srv_used_transfer_ids := used\<rparr>)
        | (Inr True, used) \<Rightarrow> (Ok (), srv\<lparr>srv_used_transfer_ids := used\<rparr>)
        | (Inr False, used) \<Rightarrow>
            ((case artifact_bearer_token headers of
                Some provided \<Rightarrow>
                  if list_ex (\<lambda>t. pt_token t = provided \<and> peer_token_allows t action now_ms) (srv_peer_tokens srv)
                  then Ok () else Err 403
              | None \<Rightarrow> Err 403), srv\<lparr>srv_used_transfer_ids := used\<rparr>)))"

definition ensure_authorized_peer_read ::
  "crypto \<Rightarrow> signed_manifest serde \<Rightarrow> ip_addr \<Rightarrow> header_map \<Rightarrow> string \<Rightarrow> u64 \<Rightarrow>
   't artifact_server \<Rightarrow> (u16, unit) result \<times> 't artifact_server" where
  "ensure_authorized_peer_read cr js peer headers sha256 now_ms srv =
     (if is_loopback peer then (Ok (), srv)
      else (case authorize_signed_manifest cr js (srv_manifest_authority srv) headers ArtifactRead sha256 now_ms
                  (srv_used_transfer_ids srv) of
          (Inl status, used) \<Rightarrow> (Inl status, srv\<lparr>srv_used_transfer_ids := used\<rparr>)
        | (Inr True, used) \<Rightarrow> (Ok (), srv\<lparr>srv_used_transfer_ids := used\<rparr>)
        | (Inr False, used) \<Rightarrow> (Err 403, srv\<lparr>srv_used_transfer_ids := used\<rparr>)))"

definition get_artifact ::
  "'t redb \<Rightarrow> crypto \<Rightarrow> signed_manifest serde \<Rightarrow> ip_addr \<Rightarrow> header_map \<Rightarrow> string \<Rightarrow> u64 \<Rightarrow>
   't artifact_server \<Rightarrow> (u16, string) result \<times> 't artifact_server" where
  "get_artifact db cr js peer headers sha256 now_ms =
     store_then (ensure_authorized_peer_read cr js peer headers sha256 now_ms) (\<lambda>_ srv.
       (case load_raw_wasm db sha256 (srv_store srv) of
          Inr (Some bytes) \<Rightarrow> Ok bytes
        | Inr None \<Rightarrow> Err 404
        | Inl _ \<Rightarrow> Err 500, srv))"

record upload_response =
  up_sha256 :: string
  up_signed_get_manifest :: "signed_manifest option"

text \<open>The clock is read once for the check and once, with a fresh identifier, for the manifest of the answer.\<close>

definition put_artifact ::
  "'t redb \<Rightarrow> crypto \<Rightarrow> signed_manifest serde \<Rightarrow> ip_addr \<Rightarrow> header_map \<Rightarrow> string \<Rightarrow> string \<Rightarrow> u64 \<Rightarrow> u64 \<Rightarrow> string \<Rightarrow>
   't artifact_server \<Rightarrow> (u16, upload_response) result \<times> 't artifact_server" where
  "put_artifact db cr js peer headers sha256 body now_ms now2_ms uuid =
     store_then (ensure_authorized_peer cr js peer headers ArtifactWrite sha256 now_ms) (\<lambda>_ srv.
       if MAX_ARTIFACT_SIZE < length body then (Err 413, srv)
       else if cr_hex_encode cr (cr_sha256 cr body) \<noteq> sha256 then (Err 400, srv)
       else (case save_raw_wasm db sha256 body (srv_store srv) of
           Inl _ \<Rightarrow> (Err 500, srv)
         | Inr st \<Rightarrow>
             (Ok \<lparr> up_sha256 = sha256,
                   up_signed_get_manifest = map_option (\<lambda>a. issue_read_manifest cr a now2_ms uuid sha256)
                     (srv_manifest_authority srv) \<rparr>, srv\<lparr>srv_store := st\<rparr>)))"

record audience_binding =
  ab_audience_node_id :: string
  ab_manifest :: signed_manifest

text \<open>\<open>fresh i\<close> is the clock reading and the identifier for the i-th entry of the answer.\<close>

fun bind_audiences ::
  "crypto \<Rightarrow> transfer_authority \<Rightarrow> string \<Rightarrow> (nat \<Rightarrow> u64 \<times> string) \<Rightarrow> nat \<Rightarrow> string list \<Rightarrow> audience_binding list" where
  "bind_audiences cr a sha256 fresh i [] = []"
| "bind_audiences cr a sha256 fresh i (audience # rest) =
     (let trimmed = str_trim audience in
      if trimmed = [] then bind_audiences cr a sha256 fresh i rest
      else \<lparr> ab_audience_node_id = trimmed,
             ab_manifest = issue_read_manifest_for_audience cr a (fst (fresh i)) (snd (fresh i)) sha256 trimmed \<rparr>
           # bind_audiences cr a sha256 fresh (Suc i) rest)"

definition authorize_artifact ::
  "'t redb \<Rightarrow> crypto \<Rightarrow> signed_manifest serde \<Rightarrow> ip_addr \<Rightarrow> header_map \<Rightarrow> string \<Rightarrow> string list \<Rightarrow> u64 \<Rightarrow> (nat \<Rightarrow> u64 \<times> string) \<Rightarrow>
   't artifact_server \<Rightarrow> (u16, audience_binding list) result \<times> 't artifact_server" where
  "authorize_artifact db cr js peer headers sha256 audiences now_ms fresh =
     store_then (ensure_authorized_peer cr js peer headers ArtifactWrite sha256 now_ms) (\<lambda>_ srv.
       (case load_raw_wasm db sha256 (srv_store srv) of
          Inl _ \<Rightarrow> Err 500
        | Inr None \<Rightarrow> Err 404
        | Inr (Some _) \<Rightarrow>
            (case srv_manifest_authority srv of
               None \<Rightarrow> Err 503
             | Some a \<Rightarrow> Ok (bind_audiences cr a sha256 fresh 0 audiences)), srv))"

definition artifact_router ::
  "'t app_store \<Rightarrow> peer_token list \<Rightarrow> transfer_authority option \<Rightarrow> 't artifact_server" where
  "artifact_router store tokens authority =
     \<lparr> srv_store = store, srv_peer_tokens = tokens, srv_manifest_authority = authority,
       srv_used_transfer_ids = [] \<rparr>"

section \<open>The payload determines the manifest\<close>

lemma cut_at_newline:
  assumes "c \<notin> set a" and "c \<notin> set b" and "a @ c # r = b @ c # r'"
  shows "a = b \<and> r = r'"
  using assms by (induction a arbitrary: b) (case_tac b, auto)+

abbreviation payload_line :: "string \<times> string \<Rightarrow> string" where
  "payload_line \<equiv> \<lambda>(label, v). label @ ''='' @ v @ [newline]"

lemma payload_lines_inj:
  assumes "concat (map payload_line xs) = concat (map payload_line ys)" and "map fst xs = map fst ys"
    and "\<forall>(l, v)\<in>set xs. newline \<notin> set v" and "\<forall>(l, v)\<in>set ys. newline \<notin> set v"
  shows "xs = ys"
  using assms
proof (induction xs arbitrary: ys)
  case (Cons x xs)
  obtain l v where x: "x = (l, v)" by fastforce
  with Cons.prems(2) obtain v' ys' where ys: "ys = (l, v') # ys'" by (cases ys) auto
  have "v @ newline # concat (map payload_line xs) = v' @ newline # concat (map payload_line ys')"
    using Cons.prems(1) by (simp add: x ys)
  then have "v = v' \<and> concat (map payload_line xs) = concat (map payload_line ys')"
    using Cons.prems(3,4) by (intro cut_at_newline [of newline]) (simp_all add: x ys)
  with Cons.IH [of ys'] Cons.prems(2-4) show ?case by (simp add: x ys)
qed simp

lemma payload_newlines:
  assumes "\<forall>(l, v)\<in>set xs. newline \<notin> set l"
  shows "count_list (concat (map payload_line xs)) newline = length xs + (\<Sum>(l, v)\<leftarrow>xs. count_list v newline)"
  using assms by (induction xs) (auto simp: count_list_append newline_def count_notin)

lemma payload_lines_plain:
  assumes "concat (map payload_line ys) = concat (map payload_line xs)" and "map fst ys = map fst xs"
    and "\<forall>(l, v)\<in>set ys. newline \<notin> set l" and "\<forall>(l, v)\<in>set xs. newline \<notin> set l"
    and "\<forall>(l, v)\<in>set xs. newline \<notin> set v"
  shows "\<forall>(l, v)\<in>set ys. newline \<notin> set v"
proof -
  have "(\<Sum>(l, v)\<leftarrow>xs. count_list v newline) = 0"
    using assms(5) by (auto simp: sum_list_eq_0_iff count_list_0_iff)
  moreover have "length ys = length xs"
    using assms(2) by (metis length_map)
  ultimately have "(\<Sum>(l, v)\<leftarrow>ys. count_list v newline) = 0"
    using payload_newlines [OF assms(3)] payload_newlines [OF assms(4)] assms(1) by (metis add.right_neutral add_left_imp_eq)
  then show ?thesis by (auto simp: sum_list_eq_0_iff count_list_0_iff)
qed

text \<open>No field of the manifest contains a line break.\<close>

definition plain_manifest :: "transfer_manifest \<Rightarrow> bool" where
  "plain_manifest m \<longleftrightarrow> (\<forall>(label, v)\<in>set (payload_fields m). newline \<notin> set v)"

lemma payload_labels: "map fst (payload_fields m) = map fst (payload_fields m')"
  by (simp add: payload_fields_def)

lemma payload_labels_plain: "\<forall>(l, v)\<in>set (payload_fields m). newline \<notin> set l"
  by (simp add: payload_fields_def newline_def)

lemma show_nat_inj: "show_nat a = show_nat b \<longleftrightarrow> a = b"
  using parse_digits_show_nat by (metis option.inject)

lemma method_str_inj: "transfer_method_as_str a = transfer_method_as_str b \<longleftrightarrow> a = b"
  by (cases a; cases b) simp_all

text \<open>
  The signed payload of a manifest without line breaks belongs to no other manifest, except that an
  absent audience cannot be told from an empty one.
\<close>

theorem payload_determines_manifest:
  assumes "plain_manifest m" and "canonical_payload m' = canonical_payload m"
  shows "m' = m\<lparr>tm_audience := tm_audience m'\<rparr> \<and> unwrap_or (tm_audience m') [] = unwrap_or (tm_audience m) []"
proof -
  let ?f = "payload_fields m" and ?f' = "payload_fields m'"
  have eq: "concat (map payload_line ?f') = concat (map payload_line ?f)"
    using assms(2) by (simp add: canonical_payload_def)
  have "\<forall>(l, v)\<in>set ?f'. newline \<notin> set v"
    using payload_lines_plain [OF eq payload_labels payload_labels_plain payload_labels_plain] assms(1)
    by (simp add: plain_manifest_def)
  with payload_lines_inj [OF eq payload_labels] assms(1) have "?f' = ?f"
    by (simp add: plain_manifest_def)
  then have "tm_version m' = tm_version m" "tm_artifact_sha256 m' = tm_artifact_sha256 m"
      "tm_artifact_path m' = tm_artifact_path m" "tm_method m' = tm_method m" "tm_issuer m' = tm_issuer m"
      "tm_issued_at_ms m' = tm_issued_at_ms m" "tm_expires_at_ms m' = tm_expires_at_ms m"
      "tm_transfer_id m' = tm_transfer_id m" "tm_single_use m' = tm_single_use m"
      and aud: "unwrap_or (tm_audience m') [] = unwrap_or (tm_audience m) []"
    by (auto simp: payload_fields_def show_nat_inj method_str_inj word_unat_eq_iff split: if_splits)
  then have "m' = m\<lparr>tm_audience := tm_audience m'\<rparr>" by simp
  with aud show ?thesis by (rule conjI [rotated])
qed

section \<open>Decisions of the checks\<close>

lemma check_audience_Ok_iff: "check_audience requester audience = Inr () \<longleftrightarrow> audience = requester"
  by (auto simp: check_audience_def split: option.splits)

lemma verify_manifest_Ok_iff:
  "verify_manifest cr a s sha256 method requester now = Inr () \<longleftrightarrow>
     verify_signature cr (authority_key cr a) s = Inr () \<and>
     (let m = sm_manifest s in
      tm_version m = default_manifest_version \<and> tm_method m = method \<and> tm_artifact_sha256 m = sha256 \<and>
      tm_artifact_path m = artifact_path_of sha256 \<and> tm_issuer m = ta_local_node_id a \<and>
      tm_audience m = requester \<and> tm_issued_at_ms m < tm_expires_at_ms m \<and> now < tm_expires_at_ms m)"
  by (auto simp: verify_manifest_def Let_def try_then_Ok_iff check_audience_Ok_iff not_le)

text \<open>What the authorisation by manifest amounts to.\<close>

lemma authorize_signed_manifest_True:
  assumes "authorize_signed_manifest cr js authority headers action sha256 now used = (Inr True, used')"
  obtains a s where "authority = Some a" and "header_manifest cr js headers = Some s"
    and "verify_manifest cr a s sha256 (action_as_method action) (requester_node_id headers) now = Inr ()"
    and "mark_single_use_manifest_seen s now used = (Inr (), used')"
  using assms that
  by (auto simp: authorize_signed_manifest_def split: option.splits sum.splits prod.splits)

text \<open>
  A signature is not forged: if the signature of the presented manifest verifies under the key of an
  authority, the payload is that of a manifest the authority has issued. Issued manifests have no line breaks.
\<close>

definition unforged :: "crypto \<Rightarrow> transfer_authority \<Rightarrow> transfer_manifest set \<Rightarrow> signed_manifest \<Rightarrow> bool" where
  "unforged cr a issued s \<longleftrightarrow>
     (verify_signature cr (authority_key cr a) s = Inr () \<longrightarrow>
        canonical_payload (sm_manifest s) \<in> canonical_payload ` issued) \<and>
     (\<forall>m\<in>issued. plain_manifest m)"

lemma verified_was_issued:
  assumes "unforged cr a issued s"
    and "verify_manifest cr a s sha256 method requester now = Inr ()"
  obtains m where "m \<in> issued" and "tm_artifact_sha256 m = sha256" and "tm_method m = method"
    and "now < tm_expires_at_ms m" and "unwrap_or (tm_audience m) [] = unwrap_or requester []"
proof -
  let ?m = "sm_manifest s"
  have v: "verify_signature cr (authority_key cr a) s = Inr ()" "tm_method ?m = method" "tm_artifact_sha256 ?m = sha256"
    "tm_audience ?m = requester" "now < tm_expires_at_ms ?m"
    using assms(2) by (auto simp: verify_manifest_Ok_iff Let_def)
  then obtain m where m: "m \<in> issued" "canonical_payload ?m = canonical_payload m" "plain_manifest m"
    using assms(1) by (auto simp: unforged_def)
  from payload_determines_manifest [OF m(3,2)] have eq: "?m = m\<lparr>tm_audience := tm_audience ?m\<rparr>"
    and aud: "unwrap_or (tm_audience ?m) [] = unwrap_or (tm_audience m) []" by simp_all
  show ?thesis
  proof (rule that [OF m(1)])
    show "tm_artifact_sha256 m = sha256" using v(3) arg_cong [OF eq, of tm_artifact_sha256] by simp
    show "tm_method m = method" using v(2) arg_cong [OF eq, of tm_method] by simp
    show "now < tm_expires_at_ms m" using v(5) arg_cong [OF eq, of tm_expires_at_ms] by simp
    show "unwrap_or (tm_audience m) [] = unwrap_or requester []" using v(4) aud by simp
  qed
qed

section \<open>Modules are stored under their digest\<close>

definition content_addressed ::
  "crypto \<Rightarrow> ('t \<Rightarrow> string \<Rightarrow> string option) \<Rightarrow> 't app_store \<Rightarrow> bool" where
  "content_addressed cr view s \<longleftrightarrow>
     (\<forall>k v. view (st_raw_wasm s) k = Some v \<longrightarrow> k = cr_hex_encode cr (cr_sha256 cr v))"

lemma content_addressed_save:
  assumes "redb_contract db view" and "content_addressed cr view s"
    and "save_raw_wasm db sha256 bytes s = Inr s'" and "sha256 = cr_hex_encode cr (cr_sha256 cr bytes)"
  shows "content_addressed cr view s'"
  using artifact_ops_view(3) [OF assms(1,3)] assms(2,4) by (auto simp: content_addressed_def)

lemma ensure_authorized_peer_store:
  "ensure_authorized_peer cr js peer headers action sha256 now srv = (r, srv') \<Longrightarrow>
     srv_store srv' = srv_store srv \<and> srv_manifest_authority srv' = srv_manifest_authority srv"
  by (auto simp: ensure_authorized_peer_def split: if_splits prod.splits sum.splits bool.splits)

lemma ensure_authorized_peer_read_store:
  "ensure_authorized_peer_read cr js peer headers sha256 now srv = (r, srv') \<Longrightarrow>
     srv_store srv' = srv_store srv \<and> srv_manifest_authority srv' = srv_manifest_authority srv"
  by (auto simp: ensure_authorized_peer_read_def split: if_splits prod.splits sum.splits bool.splits)

text \<open>The requests of the server, each with the clock readings and identifiers it takes.\<close>

datatype artifact_request =
    GetArtifact ip_addr header_map string u64
  | PutArtifact ip_addr header_map string string u64 u64 string
  | AuthorizeArtifact ip_addr header_map string "string list" u64 "nat \<Rightarrow> u64 \<times> string"

fun artifact_server_step ::
  "'t redb \<Rightarrow> crypto \<Rightarrow> signed_manifest serde \<Rightarrow> artifact_request \<Rightarrow> 't artifact_server \<Rightarrow> 't artifact_server" where
  "artifact_server_step db cr js (GetArtifact peer headers sha256 now) srv =
     snd (get_artifact db cr js peer headers sha256 now srv)"
| "artifact_server_step db cr js (PutArtifact peer headers sha256 body now now2 uuid) srv =
     snd (put_artifact db cr js peer headers sha256 body now now2 uuid srv)"
| "artifact_server_step db cr js (AuthorizeArtifact peer headers sha256 audiences now fresh) srv =
     snd (authorize_artifact db cr js peer headers sha256 audiences now fresh srv)"

lemma put_artifact_content:
  assumes "redb_contract db view" and "content_addressed cr view (srv_store srv)"
    and "put_artifact db cr js peer headers sha256 body now now2 uuid srv = (r, srv')"
  shows "content_addressed cr view (srv_store srv')"
  using assms(3) unfolding put_artifact_def
proof (rule store_then_keeps)
  show "content_addressed cr view (srv_store s1)"
    if "ensure_authorized_peer cr js peer headers ArtifactWrite sha256 now srv = (r, s1)" for r s1
    using ensure_authorized_peer_store [OF that] assms(2) by simp
qed (auto split: if_splits sum.splits intro: content_addressed_save [OF assms(1)])

lemma get_artifact_store:
  "get_artifact db cr js peer headers sha256 now srv = (r, srv') \<Longrightarrow> srv_store srv' = srv_store srv"
  unfolding get_artifact_def
  by (erule store_then_keeps [where P = "\<lambda>s. srv_store s = srv_store srv"])
    (auto dest: ensure_authorized_peer_read_store)

lemma authorize_artifact_store:
  "authorize_artifact db cr js peer headers sha256 audiences now fresh srv = (r, srv') \<Longrightarrow>
     srv_store srv' = srv_store srv"
  unfolding authorize_artifact_def
  by (erule store_then_keeps [where P = "\<lambda>s. srv_store s = srv_store srv"])
    (auto dest: ensure_authorized_peer_store)

lemma artifact_server_step_content:
  assumes "redb_contract db view" and "content_addressed cr view (srv_store srv)"
  shows "content_addressed cr view (srv_store (artifact_server_step db cr js req srv))"
proof (cases req)
  case (GetArtifact peer headers sha256 now)
  then show ?thesis
    using get_artifact_store [of db cr js peer headers sha256 now srv] assms(2)
    by (cases "get_artifact db cr js peer headers sha256 now srv") auto
next
  case (PutArtifact peer headers sha256 body now now2 uuid)
  then show ?thesis
    using put_artifact_content [OF assms, of js peer headers sha256 body now now2 uuid]
    by (cases "put_artifact db cr js peer headers sha256 body now now2 uuid srv") auto
next
  case (AuthorizeArtifact peer headers sha256 audiences now fresh)
  then show ?thesis
    using authorize_artifact_store [of db cr js peer headers sha256 audiences now fresh srv] assms(2)
    by (cases "authorize_artifact db cr js peer headers sha256 audiences now fresh srv") auto
qed

interpretation artsrv: call_machine "artifact_server_step db cr js"
  "\<lambda>srv. redb_contract db view \<and> content_addressed cr view (srv_store srv)"
  for db :: "'t redb" and cr js view
  by unfold_locales (auto intro: artifact_server_step_content)

section \<open>Properties\<close>

lemma artifact_server_step_authority:
  "srv_manifest_authority (artifact_server_step db cr js req srv) = srv_manifest_authority srv"
proof (cases req)
  case (GetArtifact peer headers sha256 now)
  obtain r srv' where g: "get_artifact db cr js peer headers sha256 now srv = (r, srv')" by fastforce
  then have "srv_manifest_authority srv' = srv_manifest_authority srv"
    unfolding get_artifact_def
    by (rule store_then_keeps [where P = "\<lambda>s. srv_manifest_authority s = srv_manifest_authority srv"])
      (auto dest: ensure_authorized_peer_read_store)
  with GetArtifact g show ?thesis by simp
next
  case (PutArtifact peer headers sha256 body now now2 uuid)
  obtain r srv' where g: "put_artifact db cr js peer headers sha256 body now now2 uuid srv = (r, srv')" by fastforce
  then have "srv_manifest_authority srv' = srv_manifest_authority srv"
    unfolding put_artifact_def
    by (rule store_then_keeps [where P = "\<lambda>s. srv_manifest_authority s = srv_manifest_authority srv"])
      (auto dest: ensure_authorized_peer_store split: if_splits sum.splits)
  with PutArtifact g show ?thesis by simp
next
  case (AuthorizeArtifact peer headers sha256 audiences now fresh)
  obtain r srv' where g: "authorize_artifact db cr js peer headers sha256 audiences now fresh srv = (r, srv')" by fastforce
  then have "srv_manifest_authority srv' = srv_manifest_authority srv"
    unfolding authorize_artifact_def
    by (rule store_then_keeps [where P = "\<lambda>s. srv_manifest_authority s = srv_manifest_authority srv"])
      (auto dest: ensure_authorized_peer_store)
  with AuthorizeArtifact g show ?thesis by simp
qed

lemma artifact_requests_authority:
  "srv_manifest_authority (fold (artifact_server_step db cr js) reqs srv) = srv_manifest_authority srv"
  by (induction reqs arbitrary: srv) (simp_all add: artifact_server_step_authority)


text \<open>A call of the check by manifest, and the answers to a sequence of calls on one replay cache.\<close>

record manifest_call =
  mc_headers :: header_map
  mc_action :: artifact_action
  mc_sha256 :: string
  mc_now :: u64

fun authorize_calls ::
  "crypto \<Rightarrow> signed_manifest serde \<Rightarrow> transfer_authority option \<Rightarrow> manifest_call list \<Rightarrow> (string, u64) hmap \<Rightarrow>
   (manifest_call \<times> (u16, bool) result) list" where
  "authorize_calls cr js authority [] used = []"
| "authorize_calls cr js authority (c # cs) used =
     (case authorize_signed_manifest cr js authority (mc_headers c) (mc_action c) (mc_sha256 c) (mc_now c) used of
        (answer, used') \<Rightarrow> (c, answer) # authorize_calls cr js authority cs used')"

definition spent :: "signed_manifest \<Rightarrow> u64 \<Rightarrow> (string, u64) hmap \<Rightarrow> bool" where
  "spent s now used \<longleftrightarrow> hm_wf used \<and>
     (hm_get used (tm_transfer_id (sm_manifest s)) = Some (tm_expires_at_ms (sm_manifest s)) \<or>
      tm_expires_at_ms (sm_manifest s) \<le> now)"

lemma mark_seen_wf:
  "hm_wf used \<Longrightarrow> mark_single_use_manifest_seen s now used = (r, used') \<Longrightarrow> hm_wf used'"
  by (auto simp: mark_single_use_manifest_seen_def Let_def split: if_splits option.splits)

lemma authorize_wf:
  "hm_wf used \<Longrightarrow> authorize_signed_manifest cr js authority headers action sha256 now used = (r, used') \<Longrightarrow> hm_wf used'"
  by (auto simp: authorize_signed_manifest_def split: option.splits sum.splits prod.splits dest: mark_seen_wf)

lemma mark_seen_keeps_spent:
  assumes "spent s now used" and "now \<le> now'" and "mark_single_use_manifest_seen t now' used = (r, used')"
  shows "spent s now' used'"
proof (cases "tm_expires_at_ms (sm_manifest s) \<le> now'")
  case True
  with assms show ?thesis by (auto simp: spent_def dest: mark_seen_wf)
next
  case False
  then have "hm_wf used" "hm_get used (tm_transfer_id (sm_manifest s)) = Some (tm_expires_at_ms (sm_manifest s))"
    using assms(1,2) by (auto simp: spent_def)
  with False assms(3) show ?thesis
    by (auto simp: spent_def mark_single_use_manifest_seen_def Let_def hm.get_retain split: if_splits option.splits)
qed

lemma authorize_keeps_spent:
  assumes "spent s now used" and "now \<le> now'"
    and "authorize_signed_manifest cr js authority headers action sha256 now' used = (r, used')"
  shows "spent s now' used'"
proof -
  have "spent s now' used" using assms(1,2) by (auto simp: spent_def)
  then show ?thesis
    using assms(3) mark_seen_keeps_spent [OF assms(1,2)]
    by (auto simp: authorize_signed_manifest_def split: option.splits sum.splits prod.splits)
qed

lemma spent_refused:
  assumes "spent s now used" and "tm_single_use (sm_manifest s)" and "header_manifest cr js headers = Some s"
  shows "fst (authorize_signed_manifest cr js authority headers action sha256 now used) \<noteq> Inr True"
proof
  assume "fst (authorize_signed_manifest cr js authority headers action sha256 now used) = Inr True"
  then obtain used' where "authorize_signed_manifest cr js authority headers action sha256 now used = (Inr True, used')"
    by (metis prod.collapse)
  then obtain a s' where s': "header_manifest cr js headers = Some s'"
      "verify_manifest cr a s' sha256 (action_as_method action) (requester_node_id headers) now = Inr ()"
      "mark_single_use_manifest_seen s' now used = (Inr (), used')"
    by (rule authorize_signed_manifest_True)
  then have "now < tm_expires_at_ms (sm_manifest s)" "s' = s"
    using assms(3) by (auto simp: verify_manifest_Ok_iff Let_def)
  with assms(1,2) s'(3) show False
    by (auto simp: spent_def mark_single_use_manifest_seen_def Let_def hm.get_retain split: option.splits)
qed

lemma accepted_is_spent:
  assumes "hm_wf used" and "tm_single_use (sm_manifest s)" and "header_manifest cr js headers = Some s"
    and "authorize_signed_manifest cr js authority headers action sha256 now used = (Inr True, used')"
  shows "spent s now used'"
  using authorize_signed_manifest_True [OF assms(4)] assms(1-3) authorize_wf [OF assms(1,4)]
  by (metis (mono_tags, lifting) mark_single_use_manifest_seen_def hm.get_insert option.inject prod.inject spent_def
      option.case_eq_if sum.distinct(1) Inl_Inr_False)

lemma spent_run_refused:
  assumes "spent s t used" and "sorted (t # map mc_now cs)" and "tm_single_use (sm_manifest s)"
  shows "filter (\<lambda>(c, answer). header_manifest cr js (mc_headers c) = Some s \<and> answer = Inr True)
    (authorize_calls cr js authority cs used) = []"
  using assms(1,2)
proof (induction cs arbitrary: t used)
  case (Cons c cs)
  obtain answer used' where step: "authorize_signed_manifest cr js authority (mc_headers c) (mc_action c) (mc_sha256 c)
      (mc_now c) used = (answer, used')" by fastforce
  have le: "t \<le> mc_now c" using Cons.prems(2) by simp
  have "spent s (mc_now c) used'"
    by (rule authorize_keeps_spent [OF Cons.prems(1) le step])
  moreover have "spent s (mc_now c) used" using Cons.prems(1) le by (auto simp: spent_def)
  then have "\<not> (header_manifest cr js (mc_headers c) = Some s \<and> answer = Inr True)"
    using spent_refused [of s "mc_now c" used cr js "mc_headers c" authority "mc_action c" "mc_sha256 c"] assms(3) step
    by auto
  ultimately show ?case
    using Cons.IH [of "mc_now c" used'] Cons.prems(2) by (simp add: step)
qed simp

text \<open>
  (C18) A single-use manifest authorises at most one request: in a sequence of requests whose clock
  readings do not go back, at most one that carries the manifest is authorised by it.
\<close>

theorem single_use_at_most_once:
  assumes "hm_wf used" and "sorted (map mc_now cs)" and "tm_single_use (sm_manifest s)"
  shows "length (filter (\<lambda>(c, answer). header_manifest cr js (mc_headers c) = Some s \<and> answer = Inr True)
    (authorize_calls cr js authority cs used)) \<le> 1"
  using assms(1,2)
proof (induction cs arbitrary: used)
  case (Cons c cs)
  obtain answer used' where step: "authorize_signed_manifest cr js authority (mc_headers c) (mc_action c) (mc_sha256 c)
      (mc_now c) used = (answer, used')" by fastforce
  show ?case
  proof (cases "header_manifest cr js (mc_headers c) = Some s \<and> answer = Inr True")
    case True
    then have "spent s (mc_now c) used'"
      using accepted_is_spent [OF Cons.prems(1) assms(3)] step by blast
    from spent_run_refused [OF this _ assms(3), of cs cr js authority] Cons.prems(2)
    show ?thesis by (simp add: step)
  next
    case False
    with Cons.IH [OF authorize_wf [OF Cons.prems(1) step]] Cons.prems(2) show ?thesis
      by (auto simp: step)
  qed
qed simp

lemma expiry_of_new:
  assumes "unat t + unat ttl * 1000 < 2 ^ 64"
  shows "unat (saturating_add t (saturating_mul ttl 1000)) = unat t + unat ttl * 1000"
proof -
  have "unat ttl * 1000 < 2 ^ 64" using assms by linarith
  then have mul: "saturating_mul ttl 1000 = ttl * 1000" "unat (ttl * 1000) = unat ttl * 1000"
    by (simp_all add: saturating_mul_def unat_word_ariths)
  with assms show ?thesis
    by (simp add: saturating_add_def unat_word_ariths)
qed

lemma issued_signature_verifies:
  assumes "crypto_contract cr"
  shows "verify_signature cr (authority_key cr a) (sign_manifest cr (ta_signing_seed a) m) = Inr ()"
  using assms by (simp add: verify_signature_def sign_manifest_def authority_key_def crypto_contract_def)

text \<open>
  An issued manifest does its job: sent in the header by the requester it is bound to, it
  authorises the request for its artifact and method as long as its lifetime lasts, and if it is
  single-use, as long as it has not been used.
\<close>

theorem issued_manifest_accepted:
  assumes "crypto_contract cr" and "serde_contract js"
    and "encode_header_value cr js (issue_manifest cr a t uuid sha256 (action_as_method action) ttl single_use
           (requester_node_id headers)) = Inr v"
    and "header_str headers ''x-wasm-artifact-transfer-manifest'' = Some v"
    and "0 < ttl" and "unat t + unat ttl * 1000 < 2 ^ 64" and "unat now < unat t + unat ttl * 1000"
    and "hm_wf used" and "single_use \<Longrightarrow> hm_get used uuid = None"
  shows "fst (authorize_signed_manifest cr js (Some a) headers action sha256 now used) = Inr True"
proof -
  let ?s = "issue_manifest cr a t uuid sha256 (action_as_method action) ttl single_use (requester_node_id headers)"
  obtain json where json: "sd_to_string js ?s = Inr json" "v = cr_hex_encode cr json"
    using assms(3) by (auto simp: encode_header_value_def try_then_Ok_iff)
  then have "decode_header_value cr js v = Inr ?s"
    using assms(1,2) by (simp add: decode_header_value_def crypto_contract_def serde_contract_def)
  then have hdr: "header_manifest cr js headers = Some ?s"
    using assms(4) by (simp add: header_manifest_def)
  have sig: "verify_signature cr (authority_key cr a) ?s = Inr ()"
    using issued_signature_verifies [OF assms(1)] by (simp add: issue_manifest_def)
  have ttl: "0 < unat ttl" using assms(5) by (simp add: word_less_nat_alt)
  have exp: "t < saturating_add t (saturating_mul ttl 1000)" "now < saturating_add t (saturating_mul ttl 1000)"
    unfolding word_less_nat_alt expiry_of_new [OF assms(6)] using ttl assms(7) by simp_all
  have "verify_manifest cr a ?s sha256 (action_as_method action) (requester_node_id headers) now = Inr ()"
    unfolding verify_manifest_Ok_iff using sig exp
    by (simp add: issue_manifest_def sign_manifest_def new_manifest_def)
  moreover have "fst (mark_single_use_manifest_seen ?s now used) = Inr ()"
    using assms(8,9) by (simp add: mark_single_use_manifest_seen_def Let_def issue_manifest_def sign_manifest_def
        new_manifest_def hm.get_retain)
  ultimately show ?thesis
    using hdr by (cases "mark_single_use_manifest_seen ?s now used")
      (auto simp: authorize_signed_manifest_def split: sum.splits)
qed

section \<open>Witnesses\<close>

definition w_crypto :: crypto where
  "w_crypto = \<lparr> cr_sha256 = (\<lambda>x. ''d'' @ x), cr_hex_encode = (\<lambda>x. ''h'' @ x @ ''h''),
     cr_hex_decode = (\<lambda>x. case x of [] \<Rightarrow> Inl ''empty'' | c # cs \<Rightarrow> Inr (butlast cs)),
     ed_public = (\<lambda>k. k), ed_sign = (\<lambda>k m. k @ m), ed_signature = Inr,
     ed_verify = (\<lambda>k m sig. if sig = k @ m then Inr () else Inl ''bad signature'') \<rparr>"

lemma w_crypto_contract: "crypto_contract w_crypto"
  by (simp add: crypto_contract_def w_crypto_def str_trim_def is_whitespace_def)

definition w_authority :: transfer_authority where
  "w_authority = \<lparr> ta_local_node_id = ''node-1'', ta_signing_seed = ''seed'' \<rparr>"

definition w_manifest :: transfer_manifest where
  "w_manifest = new_manifest w_authority 1000 ''id-1'' ''hdmodh'' TransferGet 60 False None"

definition w_signed :: signed_manifest where
  "w_signed = sign_manifest w_crypto ''seed'' w_manifest"

definition w_signed_once :: signed_manifest where
  "w_signed_once = sign_manifest w_crypto ''seed'' (w_manifest\<lparr>tm_single_use := True\<rparr>)"

definition w_manifest_serde :: "signed_manifest serde" where
  "w_manifest_serde = list_serde [w_signed, w_signed_once]"

definition w_headers :: header_map where
  "w_headers = [''x-wasm-artifact-transfer-manifest'' \<mapsto> Visible ''hh'']"

definition w_empty_store :: "(string, string) hmap app_store" where
  "w_empty_store = \<lparr> st_artifacts = [], st_raw_wasm = [], st_configs = [], st_metrics = [], st_routes = [],
     st_schema_meta = [], st_artifact_hashes = [], st_artifact_verifications = [] \<rparr>"

definition w_server :: "(string, string) hmap artifact_server" where
  "w_server = artifact_router (w_empty_store\<lparr>st_raw_wasm := [(''hdmodh'', ''mod'')]\<rparr>) [] (Some w_authority)"

lemma w_uploaded:
  "snd (put_artifact mem_redb w_crypto w_manifest_serde (V4 0x7F000001) Map.empty ''hdmodh'' ''mod'' 0 0 ''u''
     (artifact_router w_empty_store [] (Some w_authority))) = w_server"
proof -
  have "is_loopback (V4 0x7F000001)" by code_simp
  then show ?thesis
    by (simp add: put_artifact_def store_then_def ensure_authorized_peer_def MAX_ARTIFACT_SIZE_def w_crypto_def save_raw_wasm_def
        raw_put_def mem_redb_def w_server_def artifact_router_def w_empty_store_def hm_insert_def)
qed

lemma w_header: "header_manifest w_crypto w_manifest_serde w_headers = Some w_signed"
  by (simp add: header_manifest_def header_str_def w_headers_def decode_header_value_def w_crypto_def
      w_manifest_serde_def list_serde_def str_trim_def is_whitespace_def)

lemma w_requester: "requester_node_id w_headers = None"
  by (simp add: requester_node_id_def nonempty_trimmed_def header_str_def w_headers_def)

lemma w_verify: "verify_manifest w_crypto w_authority w_signed ''hdmodh'' TransferGet None 2000 = Inr ()"
proof -
  have "verify_signature w_crypto (authority_key w_crypto w_authority) w_signed = Inr ()"
    using issued_signature_verifies [OF w_crypto_contract, of w_authority w_manifest]
    by (simp add: w_signed_def w_authority_def)
  then show ?thesis
    unfolding verify_manifest_Ok_iff
    by (simp add: w_signed_def sign_manifest_def w_manifest_def new_manifest_def w_authority_def
        saturating_add_def saturating_mul_def)
qed

lemma w_get: "get_artifact mem_redb w_crypto w_manifest_serde (V4 0x0A000001) w_headers ''hdmodh'' 2000 w_server =
  (Inr ''mod'', w_server)"
proof -
  have once: "\<not> tm_single_use (sm_manifest w_signed)"
    by (simp add: w_signed_def sign_manifest_def w_manifest_def new_manifest_def)
  have "\<not> is_loopback (V4 0x0A000001)" by (simp add: is_loopback_def)
  then have "ensure_authorized_peer_read w_crypto w_manifest_serde (V4 0x0A000001) w_headers ''hdmodh'' 2000 w_server =
      (Ok (), w_server)"
    using w_header w_requester w_verify once
    by (simp add: ensure_authorized_peer_read_def authorize_signed_manifest_def w_server_def artifact_router_def
        mark_single_use_manifest_seen_def)
  then show ?thesis
    by (simp add: get_artifact_def store_then_def load_raw_wasm_def raw_get_def mem_redb_def w_server_def
        artifact_router_def hm_get_def)
qed

lemma w_plain: "plain_manifest w_manifest"
proof -
  have "newline \<notin> set (show_nat n)" for n
    using show_nat_digits [of n] by (auto simp: list_all_iff is_ascii_digit_def newline_def)
  then show ?thesis
    by (simp add: plain_manifest_def payload_fields_def w_manifest_def new_manifest_def w_authority_def
        artifact_path_of_def newline_def)
qed


definition w_call :: "u64 \<Rightarrow> manifest_call" where
  "w_call now = \<lparr> mc_headers = [''x-wasm-artifact-transfer-manifest'' \<mapsto> Visible ''h#h''],
     mc_action = ArtifactRead, mc_sha256 = ''hdmodh'', mc_now = now \<rparr>"

theorem single_use_at_most_once_witness:
  "length (filter (\<lambda>(c, answer). header_manifest w_crypto w_manifest_serde (mc_headers c) = Some w_signed_once \<and>
      answer = Inr True)
    (authorize_calls w_crypto w_manifest_serde (Some w_authority) [w_call 1500, w_call 1500, w_call 1600] [])) \<le> 1"
  by (rule single_use_at_most_once)
    (simp_all add: w_call_def w_signed_once_def sign_manifest_def)

theorem issued_manifest_accepted_witness:
  "fst (authorize_signed_manifest w_crypto w_manifest_serde (Some w_authority) w_headers ArtifactRead ''hdmodh'' 2000 []) = Inr True"
proof (rule issued_manifest_accepted [OF w_crypto_contract])
  show "serde_contract w_manifest_serde"
    by (simp add: w_manifest_serde_def list_serde_contract)
  have "issue_manifest w_crypto w_authority 1000 ''id-1'' ''hdmodh'' (action_as_method ArtifactRead) 60 False
      (requester_node_id w_headers) = w_signed"
    by (simp add: issue_manifest_def w_signed_def w_manifest_def w_requester w_authority_def)
  then show "encode_header_value w_crypto w_manifest_serde (issue_manifest w_crypto w_authority 1000 ''id-1'' ''hdmodh''
      (action_as_method ArtifactRead) 60 False (requester_node_id w_headers)) = Inr ''hh''"
    by (simp add: encode_header_value_def w_manifest_serde_def list_serde_def w_crypto_def upt_rec)
  show "header_str w_headers ''x-wasm-artifact-transfer-manifest'' = Some ''hh''"
    by (simp add: w_headers_def header_str_def)
qed simp_all

end
