(* ===== verification/Artifact_Ingest.thy ===== *)
theory Artifact_Ingest
  imports Artifact_Transfer Cluster_State
begin

text \<open>
  Deployment by intent (\<open>crates/node/src/handlers/deploy_intent.rs\<close>, types of
  \<open>crates/common/src/deploy.rs\<close>): references to OCI registries, the download of a module with its size
  limit and digest check, its storage with manifests for the other nodes, the validation of a request
  and the events that it publishes. The HTTP client, the URL and JSON parsers, the secret provider and
  the message bus are parameters; audit records are output only.

  The theorems: a downloaded module has the digest that was asked for and is stored under it, an OCI
  reference reads back, and deploying with API keys but without a gateway configuration resets the
  application's gateway configuration to the public one.
\<close>

section \<open>Requests\<close>

record artifact_signature =
  asg_algorithm :: string
  asg_public_key :: string
  asg_signature :: string
  asg_payload :: "string option"
  asg_issuer :: "string option"
  asg_identity :: "string option"
  asg_repository :: "string option"
  asg_namespace :: "string option"

definition default_signature_algorithm :: string where
  "default_signature_algorithm = ''ed25519''"

record remote_artifact_source =
  ras_reference :: "string option"
  ras_url :: string
  ras_sha256 :: string
  ras_credential_ref :: "string option"
  ras_signature :: "artifact_signature option"

record deploy_intent_request =
  dir_app_id :: app_id
  dir_config :: app_config
  dir_gateway_config :: "gateway_route_config option"
  dir_routes :: "route list"
  dir_api_keys :: "api_key_record list"
  dir_artifact :: remote_artifact_source

record ingress_response =
  ir_source_node_id :: string
  ir_artifact_url :: string
  ir_expected_hash :: string
  ir_size_bytes :: nat
  ir_manifests :: "audience_binding list"

record deploy_intent_response =
  dr_app_id :: app_id
  dr_artifact_url :: string
  dr_expected_hash :: string
  dr_size_bytes :: nat
  dr_source_node_id :: string
  dr_manifests :: "audience_binding list"
  dr_gateway_config_published :: bool
  dr_route_count :: nat
  dr_api_key_count :: nat

datatype deploy_error =
    ConfigValidation string
  | External string
  | Security string
  | DeployStorage storage_error
  | SecretFailed string

section \<open>Parameters\<close>

record parsed_url =
  pu_scheme :: string
  pu_host :: "string option"
  pu_str :: string

text \<open>A response with the chunks of its body; an unreadable chunk ends the body with an error.\<close>

record http_response =
  hr_status :: u16
  hr_content_length :: "u64 option"
  hr_chunks :: "(string, string) result list"

record oci_descriptor =
  od_digest :: string
  od_platform :: "(string \<times> string) option"

record oci_manifest =
  om_config :: "oci_descriptor option"
  om_layers :: "oci_descriptor list"
  om_manifests :: "oci_descriptor list"

record deploy_libs =
  dl_url_parse :: "string \<Rightarrow> (string, parsed_url) result"
  dl_get :: "string \<Rightarrow> string option \<Rightarrow> string option \<Rightarrow> (string, http_response) result"
  dl_oci_json :: "string \<Rightarrow> (string, oci_manifest) result"
  dl_os :: string
  dl_arch :: string

section \<open>Addresses\<close>

definition host_is_loopback :: "string \<Rightarrow> bool" where
  "host_is_loopback trimmed =
     (eq_ignore_ascii_case trimmed ''localhost'' \<or>
      (case parse_ip trimmed of Some ip \<Rightarrow> is_loopback ip | None \<Rightarrow> False))"

definition strip_brackets :: "string \<Rightarrow> string" where
  "strip_brackets host = trim_end_char (CHR '']'') (trim_start_char (CHR ''['') (str_trim host))"

definition is_loopback_artifact_url :: "deploy_libs \<Rightarrow> string \<Rightarrow> bool" where
  "is_loopback_artifact_url libs url =
     (case dl_url_parse libs url of
        Inl _ \<Rightarrow> False
      | Inr parsed \<Rightarrow>
          (case pu_host parsed of None \<Rightarrow> False | Some host \<Rightarrow> host_is_loopback (strip_brackets host)))"

definition validate_peer_artifact_url :: "deploy_libs \<Rightarrow> string \<Rightarrow> string \<Rightarrow> (deploy_error, unit) result" where
  "validate_peer_artifact_url libs node url =
     (if is_loopback_artifact_url libs url
      then Err (ConfigValidation (''node '' @ node @ '' advertised loopback artifact URL '' @ url @
             '' which is invalid for remote cluster exchange''))
      else Ok ())"

definition artifact_credentials_app_id :: app_id where
  "artifact_credentials_app_id = AppId ''_platform/artifact-credentials:v1''"

definition resolve_artifact_authorization_header ::
  "(app_id \<Rightarrow> string \<Rightarrow> (string, string) result) \<Rightarrow> string \<Rightarrow> (deploy_error, string) result" where
  "resolve_artifact_authorization_header secret credential_ref =
     try_then (err_as SecretFailed (secret artifact_credentials_app_id credential_ref)) (\<lambda>value.
       let trimmed = str_trim value in
       case strip_prefix ''authorization:'' trimmed of
         Some header \<Rightarrow> Ok (str_trim header)
       | None \<Rightarrow> Ok (''Bearer '' @ trimmed))"

definition trim_artifact_base_url :: "string \<Rightarrow> string" where
  "trim_artifact_base_url base = trim_end_char (CHR ''/'') base"

definition registry_base_url :: "string \<Rightarrow> string" where
  "registry_base_url registry =
     (let host = strip_brackets (hd (str_split (CHR '':'') registry));
          scheme = (if host_is_loopback host then ''http'' else ''https'')
      in scheme @ ''://'' @ registry)"

section \<open>OCI references\<close>

record oci_reference =
  or_registry :: string
  or_repository :: string
  or_reference :: string
  or_is_digest :: bool

definition normalized_host_architecture :: "deploy_libs \<Rightarrow> string" where
  "normalized_host_architecture libs =
     (if dl_arch libs = ''x86_64'' then ''amd64'' else if dl_arch libs = ''aarch64'' then ''arm64'' else dl_arch libs)"

definition preferred_oci_platforms :: "deploy_libs \<Rightarrow> (string \<times> string) list" where
  "preferred_oci_platforms libs =
     [(dl_os libs, normalized_host_architecture libs), (''wasi'', ''wasm''), (''wasi'', ''wasm32''),
      (''wasip2'', ''wasm''), (''wasip2'', ''wasm32'')]"

definition descriptor_matches :: "string \<times> string \<Rightarrow> oci_descriptor \<Rightarrow> bool" where
  "descriptor_matches wanted d =
     (case od_platform d of
        None \<Rightarrow> False
      | Some (os, arch) \<Rightarrow> eq_ignore_ascii_case os (fst wanted) \<and> eq_ignore_ascii_case arch (snd wanted))"

fun first_matching :: "(string \<times> string) list \<Rightarrow> oci_descriptor list \<Rightarrow> oci_descriptor option" where
  "first_matching [] ds = None"
| "first_matching (w # ws) ds =
     (case find (descriptor_matches w) ds of Some d \<Rightarrow> Some d | None \<Rightarrow> first_matching ws ds)"

definition select_oci_manifest_descriptor :: "deploy_libs \<Rightarrow> oci_descriptor list \<Rightarrow> oci_descriptor option" where
  "select_oci_manifest_descriptor libs ds =
     (case first_matching (preferred_oci_platforms libs) ds of
        Some d \<Rightarrow> Some d
      | None \<Rightarrow>
          if list_all (\<lambda>d. od_platform d = None) ds
          then (case ds of [] \<Rightarrow> None | d # _ \<Rightarrow> Some d) else None)"

definition missing_tag :: deploy_error where
  "missing_tag = ConfigValidation ''OCI artifact reference must include a tag or digest''"

text \<open>\<open>rfind\<close> as a split at the last occurrence; the tag's colon must come after the last slash.\<close>

definition split_oci_reference :: "string \<Rightarrow> (deploy_error, string \<times> string) result" where
  "split_oci_reference repo_and_ref =
     (case rsplit_once (CHR ''@'') repo_and_ref of
        Some parts \<Rightarrow> Ok parts
      | None \<Rightarrow>
          (case rsplit_once (CHR '':'') repo_and_ref of
             None \<Rightarrow> Err missing_tag
           | Some (repository, tag) \<Rightarrow>
               let last_slash = (case rsplit_once (CHR ''/'') repo_and_ref of None \<Rightarrow> 0 | Some (before, _) \<Rightarrow> length before)
               in if length repository \<le> last_slash then Err missing_tag else Ok (repository, tag)))"

definition parse_oci_reference :: "string \<Rightarrow> (deploy_error, oci_reference) result" where
  "parse_oci_reference reference =
     (case strip_prefix ''oci://'' reference of
        None \<Rightarrow> Err (ConfigValidation ''OCI artifact reference must start with oci://'')
      | Some without_scheme \<Rightarrow>
          (case split_once (CHR ''/'') without_scheme of
             None \<Rightarrow> Err (ConfigValidation ''OCI artifact reference must include a registry and repository path'')
           | Some (registry, repo_and_ref) \<Rightarrow>
               try_then (split_oci_reference repo_and_ref) (\<lambda>(repository, reference_value).
               if str_trim registry = [] \<or> str_trim repository = [] \<or> str_trim reference_value = []
               then Err (ConfigValidation ''OCI artifact reference contains an empty registry, repository, or tag/digest'')
               else Ok \<lparr> or_registry = registry, or_repository = repository, or_reference = reference_value,
                         or_is_digest = (CHR ''@'' \<in> set repo_and_ref) \<rparr>)))"

definition oci_reference_is_digest_pinned :: "string \<Rightarrow> (deploy_error, bool) result" where
  "oci_reference_is_digest_pinned reference =
     try_then (parse_oci_reference reference) (\<lambda>r. Ok (or_is_digest r))"

section \<open>Downloads\<close>

definition MAX_REMOTE_ARTIFACT_BYTES :: nat where
  "MAX_REMOTE_ARTIFACT_BYTES = 64 * 1024 * 1024"

definition is_success :: "u16 \<Rightarrow> bool" where
  "is_success status = (200 \<le> status \<and> status < 300)"

definition too_large :: "string \<Rightarrow> nat \<Rightarrow> nat \<Rightarrow> deploy_error" where
  "too_large what n max_bytes =
     Security (what @ '' exceeds maximum size: '' @ show_nat n @ '' bytes > '' @ show_nat max_bytes @ '' bytes'')"

fun read_chunks :: "nat \<Rightarrow> string \<Rightarrow> string \<Rightarrow> (string, string) result list \<Rightarrow> (deploy_error, string) result" where
  "read_chunks max_bytes what bytes [] = Ok bytes"
| "read_chunks max_bytes what bytes (Inl e # rest) = Err (External e)"
| "read_chunks max_bytes what bytes (Inr chunk # rest) =
     (if max_bytes < length bytes + length chunk then Err (too_large what (length bytes + length chunk) max_bytes)
      else read_chunks max_bytes what (bytes @ chunk) rest)"

definition read_response_bytes_with_limit ::
  "http_response \<Rightarrow> nat \<Rightarrow> string \<Rightarrow> (deploy_error, string) result" where
  "read_response_bytes_with_limit r max_bytes what =
     (case hr_content_length r of
        Some n \<Rightarrow> if max_bytes < unat n then Err (too_large what (unat n) max_bytes)
                  else read_chunks max_bytes what [] (hr_chunks r)
      | None \<Rightarrow> read_chunks max_bytes what [] (hr_chunks r))"

definition fetch_http_artifact_bytes ::
  "deploy_libs \<Rightarrow> crypto \<Rightarrow> string \<Rightarrow> string \<Rightarrow> string option \<Rightarrow> (deploy_error, string) result" where
  "fetch_http_artifact_bytes libs cr url expected_hash authorization =
     try_then (err_as (\<lambda>e. ConfigValidation (''invalid artifact URL: '' @ e)) (dl_url_parse libs url)) (\<lambda>parsed.
     if pu_scheme parsed \<noteq> ''http'' \<and> pu_scheme parsed \<noteq> ''https''
     then Err (ConfigValidation (''unsupported artifact URL scheme: '' @ pu_scheme parsed))
     else try_then (err_as External (dl_get libs (pu_str parsed) authorization None)) (\<lambda>response.
     if \<not> is_success (hr_status response)
     then Err (External (''artifact download failed with HTTP '' @ show_nat (unat (hr_status response))))
     else try_then (read_response_bytes_with_limit response MAX_REMOTE_ARTIFACT_BYTES ''remote artifact download'') (\<lambda>bytes.
     let actual_hash = cr_hex_encode cr (cr_sha256 cr bytes) in
     if actual_hash \<noteq> expected_hash
     then Err (Security (''artifact sha256 mismatch: expected '' @ expected_hash @ '', got '' @ actual_hash))
     else Ok bytes)))"

definition strip_sha256_prefix :: "string \<Rightarrow> (deploy_error, string) result" where
  "strip_sha256_prefix digest =
     (case strip_prefix ''sha256:'' digest of
        None \<Rightarrow> Err (ConfigValidation ''OCI digest must use sha256'')
      | Some hash \<Rightarrow>
          if length hash \<noteq> 64 \<or> \<not> list_all is_ascii_hexdigit hash
          then Err (ConfigValidation ''OCI digest contains an invalid sha256 value'')
          else Ok (to_ascii_lowercase hash))"

text \<open>The media types that the manifest request accepts.\<close>

definition OCI_ACCEPT_HEADER :: string where
  "OCI_ACCEPT_HEADER = ''application/vnd.oci.image.manifest.v1+json,'' @
     ''application/vnd.oci.image.index.v1+json,'' @ ''application/vnd.docker.distribution.manifest.v2+json,'' @
     ''application/vnd.docker.distribution.manifest.list.v2+json,'' @ ''application/vnd.oci.artifact.manifest.v1+json''"

definition fetch_oci_manifest_document ::
  "deploy_libs \<Rightarrow> string \<Rightarrow> string \<Rightarrow> string \<Rightarrow> string option \<Rightarrow> (deploy_error, oci_manifest) result" where
  "fetch_oci_manifest_document libs registry repository reference authorization =
     try_then (err_as External (dl_get libs
        (registry_base_url registry @ ''/v2/'' @ repository @ ''/manifests/'' @ reference) authorization
        (Some OCI_ACCEPT_HEADER))) (\<lambda>response.
     if \<not> is_success (hr_status response)
     then Err (External (''OCI manifest fetch failed with HTTP '' @ show_nat (unat (hr_status response))))
     else try_then (err_as External (collect_results (hr_chunks response))) (\<lambda>chunks.
          err_as External (dl_oci_json libs (concat chunks))))"

text \<open>The loop of at most four rounds; the rounds left are the first argument.\<close>

fun resolve_digest_rounds ::
  "nat \<Rightarrow> deploy_libs \<Rightarrow> oci_reference \<Rightarrow> string option \<Rightarrow> string \<Rightarrow> (deploy_error, string) result" where
  "resolve_digest_rounds 0 libs r authorization current =
     Err (ConfigValidation ''OCI manifest resolution exceeded recursion limit'')"
| "resolve_digest_rounds (Suc n) libs r authorization current =
     try_then (fetch_oci_manifest_document libs (or_registry r) (or_repository r) current authorization) (\<lambda>manifest.
     case om_layers manifest of
       d # _ \<Rightarrow> strip_sha256_prefix (od_digest d)
     | [] \<Rightarrow>
         (case select_oci_manifest_descriptor libs (om_manifests manifest) of
            Some d \<Rightarrow> resolve_digest_rounds n libs r authorization (od_digest d)
          | None \<Rightarrow>
              if om_manifests manifest \<noteq> []
              then Err (ConfigValidation ''OCI manifest list did not contain a descriptor matching this node platform'')
              else (case om_config manifest of
                  Some d \<Rightarrow> strip_sha256_prefix (od_digest d)
                | None \<Rightarrow> Err (ConfigValidation ''OCI manifest did not contain a fetchable blob descriptor''))))"

definition resolve_oci_blob_digest ::
  "deploy_libs \<Rightarrow> oci_reference \<Rightarrow> string option \<Rightarrow> (deploy_error, string) result" where
  "resolve_oci_blob_digest libs r authorization = resolve_digest_rounds 4 libs r authorization (or_reference r)"

definition fetch_oci_artifact_bytes ::
  "deploy_libs \<Rightarrow> crypto \<Rightarrow> string \<Rightarrow> string option \<Rightarrow> (deploy_error, string \<times> string) result" where
  "fetch_oci_artifact_bytes libs cr reference authorization =
     try_then (parse_oci_reference reference) (\<lambda>parsed.
     try_then (if starts_with (or_reference parsed) ''sha256:'' then strip_sha256_prefix (or_reference parsed)
               else resolve_oci_blob_digest libs parsed authorization) (\<lambda>blob_hash.
     try_then (fetch_http_artifact_bytes libs cr
        (registry_base_url (or_registry parsed) @ ''/v2/'' @ or_repository parsed @ ''/blobs/sha256:'' @ blob_hash)
        blob_hash authorization) (\<lambda>bytes. Ok (blob_hash, bytes))))"

section \<open>Ingestion\<close>

text \<open>
  The source lowers the digest with the Unicode \<open>to_lowercase\<close>; no character outside ASCII becomes a
  hexadecimal digit by it, so that it agrees with the ASCII one up to the text of the mismatch message.
\<close>

definition fetch_artifact ::
  "deploy_libs \<Rightarrow> crypto \<Rightarrow> remote_artifact_source \<Rightarrow> string option \<Rightarrow> (deploy_error, string \<times> string) result" where
  "fetch_artifact libs cr artifact authorization =
     (case ras_reference artifact of
        Some reference \<Rightarrow> fetch_oci_artifact_bytes libs cr reference authorization
      | None \<Rightarrow>
          if str_trim (ras_url artifact) = []
          then Err (ConfigValidation ''remote artifact source must include either url or reference'')
          else if str_trim (ras_sha256 artifact) = []
          then Err (ConfigValidation ''remote artifact URL sources require sha256'')
          else let expected_hash = to_ascii_lowercase (ras_sha256 artifact)
               in try_then (fetch_http_artifact_bytes libs cr (ras_url artifact) expected_hash authorization) (\<lambda>bytes.
                  Ok (expected_hash, bytes)))"

text \<open>The state that a deployment changes: the store, the table of API keys, and the events published.\<close>

datatype deploy_event =
    DeployAppEvent app_id app_config string "audience_binding list" string nat
  | GatewayConfigUpdateEvent app_id gateway_route_config
  | RouteAddEvent route

record 't deploy_state =
  ds_store :: "'t app_store"
  ds_cluster_nodes :: 't
  ds_api_keys :: 't
  ds_published :: "deploy_event list"

record 't deploy_context =
  dc_db :: "'t redb"
  dc_libs :: deploy_libs
  dc_crypto :: crypto
  dc_secret :: "app_id \<Rightarrow> string \<Rightarrow> (string, string) result"
  dc_nodes_json :: "cluster_node_record serde"
  dc_keys_json :: "api_key_record list serde"
  dc_artifact_server_url :: string
  dc_authority :: transfer_authority
  dc_node_id :: string
  dc_stale_after_secs :: u64
  dc_publish :: "deploy_event \<Rightarrow> deploy_event list \<Rightarrow> (string, unit) result"

text \<open>
  The secret provider is a parameter of which the answer matters here; what its own read may create, the key and the
  first bundle of an application, is in a table of its own (\<open>Secret_Store\<close>) that nothing below reads.
\<close>

definition resolve_authorization ::
  "'t deploy_context \<Rightarrow> remote_artifact_source \<Rightarrow> (deploy_error, string option) result" where
  "resolve_authorization c artifact =
     (case ras_credential_ref artifact of
        None \<Rightarrow> Ok None
      | Some credential_ref \<Rightarrow>
          try_then (resolve_artifact_authorization_header (dc_secret c) credential_ref) (\<lambda>h. Ok (Some h)))"

definition target_node_ids ::
  "'t deploy_context \<Rightarrow> u64 option \<Rightarrow> cluster_node_record list \<Rightarrow> string list" where
  "target_node_ids c now nodes =
     filter (\<lambda>peer. peer \<noteq> dc_node_id c)
       (map cn_node_id (filter (\<lambda>n. \<not> cluster_node_is_stale now (dc_stale_after_secs c) n) nodes))"

definition manifests_for_targets ::
  "'t deploy_context \<Rightarrow> (nat \<Rightarrow> u64 \<times> string) \<Rightarrow> string \<Rightarrow> string list \<Rightarrow> audience_binding list" where
  "manifests_for_targets c fresh sha256 targets =
     map (\<lambda>(i, audience). \<lparr> ab_audience_node_id = audience,
            ab_manifest = issue_read_manifest_for_audience (dc_crypto c) (dc_authority c) (fst (fresh i)) (snd (fresh i))
              sha256 audience \<rparr>) (enumerate 0 targets)"

definition store_fetched ::
  "'t deploy_context \<Rightarrow> string \<Rightarrow> string \<Rightarrow> 't deploy_state \<Rightarrow> (deploy_error, string) result \<times> 't deploy_state" where
  "store_fetched c sha256 bytes s =
     (case load_raw_wasm (dc_db c) sha256 (ds_store s) of
        Inl e \<Rightarrow> (Err (DeployStorage e), s)
      | Inr (Some existing) \<Rightarrow> (Ok existing, s)
      | Inr None \<Rightarrow>
          (case save_raw_wasm (dc_db c) sha256 bytes (ds_store s) of
             Inl e \<Rightarrow> (Err (DeployStorage e), s)
           | Inr st \<Rightarrow> (Ok bytes, s\<lparr>ds_store := st\<rparr>)))"

definition ingest_remote_artifact ::
  "'t deploy_context \<Rightarrow> u64 option \<Rightarrow> (nat \<Rightarrow> u64 \<times> string) \<Rightarrow> remote_artifact_source \<Rightarrow>
   't deploy_state \<Rightarrow> (deploy_error, ingress_response) result \<times> 't deploy_state" where
  "ingest_remote_artifact c now fresh artifact =
     store_then (\<lambda>s. (try_then (resolve_authorization c artifact) (fetch_artifact (dc_libs c) (dc_crypto c) artifact), s))
       (\<lambda>(expected_hash, fetched).
     store_then (store_fetched c expected_hash fetched) (\<lambda>bytes.
     store_then (\<lambda>s. (err_as DeployStorage (list_cluster_nodes (dc_db c) (dc_nodes_json c) (ds_cluster_nodes s)), s)) (\<lambda>nodes s.
       (Ok \<lparr> ir_source_node_id = dc_node_id c,
             ir_artifact_url = trim_artifact_base_url (dc_artifact_server_url c) @ ''/artifacts/'' @ expected_hash,
             ir_expected_hash = expected_hash, ir_size_bytes = length bytes,
             ir_manifests = manifests_for_targets c fresh expected_hash (target_node_ids c now nodes) \<rparr>, s))))"

section \<open>Intents\<close>

definition validate_route :: "app_id \<Rightarrow> route \<Rightarrow> (deploy_error, unit) result" where
  "validate_route app r =
     (if route_app_id r \<noteq> app
      then Err (ConfigValidation (''deploy intent route host '' @ route_host r @ '' targets app_id '' @
             app_id_as_str (route_app_id r) @ '' instead of '' @ app_id_as_str app))
      else if str_trim (route_host r) = [] then Err (ConfigValidation ''deploy intent route host cannot be empty'')
      else Ok ())"

definition validate_deploy_intent_request :: "deploy_intent_request \<Rightarrow> (deploy_error, unit) result" where
  "validate_deploy_intent_request q =
     (if dir_app_id q \<noteq> ac_id (dir_config q)
      then Err (ConfigValidation (''deploy intent app_id '' @ app_id_as_str (dir_app_id q) @
             '' does not match config.id '' @ app_id_as_str (ac_id (dir_config q))))
      else if str_trim (ac_namespace (dir_config q)) \<noteq> app_id_namespace (dir_app_id q)
      then Err (ConfigValidation (''deploy intent namespace '' @ ac_namespace (dir_config q) @
             '' does not match app_id namespace '' @ app_id_namespace (dir_app_id q)))
      else if list_ex (\<lambda>key. str_trim key = [] \<or> CHR ''='' \<in> set key) (ac_secret_keys (dir_config q))
      then Err (ConfigValidation ''deploy intent secret references must be non-empty names, not inline values'')
      else if ras_reference (dir_artifact q) = None \<and> str_trim (ras_sha256 (dir_artifact q)) = []
      then Err (ConfigValidation ''remote HTTP artifact sources require sha256'')
      else try_then (collect_results (map (validate_route (dir_app_id q)) (dir_routes q))) (\<lambda>_. Ok ()))"

definition publish :: "'t deploy_context \<Rightarrow> deploy_event \<Rightarrow> 't deploy_state \<Rightarrow> (deploy_error, unit) result \<times> 't deploy_state" where
  "publish c e s =
     (case dc_publish c e (ds_published s) of
        Inl err \<Rightarrow> (Err (External err), s)
      | Inr _ \<Rightarrow> (Ok (), s\<lparr>ds_published := ds_published s @ [e]\<rparr>))"

definition store_api_keys :: "'t deploy_context \<Rightarrow> deploy_intent_request \<Rightarrow> 't deploy_state \<Rightarrow> (deploy_error, unit) result \<times> 't deploy_state" where
  "store_api_keys c q s =
     (if dir_api_keys q = [] then (Ok (), s)
      else (case save_api_keys (dc_db c) (dc_keys_json c) (app_id_as_str (dir_app_id q)) (dir_api_keys q) (ds_api_keys s) of
          Inl e \<Rightarrow> (Err (DeployStorage e), s)
        | Inr t \<Rightarrow>
            (Ok (), snd (publish c (GatewayConfigUpdateEvent (dir_app_id q)
               (unwrap_or (dir_gateway_config q) gateway_route_config_default)) (s\<lparr>ds_api_keys := t\<rparr>)))))"

definition process_deploy_intent ::
  "'t deploy_context \<Rightarrow> u64 option \<Rightarrow> (nat \<Rightarrow> u64 \<times> string) \<Rightarrow> deploy_intent_request \<Rightarrow>
   't deploy_state \<Rightarrow> (deploy_error, deploy_intent_response) result \<times> 't deploy_state" where
  "process_deploy_intent c now fresh q =
     store_then (\<lambda>s. (validate_deploy_intent_request q, s)) (\<lambda>_.
     store_then (ingest_remote_artifact c now fresh (dir_artifact q)) (\<lambda>ingress.
     store_then (publish c (DeployAppEvent (dir_app_id q) (dir_config q) (ir_artifact_url ingress)
        (ir_manifests ingress) (ir_expected_hash ingress) (ir_size_bytes ingress))) (\<lambda>_.
     store_then (case dir_gateway_config q of
          Some config \<Rightarrow> publish c (GatewayConfigUpdateEvent (dir_app_id q) config)
        | None \<Rightarrow> (\<lambda>s. (Ok (), s))) (\<lambda>_.
     store_then (for_each (\<lambda>r. publish c (RouteAddEvent r)) (dir_routes q)) (\<lambda>_.
     store_then (store_api_keys c q) (\<lambda>_ s.
       (Ok \<lparr> dr_app_id = dir_app_id q, dr_artifact_url = ir_artifact_url ingress,
             dr_expected_hash = ir_expected_hash ingress, dr_size_bytes = ir_size_bytes ingress,
             dr_source_node_id = ir_source_node_id ingress, dr_manifests = ir_manifests ingress,
             dr_gateway_config_published = (dir_gateway_config q \<noteq> None),
             dr_route_count = length (dir_routes q), dr_api_key_count = length (dir_api_keys q) \<rparr>, s)))))))"

section \<open>Downloads are pinned\<close>

lemma read_chunks_Ok:
  assumes "read_chunks max_bytes what bytes chunks = Inr result" and "length bytes \<le> max_bytes"
  shows "length result \<le> max_bytes"
  using assms by (induction max_bytes what bytes chunks rule: read_chunks.induct) (auto split: if_splits)

lemma read_response_Ok:
  "read_response_bytes_with_limit r max_bytes what = Inr result \<Longrightarrow> length result \<le> max_bytes"
  by (auto simp: read_response_bytes_with_limit_def split: option.splits if_splits dest: read_chunks_Ok)

lemma fetch_http_Ok:
  assumes "fetch_http_artifact_bytes libs cr url h authorization = Inr bytes"
  shows "cr_hex_encode cr (cr_sha256 cr bytes) = h \<and> length bytes \<le> MAX_REMOTE_ARTIFACT_BYTES"
  using assms
  by (auto simp: fetch_http_artifact_bytes_def Let_def try_then_Ok_iff split: if_splits dest: read_response_Ok)

lemma read_chunks_bytes:
  "read_chunks m what bytes chunks = Inr result \<Longrightarrow> \<exists>cs. collect_results chunks = Inr cs \<and> result = bytes @ concat cs"
  by (induction m what bytes chunks rule: read_chunks.induct) (auto split: if_splits)

lemma fetch_http_served:
  assumes "fetch_http_artifact_bytes libs cr url h auth = Inr bytes"
  shows "\<exists>parsed r cs. dl_url_parse libs url = Inr parsed \<and> dl_get libs (pu_str parsed) auth None = Inr r \<and>
    collect_results (hr_chunks r) = Inr cs \<and> bytes = concat cs"
  using assms by (fastforce simp: fetch_http_artifact_bytes_def read_response_bytes_with_limit_def try_then_Ok_iff
      Let_def split: if_splits option.splits sum.splits dest: read_chunks_bytes)

lemma fetch_artifact_Ok:
  assumes "fetch_artifact libs cr artifact authorization = Inr (h, bytes)"
  shows "cr_hex_encode cr (cr_sha256 cr bytes) = h" and "length bytes \<le> MAX_REMOTE_ARTIFACT_BYTES"
    and "ras_reference artifact = None \<Longrightarrow> h = to_ascii_lowercase (ras_sha256 artifact)"
proof -
  have "cr_hex_encode cr (cr_sha256 cr bytes) = h \<and> length bytes \<le> MAX_REMOTE_ARTIFACT_BYTES \<and>
      (ras_reference artifact = None \<longrightarrow> h = to_ascii_lowercase (ras_sha256 artifact))"
    using assms fetch_http_Ok
    by (auto simp: fetch_artifact_def fetch_oci_artifact_bytes_def Let_def try_then_Ok_iff split: option.splits if_splits)
  then show "cr_hex_encode cr (cr_sha256 cr bytes) = h" "length bytes \<le> MAX_REMOTE_ARTIFACT_BYTES"
    "ras_reference artifact = None \<Longrightarrow> h = to_ascii_lowercase (ras_sha256 artifact)" by blast+
qed

text \<open>
  What holds of a node's store and of the deployments it has announced: modules are stored under their
  digest, and every announced deployment names a stored module with its size.
\<close>

abbreviation raw_of :: "('t \<Rightarrow> string \<Rightarrow> string option) \<Rightarrow> 't deploy_state \<Rightarrow> string \<Rightarrow> string option" where
  "raw_of view s \<equiv> view (st_raw_wasm (ds_store s))"

definition deployments_stored ::
  "crypto \<Rightarrow> ('t \<Rightarrow> string \<Rightarrow> string option) \<Rightarrow> 't deploy_state \<Rightarrow> bool" where
  "deployments_stored cr view s \<longleftrightarrow>
     content_addressed cr view (ds_store s) \<and>
     (\<forall>app cfg url ms h n. DeployAppEvent app cfg url ms h n \<in> set (ds_published s) \<longrightarrow>
        (\<exists>bytes. raw_of view s h = Some bytes \<and> n = length bytes))"

lemma store_fetched_step:
  assumes db: "redb_contract (dc_db c) view" and "store_fetched c h fetched s = (r, s')"
    and "cr_hex_encode (dc_crypto c) (cr_sha256 (dc_crypto c) fetched) = h"
    and "deployments_stored (dc_crypto c) view s"
  shows "deployments_stored (dc_crypto c) view s' \<and> ds_published s' = ds_published s \<and>
    (\<forall>bytes. r = Inr bytes \<longrightarrow> raw_of view s' h = Some bytes)"
proof (cases "load_raw_wasm (dc_db c) h (ds_store s)")
  case (Inl e)
  with assms(2,4) show ?thesis by (auto simp: store_fetched_def)
next
  case (Inr found)
  have found: "raw_of view s h = found"
    using raw_get_view [OF db] Inr by (simp add: load_raw_wasm_def)
  show ?thesis
  proof (cases found)
    case (Some existing)
    with Inr assms(2,4) found show ?thesis by (auto simp: store_fetched_def)
  next
    case None
    show ?thesis
    proof (cases "save_raw_wasm (dc_db c) h fetched (ds_store s)")
      case (Inl e)
      with Inr None assms(2,4) show ?thesis by (auto simp: store_fetched_def)
    next
      case saved: (Inr st)
      note view = artifact_ops_view(3) [OF db saved]
      have "content_addressed (dc_crypto c) view st"
        using content_addressed_save [OF db _ saved] assms(3,4) by (simp add: deployments_stored_def)
      moreover have s': "s' = s\<lparr>ds_store := st\<rparr>" "r = Inr fetched"
        using Inr None saved assms(2) by (auto simp: store_fetched_def)
      moreover have "h' \<noteq> h" if "raw_of view s h' = Some bytes" for h' bytes
        using that found None by auto
      ultimately show ?thesis
        using assms(4) view unfolding deployments_stored_def by fastforce
    qed
  qed
qed

lemma ingest_step:
  assumes db: "redb_contract (dc_db c) view" and run: "ingest_remote_artifact c now fresh artifact s = (r, s')"
    and inv: "deployments_stored (dc_crypto c) view s"
  shows "deployments_stored (dc_crypto c) view s'" and "ds_published s' = ds_published s"
    and "r = Inr resp \<Longrightarrow> \<exists>bytes. raw_of view s' (ir_expected_hash resp) = Some bytes \<and> ir_size_bytes resp = length bytes"
    and "r = Inr resp \<Longrightarrow> ras_reference artifact = None \<Longrightarrow> ir_expected_hash resp = to_ascii_lowercase (ras_sha256 artifact)"
proof -
  have "deployments_stored (dc_crypto c) view s' \<and> ds_published s' = ds_published s \<and>
    (r = Inr resp \<longrightarrow> (\<exists>bytes. raw_of view s' (ir_expected_hash resp) = Some bytes \<and> ir_size_bytes resp = length bytes) \<and>
      (ras_reference artifact = None \<longrightarrow> ir_expected_hash resp = to_ascii_lowercase (ras_sha256 artifact)))"
  proof (cases "try_then (resolve_authorization c artifact) (fetch_artifact (dc_libs c) (dc_crypto c) artifact)")
    case (Inl e)
    with run inv show ?thesis by (auto simp: ingest_remote_artifact_def store_then_def)
  next
    case (Inr p)
    obtain h fetched where p: "p = (h, fetched)" by fastforce
    then obtain authorization where fetch: "fetch_artifact (dc_libs c) (dc_crypto c) artifact authorization = Inr (h, fetched)"
      using Inr by (auto simp: try_then_Ok_iff)
    obtain r1 s1 where st: "store_fetched c h fetched s = (r1, s1)" by fastforce
    note step = store_fetched_step [OF db st fetch_artifact_Ok(1) [OF fetch] inv]
    show ?thesis
    proof (cases r1)
      case (Inl e)
      with run Inr p st step show ?thesis by (auto simp: ingest_remote_artifact_def store_then_def)
    next
      case r1: (Inr bytes)
      with run Inr p st step fetch_artifact_Ok(3) [OF fetch] show ?thesis
        by (cases "list_cluster_nodes (dc_db c) (dc_nodes_json c) (ds_cluster_nodes s1)")
          (auto simp: ingest_remote_artifact_def store_then_def)
    qed
  qed
  then show "deployments_stored (dc_crypto c) view s'" "ds_published s' = ds_published s"
    "r = Inr resp \<Longrightarrow> \<exists>bytes. raw_of view s' (ir_expected_hash resp) = Some bytes \<and> ir_size_bytes resp = length bytes"
    "r = Inr resp \<Longrightarrow> ras_reference artifact = None \<Longrightarrow> ir_expected_hash resp = to_ascii_lowercase (ras_sha256 artifact)"
    by blast+
qed

section \<open>Announced deployments\<close>

lemma publish_keeps:
  assumes "deployments_stored cr view s"
    and "case e of DeployAppEvent a g u m h n \<Rightarrow> (\<exists>bytes. raw_of view s h = Some bytes \<and> n = length bytes) | _ \<Rightarrow> True"
  shows "deployments_stored cr view (snd (publish c e s))"
  using assms by (auto simp: publish_def deployments_stored_def split: sum.splits deploy_event.splits)

lemma store_api_keys_keeps: "keeps (deployments_stored cr view) (store_api_keys c q)"
proof -
  have "deployments_stored cr view (snd (publish c (GatewayConfigUpdateEvent a g) (s\<lparr>ds_api_keys := t\<rparr>)))"
    if "deployments_stored cr view s" for a g t s
    by (rule publish_keeps) (use that in \<open>simp_all add: deployments_stored_def\<close>)
  then show ?thesis
    by (auto simp: keeps_def store_api_keys_def split: sum.splits)
qed

lemma routes_keep: "keeps (deployments_stored cr view) (for_each (\<lambda>r. publish c (RouteAddEvent r)) rs)"
  by (rule keeps_for_each) (simp add: keeps_def publish_keeps)

lemma gateway_update_keeps:
  "keeps (deployments_stored cr view) (case g of Some config \<Rightarrow> publish c (GatewayConfigUpdateEvent app config)
     | None \<Rightarrow> (\<lambda>s. (Ok (), s)))"
  by (cases g) (simp_all add: keeps_def publish_keeps)

lemma after_ingest_keeps:
  assumes "redb_contract (dc_db c) view"
    and "\<And>ingress s. deployments_stored (dc_crypto c) view s \<Longrightarrow>
       \<exists>bytes. raw_of view s (ir_expected_hash ingress) = Some bytes \<and> ir_size_bytes ingress = length bytes \<Longrightarrow>
       deployments_stored (dc_crypto c) view (snd (f ingress s))"
  shows "keeps (deployments_stored (dc_crypto c) view) (store_then (ingest_remote_artifact c now fresh artifact) f)"
  unfolding keeps_def
proof (intro allI impI)
  fix s assume inv: "deployments_stored (dc_crypto c) view s"
  obtain r s1 where i: "ingest_remote_artifact c now fresh artifact s = (r, s1)" by fastforce
  note step = ingest_step [OF assms(1) i inv]
  show "deployments_stored (dc_crypto c) view (snd (store_then (ingest_remote_artifact c now fresh artifact) f s))"
  proof (cases r)
    case (Inr ingress)
    with i step(1,3) assms(2) show ?thesis by simp
  qed (use i step(1) in simp)
qed

text \<open>Published events are never taken back.\<close>

definition grows :: "'t deploy_state \<Rightarrow> 't deploy_state \<Rightarrow> bool" where
  "grows s s' \<longleftrightarrow> set (ds_published s) \<subseteq> set (ds_published s')"

lemma tail_grows:
  "keeps (grows s) (store_then (case g of Some config \<Rightarrow> publish c (GatewayConfigUpdateEvent app config)
      | None \<Rightarrow> (\<lambda>s. (Ok (), s))) (\<lambda>_. store_then (for_each (\<lambda>r. publish c (RouteAddEvent r)) rs) (\<lambda>_.
      store_then (store_api_keys c q) (\<lambda>_ s. (Ok resp, s)))))"
proof -
  have pub: "keeps (grows s) (publish c e)" for e
    by (auto simp: keeps_def grows_def publish_def split: sum.splits)
  have "keeps (grows s) (store_api_keys c q)"
    by (auto simp: keeps_def grows_def store_api_keys_def publish_def split: sum.splits)
  then show ?thesis
    using pub by (cases g) (intro keeps_then keeps_for_each keeps_pure; simp)+
qed

lemma process_grows:
  assumes "process_deploy_intent c now fresh q s = (Inr resp, s')"
  shows "\<exists>ingress s1 s2. ingest_remote_artifact c now fresh (dir_artifact q) s = (Inr ingress, s1) \<and>
    publish c (DeployAppEvent (dir_app_id q) (dir_config q) (ir_artifact_url ingress) (ir_manifests ingress)
      (ir_expected_hash ingress) (ir_size_bytes ingress)) s1 = (Inr (), s2) \<and>
    dr_expected_hash resp = ir_expected_hash ingress \<and> dr_size_bytes resp = ir_size_bytes ingress \<and>
    dr_artifact_url resp = ir_artifact_url ingress \<and> dr_manifests resp = ir_manifests ingress \<and> grows s2 s'"
proof -
  obtain ingress s1 s2 where i: "ingest_remote_artifact c now fresh (dir_artifact q) s = (Inr ingress, s1)"
    and p: "publish c (DeployAppEvent (dir_app_id q) (dir_config q) (ir_artifact_url ingress) (ir_manifests ingress)
      (ir_expected_hash ingress) (ir_size_bytes ingress)) s1 = (Inr (), s2)"
    and t: "store_then (case dir_gateway_config q of Some config \<Rightarrow> publish c (GatewayConfigUpdateEvent (dir_app_id q) config)
      | None \<Rightarrow> (\<lambda>s. (Ok (), s))) (\<lambda>_. store_then (for_each (\<lambda>r. publish c (RouteAddEvent r)) (dir_routes q)) (\<lambda>_.
      store_then (store_api_keys c q) (\<lambda>_ s. (Ok \<lparr> dr_app_id = dir_app_id q, dr_artifact_url = ir_artifact_url ingress,
             dr_expected_hash = ir_expected_hash ingress, dr_size_bytes = ir_size_bytes ingress,
             dr_source_node_id = ir_source_node_id ingress, dr_manifests = ir_manifests ingress,
             dr_gateway_config_published = (dir_gateway_config q \<noteq> None),
             dr_route_count = length (dir_routes q), dr_api_key_count = length (dir_api_keys q) \<rparr>, s)))) s2 = (Inr resp, s')"
    using assms unfolding process_deploy_intent_def by (auto elim!: store_then_OkE)
  have "grows s2 s'"
    by (rule keepsD [OF tail_grows _ t]) (simp add: grows_def)
  moreover have "resp = \<lparr> dr_app_id = dir_app_id q, dr_artifact_url = ir_artifact_url ingress,
             dr_expected_hash = ir_expected_hash ingress, dr_size_bytes = ir_size_bytes ingress,
             dr_source_node_id = ir_source_node_id ingress, dr_manifests = ir_manifests ingress,
             dr_gateway_config_published = (dir_gateway_config q \<noteq> None),
             dr_route_count = length (dir_routes q), dr_api_key_count = length (dir_api_keys q) \<rparr>"
    using t by (auto elim!: store_then_OkE)
  ultimately show ?thesis using i p by auto
qed

lemma process_keeps:
  assumes "redb_contract (dc_db c) view"
  shows "keeps (deployments_stored (dc_crypto c) view) (process_deploy_intent c now fresh q)"
  unfolding process_deploy_intent_def
proof (rule keeps_then [OF keeps_pure(1)], rule after_ingest_keeps [OF assms])
  fix ingress s
  assume inv: "deployments_stored (dc_crypto c) view s"
    and b: "\<exists>bytes. raw_of view s (ir_expected_hash ingress) = Some bytes \<and> ir_size_bytes ingress = length bytes"
  let ?p = "publish c (DeployAppEvent (dir_app_id q) (dir_config q) (ir_artifact_url ingress) (ir_manifests ingress)
    (ir_expected_hash ingress) (ir_size_bytes ingress))"
  have I: "deployments_stored (dc_crypto c) view (snd (?p s))"
    by (rule publish_keeps [OF inv]) (use b in auto)
  have "keeps (deployments_stored (dc_crypto c) view) (store_then (case dir_gateway_config q of
        Some config \<Rightarrow> publish c (GatewayConfigUpdateEvent (dir_app_id q) config) | None \<Rightarrow> (\<lambda>s. (Ok (), s))) (\<lambda>_.
      store_then (for_each (\<lambda>r. publish c (RouteAddEvent r)) (dir_routes q)) (\<lambda>_.
      store_then (store_api_keys c q) (\<lambda>_ s. (Ok resp, s)))))" for resp :: deploy_intent_response
    by (intro keeps_then gateway_update_keeps routes_keep store_api_keys_keeps) simp
  note tail = this
  show "deployments_stored (dc_crypto c) view (snd (store_then ?p (\<lambda>_. store_then (case dir_gateway_config q of
        Some config \<Rightarrow> publish c (GatewayConfigUpdateEvent (dir_app_id q) config) | None \<Rightarrow> (\<lambda>s. (Ok (), s))) (\<lambda>_.
      store_then (for_each (\<lambda>r. publish c (RouteAddEvent r)) (dir_routes q)) (\<lambda>_.
      store_then (store_api_keys c q) (\<lambda>_ s.
       (Ok \<lparr> dr_app_id = dir_app_id q, dr_artifact_url = ir_artifact_url ingress,
             dr_expected_hash = ir_expected_hash ingress, dr_size_bytes = ir_size_bytes ingress,
             dr_source_node_id = ir_source_node_id ingress, dr_manifests = ir_manifests ingress,
             dr_gateway_config_published = (dir_gateway_config q \<noteq> None),
             dr_route_count = length (dir_routes q), dr_api_key_count = length (dir_api_keys q) \<rparr>, s))))) s))"
  proof (cases "?p s")
    case (Pair r s1)
    with I tail show ?thesis unfolding keeps_def by (cases r) simp_all
  qed
qed

interpretation deploys: call_machine "\<lambda>(now, fresh, q) s. snd (process_deploy_intent c now fresh q s)"
  "\<lambda>s. redb_contract (dc_db c) view \<and> deployments_stored (dc_crypto c) view s"
  for c :: "'t deploy_context" and view
  by unfold_locales (auto intro: process_keeps [unfolded keeps_def, rule_format])

text \<open>
  (C19) Whatever the outcomes of a sequence of deployments by intent, the store stays consistent with what has
  been announced: every module is stored under its digest, and every deployment event published names
  a stored module with its size, also when a later step of its deployment failed.
\<close>

theorem announced_deployments_stored:
  assumes "redb_contract (dc_db c) view" and "deployments_stored (dc_crypto c) view s"
  shows "deployments_stored (dc_crypto c) view
    (fold (\<lambda>(now, fresh, q) s. snd (process_deploy_intent c now fresh q s)) intents s)"
  using deploys.run_inv [of c view s intents] assms by simp

text \<open>
  A deployment that is accepted deploys the module that was asked for: the announced hash is that of
  a stored module with the announced size, and for a URL source it is the digest of the request.
\<close>

theorem accepted_deployment_pinned:
  assumes "redb_contract (dc_db c) view" and "deployments_stored (dc_crypto c) view s"
    and "process_deploy_intent c now fresh q s = (Inr resp, s')"
  shows "(\<exists>bytes. raw_of view s' (dr_expected_hash resp) = Some bytes \<and> dr_size_bytes resp = length bytes \<and>
      cr_hex_encode (dc_crypto c) (cr_sha256 (dc_crypto c) bytes) = dr_expected_hash resp) \<and>
    (ras_reference (dir_artifact q) = None \<longrightarrow> dr_expected_hash resp = to_ascii_lowercase (ras_sha256 (dir_artifact q))) \<and>
    DeployAppEvent (dir_app_id q) (dir_config q) (dr_artifact_url resp) (dr_manifests resp) (dr_expected_hash resp)
      (dr_size_bytes resp) \<in> set (ds_published s')"
proof -
  have inv: "deployments_stored (dc_crypto c) view s'"
    using process_keeps [OF assms(1)] assms(2,3) by (rule keepsD)
  obtain ingress s1 s2 where i: "ingest_remote_artifact c now fresh (dir_artifact q) s = (Inr ingress, s1)"
    and p: "publish c (DeployAppEvent (dir_app_id q) (dir_config q) (ir_artifact_url ingress) (ir_manifests ingress)
      (ir_expected_hash ingress) (ir_size_bytes ingress)) s1 = (Inr (), s2)"
    and resp: "dr_expected_hash resp = ir_expected_hash ingress" "dr_size_bytes resp = ir_size_bytes ingress"
      "dr_artifact_url resp = ir_artifact_url ingress" "dr_manifests resp = ir_manifests ingress"
    and rest: "grows s2 s'"
    using assms(3) process_grows by metis
  have "DeployAppEvent (dir_app_id q) (dir_config q) (dr_artifact_url resp) (dr_manifests resp) (dr_expected_hash resp)
      (dr_size_bytes resp) \<in> set (ds_published s')"
    using p rest unfolding resp by (auto simp: publish_def grows_def split: sum.splits)
  moreover from this inv have "\<exists>bytes. raw_of view s' (dr_expected_hash resp) = Some bytes \<and> dr_size_bytes resp = length bytes \<and>
      cr_hex_encode (dc_crypto c) (cr_sha256 (dc_crypto c) bytes) = dr_expected_hash resp"
    unfolding deployments_stored_def content_addressed_def by metis
  ultimately show ?thesis
    using ingest_step(4) [OF assms(1) i assms(2) refl] resp(1) by simp
qed

text \<open>
  (C21) A URL source whose server answers the request of the node, sent with the authorization of the
  source, with other content than the digest of the intent, or with none, fails the deployment with an error
  and changes nothing: no module is stored, no event published, no key saved.
\<close>

theorem tampered_download_refused:
  assumes "ras_reference (dir_artifact q) = None"
    and "\<And>parsed auth r cs. dl_url_parse (dc_libs c) (ras_url (dir_artifact q)) = Inr parsed \<Longrightarrow>
      resolve_authorization c (dir_artifact q) = Inr auth \<Longrightarrow> dl_get (dc_libs c) (pu_str parsed) auth None = Inr r \<Longrightarrow>
      collect_results (hr_chunks r) = Inr cs \<Longrightarrow>
      cr_hex_encode (dc_crypto c) (cr_sha256 (dc_crypto c) (concat cs)) \<noteq> to_ascii_lowercase (ras_sha256 (dir_artifact q))"
  shows "\<exists>e. process_deploy_intent c now fresh q s = (Inl e, s)"
proof -
  have "\<nexists>x. try_then (resolve_authorization c (dir_artifact q)) (fetch_artifact (dc_libs c) (dc_crypto c) (dir_artifact q)) = Inr x"
  proof
    assume "\<exists>x. try_then (resolve_authorization c (dir_artifact q)) (fetch_artifact (dc_libs c) (dc_crypto c) (dir_artifact q)) = Inr x"
    then obtain auth h bytes where a: "resolve_authorization c (dir_artifact q) = Inr auth"
      and f: "fetch_artifact (dc_libs c) (dc_crypto c) (dir_artifact q) auth = Inr (h, bytes)"
      by (auto simp: try_then_Ok_iff)
    then have "fetch_http_artifact_bytes (dc_libs c) (dc_crypto c) (ras_url (dir_artifact q))
        (to_ascii_lowercase (ras_sha256 (dir_artifact q))) auth = Inr bytes"
      using assms(1) by (auto simp: fetch_artifact_def Let_def try_then_Ok_iff split: if_splits)
    with fetch_http_served [OF this] fetch_http_Ok [OF this] assms(2) a show False by metis
  qed
  then obtain e where "try_then (resolve_authorization c (dir_artifact q)) (fetch_artifact (dc_libs c) (dc_crypto c) (dir_artifact q)) = Inl e"
    by (cases "try_then (resolve_authorization c (dir_artifact q)) (fetch_artifact (dc_libs c) (dc_crypto c) (dir_artifact q))") auto
  then have "ingest_remote_artifact c now fresh (dir_artifact q) s = (Inl e, s)"
    by (simp add: ingest_remote_artifact_def)
  then show ?thesis
    by (cases "validate_deploy_intent_request q") (auto simp: process_deploy_intent_def)
qed
text \<open>
  Deploying with API keys but without a gateway configuration announces the default
  configuration, which admits everybody, over whatever the application had before; the response
  says that no configuration was published.
\<close>

theorem api_keys_reset_gateway_config:
  assumes "process_deploy_intent c now fresh q s = (Inr resp, s')"
    and "dir_api_keys q \<noteq> []" and "dir_gateway_config q = None" and "\<And>e es. dc_publish c e es = Inr ()"
  shows "last (ds_published s') = GatewayConfigUpdateEvent (dir_app_id q) gateway_route_config_default \<and>
    grc_auth gateway_route_config_default = AuthNone \<and> \<not> dr_gateway_config_published resp"
  using assms unfolding process_deploy_intent_def
  by (auto elim!: store_then_OkE simp: store_api_keys_def publish_def gateway_route_config_default_def
      split: sum.splits)

section \<open>References read back\<close>

lemma split_tagged:
  assumes "CHR ''@'' \<notin> set repository" and "CHR ''@'' \<notin> set tag" and "CHR '':'' \<notin> set tag"
    and "CHR ''/'' \<notin> set tag" and "repository \<noteq> []"
  shows "split_oci_reference (repository @ CHR '':'' # tag) = Inr (repository, tag)"
proof -
  have at: "rsplit_once (CHR ''@'') (repository @ CHR '':'' # tag) = None"
    using assms(1,2) by (intro rsplit_once_None) simp
  have colon: "rsplit_once (CHR '':'') (repository @ CHR '':'' # tag) = Some (repository, tag)"
    by (rule rsplit_once_append [OF assms(3)])
  have "length before < length repository"
    if "rsplit_once (CHR ''/'') (repository @ CHR '':'' # tag) = Some (before, after)" for before after
  proof -
    have eq: "repository @ CHR '':'' # tag = before @ CHR ''/'' # after"
      using rsplit_once_SomeD [OF that] by simp
    have "CHR ''/'' \<notin> set (drop (length repository) (repository @ CHR '':'' # tag))"
      using assms(4) by simp
    then have "CHR ''/'' \<notin> set (drop (length repository) (before @ CHR ''/'' # after))"
      unfolding eq .
    then show ?thesis by (cases "length repository \<le> length before") auto
  qed
  then show ?thesis
    using at colon assms(5) by (auto simp: split_oci_reference_def split: option.splits)
qed

text \<open>
  A reference to an OCI registry is read back as its registry, repository and digest or tag: by
  digest for every repository, by tag when neither part has an at sign.
\<close>

theorem oci_reference_reads_back:
  assumes "CHR ''/'' \<notin> set registry" and "str_trim registry \<noteq> []" and "str_trim repository \<noteq> []"
    and "str_trim value \<noteq> []" and "CHR ''@'' \<notin> set value"
    and "\<not> by_digest \<Longrightarrow> CHR ''@'' \<notin> set repository \<and> CHR '':'' \<notin> set value \<and> CHR ''/'' \<notin> set value"
  shows "parse_oci_reference (''oci://'' @ registry @ ''/'' @ repository @ (if by_digest then ''@'' else '':'') @ value) =
    Inr \<lparr> or_registry = registry, or_repository = repository, or_reference = value, or_is_digest = by_digest \<rparr>"
proof -
  have split: "split_once (CHR ''/'') (registry @ CHR ''/'' # rest) = Some (registry, rest)" for rest
    by (rule split_once_append [OF assms(1)])
  show ?thesis
  proof (cases by_digest)
    case True
    then show ?thesis
      using assms(2-5) split
      by (simp add: parse_oci_reference_def strip_prefix_def split_oci_reference_def rsplit_once_append)
  next
    case False
    then have no: "CHR ''@'' \<notin> set repository" "CHR '':'' \<notin> set value" "CHR ''/'' \<notin> set value"
      using assms(6) by simp_all
    have "split_oci_reference (repository @ CHR '':'' # value) = Inr (repository, value)"
      by (rule split_tagged [OF no(1) assms(5) no(2,3)]) (use assms(3) in \<open>auto simp: str_trim_def\<close>)
    then show ?thesis
      using False assms(2-5) no split by (simp add: parse_oci_reference_def strip_prefix_def)
  qed
qed

text \<open>The check that is to demand a digest accepts a tag after an at sign.\<close>

theorem pinned_check_accepts_tags:
  "oci_reference_is_digest_pinned ''oci://registry.example/team/app@latest'' = Inr True"
  by (simp add: oci_reference_is_digest_pinned_def parse_oci_reference_def strip_prefix_def
      split_oci_reference_def rsplit_once_def str_trim_def is_whitespace_def)

section \<open>Witnesses\<close>

definition w_libs :: deploy_libs where
  "w_libs = \<lparr> dl_url_parse = (\<lambda>u. Inr \<lparr> pu_scheme = ''https'', pu_host = Some ''example.org'', pu_str = u \<rparr>),
     dl_get = (\<lambda>u a h. Inr \<lparr> hr_status = 200, hr_content_length = Some 3, hr_chunks = [Inr ''mo'', Inr ''d''] \<rparr>),
     dl_oci_json = (\<lambda>_. Inl ''no JSON''), dl_os = ''linux'', dl_arch = ''x86_64'' \<rparr>"

definition w_keys :: "api_key_record list" where
  "w_keys = [\<lparr> akr_name = ''ci'', akr_key_hash = ''k'', akr_scopes = [] \<rparr>]"

definition w_context :: "(string, string) hmap deploy_context" where
  "w_context = \<lparr> dc_db = mem_redb, dc_libs = w_libs, dc_crypto = w_crypto, dc_secret = (\<lambda>_ _. Inl ''none''),
     dc_nodes_json = list_serde [], dc_keys_json = list_serde [w_keys],
     dc_artifact_server_url = ''http://node-1:9000/'', dc_authority = w_authority, dc_node_id = ''node-1'',
     dc_stale_after_secs = 30, dc_publish = (\<lambda>_ _. Inr ()) \<rparr>"

definition w_request :: deploy_intent_request where
  "w_request = \<lparr> dir_app_id = AppId ''app:v1'', dir_config = app_config_default_for (AppId ''app:v1''),
     dir_gateway_config = None, dir_routes = [], dir_api_keys = w_keys,
     dir_artifact = \<lparr> ras_reference = None, ras_url = ''https://example.org/app.wasm'', ras_sha256 = ''HDMODH'',
       ras_credential_ref = None, ras_signature = None \<rparr> \<rparr>"

definition w_before :: "(string, string) hmap deploy_state" where
  "w_before = \<lparr> ds_store = \<lparr> st_artifacts = [], st_raw_wasm = [], st_configs = [], st_metrics = [], st_routes = [],
       st_schema_meta = [], st_artifact_hashes = [], st_artifact_verifications = [] \<rparr>,
     ds_cluster_nodes = [], ds_api_keys = [], ds_published = [] \<rparr>"

lemma w_before_stored: "deployments_stored w_crypto hm_get w_before"
  by (simp add: deployments_stored_def content_addressed_def w_before_def hm_get_def)

lemma w_lower: "to_ascii_lowercase ''HDMODH'' = ''hdmodh''"
  by (simp add: to_ascii_lowercase_def char_of_def bit_0)

lemma w_valid: "validate_deploy_intent_request w_request = Inr ()"
  by (simp add: validate_deploy_intent_request_def w_request_def app_config_default_for_def app_id_namespace_def
      contains_char_def default_namespace_def str_trim_def is_whitespace_def)

lemma w_fetch: "fetch_artifact w_libs w_crypto (dir_artifact w_request) None = Inr (''hdmodh'', ''mod'')"
  by (simp add: fetch_artifact_def fetch_http_artifact_bytes_def w_libs_def w_crypto_def w_request_def is_success_def
      read_response_bytes_with_limit_def MAX_REMOTE_ARTIFACT_BYTES_def w_lower str_trim_def is_whitespace_def)

definition w_ingress :: ingress_response where
  "w_ingress = \<lparr> ir_source_node_id = ''node-1'', ir_artifact_url = ''http://node-1:9000/artifacts/hdmodh'',
     ir_expected_hash = ''hdmodh'', ir_size_bytes = 3, ir_manifests = [] \<rparr>"

definition w_stored :: "(string, string) hmap deploy_state" where
  "w_stored = w_before\<lparr> ds_store := (ds_store w_before)\<lparr> st_raw_wasm := [(''hdmodh'', ''mod'')] \<rparr> \<rparr>"

lemma w_ingest: "ingest_remote_artifact w_context (Some 5) (\<lambda>_. (1000, ''id'')) (dir_artifact w_request) w_before =
  (Inr w_ingress, w_stored)"
proof -
  have auth: "resolve_authorization w_context (dir_artifact w_request) = Inr None"
    by (simp add: resolve_authorization_def w_request_def)
  have store: "store_fetched w_context ''hdmodh'' ''mod'' w_before = (Inr ''mod'', w_stored)"
    by (simp add: store_fetched_def load_raw_wasm_def save_raw_wasm_def raw_get_def raw_put_def w_context_def
        w_before_def w_stored_def mem_redb_def hm_get_def hm_insert_def)
  have nodes: "list_cluster_nodes mem_redb (list_serde []) (ds_cluster_nodes w_stored) = Inr []"
    by (simp add: list_cluster_nodes_def table_list_def w_stored_def w_before_def raw_entries_def mem_redb_def rd_iter_def)
  have libs: "dc_libs w_context = w_libs" "dc_crypto w_context = w_crypto" "dc_db w_context = mem_redb"
    "dc_nodes_json w_context = list_serde []"
    by (simp_all add: w_context_def)
  have rest: "dc_node_id w_context = ''node-1''" "dc_artifact_server_url w_context = ''http://node-1:9000/''"
    by (simp_all add: w_context_def)
  show ?thesis
    unfolding ingest_remote_artifact_def store_then_def
    by (simp add: auth w_fetch store nodes libs rest w_ingress_def target_node_ids_def manifests_for_targets_def
        trim_artifact_base_url_def trim_end_char_def)
qed

definition w_event :: deploy_event where
  "w_event = DeployAppEvent (AppId ''app:v1'') (app_config_default_for (AppId ''app:v1''))
     ''http://node-1:9000/artifacts/hdmodh'' [] ''hdmodh'' 3"

definition w_response :: deploy_intent_response where
  "w_response = \<lparr> dr_app_id = AppId ''app:v1'', dr_artifact_url = ''http://node-1:9000/artifacts/hdmodh'',
     dr_expected_hash = ''hdmodh'', dr_size_bytes = 3, dr_source_node_id = ''node-1'', dr_manifests = [],
     dr_gateway_config_published = False, dr_route_count = 0, dr_api_key_count = 1 \<rparr>"

definition w_after :: "(string, string) hmap deploy_state" where
  "w_after = w_stored\<lparr> ds_api_keys := [(''app:v1'', [])],
     ds_published := [w_event, GatewayConfigUpdateEvent (AppId ''app:v1'') gateway_route_config_default] \<rparr>"

lemma w_run: "process_deploy_intent w_context (Some 5) (\<lambda>_. (1000, ''id'')) w_request w_before = (Inr w_response, w_after)"
proof -
  have keys: "save_api_keys mem_redb (list_serde [w_keys]) ''app:v1'' w_keys [] = Inr [(''app:v1'', [])]"
    by (simp add: save_api_keys_def table_save_def raw_put_def list_serde_def mem_redb_def hm_insert_def)
  have nonempty: "w_keys \<noteq> []" "length w_keys = 1" by (simp_all add: w_keys_def)
  have pub: "dc_publish w_context e es = Inr ()" for e es by (simp add: w_context_def)
  have req: "dir_gateway_config w_request = None" "dir_routes w_request = []" "dir_api_keys w_request = w_keys"
    "dir_app_id w_request = AppId ''app:v1''" "dir_config w_request = app_config_default_for (AppId ''app:v1'')"
    by (simp_all add: w_request_def)
  have ctx: "dc_db w_context = mem_redb" "dc_keys_json w_context = list_serde [w_keys]"
    by (simp_all add: w_context_def)
  have st: "ds_api_keys w_stored = []" "ds_published w_stored = []"
    by (simp_all add: w_stored_def w_before_def)
  show ?thesis
    unfolding process_deploy_intent_def store_then_def w_after_def
    by (simp add: w_valid w_ingest req publish_def pub store_api_keys_def nonempty keys ctx st w_ingress_def
        w_event_def w_response_def)
qed

theorem announced_deployments_stored_witness:
  "deployments_stored (dc_crypto w_context) hm_get
    (fold (\<lambda>(now, fresh, q) s. snd (process_deploy_intent w_context now fresh q s))
      [(Some 5, \<lambda>_. (1000, ''id''), w_request)] w_before)"
  by (rule announced_deployments_stored)
    (simp_all add: w_context_def mem_redb_contract w_before_stored)

theorem accepted_deployment_pinned_witness:
  "\<exists>bytes. hm_get (st_raw_wasm (ds_store w_after)) ''hdmodh'' = Some bytes \<and> 3 = length bytes"
  using accepted_deployment_pinned [OF _ _ w_run, where view = hm_get] mem_redb_contract w_before_stored
  by (auto simp: w_context_def w_response_def)

text \<open>A mirror that serves other content at the address of the intent, the genuine module being elsewhere.\<close>

definition w_mirrored :: "(string, string) hmap deploy_context" where
  "w_mirrored = w_context\<lparr>dc_libs := w_libs\<lparr>dl_get := (\<lambda>u _ _. Inr \<lparr> hr_status = 200, hr_content_length = None,
     hr_chunks = [Inr (if u = ras_url (dir_artifact w_request) then ''bad'' else ''mod'')] \<rparr>)\<rparr>\<rparr>"

theorem tampered_download_refused_witness:
  "\<exists>e. process_deploy_intent w_mirrored (Some 5) (\<lambda>_. (1000, ''id'')) w_request w_before = (Inl e, w_before)"
proof (rule tampered_download_refused)
  show "ras_reference (dir_artifact w_request) = None" by (simp add: w_request_def)
  fix parsed auth r cs
  assume "dl_url_parse (dc_libs w_mirrored) (ras_url (dir_artifact w_request)) = Inr parsed"
    and "dl_get (dc_libs w_mirrored) (pu_str parsed) auth None = Inr r" and "collect_results (hr_chunks r) = Inr cs"
  then have "concat cs = ''bad''" by (auto simp: w_mirrored_def w_libs_def w_request_def)
  moreover have "to_ascii_lowercase ''HDMODH'' = ''hdmodh''" by code_simp
  ultimately show "cr_hex_encode (dc_crypto w_mirrored) (cr_sha256 (dc_crypto w_mirrored) (concat cs)) \<noteq>
      to_ascii_lowercase (ras_sha256 (dir_artifact w_request))"
    by (simp add: w_mirrored_def w_context_def w_crypto_def w_request_def)
qed

theorem oci_reference_reads_back_witness:
  "parse_oci_reference ''oci://ghcr.io/team/app:1.0'' =
    Inr \<lparr> or_registry = ''ghcr.io'', or_repository = ''team/app'', or_reference = ''1.0'', or_is_digest = False \<rparr>"
  using oci_reference_reads_back [of "''ghcr.io''" "''team/app''" "''1.0''" False]
  by (simp add: str_trim_def is_whitespace_def)

end
