(* ===== verification/Secret_Store.thy ===== *)
theory Secret_Store
  imports App_Store
begin

text \<open>
  Secrets of applications (\<open>crates/secrets/src/crypto.rs\<close>, \<open>local_provider.rs\<close>, \<open>bootstrap_crypto.rs\<close>,
  \<open>transport.rs\<close>, \<open>crates/storage/src/secrets.rs\<close>): values are encrypted with a key per application, which
  is itself encrypted with the key of the node and kept with them in one bundle per application. The ciphers,
  the key exchange, the CBOR codec and the database are parameters; random keys and nonces and the
  readings of the clock are arguments.

  The theorems: the provider implements a map from application and name to value, restarts included;
  what is encrypted for a peer is read by that peer; and the check of the version does not prevent lost updates
  between concurrent writers.
\<close>

section \<open>Ciphers\<close>

record aead =
  ae_encrypt :: "string \<Rightarrow> string \<Rightarrow> string \<Rightarrow> (string, string) result"
  ae_decrypt :: "string \<Rightarrow> string \<Rightarrow> string \<Rightarrow> (string, string) result"

definition aead_contract :: "aead \<Rightarrow> bool" where
  "aead_contract a \<longleftrightarrow>
     (\<forall>key nonce plain cipher. ae_encrypt a key nonce plain = Inr cipher \<longrightarrow> ae_decrypt a key nonce cipher = Inr plain)"

text \<open>A secret that is not in its bundle is a storage error whose message names it; it has a constructor of its own.\<close>

datatype secret_error =
    Encryption string
  | SecretStorage storage_error
  | SecretAppNotFound string
  | SecretNotFound string string

definition secret_storage :: "string \<Rightarrow> secret_error" where
  "secret_storage msg = SecretStorage (Storage msg)"

text \<open>The constructor of the cipher accepts every key of 32 bytes, which the key type guarantees.\<close>

definition encrypt :: "aead \<Rightarrow> string \<Rightarrow> string \<Rightarrow> string \<Rightarrow> (secret_error, string) result" where
  "encrypt a key nonce plaintext =
     try_then (err_as Encryption (ae_encrypt a key nonce plaintext)) (\<lambda>ciphertext. Ok (nonce @ ciphertext))"

definition decrypt :: "aead \<Rightarrow> string \<Rightarrow> string \<Rightarrow> (secret_error, string) result" where
  "decrypt a key blob =
     (if length blob < 12 then Err (Encryption ''blob too short'')
      else err_as Encryption (ae_decrypt a key (take 12 blob) (drop 12 blob)))"

text \<open>\<open>String::from_utf8\<close> accepts the well-formed byte sequences of Unicode.\<close>

abbreviation utf8_cont :: "nat \<Rightarrow> bool" where
  "utf8_cont b \<equiv> 0x80 \<le> b \<and> b \<le> 0xBF"

fun utf8_valid :: "nat list \<Rightarrow> bool" where
  "utf8_valid [] = True"
| "utf8_valid (a # rest) =
     (if a < 0x80 then utf8_valid rest
      else if 0xC2 \<le> a \<and> a \<le> 0xDF
        then (case rest of b # r \<Rightarrow> utf8_cont b \<and> utf8_valid r | _ \<Rightarrow> False)
      else if 0xE0 \<le> a \<and> a \<le> 0xEF
        then (case rest of b # c # r \<Rightarrow>
            (if a = 0xE0 then 0xA0 else 0x80) \<le> b \<and> b \<le> (if a = 0xED then 0x9F else 0xBF) \<and> utf8_cont c \<and> utf8_valid r
          | _ \<Rightarrow> False)
      else if 0xF0 \<le> a \<and> a \<le> 0xF4
        then (case rest of b # c # d # r \<Rightarrow>
            (if a = 0xF0 then 0x90 else 0x80) \<le> b \<and> b \<le> (if a = 0xF4 then 0x8F else 0xBF) \<and>
            utf8_cont c \<and> utf8_cont d \<and> utf8_valid r
          | _ \<Rightarrow> False)
      else False)"

definition is_utf8 :: "string \<Rightarrow> bool" where
  "is_utf8 s = utf8_valid (map of_char s)"

section \<open>Bundles\<close>

record app_secret_bundle =
  asb_app_id :: string
  asb_encrypted_dek :: string
  asb_secrets :: "(string, string) hmap"
  asb_version :: u64
  asb_updated_at :: u64

record 't secret_context =
  sc_db :: "'t redb"
  sc_cbor :: "app_secret_bundle serde"
  sc_aead :: aead
  sc_kek :: string

record 't secret_provider =
  sp_table :: 't
  sp_dek_cache :: "(string, string) hmap"

definition local_provider_new :: "'t \<Rightarrow> 't secret_provider" where
  "local_provider_new t = \<lparr> sp_table = t, sp_dek_cache = [] \<rparr>"

definition load_bundle :: "'t secret_context \<Rightarrow> string \<Rightarrow> 't \<Rightarrow> (secret_error, app_secret_bundle option) result" where
  "load_bundle c app t =
     try_then (err_as SecretStorage (raw_get (sc_db c) app t)) (\<lambda>found.
       case found of
         Some v \<Rightarrow> try_then (err_as (\<lambda>e. secret_storage (''failed to decode secret bundle: '' @ e)) (sd_from_str (sc_cbor c) v))
                    (\<lambda>b. Ok (Some b))
       | None \<Rightarrow> Ok None)"

definition save_bundle :: "'t secret_context \<Rightarrow> app_secret_bundle \<Rightarrow> 't \<Rightarrow> (secret_error, 't) result" where
  "save_bundle c b t =
     try_then (err_as (\<lambda>e. secret_storage (''failed to encode secret bundle: '' @ e)) (sd_to_string (sc_cbor c) b)) (\<lambda>bytes.
       err_as SecretStorage (raw_put (sc_db c) (asb_app_id b) bytes t))"

text \<open>The check of \<open>save_bundle_with_version\<close>, a transaction of its own, and the operation.\<close>

definition check_version :: "'t secret_context \<Rightarrow> string \<Rightarrow> u64 \<Rightarrow> 't \<Rightarrow> (secret_error, unit) result" where
  "check_version c app expected t =
     try_then (load_bundle c app t) (\<lambda>current.
       case current of
         Some existing \<Rightarrow>
           if asb_version existing \<noteq> expected
           then Err (secret_storage (''concurrent modification: expected version '' @ show_nat (unat expected) @ '', found '' @
                  show_nat (unat (asb_version existing))))
           else Ok ()
       | None \<Rightarrow> Err (secret_storage ''Bundle vanished before save''))"

definition save_bundle_with_version ::
  "'t secret_context \<Rightarrow> string \<Rightarrow> app_secret_bundle \<Rightarrow> u64 \<Rightarrow> 't \<Rightarrow> (secret_error, 't) result" where
  "save_bundle_with_version c app b expected t =
     try_then (check_version c app expected t) (\<lambda>_. save_bundle c b t)"

text \<open>An unlocked DEK comes from the cache, from the bundle or is made with a first bundle.\<close>

definition unlock_dek :: "'t secret_context \<Rightarrow> string \<Rightarrow> app_secret_bundle \<Rightarrow> (secret_error, string) result" where
  "unlock_dek c app b =
     try_then (decrypt (sc_aead c) (sc_kek c) (asb_encrypted_dek b)) (\<lambda>decrypted.
       if length decrypted \<noteq> 32
       then Err (Encryption (''decrypted DEK for app '' @ app @ '' had invalid length '' @ show_nat (length decrypted)))
       else Ok decrypted)"

record fresh_values =
  fv_dek :: string
  fv_dek_nonce :: string
  fv_nonce :: string
  fv_now :: u64

definition create_dek :: "'t secret_context \<Rightarrow> fresh_values \<Rightarrow> string \<Rightarrow> 't \<Rightarrow> (secret_error, 't) result" where
  "create_dek c fresh app t =
     try_then (encrypt (sc_aead c) (sc_kek c) (fv_dek_nonce fresh) (fv_dek fresh)) (\<lambda>encrypted_dek.
       save_bundle c \<lparr> asb_app_id = app, asb_encrypted_dek = encrypted_dek, asb_secrets = [], asb_version = 1,
                       asb_updated_at = fv_now fresh \<rparr> t)"

definition cache_dek :: "string \<Rightarrow> string \<Rightarrow> 't secret_provider \<Rightarrow> 't secret_provider" where
  "cache_dek app dek s = s\<lparr>sp_dek_cache := hm_insert app dek (sp_dek_cache s)\<rparr>"

definition get_or_create_dek ::
  "'t secret_context \<Rightarrow> fresh_values \<Rightarrow> string \<Rightarrow> 't secret_provider \<Rightarrow> (secret_error, string) result \<times> 't secret_provider" where
  "get_or_create_dek c fresh app s =
     (case hm_get (sp_dek_cache s) app of
        Some key \<Rightarrow> (Ok key, s)
      | None \<Rightarrow>
          (case load_bundle c app (sp_table s) of
             Inl e \<Rightarrow> (Err e, s)
           | Inr (Some b) \<Rightarrow>
               (case unlock_dek c app b of Inl e \<Rightarrow> (Err e, s) | Inr dek \<Rightarrow> (Ok dek, cache_dek app dek s))
           | Inr None \<Rightarrow>
               (case create_dek c fresh app (sp_table s) of
                  Inl e \<Rightarrow> (Err e, s)
                | Inr t \<Rightarrow> (Ok (fv_dek fresh), cache_dek app (fv_dek fresh) (s\<lparr>sp_table := t\<rparr>)))))"

section \<open>The provider\<close>

definition secret_get ::
  "'t secret_context \<Rightarrow> fresh_values \<Rightarrow> app_id \<Rightarrow> string \<Rightarrow> 't secret_provider \<Rightarrow>
   (secret_error, string) result \<times> 't secret_provider" where
  "secret_get c fresh app key =
     store_then (get_or_create_dek c fresh (app_id_as_str app)) (\<lambda>dek s.
       (try_then (load_bundle c (app_id_as_str app) (sp_table s)) (\<lambda>found.
        case found of
          None \<Rightarrow> Err (SecretAppNotFound (app_id_as_str app))
        | Some b \<Rightarrow>
            (case hm_get (asb_secrets b) key of
               None \<Rightarrow> Err (SecretNotFound key (app_id_as_str app))
             | Some encrypted \<Rightarrow>
                 try_then (decrypt (sc_aead c) dek encrypted) (\<lambda>plaintext.
                 if is_utf8 plaintext then Ok plaintext else Err (Encryption ''invalid utf-8 sequence'')))), s))"

text \<open>\<open>set\<close> up to its version check, with the bundle to be saved and the version it was read at.\<close>

definition prepare_set ::
  "'t secret_context \<Rightarrow> fresh_values \<Rightarrow> app_id \<Rightarrow> string \<Rightarrow> string \<Rightarrow> 't secret_provider \<Rightarrow>
   (secret_error, app_secret_bundle \<times> u64) result \<times> 't secret_provider" where
  "prepare_set c fresh app key value =
     store_then (get_or_create_dek c fresh (app_id_as_str app)) (\<lambda>dek s.
       (try_then (encrypt (sc_aead c) dek (fv_nonce fresh) value) (\<lambda>encrypted.
        try_then (load_bundle c (app_id_as_str app) (sp_table s)) (\<lambda>found.
        case found of
          None \<Rightarrow> Err (secret_storage ''Bundle vanished'')
        | Some b \<Rightarrow> Ok (b\<lparr> asb_secrets := hm_insert key encrypted (asb_secrets b), asb_version := asb_version b + 1,
                          asb_updated_at := fv_now fresh \<rparr>, asb_version b))), s))"

definition secret_set ::
  "'t secret_context \<Rightarrow> fresh_values \<Rightarrow> app_id \<Rightarrow> string \<Rightarrow> string \<Rightarrow> 't secret_provider \<Rightarrow>
   (secret_error, unit) result \<times> 't secret_provider" where
  "secret_set c fresh app key value =
     store_then (prepare_set c fresh app key value) (\<lambda>(b, expected) s.
       case save_bundle_with_version c (app_id_as_str app) b expected (sp_table s) of
         Inl e \<Rightarrow> (Err e, s)
       | Inr t \<Rightarrow> (Ok (), s\<lparr>sp_table := t\<rparr>))"

definition secret_delete ::
  "'t secret_context \<Rightarrow> u64 \<Rightarrow> app_id \<Rightarrow> string \<Rightarrow> 't secret_provider \<Rightarrow>
   (secret_error, unit) result \<times> 't secret_provider" where
  "secret_delete c now app key s =
     (case load_bundle c (app_id_as_str app) (sp_table s) of
        Inl e \<Rightarrow> (Err e, s)
      | Inr None \<Rightarrow> (Err (SecretAppNotFound (app_id_as_str app)), s)
      | Inr (Some b) \<Rightarrow>
          (case hm_get (asb_secrets b) key of
             None \<Rightarrow> (Ok (), s)
           | Some _ \<Rightarrow>
               (case save_bundle_with_version c (app_id_as_str app)
                  (b\<lparr> asb_secrets := hm_remove key (asb_secrets b), asb_version := asb_version b + 1, asb_updated_at := now \<rparr>)
                  (asb_version b) (sp_table s) of
                  Inl e \<Rightarrow> (Err e, s)
                | Inr t \<Rightarrow> (Ok (), s\<lparr>sp_table := t\<rparr>))))"

definition secret_list_keys ::
  "'t secret_context \<Rightarrow> app_id \<Rightarrow> 't secret_provider \<Rightarrow> (secret_error, string list) result" where
  "secret_list_keys c app s =
     try_then (load_bundle c (app_id_as_str app) (sp_table s)) (\<lambda>found.
       Ok (case found of None \<Rightarrow> [] | Some b \<Rightarrow> map fst (asb_secrets b)))"

text \<open>The raw table operations of the store, and the sealed key of the node.\<close>

definition save_secrets :: "'t redb \<Rightarrow> app_id \<Rightarrow> string \<Rightarrow> 't \<Rightarrow> (storage_error, 't) result" where
  "save_secrets db app blob t = raw_put db (app_id_as_str app) blob t"

definition load_secrets :: "'t redb \<Rightarrow> app_id \<Rightarrow> 't \<Rightarrow> (storage_error, string option) result" where
  "load_secrets db app t = raw_get db (app_id_as_str app) t"

definition delete_secrets :: "'t redb \<Rightarrow> app_id \<Rightarrow> 't \<Rightarrow> (storage_error, 't) result" where
  "delete_secrets db app t = raw_remove db (app_id_as_str app) t"

definition save_kek :: "'t redb \<Rightarrow> string \<Rightarrow> 't \<Rightarrow> (storage_error, 't) result" where
  "save_kek db blob t = raw_put db ''kek'' blob t"

definition load_kek :: "'t redb \<Rightarrow> 't \<Rightarrow> (storage_error, string option) result" where
  "load_kek db t = raw_get db ''kek'' t"

definition delete_kek :: "'t redb \<Rightarrow> 't \<Rightarrow> (storage_error, 't) result" where
  "delete_kek db t = raw_remove db ''kek'' t"

section \<open>Transport between nodes\<close>

datatype transport_payload =
    PlaintextUtf8V1 string
  | NodeTransportCiphertextV1 string
  | BootstrapPeerCiphertextV1 string

record transport_envelope =
  te_version :: u32
  te_payload :: transport_payload

definition VERSION_1 :: u32 where
  "VERSION_1 = 1"

definition plaintext_utf8 :: "string \<Rightarrow> transport_envelope" where
  "plaintext_utf8 v = \<lparr> te_version = VERSION_1, te_payload = PlaintextUtf8V1 v \<rparr>"

definition bootstrap_peer_ciphertext :: "string \<Rightarrow> transport_envelope" where
  "bootstrap_peer_ciphertext c = \<lparr> te_version = VERSION_1, te_payload = BootstrapPeerCiphertextV1 c \<rparr>"

definition node_transport_ciphertext :: "string \<Rightarrow> transport_envelope" where
  "node_transport_ciphertext c = \<lparr> te_version = VERSION_1, te_payload = NodeTransportCiphertextV1 c \<rparr>"

record transport_entry =
  tn_app_id :: string
  tn_key :: string
  tn_envelope :: transport_envelope

record kex =
  kx_public :: "string \<Rightarrow> string"
  kx_shared :: "string \<Rightarrow> string \<Rightarrow> string"

definition kex_contract :: "kex \<Rightarrow> bool" where
  "kex_contract x \<longleftrightarrow>
     (\<forall>a. length (kx_public x a) = 32) \<and> (\<forall>a b. kx_shared x a (kx_public x b) = kx_shared x b (kx_public x a))"

record bootstrap_key_pair =
  kp_secret :: string
  kp_public :: string

definition from_secret_bytes :: "kex \<Rightarrow> string \<Rightarrow> bootstrap_key_pair" where
  "from_secret_bytes x secret = \<lparr> kp_secret = secret, kp_public = kx_public x secret \<rparr>"

definition kp_decrypt :: "kex \<Rightarrow> aead \<Rightarrow> bootstrap_key_pair \<Rightarrow> string \<Rightarrow> (secret_error, string) result" where
  "kp_decrypt x a kp ciphertext =
     (if length ciphertext < 32 + 12
      then Err (Encryption (''Ciphertext too short: got '' @ show_nat (length ciphertext) @ '' bytes, need at least 44''))
      else let shared = kx_shared x (kp_secret kp) (take 32 ciphertext) in
        err_as (\<lambda>e. Encryption (''Decryption failed: '' @ e))
          (ae_decrypt a shared (take 12 (drop 32 ciphertext)) (drop 44 ciphertext)))"

definition encrypt_for_peer ::
  "kex \<Rightarrow> aead \<Rightarrow> string \<Rightarrow> string \<Rightarrow> string \<Rightarrow> string \<Rightarrow> (secret_error, string) result" where
  "encrypt_for_peer x a ephemeral nonce peer_public plaintext =
     (if length peer_public \<noteq> 32 then Err (Encryption ''Invalid peer public key length: expected 32 bytes'')
      else let shared = kx_shared x ephemeral peer_public in
        try_then (err_as (\<lambda>e. Encryption (''Encryption failed: '' @ e)) (ae_encrypt a shared nonce plaintext)) (\<lambda>ciphertext.
        Ok (kx_public x ephemeral @ nonce @ ciphertext)))"

section \<open>Round trips\<close>

lemma encrypt_decrypt:
  assumes "aead_contract a" and "length nonce = 12" and "encrypt a key nonce plain = Inr blob"
  shows "decrypt a key blob = Inr plain"
  using assms by (auto simp: encrypt_def decrypt_def aead_contract_def try_then_Ok_iff)

text \<open>
  What a node encrypts for the public key of a peer, the peer reads: for every ephemeral key and nonce,
  the message opens with the secret of the pair whose public key was used.
\<close>

theorem peer_reads_ciphertext:
  assumes "kex_contract x" and "aead_contract a" and "length nonce = 12"
    and "encrypt_for_peer x a ephemeral nonce (kp_public (from_secret_bytes x secret)) plain = Inr message"
  shows "kp_decrypt x a (from_secret_bytes x secret) message = Inr plain"
proof -
  obtain c where c: "ae_encrypt a (kx_shared x ephemeral (kx_public x secret)) nonce plain = Inr c"
    "message = kx_public x ephemeral @ nonce @ c"
    using assms(4) by (auto simp: encrypt_for_peer_def from_secret_bytes_def Let_def try_then_Ok_iff split: if_splits)
  have pub: "length (kx_public x ephemeral) = 32"
    "kx_shared x secret (kx_public x ephemeral) = kx_shared x ephemeral (kx_public x secret)"
    using assms(1) by (auto simp: kex_contract_def)
  have "ae_decrypt a (kx_shared x ephemeral (kx_public x secret)) nonce c = Inr plain"
    using assms(2) c(1) by (auto simp: aead_contract_def)
  with pub assms(3) c(2) show ?thesis
    by (simp add: kp_decrypt_def from_secret_bytes_def)
qed

section \<open>The provider as a map\<close>

abbreviation bundle_of :: "'t secret_context \<Rightarrow> ('t \<Rightarrow> string \<Rightarrow> string option) \<Rightarrow> 't \<Rightarrow> string \<Rightarrow> app_secret_bundle option" where
  "bundle_of c view t \<equiv> stored_value (sc_cbor c) view t"

definition secrets_in :: "'t secret_context \<Rightarrow> string \<Rightarrow> app_secret_bundle \<Rightarrow> string \<Rightarrow> string option" where
  "secrets_in c app b key =
     (case unlock_dek c app b of
        Inl _ \<Rightarrow> None
      | Inr dek \<Rightarrow>
          (case hm_get (asb_secrets b) key of
             None \<Rightarrow> None
           | Some e \<Rightarrow> (case decrypt (sc_aead c) dek e of Inl _ \<Rightarrow> None | Inr p \<Rightarrow> Some p)))"

definition secrets_of ::
  "'t secret_context \<Rightarrow> ('t \<Rightarrow> string \<Rightarrow> string option) \<Rightarrow> 't \<Rightarrow> string \<times> string \<Rightarrow> string option" where
  "secrets_of c view t = (\<lambda>(app, key). Option.bind (bundle_of c view t app) (\<lambda>b. secrets_in c app b key))"

text \<open>
  What a bundle satisfies: it is stored under its application, its key opens with the key of the node
  and its values are texts encrypted with its key.
\<close>

definition bundle_ok :: "'t secret_context \<Rightarrow> string \<Rightarrow> app_secret_bundle \<Rightarrow> bool" where
  "bundle_ok c app b \<longleftrightarrow>
     asb_app_id b = app \<and>
     (\<exists>dek. unlock_dek c app b = Inr dek \<and>
       (\<forall>key e. hm_get (asb_secrets b) key = Some e \<longrightarrow> (\<exists>p. decrypt (sc_aead c) dek e = Inr p \<and> is_utf8 p)))"

definition secrets_ok :: "'t secret_context \<Rightarrow> ('t \<Rightarrow> string \<Rightarrow> string option) \<Rightarrow> 't secret_provider \<Rightarrow> bool" where
  "secrets_ok c view s \<longleftrightarrow>
     (\<forall>app b. bundle_of c view (sp_table s) app = Some b \<longrightarrow> bundle_ok c app b) \<and>
     (\<forall>app dek. hm_get (sp_dek_cache s) app = Some dek \<longrightarrow>
        (\<exists>b. bundle_of c view (sp_table s) app = Some b \<and> unlock_dek c app b = Inr dek))"

definition secret_contracts :: "'t secret_context \<Rightarrow> ('t \<Rightarrow> string \<Rightarrow> string option) \<Rightarrow> bool" where
  "secret_contracts c view \<longleftrightarrow>
     redb_contract (sc_db c) view \<and> serde_contract (sc_cbor c) \<and> aead_contract (sc_aead c)"

text \<open>Keys have 32 bytes and nonces 12, by their types.\<close>

definition fresh_ok :: "fresh_values \<Rightarrow> bool" where
  "fresh_ok f \<longleftrightarrow> length (fv_dek f) = 32 \<and> length (fv_dek_nonce f) = 12 \<and> length (fv_nonce f) = 12"

lemma load_bundle_stored:
  assumes "secret_contracts c view" and "load_bundle c app t = Inr r"
  shows "bundle_of c view t app = r"
proof -
  obtain found where f: "raw_get (sc_db c) app t = Inr found"
    "case found of None \<Rightarrow> r = None | Some v \<Rightarrow> \<exists>b. sd_from_str (sc_cbor c) v = Inr b \<and> r = Some b"
    using assms(2) by (auto simp: load_bundle_def try_then_Ok_iff split: option.splits)
  have "view t app = found"
    using raw_get_view [OF _ f(1)] assms(1) by (simp add: secret_contracts_def)
  with f(2) show ?thesis by (auto simp: stored_value_def split: option.splits)
qed

lemma load_bundle_error:
  assumes "load_bundle c app t = Inl e"
  shows "\<exists>x. e = SecretStorage x"
  using assms by (auto simp: load_bundle_def secret_storage_def try_then_Err_iff split: option.splits elim!: err_as.elims)

lemma cipher_error:
  "decrypt a key blob = Inl e \<Longrightarrow> \<exists>x. e = Encryption x"
  "encrypt a key nonce plain = Inl e \<Longrightarrow> \<exists>x. e = Encryption x"
  by (auto simp: decrypt_def encrypt_def try_then_Err_iff split: if_splits elim!: err_as.elims)

lemma save_bundle_error: "save_bundle c b t = Inl e \<Longrightarrow> \<exists>x. e = SecretStorage x"
  by (auto simp: save_bundle_def secret_storage_def try_then_Err_iff elim!: err_as.elims)

lemma get_or_create_dek_error:
  assumes "get_or_create_dek c fresh app s = (Inl e, s')"
  shows "(\<exists>x. e = SecretStorage x) \<or> (\<exists>x. e = Encryption x)"
  using assms
  by (auto simp: get_or_create_dek_def unlock_dek_def create_dek_def try_then_Err_iff
      split: option.splits sum.splits if_splits dest!: cipher_error save_bundle_error load_bundle_error)

lemma save_bundle_stored:
  assumes "secret_contracts c view" and "save_bundle c b t = Inr t'"
  shows "bundle_of c view t' = (bundle_of c view t)(asb_app_id b \<mapsto> b)"
proof -
  obtain bytes where s: "sd_to_string (sc_cbor c) b = Inr bytes" "raw_put (sc_db c) (asb_app_id b) bytes t = Inr t'"
    using assms(2) by (auto simp: save_bundle_def try_then_Ok_iff)
  have "view t' = (view t)(asb_app_id b \<mapsto> bytes)" "sd_from_str (sc_cbor c) bytes = Inr b"
    using raw_put_view [OF _ s(2)] s(1) assms(1) by (auto simp: secret_contracts_def serde_contract_def)
  then show ?thesis by (auto simp: stored_value_def)
qed

lemma secrets_ok_update:
  assumes "secrets_ok c view s" and "bundle_of c view t' = (bundle_of c view (sp_table s))(app \<mapsto> b)" and "bundle_ok c app b"
    and "\<And>b0. bundle_of c view (sp_table s) app = Some b0 \<Longrightarrow> unlock_dek c app b = unlock_dek c app b0"
  shows "secrets_ok c view (s\<lparr>sp_table := t'\<rparr>)"
  unfolding secrets_ok_def
proof (intro conjI allI impI)
  fix app' b' assume "bundle_of c view (sp_table (s\<lparr>sp_table := t'\<rparr>)) app' = Some b'"
  then show "bundle_ok c app' b'"
    using assms(1,2,3) by (auto simp: secrets_ok_def split: if_splits)
next
  fix app' dek assume "hm_get (sp_dek_cache (s\<lparr>sp_table := t'\<rparr>)) app' = Some dek"
  then have "hm_get (sp_dek_cache s) app' = Some dek" by simp
  with assms(1) obtain b0 where "bundle_of c view (sp_table s) app' = Some b0" "unlock_dek c app' b0 = Inr dek"
    unfolding secrets_ok_def by metis
  then show "\<exists>b. bundle_of c view (sp_table (s\<lparr>sp_table := t'\<rparr>)) app' = Some b \<and> unlock_dek c app' b = Inr dek"
    using assms(2,4) by (cases "app' = app") auto
qed

lemma secrets_ok_cache:
  assumes "secrets_ok c view s" and "bundle_of c view (sp_table s) app = Some b" and "unlock_dek c app b = Inr dek"
  shows "secrets_ok c view (cache_dek app dek s)"
  unfolding secrets_ok_def
proof (intro conjI allI impI)
  fix app' b' assume "bundle_of c view (sp_table (cache_dek app dek s)) app' = Some b'"
  then show "bundle_ok c app' b'" using assms(1) by (simp add: secrets_ok_def cache_dek_def)
next
  fix app' dek' assume "hm_get (sp_dek_cache (cache_dek app dek s)) app' = Some dek'"
  then have "app' = app \<and> dek' = dek \<or> hm_get (sp_dek_cache s) app' = Some dek'"
    by (auto simp: cache_dek_def hm.get_insert split: if_splits)
  then show "\<exists>b. bundle_of c view (sp_table (cache_dek app dek s)) app' = Some b \<and> unlock_dek c app' b = Inr dek'"
    using assms unfolding secrets_ok_def cache_dek_def by simp metis
qed

lemma created_bundle:
  assumes "secret_contracts c view" and "fresh_ok fresh" and "create_dek c fresh app t = Inr t'"
  obtains b where "bundle_of c view t' = (bundle_of c view t)(app \<mapsto> b)" and "bundle_ok c app b"
    and "unlock_dek c app b = Inr (fv_dek fresh)" and "asb_secrets b = []"
proof -
  obtain e where e: "encrypt (sc_aead c) (sc_kek c) (fv_dek_nonce fresh) (fv_dek fresh) = Inr e"
    and s: "save_bundle c \<lparr> asb_app_id = app, asb_encrypted_dek = e, asb_secrets = [], asb_version = 1,
                       asb_updated_at = fv_now fresh \<rparr> t = Inr t'"
    using assms(3) by (auto simp: create_dek_def try_then_Ok_iff)
  let ?b = "\<lparr> asb_app_id = app, asb_encrypted_dek = e, asb_secrets = [], asb_version = 1, asb_updated_at = fv_now fresh \<rparr>"
  have "decrypt (sc_aead c) (sc_kek c) e = Inr (fv_dek fresh)"
    using encrypt_decrypt [OF _ _ e] assms(1,2) by (simp add: secret_contracts_def fresh_ok_def)
  then have u: "unlock_dek c app ?b = Inr (fv_dek fresh)"
    using assms(2) by (simp add: unlock_dek_def fresh_ok_def)
  then have "bundle_ok c app ?b" by (simp add: bundle_ok_def hm_get_def)
  with u that [of ?b] save_bundle_stored [OF assms(1) s] show ?thesis by simp
qed

lemma get_or_create_dek_step:
  assumes con: "secret_contracts c view" and ok: "secrets_ok c view s" and fresh: "fresh_ok fresh"
    and run: "get_or_create_dek c fresh app s = (r, s')"
  shows "secrets_ok c view s'" and "secrets_of c view (sp_table s') = secrets_of c view (sp_table s)"
    and "r = Inr dek \<Longrightarrow> \<exists>b. bundle_of c view (sp_table s') app = Some b \<and> unlock_dek c app b = Inr dek"
    and "r = Inl (Encryption msg) \<Longrightarrow> bundle_of c view (sp_table s') app = None"
proof -
  let ?goal = "secrets_ok c view s' \<and> secrets_of c view (sp_table s') = secrets_of c view (sp_table s) \<and>
    (\<forall>dek. r = Inr dek \<longrightarrow> (\<exists>b. bundle_of c view (sp_table s') app = Some b \<and> unlock_dek c app b = Inr dek)) \<and>
    (\<forall>msg. r = Inl (Encryption msg) \<longrightarrow> bundle_of c view (sp_table s') app = None)"
  have ?goal
  proof (cases "hm_get (sp_dek_cache s) app")
    case (Some key)
    then have "r = Inr key" "s' = s" using run by (auto simp: get_or_create_dek_def)
    with Some ok show ?thesis by (auto simp: secrets_ok_def)
  next
    case None
    show ?thesis
    proof (cases "load_bundle c app (sp_table s)")
      case (Inl e)
      then have "r = Inl e" "s' = s" using run None by (auto simp: get_or_create_dek_def)
      moreover have "e \<noteq> Encryption msg" for msg
        using Inl by (auto simp: load_bundle_def secret_storage_def try_then_Err_iff split: option.splits elim!: err_as.elims)
      ultimately show ?thesis using ok by auto
    next
      case (Inr found)
      note b = load_bundle_stored [OF con Inr]
      show ?thesis
      proof (cases found)
        case (Some b0)
        then have "bundle_ok c app b0" using ok b by (auto simp: secrets_ok_def)
        then obtain dek where d: "unlock_dek c app b0 = Inr dek" by (auto simp: bundle_ok_def)
        then have "r = Inr dek" "s' = cache_dek app dek s"
          using run None Inr Some by (auto simp: get_or_create_dek_def)
        moreover have "secrets_ok c view (cache_dek app dek s)"
          using secrets_ok_cache [OF ok _ d] b Some by simp
        ultimately show ?thesis using b Some d by (auto simp: cache_dek_def)
      next
        case none: None
        show ?thesis
        proof (cases "create_dek c fresh app (sp_table s)")
          case (Inl e)
          then have "r = Inl e" "s' = s" using run None Inr none by (auto simp: get_or_create_dek_def)
          with ok b none show ?thesis by auto
        next
          case created: (Inr t)
          then have rs: "r = Inr (fv_dek fresh)" "s' = cache_dek app (fv_dek fresh) (s\<lparr>sp_table := t\<rparr>)"
            using run None Inr none by (auto simp: get_or_create_dek_def)
          obtain b1 where b1: "bundle_of c view t = (bundle_of c view (sp_table s))(app \<mapsto> b1)" "bundle_ok c app b1"
            "unlock_dek c app b1 = Inr (fv_dek fresh)" "asb_secrets b1 = []"
            by (rule created_bundle [OF con fresh created])
          have "secrets_ok c view (s\<lparr>sp_table := t\<rparr>)"
            by (rule secrets_ok_update [OF ok b1(1,2)]) (use b none in simp)
          then have "secrets_ok c view s'"
            using secrets_ok_cache [OF _ _ b1(3), of view "s\<lparr>sp_table := t\<rparr>"] b1(1) rs(2) by simp
          moreover have "secrets_of c view t = secrets_of c view (sp_table s)"
            using b1 b none by (auto simp: secrets_of_def secrets_in_def hm_get_def fun_eq_iff)
          ultimately show ?thesis using rs b1 by (auto simp: cache_dek_def)
        qed
      qed
    qed
  qed
  then show "secrets_ok c view s'" "secrets_of c view (sp_table s') = secrets_of c view (sp_table s)"
    "r = Inr dek \<Longrightarrow> \<exists>b. bundle_of c view (sp_table s') app = Some b \<and> unlock_dek c app b = Inr dek"
    "r = Inl (Encryption msg) \<Longrightarrow> bundle_of c view (sp_table s') app = None"
    by blast+
qed

section \<open>Operations on the map\<close>

lemma secrets_of_bundle:
  "bundle_of c view t app = Some b \<Longrightarrow> secrets_of c view t (app, key) = secrets_in c app b key"
  by (simp add: secrets_of_def)

lemma secrets_of_update:
  assumes "bundle_of c view t' = (bundle_of c view t)(app \<mapsto> b)"
    and "\<And>k. secrets_in c app b k = (if k = key then v else secrets_of c view t (app, k))"
  shows "secrets_of c view t' = (secrets_of c view t)((app, key) := v)"
  using assms by (auto simp: secrets_of_def fun_eq_iff)

lemma secret_get_step:
  assumes con: "secret_contracts c view" and ok: "secrets_ok c view s" and fresh: "fresh_ok fresh"
    and run: "secret_get c fresh app key s = (r, s')"
  shows "secrets_ok c view s'" and "secrets_of c view (sp_table s') = secrets_of c view (sp_table s)"
    and "r = Inr v \<Longrightarrow> secrets_of c view (sp_table s) (app_id_as_str app, key) = Some v"
    and "r = Inl (Encryption msg) \<or> r = Inl (SecretAppNotFound msg) \<or> r = Inl (SecretNotFound k a) \<Longrightarrow>
      secrets_of c view (sp_table s) (app_id_as_str app, key) = None"
proof -
  let ?app = "app_id_as_str app"
  obtain r1 s1 where d: "get_or_create_dek c fresh ?app s = (r1, s1)" by fastforce
  note step = get_or_create_dek_step [OF con ok fresh d]
  have s': "s' = s1" using run d by (cases r1) (auto simp: secret_get_def)
  then show "secrets_ok c view s'" "secrets_of c view (sp_table s') = secrets_of c view (sp_table s)"
    using step(1,2) by auto
  have res: "(\<forall>v. r = Inr v \<longrightarrow> secrets_of c view (sp_table s) (?app, key) = Some v) \<and>
    ((\<exists>msg. r = Inl (Encryption msg)) \<or> (\<exists>msg. r = Inl (SecretAppNotFound msg)) \<or> (\<exists>k a. r = Inl (SecretNotFound k a)) \<longrightarrow>
      secrets_of c view (sp_table s) (?app, key) = None)"
  proof (cases r1)
    case (Inl e)
    then have "r = Inl e" using run d by (auto simp: secret_get_def)
    moreover have "secrets_of c view (sp_table s) (?app, key) = None" if "e = Encryption msg" for msg
    proof -
      have "secrets_of c view (sp_table s1) (?app, key) = None"
        using step(4) Inl that by (simp add: secrets_of_def)
      with step(2) show ?thesis by simp
    qed
    moreover have "e \<noteq> SecretAppNotFound msg" "e \<noteq> SecretNotFound k a" for msg k a
      using get_or_create_dek_error d Inl by blast+
    ultimately show ?thesis by auto
  next
    case (Inr dek)
    then obtain b where b: "bundle_of c view (sp_table s1) ?app = Some b" "unlock_dek c ?app b = Inr dek"
      using step(3) by auto
    have val: "secrets_of c view (sp_table s) (?app, key) =
        (case hm_get (asb_secrets b) key of None \<Rightarrow> None
         | Some e \<Rightarrow> (case decrypt (sc_aead c) dek e of Inl _ \<Rightarrow> None | Inr p \<Rightarrow> Some p))"
      using secrets_of_bundle [OF b(1), of key] step(2) b(2) by (simp add: secrets_in_def)
    have good: "\<exists>p. decrypt (sc_aead c) dek e = Inr p \<and> is_utf8 p" if "hm_get (asb_secrets b) key = Some e" for e
      using step(1) b that unfolding secrets_ok_def bundle_ok_def by fastforce
    have rd: "r = try_then (load_bundle c ?app (sp_table s1)) (\<lambda>found.
        case found of None \<Rightarrow> Err (SecretAppNotFound ?app)
        | Some b \<Rightarrow> (case hm_get (asb_secrets b) key of
               None \<Rightarrow> Err (SecretNotFound key ?app)
             | Some encrypted \<Rightarrow> try_then (decrypt (sc_aead c) dek encrypted) (\<lambda>plaintext.
                 if is_utf8 plaintext then Ok plaintext else Err (Encryption ''invalid utf-8 sequence''))))"
      using run d Inr by (auto simp: secret_get_def)
    show ?thesis
    proof (cases "load_bundle c ?app (sp_table s1)")
      case (Inl e)
      then show ?thesis using rd load_bundle_error [OF Inl] by auto
    next
      case (Inr found)
      then have "found = Some b" using load_bundle_stored [OF con Inr] b(1) by simp
      with rd Inr val good show ?thesis by (auto split: option.splits)
    qed
  qed
  then show "r = Inr v \<Longrightarrow> secrets_of c view (sp_table s) (?app, key) = Some v"
    "r = Inl (Encryption msg) \<or> r = Inl (SecretAppNotFound msg) \<or> r = Inl (SecretNotFound k a) \<Longrightarrow>
      secrets_of c view (sp_table s) (?app, key) = None" by blast+
qed

text \<open>Saving a bundle that differs in one secret from the stored one.\<close>

lemma saved_bundle:
  assumes con: "secret_contracts c view" and ok: "secrets_ok c view s"
    and b: "bundle_of c view (sp_table s) app = Some b" and dek: "unlock_dek c app b = Inr dek"
    and b': "asb_app_id b' = asb_app_id b" "asb_encrypted_dek b' = asb_encrypted_dek b"
    and get': "\<And>k. hm_get (asb_secrets b') k = (if k = key then e else hm_get (asb_secrets b) k)"
    and e: "case e of None \<Rightarrow> v = None | Some x \<Rightarrow> \<exists>p. decrypt (sc_aead c) dek x = Inr p \<and> is_utf8 p \<and> v = Some p"
    and save: "save_bundle c b' (sp_table s) = Inr t"
  shows "secrets_ok c view (s\<lparr>sp_table := t\<rparr>)"
    and "secrets_of c view t = (secrets_of c view (sp_table s))((app, key) := v)"
proof -
  have okb: "bundle_ok c app b" using ok b by (auto simp: secrets_ok_def)
  have u: "unlock_dek c app b' = unlock_dek c app b" by (simp add: unlock_dek_def b'(2))
  have st: "bundle_of c view t = (bundle_of c view (sp_table s))(app \<mapsto> b')"
    using save_bundle_stored [OF con save] okb b'(1) by (simp add: bundle_ok_def)
  have "bundle_ok c app b'"
    using okb b'(1) u dek get' e unfolding bundle_ok_def by (auto split: option.splits if_splits)
  then show "secrets_ok c view (s\<lparr>sp_table := t\<rparr>)"
    by (rule secrets_ok_update [OF ok st]) (use b u in simp)
  show "secrets_of c view t = (secrets_of c view (sp_table s))((app, key) := v)"
    by (rule secrets_of_update [OF st])
      (use secrets_of_bundle [OF b] u dek get' e in \<open>auto simp: secrets_in_def split: option.splits\<close>)
qed

lemma prepared_set:
  assumes con: "secret_contracts c view" and ok: "secrets_ok c view s" and fresh: "fresh_ok fresh"
    and run: "prepare_set c fresh app key value s = (r, s')"
  shows "secrets_ok c view s'" and "secrets_of c view (sp_table s') = secrets_of c view (sp_table s)"
    and "r = Inr (b', n) \<Longrightarrow> \<exists>b dek e. bundle_of c view (sp_table s') (app_id_as_str app) = Some b \<and>
      unlock_dek c (app_id_as_str app) b = Inr dek \<and> decrypt (sc_aead c) dek e = Inr value \<and> n = asb_version b \<and>
      b' = b\<lparr> asb_secrets := hm_insert key e (asb_secrets b), asb_version := asb_version b + 1, asb_updated_at := fv_now fresh \<rparr>"
proof -
  let ?app = "app_id_as_str app"
  obtain r1 s1 where d: "get_or_create_dek c fresh ?app s = (r1, s1)" by fastforce
  note step = get_or_create_dek_step [OF con ok fresh d]
  have s': "s' = s1" using run d by (cases r1) (auto simp: prepare_set_def)
  then show "secrets_ok c view s'" "secrets_of c view (sp_table s') = secrets_of c view (sp_table s)"
    using step(1,2) by auto
  assume r: "r = Inr (b', n)"
  then obtain dek where dek: "r1 = Inr dek" using run d by (cases r1) (auto simp: prepare_set_def)
  obtain e b where e: "encrypt (sc_aead c) dek (fv_nonce fresh) value = Inr e"
    and l: "load_bundle c ?app (sp_table s1) = Inr (Some b)"
    and b': "n = asb_version b" "b' = b\<lparr> asb_secrets := hm_insert key e (asb_secrets b), asb_version := asb_version b + 1,
      asb_updated_at := fv_now fresh \<rparr>"
    using run d dek r by (auto simp: prepare_set_def try_then_Ok_iff split: option.splits)
  have b: "bundle_of c view (sp_table s') ?app = Some b" using load_bundle_stored [OF con l] s' by simp
  moreover have "unlock_dek c ?app b = Inr dek" using step(3) [OF dek] b s' by auto
  moreover have "decrypt (sc_aead c) dek e = Inr value"
    using encrypt_decrypt [OF _ _ e] con fresh by (simp add: secret_contracts_def fresh_ok_def)
  ultimately show "\<exists>b dek e. bundle_of c view (sp_table s') ?app = Some b \<and>
      unlock_dek c ?app b = Inr dek \<and> decrypt (sc_aead c) dek e = Inr value \<and> n = asb_version b \<and>
      b' = b\<lparr> asb_secrets := hm_insert key e (asb_secrets b), asb_version := asb_version b + 1, asb_updated_at := fv_now fresh \<rparr>"
    using b' by blast
qed

lemma saved_with_version:
  "save_bundle_with_version c app b n t = Inr t' \<Longrightarrow> save_bundle c b t = Inr t'"
  by (auto simp: save_bundle_with_version_def try_then_Ok_iff)

lemma secret_set_step:
  assumes con: "secret_contracts c view" and ok: "secrets_ok c view s" and fresh: "fresh_ok fresh" and "is_utf8 value"
    and run: "secret_set c fresh app key value s = (r, s')"
  shows "secrets_ok c view s'"
    and "secrets_of c view (sp_table s') = (case r of Inl _ \<Rightarrow> secrets_of c view (sp_table s)
      | Inr _ \<Rightarrow> (secrets_of c view (sp_table s))((app_id_as_str app, key) \<mapsto> value))"
proof -
  obtain r1 s1 where p: "prepare_set c fresh app key value s = (r1, s1)" by fastforce
  note prep = prepared_set [OF con ok fresh p]
  have "secrets_ok c view s' \<and> secrets_of c view (sp_table s') = (case r of Inl _ \<Rightarrow> secrets_of c view (sp_table s)
      | Inr _ \<Rightarrow> (secrets_of c view (sp_table s))((app_id_as_str app, key) \<mapsto> value))"
  proof (cases r1)
    case (Inl e)
    with run p prep(1,2) show ?thesis by (auto simp: secret_set_def)
  next
    case (Inr bn)
    obtain b' n where bn: "bn = (b', n)" by fastforce
    show ?thesis
    proof (cases "save_bundle_with_version c (app_id_as_str app) b' n (sp_table s1)")
      case (Inl e)
      with run p Inr bn prep(1,2) \<open>r1 = Inr bn\<close> show ?thesis by (auto simp: secret_set_def)
    next
      case saved: (Inr t)
      obtain b dek e where b: "bundle_of c view (sp_table s1) (app_id_as_str app) = Some b"
        "unlock_dek c (app_id_as_str app) b = Inr dek" "decrypt (sc_aead c) dek e = Inr value"
        "b' = b\<lparr> asb_secrets := hm_insert key e (asb_secrets b), asb_version := asb_version b + 1, asb_updated_at := fv_now fresh \<rparr>"
        using prep(3) \<open>r1 = Inr bn\<close> bn by blast
      have rs: "r = Inr ()" "s' = s1\<lparr>sp_table := t\<rparr>"
        using run p \<open>r1 = Inr bn\<close> bn saved by (auto simp: secret_set_def)
      note sv = saved_bundle [OF con prep(1) b(1,2) _ _ _ _ saved_with_version [OF saved], of key "Some e" "Some value"]
      have "secrets_ok c view s'" "secrets_of c view t = (secrets_of c view (sp_table s1))((app_id_as_str app, key) := Some value)"
        unfolding rs(2) by (rule sv; use b assms(4) in \<open>simp add: hm.get_insert\<close>)+
      with rs prep(2) show ?thesis by simp
    qed
  qed
  then show "secrets_ok c view s'" "secrets_of c view (sp_table s') = (case r of Inl _ \<Rightarrow> secrets_of c view (sp_table s)
      | Inr _ \<Rightarrow> (secrets_of c view (sp_table s))((app_id_as_str app, key) \<mapsto> value))" by blast+
qed


lemma secret_delete_step:
  assumes con: "secret_contracts c view" and ok: "secrets_ok c view s"
    and run: "secret_delete c now app key s = (r, s')"
  shows "secrets_ok c view s'"
    and "secrets_of c view (sp_table s') = (case r of Inl _ \<Rightarrow> secrets_of c view (sp_table s)
      | Inr _ \<Rightarrow> (secrets_of c view (sp_table s))((app_id_as_str app, key) := None))"
proof -
  let ?app = "app_id_as_str app"
  have "secrets_ok c view s' \<and> secrets_of c view (sp_table s') = (case r of Inl _ \<Rightarrow> secrets_of c view (sp_table s)
      | Inr _ \<Rightarrow> (secrets_of c view (sp_table s))((?app, key) := None))"
  proof (cases "load_bundle c ?app (sp_table s)")
    case (Inl e)
    with run ok show ?thesis by (auto simp: secret_delete_def)
  next
    case (Inr found)
    show ?thesis
    proof (cases found)
      case None
      with Inr run ok show ?thesis by (auto simp: secret_delete_def)
    next
      case (Some b)
      have b: "bundle_of c view (sp_table s) ?app = Some b" using load_bundle_stored [OF con Inr] Some by simp
      then obtain dek where dek: "unlock_dek c ?app b = Inr dek"
        using ok unfolding secrets_ok_def bundle_ok_def by blast
      let ?b = "b\<lparr> asb_secrets := hm_remove key (asb_secrets b), asb_version := asb_version b + 1, asb_updated_at := now \<rparr>"
      show ?thesis
      proof (cases "hm_get (asb_secrets b) key")
        case None
        then have "r = Inr ()" "s' = s" using run Inr Some by (auto simp: secret_delete_def)
        moreover have "secrets_of c view (sp_table s) (?app, key) = None"
          using secrets_of_bundle [OF b] None dek by (simp add: secrets_in_def)
        ultimately show ?thesis using ok by auto
      next
        case (Some e)
        show ?thesis
        proof (cases "save_bundle_with_version c ?app ?b (asb_version b) (sp_table s)")
          case (Inl e')
          with run Inr \<open>found = Some b\<close> Some ok \<open>load_bundle c ?app (sp_table s) = Inr found\<close>
          show ?thesis by (auto simp: secret_delete_def)
        next
          case saved: (Inr t)
          have rs: "r = Inr ()" "s' = s\<lparr>sp_table := t\<rparr>"
            using run \<open>load_bundle c ?app (sp_table s) = Inr found\<close> \<open>found = Some b\<close> Some saved
            by (auto simp: secret_delete_def)
          note sv = saved_bundle [OF con ok b dek _ _ _ _ saved_with_version [OF saved], of key None None]
          have "secrets_ok c view s'" "secrets_of c view t = (secrets_of c view (sp_table s))((?app, key) := None)"
            unfolding rs(2) by (rule sv; simp add: hm.get_remove)+
          with rs show ?thesis by simp
        qed
      qed
    qed
  qed
  then show "secrets_ok c view s'" "secrets_of c view (sp_table s') = (case r of Inl _ \<Rightarrow> secrets_of c view (sp_table s)
      | Inr _ \<Rightarrow> (secrets_of c view (sp_table s))((?app, key) := None))" by blast+
qed

lemma secret_list_keys_exact:
  assumes con: "secret_contracts c view" and ok: "secrets_ok c view s" and run: "secret_list_keys c app s = Inr ks"
  shows "set ks = {k. secrets_of c view (sp_table s) (app_id_as_str app, k) \<noteq> None}"
proof -
  obtain found where l: "load_bundle c (app_id_as_str app) (sp_table s) = Inr found"
    and ks: "ks = (case found of None \<Rightarrow> [] | Some b \<Rightarrow> map fst (asb_secrets b))"
    using run by (auto simp: secret_list_keys_def try_then_Ok_iff)
  note b = load_bundle_stored [OF con l]
  show ?thesis
  proof (cases found)
    case None
    with b ks show ?thesis by (simp add: secrets_of_def)
  next
    case (Some b0)
    then obtain dek where dek: "unlock_dek c (app_id_as_str app) b0 = Inr dek"
      "\<forall>key e. hm_get (asb_secrets b0) key = Some e \<longrightarrow> (\<exists>p. decrypt (sc_aead c) dek e = Inr p \<and> is_utf8 p)"
      using ok b unfolding secrets_ok_def bundle_ok_def by blast
    have "(secrets_of c view (sp_table s) (app_id_as_str app, k) \<noteq> None) = (hm_get (asb_secrets b0) k \<noteq> None)" for k
      using secrets_of_bundle [of c view "sp_table s" "app_id_as_str app" b0 k] b Some dek
      by (fastforce simp: secrets_in_def split: option.splits sum.splits)
    then show ?thesis using ks Some by (auto simp: hm_get_def map_of_eq_None_iff image_iff)
  qed
qed

text \<open>Operations with their answers; a restart begins with an empty cache.\<close>

datatype secret_op =
    SecretGet app_id string
  | SecretSet app_id string string
  | SecretDelete app_id string
  | SecretListKeys app_id
  | ProviderRestart

datatype secret_answer =
    ValueAnswer "(secret_error, string) result"
  | DoneAnswer "(secret_error, unit) result"
  | KeysAnswer "(secret_error, string list) result"

fun secret_op_step :: "'t secret_context \<Rightarrow> fresh_values \<Rightarrow> secret_op \<Rightarrow> 't secret_provider \<Rightarrow> secret_answer \<times> 't secret_provider" where
  "secret_op_step c fresh (SecretGet app key) s = (case secret_get c fresh app key s of (r, s') \<Rightarrow> (ValueAnswer r, s'))"
| "secret_op_step c fresh (SecretSet app key v) s = (case secret_set c fresh app key v s of (r, s') \<Rightarrow> (DoneAnswer r, s'))"
| "secret_op_step c fresh (SecretDelete app key) s = (case secret_delete c (fv_now fresh) app key s of (r, s') \<Rightarrow> (DoneAnswer r, s'))"
| "secret_op_step c fresh (SecretListKeys app) s = (KeysAnswer (secret_list_keys c app s), s)"
| "secret_op_step c fresh ProviderRestart s = (DoneAnswer (Ok ()), local_provider_new (sp_table s))"

fun secret_run ::
  "'t secret_context \<Rightarrow> (fresh_values \<times> secret_op) list \<Rightarrow> 't secret_provider \<Rightarrow> (secret_op \<times> secret_answer) list \<times> 't secret_provider" where
  "secret_run c [] s = ([], s)"
| "secret_run c ((fresh, op) # ops) s =
     (let (a, s1) = secret_op_step c fresh op s; (as, s2) = secret_run c ops s1 in ((op, a) # as, s2))"

text \<open>
  A failure is an error of the database, the codec or the cipher. The specification is a map from application and
  name to value. A failed operation changes nothing; a read answers with the value or, unless the
  database fails, that there is none; a deletion finds no application only if it has no secrets.
\<close>

fun failure :: "secret_error \<Rightarrow> bool" where
  "failure (Encryption _) = True"
| "failure (SecretStorage _) = True"
| "failure _ = False"

fun answer_failed :: "secret_answer \<Rightarrow> bool" where
  "answer_failed (ValueAnswer (Inl e)) = failure e"
| "answer_failed (DoneAnswer (Inl e)) = failure e"
| "answer_failed (KeysAnswer (Inl e)) = failure e"
| "answer_failed _ = False"

type_synonym secret_map = "string \<times> string \<Rightarrow> string option"

fun spec_answer :: "secret_op \<Rightarrow> secret_answer \<Rightarrow> secret_map \<Rightarrow> secret_map option" where
  "spec_answer (SecretGet app key) (ValueAnswer (Inr v)) m = (if m (app_id_as_str app, key) = Some v then Some m else None)"
| "spec_answer (SecretGet app key) (ValueAnswer (Inl (SecretStorage e))) m = Some m"
| "spec_answer (SecretGet app key) (ValueAnswer (Inl _)) m = (if m (app_id_as_str app, key) = None then Some m else None)"
| "spec_answer (SecretSet app key v) (DoneAnswer (Inr _)) m = Some (m((app_id_as_str app, key) \<mapsto> v))"
| "spec_answer (SecretSet app key v) (DoneAnswer (Inl e)) m = (if failure e then Some m else None)"
| "spec_answer (SecretDelete app key) (DoneAnswer (Inr _)) m = Some (m((app_id_as_str app, key) := None))"
| "spec_answer (SecretDelete app key) (DoneAnswer (Inl e)) m =
     (if failure e \<or> e = SecretAppNotFound (app_id_as_str app) \<and> (\<forall>k. m (app_id_as_str app, k) = None) then Some m else None)"
| "spec_answer (SecretListKeys app) (KeysAnswer (Inr ks)) m = (if set ks = {k. m (app_id_as_str app, k) \<noteq> None} then Some m else None)"
| "spec_answer (SecretListKeys app) (KeysAnswer (Inl e)) m = (if failure e then Some m else None)"
| "spec_answer ProviderRestart (DoneAnswer (Inr _)) m = Some m"
| "spec_answer _ _ m = None"

fun spec_run :: "(secret_op \<times> secret_answer) list \<Rightarrow> secret_map \<Rightarrow> secret_map option" where
  "spec_run [] m = Some m"
| "spec_run ((op, a) # rest) m = Option.bind (spec_answer op a m) (spec_run rest)"

fun op_ok :: "fresh_values \<times> secret_op \<Rightarrow> bool" where
  "op_ok (fresh, SecretSet app key v) = (fresh_ok fresh \<and> is_utf8 v)"
| "op_ok (fresh, op) = fresh_ok fresh"

lemma failure_iff: "failure e \<longleftrightarrow> (\<exists>x. e = SecretStorage x) \<or> (\<exists>x. e = Encryption x)"
  by (cases e) auto

lemma save_with_version_error: "save_bundle_with_version c app b n t = Inl e \<Longrightarrow> failure e"
  by (auto simp: save_bundle_with_version_def check_version_def try_then_Err_iff secret_storage_def failure_iff
      split: option.splits if_splits dest!: load_bundle_error save_bundle_error)

lemma prepare_set_error:
  assumes "prepare_set c fresh app key v s = (Inl e, s')"
  shows "failure e"
proof -
  obtain r1 s1 where d: "get_or_create_dek c fresh (app_id_as_str app) s = (r1, s1)" by fastforce
  show ?thesis
  proof (cases r1)
    case (Inl e1)
    with assms d get_or_create_dek_error [of c fresh _ s e1 s1] show ?thesis
      by (auto simp: prepare_set_def failure_iff)
  next
    case (Inr dek)
    with assms d show ?thesis
      by (auto simp: prepare_set_def try_then_Err_iff failure_iff secret_storage_def split: option.splits
          dest!: cipher_error load_bundle_error)
  qed
qed

lemma secret_set_error:
  assumes "secret_set c fresh app key v s = (Inl e, s')"
  shows "failure e"
proof -
  obtain r1 s1 where p: "prepare_set c fresh app key v s = (r1, s1)" by fastforce
  with assms prepare_set_error [of c fresh app key v s] show ?thesis
    by (cases r1) (auto simp: secret_set_def split: sum.splits dest!: save_with_version_error)
qed

lemma secret_delete_error:
  assumes con: "secret_contracts c view" and "secret_delete c now app key s = (Inl e, s')"
  shows "failure e \<or> e = SecretAppNotFound (app_id_as_str app) \<and> (\<forall>k. secrets_of c view (sp_table s) (app_id_as_str app, k) = None)"
proof (cases "load_bundle c (app_id_as_str app) (sp_table s)")
  case (Inl x)
  with assms(2) load_bundle_error [OF Inl] show ?thesis by (auto simp: secret_delete_def failure_iff)
next
  case (Inr found)
  with assms(2) load_bundle_stored [OF con Inr] show ?thesis
    by (auto simp: secret_delete_def secrets_of_def split: option.splits sum.splits dest!: save_with_version_error)
qed

lemma op_step_refines:
  assumes con: "secret_contracts c view" and ok: "secrets_ok c view s" and "op_ok (fresh, op)"
    and "secret_op_step c fresh op s = (a, s')"
  shows "secrets_ok c view s' \<and>
    spec_answer op a (secrets_of c view (sp_table s)) = Some (secrets_of c view (sp_table s'))"
proof (cases op)
  case (SecretGet app key)
  then obtain r where r: "secret_get c fresh app key s = (r, s')" "a = ValueAnswer r"
    using assms(4) by (auto split: prod.splits)
  have "fresh_ok fresh" using assms(3) SecretGet by simp
  note st = secret_get_step [OF con ok this r(1)]
  show ?thesis
  proof (cases r)
    case (Inl e)
    with SecretGet r st(1,2) st(4) [of _ "[]" "[]"] st(4) show ?thesis by (cases e) auto
  next
    case (Inr v)
    with SecretGet r st(1,2,3) show ?thesis by auto
  qed
next
  case (SecretSet app key v)
  then obtain r where r: "secret_set c fresh app key v s = (r, s')" "a = DoneAnswer r"
    using assms(4) by (auto split: prod.splits)
  have "fresh_ok fresh" "is_utf8 v" using assms(3) SecretSet by simp_all
  from secret_set_step [OF con ok this r(1)] secret_set_error [of c fresh app key v s] r SecretSet show ?thesis
    by (cases r) auto
next
  case (SecretDelete app key)
  then obtain r where r: "secret_delete c (fv_now fresh) app key s = (r, s')" "a = DoneAnswer r"
    using assms(4) by (auto split: prod.splits)
  from secret_delete_step [OF con ok r(1)] secret_delete_error [OF con, of "fv_now fresh" app key s] r SecretDelete
  show ?thesis by (cases r) auto
next
  case (SecretListKeys app)
  with assms(4) have "a = KeysAnswer (secret_list_keys c app s)" "s' = s" by auto
  with secret_list_keys_exact [OF con ok] SecretListKeys ok show ?thesis
    by (cases "secret_list_keys c app s") (auto simp: secret_list_keys_def try_then_Err_iff failure_iff dest!: load_bundle_error)
next
  case ProviderRestart
  with assms(4) ok show ?thesis by (auto simp: local_provider_new_def secrets_ok_def hm_get_def)
qed

text \<open>Where database, codec and cipher do not fail and the stored bundles can be read, no operation fails.\<close>

definition secret_libs_total :: "'t secret_context \<Rightarrow> bool" where
  "secret_libs_total c \<longleftrightarrow> redb_total (sc_db c) \<and> (\<forall>b. \<exists>x. sd_to_string (sc_cbor c) b = Inr x) \<and>
     (\<forall>key nonce plain. \<exists>x. ae_encrypt (sc_aead c) key nonce plain = Inr x)"

definition readable_bundles :: "'t secret_context \<Rightarrow> ('t \<Rightarrow> string \<Rightarrow> string option) \<Rightarrow> 't \<Rightarrow> bool" where
  "readable_bundles c view t \<longleftrightarrow> (\<forall>app v. view t app = Some v \<longrightarrow> (\<exists>b. sd_from_str (sc_cbor c) v = Inr b))"

lemma load_total:
  assumes "secret_contracts c view" and "secret_libs_total c" and "readable_bundles c view t"
  shows "load_bundle c app t = Inr (bundle_of c view t app)"
proof -
  obtain v where v: "raw_get (sc_db c) app t = Inr v" using raw_reads_total(1) assms(2) unfolding secret_libs_total_def by metis
  then have "view t app = v" using raw_get_view assms(1) by (auto simp: secret_contracts_def)
  with assms(3) v have "\<exists>r. load_bundle c app t = Inr r"
    by (fastforce simp: load_bundle_def readable_bundles_def split: option.splits)
  with load_bundle_stored [OF assms(1)] show ?thesis by metis
qed

lemma save_total:
  assumes "secret_contracts c view" and "secret_libs_total c" and "readable_bundles c view t"
  shows "\<exists>t'. save_bundle c b t = Inr t' \<and> readable_bundles c view t'"
proof -
  obtain bytes where b: "sd_to_string (sc_cbor c) b = Inr bytes" using assms(2) unfolding secret_libs_total_def by blast
  obtain t' where t': "raw_put (sc_db c) (asb_app_id b) bytes t = Inr t'"
    using raw_put_total assms(2) unfolding secret_libs_total_def by metis
  have "sd_from_str (sc_cbor c) bytes = Inr b" using assms(1) b by (simp add: secret_contracts_def serde_contract_def)
  moreover have "view t' = (view t)(asb_app_id b \<mapsto> bytes)"
    by (rule raw_put_view [OF _ t']) (use assms(1) in \<open>simp add: secret_contracts_def\<close>)
  ultimately show ?thesis using b t' assms(3) by (auto simp: save_bundle_def readable_bundles_def)
qed

lemma encrypt_total: "secret_libs_total c \<Longrightarrow> \<exists>x. encrypt (sc_aead c) key nonce plain = Inr x"
  unfolding secret_libs_total_def encrypt_def by (metis err_as.simps(2) try_then.simps(2))

lemma dek_total:
  assumes con: "secret_contracts c view" and tot: "secret_libs_total c" and rd: "readable_bundles c view (sp_table s)"
    and ok: "secrets_ok c view s"
  shows "\<exists>dek s'. get_or_create_dek c fresh app s = (Inr dek, s') \<and> readable_bundles c view (sp_table s')"
proof (cases "hm_get (sp_dek_cache s) app")
  case None
  show ?thesis
  proof (cases "bundle_of c view (sp_table s) app")
    case (Some b)
    then obtain dek where "unlock_dek c app b = Inr dek" using ok unfolding secrets_ok_def bundle_ok_def by blast
    with None Some load_total [OF con tot rd] rd show ?thesis by (simp add: get_or_create_dek_def cache_dek_def)
  next
    case none: None
    obtain x where x: "encrypt (sc_aead c) (sc_kek c) (fv_dek_nonce fresh) (fv_dek fresh) = Inr x" using encrypt_total [OF tot] by blast
    obtain t' where "create_dek c fresh app (sp_table s) = Inr t'" "readable_bundles c view t'"
      using save_total [OF con tot rd] x by (force simp: create_dek_def)
    with None none load_total [OF con tot rd] show ?thesis by (simp add: get_or_create_dek_def cache_dek_def)
  qed
qed (use rd in \<open>simp add: get_or_create_dek_def\<close>)

lemma set_total:
  assumes con: "secret_contracts c view" and tot: "secret_libs_total c" and rd: "readable_bundles c view (sp_table s)"
    and ok: "secrets_ok c view s" and fresh: "fresh_ok fresh"
  shows "\<exists>s'. secret_set c fresh app key v s = (Inr (), s') \<and> readable_bundles c view (sp_table s')"
proof -
  let ?app = "app_id_as_str app"
  obtain dek s1 where d: "get_or_create_dek c fresh ?app s = (Inr dek, s1)" and rd1: "readable_bundles c view (sp_table s1)"
    using dek_total [OF con tot rd ok] by blast
  obtain b where b: "bundle_of c view (sp_table s1) ?app = Some b"
    using get_or_create_dek_step(3) [OF con ok fresh d] by blast
  note l = load_total [OF con tot rd1, of ?app, unfolded b]
  obtain x where x: "encrypt (sc_aead c) dek (fv_nonce fresh) v = Inr x" using encrypt_total [OF tot] by blast
  let ?b = "b\<lparr> asb_secrets := hm_insert key x (asb_secrets b), asb_version := asb_version b + 1, asb_updated_at := fv_now fresh \<rparr>"
  have p: "prepare_set c fresh app key v s = (Inr (?b, asb_version b), s1)"
    using d x l by (simp add: prepare_set_def store_then_def)
  obtain t' where "save_bundle c ?b (sp_table s1) = Inr t'" "readable_bundles c view t'"
    using save_total [OF con tot rd1] by blast
  with p l show ?thesis by (simp add: secret_set_def store_then_def save_bundle_with_version_def check_version_def)
qed

lemma get_total:
  assumes con: "secret_contracts c view" and tot: "secret_libs_total c" and rd: "readable_bundles c view (sp_table s)"
    and ok: "secrets_ok c view s" and fresh: "fresh_ok fresh"
  shows "\<exists>r s'. secret_get c fresh app key s = (r, s') \<and> (\<forall>e. r = Inl e \<longrightarrow> \<not> failure e) \<and> readable_bundles c view (sp_table s')"
proof -
  let ?app = "app_id_as_str app"
  obtain dek s1 where d: "get_or_create_dek c fresh ?app s = (Inr dek, s1)" and rd1: "readable_bundles c view (sp_table s1)"
    using dek_total [OF con tot rd ok] by blast
  obtain b where b: "bundle_of c view (sp_table s1) ?app = Some b" "unlock_dek c ?app b = Inr dek"
    using get_or_create_dek_step(3) [OF con ok fresh d] by blast
  have "\<exists>p. decrypt (sc_aead c) dek e = Inr p \<and> is_utf8 p" if "hm_get (asb_secrets b) key = Some e" for e
    using get_or_create_dek_step(1) [OF con ok fresh d] b that unfolding secrets_ok_def bundle_ok_def by fastforce
  with d rd1 load_total [OF con tot rd1, of ?app, unfolded b(1)] show ?thesis
    by (fastforce simp: secret_get_def store_then_def split: option.splits)
qed

lemma delete_total:
  assumes con: "secret_contracts c view" and tot: "secret_libs_total c" and rd: "readable_bundles c view (sp_table s)"
  shows "\<exists>r s'. secret_delete c now app key s = (r, s') \<and> (\<forall>e. r = Inl e \<longrightarrow> \<not> failure e) \<and> readable_bundles c view (sp_table s')"
proof (cases "bundle_of c view (sp_table s) (app_id_as_str app)")
  case (Some b)
  let ?b = "b\<lparr> asb_secrets := hm_remove key (asb_secrets b), asb_version := asb_version b + 1, asb_updated_at := now \<rparr>"
  obtain t' where "save_bundle c ?b (sp_table s) = Inr t'" "readable_bundles c view t'"
    using save_total [OF con tot rd] by blast
  with load_total [OF con tot rd, of "app_id_as_str app", unfolded Some] rd show ?thesis
    by (cases "hm_get (asb_secrets b) key") (simp_all add: secret_delete_def save_bundle_with_version_def check_version_def)
qed (use load_total [OF con tot rd] rd in \<open>simp add: secret_delete_def\<close>)

lemma op_step_total:
  assumes "secret_contracts c view" and "secret_libs_total c" and "readable_bundles c view (sp_table s)"
    and "secrets_ok c view s" and "op_ok (fresh, op)" and "secret_op_step c fresh op s = (a, s')"
  shows "\<not> answer_failed a \<and> readable_bundles c view (sp_table s')"
proof (cases op)
  case (SecretGet app key)
  with get_total [OF assms(1-4), of fresh app key] assms(5,6) show ?thesis by (auto split: prod.splits) (metis answer_failed.simps(1,4) old.sum.exhaust)+
next
  case (SecretSet app key v)
  with set_total [OF assms(1-4), of fresh app key v] assms(5,6) show ?thesis by (auto split: prod.splits)
next
  case (SecretDelete app key)
  with delete_total [OF assms(1-3), of "fv_now fresh" app key] assms(6) show ?thesis by (auto split: prod.splits) (metis answer_failed.simps(2,5) old.sum.exhaust)+
next
  case (SecretListKeys app)
  with load_total [OF assms(1-3)] assms(3,6) show ?thesis by (auto simp: secret_list_keys_def)
next
  case ProviderRestart
  with assms(3,6) show ?thesis by (auto simp: local_provider_new_def)
qed

text \<open>
  (C20) The secret provider implements a map from application and name to value, however often it restarts. In
  every sequence of operations each answer is the one of the map or an error of the database, the codec or the
  cipher that changes nothing, a deletion being refused only for an application without secrets, and what is stored at
  the end decrypts to the map. Where database, codec and cipher do not fail and the stored bundles can be read, no
  operation fails. The stored bundles are assumed to open with the key of the node at the start, and values are texts.
\<close>

theorem secret_provider_refines_map:
  assumes "secret_contracts c view" and "secrets_ok c view s" and "list_all op_ok ops"
    and "secret_run c ops s = (answers, s')"
  shows "spec_run answers (secrets_of c view (sp_table s)) = Some (secrets_of c view (sp_table s')) \<and> secrets_ok c view s' \<and>
    (secret_libs_total c \<and> readable_bundles c view (sp_table s) \<longrightarrow> (\<forall>(op, a) \<in> set answers. \<not> answer_failed a))"
  using assms(2-4)
proof (induction ops arbitrary: s answers)
  case (Cons fop ops)
  obtain fresh op where fop: "fop = (fresh, op)" by fastforce
  obtain a s1 where a: "secret_op_step c fresh op s = (a, s1)" by fastforce
  obtain as where as: "secret_run c ops s1 = (as, s')" "answers = (op, a) # as"
    using Cons.prems(3) fop a by (auto simp: Let_def split: prod.splits)
  have ok: "op_ok (fresh, op)" "list_all op_ok ops" using Cons.prems(2) fop by simp_all
  have step: "secrets_ok c view s1 \<and> spec_answer op a (secrets_of c view (sp_table s)) = Some (secrets_of c view (sp_table s1))"
    by (rule op_step_refines [OF assms(1) Cons.prems(1) ok(1) a])
  have "secret_libs_total c \<and> readable_bundles c view (sp_table s) \<longrightarrow> \<not> answer_failed a \<and> readable_bundles c view (sp_table s1)"
    using op_step_total [OF assms(1) _ _ Cons.prems(1) ok(1) a] by blast
  with Cons.IH [OF _ ok(2) as(1)] step as(2) show ?case by auto
qed simp

section \<open>Concurrent writers\<close>

text \<open>
  Two writers of different secrets of an application whose key is cached, so that their reads change nothing: when both check the version before
  either saves, both succeed and the second save discards the first, though the check is there to prevent it.
\<close>

theorem concurrent_sets_lose_update:
  assumes con: "secret_contracts c view" and ok: "secrets_ok c view s"
    and fresh: "fresh_ok f1" "fresh_ok f2" "is_utf8 v2" and "key1 \<noteq> key2"
    and p1: "prepare_set c f1 app key1 v1 s = (Inr (b1, n1), s)"
    and p2: "prepare_set c f2 app key2 v2 s = (Inr (b2, n2), s)"
    and db: "load_bundle c (app_id_as_str app) (sp_table s) = Inr found"
    and save1: "save_bundle c b1 (sp_table s) = Inr t1" and save2: "save_bundle c b2 t1 = Inr t2"
  shows "check_version c (app_id_as_str app) n1 (sp_table s) = Inr () \<and>
    check_version c (app_id_as_str app) n2 (sp_table s) = Inr () \<and>
    secrets_of c view t2 = (secrets_of c view (sp_table s))((app_id_as_str app, key2) \<mapsto> v2)"
proof -
  let ?app = "app_id_as_str app"
  obtain b x1 where b: "bundle_of c view (sp_table s) ?app = Some b" and n1: "n1 = asb_version b"
    and b1: "b1 = b\<lparr> asb_secrets := hm_insert key1 x1 (asb_secrets b), asb_version := asb_version b + 1, asb_updated_at := fv_now f1 \<rparr>"
    using prepared_set(3) [OF con ok fresh(1) p1] by blast
  obtain b' dek2 x2 where b': "bundle_of c view (sp_table s) ?app = Some b'" "unlock_dek c ?app b' = Inr dek2"
    "decrypt (sc_aead c) dek2 x2 = Inr v2" and n2: "n2 = asb_version b'"
    and b2: "b2 = b'\<lparr> asb_secrets := hm_insert key2 x2 (asb_secrets b'), asb_version := asb_version b' + 1, asb_updated_at := fv_now f2 \<rparr>"
    using prepared_set(3) [OF con ok fresh(2) p2] by blast
  have same: "b' = b" using b b' by simp
  have "found = Some b" using load_bundle_stored [OF con db] b by simp
  with db have checks: "check_version c ?app n1 (sp_table s) = Inr ()" "check_version c ?app n2 (sp_table s) = Inr ()"
    using n1 n2 same by (simp_all add: check_version_def)
  have "asb_app_id b = ?app" using ok b by (auto simp: secrets_ok_def bundle_ok_def)
  then have st: "bundle_of c view t2 = (bundle_of c view (sp_table s))(?app \<mapsto> b2)"
    using save_bundle_stored [OF con save1] save_bundle_stored [OF con save2] b1 b2 same by simp
  have "secrets_in c ?app b2 k = (if k = key2 then Some v2 else secrets_of c view (sp_table s) (?app, k))" for k
    using secrets_of_bundle [OF b, of k] b' b2 same by (auto simp: secrets_in_def unlock_dek_def hm.get_insert)
  from secrets_of_update [OF st this] checks show ?thesis by simp
qed

section \<open>Witnesses\<close>

definition w_aead :: aead where
  "w_aead = \<lparr> ae_encrypt = (\<lambda>k n p. Inr p), ae_decrypt = (\<lambda>k n x. Inr x) \<rparr>"

definition w_kex :: kex where
  "w_kex = \<lparr> kx_public = (\<lambda>a. take 32 (a @ replicate 32 (CHR ''.''))),
     kx_shared = (\<lambda>a b. []) \<rparr>"

lemma w_aead_contract: "aead_contract w_aead"
  by (simp add: aead_contract_def w_aead_def)

theorem peer_reads_ciphertext_witness:
  "kp_decrypt w_kex w_aead (from_secret_bytes w_kex ''k'')
     (kx_public w_kex ''e'' @ ''nonce1234567'' @ ''hello'') = Inr ''hello''"
proof (rule peer_reads_ciphertext [of w_kex w_aead "''nonce1234567''" "''e''"])
  show "encrypt_for_peer w_kex w_aead ''e'' ''nonce1234567'' (kp_public (from_secret_bytes w_kex ''k'')) ''hello'' =
      Inr (kx_public w_kex ''e'' @ ''nonce1234567'' @ ''hello'')"
    by (simp add: encrypt_for_peer_def from_secret_bytes_def w_kex_def w_aead_def)
qed (simp_all add: kex_contract_def w_kex_def w_aead_contract min_def)

definition w_fresh :: fresh_values where
  "w_fresh = \<lparr> fv_dek = replicate 32 (CHR ''d''), fv_dek_nonce = ''nonce1234567'', fv_nonce = ''nonce7654321'', fv_now = 9 \<rparr>"

definition w_first :: app_secret_bundle where
  "w_first = \<lparr> asb_app_id = ''shop:v1'', asb_encrypted_dek = ''nonce1234567'' @ replicate 32 (CHR ''d''), asb_secrets = [],
     asb_version = 1, asb_updated_at = 9 \<rparr>"

definition w_second :: app_secret_bundle where
  "w_second = w_first\<lparr> asb_secrets := [(''token'', ''nonce7654321abc'')], asb_version := 2 \<rparr>"

text \<open>A codec for bundles: texts and numbers follow their length in unary.\<close>

definition enc_num :: "nat \<Rightarrow> string" where
  "enc_num n = replicate n (CHR ''1'') @ ''0''"

definition dec_num :: "string \<Rightarrow> nat \<times> string" where
  "dec_num x = (length (takeWhile (\<lambda>c. c = CHR ''1'') x), tl (dropWhile (\<lambda>c. c = CHR ''1'') x))"

definition enc_text :: "string \<Rightarrow> string" where
  "enc_text s = enc_num (length s) @ s"

definition dec_text :: "string \<Rightarrow> string \<times> string" where
  "dec_text x = (case dec_num x of (n, r) \<Rightarrow> (take n r, drop n r))"

fun enc_entries :: "(string, string) hmap \<Rightarrow> string" where
  "enc_entries [] = []"
| "enc_entries ((k, v) # m) = enc_text k @ enc_text v @ enc_entries m"

fun dec_entries :: "nat \<Rightarrow> string \<Rightarrow> (string, string) hmap" where
  "dec_entries 0 x = []"
| "dec_entries (Suc n) x = (case dec_text x of (k, r) \<Rightarrow> (case dec_text r of (v, r) \<Rightarrow> (k, v) # dec_entries n r))"

definition bundle_codec :: "app_secret_bundle serde" where
  "bundle_codec = \<lparr>
     sd_to_string = (\<lambda>b. Inr (enc_text (asb_app_id b) @ enc_text (asb_encrypted_dek b) @ enc_num (unat (asb_version b)) @
       enc_num (unat (asb_updated_at b)) @ enc_num (length (asb_secrets b)) @ enc_entries (asb_secrets b))),
     sd_from_str = (\<lambda>x. case dec_text x of (app, x) \<Rightarrow> case dec_text x of (dek, x) \<Rightarrow> case dec_num x of (version, x) \<Rightarrow>
       case dec_num x of (updated, x) \<Rightarrow> case dec_num x of (n, x) \<Rightarrow>
       Inr \<lparr> asb_app_id = app, asb_encrypted_dek = dek, asb_secrets = dec_entries n x, asb_version = of_nat version,
             asb_updated_at = of_nat updated \<rparr>) \<rparr>"

lemma dec_num_enc [simp]: "dec_num (enc_num n @ x) = (n, x)"
  by (simp add: dec_num_def enc_num_def takeWhile_append dropWhile_append)

lemma dec_text_enc [simp]: "dec_text (enc_text s @ x) = (s, x)"
  by (simp add: dec_text_def enc_text_def)

lemma dec_entries_enc [simp]: "dec_entries (length m) (enc_entries m) = m"
  by (induction m rule: enc_entries.induct) simp_all

lemma bundle_codec_contract: "serde_contract bundle_codec"
  by (simp add: serde_contract_def bundle_codec_def)

definition w_secrets :: "(string, string) hmap secret_context" where
  "w_secrets = \<lparr> sc_db = mem_redb, sc_cbor = bundle_codec, sc_aead = w_aead, sc_kek = ''kek'' \<rparr>"

text \<open>The stored form of the two bundles.\<close>

definition w_bytes :: "app_secret_bundle \<Rightarrow> string" where
  "w_bytes b = (case sd_to_string bundle_codec b of Inr x \<Rightarrow> x)"

definition w_ops :: "(fresh_values \<times> secret_op) list" where
  "w_ops = [(w_fresh, SecretSet (AppId ''shop:v1'') ''token'' ''abc''), (w_fresh, ProviderRestart),
     (w_fresh, SecretGet (AppId ''shop:v1'') ''token'')]"

lemma w_secret_contracts: "secret_contracts w_secrets hm_get"
  by (simp add: secret_contracts_def w_secrets_def mem_redb_contract bundle_codec_contract w_aead_contract)

lemma w_secrets_total: "secret_libs_total w_secrets"
  by (simp add: secret_libs_total_def w_secrets_def mem_redb_total bundle_codec_def w_aead_def)

lemma w_secrets_start: "secrets_ok w_secrets hm_get (local_provider_new [])"
  by (simp add: secrets_ok_def local_provider_new_def stored_value_def hm_get_def)

lemma w_context_parts: "sc_db w_secrets = mem_redb" "sc_aead w_secrets = w_aead" "sc_kek w_secrets = ''kek''"
  by (simp_all add: w_secrets_def)

lemma w_codec:
  "sd_to_string (sc_cbor w_secrets) b = Inr (w_bytes b)" "sd_from_str (sc_cbor w_secrets) (w_bytes b) = Inr b"
  using bundle_codec_contract by (simp_all add: w_secrets_def w_bytes_def bundle_codec_def serde_contract_def)

lemma w_table:
  "load_bundle w_secrets ''shop:v1'' [] = Inr None"
  "load_bundle w_secrets ''shop:v1'' [(''shop:v1'', w_bytes w_first)] = Inr (Some w_first)"
  "load_bundle w_secrets ''shop:v1'' [(''shop:v1'', w_bytes w_second)] = Inr (Some w_second)"
  "save_bundle w_secrets w_first [] = Inr [(''shop:v1'', w_bytes w_first)]"
  "save_bundle w_secrets w_second [(''shop:v1'', w_bytes w_first)] = Inr [(''shop:v1'', w_bytes w_second)]"
proof -
  have "asb_app_id w_first = ''shop:v1''" "asb_app_id w_second = ''shop:v1''"
    by (simp_all add: w_first_def w_second_def)
  then show "load_bundle w_secrets ''shop:v1'' [] = Inr None"
    "load_bundle w_secrets ''shop:v1'' [(''shop:v1'', w_bytes w_first)] = Inr (Some w_first)"
    "load_bundle w_secrets ''shop:v1'' [(''shop:v1'', w_bytes w_second)] = Inr (Some w_second)"
    "save_bundle w_secrets w_first [] = Inr [(''shop:v1'', w_bytes w_first)]"
    "save_bundle w_secrets w_second [(''shop:v1'', w_bytes w_first)] = Inr [(''shop:v1'', w_bytes w_second)]"
    by (simp_all add: load_bundle_def save_bundle_def raw_get_def raw_put_def w_context_parts w_codec mem_redb_def
        hm_get_def hm_insert_def)
qed

definition w_dek :: string where
  "w_dek = replicate 32 (CHR ''d'')"

lemma w_unlock: "unlock_dek w_secrets ''shop:v1'' w_second = Inr w_dek"
  by (simp add: unlock_dek_def w_context_parts decrypt_def w_second_def w_first_def w_aead_def w_dek_def)

lemma w_set:
  "secret_set w_secrets w_fresh (AppId ''shop:v1'') ''token'' ''abc'' (local_provider_new []) =
     (Inr (), \<lparr> sp_table = [(''shop:v1'', w_bytes w_second)], sp_dek_cache = [(''shop:v1'', w_dek)] \<rparr>)"
proof -
  let ?s = "\<lparr> sp_table = [(''shop:v1'', w_bytes w_first)], sp_dek_cache = [(''shop:v1'', w_dek)] \<rparr>"
  have fresh: "fv_dek w_fresh = w_dek" "fv_now w_fresh = 9" by (simp_all add: w_fresh_def w_dek_def)
  have "create_dek w_secrets w_fresh ''shop:v1'' [] = Inr [(''shop:v1'', w_bytes w_first)]"
    using w_table(4) by (simp add: create_dek_def encrypt_def w_context_parts w_fresh_def w_aead_def w_first_def)
  then have dek: "get_or_create_dek w_secrets w_fresh ''shop:v1'' (local_provider_new []) = (Inr w_dek, ?s)"
    by (simp add: get_or_create_dek_def local_provider_new_def hm_get_def w_table fresh cache_dek_def hm_insert_def)
  have upd: "w_first\<lparr> asb_secrets := hm_insert ''token'' ''nonce7654321abc'' (asb_secrets w_first),
      asb_version := asb_version w_first + 1, asb_updated_at := 9 \<rparr> = w_second" "asb_version w_first = 1"
    by (simp_all add: w_first_def w_second_def hm_insert_def)
  have "prepare_set w_secrets w_fresh (AppId ''shop:v1'') ''token'' ''abc'' (local_provider_new []) = (Inr (w_second, 1), ?s)"
    using upd(1) by (simp add: prepare_set_def dek encrypt_def w_context_parts w_aead_def w_table upd(2) fresh)
      (simp add: w_fresh_def)
  then show ?thesis
    by (simp add: secret_set_def save_bundle_with_version_def check_version_def w_table upd(2))
qed

lemma w_secret_get:
  "secret_get w_secrets w_fresh (AppId ''shop:v1'') ''token'' (local_provider_new [(''shop:v1'', w_bytes w_second)]) =
     (Inr ''abc'', \<lparr> sp_table = [(''shop:v1'', w_bytes w_second)], sp_dek_cache = [(''shop:v1'', w_dek)] \<rparr>)"
proof -
  have "get_or_create_dek w_secrets w_fresh ''shop:v1'' (local_provider_new [(''shop:v1'', w_bytes w_second)]) =
      (Inr w_dek, \<lparr> sp_table = [(''shop:v1'', w_bytes w_second)], sp_dek_cache = [(''shop:v1'', w_dek)] \<rparr>)"
    by (simp add: get_or_create_dek_def local_provider_new_def hm_get_def w_table w_unlock cache_dek_def hm_insert_def)
  moreover have "hm_get (asb_secrets w_second) ''token'' = Some ''nonce7654321abc''"
    by (simp add: w_second_def hm_get_def)
  ultimately show ?thesis
    by (simp add: secret_get_def w_table decrypt_def w_context_parts w_aead_def is_utf8_def)
qed

theorem secret_provider_refines_map_witness:
  "secret_run w_secrets w_ops (local_provider_new []) =
     ([(SecretSet (AppId ''shop:v1'') ''token'' ''abc'', DoneAnswer (Inr ())), (ProviderRestart, DoneAnswer (Inr ())),
       (SecretGet (AppId ''shop:v1'') ''token'', ValueAnswer (Inr ''abc''))],
      \<lparr> sp_table = [(''shop:v1'', w_bytes w_second)], sp_dek_cache = [(''shop:v1'', w_dek)] \<rparr>) \<and>
   secrets_of w_secrets hm_get [(''shop:v1'', w_bytes w_second)] = [(''shop:v1'', ''token'') \<mapsto> ''abc''] \<and>
   secret_libs_total w_secrets \<and> \<not> answer_failed (DoneAnswer (Inr ()))"
proof -
  let ?answers = "[(SecretSet (AppId ''shop:v1'') ''token'' ''abc'', DoneAnswer (Inr ())), (ProviderRestart, DoneAnswer (Inr ())),
       (SecretGet (AppId ''shop:v1'') ''token'', ValueAnswer (Inr ''abc''))]"
  have run: "secret_run w_secrets w_ops (local_provider_new []) =
     (?answers, \<lparr> sp_table = [(''shop:v1'', w_bytes w_second)], sp_dek_cache = [(''shop:v1'', w_dek)] \<rparr>)"
    by (simp add: w_ops_def w_set w_secret_get)
  have "list_all op_ok w_ops"
    by (simp add: w_ops_def fresh_ok_def w_fresh_def is_utf8_def)
  note refined = secret_provider_refines_map [OF w_secret_contracts w_secrets_start this run]
  have "secrets_of w_secrets hm_get (sp_table (local_provider_new [])) = Map.empty"
    by (simp add: secrets_of_def local_provider_new_def stored_value_def hm_get_def fun_eq_iff)
  moreover have "readable_bundles w_secrets hm_get (sp_table (local_provider_new []))"
    by (simp add: readable_bundles_def local_provider_new_def hm_get_def)
  ultimately show ?thesis using refined run w_secrets_total by simp
qed

end
