(* ===== verification/Instance_Spawn.thy ===== *)
theory Instance_Spawn
  imports Storage_Gc Upstream Namespace_Map Namespace_Registry Cluster_State
begin

text \<open>
  Starting instances (\<open>crates/supervisor/src\<close>: \<open>port_alloc.rs\<close>, \<open>instance.rs\<close>, \<open>pool.rs\<close>, \<open>network_interceptor.rs\<close>,
  \<open>spawn_runtime.rs\<close>, \<open>lib.rs\<close>): the ports of a node, admission by resource limits, the environment and the socket check of an
  instance, its launch and its registration in the pools and registries. What the operating system, the
  WebAssembly engine and the clock answer are arguments of the steps; log output and metrics are left out.

  A spawn has two halves, since other operations run while the new instance is awaited: \<open>spawn_begin\<close> up
  to the wait and \<open>spawn_finish\<close> after it.
\<close>

section \<open>Ports\<close>

text \<open>The free ports in ascending order (\<open>BTreeSet\<close>).\<close>

definition port_allocator_new :: "u16 \<Rightarrow> u16 \<Rightarrow> u16 list" where
  "port_allocator_new start stop = map of_nat [unat start..<Suc (unat stop)]"

definition allocate :: "u16 list \<Rightarrow> (string, u16 \<times> u16 list) result" where
  "allocate free = (case free of [] \<Rightarrow> Err ''port pool exhausted'' | port # rest \<Rightarrow> Ok (port, rest))"

definition release :: "u16 \<Rightarrow> u16 list \<Rightarrow> u16 list" where
  "release port free = insort_insert port free"

section \<open>Instances and pools\<close>

datatype instance_state =
    Starting
  | Ready socket_addr
  | Busy
  | Draining socket_addr
  | Stopping socket_addr
  | ExitTimedOut socket_addr
  | Stopped

record billing_info =
  bi_tenant_id :: string
  bi_fuel_quota :: u64
  bi_ram_bytes :: u64

text \<open>Of the policy counters the supervisor itself changes the active outbound connections only.\<close>

record managed_instance =
  mi_id :: string
  mi_app_id :: app_id
  mi_addr :: socket_addr
  mi_state :: instance_state
  mi_spawned_at :: instant
  mi_last_request_at :: instant
  mi_request_count :: u64
  mi_task :: bool
  mi_shutdown_tx :: bool
  mi_billing_info :: billing_info
  mi_tid :: "u32 option"
  mi_outbound_active :: "u32 option"

datatype execution_model = WasiCli | WasiHttpIncomingHandler

record prepared_module =
  pm_artifact :: string
  pm_execution_model :: execution_model

record instance_pool =
  pl_config :: app_config
  pl_prepared :: prepared_module
  pl_instances :: "managed_instance list"

definition is_ready :: "managed_instance \<Rightarrow> bool" where
  "is_ready i = (case mi_state i of Ready _ \<Rightarrow> True | _ \<Rightarrow> False)"

definition active_count :: "instance_pool \<Rightarrow> nat" where
  "active_count p = length (filter is_ready (pl_instances p))"

definition ready_addrs :: "instance_pool \<Rightarrow> socket_addr list" where
  "ready_addrs p = List.map_filter (\<lambda>i. case mi_state i of Ready addr \<Rightarrow> Some addr | _ \<Rightarrow> None) (pl_instances p)"

definition idle_instance_ids :: "instant \<Rightarrow> u64 \<Rightarrow> instance_pool \<Rightarrow> string list" where
  "idle_instance_ids now idle_secs p =
     map mi_id (filter (\<lambda>i. is_ready i \<and> unat idle_secs < as_secs (duration_since now (mi_last_request_at i))) (pl_instances p))"

section \<open>The supervisor\<close>

text \<open>\<open>NotReady\<close> is the run-time error that an instance did not become ready in time, with its address.\<close>

datatype supervisor_error =
    Runtime string
  | SupAppNotFound string
  | SupStorage storage_error
  | NotReady socket_addr
  | SpawnPanic

datatype instance_event =
    InstanceReady app_id socket_addr string
  | InstanceDead app_id socket_addr string

record billing_input =
  bin_tenant_id :: string
  bin_app_id :: string
  bin_instance_id :: string
  bin_node_id :: string
  bin_fuel_consumed :: u64
  bin_fuel_quota :: u64
  bin_ram_bytes :: u64
  bin_wall_clock_ms :: u64
  bin_status_code :: u16
  bin_is_trap :: bool

record 't supervisor =
  sv_store :: "'t app_store"
  sv_gateway_configs :: 't
  sv_ports :: "u16 list"
  sv_upstream :: upstream_registry
  sv_services :: namespace_registry
  sv_pools :: "(string, instance_pool) hmap"
  sv_namespace_map :: "namespace_map option"
  sv_events :: "instance_event list"
  sv_billing :: "billing_input list"

record 't supervisor_context =
  sx_db :: "'t redb"
  sx_config_json :: "app_config serde"
  sx_gateway_json :: "gateway_route_config serde"
  sx_bind_ip :: ip_addr
  sx_node_id :: string
  sx_internal_gateway_port :: u16
  sx_node_memory_budget_bytes :: u64
  sx_env_resolver :: "app_config \<Rightarrow> u16 \<Rightarrow> (string \<times> string) list"
  sx_prepare :: "string \<Rightarrow> app_config \<Rightarrow> (string, prepared_module) result"
  sx_billing_accepts :: "billing_input list \<Rightarrow> bool"

definition supervisor_new :: "'t app_store \<Rightarrow> 't \<Rightarrow> u16 \<Rightarrow> u16 \<Rightarrow> namespace_map option \<Rightarrow> 't supervisor" where
  "supervisor_new store gateway start stop ns_map = \<lparr> sv_store = store, sv_gateway_configs = gateway,
     sv_ports = port_allocator_new start stop, sv_upstream = upstream_registry_new, sv_services = namespace_registry_default,
     sv_pools = [], sv_namespace_map = ns_map, sv_events = [], sv_billing = [] \<rparr>"

definition release_port :: "u16 \<Rightarrow> 't supervisor \<Rightarrow> 't supervisor" where
  "release_port port s = s\<lparr>sv_ports := release port (sv_ports s)\<rparr>"

definition send_event :: "instance_event \<Rightarrow> 't supervisor \<Rightarrow> 't supervisor" where
  "send_event e s = s\<lparr>sv_events := sv_events s @ [e]\<rparr>"

definition send_billing_record :: "'t supervisor_context \<Rightarrow> billing_input \<Rightarrow> 't supervisor \<Rightarrow> 't supervisor" where
  "send_billing_record c b s = (if sx_billing_accepts c (sv_billing s) then s\<lparr>sv_billing := sv_billing s @ [b]\<rparr> else s)"

definition list_instances :: "app_id \<Rightarrow> 't supervisor \<Rightarrow> string list" where
  "list_instances app s =
     (case hm_get (sv_pools s) (app_id_as_str app) of None \<Rightarrow> [] | Some p \<Rightarrow> map mi_id (pl_instances p))"

definition node_stats :: "'t supervisor \<Rightarrow> nat \<times> (string \<times> nat) list" where
  "node_stats s =
     (let counts = filter (\<lambda>(_, n). 0 < n) (map (\<lambda>(app, p). (app, active_count p)) (sv_pools s))
      in (sum_list (map snd counts), counts))"

section \<open>Admission\<close>

primrec fuel_units :: "fuel_quota \<Rightarrow> u64" where
  "fuel_units (FuelQuota n) = n"

primrec page_count :: "memory_pages \<Rightarrow> u32" where
  "page_count (MemoryPages n) = n"

definition check_resource_limits :: "u64 \<Rightarrow> app_config \<Rightarrow> (supervisor_error, unit) result" where
  "check_resource_limits budget config =
     (if 10000000000 < fuel_units (ac_fuel_quota config)
      then Err (Runtime ''fuel_quota exceeds maximum allowed (10B units)'')
      else if 8192 < page_count (ac_memory_limit config)
      then Err (Runtime ''memory_limit exceeds maximum allowed (512 MB)'')
      else if 100 < ac_max_instances config
      then Err (Runtime ''max_instances exceeds node limit (100)'')
      else (case checked_mul (memory_pages_to_bytes (ac_memory_limit config)) (ucast (ac_max_instances config)) of
          None \<Rightarrow> Err (Runtime ''declared application memory pool overflows'')
        | Some bytes \<Rightarrow>
            if budget < bytes
            then Err (Runtime (''declared application memory pool ('' @ show_nat (unat bytes) @
                   '' bytes) exceeds node budget ('' @ show_nat (unat budget) @ '' bytes)''))
            else Ok ()))"

text \<open>The configuration and the module of the pool, or those of the store prepared anew.\<close>

definition load_for_spawn ::
  "'t supervisor_context \<Rightarrow> app_id \<Rightarrow> 't supervisor \<Rightarrow> (supervisor_error, app_config \<times> prepared_module) result" where
  "load_for_spawn c app s =
     (case hm_get (sv_pools s) (app_id_as_str app) of
        Some p \<Rightarrow> Ok (pl_config p, pl_prepared p)
      | None \<Rightarrow>
          try_then (err_as SupStorage (load_app_config (sx_db c) (sx_config_json c) app (sv_store s))) (\<lambda>found.
          case found of
            None \<Rightarrow> Err (SupAppNotFound (app_id_as_str app))
          | Some config \<Rightarrow>
              try_then (err_as SupStorage (load_artifact (sx_db c) app (sv_store s))) (\<lambda>artifact.
              case artifact of
                None \<Rightarrow> Err (SupAppNotFound (''no artifact for '' @ app_id_as_str app))
              | Some bytes \<Rightarrow>
                  try_then (err_as Runtime (sx_prepare c bytes config)) (\<lambda>prepared. Ok (config, prepared)))))"

text \<open>The conjunction stops at the first failing test.\<close>

definition dependency_available ::
  "'t supervisor_context \<Rightarrow> 't app_store \<Rightarrow> app_id \<Rightarrow> (supervisor_error, bool) result" where
  "dependency_available c st dep =
     try_then (err_as SupStorage (is_undeployed (sx_db c) (app_id_as_str dep) st)) (\<lambda>gone.
     if gone then Ok False
     else try_then (err_as SupStorage (load_app_config (sx_db c) (sx_config_json c) dep st)) (\<lambda>config.
     if config = None then Ok False
     else try_then (err_as SupStorage (load_artifact (sx_db c) dep st)) (\<lambda>artifact. Ok (artifact \<noteq> None))))"

fun check_dependencies ::
  "'t supervisor_context \<Rightarrow> app_id \<Rightarrow> 't app_store \<Rightarrow> app_id list \<Rightarrow> (supervisor_error, unit) result" where
  "check_dependencies c app st [] = Ok ()"
| "check_dependencies c app st (dep # deps) =
     try_then (dependency_available c st dep) (\<lambda>available.
     if available then check_dependencies c app st deps
     else Err (SupAppNotFound (''required node-local dependency '' @ app_id_as_str dep @ '' for '' @ app_id_as_str app @
            '' is unavailable'')))"

text \<open>\<open>None\<close> is the panic of \<open>AppId::new_namespaced\<close>.\<close>

definition qualified_app_id :: "app_config \<Rightarrow> app_id \<Rightarrow> app_id option" where
  "qualified_app_id config app =
     (let version = (case str_split (CHR '':'') (app_id_bare_name app) of _ # v # _ \<Rightarrow> v | _ \<Rightarrow> ''v1'')
      in app_id_new_namespaced (ac_namespace config) (app_id_bare_app_name app) version)"

section \<open>The environment of an instance\<close>

text \<open>Names of applications are ASCII.\<close>

definition to_ascii_uppercase :: "string \<Rightarrow> string" where
  "to_ascii_uppercase s = map (\<lambda>c. let n = (of_char c :: nat) in
     if 97 \<le> n \<and> n \<le> 122 then char_of (n - 32) else c) s"

definition service_key :: "string \<Rightarrow> string" where
  "service_key name =
     map (\<lambda>c. if c = CHR ''-'' then CHR ''_'' else c) (to_ascii_uppercase name) @ ''_SERVICE_URL''"

definition has_endpoint_rules :: "'t supervisor_context \<Rightarrow> string \<Rightarrow> string \<Rightarrow> 't \<Rightarrow> bool option" where
  "has_endpoint_rules c ns name t =
     (let ok = (\<lambda>r. case r of Inl _ \<Rightarrow> None | Inr x \<Rightarrow> x) in
      map_option (\<lambda>qualified.
        let config = (case ok (load_gateway_config (sx_db c) (sx_gateway_json c) (name @ '':v1'') t) of
               Some g \<Rightarrow> Some g
             | None \<Rightarrow> ok (load_gateway_config (sx_db c) (sx_gateway_json c) (app_id_as_str qualified) t))
        in unwrap_or (map_option (\<lambda>g. grc_endpoints g \<noteq> []) config) False)
      (app_id_new_namespaced ns name ''v1''))"

definition service_url :: "'t supervisor_context \<Rightarrow> string \<Rightarrow> string \<Rightarrow> socket_addr \<Rightarrow> bool \<Rightarrow> string" where
  "service_url c ns name addr rules =
     (if rules then ''http://'' @ name @ ''.'' @ ns @ ''.internal:'' @ show_nat (unat (sx_internal_gateway_port c))
      else ''http://127.0.0.1:'' @ show_nat (unat (sa_port addr)))"

text \<open>One service of the namespace; \<open>None\<close> is a panic.\<close>

definition inject_service ::
  "'t supervisor_context \<Rightarrow> 't \<Rightarrow> string \<Rightarrow> string \<Rightarrow> string \<times> socket_addr list \<Rightarrow> (string \<times> string) list \<Rightarrow>
   (string \<times> string) list option" where
  "inject_service c t ns own service env =
     (case service of (name, addrs) \<Rightarrow>
        if name = own then Some env
        else (case addrs of
            [] \<Rightarrow> Some env
          | addr # _ \<Rightarrow>
              map_option (\<lambda>rules. filter (\<lambda>(k, _). k \<noteq> service_key name) env @ [(service_key name, service_url c ns name addr rules)])
                (has_endpoint_rules c ns name t)))"

fun inject_services ::
  "'t supervisor_context \<Rightarrow> 't \<Rightarrow> string \<Rightarrow> string \<Rightarrow> (string \<times> socket_addr list) list \<Rightarrow> (string \<times> string) list \<Rightarrow>
   (string \<times> string) list option" where
  "inject_services c t ns own [] env = Some env"
| "inject_services c t ns own (service # services) env =
     Option.bind (inject_service c t ns own service env) (inject_services c t ns own services)"

section \<open>The socket check of an instance\<close>

datatype connect_decision = Allow socket_addr | Deny string

text \<open>\<open>check_connect\<close>; the outer option is the panic of the look-up.\<close>

definition check_connect :: "namespace_registry \<Rightarrow> app_id \<Rightarrow> socket_addr \<Rightarrow> connect_decision option" where
  "check_connect registry source dest =
     (if \<not> is_loopback (sa_ip dest) then Some (Allow dest)
      else (case resolve_app_by_port (sa_port dest) registry of
          None \<Rightarrow> None
        | Some None \<Rightarrow> Some (Allow dest)
        | Some (Some target) \<Rightarrow>
            Some (if app_id_namespace target \<noteq> app_id_namespace source
                  then Deny (''cross-namespace connection blocked: '' @ app_id_namespace source @ '' -> '' @ app_id_namespace target)
                  else Allow dest)))"

definition is_instance_bind_allowed :: "socket_addr \<Rightarrow> u16 set \<Rightarrow> ip_addr \<Rightarrow> bool" where
  "is_instance_bind_allowed dest allowed_ports bind_ip = (sa_port dest \<in> allowed_ports \<and> sa_ip dest = bind_ip)"

definition allowed_ports :: "u16 \<Rightarrow> (string \<times> socket_addr list) list \<Rightarrow> u16 \<Rightarrow> u16 set" where
  "allowed_ports gateway_port services host_port =
     insert host_port (insert gateway_port (sa_port ` set (concat (map snd services))))"

text \<open>The closure an instance is started with; the registry is read at the time of the call.\<close>

definition socket_addr_check ::
  "u16 set \<Rightarrow> u16 \<Rightarrow> ip_addr \<Rightarrow> app_id \<Rightarrow> namespace_registry \<Rightarrow> socket_addr \<Rightarrow> socket_addr_use \<Rightarrow> bool option" where
  "socket_addr_check ports gateway_port bind_ip source registry dest use_type =
     (if use_type = TcpConnect \<or> use_type = UdpSend then
        (if \<not> is_loopback (sa_ip dest) then Some True
         else if sa_port dest \<notin> ports then Some False
         else if sa_port dest = gateway_port then Some True
         else map_option (\<lambda>d. case d of Allow _ \<Rightarrow> True | Deny _ \<Rightarrow> False) (check_connect registry source dest))
      else if use_type = TcpBind \<or> use_type = TcpListen \<or> use_type = UdpBind
        then Some (is_instance_bind_allowed dest ports bind_ip)
      else Some True)"

section \<open>Launch\<close>

text \<open>
  What the environment answers: whether the thread or the server was created, the thread identifier it reported,
  the result of the start (\<open>None\<close> if the channel closed), and the answers of the kernel to the registration.
\<close>

record launch_answers =
  la_created :: "(string, unit) result"
  la_tid :: "u32 option"
  la_started :: "(string, unit) result option"
  la_counters :: bool
  la_ns_accepts :: "nat \<Rightarrow> bool"
  la_ns_now :: u64

definition register_thread :: "launch_answers \<Rightarrow> app_id \<Rightarrow> u32 \<Rightarrow> 't supervisor \<Rightarrow> 't supervisor" where
  "register_thread la qualified tid s =
     s\<lparr>sv_namespace_map := map_option (\<lambda>m. snd (register_tid (la_ns_accepts la) (la_ns_now la) tid
        (tid_identity_new (app_id_namespace qualified) (app_id_as_str qualified)) m)) (sv_namespace_map s)\<rparr>"

definition launch ::
  "launch_answers \<Rightarrow> execution_model \<Rightarrow> app_id \<Rightarrow> u16 \<Rightarrow> 't supervisor \<Rightarrow>
   (supervisor_error, u32 option) result \<times> 't supervisor" where
  "launch la model qualified port s =
     (case model of
        WasiCli \<Rightarrow>
          (case la_created la of
             Inl e \<Rightarrow> (Err (Runtime (''Failed to create dedicated wasi:cli thread: '' @ e)), release_port port s)
           | Inr _ \<Rightarrow>
               (case la_tid la of
                  None \<Rightarrow> (Err (Runtime ''Dedicated wasi:cli thread did not report its TID''), s)
                | Some tid \<Rightarrow>
                    let s = register_thread la qualified tid s in
                    (case la_started la of
                       Some (Inr _) \<Rightarrow> (Ok (Some tid), s)
                     | Some (Inl e) \<Rightarrow> (Err (Runtime (''Failed to spawn instance: '' @ e)), release_port port s)
                     | None \<Rightarrow> (Err (Runtime ''Spawn result channel closed unexpectedly''), release_port port s))))
      | WasiHttpIncomingHandler \<Rightarrow>
          (case la_created la of
             Inl e \<Rightarrow> (Err (Runtime e), release_port port s)
           | Inr _ \<Rightarrow>
               (Ok (la_tid la), case la_tid la of None \<Rightarrow> s | Some tid \<Rightarrow> register_thread la qualified tid s)))"

record pending_spawn =
  ps_app_id :: app_id
  ps_qualified :: app_id
  ps_addr :: socket_addr
  ps_config :: app_config
  ps_prepared :: prepared_module
  ps_env :: "(string \<times> string) list"
  ps_ports :: "u16 set"
  ps_tid :: "u32 option"
  ps_id :: string
  ps_counters :: bool

text \<open>The tests before a port is taken, and the port with the ports that stay free.\<close>

definition admit ::
  "'t supervisor_context \<Rightarrow> app_id \<Rightarrow> 't supervisor \<Rightarrow>
   (supervisor_error, app_config \<times> prepared_module \<times> app_id \<times> u16 \<times> u16 list) result" where
  "admit c app s =
     try_then (err_as SupStorage (is_undeployed (sx_db c) (app_id_as_str app) (sv_store s))) (\<lambda>gone.
     if gone then Err (SupAppNotFound (app_id_as_str app @ '' is undeployed''))
     else try_then (load_for_spawn c app s) (\<lambda>(config, prepared).
       try_then (check_resource_limits (sx_node_memory_budget_bytes c) config) (\<lambda>_.
       try_then (check_dependencies c app (sv_store s) (ac_local_dependencies config)) (\<lambda>_.
       case qualified_app_id config app of
         None \<Rightarrow> Err SpawnPanic
       | Some q \<Rightarrow> try_then (err_as Runtime (allocate (sv_ports s))) (\<lambda>(port, rest). Ok (config, prepared, q, port, rest))))))"

text \<open>The environment and the launch on the port.\<close>

definition start_on_port ::
  "'t supervisor_context \<Rightarrow> launch_answers \<Rightarrow> string \<Rightarrow> app_id \<Rightarrow> app_config \<Rightarrow> prepared_module \<Rightarrow> app_id \<Rightarrow> u16 \<Rightarrow>
   't supervisor \<Rightarrow> (supervisor_error, pending_spawn) result \<times> 't supervisor" where
  "start_on_port c la instance_id app config prepared q port s =
     (let services = get_namespace_services (app_id_namespace q) (sv_services s) in
      case inject_services c (sv_gateway_configs s) (app_id_namespace q) (app_id_bare_app_name app) services
             (sx_env_resolver c config port) of
        None \<Rightarrow> (Err SpawnPanic, s)
      | Some env \<Rightarrow>
          store_then (launch la (pm_execution_model prepared) q port) (\<lambda>tid s.
            (Ok \<lparr> ps_app_id = app, ps_qualified = q, ps_addr = \<lparr> sa_ip = sx_bind_ip c, sa_port = port \<rparr>, ps_config = config,
                  ps_prepared = prepared, ps_env = env,
                  ps_ports = allowed_ports (sx_internal_gateway_port c) services port, ps_tid = tid, ps_id = instance_id,
                  ps_counters = la_counters la \<rparr>, s)) s)"

definition spawn_begin ::
  "'t supervisor_context \<Rightarrow> launch_answers \<Rightarrow> string \<Rightarrow> app_id \<Rightarrow> 't supervisor \<Rightarrow>
   (supervisor_error, pending_spawn) result \<times> 't supervisor" where
  "spawn_begin c la instance_id app s =
     (case admit c app s of
        Inl e \<Rightarrow> (Err e, s)
      | Inr (config, prepared, q, port, rest) \<Rightarrow>
          start_on_port c la instance_id app config prepared q port (s\<lparr>sv_ports := rest\<rparr>))"

text \<open>
  \<open>wait_for_ready\<close>: each poll reads the clock and, before the deadline, tries to connect. The list holds
  the answers in turn; \<open>None\<close> is a wait that goes on.
\<close>

fun wait_for_ready :: "instant \<Rightarrow> (instant \<times> bool) list \<Rightarrow> bool option" where
  "wait_for_ready deadline [] = None"
| "wait_for_ready deadline ((now, up) # polls) =
     (if deadline < now then Some False else if up then Some True else wait_for_ready deadline polls)"

text \<open>The two readings of the clock, one after the other, are one argument.\<close>

definition new_instance :: "instant \<Rightarrow> pending_spawn \<Rightarrow> managed_instance" where
  "new_instance now p =
     \<lparr> mi_id = ps_id p, mi_app_id = ps_app_id p, mi_addr = ps_addr p, mi_state = Ready (ps_addr p), mi_spawned_at = now,
       mi_last_request_at = now, mi_request_count = 0, mi_task = True, mi_shutdown_tx = True,
       mi_billing_info = \<lparr> bi_tenant_id = (case ac_tenant_id (ps_config p) of
             Some t \<Rightarrow> t
           | None \<Rightarrow> hd (str_split (CHR '':'') (app_id_as_str (ps_app_id p)))),
         bi_fuel_quota = fuel_units (ac_fuel_quota (ps_config p)),
         bi_ram_bytes = memory_pages_to_bytes (ac_memory_limit (ps_config p)) \<rparr>,
       mi_tid = ps_tid p, mi_outbound_active = (if ps_counters p then Some 0 else None) \<rparr>"

definition push_instance :: "pending_spawn \<Rightarrow> managed_instance \<Rightarrow> (string, instance_pool) hmap \<Rightarrow> (string, instance_pool) hmap" where
  "push_instance p i pools =
     (let pool = hm_or_insert pools (app_id_as_str (ps_app_id p))
            \<lparr> pl_config = ps_config p, pl_prepared = ps_prepared p, pl_instances = [] \<rparr>
      in hm_insert (app_id_as_str (ps_app_id p)) (pool\<lparr>pl_instances := pl_instances pool @ [i]\<rparr>) pools)"

definition spawn_finish ::
  "'t supervisor_context \<Rightarrow> bool \<Rightarrow> instant \<Rightarrow> pending_spawn \<Rightarrow> 't supervisor \<Rightarrow>
   (supervisor_error, socket_addr) result \<times> 't supervisor" where
  "spawn_finish c ready now p s =
     (if \<not> ready then (Err (NotReady (ps_addr p)), release_port (sa_port (ps_addr p)) s)
      else let h2c = (pm_execution_model (ps_prepared p) = WasiHttpIncomingHandler);
               s = s\<lparr>sv_upstream := upstream_add (ps_app_id p) \<lparr> ue_addr = ps_addr p, ue_h2c = h2c \<rparr> (sv_upstream s)\<rparr>;
               s = s\<lparr>sv_services := bind_source_port (sa_port (ps_addr p)) (ps_qualified p)
                       (register_endpoint (ps_qualified p) \<lparr> re_addr = ps_addr p, re_h2c = h2c \<rparr> (sv_services s))\<rparr>;
               s = s\<lparr>sv_pools := push_instance p (new_instance now p) (sv_pools s)\<rparr>
           in (Ok (ps_addr p), send_event (InstanceReady (ps_app_id p) (ps_addr p) (sx_node_id c)) s))"

record spawn_answers =
  sa_launch :: launch_answers
  sa_instance_id :: string
  sa_ready :: bool
  sa_now :: instant

definition spawn ::
  "'t supervisor_context \<Rightarrow> spawn_answers \<Rightarrow> app_id \<Rightarrow> 't supervisor \<Rightarrow>
   (supervisor_error, socket_addr) result \<times> 't supervisor" where
  "spawn c w app =
     store_then (spawn_begin c (sa_launch w) (sa_instance_id w) app) (spawn_finish c (sa_ready w) (sa_now w))"

definition ensure_instance ::
  "'t supervisor_context \<Rightarrow> spawn_answers \<Rightarrow> app_id \<Rightarrow> 't supervisor \<Rightarrow>
   (supervisor_error, socket_addr) result \<times> 't supervisor" where
  "ensure_instance c w app s =
     (case Option.bind (hm_get (sv_pools s) (app_id_as_str app)) (\<lambda>p. case ready_addrs p of [] \<Rightarrow> None | a # _ \<Rightarrow> Some a) of
        Some addr \<Rightarrow> (Ok addr, s)
      | None \<Rightarrow> spawn c w app s)"

definition maybe_scale_up ::
  "'t supervisor_context \<Rightarrow> spawn_answers \<Rightarrow> app_id \<Rightarrow> 't supervisor \<Rightarrow>
   (supervisor_error, unit) result \<times> 't supervisor" where
  "maybe_scale_up c w app s =
     (case hm_get (sv_pools s) (app_id_as_str app) of
        None \<Rightarrow> (Ok (), s)
      | Some p \<Rightarrow>
          if active_count p < unat (ac_max_instances (pl_config p))
          then store_then (spawn c w app) (\<lambda>_ s. (Ok (), s)) s
          else (Ok (), s))"

text \<open>Restart: the pools of the deployed applications, without instances; the first error ends it.\<close>

definition get_prepared :: "'t supervisor_context \<Rightarrow> app_id \<Rightarrow> 't app_store \<Rightarrow> (supervisor_error, prepared_module) result" where
  "get_prepared c app st =
     try_then (err_as SupStorage (load_app_config (sx_db c) (sx_config_json c) app st)) (\<lambda>found.
     case found of None \<Rightarrow> Err (SupAppNotFound (app_id_as_str app)) | Some config \<Rightarrow>
     try_then (err_as SupStorage (load_artifact (sx_db c) app st)) (\<lambda>artifact.
     case artifact of
       None \<Rightarrow> Err (SupAppNotFound (''no artifact: '' @ app_id_as_str app))
     | Some bytes \<Rightarrow> err_as Runtime (sx_prepare c bytes config)))"

definition restored_pool ::
  "'t supervisor_context \<Rightarrow> app_id \<Rightarrow> 't app_store \<Rightarrow> (supervisor_error, instance_pool option) result" where
  "restored_pool c app st =
     try_then (err_as SupStorage (load_app_config (sx_db c) (sx_config_json c) app st)) (\<lambda>found.
     case found of None \<Rightarrow> Err (SupAppNotFound (app_id_as_str app)) | Some config \<Rightarrow>
     try_then (check_resource_limits (sx_node_memory_budget_bytes c) config) (\<lambda>_.
     try_then (err_as SupStorage (artifact_exists (sx_db c) app st)) (\<lambda>there.
     if \<not> there then Ok None
     else try_then (get_prepared c app st) (\<lambda>prepared.
       Ok (Some \<lparr> pl_config = config, pl_prepared = prepared, pl_instances = [] \<rparr>)))))"

definition restore_app ::
  "'t supervisor_context \<Rightarrow> app_id \<Rightarrow> 't supervisor \<Rightarrow> (supervisor_error, unit) result \<times> 't supervisor" where
  "restore_app c app s =
     (case restored_pool c app (sv_store s) of
        Inl e \<Rightarrow> (Err e, s)
      | Inr None \<Rightarrow> (Ok (), s)
      | Inr (Some pool) \<Rightarrow> (Ok (), s\<lparr>sv_pools := hm_insert (app_id_as_str app) pool (sv_pools s)\<rparr>))"

definition restore_from_storage ::
  "'t supervisor_context \<Rightarrow> 't supervisor \<Rightarrow> (supervisor_error, unit) result \<times> 't supervisor" where
  "restore_from_storage c s =
     (case list_deployed_apps (sx_db c) (sv_store s) of
        Inl e \<Rightarrow> (Err (SupStorage e), s)
      | Inr apps \<Rightarrow> for_each (restore_app c) apps s)"

end
