(* ===== verification/Instance_Lifecycle.thy ===== *)
theory Instance_Lifecycle
  imports Instance_Spawn "HOL-Library.Multiset"
begin

text \<open>
  The life of instances (\<open>crates/supervisor/src\<close>: \<open>shutdown_runtime.rs\<close>, \<open>command_runtime.rs\<close>, \<open>health_runtime.rs\<close>,
  \<open>scaling.rs\<close>): fencing, shutdown and the release of resources, the commands of the monitor, the
  health tick and admission by fuel. How instances exit, whether they answer and the clock are arguments.

  The second half describes interleaved operation as steps, and what each part of an operation does to ports and routes.
\<close>

section \<open>Shutdown\<close>

record execution_stats =
  es_fuel_consumed :: u64
  es_ram_bytes :: u64
  es_trap :: "string option"

datatype shutdown_outcome =
    Exited execution_stats
  | TaskPanicked string
  | TimedOut

text \<open>What the environment answers to a shutdown: how an instance exits, whether its task has finished, and the time.\<close>

record exit_answers =
  ea_outcome :: "string \<Rightarrow> shutdown_outcome"
  ea_finished :: "string \<Rightarrow> bool"
  ea_now :: instant

definition take_instance_for_shutdown ::
  "app_id \<Rightarrow> string \<Rightarrow> 't supervisor \<Rightarrow> (supervisor_error, managed_instance) result \<times> 't supervisor" where
  "take_instance_for_shutdown app iid s =
     (case hm_get (sv_pools s) (app_id_as_str app) of
        None \<Rightarrow> (Err (SupAppNotFound (app_id_as_str app)), s)
      | Some pool \<Rightarrow>
          (case List.extract (\<lambda>i. mi_id i = iid) (pl_instances pool) of
             None \<Rightarrow> (Err (Runtime (''instance '' @ iid @ '' not found'')), s)
           | Some (before, inst, after) \<Rightarrow>
               (Ok inst, s\<lparr>sv_pools := hm_insert (app_id_as_str app) (pool\<lparr>pl_instances := before @ after\<rparr>) (sv_pools s),
                  sv_upstream := upstream_remove app (mi_addr inst) (sv_upstream s),
                  sv_services := deregister app (mi_addr inst) (sv_services s)\<rparr>)))"

definition reinsert_fenced_instance ::
  "app_id \<Rightarrow> managed_instance \<Rightarrow> 't supervisor \<Rightarrow> (supervisor_error, unit) result \<times> 't supervisor" where
  "reinsert_fenced_instance app inst s =
     (case hm_get (sv_pools s) (app_id_as_str app) of
        None \<Rightarrow> (Err (SupAppNotFound (app_id_as_str app)), s)
      | Some pool \<Rightarrow>
          (Ok (), s\<lparr>sv_pools := hm_insert (app_id_as_str app)
             (pool\<lparr>pl_instances := pl_instances pool @ [inst]\<rparr>) (sv_pools s)\<rparr>))"

definition as_millis :: "nat \<Rightarrow> nat" where
  "as_millis d = d div 1000000"

lemma as_millis_code [code]: "as_millis d = nat (int d div 1000000)"
  by (simp add: as_millis_def nat_div_distrib)

definition billing_of_exit ::
  "'t supervisor_context \<Rightarrow> instant \<Rightarrow> app_id \<Rightarrow> string \<Rightarrow> managed_instance \<Rightarrow> execution_stats option \<Rightarrow> billing_input" where
  "billing_of_exit c now app iid inst stats =
     (let (fuel, ram, is_trap) = (case stats of
            Some st \<Rightarrow> (es_fuel_consumed st, es_ram_bytes st, es_trap st \<noteq> None)
          | None \<Rightarrow> (bi_fuel_quota (mi_billing_info inst), bi_ram_bytes (mi_billing_info inst), True))
      in \<lparr> bin_tenant_id = bi_tenant_id (mi_billing_info inst), bin_app_id = app_id_as_str app, bin_instance_id = iid,
           bin_node_id = sx_node_id c, bin_fuel_consumed = fuel, bin_fuel_quota = bi_fuel_quota (mi_billing_info inst),
           bin_ram_bytes = ram, bin_wall_clock_ms = of_nat (as_millis (duration_since now (mi_spawned_at inst))),
           bin_status_code = (if is_trap then 500 else 200), bin_is_trap = is_trap \<rparr>)"

definition finalize_instance_exit ::
  "'t supervisor_context \<Rightarrow> instant \<Rightarrow> app_id \<Rightarrow> string \<Rightarrow> managed_instance \<Rightarrow> execution_stats option \<Rightarrow>
   't supervisor \<Rightarrow> 't supervisor" where
  "finalize_instance_exit c now app iid inst stats s =
     (let port = sa_port (mi_addr inst);
          s = send_billing_record c (billing_of_exit c now app iid inst stats) s;
          s = s\<lparr>sv_services := release_source_port port (deregister app (mi_addr inst) (sv_services s))\<rparr>;
          s = release_port port s;
          s = (case mi_tid inst of
                 None \<Rightarrow> s
               | Some tid \<Rightarrow> s\<lparr>sv_namespace_map := map_option (deregister_tid now tid) (sv_namespace_map s)\<rparr>)
      in send_event (InstanceDead app (mi_addr inst) (sx_node_id c)) s)"

definition handle_shutdown_outcome ::
  "'t supervisor_context \<Rightarrow> instant \<Rightarrow> app_id \<Rightarrow> string \<Rightarrow> managed_instance \<Rightarrow> shutdown_outcome \<Rightarrow>
   't supervisor \<Rightarrow> (supervisor_error, unit) result \<times> 't supervisor" where
  "handle_shutdown_outcome c now app iid inst outcome s =
     (case outcome of
        Exited stats \<Rightarrow> (Ok (), finalize_instance_exit c now app iid inst (Some stats) s)
      | TaskPanicked e \<Rightarrow> (Ok (), finalize_instance_exit c now app iid inst None s)
      | TimedOut \<Rightarrow>
          store_then (reinsert_fenced_instance app (inst\<lparr>mi_state := ExitTimedOut (mi_addr inst)\<rparr>)) (\<lambda>_ s.
            (Err (Runtime (''instance '' @ iid @ '' shutdown timed out; instance remains fenced until exit is confirmed'')), s)) s)"

definition begin_shutdown :: "managed_instance \<Rightarrow> managed_instance" where
  "begin_shutdown inst = inst\<lparr>mi_shutdown_tx := False\<rparr>"

definition await_exit :: "(string \<Rightarrow> shutdown_outcome) \<Rightarrow> managed_instance \<Rightarrow> shutdown_outcome \<times> managed_instance" where
  "await_exit outcome inst =
     (if \<not> mi_task inst then (TimedOut, inst)
      else (case outcome (mi_id inst) of
          TimedOut \<Rightarrow> (TimedOut, inst)
        | out \<Rightarrow> (out, inst\<lparr>mi_task := False\<rparr>)))"

definition finish_shutdown ::
  "'t supervisor_context \<Rightarrow> exit_answers \<Rightarrow> app_id \<Rightarrow> string \<Rightarrow> managed_instance \<Rightarrow>
   't supervisor \<Rightarrow> (supervisor_error, unit) result \<times> 't supervisor" where
  "finish_shutdown c w app iid inst =
     (case await_exit (ea_outcome w) inst of (out, inst) \<Rightarrow> handle_shutdown_outcome c (ea_now w) app iid inst out)"

definition kill_instance_gracefully ::
  "'t supervisor_context \<Rightarrow> exit_answers \<Rightarrow> app_id \<Rightarrow> string \<Rightarrow> 't supervisor \<Rightarrow> (supervisor_error, unit) result \<times> 't supervisor" where
  "kill_instance_gracefully c w app iid =
     store_then (take_instance_for_shutdown app iid) (\<lambda>inst.
       finish_shutdown c w app iid (begin_shutdown (inst\<lparr>mi_state := Stopping (mi_addr inst)\<rparr>)))"

text \<open>
  The variants with other drain and grace periods and the internal one differ in their waits and log
  output only.
\<close>

definition kill_instance ::
  "'t supervisor_context \<Rightarrow> exit_answers \<Rightarrow> app_id \<Rightarrow> string \<Rightarrow> 't supervisor \<Rightarrow> (supervisor_error, unit) result \<times> 't supervisor" where
  "kill_instance c w app iid = kill_instance_gracefully c w app iid"

definition kill_instance_internal ::
  "'t supervisor_context \<Rightarrow> exit_answers \<Rightarrow> app_id \<Rightarrow> string \<Rightarrow> 't supervisor \<Rightarrow> 't supervisor" where
  "kill_instance_internal c w app iid s =
     (case take_instance_for_shutdown app iid s of
        (Inl _, s) \<Rightarrow> s
      | (Inr inst, s) \<Rightarrow> snd (finish_shutdown c w app iid (begin_shutdown (inst\<lparr>mi_state := Stopping (mi_addr inst)\<rparr>)) s))"

definition is_fenced :: "managed_instance \<Rightarrow> bool" where
  "is_fenced i = (case mi_state i of Draining _ \<Rightarrow> True | Stopping _ \<Rightarrow> True | ExitTimedOut _ \<Rightarrow> True | _ \<Rightarrow> False)"

definition reap_one :: "'t supervisor_context \<Rightarrow> exit_answers \<Rightarrow> app_id \<times> string \<Rightarrow> 't supervisor \<Rightarrow> 't supervisor" where
  "reap_one c w candidate s =
     (case candidate of (app, iid) \<Rightarrow>
        (case take_instance_for_shutdown app iid s of
           (Inl _, s) \<Rightarrow> s
         | (Inr inst, s) \<Rightarrow> snd (finish_shutdown c w app iid inst s)))"

definition reap_finished_shutdowns :: "'t supervisor_context \<Rightarrow> exit_answers \<Rightarrow> 't supervisor \<Rightarrow> 't supervisor" where
  "reap_finished_shutdowns c w s =
     fold (reap_one c w)
       (concat (map (\<lambda>(app, pool). map (\<lambda>i. (AppId app, mi_id i))
          (filter (\<lambda>i. is_fenced i \<and> mi_task i \<and> ea_finished w (mi_id i)) (pl_instances pool))) (sv_pools s))) s"

definition remove_ready_upstreams :: "app_id \<Rightarrow> 't supervisor \<Rightarrow> 't supervisor" where
  "remove_ready_upstreams app s =
     (case hm_get (sv_pools s) (app_id_as_str app) of
        None \<Rightarrow> s
      | Some pool \<Rightarrow> s\<lparr>sv_upstream := fold (upstream_remove app) (ready_addrs pool) (sv_upstream s)\<rparr>)"

definition drain_app :: "app_id \<Rightarrow> 't supervisor \<Rightarrow> 't supervisor" where
  "drain_app app s = remove_ready_upstreams app s"

definition kill_each :: "'t supervisor_context \<Rightarrow> exit_answers \<Rightarrow> app_id \<Rightarrow> string list \<Rightarrow> 't supervisor \<Rightarrow> 't supervisor" where
  "kill_each c w app ids s = fold (\<lambda>iid s. snd (kill_instance c w app iid s)) ids s"

definition kill_all_instances :: "'t supervisor_context \<Rightarrow> exit_answers \<Rightarrow> app_id \<Rightarrow> 't supervisor \<Rightarrow> 't supervisor" where
  "kill_all_instances c w app s = kill_each c w app (list_instances app s) s"

definition forget_app :: "app_id \<Rightarrow> 't supervisor \<Rightarrow> (supervisor_error, unit) result \<times> 't supervisor" where
  "forget_app app s =
     (case hm_get (sv_pools s) (app_id_as_str app) of
        Some pool \<Rightarrow>
          if active_count pool \<noteq> 0
          then (Err (Runtime (''cannot forget app '' @ app_id_as_str app @ '' while instances are active'')), s)
          else (Ok (), s\<lparr>sv_pools := hm_remove (app_id_as_str app) (sv_pools s)\<rparr>)
      | None \<Rightarrow> (Ok (), s\<lparr>sv_pools := hm_remove (app_id_as_str app) (sv_pools s)\<rparr>))"

definition handle_trap :: "'t supervisor_context \<Rightarrow> exit_answers \<Rightarrow> app_id \<Rightarrow> string \<Rightarrow> 't supervisor \<Rightarrow> 't supervisor" where
  "handle_trap c w app iid s = snd (kill_instance c w app iid s)"

section \<open>Commands\<close>

datatype supervisor_command =
    KillLargestInstance
  | PruneIdleInstances u64
  | RemoveAppFromUpstream app_id
  | KillInstance app_id string
  | KillInstanceByTid u32
  | TcpConnectionClosed u32 u16 u16

text \<open>The first instance with the thread, in the order of the pools.\<close>

definition instance_by_tid :: "u32 \<Rightarrow> 't supervisor \<Rightarrow> (string \<times> managed_instance) option" where
  "instance_by_tid tid s =
     find (\<lambda>(_, i). mi_tid i = Some tid) (concat (map (\<lambda>(app, pool). map (Pair app) (pl_instances pool)) (sv_pools s)))"

text \<open>
  The first pool whose instance with the thread has counters and does not close a connection of its own
  listening port; the counter of that instance goes down.
\<close>

definition outbound_target :: "u32 \<Rightarrow> u16 \<Rightarrow> instance_pool \<Rightarrow> bool" where
  "outbound_target tid src_port pool =
     (case find (\<lambda>i. mi_tid i = Some tid) (pl_instances pool) of
        None \<Rightarrow> False
      | Some i \<Rightarrow> src_port \<noteq> sa_port (mi_addr i) \<and> mi_outbound_active i \<noteq> None)"

fun release_first :: "u32 \<Rightarrow> managed_instance list \<Rightarrow> managed_instance list" where
  "release_first tid [] = []"
| "release_first tid (i # is) =
     (if mi_tid i = Some tid
      then i\<lparr>mi_outbound_active := map_option (\<lambda>n. saturating_sub n 1) (mi_outbound_active i)\<rparr> # is
      else i # release_first tid is)"

definition release_outbound_connection :: "u32 \<Rightarrow> u16 \<Rightarrow> 't supervisor \<Rightarrow> 't supervisor" where
  "release_outbound_connection tid src_port s =
     (case find (\<lambda>(_, pool). outbound_target tid src_port pool) (sv_pools s) of
        None \<Rightarrow> s
      | Some (app, pool) \<Rightarrow>
          s\<lparr>sv_pools := hm_insert app (pool\<lparr>pl_instances := release_first tid (pl_instances pool)\<rparr>) (sv_pools s)\<rparr>)"

definition kill_instance_by_tid :: "'t supervisor_context \<Rightarrow> exit_answers \<Rightarrow> u32 \<Rightarrow> 't supervisor \<Rightarrow> 't supervisor" where
  "kill_instance_by_tid c w tid s =
     (case instance_by_tid tid s of None \<Rightarrow> s | Some (app, inst) \<Rightarrow> snd (kill_instance c w (AppId app) (mi_id inst) s))"

definition larger :: "(string \<times> managed_instance) option \<Rightarrow> string \<times> managed_instance \<Rightarrow> (string \<times> managed_instance) option" where
  "larger best x =
     (case best of
        None \<Rightarrow> Some x
      | Some b \<Rightarrow> if bi_ram_bytes (mi_billing_info (snd b)) < bi_ram_bytes (mi_billing_info (snd x)) then Some x else Some b)"

definition largest_instance :: "'t supervisor \<Rightarrow> (string \<times> managed_instance) option" where
  "largest_instance s =
     foldl larger None (filter (\<lambda>(_, i). is_ready i)
       (concat (map (\<lambda>(app, pool). map (Pair app) (pl_instances pool)) (sv_pools s))))"

definition kill_largest_instance :: "'t supervisor_context \<Rightarrow> exit_answers \<Rightarrow> 't supervisor \<Rightarrow> 't supervisor" where
  "kill_largest_instance c w s =
     (case largest_instance s of None \<Rightarrow> s | Some (app, inst) \<Rightarrow> snd (kill_instance c w (AppId app) (mi_id inst) s))"

definition prune_app :: "'t supervisor_context \<Rightarrow> exit_answers \<Rightarrow> u64 \<Rightarrow> string \<Rightarrow> 't supervisor \<Rightarrow> 't supervisor" where
  "prune_app c w idle_secs app s =
     (case hm_get (sv_pools s) app of
        None \<Rightarrow> s
      | Some pool \<Rightarrow> kill_each c w (AppId app) (idle_instance_ids (ea_now w) idle_secs pool) s)"

definition prune_idle_instances :: "'t supervisor_context \<Rightarrow> exit_answers \<Rightarrow> u64 \<Rightarrow> 't supervisor \<Rightarrow> 't supervisor" where
  "prune_idle_instances c w idle_secs s = fold (prune_app c w idle_secs) (map fst (sv_pools s)) s"

definition shutdown_all :: "'t supervisor_context \<Rightarrow> exit_answers \<Rightarrow> 't supervisor \<Rightarrow> 't supervisor" where
  "shutdown_all c w s =
     fold (\<lambda>app s. let s = drain_app (AppId app) s in kill_each c w (AppId app) (list_instances (AppId app) s) s)
       (map fst (sv_pools s)) s"

fun handle_command :: "'t supervisor_context \<Rightarrow> exit_answers \<Rightarrow> supervisor_command \<Rightarrow> 't supervisor \<Rightarrow> 't supervisor" where
  "handle_command c w KillLargestInstance s = kill_largest_instance c w s"
| "handle_command c w (PruneIdleInstances secs) s = prune_idle_instances c w secs s"
| "handle_command c w (RemoveAppFromUpstream app) s = remove_ready_upstreams app s"
| "handle_command c w (KillInstance app iid) s = snd (kill_instance c w app iid s)"
| "handle_command c w (KillInstanceByTid tid) s = kill_instance_by_tid c w tid s"
| "handle_command c w (TcpConnectionClosed tid src dst) s = release_outbound_connection tid src s"

section \<open>The health tick\<close>

text \<open>
  The instances that did not answer are killed before the idle ones of the same application; both lists
  are drawn up before. \<open>alive\<close> is the answer to a connection, \<open>tid_alive\<close> that of the kernel about a thread.
\<close>

definition dead_instances :: "(socket_addr \<Rightarrow> bool) \<Rightarrow> instance_pool \<Rightarrow> string list" where
  "dead_instances alive pool =
     map mi_id (filter (\<lambda>i. case mi_state i of Ready addr \<Rightarrow> \<not> alive addr | _ \<Rightarrow> False) (pl_instances pool))"

definition health_tick ::
  "'t supervisor_context \<Rightarrow> exit_answers \<Rightarrow> (socket_addr \<Rightarrow> bool) \<Rightarrow> (u32 \<Rightarrow> bool) \<Rightarrow> 't supervisor \<Rightarrow> 't supervisor" where
  "health_tick c w alive tid_alive s =
     (let s = s\<lparr>sv_namespace_map := map_option (\<lambda>m. snd (cleanup_stale_tids tid_alive (ea_now w) m)) (sv_namespace_map s)\<rparr>;
          victims = map (\<lambda>(app, pool). (AppId app, dead_instances alive pool @
              idle_instance_ids (ea_now w) (ac_idle_timeout_secs (pl_config pool)) pool)) (sv_pools s);
          s = fold (\<lambda>(app, ids) s. fold (kill_instance_internal c w app) ids s) victims s
      in reap_finished_shutdowns c w s)"

section \<open>Admission by fuel\<close>

text \<open>The samples of the last second; the sum and the comparison are 64-bit and wrap.\<close>

record fuel_admission =
  fa_node_budget :: u64
  fa_window :: "(u64 \<times> u64) list"

definition fuel_admission_new :: "u64 \<Rightarrow> fuel_admission" where
  "fuel_admission_new budget = \<lparr> fa_node_budget = budget, fa_window = [] \<rparr>"

definition can_run :: "u64 \<Rightarrow> u64 \<Rightarrow> fuel_admission \<Rightarrow> bool \<times> fuel_admission" where
  "can_run now fuel_limit f =
     (let window = filter (\<lambda>(ts, _). saturating_sub now ts < 1) (fa_window f)
      in (sum_list (map snd window) + fuel_limit \<le> fa_node_budget f, f\<lparr>fa_window := window\<rparr>))"

definition record_execution :: "u64 \<Rightarrow> u64 \<Rightarrow> fuel_admission \<Rightarrow> fuel_admission" where
  "record_execution now fuel f = f\<lparr>fa_window := fa_window f @ [(now, fuel)]\<rparr>"

section \<open>Admission by concurrency\<close>

text \<open>
  The free slots per application. With none free a further instance is started, which brings new slots, and the
  caller waits for one; the answer says whether one is free at once.
\<close>

definition acquire ::
  "'t supervisor_context \<Rightarrow> spawn_answers \<Rightarrow> nat \<Rightarrow> app_id \<Rightarrow> (string, nat) hmap \<times> 't supervisor \<Rightarrow>
   bool \<times> (string, nat) hmap \<times> 't supervisor" where
  "acquire c w max_per_instance app st =
     (case st of (slots, s) \<Rightarrow>
        let k = app_id_as_str app; free = hm_or_insert slots k max_per_instance in
        if 0 < free then (True, hm_insert k (free - 1) slots, s)
        else (case spawn c w app s of
            (Inr _, s) \<Rightarrow>
              if 0 < max_per_instance then (True, hm_insert k (max_per_instance - 1) slots, s)
              else (False, hm_insert k 0 slots, s)
          | (Inl _, s) \<Rightarrow> (False, hm_insert k 0 slots, s)))"

text \<open>Where no sum exceeds 64 bits, an execution is admitted exactly if it fits the budget of the second.\<close>

lemma sum_list_no_wrap:
  "sum_list (map unat ws) < 2 ^ 64 \<Longrightarrow> unat (sum_list ws) = sum_list (map unat ws)" for ws :: "u64 list"
proof (induction ws)
  case (Cons w ws)
  then have "unat (sum_list ws) = sum_list (map unat ws)" by simp
  with Cons.prems show ?case by (simp add: unat_word_ariths)
qed simp

theorem fuel_admission_exact:
  assumes "sum_list (map (unat \<circ> snd) (filter (\<lambda>(ts, _). saturating_sub now ts < 1) (fa_window f))) + unat fuel_limit < 2 ^ 64"
  shows "fst (can_run now fuel_limit f) \<longleftrightarrow>
    sum_list (map (unat \<circ> snd) (filter (\<lambda>(ts, _). saturating_sub now ts < 1) (fa_window f))) + unat fuel_limit \<le> unat (fa_node_budget f)"
proof -
  let ?w = "map snd (filter (\<lambda>(ts, _). saturating_sub now ts < 1) (fa_window f))"
  have "unat (sum_list ?w) = sum_list (map (unat \<circ> snd) (filter (\<lambda>(ts, _). saturating_sub now ts < 1) (fa_window f)))"
    using sum_list_no_wrap [of ?w] assms by simp
  with assms show ?thesis by (simp add: can_run_def Let_def word_le_nat_alt unat_word_ariths)
qed

text \<open>Otherwise the sum wraps and an execution far over the budget is admitted.\<close>

theorem fuel_admission_wraps:
  "fst (can_run 0 18446744073709551615 (record_execution 0 80 (fuel_admission_new 100)))"
  by code_simp

section \<open>Interleaved operation\<close>

text \<open>
  While an instance is awaited or shut down, other operations run. The state holds the supervisor, the spawns whose
  instance is awaited and the instances taken for shutdown. A step is a part of an operation between two waits:
  its update of the pools together with the updates of the registries that go with it.
\<close>

record 't live =
  lv_sup :: "'t supervisor"
  lv_starting :: "pending_spawn list"
  lv_stopping :: "(app_id \<times> managed_instance) list"

inductive live_step :: "'t supervisor_context \<Rightarrow> 't live \<Rightarrow> 't live \<Rightarrow> bool" for c where
  spawn_begins: "spawn_begin c la iid app (lv_sup v) = (Inr p, s') \<Longrightarrow>
    live_step c v (v\<lparr>lv_sup := s', lv_starting := p # lv_starting v\<rparr>)"
| spawn_fails: "spawn_begin c la iid app (lv_sup v) = (Inl e, s') \<Longrightarrow> live_step c v (v\<lparr>lv_sup := s'\<rparr>)"
| spawn_ends: "p \<in> set (lv_starting v) \<Longrightarrow> spawn_finish c ready now p (lv_sup v) = (r, s') \<Longrightarrow>
    live_step c v (v\<lparr>lv_sup := s', lv_starting := remove1 p (lv_starting v)\<rparr>)"
| shutdown_begins: "take_instance_for_shutdown app iid (lv_sup v) = (Inr inst, s') \<Longrightarrow>
    live_step c v (v\<lparr>lv_sup := s', lv_stopping := (app, inst) # lv_stopping v\<rparr>)"
| shutdown_ends: "(app, inst) \<in> set (lv_stopping v) \<Longrightarrow>
    finish_shutdown c w app iid (inst\<lparr>mi_state := st, mi_shutdown_tx := tx\<rparr>) (lv_sup v) = (r, s') \<Longrightarrow>
    live_step c v (v\<lparr>lv_sup := s', lv_stopping := remove1 (app, inst) (lv_stopping v)\<rparr>)"
| app_forgotten: "forget_app app (lv_sup v) = (r, s') \<Longrightarrow> live_step c v (v\<lparr>lv_sup := s'\<rparr>)"
| app_drained: "live_step c v (v\<lparr>lv_sup := remove_ready_upstreams app (lv_sup v)\<rparr>)"
| connection_closed: "live_step c v (v\<lparr>lv_sup := release_outbound_connection tid src (lv_sup v)\<rparr>)"
| threads_cleaned: "live_step c v (v\<lparr>lv_sup := (lv_sup v)\<lparr>sv_namespace_map := m\<rparr>\<rparr>)"
| store_changed: "live_step c v (v\<lparr>lv_sup := (lv_sup v)\<lparr>sv_store := st, sv_gateway_configs := g\<rparr>\<rparr>)"

inductive_cases live_stepE: "live_step c v v'"

definition idle_node :: "'t supervisor \<Rightarrow> 't live" where
  "idle_node s = \<lparr> lv_sup = s, lv_starting = [], lv_stopping = [] \<rparr>"

section \<open>The ports that are accounted for\<close>

abbreviation instance_port :: "managed_instance \<Rightarrow> u16" where
  "instance_port i \<equiv> sa_port (mi_addr i)"

definition pool_ports :: "instance_pool \<Rightarrow> u16 list" where
  "pool_ports p = map instance_port (pl_instances p)"

definition pooled_ports :: "(string, instance_pool) hmap \<Rightarrow> u16 list" where
  "pooled_ports pools = concat (map (pool_ports \<circ> snd) pools)"

text \<open>The free ports and those of awaited, stopping and tracked instances.\<close>

definition accounted_ports :: "'t live \<Rightarrow> u16 list" where
  "accounted_ports v = sv_ports (lv_sup v) @ map (sa_port \<circ> ps_addr) (lv_starting v) @
     map (instance_port \<circ> snd) (lv_stopping v) @ pooled_ports (sv_pools (lv_sup v))"

lemma hm_remove_absent: "hm_get m k = None \<Longrightarrow> hm_remove k m = m"
  by (simp add: hm_get_def hm_remove_def map_of_eq_None_iff)

lemma hm_wf_Cons: "hm_wf ((k, p) # m) \<longleftrightarrow> hm_get m k = None \<and> hm_wf m"
  by (auto simp: hm_wf_def hm_get_def map_of_eq_None_iff)

lemma pooled_ports_get:
  "hm_wf pools \<Longrightarrow> hm_get pools k = Some p \<Longrightarrow>
   mset (pooled_ports pools) = mset (pool_ports p) + mset (pooled_ports (hm_remove k pools))"
proof (induction pools)
  case (Cons kv pools)
  with hm_remove_absent [of pools k] show ?case
    by (cases kv) (auto simp: pooled_ports_def hm_wf_Cons hm_get_def hm_remove_def split: if_splits)
qed (simp add: hm_get_def)

lemma pooled_ports_insert:
  "hm_wf pools \<Longrightarrow> mset (pooled_ports (hm_insert k p pools)) = mset (pool_ports p) + mset (pooled_ports (hm_remove k pools))"
proof (induction pools)
  case (Cons kv pools)
  with hm_remove_absent [of pools k] show ?case
    by (cases kv) (auto simp: pooled_ports_def hm_wf_Cons hm_get_def hm_remove_def hm_insert_def split: if_splits)
qed (simp add: pooled_ports_def hm_remove_def hm_insert_def)

lemma pooled_ports_update:
  assumes "hm_wf pools"
  shows "mset (pooled_ports (hm_insert k p pools)) + (case hm_get pools k of None \<Rightarrow> {#} | Some p0 \<Rightarrow> mset (pool_ports p0)) =
    mset (pooled_ports pools) + mset (pool_ports p)"
proof (cases "hm_get pools k")
  case None
  then show ?thesis using pooled_ports_insert [OF assms] hm_remove_absent [of pools k] by simp
next
  case (Some p0)
  then show ?thesis using pooled_ports_insert [OF assms] pooled_ports_get [OF assms Some] by simp
qed

lemma pooled_ports_remove: "hm_wf pools \<Longrightarrow> mset (pooled_ports (hm_remove k pools)) \<subseteq># mset (pooled_ports pools)"
  by (cases "hm_get pools k") (simp_all add: pooled_ports_get hm_remove_absent)

lemma mset_release: "mset (release port free) \<subseteq># add_mset port (mset free)"
  by (simp add: release_def insort_insert_key_def)

section \<open>What the parts of an operation do\<close>

lemma launch_frame:
  assumes "launch la model q port s = (r, s')"
  shows "sv_pools s' = sv_pools s \<and> sv_upstream s' = sv_upstream s \<and>
    mset (sv_ports s') \<subseteq># add_mset port (mset (sv_ports s)) \<and> (\<forall>tid. r = Inr tid \<longrightarrow> sv_ports s' = sv_ports s)"
  using assms mset_release [of port "sv_ports s"]
  by (auto simp: launch_def Let_def release_port_def register_thread_def split: execution_model.splits sum.splits option.splits)

lemma start_on_port_frame:
  assumes "start_on_port c la iid app config prepared q port s = (r, s')"
  shows "sv_pools s' = sv_pools s \<and> sv_upstream s' = sv_upstream s \<and>
    mset (sv_ports s') \<subseteq># add_mset port (mset (sv_ports s)) \<and>
    (\<forall>p. r = Inr p \<longrightarrow> sv_ports s' = sv_ports s \<and> ps_addr p = \<lparr> sa_ip = sx_bind_ip c, sa_port = port \<rparr> \<and> ps_app_id p = app)"
proof -
  obtain lr ls where l: "launch la (pm_execution_model prepared) q port s = (lr, ls)" by fastforce
  from launch_frame [OF l] assms l show ?thesis
    by (auto simp: start_on_port_def store_then_def Let_def split: option.splits sum.splits)
qed

lemma admit_port: "admit c app s = Inr (config, prepared, q, port, rest) \<Longrightarrow> sv_ports s = port # rest"
  by (auto simp: admit_def try_then_Ok_iff allocate_def split: if_splits option.splits list.splits)

lemma spawn_begin_frame:
  assumes "spawn_begin c la iid app s = (r, s')"
  shows "sv_pools s' = sv_pools s \<and> sv_upstream s' = sv_upstream s \<and>
    (case r of Inl _ \<Rightarrow> mset (sv_ports s') \<subseteq># mset (sv_ports s)
     | Inr p \<Rightarrow> mset (sv_ports s) = add_mset (sa_port (ps_addr p)) (mset (sv_ports s')) \<and>
         sa_ip (ps_addr p) = sx_bind_ip c \<and> ps_app_id p = app)"
proof (cases "admit c app s")
  case (Inr a)
  obtain config prepared q port rest where a: "a = (config, prepared, q, port, rest)" by (cases a)
  with Inr assms have "start_on_port c la iid app config prepared q port (s\<lparr>sv_ports := rest\<rparr>) = (r, s')"
    by (simp add: spawn_begin_def)
  from start_on_port_frame [OF this] admit_port [OF Inr [unfolded a]] show ?thesis
    by (auto split: sum.splits)
qed (use assms in \<open>auto simp: spawn_begin_def\<close>)

lemma push_instance_get:
  "hm_get (push_instance p i pools) k = (if k = app_id_as_str (ps_app_id p)
     then Some (let pool = hm_or_insert pools k \<lparr> pl_config = ps_config p, pl_prepared = ps_prepared p, pl_instances = [] \<rparr>
                in pool\<lparr>pl_instances := pl_instances pool @ [i]\<rparr>)
     else hm_get pools k)"
  by (simp add: push_instance_def Let_def)

lemma push_instance_ports:
  assumes "hm_wf pools"
  shows "mset (pooled_ports (push_instance p i pools)) = add_mset (instance_port i) (mset (pooled_ports pools))"
proof (cases "hm_get pools (app_id_as_str (ps_app_id p))")
  case None
  then show ?thesis
    using pooled_ports_update [OF assms, of "app_id_as_str (ps_app_id p)" "\<lparr> pl_config = ps_config p, pl_prepared = ps_prepared p, pl_instances = [i] \<rparr>"]
    by (simp add: push_instance_def hm_or_insert_def pool_ports_def)
next
  case (Some pool)
  then show ?thesis
    using pooled_ports_update [OF assms, of "app_id_as_str (ps_app_id p)" "pool\<lparr>pl_instances := pl_instances pool @ [i]\<rparr>"]
    by (simp add: push_instance_def hm_or_insert_def pool_ports_def)
qed

lemma extract_parts: "List.extract P xs = Some (ys, y, zs) \<Longrightarrow> xs = ys @ y # zs"
  by (drule extract_SomeE) simp

lemma take_frame:
  assumes "take_instance_for_shutdown app iid s = (Inr inst, s')"
  obtains pool before after where "hm_get (sv_pools s) (app_id_as_str app) = Some pool"
    and "pl_instances pool = before @ inst # after"
    and "sv_pools s' = hm_insert (app_id_as_str app) (pool\<lparr>pl_instances := before @ after\<rparr>) (sv_pools s)"
    and "sv_upstream s' = upstream_remove app (mi_addr inst) (sv_upstream s)" and "sv_ports s' = sv_ports s"
proof (cases "hm_get (sv_pools s) (app_id_as_str app)")
  case (Some pool)
  with assms obtain before after where e: "List.extract (\<lambda>i. mi_id i = iid) (pl_instances pool) = Some (before, inst, after)"
    by (auto simp: take_instance_for_shutdown_def split: option.splits)
  with Some assms extract_parts [OF e] show ?thesis by (intro that) (auto simp: take_instance_for_shutdown_def)
qed (use assms in \<open>simp add: take_instance_for_shutdown_def\<close>)

lemma finalize_frame [simp]:
  "sv_pools (finalize_instance_exit c now app iid inst stats s) = sv_pools s"
  "sv_upstream (finalize_instance_exit c now app iid inst stats s) = sv_upstream s"
  "sv_ports (finalize_instance_exit c now app iid inst stats s) = release (instance_port inst) (sv_ports s)"
  by (cases "mi_tid inst"; simp add: finalize_instance_exit_def Let_def send_billing_record_def release_port_def send_event_def)+

text \<open>The end of a shutdown releases the port, keeps the instance in the pool, or finds the pool gone.\<close>

lemma finish_frame:
  assumes "finish_shutdown c w app iid inst s = (r, s')"
  obtains "sv_pools s' = sv_pools s" "sv_upstream s' = sv_upstream s" "sv_ports s' = release (instance_port inst) (sv_ports s)"
  | pool i where "hm_get (sv_pools s) (app_id_as_str app) = Some pool" "mi_addr i = mi_addr inst"
      "sv_pools s' = hm_insert (app_id_as_str app) (pool\<lparr>pl_instances := pl_instances pool @ [i]\<rparr>) (sv_pools s)"
      "sv_upstream s' = sv_upstream s" "sv_ports s' = sv_ports s"
  | "s' = s"
proof -
  obtain out inst' where e: "await_exit (ea_outcome w) inst = (out, inst')" by fastforce
  then have addr: "mi_addr inst' = mi_addr inst"
    by (auto simp: await_exit_def split: if_splits shutdown_outcome.splits)
  from assms e have h: "handle_shutdown_outcome c (ea_now w) app iid inst' out s = (r, s')"
    by (simp add: finish_shutdown_def)
  show ?thesis
  proof (cases out)
    case TimedOut
    show ?thesis
    proof (cases "hm_get (sv_pools s) (app_id_as_str app)")
      case None
      with TimedOut h that(3) show ?thesis by (simp add: handle_shutdown_outcome_def store_then_def reinsert_fenced_instance_def)
    next
      case (Some pool)
      with TimedOut h addr show ?thesis
        by (intro that(2) [of pool "inst'\<lparr>mi_state := ExitTimedOut (mi_addr inst')\<rparr>"])
          (auto simp: handle_shutdown_outcome_def store_then_def reinsert_fenced_instance_def)
    qed
  next
    case (Exited stats)
    with h have "s' = finalize_instance_exit c (ea_now w) app iid inst' (Some stats) s" by (simp add: handle_shutdown_outcome_def)
    with addr that(1) show ?thesis by simp
  next
    case (TaskPanicked e)
    with h have "s' = finalize_instance_exit c (ea_now w) app iid inst' None s" by (simp add: handle_shutdown_outcome_def)
    with addr that(1) show ?thesis by simp
  qed
qed

lemma release_first_fields:
  "map instance_port (release_first tid is) = map instance_port is"
  "map (\<lambda>i. (mi_addr i, mi_state i)) (release_first tid is) = map (\<lambda>i. (mi_addr i, mi_state i)) is"
  by (induction "is") auto

end
