(* ===== verification/Instance_Invariants.thy ===== *)
theory Instance_Invariants
  imports Instance_Lifecycle
begin

text \<open>
  What the supervisor keeps whatever starts, stops and failures are interleaved (\<open>live_step\<close> of \<open>Instance_Lifecycle\<close>): ports are
  never shared, requests are routed to ready instances of their application, connections between instances stay in
  their namespace, and starting and stopping an instance leaves no trace. The composed operations are sequences of
  steps. The end shows defects of the bookkeeping on a concrete node.
\<close>

section \<open>Ports are exclusive\<close>

definition ports_within :: "u16 list \<Rightarrow> 't live \<Rightarrow> bool" where
  "ports_within initial v \<longleftrightarrow> hm_wf (sv_pools (lv_sup v)) \<and> mset (accounted_ports v) \<subseteq># mset initial"

lemma accounted_ports_mset:
  "mset (accounted_ports v) = mset (sv_ports (lv_sup v)) + image_mset (sa_port \<circ> ps_addr) (mset (lv_starting v)) +
     image_mset (instance_port \<circ> snd) (mset (lv_stopping v)) + mset (pooled_ports (sv_pools (lv_sup v)))"
  by (simp add: accounted_ports_def)

lemma remove1_image: "x \<in> set xs \<Longrightarrow> image_mset f (mset xs) = add_mset (f x) (image_mset f (mset (remove1 x xs)))"
  by (simp add: image_mset_Diff)

lemma remove_ready_upstreams_frame [simp]:
  "sv_pools (remove_ready_upstreams app s) = sv_pools s"
  "sv_ports (remove_ready_upstreams app s) = sv_ports s"
  by (simp_all add: remove_ready_upstreams_def split: option.splits)

lemma release_outbound_frame [simp]:
  "sv_ports (release_outbound_connection tid src s) = sv_ports s"
  "sv_upstream (release_outbound_connection tid src s) = sv_upstream s"
  by (simp_all add: release_outbound_connection_def split: option.splits prod.splits)

lemma release_outbound_pools:
  assumes "hm_wf (sv_pools s)"
  obtains "sv_pools (release_outbound_connection tid src s) = sv_pools s"
  | app pool where "hm_get (sv_pools s) app = Some pool"
      "sv_pools (release_outbound_connection tid src s) =
       hm_insert app (pool\<lparr>pl_instances := release_first tid (pl_instances pool)\<rparr>) (sv_pools s)"
proof (cases "find (\<lambda>(_, pool). outbound_target tid src pool) (sv_pools s)")
  case (Some kp)
  obtain k p where kp: "kp = (k, p)" by fastforce
  with Some have "(k, p) \<in> set (sv_pools s)" by (auto simp: find_Some_iff in_set_conv_nth)
  with assms Some kp show ?thesis
    by (intro that(2) [of k p]) (auto simp: hm_get_iff_set release_outbound_connection_def)
qed (use that(1) in \<open>simp add: release_outbound_connection_def\<close>)

lemma spawn_finish_frame:
  assumes "spawn_finish c ready now p s = (r, s')"
  shows "if ready
    then sv_ports s' = sv_ports s \<and> sv_pools s' = push_instance p (new_instance now p) (sv_pools s) \<and>
      sv_upstream s' = upstream_add (ps_app_id p) \<lparr> ue_addr = ps_addr p, ue_h2c = (pm_execution_model (ps_prepared p) = WasiHttpIncomingHandler) \<rparr> (sv_upstream s)
    else sv_ports s' = release (sa_port (ps_addr p)) (sv_ports s) \<and> sv_pools s' = sv_pools s \<and> sv_upstream s' = sv_upstream s"
  using assms by (auto simp: spawn_finish_def Let_def release_port_def send_event_def)

lemma hm_wf_push: "hm_wf pools \<Longrightarrow> hm_wf (push_instance p i pools)"
  by (simp add: push_instance_def Let_def)

lemma spawn_ends_ports:
  assumes "p \<in> set (lv_starting v)" and f: "spawn_finish c ready now p (lv_sup v) = (r, s')" and w: "hm_wf (sv_pools (lv_sup v))"
  shows "mset (accounted_ports (v\<lparr>lv_sup := s', lv_starting := remove1 p (lv_starting v)\<rparr>)) \<subseteq># mset (accounted_ports v)"
proof -
  have i: "instance_port (new_instance now p) = sa_port (ps_addr p)" by (simp add: new_instance_def)
  show ?thesis
    using spawn_finish_frame [OF f] mset_release [of "sa_port (ps_addr p)" "sv_ports (lv_sup v)"] push_instance_ports [OF w, of p "new_instance now p"]
      remove1_image [OF assms(1), of "sa_port \<circ> ps_addr"]
    by (cases ready) (simp_all add: accounted_ports_mset i subset_mset.add_mono del: mset_remove1)
qed

lemma shutdown_begins_ports:
  assumes t: "take_instance_for_shutdown app iid (lv_sup v) = (Inr inst, s')" and w: "hm_wf (sv_pools (lv_sup v))"
  shows "mset (accounted_ports (v\<lparr>lv_sup := s', lv_stopping := (app, inst) # lv_stopping v\<rparr>)) \<subseteq># mset (accounted_ports v)"
  using take_frame [OF t]
proof cases
  case (1 pool before after)
  then show ?thesis
    using pooled_ports_update [OF w, of "app_id_as_str app" "pool\<lparr>pl_instances := before @ after\<rparr>"]
    by (simp add: accounted_ports_mset pool_ports_def)
qed

lemma shutdown_ends_ports:
  assumes m: "(app, inst) \<in> set (lv_stopping v)" and w: "hm_wf (sv_pools (lv_sup v))"
    and f: "finish_shutdown c w' app iid (inst\<lparr>mi_state := st, mi_shutdown_tx := tx\<rparr>) (lv_sup v) = (r, s')"
  shows "mset (accounted_ports (v\<lparr>lv_sup := s', lv_stopping := remove1 (app, inst) (lv_stopping v)\<rparr>)) \<subseteq># mset (accounted_ports v)"
  using f
proof (cases rule: finish_frame)
  case 1
  then show ?thesis
    using mset_release [of "instance_port inst" "sv_ports (lv_sup v)"] remove1_image [OF m, of "instance_port \<circ> snd"]
    by (simp add: accounted_ports_mset del: mset_remove1)
next
  case (2 pool i)
  then show ?thesis
    using pooled_ports_update [OF w, of "app_id_as_str app" "pool\<lparr>pl_instances := pl_instances pool @ [i]\<rparr>"]
      remove1_image [OF m, of "instance_port \<circ> snd"]
    by (simp add: accounted_ports_mset pool_ports_def del: mset_remove1)
next
  case 3
  then show ?thesis using remove1_image [OF m, of "instance_port \<circ> snd"] by (simp add: accounted_ports_mset del: mset_remove1)
qed

lemma forget_app_parts:
  assumes "forget_app app s = (r, s')"
  shows "s' = s \<or> s' = s\<lparr>sv_pools := hm_remove (app_id_as_str app) (sv_pools s)\<rparr>"
proof -
  have "snd (forget_app app s) = s \<or> snd (forget_app app s) = s\<lparr>sv_pools := hm_remove (app_id_as_str app) (sv_pools s)\<rparr>"
    by (cases "hm_get (sv_pools s) (app_id_as_str app)") (simp_all add: forget_app_def)
  with assms show ?thesis by simp
qed

lemma live_step_ports:
  assumes "live_step c v v'" and "hm_wf (sv_pools (lv_sup v))"
  shows "hm_wf (sv_pools (lv_sup v')) \<and> mset (accounted_ports v') \<subseteq># mset (accounted_ports v)"
  using assms
proof (induction rule: live_step.induct)
  case (spawn_begins la iid app v p s')
  from spawn_begin_frame [OF spawn_begins(1)] spawn_begins(2) show ?case by (simp add: accounted_ports_mset)
next
  case (spawn_fails la iid app v e s')
  from spawn_begin_frame [OF spawn_fails(1)] spawn_fails(2) show ?case by (simp add: accounted_ports_mset)
next
  case (spawn_ends p v ready now r s')
  from spawn_ends_ports [OF this] spawn_finish_frame [OF spawn_ends(2)] hm_wf_push [OF spawn_ends(3)] spawn_ends(3)
  show ?case by (auto split: if_splits)
next
  case (shutdown_begins app iid v inst s')
  from shutdown_begins(1) have "hm_wf (sv_pools s')" by (rule take_frame) (simp add: shutdown_begins(2))
  with shutdown_begins_ports [OF shutdown_begins] show ?case by simp
next
  case (shutdown_ends app inst v w iid st tx r s')
  from shutdown_ends(2) have "hm_wf (sv_pools s')" by (rule finish_frame) (simp_all add: shutdown_ends(3))
  with shutdown_ends_ports [OF shutdown_ends(1,3,2)] show ?case by simp
next
  case (app_forgotten app v r s')
  with forget_app_parts [OF app_forgotten(1)] pooled_ports_remove [OF app_forgotten(2)] show ?case
    by (elim disjE) (simp_all add: accounted_ports_mset)
next
  case (connection_closed v tid src)
  from this show ?case
  proof (cases rule: release_outbound_pools [of _ tid src, case_names same changed])
    case (changed app pool)
    with connection_closed pooled_ports_update [OF connection_closed, of app "pool\<lparr>pl_instances := release_first tid (pl_instances pool)\<rparr>"]
    show ?thesis by (simp add: accounted_ports_mset pool_ports_def release_first_fields flip: mset_map)
  qed (simp add: accounted_ports_mset connection_closed)
qed (simp_all add: accounted_ports_mset)

lemma live_steps_ports:
  "(live_step c)\<^sup>*\<^sup>* v v' \<Longrightarrow> hm_wf (sv_pools (lv_sup v)) \<Longrightarrow>
   hm_wf (sv_pools (lv_sup v')) \<and> mset (accounted_ports v') \<subseteq># mset (accounted_ports v)"
  by (induction rule: rtranclp_induct) (auto dest: live_step_ports intro: subset_mset.trans)

lemma distinct_within:
  assumes "mset xs \<subseteq># mset ys" and "distinct ys"
  shows "distinct xs \<and> set xs \<subseteq> set ys"
proof -
  have "count (mset ys) a \<le> 1" for a using assms(2) by (simp add: distinct_count_atmost_1)
  with mset_subset_eq_count [OF assms(1)] have "count (mset xs) a \<le> 1" for a by (meson le_trans)
  moreover have "0 < count (mset xs) a" if "a \<in> set xs" for a using that by simp
  ultimately have "distinct xs"
    by (auto simp: distinct_count_atmost_1 le_Suc_eq count_eq_zero_iff)
  with set_mset_mono [OF assms(1)] show ?thesis by simp
qed

lemma port_allocator_new_range:
  "distinct (port_allocator_new start stop) \<and> set (port_allocator_new start stop) = {start..stop}"
proof
  have bound: "unat stop < 65536" using unsigned_less [of stop, where 'a = nat] by simp
  have "inj_on (of_nat :: nat \<Rightarrow> u16) {unat start..<Suc (unat stop)}"
    by (rule inj_onI) (use bound in \<open>auto dest!: arg_cong [of _ _ unat] simp: unat_of_nat\<close>)
  then show "distinct (port_allocator_new start stop)" by (simp add: port_allocator_new_def distinct_map del: upt_Suc)
  have "p \<in> of_nat ` {unat start..<Suc (unat stop)}" if "start \<le> p" "p \<le> stop" for p :: u16
    using that by (intro image_eqI [of _ _ "unat p"]) (auto simp: word_le_nat_alt)
  moreover have "start \<le> of_nat n \<and> of_nat n \<le> stop" if "unat start \<le> n" "n < Suc (unat stop)" for n
    using that bound by (simp add: word_le_nat_alt unat_of_nat)
  ultimately show "set (port_allocator_new start stop) = {start..stop}" by (auto simp: port_allocator_new_def simp del: upt_Suc)
qed

section \<open>Requests are routed to ready instances\<close>

text \<open>Every endpoint of the proxy's registry is a tracked instance of the application that is ready at that address.\<close>

definition routes_ready :: "'t supervisor \<Rightarrow> bool" where
  "routes_ready s \<longleftrightarrow> (\<forall>app. \<forall>e \<in> set (endpoints (sv_upstream s) app). \<exists>pool. hm_get (sv_pools s) (app_id_as_str app) = Some pool \<and>
     (ue_addr e, Ready (ue_addr e)) \<in> (\<lambda>i. (mi_addr i, mi_state i)) ` set (pl_instances pool))"

lemma routes_readyD:
  "routes_ready s \<Longrightarrow> e \<in> set (endpoints (sv_upstream s) app) \<Longrightarrow>
   \<exists>pool. hm_get (sv_pools s) (app_id_as_str app) = Some pool \<and>
     (ue_addr e, Ready (ue_addr e)) \<in> (\<lambda>i. (mi_addr i, mi_state i)) ` set (pl_instances pool)"
  by (auto simp: routes_ready_def)

lemma routes_ready_cong:
  "sv_upstream s' = sv_upstream s \<Longrightarrow> sv_pools s' = sv_pools s \<Longrightarrow> routes_ready s' = routes_ready s"
  by (simp only: routes_ready_def)

lemma routes_ready_grow:
  assumes "routes_ready s" and "sv_upstream s' = sv_upstream s" and "hm_get (sv_pools s) k = Some pool"
    and "sv_pools s' = hm_insert k pool' (sv_pools s)"
    and "(\<lambda>i. (mi_addr i, mi_state i)) ` set (pl_instances pool) \<subseteq> (\<lambda>i. (mi_addr i, mi_state i)) ` set (pl_instances pool')"
  shows "routes_ready s'"
  unfolding routes_ready_def
proof (intro allI ballI)
  fix app e
  assume "e \<in> set (endpoints (sv_upstream s') app)"
  with routes_readyD [OF assms(1)] assms(2) obtain q where "hm_get (sv_pools s) (app_id_as_str app) = Some q"
    "(ue_addr e, Ready (ue_addr e)) \<in> (\<lambda>i. (mi_addr i, mi_state i)) ` set (pl_instances q)" by fastforce
  with assms(3-5) show "\<exists>pool. hm_get (sv_pools s') (app_id_as_str app) = Some pool \<and>
     (ue_addr e, Ready (ue_addr e)) \<in> (\<lambda>i. (mi_addr i, mi_state i)) ` set (pl_instances pool)"
    by (cases "app_id_as_str app = k") auto
qed

lemma app_id_as_str_inj: "app_id_as_str a = app_id_as_str b \<longleftrightarrow> a = b"
  by (cases a; cases b) simp

lemma endpoints_remove_all:
  "set (endpoints (fold (upstream_remove app) addrs r) app') \<subseteq> set (endpoints r app')"
proof (induction addrs arbitrary: r)
  case (Cons a addrs)
  have "set (endpoints (upstream_remove app a r) app') \<subseteq> set (endpoints r app')"
    by (auto simp: endpoints_remove app_id_as_str_inj split: if_splits)
  with Cons [of "upstream_remove app a r"] show ?case by simp
qed simp

lemma spawn_ends_routes:
  assumes "routes_ready s" and f: "spawn_finish c ready now p s = (r, s')"
  shows "routes_ready s'"
proof (cases ready)
  case True
  let ?k = "app_id_as_str (ps_app_id p)"
  have grown: "hm_get (sv_pools s') k = (if k = ?k
     then Some (let pool = hm_or_insert (sv_pools s) k \<lparr> pl_config = ps_config p, pl_prepared = ps_prepared p, pl_instances = [] \<rparr>
                in pool\<lparr>pl_instances := pl_instances pool @ [new_instance now p]\<rparr>)
     else hm_get (sv_pools s) k)" for k
    using spawn_finish_frame [OF f] True by (simp add: push_instance_get)
  show ?thesis
    unfolding routes_ready_def
  proof (intro allI ballI)
    fix app e
    assume e: "e \<in> set (endpoints (sv_upstream s') app)"
    show "\<exists>pool. hm_get (sv_pools s') (app_id_as_str app) = Some pool \<and>
     (ue_addr e, Ready (ue_addr e)) \<in> (\<lambda>i. (mi_addr i, mi_state i)) ` set (pl_instances pool)"
    proof (cases "e \<in> set (endpoints (sv_upstream s) app)")
      case True
      from routes_readyD [OF assms(1) this] show ?thesis by (auto simp: grown hm_or_insert_def Let_def)
    next
      case False
      with e spawn_finish_frame [OF f] \<open>ready\<close> have "ue_addr e = ps_addr p" "app_id_as_str app = ?k"
        by (auto simp: endpoints_add app_id_as_str_inj split: if_splits)
      then show ?thesis by (simp add: grown new_instance_def Let_def)
    qed
  qed
qed (use spawn_finish_frame [OF f] assms(1) in \<open>simp add: routes_ready_def\<close>)

lemma take_routes:
  assumes "routes_ready s" and "take_instance_for_shutdown app iid s = (Inr inst, s')"
  shows "routes_ready s'"
  using assms(2)
proof (rule take_frame)
  fix pool before after
  assume a: "hm_get (sv_pools s) (app_id_as_str app) = Some pool" "pl_instances pool = before @ inst # after"
    "sv_pools s' = hm_insert (app_id_as_str app) (pool\<lparr>pl_instances := before @ after\<rparr>) (sv_pools s)"
    "sv_upstream s' = upstream_remove app (mi_addr inst) (sv_upstream s)"
  show "routes_ready s'"
    unfolding routes_ready_def
  proof (intro allI ballI)
    fix app' e
    assume "e \<in> set (endpoints (sv_upstream s') app')"
    with a have e: "e \<in> set (endpoints (sv_upstream s) app')" "app_id_as_str app' = app_id_as_str app \<Longrightarrow> ue_addr e \<noteq> mi_addr inst"
      by (auto simp: endpoints_remove app_id_as_str_inj split: if_splits)
    from routes_readyD [OF assms(1) e(1)] a e(2)
    show "\<exists>pool. hm_get (sv_pools s') (app_id_as_str app') = Some pool \<and>
     (ue_addr e, Ready (ue_addr e)) \<in> (\<lambda>i. (mi_addr i, mi_state i)) ` set (pl_instances pool)"
      by (cases "app_id_as_str app' = app_id_as_str app") auto
  qed
qed

lemma forget_routes:
  assumes "routes_ready s" and "forget_app app s = (r, s')"
  shows "routes_ready s'"
proof -
  have "endpoints (sv_upstream s) app' = []" if "app_id_as_str app' = app_id_as_str app" "s' \<noteq> s" for app'
  proof (rule ccontr)
    assume "endpoints (sv_upstream s) app' \<noteq> []"
    then obtain e where "e \<in> set (endpoints (sv_upstream s) app')" by fastforce
    from routes_readyD [OF assms(1) this] obtain pool i where "hm_get (sv_pools s) (app_id_as_str app') = Some pool"
      "i \<in> set (pl_instances pool)" "mi_state i = Ready (ue_addr e)" by auto
    moreover from this have "active_count pool \<noteq> 0" by (auto simp: active_count_def filter_empty_conv is_ready_def intro!: bexI [of _ i])
    ultimately have "snd (forget_app app s) = s" using that(1) by (simp add: forget_app_def)
    with assms(2) that(2) show False by simp
  qed
  note none = this
  consider "s' = s" | "s' \<noteq> s" "s' = s\<lparr>sv_pools := hm_remove (app_id_as_str app) (sv_pools s)\<rparr>"
    using forget_app_parts [OF assms(2)] by blast
  then show ?thesis
  proof cases
    case 2
    have up: "sv_upstream s' = sv_upstream s" and pools: "sv_pools s' = hm_remove (app_id_as_str app) (sv_pools s)"
      unfolding 2(2) by simp_all
    show ?thesis
      unfolding routes_ready_def up
    proof (intro allI ballI)
      fix app' e
      assume e: "e \<in> set (endpoints (sv_upstream s) app')"
      have "app_id_as_str app' \<noteq> app_id_as_str app" using none [OF _ 2(1), of app'] e by force
      with routes_readyD [OF assms(1) e]
      show "\<exists>pool. hm_get (sv_pools s') (app_id_as_str app') = Some pool \<and>
        (ue_addr e, Ready (ue_addr e)) \<in> (\<lambda>i. (mi_addr i, mi_state i)) ` set (pl_instances pool)" by (simp add: pools)
    qed
  qed (use assms(1) in simp)
qed

lemma drain_routes:
  assumes "routes_ready s"
  shows "routes_ready (remove_ready_upstreams app s)"
proof -
  have "set (endpoints (sv_upstream (remove_ready_upstreams app s)) app') \<subseteq> set (endpoints (sv_upstream s) app')" for app'
    by (simp add: remove_ready_upstreams_def endpoints_remove_all split: option.splits)
  with assms show ?thesis unfolding routes_ready_def remove_ready_upstreams_frame by blast
qed

lemma release_first_view:
  "(\<lambda>i. (mi_addr i, mi_state i)) ` set (release_first tid is) = (\<lambda>i. (mi_addr i, mi_state i)) ` set is"
  using arg_cong [OF release_first_fields(2) [of tid "is"], of set] by (simp only: set_map)

lemma live_step_routes:
  assumes "live_step c v v'" and "hm_wf (sv_pools (lv_sup v))" and "routes_ready (lv_sup v)"
  shows "routes_ready (lv_sup v')"
  using assms
proof (induction rule: live_step.induct)
  case (spawn_begins la iid app v p s')
  from spawn_begin_frame [OF spawn_begins(1)] spawn_begins(3) show ?case by (simp add: routes_ready_def)
next
  case (spawn_fails la iid app v e s')
  from spawn_begin_frame [OF spawn_fails(1)] spawn_fails(3) show ?case by (simp add: routes_ready_def)
next
  case (spawn_ends p v ready now r s')
  from spawn_ends_routes [OF spawn_ends(4,2)] show ?case by simp
next
  case (shutdown_begins app iid v inst s')
  from take_routes [OF shutdown_begins(3,1)] show ?case by simp
next
  case (shutdown_ends app inst v w iid st tx r s')
  from shutdown_ends(2) have "routes_ready s'"
  proof (rule finish_frame)
    fix pool i
    assume "hm_get (sv_pools (lv_sup v)) (app_id_as_str app) = Some pool"
      "sv_pools s' = hm_insert (app_id_as_str app) (pool\<lparr>pl_instances := pl_instances pool @ [i]\<rparr>) (sv_pools (lv_sup v))"
      "sv_upstream s' = sv_upstream (lv_sup v)"
    then show "routes_ready s'" using routes_ready_grow [OF shutdown_ends(4), of s' "app_id_as_str app" pool
        "pool\<lparr>pl_instances := pl_instances pool @ [i]\<rparr>"] by auto
  qed (use shutdown_ends(4) in \<open>simp_all add: routes_ready_def\<close>)
  then show ?case by simp
next
  case (app_forgotten app v r s')
  from forget_routes [OF app_forgotten(3,1)] show ?case by simp
next
  case (app_drained v app)
  then show ?case by (simp add: drain_routes)
next
  case (connection_closed v tid src)
  from connection_closed(1) show ?case
  proof (cases rule: release_outbound_pools [of _ tid src, case_names same changed])
    case (changed app pool)
    have "routes_ready (release_outbound_connection tid src (lv_sup v))"
      by (rule routes_ready_grow [OF connection_closed(2) _ changed]) (simp_all add: release_first_view)
    then show ?thesis by simp
  qed (use connection_closed(2) routes_ready_cong [of "release_outbound_connection tid src (lv_sup v)" "lv_sup v"] in simp)
qed (simp_all add: routes_ready_def)

lemma live_steps_routes:
  "(live_step c)\<^sup>*\<^sup>* v v' \<Longrightarrow> hm_wf (sv_pools (lv_sup v)) \<Longrightarrow> routes_ready (lv_sup v) \<Longrightarrow> routes_ready (lv_sup v')"
proof (induction rule: rtranclp_induct)
  case (step y z)
  with live_steps_ports [OF step(1,4)] live_step_routes [OF step(2)] show ?case by blast
qed simp

lemma pooled_ports_owner:
  assumes "distinct (pooled_ports pools)" and "hm_wf pools" and "hm_get pools k = Some p" and "hm_get pools k' = Some p'"
    and "x \<in> set (pool_ports p)" and "x \<in> set (pool_ports p')"
  shows "k = k'"
proof (rule ccontr)
  assume "k \<noteq> k'"
  with assms(4) have "hm_get (hm_remove k pools) k' = Some p'" by simp
  from pooled_ports_get [OF _ this] assms(2,6) have "x \<in># mset (pooled_ports (hm_remove k pools))" by simp
  then have "0 < count (mset (pooled_ports (hm_remove k pools))) x" by (simp only: count_greater_zero_iff)
  moreover have "0 < count (mset (pool_ports p)) x" using assms(5) by (simp only: count_greater_zero_iff set_mset_mset)
  moreover have "count (mset (pooled_ports pools)) x \<le> 1" using assms(1) by (simp add: distinct_count_atmost_1)
  ultimately show False using pooled_ports_get [OF assms(2,3)] by (simp del: count_greater_zero_iff)
qed

text \<open>The start of the supervisor.\<close>

lemma idle_node_new:
  "sv_pools (lv_sup (idle_node (supervisor_new store gateway start stop ns_map))) = []"
  "accounted_ports (idle_node (supervisor_new store gateway start stop ns_map)) = port_allocator_new start stop"
  "routes_ready (lv_sup (idle_node (supervisor_new store gateway start stop ns_map)))"
  by (simp_all add: idle_node_def supervisor_new_def accounted_ports_def pooled_ports_def routes_ready_def endpoints_def
      upstream_registry_new_def hm_get_def)

lemma reached_ports:
  assumes "(live_step c)\<^sup>*\<^sup>* (idle_node (supervisor_new store gateway start stop ns_map)) v"
  shows "hm_wf (sv_pools (lv_sup v))" and "distinct (accounted_ports v)" and "set (accounted_ports v) \<subseteq> {start..stop}"
proof -
  have a: "hm_wf (sv_pools (lv_sup v)) \<and> mset (accounted_ports v) \<subseteq># mset (port_allocator_new start stop)"
    using live_steps_ports [OF assms] by (simp add: idle_node_new hm_wf_def)
  then show "hm_wf (sv_pools (lv_sup v))" by blast
  from distinct_within [of "accounted_ports v" "port_allocator_new start stop"] a port_allocator_new_range [of start stop]
  show "distinct (accounted_ports v)" and "set (accounted_ports v) \<subseteq> {start..stop}" by blast+
qed

lemma reached_routes:
  "(live_step c)\<^sup>*\<^sup>* (idle_node (supervisor_new store gateway start stop ns_map)) v \<Longrightarrow> routes_ready (lv_sup v)"
  by (rule live_steps_routes, assumption) (simp_all only: idle_node_new hm.wf_empty)

text \<open>
  (C26) No two instances that the supervisor accounts for have the same port. From the start with a range of ports,
  through any interleaving of spawns that succeed or fail, of shutdowns that end, panic or time out, and of
  applications that are drained or forgotten: the free ports and the ports of the awaited, the running, the fenced and
  the stopping instances are all different and lie in the range, so a port is never handed out while one of them has it.
  An instance that did not become ready in time is not accounted for: its port is released at once.
\<close>

theorem ports_never_shared:
  assumes "(live_step c)\<^sup>*\<^sup>* (idle_node (supervisor_new store gateway start stop ns_map)) v"
  shows "distinct (accounted_ports v) \<and> set (accounted_ports v) \<subseteq> {start..stop}"
  using reached_ports [OF assms] by blast

text \<open>
  Between the parts of the operations, every address that the proxy may choose for an application is that of an
  instance in the application's own pool that is ready, and no other application is routed to its port.
\<close>

theorem requests_reach_own_ready_instance:
  assumes "(live_step c)\<^sup>*\<^sup>* (idle_node (supervisor_new store gateway start stop ns_map)) v"
    and "e \<in> set (endpoints (sv_upstream (lv_sup v)) app)"
  shows "(\<exists>pool. hm_get (sv_pools (lv_sup v)) (app_id_as_str app) = Some pool \<and>
           (\<exists>i \<in> set (pl_instances pool). mi_addr i = ue_addr e \<and> mi_state i = Ready (ue_addr e))) \<and>
    (\<forall>app' e'. e' \<in> set (endpoints (sv_upstream (lv_sup v)) app') \<and> sa_port (ue_addr e') = sa_port (ue_addr e) \<longrightarrow> app' = app)"
proof -
  have found: "\<exists>pool. hm_get (sv_pools (lv_sup v)) (app_id_as_str app) = Some pool \<and>
      (\<exists>i \<in> set (pl_instances pool). mi_addr i = ue_addr e \<and> mi_state i = Ready (ue_addr e))"
    if "e \<in> set (endpoints (sv_upstream (lv_sup v)) app)" for e app
    using routes_readyD [OF reached_routes [OF assms(1)] that] by fastforce
  have d: "distinct (pooled_ports (sv_pools (lv_sup v)))" using reached_ports(2) [OF assms(1)] by (simp add: accounted_ports_def)
  have "app' = app" if e': "e' \<in> set (endpoints (sv_upstream (lv_sup v)) app')" and p: "sa_port (ue_addr e') = sa_port (ue_addr e)" for app' e'
  proof -
    obtain pool i where a: "hm_get (sv_pools (lv_sup v)) (app_id_as_str app) = Some pool" "i \<in> set (pl_instances pool)" "mi_addr i = ue_addr e"
      using found [OF assms(2)] by blast
    obtain pool' i' where b: "hm_get (sv_pools (lv_sup v)) (app_id_as_str app') = Some pool'" "i' \<in> set (pl_instances pool')" "mi_addr i' = ue_addr e'"
      using found [OF e'] by blast
    have "sa_port (ue_addr e) \<in> set (pool_ports pool)" and "sa_port (ue_addr e) \<in> set (pool_ports pool')"
      using a b p by (force simp: pool_ports_def)+
    from pooled_ports_owner [OF d reached_ports(1) [OF assms(1)] b(1) a(1) this(2,1)] show ?thesis by (simp add: app_id_as_str_inj)
  qed
  with found [OF assms(2)] show ?thesis by blast
qed

section \<open>The operations are sequences of steps\<close>

definition sup_steps :: "'t supervisor_context \<Rightarrow> 't supervisor \<Rightarrow> 't supervisor \<Rightarrow> bool" where
  "sup_steps c s s' \<longleftrightarrow> (\<forall>starting stopping.
     (live_step c)\<^sup>*\<^sup>* \<lparr> lv_sup = s, lv_starting = starting, lv_stopping = stopping \<rparr>
       \<lparr> lv_sup = s', lv_starting = starting, lv_stopping = stopping \<rparr>)"

lemma sup_steps_refl [simp]: "sup_steps c s s"
  by (simp add: sup_steps_def)

lemma sup_steps_trans: "sup_steps c s s' \<Longrightarrow> sup_steps c s' s'' \<Longrightarrow> sup_steps c s s''"
  unfolding sup_steps_def by (meson rtranclp_trans)

lemma sup_steps_fold: "(\<And>x s. sup_steps c s (f x s)) \<Longrightarrow> sup_steps c s (fold f xs s)"
  by (induction xs arbitrary: s) (auto intro: sup_steps_trans)

lemma sup_steps_one:
  assumes "\<And>v. lv_sup v = s \<Longrightarrow> live_step c v (v\<lparr>lv_sup := s'\<rparr>)"
  shows "sup_steps c s s'"
  unfolding sup_steps_def
proof (intro allI)
  fix starting stopping
  show "(live_step c)\<^sup>*\<^sup>* \<lparr> lv_sup = s, lv_starting = starting, lv_stopping = stopping \<rparr>
       \<lparr> lv_sup = s', lv_starting = starting, lv_stopping = stopping \<rparr>"
    using assms [of "\<lparr> lv_sup = s, lv_starting = starting, lv_stopping = stopping \<rparr>"] by (simp add: r_into_rtranclp)
qed

lemma shutdown_steps:
  assumes "take_instance_for_shutdown app iid s = (Inr inst, s1)"
    and "finish_shutdown c w app iid (inst\<lparr>mi_state := st, mi_shutdown_tx := tx\<rparr>) s1 = (r, s2)"
  shows "sup_steps c s s2"
  unfolding sup_steps_def
proof (intro allI)
  fix starting stopping
  let ?v = "\<lambda>s stopping. \<lparr> lv_sup = s, lv_starting = starting, lv_stopping = stopping \<rparr>"
  have "live_step c (?v s stopping) (?v s1 ((app, inst) # stopping))"
    using live_step.shutdown_begins [of app iid "?v s stopping" inst s1 c] assms(1) by simp
  moreover have "live_step c (?v s1 ((app, inst) # stopping)) (?v s2 stopping)"
    using live_step.shutdown_ends [of app inst "?v s1 ((app, inst) # stopping)" c w iid tx st r s2] assms(2) by simp
  ultimately show "(live_step c)\<^sup>*\<^sup>* (?v s stopping) (?v s2 stopping)" by (meson rtranclp.rtrancl_refl rtranclp.rtrancl_into_rtrancl)
qed

lemma take_fails: "take_instance_for_shutdown app iid s = (Inl e, s1) \<Longrightarrow> s1 = s"
  by (auto simp: take_instance_for_shutdown_def split: option.splits)

lemma kill_instance_steps: "sup_steps c s (snd (kill_instance c w app iid s))"
proof (cases "take_instance_for_shutdown app iid s")
  case (Pair a s1)
  show ?thesis
  proof (cases a)
    case (Inl e)
    with Pair take_fails [of app iid s e s1] show ?thesis by (simp add: kill_instance_def kill_instance_gracefully_def store_then_def)
  next
    case (Inr inst)
    obtain r s2 where f: "finish_shutdown c w app iid (inst\<lparr>mi_state := Stopping (mi_addr inst), mi_shutdown_tx := False\<rparr>) s1 = (r, s2)"
      by fastforce
    with Pair Inr shutdown_steps [OF _ f, of s] show ?thesis
      by (simp add: kill_instance_def kill_instance_gracefully_def store_then_def begin_shutdown_def)
  qed
qed

lemma kill_instance_internal_steps: "sup_steps c s (kill_instance_internal c w app iid s)"
proof -
  have "kill_instance_internal c w app iid s = snd (kill_instance c w app iid s)"
    by (simp add: kill_instance_internal_def kill_instance_def kill_instance_gracefully_def store_then_def split: prod.splits sum.splits)
  then show ?thesis by (simp add: kill_instance_steps)
qed

lemma reap_one_steps: "sup_steps c s (reap_one c w candidate s)"
proof (cases candidate)
  case (Pair app iid)
  obtain a s1 where t: "take_instance_for_shutdown app iid s = (a, s1)" by fastforce
  show ?thesis
  proof (cases a)
    case (Inl e)
    with t take_fails [of app iid s e s1] Pair show ?thesis by (simp add: reap_one_def)
  next
    case (Inr inst)
    obtain r s2 where f: "finish_shutdown c w app iid (inst\<lparr>mi_state := mi_state inst, mi_shutdown_tx := mi_shutdown_tx inst\<rparr>) s1 = (r, s2)"
      by fastforce
    with t Inr Pair shutdown_steps [OF _ f, of s] show ?thesis by (simp add: reap_one_def)
  qed
qed

lemma drain_steps: "sup_steps c s (remove_ready_upstreams app s)"
  by (rule sup_steps_one) (auto intro: live_step.app_drained)

lemma kill_each_steps: "sup_steps c s (kill_each c w app ids s)"
  unfolding kill_each_def by (rule sup_steps_fold) (rule kill_instance_steps)

lemma handle_command_steps: "sup_steps c s (handle_command c w cmd s)"
proof (cases cmd)
  case KillLargestInstance
  then show ?thesis by (auto simp: kill_largest_instance_def kill_instance_steps split: option.splits prod.splits)
next
  case (PruneIdleInstances secs)
  have "sup_steps c s (prune_app c w secs app s)" for app s
    by (simp add: prune_app_def kill_each_steps split: option.splits)
  with PruneIdleInstances show ?thesis by (simp add: prune_idle_instances_def sup_steps_fold)
next
  case (KillInstanceByTid tid)
  then show ?thesis by (auto simp: kill_instance_by_tid_def kill_instance_steps split: option.splits prod.splits)
next
  case (TcpConnectionClosed tid src dst)
  have "sup_steps c s (release_outbound_connection tid src s)"
    by (rule sup_steps_one) (auto intro: live_step.connection_closed)
  with TcpConnectionClosed show ?thesis by simp
qed (simp_all add: drain_steps kill_instance_steps)

lemma health_tick_steps: "sup_steps c s (health_tick c w alive tid_alive s)"
proof -
  have "sup_steps c s (s\<lparr>sv_namespace_map := m\<rparr>)" for m
    by (rule sup_steps_one) (auto intro: live_step.threads_cleaned)
  moreover have "sup_steps c s (fold (kill_instance_internal c w app) ids s)" for app ids s
    by (rule sup_steps_fold) (rule kill_instance_internal_steps)
  then have "sup_steps c s (fold (\<lambda>(app, ids) s. fold (kill_instance_internal c w app) ids s) victims s)" for victims s
    by (intro sup_steps_fold) (simp split: prod.splits)
  moreover have "sup_steps c s (reap_finished_shutdowns c w s)" for s
    unfolding reap_finished_shutdowns_def by (rule sup_steps_fold) (rule reap_one_steps)
  ultimately show ?thesis unfolding health_tick_def Let_def by (blast intro: sup_steps_trans)
qed

lemma shutdown_all_steps: "sup_steps c s (shutdown_all c w s)"
  unfolding shutdown_all_def drain_app_def Let_def
  by (rule sup_steps_fold) (blast intro: sup_steps_trans drain_steps kill_each_steps)

lemma forget_app_steps: "sup_steps c s (snd (forget_app app s))"
  by (rule sup_steps_one) (auto intro!: live_step.app_forgotten [of app _ "fst (forget_app app s)"])

lemma spawn_steps: "sup_steps c s (snd (spawn c w app s))"
proof -
  obtain a s1 where b: "spawn_begin c (sa_launch w) (sa_instance_id w) app s = (a, s1)" by fastforce
  show ?thesis
  proof (cases a)
    case (Inl e)
    then have "sup_steps c s s1"
      using live_step.spawn_fails [of c "sa_launch w" "sa_instance_id w" app _ e s1] b by (intro sup_steps_one) simp
    with b Inl show ?thesis by (simp add: spawn_def store_then_def)
  next
    case (Inr p)
    obtain r s2 where f: "spawn_finish c (sa_ready w) (sa_now w) p s1 = (r, s2)" by fastforce
    have "sup_steps c s s2"
      unfolding sup_steps_def
    proof (intro allI)
      fix starting stopping
      let ?v = "\<lambda>s starting. \<lparr> lv_sup = s, lv_starting = starting, lv_stopping = stopping \<rparr>"
      have "live_step c (?v s starting) (?v s1 (p # starting))"
        using live_step.spawn_begins [of c "sa_launch w" "sa_instance_id w" app "?v s starting" p s1] b Inr by simp
      moreover have "live_step c (?v s1 (p # starting)) (?v s2 starting)"
        using live_step.spawn_ends [of p "?v s1 (p # starting)" c "sa_ready w" "sa_now w" r s2] f by simp
      ultimately show "(live_step c)\<^sup>*\<^sup>* (?v s starting) (?v s2 starting)"
        by (meson rtranclp.rtrancl_refl rtranclp.rtrancl_into_rtrancl)
    qed
    with b Inr f show ?thesis by (simp add: spawn_def store_then_def)
  qed
qed

section \<open>Starting and stopping an instance\<close>

lemma release_sorted: "sorted free \<Longrightarrow> sorted (release port free)"
  by (simp add: release_def sorted_insort_insert)

lemma port_allocator_sorted: "sorted (port_allocator_new start stop)"
  unfolding port_allocator_new_def sorted_map
  by (rule sorted_wrt_mono_rel [OF _ sorted_wrt_upt]) (use unsigned_less [of stop, where 'a = nat] in \<open>auto simp: word_le_nat_alt unat_of_nat\<close>)

lemma launch_sorted: "launch la model q port s = (r, s') \<Longrightarrow> sorted (sv_ports s) \<Longrightarrow> sorted (sv_ports s')"
  by (auto simp: launch_def Let_def release_port_def register_thread_def release_sorted
      split: execution_model.splits sum.splits option.splits)

lemma spawn_begin_sorted:
  assumes "spawn_begin c la iid app s = (r, s')" and "sorted (sv_ports s)"
  shows "sorted (sv_ports s')"
proof (cases "admit c app s")
  case (Inr a)
  obtain config prepared q port rest where a: "a = (config, prepared, q, port, rest)" by (cases a)
  have "sorted rest" using admit_port [OF Inr [unfolded a]] assms(2) by simp
  obtain lr ls where l: "launch la (pm_execution_model prepared) q port (s\<lparr>sv_ports := rest\<rparr>) = (lr, ls)" by fastforce
  from launch_sorted [OF l] \<open>sorted rest\<close> assms(1) Inr a l show ?thesis
    by (auto simp: spawn_begin_def start_on_port_def store_then_def Let_def split: option.splits sum.splits)
qed (use assms in \<open>simp add: spawn_begin_def\<close>)

lemma live_step_sorted:
  assumes "live_step c v v'" and "hm_wf (sv_pools (lv_sup v))" and "sorted (sv_ports (lv_sup v))"
  shows "sorted (sv_ports (lv_sup v'))"
  using assms
proof (induction rule: live_step.induct)
  case (spawn_ends p v ready now r s')
  from spawn_finish_frame [OF spawn_ends(2)] spawn_ends(4) show ?case by (simp add: release_sorted split: if_splits)
next
  case (shutdown_begins app iid v inst s')
  from shutdown_begins(1) show ?case by (rule take_frame) (simp add: shutdown_begins(3))
next
  case (shutdown_ends app inst v w iid st tx r s')
  from shutdown_ends(2) show ?case by (rule finish_frame) (simp_all add: shutdown_ends(4) release_sorted)
next
  case (app_forgotten app v r s')
  from forget_app_parts [OF app_forgotten(1)] app_forgotten(3) show ?case by (elim disjE) simp_all
qed (simp_all add: spawn_begin_sorted)

lemma reached_sorted:
  assumes "(live_step c)\<^sup>*\<^sup>* (idle_node (supervisor_new store gateway start stop ns_map)) v"
  shows "sorted (sv_ports (lv_sup v))"
  using assms
proof (induction rule: rtranclp_induct)
  case base
  show ?case by (simp add: idle_node_def supervisor_new_def port_allocator_sorted)
next
  case (step y z)
  with live_step_sorted [OF step(2) reached_ports(1) [OF step(1)]] show ?case by blast
qed

lemma extract_snoc: "(\<And>x. x \<in> set xs \<Longrightarrow> \<not> P x) \<Longrightarrow> P y \<Longrightarrow> List.extract P (xs @ [y]) = Some (xs, y, [])"
  by (simp add: extract_def takeWhile_append2 dropWhile_append2 takeWhile_eq_all_conv dropWhile_eq_Nil_conv)

text \<open>What a successful spawn does.\<close>

lemma spawn_success:
  assumes "spawn c a app s = (Inr addr, s1)"
  obtains p rest where "sv_ports s = sa_port addr # rest" and "ps_addr p = addr" and "ps_app_id p = app" and "ps_id p = sa_instance_id a"
    and "sv_ports s1 = rest" and "sv_pools s1 = push_instance p (new_instance (sa_now a) p) (sv_pools s)"
    and "sv_upstream s1 = upstream_add app \<lparr> ue_addr = addr, ue_h2c = (pm_execution_model (ps_prepared p) = WasiHttpIncomingHandler) \<rparr> (sv_upstream s)"
proof -
  from assms obtain p s0 where b: "spawn_begin c (sa_launch a) (sa_instance_id a) app s = (Inr p, s0)"
    and f: "spawn_finish c (sa_ready a) (sa_now a) p s0 = (Inr addr, s1)"
    by (auto simp: spawn_def elim: store_then_OkE)
  then have ready: "sa_ready a" and addr: "ps_addr p = addr" by (auto simp: spawn_finish_def Let_def split: if_splits)
  obtain config prepared q port rest where ad: "admit c app s = Inr (config, prepared, q, port, rest)"
    using b by (cases "admit c app s") (auto simp: spawn_begin_def)
  have st: "start_on_port c (sa_launch a) (sa_instance_id a) app config prepared q port (s\<lparr>sv_ports := rest\<rparr>) = (Inr p, s0)"
    using b ad by (simp add: spawn_begin_def)
  then have "ps_id p = sa_instance_id a"
    by (auto simp: start_on_port_def Let_def elim!: store_then_OkE split: option.splits)
  with start_on_port_frame [OF st] spawn_finish_frame [OF f] ready addr admit_port [OF ad] that [of rest p] show ?thesis by simp
qed

lemma kill_started_instance:
  assumes "hm_get (sv_pools s) (app_id_as_str app) = Some pool" and "pl_instances pool = before @ [i]"
    and "mi_id i = iid" and "iid \<notin> mi_id ` set before" and "mi_task i" and "ea_outcome w iid = Exited stats"
  obtains s' where "kill_instance c w app iid s = (Inr (), s')"
    and "sv_pools s' = hm_insert (app_id_as_str app) (pool\<lparr>pl_instances := before\<rparr>) (sv_pools s)"
    and "sv_upstream s' = upstream_remove app (mi_addr i) (sv_upstream s)"
    and "sv_ports s' = release (instance_port i) (sv_ports s)"
proof -
  have e: "List.extract (\<lambda>i. mi_id i = iid) (pl_instances pool) = Some (before, i, [])"
    unfolding assms(2) by (rule extract_snoc) (use assms(4) in blast, rule assms(3))
  show ?thesis
    by (rule that) (use assms e in \<open>auto simp: kill_instance_def kill_instance_gracefully_def store_then_def
      take_instance_for_shutdown_def finish_shutdown_def begin_shutdown_def await_exit_def handle_shutdown_outcome_def\<close>)
qed

text \<open>
  Starting an instance and killing it again, when it exits in time, gives back its port and leaves the routes and the
  instances of every application as they were.
\<close>

theorem spawn_kill_round_trip:
  assumes reach: "(live_step c)\<^sup>*\<^sup>* (idle_node (supervisor_new store gateway start stop ns_map)) v"
    and spawned: "spawn c a app (lv_sup v) = (Inr addr, s1)"
    and fresh: "sa_instance_id a \<notin> set (list_instances app (lv_sup v))"
    and exits: "ea_outcome w (sa_instance_id a) = Exited stats"
  shows "\<exists>s2. kill_instance c w app (sa_instance_id a) s1 = (Inr (), s2) \<and> sv_ports s2 = sv_ports (lv_sup v) \<and>
    (\<forall>app'. endpoints (sv_upstream s2) app' = endpoints (sv_upstream (lv_sup v)) app' \<and>
       list_instances app' s2 = list_instances app' (lv_sup v))"
proof -
  let ?s = "lv_sup v" and ?k = "app_id_as_str app"
  from spawn_success [OF spawned] obtain p rest where ports: "sv_ports ?s = sa_port addr # rest" "sv_ports s1 = rest"
    and p: "ps_addr p = addr" "ps_app_id p = app" "ps_id p = sa_instance_id a"
    and pools: "sv_pools s1 = push_instance p (new_instance (sa_now a) p) (sv_pools ?s)"
    and up: "sv_upstream s1 = upstream_add app \<lparr> ue_addr = addr, ue_h2c = (pm_execution_model (ps_prepared p) = WasiHttpIncomingHandler) \<rparr> (sv_upstream ?s)" .
  let ?i = "new_instance (sa_now a) p"
  let ?pool = "hm_or_insert (sv_pools ?s) ?k \<lparr> pl_config = ps_config p, pl_prepared = ps_prepared p, pl_instances = [] \<rparr>"
  have i: "mi_id ?i = sa_instance_id a" "mi_addr ?i = addr" "mi_task ?i" by (simp_all add: new_instance_def p)
  have ids: "list_instances app ?s = map mi_id (pl_instances ?pool)"
    by (simp add: list_instances_def hm_or_insert_def split: option.splits)
  have "hm_get (sv_pools s1) ?k = Some (?pool\<lparr>pl_instances := pl_instances ?pool @ [?i]\<rparr>)"
    by (simp add: pools push_instance_get p Let_def)
  from kill_started_instance [OF this, of "pl_instances ?pool" ?i "sa_instance_id a" w stats c] fresh ids i exits obtain s2
    where k: "kill_instance c w app (sa_instance_id a) s1 = (Inr (), s2)"
      and pools2: "sv_pools s2 = hm_insert ?k ?pool (sv_pools s1)"
      and up2: "sv_upstream s2 = upstream_remove app addr (sv_upstream s1)"
      and ports2: "sv_ports s2 = release (sa_port addr) rest"
    by (auto simp: ports(2))
  have "sa_port addr \<notin> set rest" "sa_port addr \<notin> set (pooled_ports (sv_pools ?s))"
    using reached_ports(2) [OF reach] ports(1) by (auto simp: accounted_ports_def)
  moreover have "sorted (sa_port addr # rest)" using reached_sorted [OF reach] ports(1) by simp
  ultimately have "sv_ports s2 = sv_ports ?s"
    unfolding ports2 ports(1) release_def insort_insert_key_def by (simp add: insort_is_Cons)
  moreover have "addr \<notin> ue_addr ` set (endpoints (sv_upstream ?s) app)"
  proof
    assume "addr \<in> ue_addr ` set (endpoints (sv_upstream ?s) app)"
    then obtain e where e: "e \<in> set (endpoints (sv_upstream ?s) app)" "ue_addr e = addr" by blast
    with routes_readyD [OF reached_routes [OF reach] e(1)] pooled_ports_get [OF reached_ports(1) [OF reach]]
    show False using \<open>sa_port addr \<notin> set (pooled_ports (sv_pools ?s))\<close>
      by (fastforce simp: pool_ports_def dest: arg_cong [of _ _ set_mset])
  qed
  then have "endpoints (sv_upstream s2) app' = endpoints (sv_upstream ?s) app'" for app'
    unfolding up2 up by (auto simp: endpoints_remove endpoints_add app_id_as_str_inj intro!: filter_True)
  moreover have "list_instances app' s2 = list_instances app' ?s" for app'
    unfolding list_instances_def pools2 pools by (simp add: push_instance_get p hm_or_insert_def split: option.splits)
  ultimately show ?thesis using k by blast
qed

section \<open>Connections between instances\<close>

lemma str_split_head_no_sep: "str_split sep s = w # ws \<Longrightarrow> sep \<notin> set w"
  by (induction s arbitrary: w ws) (auto split: list.splits if_splits)

lemma app_id_namespace_no_slash: "CHR ''/'' \<notin> set (app_id_namespace a)"
  by (auto simp: app_id_namespace_def dest: str_split_head_no_sep split: list.splits)

text \<open>The services registry is well formed and its keys are namespaces.\<close>

definition services_ok :: "namespace_registry \<Rightarrow> bool" where
  "services_ok r \<longleftrightarrow> ns_registry_inv r \<and> (\<forall>ns apps. hm_get (nr_instances r) ns = Some apps \<longrightarrow> CHR ''/'' \<notin> set ns)"

lemma registry_keys:
  "hm_get (nr_instances (register_endpoint app e r)) ns = Some apps \<Longrightarrow>
   ns = app_id_namespace app \<or> (\<exists>apps. hm_get (nr_instances r) ns = Some apps)"
  "hm_get (nr_instances (deregister app addr r)) ns = Some apps \<Longrightarrow> \<exists>apps. hm_get (nr_instances r) ns = Some apps"
  by (auto simp: register_endpoint_def deregister_def Let_def split: option.splits if_splits)

lemma services_ok_register: "services_ok r \<Longrightarrow> services_ok (register_endpoint app e r)"
  unfolding services_ok_def using ns_registry_inv_register registry_keys(1) app_id_namespace_no_slash by metis

lemma services_ok_deregister: "services_ok r \<Longrightarrow> services_ok (deregister app addr r)"
  unfolding services_ok_def using ns_registry_inv_deregister registry_keys(2) by metis

lemma services_ok_ports:
  "services_ok (bind_source_port port app r) = services_ok r" "services_ok (release_source_port port r) = services_ok r"
  by (simp_all add: services_ok_def ns_registry_inv_ports) (simp_all add: bind_source_port_def release_source_port_def)

lemmas services_ok_ops = services_ok_register services_ok_deregister services_ok_ports

lemma start_on_port_services:
  "start_on_port c la iid app config prepared q port s = (r, s') \<Longrightarrow> sv_services s' = sv_services s"
  by (auto simp: start_on_port_def store_then_def launch_def register_thread_def release_port_def Let_def
      split: option.splits sum.splits execution_model.splits prod.splits)

lemma spawn_begin_services: "spawn_begin c la iid app s = (r, s') \<Longrightarrow> sv_services s' = sv_services s"
  by (auto simp: spawn_begin_def dest: start_on_port_services split: sum.splits prod.splits)

lemma finish_services:
  assumes "services_ok (sv_services s)" and "finish_shutdown c w app iid inst s = (r, s')"
  shows "services_ok (sv_services s')"
proof -
  have fin: "sv_services (finalize_instance_exit c now app iid i stats s) =
      release_source_port (instance_port i) (deregister app (mi_addr i) (sv_services s))" for now i stats
    by (cases "mi_tid i") (simp_all add: finalize_instance_exit_def Let_def send_billing_record_def release_port_def send_event_def)
  have "services_ok (sv_services (snd (handle_shutdown_outcome c now app iid i out s)))" for now i out
    using assms(1)
    by (cases out) (auto simp: handle_shutdown_outcome_def fin services_ok_ops store_then_def reinsert_fenced_instance_def
        split: option.splits)
  with assms(2) show ?thesis by (metis (no_types, lifting) finish_shutdown_def case_prod_beta snd_conv)
qed

lemma live_step_services:
  assumes "live_step c v v'" and "services_ok (sv_services (lv_sup v))"
  shows "services_ok (sv_services (lv_sup v'))"
  using assms
proof (induction rule: live_step.induct)
  case (spawn_ends p v ready now r s')
  then show ?case
    by (auto simp: spawn_finish_def Let_def release_port_def send_event_def services_ok_ops split: if_splits)
next
  case (shutdown_begins app iid v inst s')
  then show ?case by (auto simp: take_instance_for_shutdown_def services_ok_ops split: option.splits)
next
  case (shutdown_ends app inst v w iid st tx r s')
  then show ?case by (auto dest: finish_services)
next
  case (app_forgotten app v r s')
  from forget_app_parts [OF app_forgotten(1)] app_forgotten(2) show ?case by (elim disjE) simp_all
qed (auto simp: remove_ready_upstreams_def release_outbound_connection_def dest: spawn_begin_services split: option.splits)

lemma reached_services:
  assumes "(live_step c)\<^sup>*\<^sup>* (idle_node (supervisor_new store gateway start stop ns_map)) v"
  shows "services_ok (sv_services (lv_sup v))"
  using assms
proof (induction rule: rtranclp_induct)
  case base
  show ?case
    using ns_registry_inv_default by (simp add: services_ok_def idle_node_def supervisor_new_def namespace_registry_default_def hm_get_def)
qed (rule live_step_services)

text \<open>The application found for a port is one that is registered on it.\<close>

lemma find_found: "find P xs = Some x \<Longrightarrow> x \<in> set xs \<and> P x"
  by (induction xs) (auto split: if_splits)

lemma resolve_app_by_port_found:
  assumes "services_ok r" and "resolve_app_by_port port r = Some (Some a)"
  shows "\<exists>name e. e \<in> set (instances_of r (app_id_namespace a) name) \<and> sa_port (re_addr e) = port"
proof -
  from assms(2) obtain ns name es where
    f: "find (\<lambda>(ns, name, es). list_ex (\<lambda>e. sa_port (re_addr e) = port) es)
      (concat (map (\<lambda>(ns, apps). map (\<lambda>(name, es). (ns, name, es)) apps) (nr_instances r))) = Some (ns, name, es)"
    and a: "app_id_new_namespaced ns name ''v1'' = Some a"
    by (auto simp: resolve_app_by_port_def split: option.splits)
  from f have m: "(ns, name, es) \<in> set (concat (map (\<lambda>(ns, apps). map (\<lambda>(name, es). (ns, name, es)) apps) (nr_instances r)))"
    and ex: "list_ex (\<lambda>e. sa_port (re_addr e) = port) es"
    using find_found [OF f] by (blast, simp)
  from m obtain apps where apps: "(ns, apps) \<in> set (nr_instances r)" "(name, es) \<in> set apps" by auto
  then have get: "hm_get (nr_instances r) ns = Some apps"
    using assms(1) by (simp add: services_ok_def ns_registry_inv_def hm_get_iff_set)
  then have "hm_wf apps" and ns: "CHR ''/'' \<notin> set ns"
    using assms(1) unfolding services_ok_def ns_registry_inv_def by blast+
  with apps(2) get have "instances_of r ns name = es" by (simp add: instances_of_def hm_get_iff_set [THEN iffD2])
  moreover from a ns have "app_id_namespace a = ns"
    using app_id_namespace_qualified [OF ns, of "name @ '':v1''"]
    by (auto simp: app_id_new_namespaced_def app_id_new_validate_Ok_iff split: sum.splits)
  ultimately show ?thesis using ex by (auto simp: list_ex_iff)
qed

lemma resolve_app_by_port_none:
  assumes "services_ok r" and "resolve_app_by_port port r = Some None" and "e \<in> set (instances_of r ns name)"
  shows "sa_port (re_addr e) \<noteq> port"
proof -
  from assms(2) have "find (\<lambda>(ns, name, es). list_ex (\<lambda>e. sa_port (re_addr e) = port) es)
      (concat (map (\<lambda>(ns, apps). map (\<lambda>(name, es). (ns, name, es)) apps) (nr_instances r))) = None"
    by (auto simp: resolve_app_by_port_def split: option.splits)
  then have none: "\<not> list_ex (\<lambda>e. sa_port (re_addr e) = port) es"
    if "(ns, apps) \<in> set (nr_instances r)" "(name, es) \<in> set apps" for ns apps name es
    using that by (fastforce simp: find_None_iff)
  obtain apps es where "hm_get (nr_instances r) ns = Some apps" "hm_get apps name = Some es" "e \<in> set es"
    using assms(3) by (cases "hm_get (nr_instances r) ns"; cases "hm_get (the (hm_get (nr_instances r) ns)) name")
      (auto simp: instances_of_def)
  with none [of ns apps name es] show ?thesis by (auto simp: hm_get_set list_ex_iff)
qed

text \<open>
  A connection to a loopback port other than the gateway's that the check of an instance admits leads to a port that was
  offered at its start; if the registry knows an endpoint on that port, it knows one there in the instance's own
  namespace.
\<close>

theorem connections_stay_in_namespace:
  assumes "(live_step c)\<^sup>*\<^sup>* (idle_node (supervisor_new store gateway start stop ns_map)) v"
    and "socket_addr_check ports gateway_port bind_ip source (sv_services (lv_sup v)) dest use_type = Some True"
    and "use_type = TcpConnect \<or> use_type = UdpSend" and "is_loopback (sa_ip dest)" and "sa_port dest \<noteq> gateway_port"
    and "e \<in> set (instances_of (sv_services (lv_sup v)) ns name)" and "sa_port (re_addr e) = sa_port dest"
  shows "sa_port dest \<in> ports \<and>
    (\<exists>name' e'. e' \<in> set (instances_of (sv_services (lv_sup v)) (app_id_namespace source) name') \<and> sa_port (re_addr e') = sa_port dest)"
proof -
  from assms(2-5) have inside: "sa_port dest \<in> ports"
    and "map_option (\<lambda>d. case d of Allow _ \<Rightarrow> True | Deny _ \<Rightarrow> False) (check_connect (sv_services (lv_sup v)) source dest) = Some True"
    by (auto simp: socket_addr_check_def split: if_splits)
  with assms(4) obtain found where "resolve_app_by_port (sa_port dest) (sv_services (lv_sup v)) = Some found"
    and same: "\<And>a. found = Some a \<Longrightarrow> app_id_namespace a = app_id_namespace source"
    by (auto simp: check_connect_def split: option.splits if_splits)
  moreover from this(1) resolve_app_by_port_none [OF reached_services [OF assms(1)] _ assms(6)] assms(7) have "found \<noteq> None" by metis
  ultimately show ?thesis
    using resolve_app_by_port_found [OF reached_services [OF assms(1)]] inside by fastforce
qed

section \<open>A concrete node\<close>

text \<open>
  Three applications: one with a qualified identifier, one of another namespace, and one whose namespace is given by its
  configuration only.
\<close>

definition w_config :: "string \<Rightarrow> string \<Rightarrow> app_config" where
  "w_config name ns = (app_config_default_for (AppId name))\<lparr>ac_namespace := ns, ac_max_instances := 1\<rparr>"

definition w_sup_context :: "(string, string) hmap supervisor_context" where
  "w_sup_context = \<lparr> sx_db = mem_redb, sx_config_json = list_serde [w_config ''a/web:v1'' ''a'', w_config ''b/api:v1'' ''b'', w_config ''old:v1'' ''a''],
     sx_gateway_json = list_serde [], sx_bind_ip = V4 0x7F000001, sx_node_id = ''n1'', sx_internal_gateway_port = 7,
     sx_node_memory_budget_bytes = 4294967296, sx_env_resolver = (\<lambda>_ _. []),
     sx_prepare = (\<lambda>bytes _. Inr \<lparr> pm_artifact = bytes, pm_execution_model = WasiHttpIncomingHandler \<rparr>),
     sx_billing_accepts = (\<lambda>_. True) \<rparr>"

definition w_app_store :: "(string, string) hmap app_store" where
  "w_app_store = \<lparr> st_artifacts = [(''a/web:v1'', ''wasm''), (''b/api:v1'', ''wasm''), (''old:v1'', ''wasm'')], st_raw_wasm = [],
     st_configs = [(''a/web:v1'', ''''), (''b/api:v1'', ''#''), (''old:v1'', ''##'')], st_metrics = [], st_routes = [], st_schema_meta = [],
     st_artifact_hashes = [], st_artifact_verifications = [] \<rparr>"

definition w_node :: "(string, string) hmap supervisor" where
  "w_node = supervisor_new w_app_store [] 1 3 None"

definition w_answers :: "string \<Rightarrow> spawn_answers" where
  "w_answers iid = \<lparr> sa_launch = \<lparr> la_created = Inr (), la_tid = None, la_started = None, la_counters = False, la_ns_accepts = (\<lambda>_. True), la_ns_now = 0 \<rparr>,
     sa_instance_id = iid, sa_ready = True, sa_now = 0 \<rparr>"

definition w_spawn :: "string \<Rightarrow> string \<Rightarrow> (string, string) hmap supervisor \<Rightarrow> (string, string) hmap supervisor" where
  "w_spawn app iid s = snd (spawn w_sup_context (w_answers iid) (AppId app) s)"

definition w_exit :: "shutdown_outcome \<Rightarrow> exit_answers" where
  "w_exit out = \<lparr> ea_outcome = (\<lambda>_. out), ea_finished = (\<lambda>_. False), ea_now = 5 \<rparr>"

definition w_kill :: "shutdown_outcome \<Rightarrow> string \<Rightarrow> string \<Rightarrow> (string, string) hmap supervisor \<Rightarrow> (string, string) hmap supervisor" where
  "w_kill out app iid s = snd (kill_instance w_sup_context (w_exit out) (AppId app) iid s)"

definition w_one :: "(string, string) hmap supervisor" where
  "w_one = w_spawn ''a/web:v1'' ''x'' w_node"

definition w_two :: "(string, string) hmap supervisor" where
  "w_two = w_spawn ''b/api:v1'' ''y'' w_one"

abbreviation w_addr :: "u16 \<Rightarrow> socket_addr" where
  "w_addr port \<equiv> \<lparr> sa_ip = V4 0x7F000001, sa_port = port \<rparr>"

abbreviation w_exited :: shutdown_outcome where
  "w_exited \<equiv> Exited \<lparr> es_fuel_consumed = 0, es_ram_bytes = 0, es_trap = None \<rparr>"

lemma w_two_facts:
  "(accounted_ports (idle_node w_two), endpoints (sv_upstream w_two) (AppId ''a/web:v1''),
     map re_addr (instances_of (sv_services w_two) ''a'' ''web''), list_instances (AppId ''b/api:v1'') w_one,
     fst (spawn w_sup_context (w_answers ''y'') (AppId ''b/api:v1'') w_one),
     socket_addr_check {1, 7} 7 (V4 0x7F000001) (AppId ''a/jobs:v1'') (sv_services w_two) (w_addr 1) TcpConnect,
     is_loopback (V4 0x7F000001)) =
   ([3, 1, 2], [\<lparr> ue_addr = w_addr 1, ue_h2c = True \<rparr>], [w_addr 1], [], Inr (w_addr 2), Some True, True)"
  by code_simp

lemma w_reached: "(live_step w_sup_context)\<^sup>*\<^sup>* (idle_node w_node) (idle_node w_one)"
  "(live_step w_sup_context)\<^sup>*\<^sup>* (idle_node w_node) (idle_node w_two)"
proof -
  have "sup_steps w_sup_context w_node w_one" "sup_steps w_sup_context w_one w_two"
    unfolding w_one_def w_two_def w_spawn_def by (rule spawn_steps)+
  then show "(live_step w_sup_context)\<^sup>*\<^sup>* (idle_node w_node) (idle_node w_one)"
    "(live_step w_sup_context)\<^sup>*\<^sup>* (idle_node w_node) (idle_node w_two)"
    unfolding sup_steps_def idle_node_def by (blast intro: rtranclp_trans)+
qed

theorem ports_never_shared_witness:
  "(live_step w_sup_context)\<^sup>*\<^sup>* (idle_node (supervisor_new w_app_store [] 1 3 None)) (idle_node w_two) \<and>
   accounted_ports (idle_node w_two) = [3, 1, 2] \<and> distinct (accounted_ports (idle_node w_two)) \<and>
   set (accounted_ports (idle_node w_two)) \<subseteq> {1..3}"
  using ports_never_shared [of w_sup_context w_app_store "[]" 1 3 None "idle_node w_two"] w_reached(2) w_two_facts
  by (simp add: w_node_def)

theorem requests_reach_own_ready_instance_witness:
  "(live_step w_sup_context)\<^sup>*\<^sup>* (idle_node (supervisor_new w_app_store [] 1 3 None)) (idle_node w_two) \<and>
   \<lparr> ue_addr = w_addr 1, ue_h2c = True \<rparr> \<in> set (endpoints (sv_upstream (lv_sup (idle_node w_two))) (AppId ''a/web:v1'')) \<and>
   (\<exists>pool. hm_get (sv_pools (lv_sup (idle_node w_two))) ''a/web:v1'' = Some pool \<and>
      (\<exists>i \<in> set (pl_instances pool). mi_addr i = w_addr 1 \<and> mi_state i = Ready (w_addr 1)))"
proof -
  have e: "\<lparr> ue_addr = w_addr 1, ue_h2c = True \<rparr> \<in> set (endpoints (sv_upstream (lv_sup (idle_node w_two))) (AppId ''a/web:v1''))"
    using w_two_facts by (simp add: idle_node_def)
  from requests_reach_own_ready_instance [OF w_reached(2) [unfolded w_node_def] e] e w_reached(2) show ?thesis by (simp add: w_node_def)
qed

theorem spawn_kill_round_trip_witness:
  "\<exists>s1 s2. spawn w_sup_context (w_answers ''y'') (AppId ''b/api:v1'') w_one = (Inr (w_addr 2), s1) \<and>
     kill_instance w_sup_context (w_exit w_exited) (AppId ''b/api:v1'') ''y'' s1 = (Inr (), s2) \<and> sv_ports s2 = sv_ports w_one"
proof -
  have s: "spawn w_sup_context (w_answers ''y'') (AppId ''b/api:v1'') (lv_sup (idle_node w_one)) = (Inr (w_addr 2), w_two)"
    using w_two_facts by (simp add: idle_node_def w_two_def w_spawn_def prod_eq_iff)
  have f: "sa_instance_id (w_answers ''y'') \<notin> set (list_instances (AppId ''b/api:v1'') (lv_sup (idle_node w_one)))"
    using w_two_facts by (simp add: idle_node_def)
  from spawn_kill_round_trip [OF w_reached(1) [unfolded w_node_def] s f, of "w_exit w_exited"] s show ?thesis
    by (auto simp: w_exit_def w_answers_def idle_node_def)
qed

theorem connections_stay_in_namespace_witness:
  "socket_addr_check {1, 7} 7 (V4 0x7F000001) (AppId ''a/jobs:v1'') (sv_services w_two) (w_addr 1) TcpConnect = Some True \<and>
   (\<exists>name' e'. e' \<in> set (instances_of (sv_services w_two) (app_id_namespace (AppId ''a/jobs:v1'')) name') \<and> sa_port (re_addr e') = 1)"
proof -
  obtain e where e: "e \<in> set (instances_of (sv_services w_two) ''a'' ''web'')" "re_addr e = w_addr 1"
    using w_two_facts by auto
  from connections_stay_in_namespace [OF w_reached(2) [unfolded w_node_def], of "{1, 7}" 7 "V4 0x7F000001" "AppId ''a/jobs:v1''" "w_addr 1" TcpConnect e]
    e w_two_facts show ?thesis by (auto simp: idle_node_def)
qed

section \<open>Defects of the bookkeeping\<close>

text \<open>A spawn does not look at \<open>max_instances\<close>: two instances run where the configuration allows one.\<close>

theorem spawn_exceeds_max_instances:
  "map_option (\<lambda>p. (active_count p, ac_max_instances (pl_config p))) (hm_get (sv_pools (w_spawn ''a/web:v1'' ''z'' w_one)) ''a/web:v1'') =
   Some (2, 1)"
  by code_simp

text \<open>
  An instance is registered under the namespace of its configuration but removed under that of its identifier. With an
  unqualified identifier the entry stays after the instance has exited and its port is free again. The next
  instance on that port belongs to another namespace, and applications of the first namespace may connect to it.
\<close>

definition w_stale :: "(string, string) hmap supervisor" where
  "w_stale = w_kill w_exited ''old:v1'' ''o'' (w_spawn ''old:v1'' ''o'' w_node)"

definition w_reused :: "(string, string) hmap supervisor" where
  "w_reused = w_spawn ''b/api:v1'' ''y'' w_stale"

theorem stale_entry_opens_other_namespace:
  "(sv_ports w_stale, get_namespace_services ''a'' (sv_services w_stale), resolve_source_app 1 (sv_services w_reused),
    socket_addr_check (allowed_ports 7 (get_namespace_services ''a'' (sv_services w_stale)) 2) 7 (V4 0x7F000001) (AppId ''a/web:v1'')
      (sv_services w_reused) (w_addr 1) TcpConnect) =
   ([1, 2, 3], [(''old'', [w_addr 1])], Some (AppId ''b/api:v1''), Some True)"
  by code_simp

text \<open>An application is forgotten while an instance of it has not exited; its port is never free again.\<close>

theorem forgotten_app_loses_port:
  "(let s = w_kill TimedOut ''a/web:v1'' ''x'' w_one; (r, s') = forget_app (AppId ''a/web:v1'') s
    in (accounted_ports (idle_node s), r, accounted_ports (idle_node s'))) = ([2, 3, 1], Inr (), [2, 3])"
  by code_simp

end
