(* ===== verification/Spec2Isabelle.thy ===== *)
theory Spec2Isabelle
  imports Route_Store Circuit_Breaker Policy_Concurrency Socket_Policy Memory_Limiter Rate_Limiter
    Admin_Middleware Config_Loader Node_Startup Hot_Config Internal_Gateway Cluster_State
    Storage_Gc Artifact_Ingest Secret_Store Instance_Invariants
begin

text \<open>
  Verification of a WebAssembly cloud platform: nodes that run applications as WebAssembly instances, a
  reverse proxy in front of them, an admin interface, and a message bus that carries deployment and routing
  events between nodes. The sources are the Rust crates under \<open>src/crates\<close>.

  \<^bold>\<open>Parts and their interaction.\<close> A request enters the proxy, whose filter resolves its host and path to an
  application, answers preflights, authenticates and authorises the caller, limits the rate, asks the circuit breaker of
  the application and then passes the request to an instance: a local one in turn, one on another node when this one is overloaded, or one
  that is started for it. Calls between applications take the internal gateway instead, which identifies the caller by the thread
  that owns its source port. Routes and gateway configurations come from control-plane events, are kept in memory and in
  database tables, and are read back after a restart. A running instance is confined by a policy resolved at deployment: its sockets,
  bytes, descriptors and memory are accounted for by an enforcer. A node starts from a configuration merged from defaults, file,
  environment and command line; parts of it change at run time through the admin interface, which authenticates and limits its
  callers.

  \<^bold>\<open>Theories, in the order of the imports.\<close>

  \<^item> \<open>Prelude\<close>: what the sources use of the Rust standard library (results and \<open>?\<close>, options, string operations,
    number parsing, durations), hash maps as association lists with the contract \<open>keyed_table\<close>, and machines
    driven by calls with the contract \<open>call_machine\<close>.
  \<^item> \<open>App_Types\<close> (\<open>common/src/types.rs\<close>): application names, routes, limits. \<open>Net_Addr\<close>: parsing of IP
    addresses as in \<open>core::net\<close>, with a round trip for IPv4.
  \<^item> \<open>Router\<close> (\<open>proxy/src/router\<close>): the sorted entries per host and longest-prefix resolution, shown to implement a
    map from (host, prefix) pairs to targets; contract \<open>routing_table\<close>.
  \<^item> \<open>Route_Store\<close> (\<open>storage/src/routes.rs\<close>, \<open>node/src/handlers/cluster_runtime.rs\<close>, \<open>supervisor/src/deployment.rs\<close>): the
    routes table, the handlers for added and removed routes, restart and hot swap.
  \<^item> \<open>Circuit_Breaker\<close> (\<open>proxy/src/gateway/circuit_breaker.rs\<close>): the state machine and its manager.
  \<^item> \<open>Policy\<close> (\<open>common/src/policy.rs\<close>): policies, profiles, resolution. \<open>Policy_Tracker\<close>
    (\<open>runtime/src/policy_tracker\<close>): the enforcer as atomic operations, with the contracts \<open>byte_quota\<close> and
    \<open>slot_pool\<close>. \<open>Policy_Concurrency\<close>: its compare-exchange loops as interleaved steps. \<open>Socket_Policy\<close>: the socket check
    of a store. \<open>Memory_Limiter\<close> (\<open>runtime/src/limits.rs\<close>): growth of memories and tables.
  \<^item> \<open>Float64\<close>: rounding of \<open>f64\<close> arithmetic on rationals (round to nearest even, subnormals included).
    \<open>Token_Bucket\<close>: the contract \<open>token_bucket\<close> with its bound on granted requests, met by the three limiters.
    \<open>Rate_Limiter\<close> (\<open>proxy/src/rate_limiter.rs\<close>, \<open>proxy/src/gateway/distributed_limiter.rs\<close>): the node-local and the
    distributed request limiter.
  \<^item> \<open>Node_Config\<close> (\<open>common/src/config.rs\<close>, \<open>config_health_gateway.rs\<close>): the configuration and its defaults.
    \<open>Auth\<close> (\<open>common/src/auth.rs\<close>, \<open>crypto.rs\<close>): bearer tokens. \<open>Admin_Middleware\<close>
    (\<open>proxy/src/auth_middleware\<close>): client address, limiter, authentication and audit of an admin request.
  \<^item> \<open>Config_Validation\<close>, \<open>Config_Loader\<close>, \<open>Hot_Config\<close> (\<open>config/src\<close>): the validators, the four layers of the
    loader, and the settings that change at run time. \<open>Node_Startup\<close> (\<open>node/src\<close>): command line, settings in
    effect, token rotation and reload on \<open>SIGHUP\<close>.
  \<^item> \<open>Gateway\<close> (\<open>proxy/src/gateway\<close>, \<open>common/src/types.rs\<close>): route configurations, bearer tokens and their key set, roles and
    scopes, API keys, namespace rules. \<open>Gateway_Http\<close>: CORS and the transformation of requests. \<open>Upstream\<close>
    (\<open>proxy/src/upstream\<close>, \<open>upstream_health.rs\<close>, \<open>node_table.rs\<close>, \<open>service/upstream_selection.rs\<close>): instances in turn, health
    checks, the table of nodes, the choice of an upstream. \<open>Proxy_Service\<close> (\<open>proxy/src/service\<close>): the request filter with its
    stages and the two message filters.
  \<^item> \<open>Namespace_Registry\<close> (\<open>supervisor/src/network.rs\<close>): the instances by namespace and name. \<open>Namespace_Map\<close>
    (\<open>ebpf-monitor/src/namespace_map.rs\<close>, \<open>common.rs\<close>): the identity of threads and ports. \<open>Internal_Gateway\<close>
    (\<open>internal_gateway/src/lib.rs\<close>): the handler of calls between applications.
  \<^item> \<open>Table_Store\<close>: the transactions that the tables share, sequences of transactions that stop at the
    first error, and what both do to a table as a map.
  \<^item> \<open>App_Store\<close> (\<open>storage/src/config.rs\<close>, \<open>storage/src/artifact.rs\<close>): configurations, artifacts, raw modules,
    verification records and hashes of applications.
  \<^item> \<open>Storage_Gc\<close> (\<open>storage/src/gc.rs\<close>, \<open>storage/src/metrics.rs\<close>): collection of artifact versions and metric
    buckets, undeploy markers and the purge. A tick takes nothing from a configured application; an
    application undeployed under its full identifier is listed as deployed again after its grace period.
  \<^item> \<open>Cluster_State\<close> (\<open>storage/src/management_state.rs\<close>, \<open>node/src/handlers/cluster_runtime.rs\<close>, \<open>node/src/main.rs\<close>): the
    tables of nodes, gateway configurations and API keys, the handlers of cluster events, the gateway part of a state
    snapshot, the admin handlers of gateway configurations and the gateway at start.
  \<^item> \<open>Artifact_Transfer\<close> (\<open>common/src/artifact_transfer.rs\<close>, \<open>storage/src/artifact_server.rs\<close>): signed transfer
    manifests and the server that hands modules to other nodes. A remote peer reads only what a manifest issued for it
    permits, and a single-use manifest is honoured once.
  \<^item> \<open>Artifact_Ingest\<close> (\<open>node/src/handlers/deploy_intent.rs\<close>, \<open>common/src/deploy.rs\<close>): deployment from a URL or an OCI
    registry. What is announced is stored under its digest, and a download with another digest changes nothing.
  \<^item> \<open>Secret_Store\<close> (\<open>secrets/src\<close>, \<open>storage/src/secrets.rs\<close>): encrypted secrets per application, shown to implement
    a map from application and name to value, and encryption for another node.
  \<^item> \<open>Instance_Spawn\<close>, \<open>Instance_Lifecycle\<close> (\<open>supervisor/src\<close>): the ports of a node, admission, the environment and the socket
    check of an instance, its start and registration; shutdown, commands, the health tick and admission by fuel.
    \<open>Instance_Invariants\<close>: what holds while starts, stops and failures are interleaved.
  \<^item> This theory: the push of hot settings to the request limiter, and the properties that span components.

  \<^bold>\<open>Conventions.\<close> A struct is a record, an enum a datatype, a machine integer a word of its width; release
  builds do not check for overflow, so arithmetic wraps where the source does not use a checked operation. \<open>Result\<close> is a
  sum whose left side is the error; an error message is a constructor. Every reading of the clock is an
  argument of the operation that reads it, in nanoseconds. Locks and atomic operations make the operation they protect one
  step; where several atomic operations follow each other (\<open>Policy_Concurrency\<close>) the steps are interleaved. \<open>usize\<close>
  has 64 bits. All recursions are structural or have a termination proof. Two loops may run forever: a compare-exchange
  loop under contention is a step relation, and an undisturbed caller is shown to finish; the wait for the identity of a caller is a
  partial function, shown to end when its polls are a millisecond apart.

  \<^bold>\<open>What is shown.\<close> Routing: resolution returns the longest registered prefix, every operation acts on the
  registered pairs as specified, accepted routes survive a restart, and a hot swap repoints exactly the stored routes; two
  defects of the store and of route removal are stated. Requests: exactly which requests the filter passes on and for which
  application; a token is accepted only if verified against a current key, and roles and scopes are decided exactly; which identity
  headers reach an instance; on a fresh circuit, a run of server errors opens it. Instances: round robin is exactly fair, the health flag follows its
  thresholds, an upstream is local, the least loaded eligible node or freshly started. Calls between applications: the target answers only
  callers identified over the loopback interface, within the namespace policy and with the credentials asked for; a deregistered thread
  is not identified again; names and host names read back. The gateway's configurations survive a restart. Instances keep
  their ports to themselves, requests are routed to ready instances of their application, and a start followed by a stop leaves no trace;
  defects of the bookkeeping are stated. Secrets: the provider implements a map, and with working libraries no call fails. Circuit breaker: it opens exactly on a run of failures,
  rejects until the timeout and recovers; the half-open state admits every request. Policies: resolution is exact, the
  enforcer and the socket check decide as the policy says, quotas and slots hold for sequences and for all
  interleavings, every memory stays within its limit; a wrap-around, a truncation and a limit that is cumulative are stated. Limiters: bounds
  on granted requests up to the rounding error of the arithmetic, for the proxy and the admin interface. Admin interface: a request is
  forwarded exactly if it is public or passes the limiter with a sufficient token; forwarding headers of untrusted peers have no
  influence; a production node forwards nothing without a configured token, whatever its inputs. Configuration: a validated
  production configuration is locked down, limits are consistent, layers have the documented order, hot settings are always valid and, but for the
  last digits of the disk threshold, durable; defects of the reload, of flag defaults and of a \<open>NaN\<close> threshold are stated.

  \<^bold>\<open>Parameters.\<close> Code outside \<open>src\<close> is an argument with named hypotheses: the database \<open>redb\<close> (\<open>redb_contract\<close>), the
  serialiser \<open>serde_json\<close> (\<open>serde_contract\<close>; \<open>hot_serde_contract\<close> and \<open>keeps_fractions\<close>
  for numbers, which need not read back exactly), the parsers of \<open>ipnet\<close>, \<open>url\<close>, \<open>hex\<close> and TOML, the key-value
  client of NATS (\<open>rejects_invalid_keys\<close>), random tokens, the header and URI types of \<open>http\<close> (\<open>http_contract\<close>), \<open>jsonwebtoken\<close> and
  the HTTP client, \<open>sha2\<close>, \<open>hex\<close> and \<open>ed25519-dalek\<close> (\<open>crypto_contract\<close>, and \<open>unforged\<close> for signatures
  presented by others), authenticated encryption and key exchange (\<open>aead_contract\<close>, \<open>kex_contract\<close>), the message bus, host name look-up, the trace propagator (\<open>w3c_trace_headers\<close>), the kernel's answers to the monitor.

  \<^bold>\<open>Not modelled so far.\<close> The health endpoints of the node; the deployment pipeline and upgrade, the export of policy metrics and the load
  reporter of the supervisor; migrations and the remaining tables of the storage; billing; the
  DNS stub; the event consumer of the eBPF monitor; the command-line client. HTTP, TLS, the message bus, WebAssembly execution and
  kernel programs are input and output or third-party code.
\<close>

section \<open>Pushing hot settings to the request limiter\<close>

text \<open>The part of one round of the configuration sync loop that reaches the request limiter.\<close>

definition sync_rate_limiter :: "hot_config \<Rightarrow> rate_limiter \<Rightarrow> rate_limiter" where
  "sync_rate_limiter hot l = update_default_config
     \<lparr> rlc_requests_per_second = rl_default_requests_per_second (hc_rate_limit hot),
       rlc_burst_capacity = rl_default_burst_capacity (hc_rate_limit hot),
       rlc_per_ip_limit = rl_default_per_ip_limit (hc_rate_limit hot) \<rparr> l"

definition live_limiter :: rate_limiter where
  "live_limiter = (rate_limiter_new rate_limit_config_default)\<lparr>
     app_buckets := [(''shop'', bucket_new 1000 50 5)], ip_buckets := [((''shop'', V4 1), bucket_new 100 100 5)] \<rparr>"

section \<open>A production node\<close>

definition production_boot :: "ip_addr boot" where
  "production_boot = \<lparr> bt_libs = sample_libs, bt_toml = (\<lambda>_. Inr sample_production_config),
     bt_json_strings = (\<lambda>_. None) \<rparr>"

definition production_state :: "ip_addr auth_state" where
  "production_state = \<lparr> as_config = auth_config_of_section (nc_auth sample_production_config), as_rate_limited_total = 0,
     as_auth_failures_total = 0, as_auth_successes_total = 0, as_rate_limiter = admin_limiter_new 10 20,
     as_trusted_proxies = [], as_audit = Some [], as_node_id = ''node-0'' \<rparr>"

definition production_request :: admin_request where
  "production_request = \<lparr> rq_method = POST, rq_path = ''/admin/rebuild'',
     rq_headers = (\<lambda>name. if name = ''Authorization'' then Some (Visible (''Bearer '' @ sample_write_token)) else None),
     rq_peer = None \<rparr>"

section \<open>Facts\<close>

lemma bearer_header:
  "extract_bearer_token (header_str h name) = Some t \<longleftrightarrow>
     (\<exists>v. h name = Some (Visible (''Bearer '' @ v)) \<and> t = str_trim v \<and> t \<noteq> [])"
proof -
  have "extract_bearer_token x = Some t \<longleftrightarrow> (\<exists>v. x = Some (''Bearer '' @ v) \<and> t = str_trim v \<and> t \<noteq> [])" for x
    by (auto simp: extract_bearer_token_def strip_prefix_def Let_def prefix_def split: option.splits)
  then show ?thesis
    by (simp only: header_str_iff)
qed

lemma effective_auth_production:
  assumes "effective_auth_config lib db js c t = Inr a" and "ns_environment (nc_node c) = Production"
  shows "a = configured_auth c"
proof -
  obtain x where x: "(case load_auth_config db js t of
        Inr (Some persisted) \<Rightarrow> if ns_environment (nc_node c) = Production then Err PlaintextOverrideRejected else Ok persisted
      | Inr None \<Rightarrow> Ok (configured_auth c)
      | Inl e \<Rightarrow> if ns_environment (nc_node c) = Production then Err (OverrideUnverified e) else Ok (configured_auth c)) = Inr x"
    and rest: "(case auth_validate (lib_net_parse lib) (lib_net_of_ip lib) x of
        Inl e \<Rightarrow> Err (InvalidAuth e)
      | Inr _ \<Rightarrow> (case check_admin_tls_requirement x (admin_tls_is_configured c) of
            Inl _ \<Rightarrow> Err AdminTlsRequired | Inr _ \<Rightarrow> Ok x)) = Inr a"
    using assms(1) unfolding effective_auth_config_def Let_def try_then_Ok_iff by blast
  have "a = x"
    using rest
    by (cases "auth_validate (lib_net_parse lib) (lib_net_of_ip lib) x";
        cases "check_admin_tls_requirement x (admin_tls_is_configured c)") simp_all
  then show ?thesis
    using x assms(2) by (auto split: sum.splits option.splits)
qed

lemma serve_synced:
  assumes "hm_get (app_buckets l) app \<noteq> None" and "hm_get (ip_buckets l) (app, rq_ip r) \<noteq> None"
  shows "serve app r (sync_rate_limiter hot l) =
    (fst (serve app r l), sync_rate_limiter hot (snd (serve app r l)))"
  using assms
  by (auto simp: serve_def check_request_def sync_rate_limiter_def update_default_config_def hm_or_insert_def Let_def
      case_prod_unfold split: option.splits)

lemma serve_keeps_buckets:
  assumes "hm_get (app_buckets l) app \<noteq> None"
  shows "hm_get (app_buckets (snd (serve app r l))) app \<noteq> None"
    "hm_get (ip_buckets l) (app, ip) \<noteq> None \<Longrightarrow> hm_get (ip_buckets (snd (serve app r l))) (app, ip) \<noteq> None"
  by (auto simp: serve_def check_request_def Let_def case_prod_unfold hm.get_insert split: if_splits)

lemma live_buckets:
  "hm_get (app_buckets live_limiter) ''shop'' \<noteq> None" "hm_get (ip_buckets live_limiter) (''shop'', V4 1) \<noteq> None"
  by (simp_all add: live_limiter_def hm_get_def)

lemma merge_production:
  "merge_config (node_config_default None) sample_production_config = sample_production_config"
  by (simp add: merge_config_def sample_production_config_def node_config_default_def merge_node_def merge_storage_def
      merge_nats_def merge_proxy_def merge_admin_def merge_auth_def merge_runtime_def merge_database_def
      merge_logging_def merge_billing_def merge_gc_def merge_rate_limit_def merge_ebpf_def merge_dns_def
      merge_health_def merge_gateway_def if_empty_def section_defaults
      gateway_rate_limit_section_default_def gateway_circuit_breaker_section_default_def)

lemma production_load:
  "load_config production_boot legacy_fs (\<lambda>_. None) (Some ''node.toml'') cli_overrides_default =
     Inr sample_production_config"
  unfolding load_config_Ok_iff
  by (simp add: load_file_def production_boot_def legacy_fs_def merge_production no_env_overrides no_cli_overrides
      validate_config_Ok_iff sample_config_errors)

lemma production_effective:
  "effective_auth_config sample_libs mem_redb w_auth_serde sample_production_config [] =
     Inr (auth_config_of_section (nc_auth sample_production_config))"
proof -
  have "auth_section_errors sample_libs sample_production_config = []"
    using sample_config_errors by (simp only: config_error_simps)
  then have valid: "auth_validate (lib_net_parse sample_libs) (lib_net_of_ip sample_libs)
      (auth_config_of_section (nc_auth sample_production_config)) = Inr ()"
    by (auto simp: auth_section_errors_def split: sum.splits)
  have tls: "admin_tls_is_configured sample_production_config"
    by (simp add: admin_tls_is_configured_def admin_tls_material_def sample_sections)
  have base: "configured_auth sample_production_config = auth_config_of_section (nc_auth sample_production_config)"
    by (simp add: configured_auth_def sample_sections)
  show ?thesis
    by (simp add: effective_auth_config_def Let_def w_auth_save base valid check_admin_tls_requirement_def tls)
qed

lemma production_forwarded:
  "fst (auth_middleware (=) production_request 0 0 production_state) = Forwarded"
  "\<not> is_public_endpoint (rq_path production_request)"
proof -
  have "header_str (rq_headers production_request) ''Authorization'' = Some (''Bearer '' @ sample_write_token)"
    by (simp add: header_str_iff production_request_def)
  moreover have "ar_permission (authenticate (as_config production_state) (Some (''Bearer '' @ sample_write_token))) = PermWrite"
    using authenticate_bearer [of "as_config production_state" sample_write_token sample_write_token]
    by (simp add: production_state_def auth_config_of_section_def sample_sections sample_tokens) (simp add: sample_write_token_def)
  ultimately show "fst (auth_middleware (=) production_request 0 0 production_state) = Forwarded"
    unfolding middleware_forwarded_iff permission_needed
    by (simp add: production_request_def extract_client_ip_def production_state_def allow_def extract_forwarded_client_ip_def)
  show "\<not> is_public_endpoint (rq_path production_request)"
    by (simp add: production_request_def is_public_endpoint_def)
qed

section \<open>Properties across components\<close>

text \<open>
  (C11) From the configuration to the request: a production node whose configuration loads and whose
  authentication settings are accepted at start forwards a request to an admin handler, other than a public probe,
  only if it carries a bearer token of exactly 64 hexadecimal digits that equals the configured write token, or the read
  token and the method only reads; no command line, environment, file, database content or header changes that.
\<close>

theorem production_node_admin_closed:
  assumes "load_config B fs env config_path cli = Inr c" and "ns_environment (nc_node c) = Production"
    and "effective_auth_config (bt_libs B) db js c t = Inr (as_config s)"
    and "fst (auth_middleware net_contains r n now s) = Forwarded" and "\<not> is_public_endpoint (rq_path r)"
  shows "\<exists>v token. rq_headers r ''Authorization'' = Some (Visible (''Bearer '' @ v)) \<and> token = str_trim v \<and>
    length token = 64 \<and> list_all is_ascii_hexdigit token \<and>
    (au_write_token (nc_auth c) = Some token \<or>
     au_read_token (nc_auth c) = Some token \<and> rq_method r \<in> {GET, HEAD, OPTIONS})"
proof -
  have ok: "config_errors (bt_libs B) c = []"
    using assms(1) load_config_Ok_iff validate_config_Ok_iff by metis
  note prod = production_clauses [OF ok assms(2)]
  have conf: "as_config s = auth_config_of_section (nc_auth c)"
    using effective_auth_production [OF assms(3,2)] prod(1) by (simp add: configured_auth_def)
  have on: "ac_enabled (as_config s)"
    using conf prod(1) by (simp add: auth_config_of_section_def)
  let ?h = "header_str (rq_headers r) ''Authorization''"
  have "\<not> permission_level (ar_permission (authenticate (as_config s) ?h)) <
      permission_level (required_permission (rq_method r))"
    using assms(4,5) middleware_forwarded_iff by blast
  then obtain token where token: "extract_bearer_token ?h = Some token"
    "ac_write_token (as_config s) = Some token \<or>
     ac_read_token (as_config s) = Some token \<and> rq_method r \<in> {GET, HEAD, OPTIONS}"
    using on unfolding permission_needed
    by (auto simp: authenticate_def token_matches_iff split: option.splits if_splits)
  then obtain v where "rq_headers r ''Authorization'' = Some (Visible (''Bearer '' @ v))" "token = str_trim v"
    using bearer_header by blast
  moreover have "length token = 64 \<and> list_all is_ascii_hexdigit token"
    using token(2) conf production_token_error_Nil [OF prod(4)] production_token_error_Nil [OF prod(5)]
    by (auto simp: auth_config_of_section_def)
  ultimately show ?thesis
    using token(2) conf by (auto simp: auth_config_of_section_def)
qed

theorem production_node_admin_closed_witness:
  "fst (auth_middleware (=) production_request 0 0 production_state) = Forwarded \<and>
   (\<exists>v token. rq_headers production_request ''Authorization'' = Some (Visible (''Bearer '' @ v)) \<and>
     token = str_trim v \<and> length token = 64 \<and> au_write_token (nc_auth sample_production_config) = Some token)"
proof -
  have "ns_environment (nc_node sample_production_config) = Production"
    "bt_libs production_boot = sample_libs" "rq_method production_request = POST"
    "as_config production_state = auth_config_of_section (nc_auth sample_production_config)"
    by (simp_all add: sample_sections production_boot_def production_request_def production_state_def)
  with production_node_admin_closed [OF production_load _ _ production_forwarded, of mem_redb w_auth_serde "[]"]
    production_effective production_forwarded(1)
  show ?thesis by auto
qed

text \<open>
  A new default rate does not reach running applications: for an application that has a bucket, however the hot
  settings change and are pushed to the limiter, any sequence of requests from addresses that have buckets is answered
  exactly as under the old settings.
\<close>

theorem hot_rate_limit_ignored_by_live_apps:
  assumes "hm_get (app_buckets l) app \<noteq> None"
    and "\<forall>r \<in> set rs. hm_get (ip_buckets l) (app, rq_ip r) \<noteq> None"
  shows "fst (serve_all app rs (sync_rate_limiter hot l)) = fst (serve_all app rs l)"
  using assms
proof (induction rs arbitrary: l)
  case (Cons r rs)
  have "serve app r (sync_rate_limiter hot l) = (fst (serve app r l), sync_rate_limiter hot (snd (serve app r l)))"
    using Cons.prems by (intro serve_synced) auto
  moreover have "fst (serve_all app rs (sync_rate_limiter hot (snd (serve app r l)))) =
      fst (serve_all app rs (snd (serve app r l)))"
    using Cons.prems serve_keeps_buckets [of l app] by (intro Cons.IH) auto
  ultimately show ?case
    by (simp add: case_prod_unfold)
qed simp

theorem hot_rate_limit_ignored_by_live_apps_witness:
  "\<exists>hot. rl_default_requests_per_second (hc_rate_limit hot) = 1 \<and>
     fst (serve_all ''shop'' [at_instant 7 (V4 1), at_instant 9 (V4 1)] (sync_rate_limiter hot live_limiter)) =
     fst (serve_all ''shop'' [at_instant 7 (V4 1), at_instant 9 (V4 1)] live_limiter)"
proof -
  have "hm_get (app_buckets live_limiter) ''shop'' \<noteq> None" "hm_get (ip_buckets live_limiter) (''shop'', V4 1) \<noteq> None"
    using live_buckets by auto
  then have "fst (serve_all ''shop'' [at_instant 7 (V4 1), at_instant 9 (V4 1)] (sync_rate_limiter hot live_limiter)) =
     fst (serve_all ''shop'' [at_instant 7 (V4 1), at_instant 9 (V4 1)] live_limiter)" for hot
    by (intro hot_rate_limit_ignored_by_live_apps) (simp_all add: at_instant_def)
  moreover have "rl_default_requests_per_second (hc_rate_limit ((from_cold_config (node_config_default None))
      \<lparr> hc_rate_limit := rate_limit_section_default\<lparr> rl_default_requests_per_second := 1 \<rparr> \<rparr>)) = 1"
    by simp
  ultimately show ?thesis by blast
qed

end
